(* ===== verification/Prelude.thy ===== *)
theory Prelude
  imports Main "HOL-Library.Word"
begin

text \<open>
  Shared vocabulary of the development: the machine types of the code, the faults a C
  function can end in, sequencing of computations that may fault, and the generic lemmas
  the component theories share.

  A C function that can abort (a failed \<^verbatim>\<open>assert\<close>), dereference a null or freed
  pointer, or write past a fixed-size array returns a value of \<open>fault + 'a\<close>: \<open>Inl\<close> of the
  fault, or \<open>Inr\<close> of the result. A loop that need not end takes fuel; \<open>Out_Of_Fuel\<close> means it
  was still running when the fuel was used up.
\<close>

section \<open>Machine types\<close>

type_synonym global_id = "64 word"
type_synonym arg = "64 word"
type_synonym handle = "64 word"
type_synonym u32 = "32 word"
type_synonym byte = "8 word"

section \<open>Faults\<close>

datatype fault =
    Assertion_Failed
  | Null_Deref
  | Use_After_Free
  | Buffer_Overflow
  | Uninit_Read
  | Int_Overflow
  | Out_Of_Fuel

definition rbind :: "fault + 'a \<Rightarrow> ('a \<Rightarrow> fault + 'b) \<Rightarrow> fault + 'b" where
  "rbind m f = (case m of Inl e \<Rightarrow> Inl e | Inr x \<Rightarrow> f x)"

text \<open>\<^verbatim>\<open>assert(b)\<close> with assertions enabled, as the code is built by default.\<close>

definition c_assert :: "bool \<Rightarrow> fault + unit" where
  "c_assert b = (if b then Inr () else Inl Assertion_Failed)"

named_theorems fault_simps \<open>evaluation of computations that may fault\<close>

lemma rbind_simps [simp]:
  "rbind (Inl e) f = Inl e"
  "rbind (Inr x) f = f x"
  by (simp_all add: rbind_def)

lemma rbind_eq_Inr_iff [fault_simps]:
  "rbind m f = Inr y \<longleftrightarrow> (\<exists>x. m = Inr x \<and> f x = Inr y)"
  by (cases m) auto

lemma rbind_eq_InrE [elim]:
  assumes "rbind m f = Inr y"
  obtains x where "m = Inr x" and "f x = Inr y"
  using assms by (auto simp: fault_simps)

lemma rbind_cong [fundef_cong]:
  "m = m' \<Longrightarrow> (\<And>x. m' = Inr x \<Longrightarrow> f x = f' x) \<Longrightarrow> rbind m f = rbind m' f'"
  by (cases m') auto

lemma c_assert_simps [simp]:
  "c_assert True = Inr ()"
  "c_assert False = Inl Assertion_Failed"
  "c_assert b = Inr u \<longleftrightarrow> b"
  by (simp_all add: c_assert_def)

text \<open>Reading through a pointer into a heap of records; 0 is the null pointer.\<close>

definition deref :: "(nat \<rightharpoonup> 'a) \<Rightarrow> nat \<Rightarrow> fault + 'a" where
  "deref h p =
     (if p = 0 then Inl Null_Deref
      else case h p of None \<Rightarrow> Inl Use_After_Free | Some x \<Rightarrow> Inr x)"

lemma deref_eq_Inr [simp]: "deref h p = Inr x \<longleftrightarrow> p \<noteq> 0 \<and> h p = Some x"
  by (simp add: deref_def split: option.splits)

lemma deref_live: "h p = Some x \<Longrightarrow> p \<noteq> 0 \<Longrightarrow> deref h p = Inr x"
  by simp

section \<open>Ordered lists\<close>

lemma sorted_wrt_less_append:
  "sorted_wrt (<) (xs @ ys) \<longleftrightarrow>
     sorted_wrt (<) xs \<and> sorted_wrt (<) ys \<and> (\<forall>x\<in>set xs. \<forall>y\<in>set ys. x < (y::'a::linorder))"
  by (simp add: sorted_wrt_append)

lemma sorted_wrt_less_distinct:
  "sorted_wrt (<) (xs :: 'a::linorder list) \<Longrightarrow> distinct xs"
  by (simp add: strict_sorted_iff)

lemma filter_all_key:
  "(\<And>x. x \<in> set xs \<Longrightarrow> P x) \<Longrightarrow> filter P xs = xs"
  by (simp add: filter_id_conv)

lemma filter_none_key:
  "(\<And>x. x \<in> set xs \<Longrightarrow> \<not> P x) \<Longrightarrow> filter P xs = []"
  by (simp add: filter_empty_conv)

end
