(* ===== verification/Rb_Tree.thy ===== *)
theory Rb_Tree
  imports Prelude
begin

text \<open>
  The red-black tree of \<^verbatim>\<open>common/rb.c\<close> and \<^verbatim>\<open>include/rb.h\<close>: nodes, the stack of
  ancestors that the insertion and deletion loops keep in \<open>ap\<close>/\<open>ad\<close> (\<open>pa\<close>/\<open>a\<close>), and the
  searches. A stack entry is an ancestor together with the direction taken at it and its
  other subtree, so a write through \<open>ap[k]\<close> is an update of the \<open>k\<close>-th entry. The sentinel
  \<open>&tree->root\<close> at index 0 is the empty stack; the entry at index \<open>k \<ge> 1\<close> is the \<open>k\<close>-th
  frame counted from the root. Every write at an index of \<open>RB_MAX_HEIGHT\<close> or more is a
  \<open>Buffer_Overflow\<close>.
\<close>

section \<open>Nodes, trees and ancestor stacks\<close>

datatype rb_color = RB_BLACK | RB_RED

datatype dir = D0 | D1

text \<open>A node is \<open>Node data link[0] link[1] color\<close>.\<close>

datatype 'a rb_node =
    NULL
  | Node 'a "'a rb_node" "'a rb_node" rb_color

record 'a rb_tree =
  rb_root :: "'a rb_node"
  rb_cnt :: int

definition RB_MAX_HEIGHT :: nat where
  "RB_MAX_HEIGHT = 32"

datatype 'a frame = Frame dir 'a rb_color "'a rb_node"

fun is_red :: "'a rb_node \<Rightarrow> bool" where
  "is_red NULL = False"
| "is_red (Node d l r c) = (c = RB_RED)"

fun set_color :: "rb_color \<Rightarrow> 'a rb_node \<Rightarrow> 'a rb_node" where
  "set_color c NULL = NULL"
| "set_color c (Node d l r _) = Node d l r c"

fun fill :: "'a frame \<Rightarrow> 'a rb_node \<Rightarrow> 'a rb_node" where
  "fill (Frame D0 d c s) t = Node d t s c"
| "fill (Frame D1 d c s) t = Node d s t c"

fun rebuild :: "'a frame list \<Rightarrow> 'a rb_node \<Rightarrow> 'a rb_node" where
  "rebuild [] t = t"
| "rebuild (f # st) t = rebuild st (fill f t)"

definition rb_create :: "'a rb_tree" where
  "rb_create = \<lparr>rb_root = NULL, rb_cnt = 0\<rparr>"

definition rb_count :: "'a rb_tree \<Rightarrow> int" where
  "rb_count t = rb_cnt t"

section \<open>Searches\<close>

text \<open>
  Store an entry at the index after the ones in use: \<open>ap[ak] = x; ad[ak++] = \<dots>\<close>.
\<close>

definition push_frame :: "'a frame \<Rightarrow> 'a frame list \<Rightarrow> fault + 'a frame list" where
  "push_frame f st =
     (if length st + 1 < RB_MAX_HEIGHT then Inr (f # st) else Inl Buffer_Overflow)"

text \<open>
  The descent of \<^verbatim>\<open>rb_probe\<close> and \<^verbatim>\<open>rb_delete\<close>: it stops at the matching node, or at the
  null link where the item belongs.
\<close>

fun rb_search ::
  "('a \<Rightarrow> fault + int) \<Rightarrow> 'a frame list \<Rightarrow> 'a rb_node \<Rightarrow> fault + ('a frame list \<times> 'a rb_node)"
where
  "rb_search cmp st NULL = Inr (st, NULL)"
| "rb_search cmp st (Node d l r c) =
     rbind (cmp d) (\<lambda>diff.
       if diff < 0 then rbind (push_frame (Frame D0 d c r) st) (\<lambda>st'. rb_search cmp st' l)
       else if diff > 0 then rbind (push_frame (Frame D1 d c l) st) (\<lambda>st'. rb_search cmp st' r)
       else Inr (st, Node d l r c))"

fun rb_find_node :: "('a \<Rightarrow> fault + int) \<Rightarrow> 'a rb_node \<Rightarrow> fault + 'a option" where
  "rb_find_node cmp NULL = Inr None"
| "rb_find_node cmp (Node d l r c) =
     rbind (cmp d) (\<lambda>diff.
       if diff < 0 then rb_find_node cmp l
       else if diff > 0 then rb_find_node cmp r
       else Inr (Some d))"

definition rb_find :: "('i \<Rightarrow> 'a \<Rightarrow> fault + int) \<Rightarrow> 'a rb_tree \<Rightarrow> 'i \<Rightarrow> fault + 'a option" where
  "rb_find cmp tree item = rb_find_node (cmp item) (rb_root tree)"

fun rb_find_close_node :: "('a \<Rightarrow> fault + int) \<Rightarrow> 'a rb_node \<Rightarrow> fault + 'a option" where
  "rb_find_close_node cmp NULL = Inr None"
| "rb_find_close_node cmp (Node d l r c) =
     rbind (cmp d) (\<lambda>diff.
       if diff < 0 then (if l \<noteq> NULL then rb_find_close_node cmp l else Inr (Some d))
       else if diff > 0 then (if r \<noteq> NULL then rb_find_close_node cmp r else Inr (Some d))
       else Inr (Some d))"

definition rb_find_close ::
  "('i \<Rightarrow> 'a \<Rightarrow> fault + int) \<Rightarrow> 'a rb_tree \<Rightarrow> 'i \<Rightarrow> fault + 'a option"
where
  "rb_find_close cmp tree item = rb_find_close_node (cmp item) (rb_root tree)"

section \<open>Inorder contents, colours and heights\<close>

fun inorder :: "'a rb_node \<Rightarrow> 'a list" where
  "inorder NULL = []"
| "inorder (Node d l r c) = inorder l @ d # inorder r"

fun ctx_left :: "'a frame list \<Rightarrow> 'a list" where
  "ctx_left [] = []"
| "ctx_left (Frame D0 d c s # st) = ctx_left st"
| "ctx_left (Frame D1 d c s # st) = ctx_left st @ inorder s @ [d]"

fun ctx_right :: "'a frame list \<Rightarrow> 'a list" where
  "ctx_right [] = []"
| "ctx_right (Frame D0 d c s # st) = d # inorder s @ ctx_right st"
| "ctx_right (Frame D1 d c s # st) = ctx_right st"

fun bheight :: "'a rb_node \<Rightarrow> nat" where
  "bheight NULL = 0"
| "bheight (Node d l r c) = (if c = RB_BLACK then Suc (bheight l) else bheight l)"

fun rb_height :: "'a rb_node \<Rightarrow> nat" where
  "rb_height NULL = 0"
| "rb_height (Node d l r c) = Suc (max (rb_height l) (rb_height r))"

text \<open>No red node has a red child; every path to a null link has as many black nodes.\<close>

fun invc :: "'a rb_node \<Rightarrow> bool" where
  "invc NULL \<longleftrightarrow> True"
| "invc (Node d l r c) \<longleftrightarrow> (c = RB_RED \<longrightarrow> \<not> is_red l \<and> \<not> is_red r) \<and> invc l \<and> invc r"

fun invh :: "'a rb_node \<Rightarrow> bool" where
  "invh NULL \<longleftrightarrow> True"
| "invh (Node d l r c) \<longleftrightarrow> bheight l = bheight r \<and> invh l \<and> invh r"

definition rb_shape :: "'a rb_node \<Rightarrow> bool" where
  "rb_shape t \<longleftrightarrow> invc t \<and> invh t \<and> \<not> is_red t"

definition rb_sorted :: "('a \<Rightarrow> 'k::linorder) \<Rightarrow> 'a rb_node \<Rightarrow> bool" where
  "rb_sorted key t \<longleftrightarrow> sorted_wrt (<) (map key (inorder t))"

text \<open>The invariant of a whole tree: shape, order and the stored number of nodes.\<close>

definition rb_inv :: "('a \<Rightarrow> 'k::linorder) \<Rightarrow> 'a rb_tree \<Rightarrow> bool" where
  "rb_inv key tree \<longleftrightarrow>
     rb_shape (rb_root tree) \<and> rb_sorted key (rb_root tree) \<and>
     rb_cnt tree = int (length (inorder (rb_root tree)))"

lemma rb_color_cases [simp]: "c \<noteq> RB_BLACK \<longleftrightarrow> c = RB_RED" "c \<noteq> RB_RED \<longleftrightarrow> c = RB_BLACK"
  by (cases c; simp)+

lemma inorder_set_color [simp]: "inorder (set_color c t) = inorder t"
  by (cases t) auto

lemma is_red_set_color [simp]: "is_red (set_color RB_BLACK t) = False"
  by (cases t) auto

lemma invh_set_color [simp]: "invh (set_color c t) = invh t"
  by (cases t) auto

lemma inorder_fill:
  "inorder (fill (Frame d x c s) t) = (case d of D0 \<Rightarrow> inorder t @ x # inorder s | D1 \<Rightarrow> inorder s @ x # inorder t)"
  by (cases d) auto

lemma inorder_rebuild: "inorder (rebuild st t) = ctx_left st @ inorder t @ ctx_right st"
proof (induction st arbitrary: t)
  case Nil
  then show ?case by simp
next
  case (Cons f st)
  obtain d x c s where "f = Frame d x c s" by (cases f)
  then show ?case using Cons by (cases d) (auto simp: inorder_fill)
qed

lemma rebuild_append: "rebuild (xs @ ys) t = rebuild ys (rebuild xs t)"
  by (induction xs arbitrary: t) auto

section \<open>Well-formed ancestor stacks\<close>

text \<open>
  \<open>ctx_h st h\<close>: putting a subtree of black height \<open>h\<close> at the bottom of the stack gives a
  tree in which all paths agree. \<open>ctx_c st c\<close>: a subtree whose root has colour \<open>c\<close> can be
  put there without a red node below a red node, and the root of the whole is black.
\<close>

fun ctx_h :: "'a frame list \<Rightarrow> nat \<Rightarrow> bool" where
  "ctx_h [] h \<longleftrightarrow> True"
| "ctx_h (Frame d x c s # st) h \<longleftrightarrow>
     invh s \<and> bheight s = h \<and> ctx_h st (if c = RB_BLACK then Suc h else h)"

fun ctx_c :: "'a frame list \<Rightarrow> rb_color \<Rightarrow> bool" where
  "ctx_c [] c \<longleftrightarrow> c = RB_BLACK"
| "ctx_c (Frame d x pc s # st) c \<longleftrightarrow>
     invc s \<and> (pc = RB_RED \<longrightarrow> c = RB_BLACK \<and> \<not> is_red s) \<and> ctx_c st pc"

definition node_color :: "'a rb_node \<Rightarrow> rb_color" where
  "node_color t = (if is_red t then RB_RED else RB_BLACK)"

lemma node_color_simps [simp]:
  "node_color NULL = RB_BLACK" "node_color (Node d l r c) = c"
  by (auto simp: node_color_def)

lemma not_red_node_color [simp]: "\<not> is_red t \<Longrightarrow> node_color t = RB_BLACK"
  by (simp add: node_color_def)

lemma ctx_c_push:
  assumes "ctx_c st c" and "invc (Node d l r c)"
  shows "ctx_c (Frame D0 d c r # st) (node_color l)" "ctx_c (Frame D1 d c l # st) (node_color r)"
  using assms by (auto simp: node_color_def)

lemma ctx_c_black: "ctx_c st c \<Longrightarrow> ctx_c st RB_BLACK"
proof (cases st)
  case (Cons f st')
  obtain d x pc s where "f = Frame d x pc s" by (cases f)
  then show "ctx_c st c \<Longrightarrow> ctx_c st RB_BLACK" using Cons by auto
qed simp

lemma rebuild_invh: "ctx_h st (bheight t) \<Longrightarrow> invh t \<Longrightarrow> invh (rebuild st t)"
proof (induction st arbitrary: t)
  case (Cons f st)
  obtain d x c s where f: "f = Frame d x c s" by (cases f)
  have "bheight (fill f t) = (if c = RB_BLACK then Suc (bheight t) else bheight t)"
    and "invh (fill f t)"
    using Cons.prems f by (cases d; simp)+
  then show ?case using Cons f by simp
qed simp

lemma rebuild_invc:
  "ctx_c st (node_color t) \<Longrightarrow> invc t \<Longrightarrow> invc (rebuild st t) \<and> \<not> is_red (rebuild st t)"
proof (induction st arbitrary: t)
  case Nil
  then show ?case by (auto simp: node_color_def split: if_splits)
next
  case (Cons f st)
  obtain d x c s where f: "f = Frame d x c s" by (cases f)
  have "node_color (fill f t) = c" and "invc (fill f t)"
    using Cons.prems f by (cases d; auto simp: node_color_def split: if_splits)+
  then show ?case using Cons f by simp
qed

lemma rebuild_shape:
  "ctx_c st (node_color t) \<Longrightarrow> ctx_h st (bheight t) \<Longrightarrow> invc t \<Longrightarrow> invh t \<Longrightarrow>
   rb_shape (rebuild st t)"
  by (simp add: rb_shape_def rebuild_invc rebuild_invh)

text \<open>A stack reached by a search from the root of a well-shaped tree is well formed.\<close>

lemma rb_search_ctx:
  assumes "rb_search cmp st t = Inr (st', n)"
    and "ctx_c st (node_color t)" and "ctx_h st (bheight t)" and "invc t" and "invh t"
  shows "rebuild st' n = rebuild st t \<and>
    ctx_c st' (node_color n) \<and> ctx_h st' (bheight n) \<and> invc n \<and> invh n"
  using assms
proof (induction t arbitrary: st)
  case (Node d l r c)
  from Node.prems(1) obtain diff where diff: "cmp d = Inr diff"
    by (auto simp: fault_simps)
  consider "diff < 0" | "diff > 0" | "diff = 0" by linarith
  then show ?case
  proof cases
    case 1
    with Node.prems(1) diff have "rb_search cmp (Frame D0 d c r # st) l = Inr (st', n)"
      by (auto simp: fault_simps push_frame_def split: if_splits)
    from Node.IH(1) [OF this] Node.prems show ?thesis
      by (auto simp: node_color_def split: if_splits)
  next
    case 2
    with Node.prems(1) diff have "rb_search cmp (Frame D1 d c l # st) r = Inr (st', n)"
      by (auto simp: fault_simps push_frame_def split: if_splits)
    from Node.IH(2) [OF this] Node.prems show ?thesis
      by (auto simp: node_color_def split: if_splits)
  next
    case 3
    with Node.prems diff show ?thesis by auto
  qed
qed simp

section \<open>Height bounds\<close>

lemma bheight_size: "invh t \<Longrightarrow> 2 ^ bheight t \<le> Suc (length (inorder t))"
proof (induction t)
  case (Node d l r c)
  then show ?case by (cases c) auto
qed simp

lemma height_bheight:
  "invc t \<Longrightarrow> invh t \<Longrightarrow> rb_height t \<le> 2 * bheight t + (if is_red t then 1 else 0)"
proof (induction t)
  case (Node d l r c)
  then show ?case by (cases c) (auto split: if_splits)
qed simp

text \<open>
  The arrays of \<open>RB_MAX_HEIGHT\<close> entries are long enough for a tree of up to 65534 nodes.
\<close>

definition rb_room :: "'a rb_tree \<Rightarrow> bool" where
  "rb_room tree \<longleftrightarrow> rb_cnt tree \<le> 65534"

lemma rb_shape_height:
  assumes "rb_shape t" and "length (inorder t) \<le> 65534"
  shows "rb_height t \<le> 30"
proof -
  have "(2::nat) ^ bheight t < 2 ^ 16"
    using bheight_size [of t] assms by (simp add: rb_shape_def)
  then have "bheight t < 16"
    by (rule power_less_imp_less_exp [rotated]) simp
  with height_bheight [of t] assms(1) show ?thesis
    by (simp add: rb_shape_def)
qed

end
