(* ===== verification/Rb_Order.thy ===== *)
theory Rb_Order
  imports Rb_Tree
begin

text \<open>
  The contract of the comparison function a tree is created with, as a locale: what
  \<^verbatim>\<open>rb_probe\<close>, \<^verbatim>\<open>rb_find\<close> and \<^verbatim>\<open>rb_delete\<close> rely on, and what their searches
  compute under it. \<open>ivalid\<close> and \<open>valid\<close> say which probe items and stored items the
  function can be called on; it does not fault there and its sign orders the keys.
\<close>

locale rb_order =
  fixes cmp :: "'i \<Rightarrow> 'a \<Rightarrow> fault + int"
    and ikey :: "'i \<Rightarrow> 'k::linorder"
    and key :: "'a \<Rightarrow> 'k"
    and ivalid :: "'i \<Rightarrow> bool"
    and valid :: "'a \<Rightarrow> bool"
  assumes cmp_total: "ivalid i \<Longrightarrow> valid a \<Longrightarrow> \<exists>d. cmp i a = Inr d"
    and cmp_less: "ivalid i \<Longrightarrow> valid a \<Longrightarrow> cmp i a = Inr d \<Longrightarrow> d < 0 \<longleftrightarrow> ikey i < key a"
    and cmp_greater: "ivalid i \<Longrightarrow> valid a \<Longrightarrow> cmp i a = Inr d \<Longrightarrow> d > 0 \<longleftrightarrow> key a < ikey i"
begin

lemma cmp_cases:
  assumes "ivalid i" and "valid a"
  obtains (less) d where "cmp i a = Inr d" "d < 0" "ikey i < key a"
    | (greater) d where "cmp i a = Inr d" "d > 0" "key a < ikey i"
    | (equal) d where "cmp i a = Inr d" "d = 0" "key a = ikey i"
proof -
  from cmp_total [OF assms] obtain d where d: "cmp i a = Inr d" by blast
  consider "ikey i < key a" | "key a < ikey i" | "key a = ikey i"
    by (rule linorder_cases [of "ikey i" "key a"]) auto
  then show thesis
  proof cases
    case 3
    then have "\<not> d < 0" "\<not> d > 0" using cmp_less [OF assms d] cmp_greater [OF assms d] by auto
    then show thesis using equal [OF d] 3 by simp
  qed (use less [OF d] greater [OF d] cmp_less [OF assms d] cmp_greater [OF assms d] in auto)
qed

definition keys_below :: "'a list \<Rightarrow> 'i \<Rightarrow> bool" where
  "keys_below xs i \<longleftrightarrow> (\<forall>x\<in>set xs. key x < ikey i)"

definition keys_above :: "'a list \<Rightarrow> 'i \<Rightarrow> bool" where
  "keys_above xs i \<longleftrightarrow> (\<forall>x\<in>set xs. ikey i < key x)"

definition srt :: "'a list \<Rightarrow> bool" where
  "srt xs \<longleftrightarrow> sorted_wrt (<) (map key xs)"

lemma srt_simps [simp]:
  "srt []"
  "srt (x # xs) \<longleftrightarrow> (\<forall>y\<in>set xs. key x < key y) \<and> srt xs"
  "srt (xs @ ys) \<longleftrightarrow> srt xs \<and> srt ys \<and> (\<forall>x\<in>set xs. \<forall>y\<in>set ys. key x < key y)"
  by (auto simp: srt_def sorted_wrt_append)

lemma srt_filter: "srt xs \<Longrightarrow> srt (filter P xs)"
  by (induction xs) auto

text \<open>The search does not fault and does not overrun the stack of a shallow tree.\<close>

lemma rb_search_total:
  assumes "ivalid i" and "\<forall>x\<in>set (inorder t). valid x"
    and "length st + rb_height t < RB_MAX_HEIGHT"
  shows "\<exists>st' n. rb_search (cmp i) st t = Inr (st', n) \<and>
    length st' + rb_height n \<le> length st + rb_height t"
  using assms
proof (induction t arbitrary: st)
  case (Node d l r c)
  have "valid d" using Node.prems by simp
  from Node.prems(1) \<open>valid d\<close> show ?case
  proof (cases rule: cmp_cases)
    case (less e)
    have "length (Frame D0 d c r # st) + rb_height l < RB_MAX_HEIGHT"
      using Node.prems(3) by simp
    from Node.IH(1) [OF Node.prems(1) _ this] Node.prems less show ?thesis
      by (auto simp: push_frame_def)
  next
    case (greater e)
    have "length (Frame D1 d c l # st) + rb_height r < RB_MAX_HEIGHT"
      using Node.prems(3) by simp
    from Node.IH(2) [OF Node.prems(1) _ this] Node.prems greater show ?thesis
      by (auto simp: push_frame_def)
  qed auto
qed auto

text \<open>
  Where the search stops, everything to the left of the place is smaller than the item and
  everything to the right is greater; a node it stops at has the item's key.
\<close>

lemma rb_search_place:
  assumes "rb_search (cmp i) st t = Inr (st', n)" and "ivalid i"
    and "\<forall>x\<in>set (inorder t). valid x" and "srt (inorder t)"
    and "keys_below (ctx_left st) i" and "keys_above (ctx_right st) i"
  shows "keys_below (ctx_left st') i \<and> keys_above (ctx_right st') i \<and>
    (\<forall>d l r c. n = Node d l r c \<longrightarrow> key d = ikey i)"
  using assms
proof (induction t arbitrary: st)
  case (Node d l r c)
  have "valid d" using Node.prems by simp
  from Node.prems(2) \<open>valid d\<close> show ?case
  proof (cases rule: cmp_cases)
    case (less e)
    with Node.prems(1) have rec: "rb_search (cmp i) (Frame D0 d c r # st) l = Inr (st', n)"
      by (auto simp: fault_simps push_frame_def split: if_splits)
    have "keys_above (ctx_right (Frame D0 d c r # st)) i"
      using Node.prems(4,6) less by (auto simp: keys_above_def)
    with Node.IH(1) [OF rec] Node.prems show ?thesis by auto
  next
    case (greater e)
    with Node.prems(1) have rec: "rb_search (cmp i) (Frame D1 d c l # st) r = Inr (st', n)"
      by (auto simp: fault_simps push_frame_def split: if_splits)
    have "keys_below (ctx_left (Frame D1 d c l # st)) i"
      using Node.prems(4,5) greater by (auto simp: keys_below_def)
    with Node.IH(2) [OF rec] Node.prems show ?thesis by auto
  next
    case (equal e)
    with Node.prems show ?thesis by auto
  qed
qed auto

text \<open>A search that starts at the root of a tree satisfying the invariant, in one statement.\<close>

lemma rb_search_start:
  assumes inv: "rb_inv key tree" and val: "\<forall>x\<in>set (inorder (rb_root tree)). valid x"
    and room: "rb_room tree" and i: "ivalid i"
  obtains st n where "rb_search (cmp i) [] (rb_root tree) = Inr (st, n)"
    and "rebuild st n = rb_root tree"
    and "ctx_left st @ inorder n @ ctx_right st = inorder (rb_root tree)"
    and "ctx_c st (node_color n)" and "ctx_h st (bheight n)" and "invc n" and "invh n"
    and "length st + rb_height n \<le> 30"
    and "keys_below (ctx_left st) i" and "keys_above (ctx_right st) i"
    and "\<And>d l r c. n = Node d l r c \<Longrightarrow> key d = ikey i"
proof -
  let ?t = "rb_root tree"
  have shape: "rb_shape ?t" and srt: "srt (inorder ?t)"
    and cnt: "rb_cnt tree = int (length (inorder ?t))"
    using inv by (auto simp: rb_inv_def rb_sorted_def srt_def)
  have h: "rb_height ?t \<le> 30"
    using rb_shape_height [OF shape] room cnt by (simp add: rb_room_def)
  then have "length ([] :: 'a frame list) + rb_height ?t < RB_MAX_HEIGHT"
    by (simp add: RB_MAX_HEIGHT_def)
  from rb_search_total [OF i val this] obtain st n where
    s: "rb_search (cmp i) [] ?t = Inr (st, n)" and len: "length st + rb_height n \<le> rb_height ?t"
    by auto
  have "ctx_c [] (node_color ?t)" "ctx_h [] (bheight ?t)" "invc ?t" "invh ?t"
    using shape by (auto simp: rb_shape_def)
  note ctx = rb_search_ctx [OF s this]
  have "keys_below (ctx_left ([] :: 'a frame list)) i" "keys_above (ctx_right ([] :: 'a frame list)) i"
    by (auto simp: keys_below_def keys_above_def)
  note place = rb_search_place [OF s i val srt this]
  have "ctx_left st @ inorder n @ ctx_right st = inorder ?t"
    using inorder_rebuild [of st n] ctx by simp
  with ctx place h len s show thesis by (intro that) auto
qed

lemma rb_find_node_correct:
  assumes "ivalid i" and "\<forall>x\<in>set (inorder t). valid x" and "srt (inorder t)"
  shows "rb_find_node (cmp i) t = Inr (find (\<lambda>x. key x = ikey i) (inorder t))"
  using assms
proof (induction t)
  case (Node d l r c)
  have "valid d" using Node.prems by simp
  have none: "find (\<lambda>x. key x = ikey i) xs = None" if "\<forall>x\<in>set xs. key x \<noteq> ikey i" for xs
    using that by (simp add: find_None_iff)
  have app: "find P (xs @ ys) = (case find P xs of None \<Rightarrow> find P ys | Some x \<Rightarrow> Some x)"
    for P and xs ys :: "'a list" by (induction xs) auto
  from Node.prems(1) \<open>valid d\<close> show ?case
  proof (cases rule: cmp_cases)
    case (less e)
    have "find (\<lambda>x. key x = ikey i) (inorder r) = None"
      using less Node.prems(3) by (intro none) force
    then show ?thesis using Node less by (auto simp: app split: option.splits)
  next
    case (greater e)
    have "find (\<lambda>x. key x = ikey i) (inorder l) = None"
      using greater Node.prems(3) by (intro none) force
    then show ?thesis using Node greater by (auto simp: app)
  next
    case (equal e)
    have "find (\<lambda>x. key x = ikey i) (inorder l) = None"
      using equal Node.prems(3) by (intro none) force
    then show ?thesis using equal by (auto simp: app)
  qed
qed simp

end

end
