(* ===== verification/Rb_Insert.thy ===== *)
theory Rb_Insert
  imports Rb_Order
begin

text \<open>
  Insertion: \<^verbatim>\<open>rb_probe\<close> with its rebalancing loop, and \<^verbatim>\<open>rb_insert\<close> and
  \<^verbatim>\<open>rb_replace\<close>, which compare the returned slot with the item.
\<close>

section \<open>The operations\<close>

text \<open>
  Cases 2 and 3 of the loop. The focus \<open>x\<close> is a child of the parent (direction \<open>d1\<close>,
  \<open>ad[ak - 1]\<close>), the parent a child of the grandparent (direction \<open>d0\<close>, \<open>ad[ak - 2]\<close>);
  the result is the subtree written to \<open>ap[ak - 3]->link[ad[ak - 3]]\<close>.
\<close>

fun rb_rotate_up :: "dir \<Rightarrow> 'a frame \<Rightarrow> 'a rb_node \<Rightarrow> fault + 'a rb_node" where
  "rb_rotate_up D0 (Frame D1 pd pc ps) x =
     (case x of NULL \<Rightarrow> Inl Null_Deref
      | Node yd y0 y1 yc \<Rightarrow> Inr (Node yd (Node pd ps y0 pc) y1 yc))"
| "rb_rotate_up D1 (Frame D0 pd pc ps) x =
     (case x of NULL \<Rightarrow> Inl Null_Deref
      | Node yd y0 y1 yc \<Rightarrow> Inr (Node yd y0 (Node pd y1 ps pc) yc))"
| "rb_rotate_up d0 f x = Inr (fill f x)"

fun rb_rotate_down :: "'a frame \<Rightarrow> 'a rb_node \<Rightarrow> fault + 'a rb_node" where
  "rb_rotate_down f NULL = Inl Null_Deref"
| "rb_rotate_down (Frame D0 gd gc gs) (Node yd y0 y1 yc) =
     Inr (Node yd y0 (Node gd y1 gs RB_RED) RB_BLACK)"
| "rb_rotate_down (Frame D1 gd gc gs) (Node yd y0 y1 yc) =
     Inr (Node yd (Node gd gs y0 RB_RED) y1 RB_BLACK)"

text \<open>The loop: \<open>ak < 3\<close> is a stack of fewer than two frames.\<close>

fun rb_insert_fix :: "'a frame list \<Rightarrow> 'a rb_node \<Rightarrow> fault + 'a rb_node" where
  "rb_insert_fix (Frame d1 pd pc ps # Frame d0 gd gc gs # st) x =
     (if pc \<noteq> RB_RED then Inr (rebuild (Frame d1 pd pc ps # Frame d0 gd gc gs # st) x)
      else if is_red gs then
        rb_insert_fix st
          (fill (Frame d0 gd RB_RED (set_color RB_BLACK gs)) (fill (Frame d1 pd RB_BLACK ps) x))
      else
        rbind (rb_rotate_up d0 (Frame d1 pd pc ps) x) (\<lambda>y.
        rbind (rb_rotate_down (Frame d0 gd gc gs) y) (\<lambda>y'.
        Inr (rebuild st y'))))"
| "rb_insert_fix st x = Inr (rebuild st x)"

text \<open>
  \<^verbatim>\<open>rb_probe\<close> returns the address of the data slot; the model returns the tree and the
  content of the slot.
\<close>

definition rb_probe ::
  "('a \<Rightarrow> 'a \<Rightarrow> fault + int) \<Rightarrow> 'a rb_tree \<Rightarrow> 'a \<Rightarrow> fault + ('a rb_tree \<times> 'a)"
where
  "rb_probe cmp tree item =
     (case rb_root tree of
        NULL \<Rightarrow>
          rbind (c_assert (rb_cnt tree + 1 = 1)) (\<lambda>_.
          Inr (tree\<lparr>rb_cnt := rb_cnt tree + 1, rb_root := Node item NULL NULL RB_BLACK\<rparr>, item))
      | Node _ _ _ _ \<Rightarrow>
          rbind (rb_search (cmp item) [] (rb_root tree)) (\<lambda>(st, n).
          case n of
            Node d l r c \<Rightarrow> Inr (tree, d)
          | NULL \<Rightarrow>
              rbind (rb_insert_fix st (Node item NULL NULL RB_RED)) (\<lambda>t.
              Inr (tree\<lparr>rb_cnt := rb_cnt tree + 1, rb_root := set_color RB_BLACK t\<rparr>, item))))"

text \<open>\<open>None\<close> is the null pointer: the item was inserted.\<close>

definition rb_insert ::
  "('a \<Rightarrow> 'a \<Rightarrow> fault + int) \<Rightarrow> 'a rb_tree \<Rightarrow> 'a \<Rightarrow> fault + ('a rb_tree \<times> 'a option)"
where
  "rb_insert cmp tree item =
     rbind (rb_probe cmp tree item) (\<lambda>(tree', p).
     Inr (tree', if p = item then None else Some p))"

text \<open>
  \<^verbatim>\<open>rb_replace\<close> overwrites the slot \<^verbatim>\<open>rb_probe\<close> returned when it holds another item.
\<close>

definition rb_replace ::
  "('a \<Rightarrow> 'a \<Rightarrow> fault + int) \<Rightarrow> 'a rb_tree \<Rightarrow> 'a \<Rightarrow> fault + ('a rb_tree \<times> 'a option)"
where
  "rb_replace cmp tree item =
     rbind (rb_probe cmp tree item) (\<lambda>(tree', p).
     if p = item then Inr (tree', None)
     else
       rbind (rb_search (cmp item) [] (rb_root tree')) (\<lambda>(st, n).
       case n of
         NULL \<Rightarrow> Inl Null_Deref
       | Node d l r c \<Rightarrow> Inr (tree'\<lparr>rb_root := rebuild st (Node item l r c)\<rparr>, Some p)))"

section \<open>The rebalancing loop\<close>

lemma rb_rotate_up_Node:
  "\<exists>yd y0 y1 yc. rb_rotate_up d0 f (Node xd x0 x1 xc) = Inr (Node yd y0 y1 yc)"
  by (cases "(d0, f, Node xd x0 x1 xc)" rule: rb_rotate_up.cases) auto

lemma rb_rotate_inorder:
  assumes "rb_rotate_up d0 (Frame d1 pd pc ps) x = Inr y"
    and "rb_rotate_down (Frame d0 gd gc gs) y = Inr y'"
  shows "inorder y' = inorder (fill (Frame d0 gd gc gs) (fill (Frame d1 pd pc ps) x))"
  using assms by (cases d0; cases d1; cases y) (auto split: rb_node.splits)

lemma rb_insert_fix_inorder:
  "rb_insert_fix st x = Inr t \<Longrightarrow> inorder t = ctx_left st @ inorder x @ ctx_right st"
proof (induction st x rule: rb_insert_fix.induct)
  case (1 d1 pd pc ps d0 gd gc gs st x)
  have fill2: "ctx_left st @ inorder (fill (Frame d0 gd c0 s0) (fill (Frame d1 pd c1 ps) x)) @ ctx_right st
      = ctx_left (Frame d1 pd pc ps # Frame d0 gd gc gs # st) @ inorder x @
        ctx_right (Frame d1 pd pc ps # Frame d0 gd gc gs # st)"
    if "inorder s0 = inorder gs" for c0 s0 c1
    using that by (cases d0; cases d1) auto
  consider "pc = RB_BLACK" | "pc = RB_RED" "is_red gs" | "pc = RB_RED" "\<not> is_red gs"
    by (cases pc) auto
  then show ?case
  proof cases
    case 1
    with "1.prems" show ?thesis
      by (auto simp: inorder_rebuild simp del: rebuild.simps)
  next
    case 2
    with "1.prems" "1.IH" show ?thesis by (simp add: fill2)
  next
    case 3
    with "1.prems" obtain y y' where
      "rb_rotate_up d0 (Frame d1 pd pc ps) x = Inr y"
      "rb_rotate_down (Frame d0 gd gc gs) y = Inr y'" "t = rebuild st y'"
      by (auto simp: fault_simps)
    then show ?thesis
      using fill2 [OF refl] by (simp add: inorder_rebuild rb_rotate_inorder)
  qed
qed (auto simp: inorder_rebuild simp del: rebuild.simps)

text \<open>
  Rebalancing succeeds on a red focus with black children, and gives a tree that is well
  shaped once its root is painted black.
\<close>

definition rb_almost :: "'a rb_node \<Rightarrow> bool" where
  "rb_almost t \<longleftrightarrow> invc (set_color RB_BLACK t) \<and> invh t"

lemma rb_almost_shape: "rb_almost t \<Longrightarrow> rb_shape (set_color RB_BLACK t)"
  by (simp add: rb_almost_def rb_shape_def)

lemma rb_shape_almost: "rb_shape t \<Longrightarrow> rb_almost t"
  by (cases t) (auto simp: rb_almost_def rb_shape_def)

lemma rb_almost_single:
  "invc x \<Longrightarrow> invh x \<Longrightarrow> rb_almost x"
  "invc x \<Longrightarrow> invh x \<Longrightarrow> ctx_c [f] RB_BLACK \<Longrightarrow> ctx_h [f] (bheight x) \<Longrightarrow> rb_almost (fill f x)"
  by (cases x; simp add: rb_almost_def) (cases "(f, x)" rule: fill.cases; auto simp: rb_almost_def)

lemma rb_rotate_shape:
  assumes "\<not> is_red gs" and "invc ps" "invh ps" "\<not> is_red ps" "invc gs" "invh gs"
    and "bheight ps = bheight x" and "bheight gs = bheight x"
    and "is_red x" "invc x" "invh x"
  shows "\<exists>y y'. rb_rotate_up d0 (Frame d1 pd RB_RED ps) x = Inr y \<and>
    rb_rotate_down (Frame d0 gd gc gs) y = Inr y' \<and>
    invc y' \<and> invh y' \<and> \<not> is_red y' \<and> bheight y' = Suc (bheight x)"
  using assms by (cases x; cases d0; cases d1) auto

lemma rb_insert_fix_shape:
  assumes "is_red x" and "invc x" and "invh x"
    and "ctx_c st RB_BLACK" and "ctx_h st (bheight x)"
  shows "\<exists>t. rb_insert_fix st x = Inr t \<and> rb_almost t"
  using assms
proof (induction st x rule: rb_insert_fix.induct)
  case (1 d1 pd pc ps d0 gd gc gs st x)
  consider "pc = RB_BLACK" | "pc = RB_RED" "is_red gs" | "pc = RB_RED" "\<not> is_red gs"
    by (cases pc) auto
  then show ?case
  proof cases
    case 1
    have "ctx_c (Frame d1 pd pc ps # Frame d0 gd gc gs # st) (node_color x)"
      using "1.prems" 1 by auto
    from rebuild_shape [OF this "1.prems"(5,2,3)] 1 show ?thesis
      by (auto intro: rb_shape_almost simp del: rebuild.simps)
  next
    case 2
    let ?x' = "fill (Frame d0 gd RB_RED (set_color RB_BLACK gs)) (fill (Frame d1 pd RB_BLACK ps) x)"
    obtain yd y0 y1 where gs: "gs = Node yd y0 y1 RB_RED"
      using 2 by (cases gs) auto
    have "is_red ?x' \<and> invc ?x' \<and> invh ?x' \<and> bheight ?x' = Suc (bheight x)"
      using "1.prems" 2 gs by (cases d0; cases d1) auto
    moreover have "ctx_c st RB_BLACK" "ctx_h st (Suc (bheight x))"
      using "1.prems" 2 by (auto intro: ctx_c_black)
    ultimately show ?thesis using "1.IH" 2 by simp
  next
    case 3
    have "\<exists>y y'. rb_rotate_up d0 (Frame d1 pd RB_RED ps) x = Inr y \<and>
      rb_rotate_down (Frame d0 gd gc gs) y = Inr y' \<and>
      invc y' \<and> invh y' \<and> \<not> is_red y' \<and> bheight y' = Suc (bheight x)"
      by (rule rb_rotate_shape) (use "1.prems" 3 in auto)
    then obtain y y' where
      y: "rb_rotate_up d0 (Frame d1 pd RB_RED ps) x = Inr y"
        "rb_rotate_down (Frame d0 gd gc gs) y = Inr y'"
      and y': "invc y'" "invh y'" "\<not> is_red y'" "bheight y' = Suc (bheight x)"
      by blast
    have "ctx_c st (node_color y')" "ctx_h st (bheight y')"
      using "1.prems" 3 y' by (auto intro: ctx_c_black)
    from rebuild_shape [OF this y'(1,2)] y 3 show ?thesis
      by (auto intro: rb_shape_almost)
  qed
qed (auto intro: rb_almost_single)

section \<open>Insertion\<close>

context rb_order
begin

lemma place_insert:
  assumes "keys_below xs i" and "keys_above ys i"
  shows "filter (\<lambda>x. key x < ikey i) (xs @ ys) = xs"
    and "filter (\<lambda>x. ikey i < key x) (xs @ ys) = ys"
    and "\<forall>x\<in>set (xs @ ys). key x \<noteq> ikey i"
  using assms by (auto simp: keys_below_def keys_above_def filter_id_conv filter_empty_conv)

end

text \<open>
  What insertion computes: the item goes between the smaller and the greater keys, unless
  its key is present, in which case the tree is unchanged and the present item is returned.
\<close>

locale rb_item_order = rb_order cmp key key valid valid
  for cmp :: "'a \<Rightarrow> 'a \<Rightarrow> fault + int" and key :: "'a \<Rightarrow> 'k::linorder" and valid :: "'a \<Rightarrow> bool"
begin

lemma rb_probe_new:
  assumes inv: "rb_inv key tree" and val: "\<forall>x\<in>set (inorder (rb_root tree)). valid x"
    and room: "rb_room tree" and item: "valid item"
    and new: "\<forall>x\<in>set (inorder (rb_root tree)). key x \<noteq> key item"
  shows "\<exists>tree'. rb_probe cmp tree item = Inr (tree', item) \<and> rb_inv key tree' \<and>
    rb_cnt tree' = rb_cnt tree + 1 \<and>
    inorder (rb_root tree') =
      filter (\<lambda>x. key x < key item) (inorder (rb_root tree)) @ item #
      filter (\<lambda>x. key item < key x) (inorder (rb_root tree))"
proof (cases "rb_root tree")
  case NULL
  with inv show ?thesis
    by (auto simp: rb_probe_def rb_inv_def rb_shape_def rb_sorted_def)
next
  case (Node d l r c)
  let ?t = "rb_root tree"
  have srt: "srt (inorder ?t)" and cnt: "rb_cnt tree = int (length (inorder ?t))"
    using inv by (auto simp: rb_inv_def rb_sorted_def srt_def)
  from rb_search_start [OF inv val room item] obtain st n where
    s: "rb_search (cmp item) [] ?t = Inr (st, n)" and rb: "rebuild st n = ?t"
    and split: "ctx_left st @ inorder n @ ctx_right st = inorder ?t"
    and ctx: "ctx_c st (node_color n)" "ctx_h st (bheight n)"
    and place: "keys_below (ctx_left st) item" "keys_above (ctx_right st) item"
    and hit: "\<And>d l r c. n = Node d l r c \<Longrightarrow> key d = key item"
    by metis
  have n: "n = NULL"
  proof (cases n)
    case (Node d' l' r' c')
    then have "d' \<in> set (ctx_left st @ inorder n @ ctx_right st)" by simp
    with hit [OF Node] new show ?thesis by (simp only: split)
  qed
  have io0: "inorder ?t = ctx_left st @ ctx_right st" using split n by simp
  let ?x = "Node item NULL NULL RB_RED"
  have "\<exists>t. rb_insert_fix st ?x = Inr t \<and> rb_almost t"
    using ctx n by (intro rb_insert_fix_shape) auto
  then obtain t where t: "rb_insert_fix st ?x = Inr t" "rb_almost t" by blast
  have io: "inorder t = filter (\<lambda>x. key x < key item) (inorder ?t) @ item #
      filter (\<lambda>x. key item < key x) (inorder ?t)"
    using rb_insert_fix_inorder [OF t(1)] place_insert(1,2) [OF place] by (simp add: io0)
  have "srt (inorder t)"
    using srt by (auto simp: io intro: srt_filter)
  moreover have "length (inorder t) = Suc (length (inorder ?t))"
    using rb_insert_fix_inorder [OF t(1)] by (simp add: io0)
  ultimately show ?thesis
    using s n t Node io cnt rb_almost_shape [OF t(2)]
    by (auto simp: rb_probe_def rb_inv_def rb_sorted_def srt_def)
qed

lemma rb_probe_present:
  assumes inv: "rb_inv key tree" and val: "\<forall>x\<in>set (inorder (rb_root tree)). valid x"
    and room: "rb_room tree" and item: "valid item"
    and old: "a \<in> set (inorder (rb_root tree))" and ka: "key a = key item"
  shows "rb_probe cmp tree item = Inr (tree, a)"
proof -
  let ?t = "rb_root tree"
  have srt: "srt (inorder ?t)"
    using inv by (auto simp: rb_inv_def rb_sorted_def srt_def)
  from rb_search_start [OF inv val room item] obtain st n where
    s: "rb_search (cmp item) [] ?t = Inr (st, n)"
    and split: "ctx_left st @ inorder n @ ctx_right st = inorder ?t"
    and place: "keys_below (ctx_left st) item" "keys_above (ctx_right st) item"
    and hit: "\<And>d l r c. n = Node d l r c \<Longrightarrow> key d = key item"
    by metis
  show ?thesis
  proof (cases n)
    case NULL
    then have "a \<in> set (ctx_left st @ ctx_right st)" using split old by simp
    then show ?thesis using place_insert(3) [OF place] ka by blast
  next
    case (Node d l r c)
    have "d \<in> set (ctx_left st @ inorder n @ ctx_right st)" using Node by simp
    then have "d \<in> set (inorder ?t)" by (simp only: split)
    moreover have "inj_on key (set (inorder ?t))"
      using sorted_wrt_less_distinct [of "map key (inorder ?t)"] srt
      by (simp add: srt_def distinct_map)
    moreover have "key d = key a" using hit [OF Node] ka by simp
    ultimately have "d = a" using old by (metis inj_onD)
    moreover have "?t \<noteq> NULL" using old by auto
    ultimately show ?thesis
      using s Node by (auto simp: rb_probe_def split: rb_node.splits)
  qed
qed

end

end
