(* ===== verification/Rb_Delete.thy ===== *)
theory Rb_Delete
  imports Rb_Order
begin

text \<open>
  Deletion: \<^verbatim>\<open>rb_delete\<close> and its rebalancing loop (RB-Delete-Fixup). The stack and the
  focus \<open>x\<close> are those of the C code: the parent of \<open>x\<close> is the top frame \<open>pa[k - 1]\<close> and the
  sibling \<open>w\<close> the other subtree of that frame.
\<close>

section \<open>The operations\<close>

text \<open>
  Line 3: the leftmost node of the right subtree, with its ancestors pushed.
\<close>

fun rb_leftmost :: "'a frame list \<Rightarrow> 'a rb_node \<Rightarrow> fault + ('a frame list \<times> 'a rb_node)" where
  "rb_leftmost st NULL = Inl Null_Deref"
| "rb_leftmost st (Node d l r c) =
     (if l \<noteq> NULL then rbind (push_frame (Frame D0 d c r) st) (\<lambda>st'. rb_leftmost st' l)
      else Inr (st, Node d l r c))"

text \<open>Case 1: a red sibling is rotated above the parent; the write to \<open>pa[k]\<close> is checked.\<close>

fun rb_del_case1 :: "'a frame list \<Rightarrow> fault + 'a frame list" where
  "rb_del_case1 [] = Inr []"
| "rb_del_case1 (Frame a pd pc NULL # st) = Inl Null_Deref"
| "rb_del_case1 (Frame D0 pd pc (Node wd w0 w1 RB_RED) # st) =
     push_frame (Frame D0 pd RB_RED w0) (Frame D0 wd RB_BLACK w1 # st)"
| "rb_del_case1 (Frame D1 pd pc (Node wd w0 w1 RB_RED) # st) =
     push_frame (Frame D1 pd RB_RED w1) (Frame D1 wd RB_BLACK w0 # st)"
| "rb_del_case1 (Frame a pd pc (Node wd w0 w1 RB_BLACK) # st) =
     Inr (Frame a pd pc (Node wd w0 w1 RB_BLACK) # st)"

datatype 'a del_step = Continue "'a frame list" "'a rb_node" | Finish "'a rb_node"

text \<open>
  Cases 2, 3 and 4. \<open>Continue\<close> is the next iteration of the loop (case 2); \<open>Finish\<close> is the
  \<^verbatim>\<open>break\<close> at the end of case 4.
\<close>

fun rb_del_cases :: "'a frame list \<Rightarrow> 'a rb_node \<Rightarrow> fault + 'a del_step" where
  "rb_del_cases [] x = Inl Null_Deref"
| "rb_del_cases (Frame a pd pc NULL # st) x = Inl Null_Deref"
| "rb_del_cases (Frame D0 pd pc (Node wd w0 w1 wc) # st) x =
     (if \<not> is_red w0 \<and> \<not> is_red w1
      then Inr (Continue st (Node pd x (Node wd w0 w1 RB_RED) pc))
      else
        rbind (if \<not> is_red w1
               then (case w0 of
                       NULL \<Rightarrow> Inl Null_Deref
                     | Node yd y0 y1 yc \<Rightarrow> Inr (yd, y0, Node wd y1 w1 RB_RED))
               else Inr (wd, w0, w1)) (\<lambda>(vd, v0, v1).
        Inr (Finish (rebuild st
          (Node vd (Node pd x v0 RB_BLACK) (set_color RB_BLACK v1) pc)))))"
| "rb_del_cases (Frame D1 pd pc (Node wd w0 w1 wc) # st) x =
     (if \<not> is_red w0 \<and> \<not> is_red w1
      then Inr (Continue st (Node pd (Node wd w0 w1 RB_RED) x pc))
      else
        rbind (if \<not> is_red w0
               then (case w1 of
                       NULL \<Rightarrow> Inl Null_Deref
                     | Node yd y0 y1 yc \<Rightarrow> Inr (yd, Node wd w0 y0 RB_RED, y1))
               else Inr (wd, w0, w1)) (\<lambda>(vd, v0, v1).
        Inr (Finish (rebuild st
          (Node vd (set_color RB_BLACK v0) (Node pd v1 x RB_BLACK) pc)))))"

lemma rb_del_case1_length:
  "rb_del_case1 st = Inr st' \<Longrightarrow> st' \<noteq> st \<Longrightarrow>
     length st' = Suc (length st) \<and>
     (\<exists>a pd s st''. st' = Frame a pd RB_RED s # st'')"
  by (cases st rule: rb_del_case1.cases) (auto simp: push_frame_def split: if_splits)

lemma rb_del_cases_length:
  "rb_del_cases st x = Inr (Continue st' x') \<Longrightarrow>
     length st = Suc (length st') \<and> (\<exists>a pd pc s. st = Frame a pd pc s # st' \<and> node_color x' = pc)"
  by (cases "(st, x)" rule: rb_del_cases.cases)
     (auto simp: fault_simps split: if_splits rb_node.splits)

function rb_delete_fix :: "'a frame list \<Rightarrow> 'a rb_node \<Rightarrow> fault + 'a rb_node" where
  "rb_delete_fix st x =
     (if st = [] \<or> is_red x then Inr (rebuild st (set_color RB_BLACK x))
      else
        rbind (rb_del_case1 st) (\<lambda>st1.
        rbind (rb_del_cases st1 x) (\<lambda>s.
        case s of
          Finish t \<Rightarrow> Inr (set_color RB_BLACK t)
        | Continue st' x' \<Rightarrow> rb_delete_fix st' x')))"
  by pat_completeness auto
termination
proof (relation "measure (\<lambda>(st, x). 2 * length st + (if is_red x then 0 else 1))", goal_cases)
  case (2 st x st1 s st' x')
  have "length st1 = Suc (length st')"
    and top: "\<exists>a pd pc s. st1 = Frame a pd pc s # st' \<and> node_color x' = pc"
    using rb_del_cases_length [of st1 x st' x'] 2 by auto
  then show ?case
    using 2 rb_del_case1_length [of st st1]
    by (cases "st1 = st") (auto simp: node_color_def split: if_splits)
qed simp

declare rb_delete_fix.simps [simp del]

text \<open>
  Lines 4-16: the spliced-out node \<open>y\<close> has at most one child; a red \<open>y\<close> needs no repair.
\<close>

definition rb_splice :: "'a frame list \<Rightarrow> 'a rb_node \<Rightarrow> rb_color \<Rightarrow> fault + 'a rb_node" where
  "rb_splice st x yc = (if yc = RB_RED then Inr (rebuild st x) else rb_delete_fix st x)"

text \<open>\<^verbatim>\<open>z->data = y->data\<close>, where \<open>z\<close> is the node stored at index \<open>k\<close> of the stack.\<close>

fun frame_set_data :: "'a \<Rightarrow> 'a frame \<Rightarrow> 'a frame" where
  "frame_set_data d (Frame a _ c s) = Frame a d c s"

definition stack_set_data :: "nat \<Rightarrow> 'a \<Rightarrow> 'a frame list \<Rightarrow> 'a frame list" where
  "stack_set_data k d st = st[length st - k := frame_set_data d (st ! (length st - k))]"

definition rb_delete ::
  "('i \<Rightarrow> 'a \<Rightarrow> fault + int) \<Rightarrow> 'a rb_tree \<Rightarrow> 'i \<Rightarrow> fault + ('a rb_tree \<times> 'a option)"
where
  "rb_delete cmp tree item =
     rbind (rb_search (cmp item) [] (rb_root tree)) (\<lambda>(st, z).
     case z of
       NULL \<Rightarrow> Inr (tree, None)
     | Node zd zl zr zc \<Rightarrow>
         rbind
           (if zl = NULL \<or> zr = NULL
            then rb_splice st (if zl \<noteq> NULL then zl else zr) zc
            else
              rbind (push_frame (Frame D1 zd zc zl) st) (\<lambda>st1.
              rbind (rb_leftmost st1 zr) (\<lambda>(st2, y).
              case y of
                NULL \<Rightarrow> Inl Null_Deref
              | Node yd yl yr yc \<Rightarrow>
                  rb_splice (stack_set_data (length st + 1) yd st2) yr yc))) (\<lambda>t.
         Inr (tree\<lparr>rb_cnt := rb_cnt tree - 1, rb_root := t\<rparr>, Some zd)))"

text \<open>\<^verbatim>\<open>rb_force_delete\<close> asserts that an item was found.\<close>

definition rb_force_delete ::
  "('i \<Rightarrow> 'a \<Rightarrow> fault + int) \<Rightarrow> 'a rb_tree \<Rightarrow> 'i \<Rightarrow> fault + ('a rb_tree \<times> 'a)"
where
  "rb_force_delete cmp tree item =
     rbind (rb_delete cmp tree item) (\<lambda>(tree', found).
     case found of None \<Rightarrow> Inl Assertion_Failed | Some a \<Rightarrow> Inr (tree', a))"

section \<open>The rebalancing loop\<close>

lemma rb_del_case1_correct:
  assumes "st \<noteq> []" and "\<not> is_red x"
    and "ctx_c st RB_BLACK" and "ctx_h st (Suc (bheight x))"
    and "length st + 1 < RB_MAX_HEIGHT"
  shows "\<exists>a pd pc wd w0 w1 st'.
    rb_del_case1 st = Inr (Frame a pd pc (Node wd w0 w1 RB_BLACK) # st') \<and>
    ctx_c (Frame a pd pc (Node wd w0 w1 RB_BLACK) # st') RB_BLACK \<and>
    ctx_h (Frame a pd pc (Node wd w0 w1 RB_BLACK) # st') (Suc (bheight x)) \<and>
    ctx_left (Frame a pd pc (Node wd w0 w1 RB_BLACK) # st') = ctx_left st \<and>
    ctx_right (Frame a pd pc (Node wd w0 w1 RB_BLACK) # st') = ctx_right st \<and>
    (pc = RB_RED \<or> length st' < length st)"
proof -
  obtain a pd pc w st0 where st: "st = Frame a pd pc w # st0"
    using assms(1) by (metis frame.exhaust list.exhaust)
  obtain wd w0 w1 wc where w: "w = Node wd w0 w1 wc"
    using assms(4) st by (cases w) auto
  show ?thesis
  proof (cases wc)
    case RB_BLACK
    with assms st w show ?thesis by (cases a) auto
  next
    case RB_RED
    then have kids: "\<not> is_red w0" "\<not> is_red w1" "pc = RB_BLACK"
      "invc w0" "invc w1" "bheight w0 = Suc (bheight x)" "bheight w1 = Suc (bheight x)"
      "invh w0" "invh w1"
      using assms(3,4) st w by auto
    obtain ud u0 u1 where u: "w0 = Node ud u0 u1 RB_BLACK"
      using kids by (cases w0) auto
    obtain vd v0 v1 where v: "w1 = Node vd v0 v1 RB_BLACK"
      using kids by (cases w1) auto
    show ?thesis
      using assms st w RB_RED kids u v
      by (cases a) (auto simp: push_frame_def)
  qed
qed

lemma rb_del_cases_correct:
  assumes "\<not> is_red x" and "invc x" and "invh x"
    and "ctx_c (Frame a pd pc (Node wd w0 w1 RB_BLACK) # st) RB_BLACK"
    and "ctx_h (Frame a pd pc (Node wd w0 w1 RB_BLACK) # st) (Suc (bheight x))"
  shows "\<exists>s. rb_del_cases (Frame a pd pc (Node wd w0 w1 RB_BLACK) # st) x = Inr s \<and>
    (case s of
       Finish t \<Rightarrow> rb_shape t \<and>
         inorder t = ctx_left (Frame a pd pc (Node wd w0 w1 RB_BLACK) # st) @ inorder x @
           ctx_right (Frame a pd pc (Node wd w0 w1 RB_BLACK) # st)
     | Continue st' x' \<Rightarrow> st' = st \<and> node_color x' = pc \<and> invc (set_color RB_BLACK x') \<and>
         invh x' \<and> (pc = RB_BLACK \<longrightarrow> invc x') \<and>
         ctx_c st RB_BLACK \<and> ctx_h st (Suc (bheight x')) \<and>
         ctx_left st @ inorder x' @ ctx_right st =
           ctx_left (Frame a pd pc (Node wd w0 w1 RB_BLACK) # st) @ inorder x @
           ctx_right (Frame a pd pc (Node wd w0 w1 RB_BLACK) # st))"
proof (cases "\<not> is_red w0 \<and> \<not> is_red w1")
  case True
  with assms show ?thesis
    by (cases a; cases pc) (auto intro: ctx_c_black)
next
  case False
  have fin: "rb_shape (rebuild st t) \<and> inorder (rebuild st t) = ctx_left st @ inorder t @ ctx_right st"
    if "node_color t = pc" "invc t" "invh t" "bheight t = (if pc = RB_BLACK then Suc (Suc (bheight x)) else Suc (bheight x))"
    for t
    using that assms(4,5) by (auto intro!: rebuild_shape simp: inorder_rebuild)
  show ?thesis
  proof (cases a)
    case D0
    show ?thesis
    proof (cases "is_red w1")
      case True
      let ?t = "Node wd (Node pd x w0 RB_BLACK) (set_color RB_BLACK w1) pc"
      obtain vd v0 v1 where v: "w1 = Node vd v0 v1 RB_RED" using True by (cases w1) auto
      have "rb_shape (rebuild st ?t) \<and> inorder (rebuild st ?t) = ctx_left st @ inorder ?t @ ctx_right st"
        using assms v D0 by (intro fin) auto
      then show ?thesis using D0 True by auto
    next
      case w1: False
      then obtain yd y0 y1 where y: "w0 = Node yd y0 y1 RB_RED" using False by (cases w0) auto
      let ?t = "Node yd (Node pd x y0 RB_BLACK) (Node wd y1 w1 RB_BLACK) pc"
      have "rb_shape (rebuild st ?t) \<and> inorder (rebuild st ?t) = ctx_left st @ inorder ?t @ ctx_right st"
        using assms y D0 by (intro fin) auto
      then show ?thesis using D0 w1 y by auto
    qed
  next
    case D1
    show ?thesis
    proof (cases "is_red w0")
      case True
      let ?t = "Node wd (set_color RB_BLACK w0) (Node pd w1 x RB_BLACK) pc"
      obtain vd v0 v1 where v: "w0 = Node vd v0 v1 RB_RED" using True by (cases w0) auto
      have "rb_shape (rebuild st ?t) \<and> inorder (rebuild st ?t) = ctx_left st @ inorder ?t @ ctx_right st"
        using assms v D1 by (intro fin) auto
      then show ?thesis using D1 True by auto
    next
      case w0: False
      then obtain yd y0 y1 where y: "w1 = Node yd y0 y1 RB_RED" using False by (cases w1) auto
      let ?t = "Node yd (Node wd w0 y0 RB_BLACK) (Node pd y1 x RB_BLACK) pc"
      have "rb_shape (rebuild st ?t) \<and> inorder (rebuild st ?t) = ctx_left st @ inorder ?t @ ctx_right st"
        using assms y D1 by (intro fin) auto
      then show ?thesis using D1 w0 y by auto
    qed
  qed
qed

lemma rb_delete_fix_stop:
  "st = [] \<or> is_red x \<Longrightarrow> rb_delete_fix st x = Inr (rebuild st (set_color RB_BLACK x))"
  by (subst rb_delete_fix.simps) simp

lemma rb_shape_set_black: "rb_shape t \<Longrightarrow> rb_shape (set_color RB_BLACK t)"
  by (cases t) (auto simp: rb_shape_def)

lemma rb_delete_fix_stop_shape:
  assumes "st = [] \<or> is_red x" and "invc (set_color RB_BLACK x)" and "invh x"
    and "ctx_c st RB_BLACK" and "ctx_h st (Suc (bheight x))"
  shows "rb_shape (rebuild st (set_color RB_BLACK x))"
proof (cases st)
  case Nil
  with assms show ?thesis by (simp add: rb_shape_def)
next
  case (Cons f st')
  with assms(1) have "is_red x" by simp
  then have "bheight (set_color RB_BLACK x) = Suc (bheight x)" by (cases x) auto
  with assms show ?thesis by (intro rebuild_shape) auto
qed

text \<open>
  The repair succeeds on a focus that is one black node short, within the stack bound, and
  keeps the contents.
\<close>

lemma rb_delete_fix_correct:
  assumes "invc (set_color RB_BLACK x)" and "\<not> is_red x \<Longrightarrow> invc x" and "invh x"
    and "ctx_c st RB_BLACK" and "ctx_h st (Suc (bheight x))"
    and "\<not> is_red x \<Longrightarrow> length st + 1 < RB_MAX_HEIGHT"
  shows "\<exists>t. rb_delete_fix st x = Inr t \<and> rb_shape t \<and>
    inorder t = ctx_left st @ inorder x @ ctx_right st"
  using assms
proof (induction st x rule: rb_delete_fix.induct)
  case (1 st x)
  show ?case
  proof (cases "st = [] \<or> is_red x")
    case True
    then show ?thesis
      using "1.prems" rb_delete_fix_stop_shape [of st x]
      by (auto simp: rb_delete_fix_stop inorder_rebuild)
  next
    case False
    obtain a pd pc wd w0 w1 st0 where
      c1: "rb_del_case1 st = Inr (Frame a pd pc (Node wd w0 w1 RB_BLACK) # st0)"
      and ctx: "ctx_c (Frame a pd pc (Node wd w0 w1 RB_BLACK) # st0) RB_BLACK"
        "ctx_h (Frame a pd pc (Node wd w0 w1 RB_BLACK) # st0) (Suc (bheight x))"
      and io: "ctx_left (Frame a pd pc (Node wd w0 w1 RB_BLACK) # st0) = ctx_left st"
        "ctx_right (Frame a pd pc (Node wd w0 w1 RB_BLACK) # st0) = ctx_right st"
      and len: "pc = RB_RED \<or> length st0 < length st"
      using rb_del_case1_correct [of st x] "1.prems" False by blast
    let ?st1 = "Frame a pd pc (Node wd w0 w1 RB_BLACK) # st0"
    have "\<not> is_red x" "invc x" "invh x" using False "1.prems" by auto
    from rb_del_cases_correct [OF this ctx] obtain s where
      s: "rb_del_cases ?st1 x = Inr s"
      and cs: "case s of
         Finish t \<Rightarrow> rb_shape t \<and> inorder t = ctx_left ?st1 @ inorder x @ ctx_right ?st1
       | Continue st' x' \<Rightarrow> st' = st0 \<and> node_color x' = pc \<and> invc (set_color RB_BLACK x') \<and>
           invh x' \<and> (pc = RB_BLACK \<longrightarrow> invc x') \<and>
           ctx_c st0 RB_BLACK \<and> ctx_h st0 (Suc (bheight x')) \<and>
           ctx_left st0 @ inorder x' @ ctx_right st0 = ctx_left ?st1 @ inorder x @ ctx_right ?st1"
      by blast
    show ?thesis
    proof (cases s)
      case (Finish t)
      have "rb_shape (set_color RB_BLACK t)"
        using cs Finish by (simp add: rb_shape_set_black)
      then show ?thesis
        using cs Finish s c1 False io by (simp add: rb_delete_fix.simps [of st x])
    next
      case (Continue st' x')
      have st': "st' = st0" and pc: "node_color x' = pc" using cs Continue by auto
      have "\<exists>t. rb_delete_fix st' x' = Inr t \<and> rb_shape t \<and>
          inorder t = ctx_left st' @ inorder x' @ ctx_right st'"
      proof (rule "1.IH" [OF False c1 s Continue])
        show "length st' + 1 < RB_MAX_HEIGHT" if "\<not> is_red x'"
          using that pc len "1.prems"(6) \<open>\<not> is_red x\<close> st' by auto
      qed (use cs Continue pc in auto)
      moreover have "rb_delete_fix st x = rb_delete_fix st' x'"
        using Continue s c1 False by (simp add: rb_delete_fix.simps [of st x])
      moreover have "ctx_left st' @ inorder x' @ ctx_right st' = ctx_left st @ inorder x @ ctx_right st"
        using cs Continue io by simp
      ultimately show ?thesis by simp
    qed
  qed
qed

lemma rb_splice_correct:
  assumes "ctx_c st yc" and "ctx_h st (if yc = RB_BLACK then Suc (bheight x) else bheight x)"
    and "invc x" and "invh x" and "yc = RB_RED \<Longrightarrow> \<not> is_red x"
    and "length st + 1 < RB_MAX_HEIGHT"
  shows "\<exists>t. rb_splice st x yc = Inr t \<and> rb_shape t \<and>
    inorder t = ctx_left st @ inorder x @ ctx_right st"
proof (cases yc)
  case RB_RED
  with assms have "rb_shape (rebuild st x)"
    by (intro rebuild_shape) (auto simp: ctx_c_black)
  with RB_RED show ?thesis by (simp add: rb_splice_def inorder_rebuild)
next
  case RB_BLACK
  have "invc (set_color RB_BLACK x)" using assms(3) by (cases x) auto
  with RB_BLACK assms rb_delete_fix_correct [of x st] show ?thesis
    by (simp add: rb_splice_def)
qed

section \<open>The spliced-out node\<close>

text \<open>
  The descent to the leftmost node keeps the stack well formed and splits the contents of
  the subtree into the node it finds and the rest.
\<close>

definition all_left :: "'a frame list \<Rightarrow> bool" where
  "all_left fs \<longleftrightarrow> (\<forall>f\<in>set fs. \<exists>d c s. f = Frame D0 d c s)"

lemma ctx_left_all_left: "all_left fs \<Longrightarrow> ctx_left (fs @ st) = ctx_left st"
  by (induction fs) (auto simp: all_left_def)

lemma rb_leftmost_correct:
  assumes "t \<noteq> NULL" and "invc t" and "invh t" and "ctx_c st (node_color t)" and "ctx_h st (bheight t)"
    and "length st + rb_height t < RB_MAX_HEIGHT"
  shows "\<exists>fs d r c. rb_leftmost st t = Inr (fs @ st, Node d NULL r c) \<and>
    ctx_c (fs @ st) c \<and> ctx_h (fs @ st) (bheight (Node d NULL r c)) \<and>
    invc (Node d NULL r c) \<and> invh (Node d NULL r c) \<and>
    all_left fs \<and>
    d # inorder r @ ctx_right (fs @ st) = inorder t @ ctx_right st \<and>
    length (fs @ st) + 1 \<le> length st + rb_height t"
  using assms
proof (induction t arbitrary: st)
  case (Node d l r c)
  show ?case
  proof (cases "l = NULL")
    case True
    with Node.prems show ?thesis
      by (intro exI [of _ "[]"]) (auto simp: all_left_def)
  next
    case False
    let ?st = "Frame D0 d c r # st"
    have "ctx_c ?st (node_color l)" "ctx_h ?st (bheight l)" "length ?st + rb_height l < RB_MAX_HEIGHT"
      using Node.prems by (auto intro!: ctx_c_push simp del: ctx_c.simps)
    from Node.IH(1) [OF False _ _ this] Node.prems obtain fs d' r' c' where
      ih: "rb_leftmost ?st l = Inr (fs @ ?st, Node d' NULL r' c')"
        "ctx_c (fs @ ?st) c'" "ctx_h (fs @ ?st) (bheight (Node d' NULL r' c'))"
        "invc (Node d' NULL r' c')" "invh (Node d' NULL r' c')"
        "all_left fs"
        "d' # inorder r' @ ctx_right (fs @ ?st) = inorder l @ ctx_right ?st"
        "length (fs @ ?st) + 1 \<le> length ?st + rb_height l"
      by auto
    have "rb_leftmost st (Node d l r c) = Inr ((fs @ [Frame D0 d c r]) @ st, Node d' NULL r' c')"
      using ih(1) False Node.prems(6) by (simp add: push_frame_def)
    with ih show ?thesis
      by (intro exI [of _ "fs @ [Frame D0 d c r]"]) (auto simp: all_left_def)
  qed
qed simp

lemma stack_set_data_append:
  "stack_set_data (Suc (length st)) d (fs @ Frame a zd zc zs # st) = fs @ Frame a d zc zs # st"
  by (simp add: stack_set_data_def)

lemma ctx_h_set_data:
  "ctx_h (fs @ Frame a zd zc zs # st) h = ctx_h (fs @ Frame a yd zc zs # st) h"
  by (induction fs h rule: ctx_h.induct) auto

lemma ctx_c_set_data:
  "ctx_c (fs @ Frame a zd zc zs # st) c = ctx_c (fs @ Frame a yd zc zs # st) c"
proof (induction fs arbitrary: c)
  case (Cons f fs)
  then show ?case by (cases f) auto
qed simp

lemma ctx_right_set_data:
  "ctx_right (fs @ Frame D1 zd zc zs # st) = ctx_right (fs @ Frame D1 yd zc zs # st)"
proof (induction fs)
  case (Cons f fs)
  obtain a x c s where "f = Frame a x c s" by (cases f)
  then show ?case using Cons by (cases a) auto
qed simp

text \<open>Removing the node a search stopped at.\<close>

lemma rb_delete_node:
  assumes "ctx_c st zc" and "ctx_h st (bheight (Node zd zl zr zc))"
    and "invc (Node zd zl zr zc)" and "invh (Node zd zl zr zc)"
    and "length st + rb_height (Node zd zl zr zc) \<le> 30"
  shows "\<exists>t. (if zl = NULL \<or> zr = NULL
            then rb_splice st (if zl \<noteq> NULL then zl else zr) zc
            else
              rbind (push_frame (Frame D1 zd zc zl) st) (\<lambda>st1.
              rbind (rb_leftmost st1 zr) (\<lambda>(st2, y).
              case y of
                NULL \<Rightarrow> Inl Null_Deref
              | Node yd yl yr yc \<Rightarrow>
                  rb_splice (stack_set_data (length st + 1) yd st2) yr yc))) = Inr t \<and>
    rb_shape t \<and> inorder t = ctx_left st @ inorder zl @ inorder zr @ ctx_right st"
proof (cases "zl = NULL \<or> zr = NULL")
  case True
  let ?x = "if zl \<noteq> NULL then zl else zr"
  have "\<exists>t. rb_splice st ?x zc = Inr t \<and> rb_shape t \<and>
      inorder t = ctx_left st @ inorder ?x @ ctx_right st"
    using assms True by (intro rb_splice_correct) (auto simp: RB_MAX_HEIGHT_def)
  then show ?thesis using True by auto
next
  case False
  let ?st1 = "Frame D1 zd zc zl # st"
  have push: "push_frame (Frame D1 zd zc zl) st = Inr ?st1"
    using assms(5) by (simp add: push_frame_def RB_MAX_HEIGHT_def)
  have "ctx_c ?st1 (node_color zr)" "ctx_h ?st1 (bheight zr)" "invc zr" "invh zr"
    "length ?st1 + rb_height zr < RB_MAX_HEIGHT"
    using assms by (auto simp: node_color_def RB_MAX_HEIGHT_def)
  from rb_leftmost_correct [OF _ this(3,4,1,2,5)] False obtain fs d r c where
    lm: "rb_leftmost ?st1 zr = Inr (fs @ ?st1, Node d NULL r c)"
      "ctx_c (fs @ ?st1) c" "ctx_h (fs @ ?st1) (bheight (Node d NULL r c))"
      "invc (Node d NULL r c)" "invh (Node d NULL r c)"
      "all_left fs"
      "d # inorder r @ ctx_right (fs @ ?st1) = inorder zr @ ctx_right ?st1"
      "length (fs @ ?st1) + 1 \<le> length ?st1 + rb_height zr"
    by blast
  let ?st2 = "fs @ Frame D1 d zc zl # st"
  have "\<exists>t. rb_splice ?st2 r c = Inr t \<and> rb_shape t \<and>
      inorder t = ctx_left ?st2 @ inorder r @ ctx_right ?st2"
  proof (rule rb_splice_correct)
    show "ctx_c ?st2 c" using lm(2) ctx_c_set_data [of fs D1 zd zc zl st c d] by simp
    show "ctx_h ?st2 (if c = RB_BLACK then Suc (bheight r) else bheight r)"
      using lm(3,5) ctx_h_set_data [of fs D1 zd zc zl st _ d] by (cases c) auto
    show "length ?st2 + 1 < RB_MAX_HEIGHT"
      using lm(8) assms(5) by (simp add: RB_MAX_HEIGHT_def)
  qed (use lm in auto)
  moreover have "ctx_left ?st2 = ctx_left st @ inorder zl @ [d]"
    using ctx_left_all_left [OF lm(6)] by simp
  moreover have "d # inorder r @ ctx_right ?st2 = inorder zr @ ctx_right st"
    using lm(7) ctx_right_set_data [of fs zd zc zl st d] by simp
  ultimately show ?thesis
    using False push lm(1) by (auto simp: stack_set_data_append)
qed

section \<open>Deletion\<close>

text \<open>
  What deletion computes: the item with the key is removed and returned and the invariant is
  kept; a key that is not present leaves the tree unchanged.
\<close>

context rb_order
begin

lemma place_delete:
  assumes "keys_below xs i" and "keys_above ys i" and "srt zs" and "d \<in> set zs" and "key d = ikey i"
    and "zs = xs @ ls @ d # rs @ ys"
  shows "filter (\<lambda>x. key x \<noteq> ikey i) zs = xs @ ls @ rs @ ys"
proof -
  have "\<forall>x\<in>set (xs @ ls). key x < ikey i" and "\<forall>x\<in>set (rs @ ys). ikey i < key x"
    using assms(1,3,5,6) by (auto simp: keys_below_def)
  then have "\<forall>x\<in>set (xs @ ls @ rs @ ys). key x \<noteq> ikey i"
    by (metis Un_iff less_irrefl set_append)
  then show ?thesis using assms(5,6) by (simp add: filter_id_conv)
qed

lemma rb_delete_absent:
  assumes inv: "rb_inv key tree" and val: "\<forall>x\<in>set (inorder (rb_root tree)). valid x"
    and room: "rb_room tree" and i: "ivalid i"
    and new: "\<forall>x\<in>set (inorder (rb_root tree)). key x \<noteq> ikey i"
  shows "rb_delete cmp tree i = Inr (tree, None)"
proof -
  from rb_search_start [OF inv val room i] obtain st n where
    s: "rb_search (cmp i) [] (rb_root tree) = Inr (st, n)"
    and split: "ctx_left st @ inorder n @ ctx_right st = inorder (rb_root tree)"
    and hit: "\<And>d l r c. n = Node d l r c \<Longrightarrow> key d = ikey i"
    by metis
  have "n = NULL"
  proof (cases n)
    case (Node d' l' r' c')
    then have "d' \<in> set (ctx_left st @ inorder n @ ctx_right st)" by simp
    with hit [OF Node] new show ?thesis by (simp only: split)
  qed
  with s show ?thesis by (simp add: rb_delete_def)
qed

lemma rb_delete_present:
  assumes inv: "rb_inv key tree" and val: "\<forall>x\<in>set (inorder (rb_root tree)). valid x"
    and room: "rb_room tree" and i: "ivalid i"
    and old: "a \<in> set (inorder (rb_root tree))" and ka: "key a = ikey i"
  shows "\<exists>tree'. rb_delete cmp tree i = Inr (tree', Some a) \<and> rb_inv key tree' \<and>
    rb_cnt tree' = rb_cnt tree - 1 \<and>
    inorder (rb_root tree') = filter (\<lambda>x. key x \<noteq> ikey i) (inorder (rb_root tree))"
proof -
  let ?t = "rb_root tree"
  have srt: "srt (inorder ?t)" and cnt: "rb_cnt tree = int (length (inorder ?t))"
    using inv by (auto simp: rb_inv_def rb_sorted_def srt_def)
  from rb_search_start [OF inv val room i] obtain st n where
    s: "rb_search (cmp i) [] ?t = Inr (st, n)"
    and split: "ctx_left st @ inorder n @ ctx_right st = inorder ?t"
    and ctx: "ctx_c st (node_color n)" "ctx_h st (bheight n)" "invc n" "invh n"
      "length st + rb_height n \<le> 30"
    and place: "keys_below (ctx_left st) i" "keys_above (ctx_right st) i"
    and hit: "\<And>d l r c. n = Node d l r c \<Longrightarrow> key d = ikey i"
    by metis
  obtain d l r c where n: "n = Node d l r c"
  proof (cases n)
    case NULL
    then have "a \<in> set (ctx_left st @ ctx_right st)" using split old by simp
    then show ?thesis using place ka by (auto simp: keys_below_def keys_above_def)
  qed
  have ds: "d \<in> set (inorder ?t)" using split [symmetric] n by simp
  have "d = a"
    using ds old hit [OF n] ka srt sorted_wrt_less_distinct [of "map key (inorder ?t)"]
    by (simp add: srt_def distinct_map) (metis inj_onD)
  have io: "inorder ?t = ctx_left st @ inorder l @ d # inorder r @ ctx_right st"
    using split n by simp
  note rm = place_delete [OF place srt ds hit [OF n] io]
  from n ctx rb_delete_node [of st c d l r] obtain t where
    t: "rb_shape t" "inorder t = ctx_left st @ inorder l @ inorder r @ ctx_right st"
    and del: "rb_delete cmp tree i = Inr (tree\<lparr>rb_cnt := rb_cnt tree - 1, rb_root := t\<rparr>, Some d)"
    using s by (auto simp: rb_delete_def)
  have "srt (inorder t)" using srt rm t by (metis srt_filter)
  moreover have "length (inorder ?t) = Suc (length (inorder t))" using io t by simp
  ultimately show ?thesis
    using del t rm cnt \<open>d = a\<close> by (auto simp: rb_inv_def rb_sorted_def srt_def)
qed

end

end
