(* ===== verification/Rb_Traverse.thy ===== *)
theory Rb_Traverse
  imports Rb_Tree "HOL-Library.Multiset"
begin

text \<open>
  Traversals of the tree: the incremental \<^verbatim>\<open>rb_traverse\<close>, \<^verbatim>\<open>rb_walk\<close> and
  \<^verbatim>\<open>rb_destroy\<close>, each with the explicit stack of the C code, and the structural check
  \<^verbatim>\<open>verify_tree\<close> of the self test.
\<close>

section \<open>Incremental inorder traversal\<close>

record 'a rb_traverser =
  trav_init :: bool
  trav_stack :: "'a rb_node list"
  trav_p :: "'a rb_node"

definition rb_init_traverser :: "'a rb_traverser \<Rightarrow> 'a rb_traverser" where
  "rb_init_traverser tr = tr\<lparr>trav_init := False\<rparr>"

text \<open>T2 and T3: push the nodes down the left spine; the top of the stack is the list's head.\<close>

fun trav_down :: "'a rb_node list \<Rightarrow> 'a rb_node \<Rightarrow> fault + 'a rb_node list" where
  "trav_down st NULL = Inr st"
| "trav_down st (Node d l r c) =
     (if length st < RB_MAX_HEIGHT then trav_down (Node d l r c # st) l
      else Inl Buffer_Overflow)"

definition rb_traverse ::
  "'a rb_tree \<Rightarrow> 'a rb_traverser \<Rightarrow> fault + ('a rb_traverser \<times> 'a option)"
where
  "rb_traverse tree tr =
     rbind
       (if \<not> trav_init tr then Inr (rb_root tree, [])
        else (case trav_p tr of
                NULL \<Rightarrow> Inl Null_Deref
              | Node d l r c \<Rightarrow> Inr (r, trav_stack tr))) (\<lambda>(p, st).
     rbind (trav_down st p) (\<lambda>st'.
     case st' of
       [] \<Rightarrow> Inr (tr\<lparr>trav_init := False, trav_stack := [], trav_p := NULL\<rparr>, None)
     | NULL # st'' \<Rightarrow> Inl Null_Deref
     | Node d l r c # st'' \<Rightarrow>
         Inr (tr\<lparr>trav_init := True, trav_stack := st'', trav_p := Node d l r c\<rparr>, Some d)))"

text \<open>The items a stack of pending nodes stands for, and the room its nodes still need.\<close>

fun pending :: "'a rb_node list \<Rightarrow> 'a list" where
  "pending [] = []"
| "pending (NULL # st) = pending st"
| "pending (Node d l r c # st) = d # inorder r @ pending st"

fun trav_fits :: "'a rb_node list \<Rightarrow> bool" where
  "trav_fits [] \<longleftrightarrow> True"
| "trav_fits (NULL # st) \<longleftrightarrow> False"
| "trav_fits (Node d l r c # st) \<longleftrightarrow> length st + rb_height r \<le> RB_MAX_HEIGHT \<and> trav_fits st"

lemma trav_down_correct:
  assumes "length st + rb_height t \<le> RB_MAX_HEIGHT" and "trav_fits st"
  shows "\<exists>st'. trav_down st t = Inr st' \<and> trav_fits st' \<and> pending st' = inorder t @ pending st"
  using assms by (induction st t rule: trav_down.induct) auto

text \<open>What a traverser has still to deliver.\<close>

definition trav_rest :: "'a rb_tree \<Rightarrow> 'a rb_traverser \<Rightarrow> 'a list" where
  "trav_rest tree tr =
     (if \<not> trav_init tr then inorder (rb_root tree)
      else (case trav_p tr of
              NULL \<Rightarrow> []
            | Node d l r c \<Rightarrow> inorder r @ pending (trav_stack tr)))"

definition trav_ok :: "'a rb_tree \<Rightarrow> 'a rb_traverser \<Rightarrow> bool" where
  "trav_ok tree tr \<longleftrightarrow>
     rb_height (rb_root tree) \<le> RB_MAX_HEIGHT \<and>
     (trav_init tr \<longrightarrow> trav_fits (trav_p tr # trav_stack tr))"

lemma trav_ok_init: "rb_height (rb_root tree) \<le> RB_MAX_HEIGHT \<Longrightarrow> trav_ok tree (rb_init_traverser tr)"
  by (simp add: trav_ok_def rb_init_traverser_def)

lemma trav_rest_init: "trav_rest tree (rb_init_traverser tr) = inorder (rb_root tree)"
  by (simp add: trav_rest_def rb_init_traverser_def)

text \<open>
  One call delivers the first remaining item and leaves the others; with none left it
  returns the null pointer and resets the traverser.
\<close>

lemma rb_traverse_step:
  assumes ok: "trav_ok tree tr"
  shows "\<exists>tr'. trav_ok tree tr' \<and>
    (case trav_rest tree tr of
       [] \<Rightarrow> rb_traverse tree tr = Inr (tr', None) \<and> \<not> trav_init tr'
     | x # xs \<Rightarrow> rb_traverse tree tr = Inr (tr', Some x) \<and> trav_init tr' \<and> trav_rest tree tr' = xs)"
proof -
  obtain p st where
    start: "(if \<not> trav_init tr then Inr (rb_root tree, [])
        else (case trav_p tr of NULL \<Rightarrow> Inl Null_Deref
              | Node d l r c \<Rightarrow> Inr (r, trav_stack tr))) = Inr (p, st)"
    and fit: "length st + rb_height p \<le> RB_MAX_HEIGHT" "trav_fits st"
    and rest: "trav_rest tree tr = inorder p @ pending st"
  proof (cases "trav_init tr")
    case False
    then show thesis using ok that [of "rb_root tree" "[]"]
      by (simp add: trav_ok_def trav_rest_def)
  next
    case True
    then show thesis using ok that
      by (cases "trav_p tr") (auto simp: trav_ok_def trav_rest_def)
  qed
  from trav_down_correct [OF fit] obtain st' where
    down: "trav_down st p = Inr st'" and fits: "trav_fits st'"
    and pend: "pending st' = inorder p @ pending st" by blast
  have h: "rb_height (rb_root tree) \<le> RB_MAX_HEIGHT" using ok by (simp add: trav_ok_def)
  show ?thesis
  proof (cases st')
    case Nil
    then show ?thesis
      using start down pend rest h
      by (intro exI [of _ "tr\<lparr>trav_init := False, trav_stack := [], trav_p := NULL\<rparr>"])
         (simp add: rb_traverse_def trav_ok_def)
  next
    case (Cons n st'')
    with fits obtain d l r c where n: "n = Node d l r c" by (cases n) auto
    then show ?thesis
      using start down pend rest h fits Cons
      by (intro exI [of _ "tr\<lparr>trav_init := True, trav_stack := st'', trav_p := n\<rparr>"])
         (simp add: rb_traverse_def trav_ok_def trav_rest_def flip: pend)
  qed
qed

section \<open>Walking a whole tree\<close>

text \<open>The items \<^verbatim>\<open>walk_func\<close> is called on, in order.\<close>

fun node_weight :: "'a rb_node \<Rightarrow> nat" where
  "node_weight NULL = 0"
| "node_weight (Node d l r c) = node_weight l + node_weight r + 3"

fun walk_weight :: "'a rb_node list \<Rightarrow> nat" where
  "walk_weight [] = 0"
| "walk_weight (NULL # st) = walk_weight st"
| "walk_weight (Node d l r c # st) = Suc (node_weight r) + walk_weight st"

function rb_walk_loop :: "'a rb_node list \<Rightarrow> 'a rb_node \<Rightarrow> fault + 'a list" where
  "rb_walk_loop st (Node d l r c) =
     (if length st < RB_MAX_HEIGHT then rb_walk_loop (Node d l r c # st) l
      else Inl Buffer_Overflow)"
| "rb_walk_loop [] NULL = Inr []"
| "rb_walk_loop (NULL # st) NULL = Inl Null_Deref"
| "rb_walk_loop (Node d l r c # st) NULL =
     rbind (rb_walk_loop st r) (\<lambda>xs. Inr (d # xs))"
  by pat_completeness auto
termination
  by (relation "measure (\<lambda>(st, p). node_weight p + walk_weight st)") auto

definition rb_walk :: "'a rb_tree \<Rightarrow> fault + 'a list" where
  "rb_walk tree = rb_walk_loop [] (rb_root tree)"

lemma rb_walk_loop_correct:
  "length st + rb_height t \<le> RB_MAX_HEIGHT \<Longrightarrow> trav_fits st \<Longrightarrow>
   rb_walk_loop st t = Inr (inorder t @ pending st)"
  by (induction st t rule: rb_walk_loop.induct) auto

section \<open>Destroying a tree\<close>

text \<open>
  The stack holds a node and its bit of \<open>ab\<close>. The result is the sequence of data items of
  the nodes in the order in which they are freed.
\<close>

fun destroy_weight :: "('a rb_node \<times> bool) list \<Rightarrow> nat" where
  "destroy_weight [] = 0"
| "destroy_weight ((NULL, b) # st) = destroy_weight st"
| "destroy_weight ((Node d l r c, b) # st) =
     (if b then 1 else node_weight r + 2) + destroy_weight st"

function rb_destroy_loop :: "('a rb_node \<times> bool) list \<Rightarrow> 'a rb_node \<Rightarrow> fault + 'a list" where
  "rb_destroy_loop st (Node d l r c) =
     (if length st < RB_MAX_HEIGHT then rb_destroy_loop ((Node d l r c, False) # st) l
      else Inl Buffer_Overflow)"
| "rb_destroy_loop [] NULL = Inr []"
| "rb_destroy_loop ((NULL, b) # st) NULL = Inl Null_Deref"
| "rb_destroy_loop ((Node d l r c, False) # st) NULL =
     rb_destroy_loop ((Node d l r c, True) # st) r"
| "rb_destroy_loop ((Node d l r c, True) # st) NULL =
     rbind (rb_destroy_loop st NULL) (\<lambda>xs. Inr (d # xs))"
  by pat_completeness auto
termination
  by (relation "measure (\<lambda>(st, p). node_weight p + destroy_weight st)") auto

definition rb_destroy :: "'a rb_tree \<Rightarrow> fault + 'a list" where
  "rb_destroy tree = rb_destroy_loop [] (rb_root tree)"

fun postorder :: "'a rb_node \<Rightarrow> 'a list" where
  "postorder NULL = []"
| "postorder (Node d l r c) = postorder l @ postorder r @ [d]"

fun to_free :: "('a rb_node \<times> bool) list \<Rightarrow> 'a list" where
  "to_free [] = []"
| "to_free ((NULL, b) # st) = to_free st"
| "to_free ((Node d l r c, b) # st) = (if b then [] else postorder r) @ d # to_free st"

fun destroy_fits :: "('a rb_node \<times> bool) list \<Rightarrow> bool" where
  "destroy_fits [] \<longleftrightarrow> True"
| "destroy_fits ((NULL, b) # st) \<longleftrightarrow> False"
| "destroy_fits ((Node d l r c, b) # st) \<longleftrightarrow>
     Suc (length st + rb_height r) \<le> RB_MAX_HEIGHT \<and> destroy_fits st"

lemma rb_destroy_loop_correct:
  "length st + rb_height t \<le> RB_MAX_HEIGHT \<Longrightarrow> destroy_fits st \<Longrightarrow>
   rb_destroy_loop st t = Inr (postorder t @ to_free st)"
  by (induction st t rule: rb_destroy_loop.induct) auto

lemma mset_postorder: "mset (postorder t) = mset (inorder t)"
  by (induction t) auto

section \<open>The self test's structural check\<close>

definition INT_MIN :: int where "INT_MIN = -(2 ^ 31)"
definition INT_MAX :: int where "INT_MAX = 2 ^ 31 - 1"

text \<open>A result of \<^verbatim>\<open>int\<close> arithmetic, which must not overflow, and a cast to \<^verbatim>\<open>int\<close>.\<close>

definition c_int :: "int \<Rightarrow> fault + int" where
  "c_int x = (if INT_MIN \<le> x \<and> x \<le> INT_MAX then Inr x else Inl Int_Overflow)"

definition to_int :: "int \<Rightarrow> int" where
  "to_int x = sint (word_of_int x :: u32)"

text \<open>
  \<^verbatim>\<open>recurse_tree\<close> on a tree of integers: the black height it returns, the node count
  and the flag \<^verbatim>\<open>done\<close> (here \<open>bad\<close>) that a complaint sets.
\<close>

fun recurse_tree :: "int rb_node \<Rightarrow> int \<Rightarrow> int \<Rightarrow> int \<Rightarrow> bool \<Rightarrow> fault + (int \<times> int \<times> bool)" where
  "recurse_tree NULL cnt ge le bad = Inr (1, cnt, bad)"
| "recurse_tree (Node data l r c) cnt ge le bad =
     (let d = to_int data;
          bad1 = (bad \<or> \<not> (d \<ge> ge) \<or> \<not> (d \<le> le))
      in rbind (c_int (cnt + 1)) (\<lambda>cnt1.
         rbind
           (if l \<noteq> NULL then rbind (c_int (d - 1)) (\<lambda>le'. recurse_tree l cnt1 ge le' bad1)
            else Inr (1, cnt1, bad1)) (\<lambda>(nl, cnt2, bad2).
         rbind
           (if r \<noteq> NULL then rbind (c_int (d + 1)) (\<lambda>ge'. recurse_tree r cnt2 ge' le bad2)
            else Inr (1, cnt2, bad2)) (\<lambda>(nr, cnt3, bad3).
         let bad4 = (bad3 \<or> c = RB_RED \<and> l \<noteq> NULL \<and> is_red l);
             bad5 = (bad4 \<or> c = RB_RED \<and> r \<noteq> NULL \<and> is_red r);
             bad6 = (bad5 \<or> nl \<noteq> nr)
         in rbind (c_int ((if c = RB_BLACK then 1 else 0) + nl)) (\<lambda>n. Inr (n, cnt3, bad6))))))"

text \<open>\<^verbatim>\<open>abort\<close> ends in a fault; \<^verbatim>\<open>done\<close> is a global that starts at 0.\<close>

definition verify_tree :: "int rb_tree \<Rightarrow> fault + unit" where
  "verify_tree tree =
     rbind (recurse_tree (rb_root tree) 0 INT_MIN INT_MAX False) (\<lambda>(_, cnt, bad).
     c_assert (\<not> (bad \<or> cnt \<noteq> rb_cnt tree)))"

text \<open>What the check reports, over unbounded integers.\<close>

fun tree_report :: "int rb_node \<Rightarrow> int \<Rightarrow> int \<Rightarrow> int \<Rightarrow> bool \<Rightarrow> int \<times> int \<times> bool" where
  "tree_report NULL cnt ge le bad = (1, cnt, bad)"
| "tree_report (Node d l r c) cnt ge le bad =
     (let (nl, cnt2, bad2) = tree_report l (cnt + 1) ge (d - 1) (bad \<or> \<not> (d \<ge> ge) \<or> \<not> (d \<le> le));
          (nr, cnt3, bad3) = tree_report r cnt2 (d + 1) le bad2
      in ((if c = RB_BLACK then 1 else 0) + nl, cnt3,
          ((bad3 \<or> c = RB_RED \<and> is_red l) \<or> c = RB_RED \<and> is_red r) \<or> nl \<noteq> nr))"

definition int_ordered :: "int \<Rightarrow> int \<Rightarrow> int rb_node \<Rightarrow> bool" where
  "int_ordered ge le t \<longleftrightarrow> sorted_wrt (<) (inorder t) \<and> (\<forall>d\<in>set (inorder t). ge \<le> d \<and> d \<le> le)"

lemma int_ordered_Node:
  "int_ordered ge le (Node d l r c) \<longleftrightarrow>
     ge \<le> d \<and> d \<le> le \<and> int_ordered ge (d - 1) l \<and> int_ordered (d + 1) le r"
proof -
  have "sorted_wrt (<) (inorder (Node d l r c)) \<longleftrightarrow>
      sorted_wrt (<) (inorder l) \<and> sorted_wrt (<) (inorder r) \<and>
      (\<forall>x\<in>set (inorder l). x < d) \<and> (\<forall>x\<in>set (inorder r). d < x)"
    by (auto simp: sorted_wrt_append) (meson less_trans)
  moreover have "(\<forall>x\<in>set xs. ge \<le> x \<and> x \<le> le) \<and> (\<forall>x\<in>set xs. x < d) \<and> d \<le> le \<longleftrightarrow>
      (\<forall>x\<in>set xs. ge \<le> x \<and> x \<le> d - 1) \<and> d \<le> le" for xs
    by force
  moreover have "(\<forall>x\<in>set xs. ge \<le> x \<and> x \<le> le) \<and> (\<forall>x\<in>set xs. d < x) \<and> ge \<le> d \<longleftrightarrow>
      (\<forall>x\<in>set xs. d + 1 \<le> x \<and> x \<le> le) \<and> ge \<le> d" for xs
    by force
  ultimately show ?thesis
    unfolding int_ordered_def by (simp add: ball_Un) blast
qed

text \<open>
  The check complains exactly about the trees that break the invariants; on a tree it has no
  complaint about it returns one more than the black height.
\<close>

lemma tree_report_correct:
  "fst (snd (tree_report t cnt ge le bad)) = cnt + int (length (inorder t)) \<and>
   (snd (snd (tree_report t cnt ge le bad)) \<longleftrightarrow>
     bad \<or> \<not> (invc t \<and> invh t \<and> int_ordered ge le t)) \<and>
   (invh t \<longrightarrow> fst (tree_report t cnt ge le bad) = int (bheight t) + 1)"
proof (induction t arbitrary: cnt ge le bad)
  case NULL
  show ?case by (simp add: int_ordered_def)
next
  case (Node d l r c)
  obtain nl c2 b2 where
    l: "tree_report l (cnt + 1) ge (d - 1) (bad \<or> \<not> (d \<ge> ge) \<or> \<not> (d \<le> le)) = (nl, c2, b2)"
    by (metis prod_cases3)
  obtain nr c3 b3 where r: "tree_report r c2 (d + 1) le b2 = (nr, c3, b3)"
    by (metis prod_cases3)
  have L: "c2 = cnt + 1 + int (length (inorder l))"
      "b2 \<longleftrightarrow> (bad \<or> \<not> d \<ge> ge \<or> \<not> d \<le> le) \<or> \<not> (invc l \<and> invh l \<and> int_ordered ge (d - 1) l)"
      "invh l \<longrightarrow> nl = int (bheight l) + 1"
    using Node.IH(1) [of "cnt + 1" ge "d - 1" "bad \<or> \<not> d \<ge> ge \<or> \<not> d \<le> le"] l by simp_all
  have R: "c3 = c2 + int (length (inorder r))"
      "b3 \<longleftrightarrow> b2 \<or> \<not> (invc r \<and> invh r \<and> int_ordered (d + 1) le r)"
      "invh r \<longrightarrow> nr = int (bheight r) + 1"
    using Node.IH(2) [of c2 "d + 1" le b2] r by simp_all
  have eq: "tree_report (Node d l r c) cnt ge le bad = ((if c = RB_BLACK then 1 else 0) + nl, c3,
      ((b3 \<or> c = RB_RED \<and> is_red l) \<or> c = RB_RED \<and> is_red r) \<or> nl \<noteq> nr)" by (simp only: tree_report.simps l r Let_def prod.case)
  have "(((b3 \<or> c = RB_RED \<and> is_red l) \<or> c = RB_RED \<and> is_red r) \<or> nl \<noteq> nr) \<longleftrightarrow>
      bad \<or> \<not> (invc (Node d l r c) \<and> invh (Node d l r c) \<and> int_ordered ge le (Node d l r c))"
    using L(2,3) R(2,3) by (auto simp: int_ordered_Node)
  moreover have "invh (Node d l r c) \<longrightarrow>
      (if c = RB_BLACK then 1 else 0) + nl = int (bheight (Node d l r c)) + 1"
    using L(3) by auto
  moreover have "c3 = cnt + int (length (inorder (Node d l r c)))"
    using L(1) R(1) by simp
  ultimately show ?case unfolding eq fst_conv snd_conv by blast
qed

lemma c_int_eq: "c_int x = Inr y \<longleftrightarrow> y = x \<and> INT_MIN \<le> x \<and> x \<le> INT_MAX"
  by (auto simp: c_int_def)

text \<open>The items of the self test are values of \<^verbatim>\<open>int\<close>.\<close>

definition int_items :: "int rb_node \<Rightarrow> bool" where
  "int_items t \<longleftrightarrow> (\<forall>d\<in>set (inorder t). INT_MIN \<le> d \<and> d \<le> INT_MAX)"

lemma to_int_id: "INT_MIN \<le> d \<Longrightarrow> d \<le> INT_MAX \<Longrightarrow> to_int d = d"
  by (simp add: to_int_def INT_MIN_def INT_MAX_def signed_of_int signed_take_bit_int_eq_self)

lemma int_items_Node [simp]:
  "int_items (Node d l r c) \<longleftrightarrow> INT_MIN \<le> d \<and> d \<le> INT_MAX \<and> int_items l \<and> int_items r"
  by (auto simp: int_items_def)

lemma recurse_tree_NodeE:
  assumes "recurse_tree (Node data l r c) cnt ge le bad = Inr x" and d: "to_int data = d"
  obtains y z where "cnt + 1 \<le> INT_MAX"
    and "(if l \<noteq> NULL then rbind (c_int (d - 1)) (\<lambda>le'. recurse_tree l (cnt + 1) ge le' (bad \<or> \<not> (d \<ge> ge) \<or> \<not> (d \<le> le)))
        else Inr (1, cnt + 1, bad \<or> \<not> (d \<ge> ge) \<or> \<not> (d \<le> le))) = Inr y"
    and "(if r \<noteq> NULL then rbind (c_int (d + 1)) (\<lambda>ge'. recurse_tree r (fst (snd y)) ge' le (snd (snd y)))
        else Inr (1, fst (snd y), snd (snd y))) = Inr z"
    and "x = ((if c = RB_BLACK then 1 else 0) + fst y, fst (snd z),
      ((snd (snd z) \<or> c = RB_RED \<and> is_red l) \<or> c = RB_RED \<and> is_red r) \<or> fst y \<noteq> fst z)"
proof -
  have red: "(t \<noteq> NULL \<and> is_red t) = is_red t" for t :: "int rb_node" by (cases t) auto
  show thesis
    using assms(1) unfolding recurse_tree.simps Let_def d red rbind_eq_Inr_iff case_prod_beta
    apply (elim exE conjE)
    apply (drule c_int_eq [THEN iffD1], elim conjE, hypsubst, rule that)
    by (assumption | simp add: c_int_eq)+
qed

text \<open>What the check returns is the report; the null tests only save calls that return the same.\<close>

lemma recurse_tree_report:
  "recurse_tree t cnt ge le bad = Inr x \<Longrightarrow> int_items t \<Longrightarrow> x = tree_report t cnt ge le bad"
proof (induction t arbitrary: cnt ge le bad x)
  case (Node d l r c)
  have skip: "(if t \<noteq> NULL then rbind (c_int e) f else Inr (1, n, b)) = Inr y \<Longrightarrow>
      (\<And>z. f e = Inr z \<Longrightarrow> z = tree_report t n g h b) \<Longrightarrow> y = tree_report t n g h b"
    for t :: "int rb_node" and e f n b y g h
    by (cases t) (auto simp: c_int_def split: if_splits)
  from Node.prems(2) have "to_int d = d" by (simp add: to_int_id)
  with Node.prems(1) show ?case
  proof (rule recurse_tree_NodeE)
    fix y z
    assume y: "(if l \<noteq> NULL then rbind (c_int (d - 1)) (\<lambda>le'. recurse_tree l (cnt + 1) ge le' (bad \<or> \<not> (d \<ge> ge) \<or> \<not> (d \<le> le)))
        else Inr (1, cnt + 1, bad \<or> \<not> (d \<ge> ge) \<or> \<not> (d \<le> le))) = Inr y"
      and z: "(if r \<noteq> NULL then rbind (c_int (d + 1)) (\<lambda>ge'. recurse_tree r (fst (snd y)) ge' le (snd (snd y)))
        else Inr (1, fst (snd y), snd (snd y))) = Inr z"
      and x: "x = ((if c = RB_BLACK then 1 else 0) + fst y, fst (snd z),
        ((snd (snd z) \<or> c = RB_RED \<and> is_red l) \<or> c = RB_RED \<and> is_red r) \<or> fst y \<noteq> fst z)"
    have "y = tree_report l (cnt + 1) ge (d - 1) (bad \<or> \<not> (d \<ge> ge) \<or> \<not> (d \<le> le))"
      by (rule skip [OF y]) (use Node in auto)
    moreover have "z = tree_report r (fst (snd y)) (d + 1) le (snd (snd y))"
      by (rule skip [OF z]) (use Node in auto)
    ultimately show ?thesis unfolding x by (simp add: case_prod_unfold Let_def)
  qed
qed simp

lemma recurse_tree_count:
  "recurse_tree t cnt ge le bad = Inr x \<Longrightarrow> cnt \<le> INT_MAX \<Longrightarrow> fst (snd x) \<le> INT_MAX"
proof (induction t arbitrary: cnt ge le bad x)
  case (Node d l r c)
  have skip: "(if t \<noteq> NULL then rbind (c_int e) f else Inr (1, n, b)) = Inr y \<Longrightarrow> n \<le> INT_MAX \<Longrightarrow>
      (\<And>z. f e = Inr z \<Longrightarrow> fst (snd z) \<le> INT_MAX) \<Longrightarrow> fst (snd y) \<le> INT_MAX"
    for t :: "int rb_node" and e f n and b :: bool and y
    by (auto simp: c_int_def split: if_splits)
  from Node.prems(1) refl show ?case
  proof (rule recurse_tree_NodeE)
    fix y z
    let ?d = "to_int d"
    assume n: "cnt + 1 \<le> INT_MAX"
      and y: "(if l \<noteq> NULL then rbind (c_int (?d - 1)) (\<lambda>le'. recurse_tree l (cnt + 1) ge le' (bad \<or> \<not> (?d \<ge> ge) \<or> \<not> (?d \<le> le)))
        else Inr (1, cnt + 1, bad \<or> \<not> (?d \<ge> ge) \<or> \<not> (?d \<le> le))) = Inr y"
      and z: "(if r \<noteq> NULL then rbind (c_int (?d + 1)) (\<lambda>ge'. recurse_tree r (fst (snd y)) ge' le (snd (snd y)))
        else Inr (1, fst (snd y), snd (snd y))) = Inr z"
      and x: "x = ((if c = RB_BLACK then 1 else 0) + fst y, fst (snd z),
        ((snd (snd z) \<or> c = RB_RED \<and> is_red l) \<or> c = RB_RED \<and> is_red r) \<or> fst y \<noteq> fst z)"
    have "fst (snd y) \<le> INT_MAX" by (rule skip [OF y n]) (rule Node.IH(1) [OF _ n])
    then have "fst (snd z) \<le> INT_MAX" by (rule skip [OF z]) (rule Node.IH(2) [OF _ \<open>fst (snd y) \<le> INT_MAX\<close>])
    then show ?thesis by (simp add: x)
  qed
qed simp

lemma invh_bheight: "invh t \<Longrightarrow> 2 * bheight t \<le> length (inorder t) + 1"
proof (induction t)
  case (Node d l r c)
  then show ?case by (cases "bheight r") auto
qed simp

text \<open>On a tree that is in order nothing overflows.\<close>

lemma recurse_tree_runs:
  "int_ordered ge le t \<Longrightarrow> int_items t \<Longrightarrow> invh t \<Longrightarrow> 0 \<le> cnt \<Longrightarrow>
   cnt + int (length (inorder t)) \<le> INT_MAX \<Longrightarrow>
   recurse_tree t cnt ge le bad = Inr (tree_report t cnt ge le bad)"
proof (induction t arbitrary: cnt ge le bad)
  case (Node d l r c)
  let ?b = "bad \<or> \<not> (d \<ge> ge) \<or> \<not> (d \<le> le)"
  from Node.prems(1) have ord: "int_ordered ge (d - 1) l" "int_ordered (d + 1) le r" by (simp_all add: int_ordered_Node)
  from Node.prems(2) have d: "to_int d = d" by (simp add: to_int_id)
  have range: "INT_MIN \<le> 0" "(0::int) \<le> INT_MAX" "1 \<le> INT_MAX" by (simp_all add: INT_MIN_def INT_MAX_def)
  have below: "l \<noteq> NULL \<Longrightarrow> c_int (d - 1) = Inr (d - 1)"
    using ord(1) Node.prems(2) by (cases l) (auto simp: int_ordered_Node c_int_def)
  have above: "r \<noteq> NULL \<Longrightarrow> c_int (d + 1) = Inr (d + 1)"
    using ord(2) Node.prems(2) by (cases r) (auto simp: int_ordered_Node c_int_def)
  obtain nl c2 b2 where lr: "tree_report l (cnt + 1) ge (d - 1) ?b = (nl, c2, b2)" by (metis prod_cases3)
  from tree_report_correct [of l "cnt + 1" ge "d - 1" ?b] lr Node.prems(3)
  have c2: "c2 = cnt + 1 + int (length (inorder l))" "nl = int (bheight l) + 1" by auto
  have L: "(if l \<noteq> NULL then rbind (c_int (d - 1)) (\<lambda>le'. recurse_tree l (cnt + 1) ge le' ?b)
      else Inr (1, cnt + 1, ?b)) = Inr (nl, c2, b2)"
    using Node.IH(1) [OF ord(1), of "cnt + 1" ?b] Node.prems below lr by (cases l) auto
  have R: "(if r \<noteq> NULL then rbind (c_int (d + 1)) (\<lambda>ge'. recurse_tree r c2 ge' le b2)
      else Inr (1, c2, b2)) = Inr (tree_report r c2 (d + 1) le b2)"
    using Node.IH(2) [OF ord(2), of c2 b2] Node.prems above c2(1) by (cases r) auto
  have cnt: "c_int (cnt + 1) = Inr (cnt + 1)" using Node.prems(4,5) range by (simp add: c_int_def)
  have n: "c_int ((if c = RB_BLACK then 1 else 0) + nl) = Inr ((if c = RB_BLACK then 1 else 0) + nl)"
    using invh_bheight [OF Node.prems(3)] Node.prems(4,5) range c2(2)
    by (auto simp: c_int_def INT_MAX_def)
  have red: "(t \<noteq> NULL \<and> is_red t) = is_red t" for t :: "int rb_node" by (cases t) auto
  show ?case
    unfolding recurse_tree.simps tree_report.simps Let_def d cnt rbind_simps L lr prod.case R red
    by (cases "tree_report r c2 (d + 1) le b2") (simp only: prod.case n rbind_simps)
qed (simp add: int_ordered_def)

lemma verify_tree_iff:
  assumes "int_items (rb_root tree)"
  shows "verify_tree tree = Inr () \<longleftrightarrow>
    invc (rb_root tree) \<and> invh (rb_root tree) \<and> sorted_wrt (<) (inorder (rb_root tree)) \<and>
    rb_cnt tree = int (length (inorder (rb_root tree))) \<and> rb_cnt tree \<le> INT_MAX" (is "_ \<longleftrightarrow> ?ok")
proof -
  let ?t = "rb_root tree"
  obtain n cnt bad where e: "tree_report ?t 0 INT_MIN INT_MAX False = (n, cnt, bad)" by (metis prod_cases3)
  from tree_report_correct [of ?t 0 INT_MIN INT_MAX False] assms e have
    r: "cnt = int (length (inorder ?t))" "\<not> bad \<longleftrightarrow> invc ?t \<and> invh ?t \<and> sorted_wrt (<) (inorder ?t)"
    by (auto simp: int_ordered_def int_items_def)
  show ?thesis
  proof
    assume v: "verify_tree tree = Inr ()"
    then obtain x where x: "recurse_tree ?t 0 INT_MIN INT_MAX False = Inr x" by (auto simp: verify_tree_def)
    from recurse_tree_report [OF x assms] e have "x = (n, cnt, bad)" by simp
    moreover have "cnt \<le> INT_MAX"
      using recurse_tree_count [OF x] \<open>x = (n, cnt, bad)\<close> by (simp add: INT_MAX_def)
    ultimately show ?ok using v x r by (auto simp: verify_tree_def c_assert_def split: if_splits)
  next
    assume ok: ?ok
    with assms have "int_ordered INT_MIN INT_MAX ?t" by (simp add: int_ordered_def int_items_def)
    with recurse_tree_runs [of INT_MIN INT_MAX ?t 0 False] assms ok e
    have "recurse_tree ?t 0 INT_MIN INT_MAX False = Inr (n, cnt, bad)" by simp
    with ok r show "verify_tree tree = Inr ()" by (simp add: verify_tree_def c_assert_def)
  qed
qed

end
