(* ===== verification/Rb_Copy.thy ===== *)
theory Rb_Copy
  imports Rb_Traverse
begin

text \<open>
  \<^verbatim>\<open>rb_copy\<close> of \<^verbatim>\<open>common/rb.c\<close>. The copy is built in heap memory: its nodes are allocated
  before their data is known and linked to their parents at once, so the two loops with their
  pairs of stacks run over the nodes of the source and over addresses of half-built nodes. The
  last section is the comparison of two trees in the self test.
\<close>

section \<open>The nodes under construction\<close>

text \<open>A node as \<^verbatim>\<open>xmalloc\<close> and the two null links leave it has neither data nor a color.\<close>

record 'a new_node =
  nn_link0 :: nat
  nn_link1 :: nat
  nn_data :: "'a option"
  nn_color :: "rb_color option"

definition fresh_node :: "'a new_node" where
  "fresh_node = \<lparr>nn_link0 = 0, nn_link1 = 0, nn_data = None, nn_color = None\<rparr>"

text \<open>Addresses start at 2: 0 is the null pointer, and 1 is \<^verbatim>\<open>&new_tree->root\<close>.\<close>

record 'a copy_heap =
  ch_nodes :: "nat \<rightharpoonup> 'a new_node"
  ch_brk :: nat

definition node_update :: "'a copy_heap \<Rightarrow> nat \<Rightarrow> ('a new_node \<Rightarrow> 'a new_node) \<Rightarrow> fault + 'a copy_heap" where
  "node_update h q f =
     rbind (deref (ch_nodes h) q) (\<lambda>n. Inr (h\<lparr>ch_nodes := (ch_nodes h)(q \<mapsto> f n)\<rparr>))"

definition new_tree_heap :: "'a copy_heap" where
  "new_tree_heap = \<lparr>ch_nodes = [1 \<mapsto> fresh_node], ch_brk = 2\<rparr>"

section \<open>The copying loop\<close>

text \<open>C2 and C4: a node of the copy gets a child where the source has one.\<close>

definition copy_left :: "'a rb_node \<Rightarrow> 'b copy_heap \<Rightarrow> nat \<Rightarrow> fault + 'b copy_heap" where
  "copy_left l h q =
     (if l \<noteq> NULL then
        node_update (h\<lparr>ch_nodes := (ch_nodes h)(ch_brk h \<mapsto> fresh_node), ch_brk := ch_brk h + 1\<rparr>) q
          (\<lambda>n. n\<lparr>nn_link0 := ch_brk h\<rparr>)
      else Inr h)"

definition copy_right :: "'a rb_node \<Rightarrow> 'b copy_heap \<Rightarrow> nat \<Rightarrow> fault + 'b copy_heap" where
  "copy_right r h q =
     (if r \<noteq> NULL then
        node_update (h\<lparr>ch_nodes := (ch_nodes h)(ch_brk h \<mapsto> fresh_node), ch_brk := ch_brk h + 1\<rparr>) q
          (\<lambda>n. n\<lparr>nn_link1 := ch_brk h\<rparr>)
      else Inr h)"

text \<open>
  From the second \<^verbatim>\<open>while\<close> test on: a node (the label \<^verbatim>\<open>escape\<close>) gets its right child, its
  color and data, its left child, and is pushed; at a null link the two stacks are popped and
  the right links followed. An entry of the stack \<open>pa\<close> is its \<^verbatim>\<open>link[1]\<close>, all that is read of it
  again.
\<close>

definition c_room :: "'a list \<Rightarrow> fault + unit" where
  "c_room st = (if length st < RB_MAX_HEIGHT then Inr () else Inl Buffer_Overflow)"

function rb_copy_loop ::
  "('a \<Rightarrow> 'b) \<Rightarrow> 'b copy_heap \<Rightarrow> ('a rb_node \<times> nat) list \<Rightarrow> 'a rb_node \<Rightarrow> nat \<Rightarrow> fault + 'b copy_heap"
where
  "rb_copy_loop copy h st (Node d l r c) q =
     rbind (copy_right r h q) (\<lambda>h1.
     rbind (node_update h1 q (\<lambda>n. n\<lparr>nn_data := Some (copy d), nn_color := Some c\<rparr>)) (\<lambda>h2.
     rbind (copy_left l h2 q) (\<lambda>h3.
     rbind (c_room st) (\<lambda>_.
     rbind (deref (ch_nodes h3) q) (\<lambda>n.
     rb_copy_loop copy h3 ((r, q) # st) l (nn_link0 n))))))"
| "rb_copy_loop copy h [] NULL q = Inr h"
| "rb_copy_loop copy h ((r, q') # st) NULL q =
     rbind (deref (ch_nodes h) q') (\<lambda>n. rb_copy_loop copy h st r (nn_link1 n))"
  by pat_completeness auto
termination
  by (relation "measure (\<lambda>(_, _, st, p, _). node_weight p + (\<Sum>(r, _)\<leftarrow>st. node_weight r + 1))") auto

text \<open>The finished nodes as a tree; at most \<open>RB_MAX_HEIGHT\<close> levels are followed.\<close>

fun read_tree :: "nat \<Rightarrow> (nat \<rightharpoonup> 'a new_node) \<Rightarrow> nat \<Rightarrow> fault + 'a rb_node" where
  "read_tree 0 ns q = (if q = 0 then Inr NULL else Inl Out_Of_Fuel)"
| "read_tree (Suc k) ns q =
     (if q = 0 then Inr NULL
      else
        rbind (deref ns q) (\<lambda>n.
        rbind (read_tree k ns (nn_link0 n)) (\<lambda>l.
        rbind (read_tree k ns (nn_link1 n)) (\<lambda>r.
        case (nn_data n, nn_color n) of
          (Some d, Some c) \<Rightarrow> Inr (Node d l r c)
        | _ \<Rightarrow> Inl Uninit_Read))))"

text \<open>
  The copy of the root link starts at C4 with the sentinels of both trees, whose right links
  are null. A null \<^verbatim>\<open>copy\<close> is \<open>None\<close>; the tree's \<^verbatim>\<open>param\<close> is part of the function.
\<close>

definition rb_copy :: "'a rb_tree \<Rightarrow> ('a \<Rightarrow> 'a) option \<Rightarrow> fault + 'a rb_tree" where
  "rb_copy tree copy =
     rbind (copy_left (rb_root tree) new_tree_heap 1) (\<lambda>h1.
     rbind (deref (ch_nodes h1) 1) (\<lambda>n.
     rbind (rb_copy_loop (case copy of None \<Rightarrow> (\<lambda>d. d) | Some f \<Rightarrow> f) h1 [(NULL, 1)] (rb_root tree)
              (nn_link0 n)) (\<lambda>h2.
     rbind (deref (ch_nodes h2) 1) (\<lambda>n'.
     rbind (read_tree RB_MAX_HEIGHT (ch_nodes h2) (nn_link0 n')) (\<lambda>t.
     Inr \<lparr>rb_root = t, rb_cnt = rb_cnt tree\<rparr>)))))"

section \<open>The copy is the tree\<close>

text \<open>The nodes at the addresses \<open>A\<close> are a finished tree.\<close>

primrec built :: "(nat \<rightharpoonup> 'a new_node) \<Rightarrow> nat \<Rightarrow> 'a rb_node \<Rightarrow> nat set \<Rightarrow> bool" where
  "built ns q NULL A \<longleftrightarrow> q = 0 \<and> A = {}"
| "built ns q (Node d l r c) A \<longleftrightarrow>
     (\<exists>ql qr L R. q \<noteq> 0 \<and> ns q = Some \<lparr>nn_link0 = ql, nn_link1 = qr, nn_data = Some d, nn_color = Some c\<rparr> \<and>
       built ns ql l L \<and> built ns qr r R \<and> A = insert q (L \<union> R))"

lemma built_mono: "built ns q t A \<Longrightarrow> (\<And>a. a \<in> A \<Longrightarrow> ns' a = ns a) \<Longrightarrow> built ns' q t A"
proof (induction t arbitrary: q A)
  case (Node d l r c)
  then obtain ql qr L R where
    b: "q \<noteq> 0" "ns q = Some \<lparr>nn_link0 = ql, nn_link1 = qr, nn_data = Some d, nn_color = Some c\<rparr>"
      "built ns ql l L" "built ns qr r R" "A = insert q (L \<union> R)" by auto
  with Node.IH(1) [OF b(3)] Node.IH(2) [OF b(4)] Node.prems(2) show ?case by auto
qed simp

lemma built_pos: "built ns q t A \<Longrightarrow> 0 \<notin> A"
  by (induction t arbitrary: q A) auto

lemma read_built: "built ns q t A \<Longrightarrow> rb_height t \<le> k \<Longrightarrow> read_tree k ns q = Inr t"
proof (induction t arbitrary: q A k)
  case NULL
  then show ?case by (cases k) auto
next
  case (Node d l r c)
  then obtain k' where k: "k = Suc k'" "rb_height l \<le> k'" "rb_height r \<le> k'" by (cases k) auto
  from Node.prems(1) obtain ql qr L R where
    b: "q \<noteq> 0" "ns q = Some \<lparr>nn_link0 = ql, nn_link1 = qr, nn_data = Some d, nn_color = Some c\<rparr>"
      "built ns ql l L" "built ns qr r R" by auto
  with Node.IH(1) [OF b(3) k(2)] Node.IH(2) [OF b(4) k(3)] k(1) show ?case by (simp add: deref_live)
qed

lemma rb_height_map [simp]: "rb_height (map_rb_node f t) = rb_height t"
  by (induction t) auto

definition copy_ready :: "'b copy_heap \<Rightarrow> 'a rb_node \<Rightarrow> nat \<Rightarrow> bool" where
  "copy_ready h t q \<longleftrightarrow>
     (if t = NULL then q = 0 else q \<noteq> 0 \<and> q < ch_brk h \<and> ch_nodes h q = Some fresh_node)"

definition copy_extends :: "'b copy_heap \<Rightarrow> nat \<Rightarrow> 'b copy_heap \<Rightarrow> bool" where
  "copy_extends h q h' \<longleftrightarrow>
     ch_brk h \<le> ch_brk h' \<and> (\<forall>a<ch_brk h. a \<noteq> 0 \<longrightarrow> a \<noteq> q \<longrightarrow> ch_nodes h' a = ch_nodes h a)"

lemma copy_node:
  assumes "copy_ready h (Node d l r c) q"
  obtains h3 ql qr where
    "rb_copy_loop copy h st (Node d l r c) q =
       rbind (c_room st) (\<lambda>_. rb_copy_loop copy h3 ((r, q) # st) l ql)"
    and "ch_nodes h3 q = Some \<lparr>nn_link0 = ql, nn_link1 = qr, nn_data = Some (copy d), nn_color = Some c\<rparr>"
    and "copy_ready h3 l ql" and "copy_ready h3 r qr" and "copy_extends h q h3"
    and "ql \<noteq> 0 \<Longrightarrow> ch_brk h \<le> ql" and "qr \<noteq> 0 \<Longrightarrow> ch_brk h \<le> qr" and "ql \<noteq> 0 \<Longrightarrow> ql \<noteq> qr"
  using assms that
  by (cases "l = NULL"; cases "r = NULL")
     (auto simp: copy_ready_def copy_right_def copy_left_def node_update_def copy_extends_def
       fresh_node_def deref_live)

lemma rb_copy_loop_at_null: "rb_copy_loop copy h st NULL q = rb_copy_loop copy h st NULL 0"
  by (cases st) auto

lemma rb_copy_loop_correct:
  assumes "length st + rb_height t \<le> RB_MAX_HEIGHT" and "copy_ready h t q" and "0 < ch_brk h"
  shows "\<exists>h' A. rb_copy_loop copy h st t q = rb_copy_loop copy h' st NULL 0 \<and> copy_extends h q h' \<and>
    built (ch_nodes h') q (map_rb_node copy t) A \<and> A \<subseteq> insert q {ch_brk h..<ch_brk h'}"
  using assms
proof (induction t arbitrary: h st q)
  case NULL
  then show ?case
    by (intro exI [of _ h] exI [of _ "{}"])
       (simp add: copy_ready_def copy_extends_def rb_copy_loop_at_null [of copy h st q])
next
  case (Node d l r c)
  obtain h3 ql qr where
    e: "rb_copy_loop copy h st (Node d l r c) q =
       rbind (c_room st) (\<lambda>_. rb_copy_loop copy h3 ((r, q) # st) l ql)"
    and n3: "ch_nodes h3 q = Some \<lparr>nn_link0 = ql, nn_link1 = qr, nn_data = Some (copy d), nn_color = Some c\<rparr>"
    and rdy: "copy_ready h3 l ql" "copy_ready h3 r qr" and x3: "copy_extends h q h3"
    and new: "ql \<noteq> 0 \<Longrightarrow> ch_brk h \<le> ql" "qr \<noteq> 0 \<Longrightarrow> ch_brk h \<le> qr" "ql \<noteq> 0 \<Longrightarrow> ql \<noteq> qr"
    by (rule copy_node [OF Node.prems(2), where copy = copy and st = st]) blast
  have q: "q \<noteq> 0" "q < ch_brk h" "ch_brk h \<le> ch_brk h3" using Node.prems(2) x3
    by (simp_all add: copy_ready_def copy_extends_def)
  have ne: "ql \<noteq> q" "qr \<noteq> q" using q new by force+
  have fit: "length ((r, q) # st) + rb_height l \<le> RB_MAX_HEIGHT" "length st + rb_height r \<le> RB_MAX_HEIGHT"
    using Node.prems(1) by simp_all
  from Node.IH(1) [OF fit(1) rdy(1)] q obtain h4 L where
    l: "rb_copy_loop copy h3 ((r, q) # st) l ql = rb_copy_loop copy h4 ((r, q) # st) NULL 0"
      "copy_extends h3 ql h4" "built (ch_nodes h4) ql (map_rb_node copy l) L"
      "L \<subseteq> insert ql {ch_brk h3..<ch_brk h4}" by fastforce
  have n4: "ch_nodes h4 q = ch_nodes h3 q" using l(2) q ne by (simp add: copy_extends_def)
  have rdy4: "copy_ready h4 r qr"
    using rdy(1,2) l(2) new(3) by (auto simp: copy_ready_def copy_extends_def split: if_splits)
  have brk4: "0 < ch_brk h4" using l(2) q by (simp add: copy_extends_def)
  from Node.IH(2) [OF fit(2) rdy4 brk4] obtain h5 R where
    r: "rb_copy_loop copy h4 st r qr = rb_copy_loop copy h5 st NULL 0"
      "copy_extends h4 qr h5" "built (ch_nodes h5) qr (map_rb_node copy r) R"
      "R \<subseteq> insert qr {ch_brk h4..<ch_brk h5}" by auto
  have b: "ch_brk h3 \<le> ch_brk h4" "ch_brk h4 \<le> ch_brk h5" using l(2) r(2) by (simp_all add: copy_extends_def)
  have lbelow: "ql < ch_brk h4" if "ql \<noteq> 0" using rdy(1) b(1) that
    by (auto simp: copy_ready_def split: if_splits)
  have keep: "ch_nodes h5 a = ch_nodes h4 a" if "a \<in> L" for a
  proof -
    have "a \<noteq> 0" using built_pos [OF l(3)] that by metis
    moreover have "a < ch_brk h4" "a \<noteq> qr"
      using that l(3,4) lbelow rdy new(3) b(1) by (cases l; auto simp: copy_ready_def split: if_splits)+
    ultimately show ?thesis using r(2) by (simp add: copy_extends_def)
  qed
  have n5: "ch_nodes h5 q = ch_nodes h3 q" using n4 r(2) q b ne by (simp add: copy_extends_def)
  have run: "rb_copy_loop copy h st (Node d l r c) q = rb_copy_loop copy h5 st NULL 0"
    using e l(1) r(1) n3 n4 q Node.prems(1) by (simp add: c_room_def deref_live)
  have ext: "copy_extends h q h5"
    unfolding copy_extends_def
  proof (intro conjI allI impI)
    fix a assume a: "a < ch_brk h" "a \<noteq> 0" "a \<noteq> q"
    then have "a \<noteq> ql" "a \<noteq> qr" using new by force+
    with a b q x3 l(2) r(2) show "ch_nodes h5 a = ch_nodes h a" by (simp add: copy_extends_def)
  qed (use b q in simp)
  have "built (ch_nodes h5) q (map_rb_node copy (Node d l r c)) (insert q (L \<union> R))"
    using n5 n3 q r(3) built_mono [OF l(3) keep] by auto
  moreover have "insert q (L \<union> R) \<subseteq> insert q {ch_brk h..<ch_brk h5}"
  proof -
    have "L \<subseteq> {ch_brk h..<ch_brk h5}"
      using l(3,4) rdy(1) new(1) lbelow b q by (cases l) (fastforce simp: copy_ready_def split: if_splits)+
    moreover have "R \<subseteq> {ch_brk h..<ch_brk h5}"
      using r(3,4) rdy(2) new(2) b q by (cases r) (fastforce simp: copy_ready_def split: if_splits)+
    ultimately show ?thesis by blast
  qed
  ultimately show ?case using run ext by blast
qed

lemma rb_copy_correct:
  assumes "rb_height (rb_root tree) < RB_MAX_HEIGHT"
  shows "rb_copy tree copy =
    Inr \<lparr>rb_root = map_rb_node (case copy of None \<Rightarrow> (\<lambda>d. d) | Some f \<Rightarrow> f) (rb_root tree), rb_cnt = rb_cnt tree\<rparr>"
proof -
  let ?f = "case copy of None \<Rightarrow> (\<lambda>d. d) | Some f \<Rightarrow> f"
  obtain h1 :: "'a copy_heap" and p where h1: "copy_left (rb_root tree) new_tree_heap 1 = Inr h1" "0 < ch_brk h1" "1 < ch_brk h1"
    "ch_nodes h1 1 = Some (fresh_node\<lparr>nn_link0 := p\<rparr>)" "copy_ready h1 (rb_root tree) p" "p \<noteq> 1"
    by (cases "rb_root tree = NULL")
       (auto simp: copy_left_def new_tree_heap_def node_update_def copy_ready_def fresh_node_def deref_live)
  have fit: "length [(NULL :: 'a rb_node, 1 :: nat)] + rb_height (rb_root tree) \<le> RB_MAX_HEIGHT"
    using assms by simp
  from rb_copy_loop_correct [OF fit h1(5,2), of ?f] obtain h2 A where
    h2: "rb_copy_loop ?f h1 [(NULL, 1)] (rb_root tree) p = rb_copy_loop ?f h2 [(NULL, 1)] NULL 0"
      "copy_extends h1 p h2" "built (ch_nodes h2) p (map_rb_node ?f (rb_root tree)) A" by blast
  have "ch_nodes h2 1 = Some (fresh_node\<lparr>nn_link0 := p\<rparr>)"
    using h1(3,4,6) h2(2) by (simp add: copy_extends_def)
  moreover have "read_tree RB_MAX_HEIGHT (ch_nodes h2) p = Inr (map_rb_node ?f (rb_root tree))"
    using assms by (intro read_built [OF h2(3)]) (simp add: rb_height_map)
  ultimately show ?thesis using h1 h2(1) by (simp add: rb_copy_def fresh_node_def deref_live)
qed

corollary rb_copy_verbatim:
  "rb_height (rb_root tree) < RB_MAX_HEIGHT \<Longrightarrow> rb_copy tree None = Inr tree"
  by (simp add: rb_copy_correct rb_node.map_id0 [unfolded id_def])

section \<open>The comparison of the self test\<close>

text \<open>\<^verbatim>\<open>abort\<close> and the failed assertion end in a fault; the printing before is left out.\<close>

fun compare_trees :: "'a rb_node \<Rightarrow> 'a rb_node \<Rightarrow> fault + unit" where
  "compare_trees (Node d l r c) (Node d' l' r' c') =
     (if d \<noteq> d' \<or> c \<noteq> c' \<or> ((l \<noteq> NULL) \<noteq> (l' \<noteq> NULL)) \<or> ((r \<noteq> NULL) \<noteq> (r' \<noteq> NULL))
      then Inl Assertion_Failed
      else
        rbind (if l \<noteq> NULL then compare_trees l l' else Inr ()) (\<lambda>_.
        if r \<noteq> NULL then compare_trees r r' else Inr ()))"
| "compare_trees a b = c_assert (a = NULL \<and> b = NULL)"

lemma compare_trees_iff: "compare_trees a b = Inr () \<longleftrightarrow> a = b"
proof (induction a b rule: compare_trees.induct)
  case (1 d l r c d' l' r' c')
  then show ?case by (auto simp: fault_simps)
qed auto

end
