(* ===== verification/Rb_Int.thy ===== *)
theory Rb_Int
  imports Rb_Insert Rb_Delete Rb_Copy
begin

text \<open>
  Trees of integers, as the self test of \<^verbatim>\<open>common/rb.c\<close> uses them: its comparison function,
  its shuffling of an array, and one iteration of the test with its insertions, its deletions and
  the copy it makes, checks, compares and destroys after each of them.
\<close>

section \<open>Integers as items\<close>

text \<open>The difference of two \<^verbatim>\<open>int\<close>, as two's complement arithmetic gives it.\<close>

definition compare_ints :: "int \<Rightarrow> int \<Rightarrow> fault + int" where
  "compare_ints a b = Inr (sint (word_of_int a - word_of_int b :: u32))"

definition small_int :: "int \<Rightarrow> bool" where
  "small_int a \<longleftrightarrow> 0 \<le> a \<and> a \<le> INT_MAX"

lemma compare_small:
  assumes "small_int a" and "small_int b"
  shows "compare_ints a b = Inr (a - b)"
proof -
  have "sint (of_int (a - b) :: u32) = a - b"
    using assms
    by (simp add: small_int_def INT_MAX_def signed_of_int signed_take_bit_int_eq_self del: of_int_diff)
  then show ?thesis by (simp add: compare_ints_def)
qed

interpretation ints: rb_item_order compare_ints "\<lambda>a. a" small_int
  by unfold_locales (auto simp: compare_small)

section \<open>Shuffling\<close>

text \<open>\<^verbatim>\<open>rand() % (n - i)\<close> is the remaining input \<open>rs\<close>, reduced; \<open>m\<close> rounds are to go.\<close>

fun shuffle_loop :: "nat list \<Rightarrow> nat \<Rightarrow> nat \<Rightarrow> 'a list \<Rightarrow> 'a list" where
  "shuffle_loop (r # rs) i (Suc m) array =
     (let j = i + r mod (Suc m);
          t = array ! j
      in shuffle_loop rs (Suc i) m ((array[j := array ! i])[i := t]))"
| "shuffle_loop rs i m array = array"

definition shuffle_ints :: "nat list \<Rightarrow> 'a list \<Rightarrow> 'a list" where
  "shuffle_ints rs array = shuffle_loop rs 0 (length array) array"

lemma shuffle_loop_mset: "i + m = length array \<Longrightarrow> mset (shuffle_loop rs i m array) = mset array"
proof (induction rs i m array rule: shuffle_loop.induct)
  case (1 r rs i m array)
  have "r mod Suc m < Suc m" by simp
  then have j: "i + r mod Suc m < length array" "i < length array" using 1(2) by linarith+
  have "mset ((array[i + r mod Suc m := array ! i])[i := array ! (i + r mod Suc m)]) = mset array"
    by (rule mset_swap [OF j(2,1)])
  with 1 show ?case by (simp add: Let_def)
qed simp_all

lemma shuffle_ints_mset: "mset (shuffle_ints rs array) = mset array"
  by (simp add: shuffle_ints_def shuffle_loop_mset)

section \<open>One iteration of the self test\<close>

definition rb_force_insert :: "('a \<Rightarrow> 'a \<Rightarrow> fault + int) \<Rightarrow> 'a rb_tree \<Rightarrow> 'a \<Rightarrow> fault + 'a rb_tree" where
  "rb_force_insert cmp tree item =
     rbind (rb_insert cmp tree item) (\<lambda>(tree', r). rbind (c_assert (r = None)) (\<lambda>_. Inr tree'))"

fun test_insert :: "int rb_tree \<Rightarrow> int list \<Rightarrow> fault + int rb_tree" where
  "test_insert tree [] = Inr tree"
| "test_insert tree (x # xs) =
     rbind (rb_force_insert compare_ints tree x) (\<lambda>tree'. test_insert tree' xs)"

fun test_delete :: "int rb_tree \<Rightarrow> int list \<Rightarrow> fault + int rb_tree" where
  "test_delete tree [] = Inr tree"
| "test_delete tree (x # xs) =
     rbind (rb_delete compare_ints tree x) (\<lambda>(tree', _).
     rbind (verify_tree tree') (\<lambda>_.
     rbind (rb_copy tree' None) (\<lambda>copy.
     rbind (verify_tree copy) (\<lambda>_.
     rbind (compare_trees (rb_root tree') (rb_root copy)) (\<lambda>_.
     rbind (rb_destroy copy) (\<lambda>_. test_delete tree' xs))))))"

definition self_test :: "nat \<Rightarrow> nat list \<Rightarrow> nat list \<Rightarrow> fault + int list" where
  "self_test tree_size rs rs' =
     (let array = shuffle_ints rs (map int [0..<tree_size])
      in rbind (test_insert rb_create array) (\<lambda>tree.
         rbind (verify_tree tree) (\<lambda>_.
         rbind (test_delete tree (shuffle_ints rs' array)) (\<lambda>tree'. rb_destroy tree'))))"

lemma test_insert_correct:
  assumes "rb_inv (\<lambda>a. a) tree" and "rb_cnt tree + int (length xs) \<le> 65534"
    and "\<forall>x\<in>set (inorder (rb_root tree)) \<union> set xs. small_int x" and "distinct xs"
    and "set xs \<inter> set (inorder (rb_root tree)) = {}"
  shows "\<exists>tree'. test_insert tree xs = Inr tree' \<and> rb_inv (\<lambda>a. a) tree' \<and>
    set (inorder (rb_root tree')) = set (inorder (rb_root tree)) \<union> set xs \<and>
    rb_cnt tree' = rb_cnt tree + int (length xs)"
  using assms
proof (induction xs arbitrary: tree)
  case (Cons x xs)
  have new: "\<forall>y\<in>set (inorder (rb_root tree)). y \<noteq> x" using Cons.prems(5) by auto
  from ints.rb_probe_new [of tree x] Cons.prems new obtain tree1 where
    t1: "rb_probe compare_ints tree x = Inr (tree1, x)" "rb_inv (\<lambda>a. a) tree1"
      "rb_cnt tree1 = rb_cnt tree + 1"
      "inorder (rb_root tree1) = filter (\<lambda>y. y < x) (inorder (rb_root tree)) @ x #
        filter (\<lambda>y. x < y) (inorder (rb_root tree))" by (auto simp: rb_room_def)
  have ts: "set (inorder (rb_root tree1)) = insert x (set (inorder (rb_root tree)))"
    using t1(4) new by (auto simp: not_less_iff_gr_or_eq)
  from Cons.IH [OF t1(2)] Cons.prems t1(3) ts obtain tree' where
    t': "test_insert tree1 xs = Inr tree'" "rb_inv (\<lambda>a. a) tree'"
      "set (inorder (rb_root tree')) = set (inorder (rb_root tree1)) \<union> set xs"
      "rb_cnt tree' = rb_cnt tree1 + int (length xs)" by auto
  with t1 ts show ?case by (auto simp: rb_force_insert_def rb_insert_def)
qed simp

lemma verify_inv:
  assumes "rb_inv (\<lambda>a. a) tree" and "\<forall>x\<in>set (inorder (rb_root tree)). small_int x" and "rb_cnt tree \<le> 65534"
  shows "verify_tree tree = Inr ()"
proof -
  have "int_items (rb_root tree)" using assms(2) by (auto simp: int_items_def small_int_def INT_MIN_def)
  with assms(1,3) show ?thesis
    by (simp add: verify_tree_iff rb_inv_def rb_shape_def rb_sorted_def INT_MAX_def)
qed

lemma rb_inv_height:
  assumes "rb_inv key tree" and "rb_cnt tree \<le> 65534"
  shows "rb_height (rb_root tree) < RB_MAX_HEIGHT"
  using rb_shape_height [of "rb_root tree"] assms by (simp add: rb_inv_def RB_MAX_HEIGHT_def)

lemma test_delete_correct:
  assumes "rb_inv (\<lambda>a. a) tree" and "rb_cnt tree \<le> 65534"
    and "\<forall>x\<in>set (inorder (rb_root tree)). small_int x" and "distinct xs"
    and "set xs \<subseteq> set (inorder (rb_root tree))"
  shows "\<exists>tree'. test_delete tree xs = Inr tree' \<and> rb_inv (\<lambda>a. a) tree' \<and>
    set (inorder (rb_root tree')) = set (inorder (rb_root tree)) - set xs \<and>
    rb_cnt tree' = rb_cnt tree - int (length xs)"
  using assms
proof (induction xs arbitrary: tree)
  case (Cons x xs)
  have x: "x \<in> set (inorder (rb_root tree))" using Cons.prems(5) by simp
  from ints.rb_delete_present [of tree x x] Cons.prems x obtain tree1 where
    t1: "rb_delete compare_ints tree x = Inr (tree1, Some x)" "rb_inv (\<lambda>a. a) tree1"
      "rb_cnt tree1 = rb_cnt tree - 1"
      "inorder (rb_root tree1) = filter (\<lambda>y. y \<noteq> x) (inorder (rb_root tree))"
    by (auto simp: rb_room_def)
  have v: "verify_tree tree1 = Inr ()" using Cons.prems(2,3) t1(2-4) by (intro verify_inv) auto
  have h: "rb_height (rb_root tree1) < RB_MAX_HEIGHT"
    using t1(2,3) Cons.prems(2) by (intro rb_inv_height [where key = "\<lambda>a. a"]) auto
  note copy = rb_copy_verbatim [OF h] compare_trees_iff [of "rb_root tree1" "rb_root tree1"]
    rb_destroy_loop_correct [of "[]" "rb_root tree1"]
  from Cons.IH [OF t1(2)] Cons.prems t1(3,4) obtain tree' where
    t': "test_delete tree1 xs = Inr tree'" "rb_inv (\<lambda>a. a) tree'"
      "set (inorder (rb_root tree')) = set (inorder (rb_root tree1)) - set xs"
      "rb_cnt tree' = rb_cnt tree1 - int (length xs)" by auto
  with t1 v h copy show ?case by (auto simp: rb_destroy_def)
qed simp

lemma self_test_passes:
  assumes "tree_size \<le> 65534"
  shows "self_test tree_size rs rs' = Inr []"
proof -
  let ?array = "shuffle_ints rs (map int [0..<tree_size])"
  have m: "mset ?array = mset (map int [0..<tree_size])" by (rule shuffle_ints_mset)
  have m': "mset (shuffle_ints rs' ?array) = mset ?array" by (rule shuffle_ints_mset)
  have a: "distinct ?array" "set ?array = int ` {0..<tree_size}" "length ?array = tree_size"
    using m mset_eq_setD [OF m] mset_eq_length [OF m] mset_eq_imp_distinct_iff [OF m]
    by (auto simp: distinct_map)
  have b: "distinct (shuffle_ints rs' ?array)" "set (shuffle_ints rs' ?array) = set ?array"
    "length (shuffle_ints rs' ?array) = tree_size"
    using a mset_eq_setD [OF m'] mset_eq_length [OF m'] mset_eq_imp_distinct_iff [OF m'] by auto
  have small: "\<forall>x\<in>set ?array. small_int x" using a(2) assms by (auto simp: small_int_def INT_MAX_def)
  have c: "rb_inv (\<lambda>a. a) (rb_create :: int rb_tree)" "inorder (rb_root (rb_create :: int rb_tree)) = []"
    "rb_cnt (rb_create :: int rb_tree) = 0"
    by (simp_all add: rb_create_def rb_inv_def rb_shape_def rb_sorted_def)
  from test_insert_correct [OF c(1), of ?array] a small assms c obtain tree where
    t: "test_insert rb_create ?array = Inr tree" "rb_inv (\<lambda>a. a) tree"
      "set (inorder (rb_root tree)) = set ?array" "rb_cnt tree = int tree_size" by auto
  have v: "verify_tree tree = Inr ()" using t small assms by (intro verify_inv) auto
  from test_delete_correct [OF t(2), of "shuffle_ints rs' ?array"] t(3,4) small assms b obtain tree' where
    t': "test_delete tree (shuffle_ints rs' ?array) = Inr tree'" "rb_inv (\<lambda>a. a) tree'"
      "set (inorder (rb_root tree')) = {}" by auto
  then have "rb_root tree' = NULL" by (cases "rb_root tree'") auto
  then have "rb_destroy tree' = Inr []" by (simp add: rb_destroy_def)
  with t v t' show ?thesis by (simp add: self_test_def Let_def)
qed

end
