(* ===== verification/Wire.thy ===== *)
theory Wire
  imports Prelude
begin

text \<open>
  The bytes of the structures the program sends: the code copies C structures into
  messages, here in the layout of a little-endian LP64 machine (\<^verbatim>\<open>size_t\<close>, pointers and
  \<^verbatim>\<open>arg_t\<close> are eight bytes, an enumeration four, \<^verbatim>\<open>message_type_t\<close> two). Padding is zero.
\<close>

section \<open>Little-endian numbers\<close>

fun to_le :: "nat \<Rightarrow> nat \<Rightarrow> byte list" where
  "to_le 0 x = []"
| "to_le (Suc n) x = of_nat (x mod 256) # to_le n (x div 256)"

fun from_le :: "byte list \<Rightarrow> nat" where
  "from_le [] = 0"
| "from_le (b # bs) = unat b + 256 * from_le bs"

lemma length_to_le [simp]: "length (to_le n x) = n"
  by (induction n arbitrary: x) auto

lemma from_le_to_le: "from_le (to_le n x) = x mod 256 ^ n"
proof (induction n arbitrary: x)
  case (Suc n)
  have "x mod (256 * 256 ^ n) = 256 * (x div 256 mod 256 ^ n) + x mod 256"
    by (rule mod_mult2_eq)
  then show ?case using Suc by (simp add: unat_of_nat)
qed simp

lemma to_le_from_le: "to_le (length bs) (from_le bs) = bs"
proof (induction bs)
  case (Cons b bs)
  have b: "unat b < 256" using unsigned_less [of b] by simp
  then have "(unat b + 256 * from_le bs) mod 256 = unat b"
    "(unat b + 256 * from_le bs) div 256 = from_le bs" by simp_all
  with Cons show ?case by simp
qed simp

definition enc16 :: "16 word \<Rightarrow> byte list" where
  "enc16 w = to_le 2 (unat w)"

definition enc32 :: "32 word \<Rightarrow> byte list" where
  "enc32 w = to_le 4 (unat w)"

definition enc64 :: "64 word \<Rightarrow> byte list" where
  "enc64 w = to_le 8 (unat w)"

definition dec16 :: "byte list \<Rightarrow> 16 word" where
  "dec16 bs = of_nat (from_le (take 2 bs))"

definition dec32 :: "byte list \<Rightarrow> 32 word" where
  "dec32 bs = of_nat (from_le (take 4 bs))"

definition dec64 :: "byte list \<Rightarrow> 64 word" where
  "dec64 bs = of_nat (from_le (take 8 bs))"

lemma enc_length [simp]:
  "length (enc16 w) = 2" "length (enc32 v) = 4" "length (enc64 u) = 8"
  by (simp_all add: enc16_def enc32_def enc64_def)

lemma enc_nonempty [simp]: "enc16 w \<noteq> []" "enc32 v \<noteq> []" "enc64 u \<noteq> []"
  by (fold length_0_conv) simp_all

lemma word_from_le:
  fixes w :: "'a::len word"
  assumes "256 ^ n = (2::nat) ^ LENGTH('a)"
  shows "of_nat (from_le (to_le n (unat w))) = w"
  using unsigned_less [of w] by (simp add: from_le_to_le assms take_bit_nat_eq_self)

lemma dec_enc [simp]:
  "dec16 (enc16 w @ bs) = w" "dec32 (enc32 v @ bs) = v" "dec64 (enc64 u @ bs) = u"
  using word_from_le [of 2 w] word_from_le [of 4 v] word_from_le [of 8 u]
  by (simp_all add: dec16_def enc16_def dec32_def enc32_def dec64_def enc64_def)

lemma dec_enc_nil [simp]:
  "dec16 (enc16 w) = w" "dec32 (enc32 v) = v" "dec64 (enc64 u) = u"
  using dec_enc [of _ "[]"] by simp_all

section \<open>Arrays of arguments\<close>

definition enc_args :: "arg list \<Rightarrow> byte list" where
  "enc_args xs = concat (map enc64 xs)"

fun dec_args :: "nat \<Rightarrow> byte list \<Rightarrow> arg list" where
  "dec_args 0 bs = []"
| "dec_args (Suc n) bs = dec64 bs # dec_args n (drop 8 bs)"

lemma length_enc_args [simp]: "length (enc_args xs) = 8 * length xs"
  by (induction xs) (auto simp: enc_args_def)

lemma dec_args_enc [simp]: "dec_args (length xs) (enc_args xs @ bs) = xs"
  by (induction xs) (auto simp: enc_args_def)

text \<open>The whole 64-bit words of a block.\<close>

definition words_of :: "byte list \<Rightarrow> arg list" where
  "words_of bs = dec_args (length bs div 8) bs"

section \<open>Splitting data into blocks\<close>

function chunks :: "nat \<Rightarrow> 'a list \<Rightarrow> 'a list list" where
  "chunks n xs = (if n = 0 \<or> xs = [] then [] else take n xs # chunks n (drop n xs))"
  by pat_completeness auto
termination by (relation "measure (\<lambda>(n, xs). length xs)") auto

declare chunks.simps [simp del]

lemma chunks_Nil [simp]: "chunks n [] = []"
  by (simp add: chunks.simps)

lemma chunks_step: "0 < n \<Longrightarrow> xs \<noteq> [] \<Longrightarrow> chunks n xs = take n xs # chunks n (drop n xs)"
  by (subst chunks.simps) simp

lemma concat_chunks: "0 < n \<Longrightarrow> concat (chunks n xs) = xs"
  by (induction n xs rule: chunks.induct) (subst chunks.simps, simp)

lemma chunks_length: "x \<in> set (chunks n xs) \<Longrightarrow> 0 < length x \<and> length x \<le> n"
proof (induction n xs rule: chunks.induct)
  case (1 n xs)
  show ?case
  proof (cases "n = 0 \<or> xs = []")
    case True
    with 1(2) show ?thesis by (subst (asm) chunks.simps) simp
  next
    case False
    then have "x = take n xs \<or> x \<in> set (chunks n (drop n xs))"
      using 1(2) by (subst (asm) chunks.simps) simp
    with 1(1) [OF False] False show ?thesis by auto
  qed
qed

end
