(* ===== verification/Net.thy ===== *)
theory Net
  imports Wire
begin

text \<open>
  \<^verbatim>\<open>common/net.c\<close>: messages over SCTP. The socket calls belong to the operating system, so
  they are a parameter of the model, a record of functions on an arbitrary network state;
  \<open>reliable\<close> states what the code relies on of them.
\<close>

section \<open>The socket interface\<close>

type_synonym message_type = "16 word"
type_synonym sockaddr = nat
type_synonym sd = int

text \<open>What \<^verbatim>\<open>sctp_recvmsg\<close> fills in: the bytes, the sender and two of the flags.\<close>

record sctp_msg =
  sm_bytes :: "byte list"
  sm_from :: sockaddr
  sm_eor :: bool
  sm_notification :: bool

text \<open>\<open>None\<close> is the return value -1. \<open>sctp_recvmsg\<close> is given the size of the buffer.\<close>

record 'n sctp =
  sctp_sendmsg :: "'n \<Rightarrow> sd \<Rightarrow> byte list \<Rightarrow> sockaddr \<Rightarrow> 'n \<times> nat option"
  sctp_recvmsg :: "'n \<Rightarrow> sd \<Rightarrow> nat \<Rightarrow> 'n \<times> sctp_msg option"

section \<open>Message types\<close>

definition CLARA_MSG_INVALID :: message_type where "CLARA_MSG_INVALID = 0x0000"
definition CLARA_MSG_ACK :: message_type where "CLARA_MSG_ACK = 0x0001"
definition CLARA_MSG_NACK :: message_type where "CLARA_MSG_NACK = 0x0002"
definition CLARA_MSG_IDLE :: message_type where "CLARA_MSG_IDLE = 0x0003"
definition CLARA_MSG_PING :: message_type where "CLARA_MSG_PING = 0x0004"
definition CLARA_MSG_PONG :: message_type where "CLARA_MSG_PONG = 0x0005"
definition CLARA_MSG_PROVIDER :: message_type where "CLARA_MSG_PROVIDER = 0x0010"
definition CLARA_MSG_CONSUMER :: message_type where "CLARA_MSG_CONSUMER = 0x0011"
definition CLARA_MSG_ALLOCATE_REQUEST :: message_type where "CLARA_MSG_ALLOCATE_REQUEST = 0x0020"
definition CLARA_MSG_ALLOCATE_RESPONSE :: message_type where "CLARA_MSG_ALLOCATE_RESPONSE = 0x0021"
definition CLARA_MSG_EXECUTE_REQUEST :: message_type where "CLARA_MSG_EXECUTE_REQUEST = 0x0022"
definition CLARA_MSG_EXECUTE_RESPONSE :: message_type where "CLARA_MSG_EXECUTE_RESPONSE = 0x0023"
definition CLARA_MSG_FETCH_REQUEST :: message_type where "CLARA_MSG_FETCH_REQUEST = 0x0024"
definition CLARA_MSG_FETCH_RESPONSE :: message_type where "CLARA_MSG_FETCH_RESPONSE = 0x0025"
definition CLARA_MSG_MAPATPTR_REQUEST :: message_type where "CLARA_MSG_MAPATPTR_REQUEST = 0x0028"
definition CLARA_MSG_MAPATPTR_RESPONSE :: message_type where "CLARA_MSG_MAPATPTR_RESPONSE = 0x0029"
definition CLARA_MSG_MEMPUT_STREAM :: message_type where "CLARA_MSG_MEMPUT_STREAM = 0x0030"
definition CLARA_MSG_BLOCK :: message_type where "CLARA_MSG_BLOCK = 0x0040"
definition CLARA_MSG_STREAM_START :: message_type where "CLARA_MSG_STREAM_START = 0x0041"
definition CLARA_MSG_STREAM_END :: message_type where "CLARA_MSG_STREAM_END = 0x0042"
definition CLARA_MSG_OPENCL_PLATFORM_INFO :: message_type where "CLARA_MSG_OPENCL_PLATFORM_INFO = 0x0100"
definition CLARA_MSG_OPENCL_PLATFORM_ID :: message_type where "CLARA_MSG_OPENCL_PLATFORM_ID = 0x0110"
definition CLARA_MSG_OPENCL_DEVICE_INFO :: message_type where "CLARA_MSG_OPENCL_DEVICE_INFO = 0x0101"
definition CLARA_MSG_OPENCL_DEVICE_ID :: message_type where "CLARA_MSG_OPENCL_DEVICE_ID = 0x0111"
definition CLARA_MSG_MAPPING :: message_type where "CLARA_MSG_MAPPING = 0x0200"

section \<open>Addresses\<close>

text \<open>
  The checks of \<^verbatim>\<open>clara_sockaddr\<close>. \<^verbatim>\<open>inet_pton\<close> is a parameter; \<^verbatim>\<open>strtol\<close> in base 10
  is modelled: leading white space, an optional sign, digits, and what is left over, with
  the value clamped to the range of a \<^verbatim>\<open>long\<close>. The result is the address and the port as
  stored, in host byte order.
\<close>

definition is_digit :: "char \<Rightarrow> bool" where
  "is_digit c \<longleftrightarrow> 48 \<le> (of_char c :: nat) \<and> (of_char c :: nat) \<le> 57"

definition is_space :: "char \<Rightarrow> bool" where
  "is_space c \<longleftrightarrow> (of_char c :: nat) = 32 \<or> 9 \<le> (of_char c :: nat) \<and> (of_char c :: nat) \<le> 13"

definition digits_value :: "string \<Rightarrow> int" where
  "digits_value cs = foldl (\<lambda>n c. 10 * n + (int (of_char c) - 48)) 0 cs"

definition clamp_long :: "int \<Rightarrow> int" where
  "clamp_long n = max (-(2 ^ 63)) (min n (2 ^ 63 - 1))"

definition strtol10 :: "string \<Rightarrow> int \<times> string" where
  "strtol10 s =
     (let s1 = dropWhile is_space s;
          (neg, s2) = (case s1 of
             c # cs \<Rightarrow> if c = CHR ''-'' then (True, cs) else if c = CHR ''+'' then (False, cs) else (False, s1)
           | [] \<Rightarrow> (False, s1));
          digits = takeWhile is_digit s2
      in if digits = [] then (0, s)
         else (clamp_long (if neg then - digits_value digits else digits_value digits),
               dropWhile is_digit s2))"

definition CLARA_DEFAULT_PORT :: string where "CLARA_DEFAULT_PORT = ''52428''"

definition clara_sockaddr ::
  "(string \<Rightarrow> u32 option) \<Rightarrow> string option \<Rightarrow> string option \<Rightarrow> (u32 \<times> 16 word) option"
where
  "clara_sockaddr inet_pton addr port =
     (case (addr, port) of
        (Some a, Some p) \<Rightarrow>
          (case inet_pton a of
             None \<Rightarrow> None
           | Some ip \<Rightarrow>
               (let (conv, endptr) = strtol10 p
                in if endptr \<noteq> [] then None
                   else if conv > 65535 \<or> conv < 1 then None
                   else Some (ip, word_of_int conv)))
      | _ \<Rightarrow> None)"

text \<open>
  What stands in \<^verbatim>\<open>sa->sin_addr\<close> when \<^verbatim>\<open>clara_sockaddr\<close> fails on a structure of zeros:
  \<^verbatim>\<open>inet_pton\<close> writes it before the port is looked at. The port and the family are still zero.
\<close>

definition clara_sockaddr_left :: "(string \<Rightarrow> u32 option) \<Rightarrow> string option \<Rightarrow> string option \<Rightarrow> u32" where
  "clara_sockaddr_left inet_pton addr port =
     (case (addr, port) of
        (Some a, Some p) \<Rightarrow> (case inet_pton a of None \<Rightarrow> 0 | Some ip \<Rightarrow> ip)
      | _ \<Rightarrow> 0)"

section \<open>Sending and receiving\<close>

definition clara_send ::
  "'n sctp \<Rightarrow> 'n \<Rightarrow> sd \<Rightarrow> byte list \<Rightarrow> sockaddr \<Rightarrow> 'n \<times> nat option"
where
  "clara_send net s sd msg to = sctp_sendmsg net s sd msg to"

definition clara_sendmsg ::
  "'n sctp \<Rightarrow> 'n \<Rightarrow> sd \<Rightarrow> message_type \<Rightarrow> byte list \<Rightarrow> sockaddr \<Rightarrow> fault + ('n \<times> nat option)"
where
  "clara_sendmsg net s sd type msg to =
     (let (s', retval) = sctp_sendmsg net s sd (enc16 type @ msg) to
      in case retval of
           None \<Rightarrow> Inr (s', None)
         | Some r \<Rightarrow> rbind (c_assert (r \<ge> 2)) (\<lambda>_. Inr (s', Some (r - 2))))"

text \<open>The bytes received; a message that is too long for the buffer is an error.\<close>

definition clara_recv :: "'n sctp \<Rightarrow> 'n \<Rightarrow> sd \<Rightarrow> nat \<Rightarrow> 'n \<times> byte list option" where
  "clara_recv net s sd len =
     (let (s', retval) = sctp_recvmsg net s sd len
      in case retval of
           None \<Rightarrow> (s', None)
         | Some m \<Rightarrow> if \<not> sm_eor m then (s', None) else (s', Some (sm_bytes m)))"

text \<open>
  The result of \<^verbatim>\<open>clara_recvmsg\<close>: the type stored through \<^verbatim>\<open>ptype\<close>, the bytes stored
  in the buffer (their number is the return value), the sender and the notification flag. The
  comparison with the expected type looks at \<^verbatim>\<open>*ptype\<close> before the received type is stored
  there, and would only print.
\<close>

record clara_msg =
  cm_type :: message_type
  cm_bytes :: "byte list"
  cm_from :: sockaddr
  cm_notification :: bool

definition clara_recvmsg ::
  "'n sctp \<Rightarrow> 'n \<Rightarrow> sd \<Rightarrow> message_type \<Rightarrow> nat \<Rightarrow> fault + ('n \<times> clara_msg option)"
where
  "clara_recvmsg net s sd ptype len =
     (let (s', retval) = sctp_recvmsg net s sd (2 + len)
      in case retval of
           None \<Rightarrow> Inr (s', None)
         | Some m \<Rightarrow>
             if \<not> sm_eor m then Inr (s', None)
             else if sm_notification m then
               rbind (c_assert (length (sm_bytes m) \<le> len)) (\<lambda>_.
               Inr (s', Some \<lparr>cm_type = ptype, cm_bytes = sm_bytes m, cm_from = sm_from m,
                              cm_notification = True\<rparr>))
             else
               rbind (c_assert (length (sm_bytes m) \<ge> 2)) (\<lambda>_.
               Inr (s', Some \<lparr>cm_type = dec16 (sm_bytes m), cm_bytes = drop 2 (sm_bytes m),
                              cm_from = sm_from m, cm_notification = False\<rparr>)))"

section \<open>A network that works\<close>

text \<open>
  What SCTP documents of an association that is up: messages of up to \<open>lim\<close> bytes are sent
  whole, kept apart, and delivered in order. \<open>q s c\<close> are the messages in flight on channel
  \<open>c\<close>; \<open>out sd to\<close> is the channel a socket sends on, \<open>inp sd\<close> the one it receives from.
\<close>

record 'n link =
  lk_ok :: "'n \<Rightarrow> bool"
  lk_queue :: "'n \<Rightarrow> nat \<Rightarrow> byte list list"
  lk_out :: "sd \<Rightarrow> sockaddr \<Rightarrow> nat"
  lk_inp :: "sd \<Rightarrow> nat"
  lk_lim :: nat

definition reliable :: "'n sctp \<Rightarrow> 'n link \<Rightarrow> bool" where
  "reliable net k \<longleftrightarrow>
     (\<forall>s sd bs to. lk_ok k s \<longrightarrow> length bs \<le> lk_lim k \<longrightarrow>
        (\<exists>s'. sctp_sendmsg net s sd bs to = (s', Some (length bs)) \<and> lk_ok k s' \<and>
          lk_queue k s' = (lk_queue k s)(lk_out k sd to := lk_queue k s (lk_out k sd to) @ [bs]))) \<and>
     (\<forall>s sd n m ms. lk_ok k s \<longrightarrow> lk_queue k s (lk_inp k sd) = m # ms \<longrightarrow> length m \<le> n \<longrightarrow>
        (\<exists>s' fr. sctp_recvmsg net s sd n =
            (s', Some \<lparr>sm_bytes = m, sm_from = fr, sm_eor = True, sm_notification = False\<rparr>) \<and>
          lk_ok k s' \<and> lk_queue k s' = (lk_queue k s)(lk_inp k sd := ms)))"

lemma reliable_send:
  assumes "reliable net k" and "lk_ok k s" and "length bs \<le> lk_lim k"
  obtains s' where "clara_send net s sd bs to = (s', Some (length bs))" and "lk_ok k s'"
    and "lk_queue k s' = (lk_queue k s)(lk_out k sd to := lk_queue k s (lk_out k sd to) @ [bs])"
  using assms unfolding reliable_def clara_send_def by metis

lemma reliable_sendmsg:
  assumes "reliable net k" and "lk_ok k s" and "length bs + 2 \<le> lk_lim k"
  obtains s' where "clara_sendmsg net s sd type bs to = Inr (s', Some (length bs))" and "lk_ok k s'"
    and "lk_queue k s' =
      (lk_queue k s)(lk_out k sd to := lk_queue k s (lk_out k sd to) @ [enc16 type @ bs])"
proof -
  have "length (enc16 type @ bs) \<le> lk_lim k" using assms(3) by simp
  from reliable_send [OF assms(1,2) this] obtain s' where
    "clara_send net s sd (enc16 type @ bs) to = (s', Some (length (enc16 type @ bs)))" "lk_ok k s'"
    "lk_queue k s' = (lk_queue k s)(lk_out k sd to := lk_queue k s (lk_out k sd to) @ [enc16 type @ bs])"
    by metis
  then show thesis using that by (simp add: clara_sendmsg_def clara_send_def)
qed

lemma reliable_recv:
  assumes "reliable net k" and "lk_ok k s" and "lk_queue k s (lk_inp k sd) = m # ms" and "length m \<le> n"
  obtains s' where "clara_recv net s sd n = (s', Some m)" and "lk_ok k s'"
    and "lk_queue k s' = (lk_queue k s)(lk_inp k sd := ms)"
proof -
  from assms obtain s' fr where "sctp_recvmsg net s sd n =
      (s', Some \<lparr>sm_bytes = m, sm_from = fr, sm_eor = True, sm_notification = False\<rparr>)"
    "lk_ok k s'" "lk_queue k s' = (lk_queue k s)(lk_inp k sd := ms)"
    unfolding reliable_def by metis
  then show thesis using that by (simp add: clara_recv_def)
qed

lemma reliable_recvmsg:
  assumes "reliable net k" and "lk_ok k s"
    and "lk_queue k s (lk_inp k sd) = (enc16 type @ bs) # ms" and "length bs \<le> n"
  obtains s' fr where
    "clara_recvmsg net s sd t n = Inr (s', Some \<lparr>cm_type = type, cm_bytes = bs, cm_from = fr,
       cm_notification = False\<rparr>)"
    and "lk_ok k s'" and "lk_queue k s' = (lk_queue k s)(lk_inp k sd := ms)"
proof -
  have "length (enc16 type @ bs) \<le> 2 + n" using assms(4) by simp
  with assms(1-3) obtain s' fr where "sctp_recvmsg net s sd (2 + n) =
      (s', Some \<lparr>sm_bytes = enc16 type @ bs, sm_from = fr, sm_eor = True, sm_notification = False\<rparr>)"
    "lk_ok k s'" "lk_queue k s' = (lk_queue k s)(lk_inp k sd := ms)"
    unfolding reliable_def by metis
  then show thesis using that by (simp add: clara_recvmsg_def)
qed

text \<open>A queue per channel is such a network: the instance the witnesses use.\<close>

definition queue_net :: "(sd \<Rightarrow> sockaddr \<Rightarrow> nat) \<Rightarrow> (sd \<Rightarrow> nat) \<Rightarrow> (nat \<Rightarrow> byte list list) sctp" where
  "queue_net out inp =
     \<lparr>sctp_sendmsg = (\<lambda>q sd bs to. (q(out sd to := q (out sd to) @ [bs]), Some (length bs))),
      sctp_recvmsg = (\<lambda>q sd n. case q (inp sd) of
          [] \<Rightarrow> (q, None)
        | m # ms \<Rightarrow>
            if length m \<le> n
            then (q(inp sd := ms), Some \<lparr>sm_bytes = m, sm_from = 0, sm_eor = True, sm_notification = False\<rparr>)
            else (q(inp sd := drop n m # ms),
              Some \<lparr>sm_bytes = take n m, sm_from = 0, sm_eor = False, sm_notification = False\<rparr>))\<rparr>"

definition queue_link :: "(sd \<Rightarrow> sockaddr \<Rightarrow> nat) \<Rightarrow> (sd \<Rightarrow> nat) \<Rightarrow> nat \<Rightarrow> (nat \<Rightarrow> byte list list) link" where
  "queue_link out inp lim =
     \<lparr>lk_ok = (\<lambda>_. True), lk_queue = (\<lambda>q. q), lk_out = out, lk_inp = inp, lk_lim = lim\<rparr>"

lemma queue_net_reliable: "reliable (queue_net out inp) (queue_link out inp lim)"
  by (simp add: reliable_def queue_net_def queue_link_def)

end
