(* ===== verification/Block.thy ===== *)
theory Block
  imports Net
begin

text \<open>
  \<^verbatim>\<open>common/block.c\<close>: data of known length in messages of at most \<open>BLOCKSIZE\<close> bytes. The
  loops take fuel, as a socket that keeps returning zero keeps them running; on a network
  that works the length of the data is enough. A socket that reports more bytes than it was
  given makes the code run past its buffer.
\<close>

section \<open>Operations\<close>

definition BLOCKSIZE :: nat where "BLOCKSIZE = 1024"

fun block_send_loop ::
  "'n sctp \<Rightarrow> nat \<Rightarrow> 'n \<Rightarrow> sd \<Rightarrow> sockaddr \<Rightarrow> nat \<Rightarrow> byte list \<Rightarrow> nat \<Rightarrow> fault + ('n \<times> nat)"
where
  "block_send_loop net fuel s sd to blocksize [] bytes_sent = Inr (s, bytes_sent)"
| "block_send_loop net 0 s sd to blocksize ptr bytes_sent = Inl Out_Of_Fuel"
| "block_send_loop net (Suc fuel) s sd to blocksize ptr bytes_sent =
     (let blocksize' = (if blocksize > length ptr then length ptr else blocksize);
          (s', ssz) = clara_send net s sd (take blocksize' ptr) to
      in case ssz of
           None \<Rightarrow> Inr (s', bytes_sent)
         | Some n \<Rightarrow>
             if n > length ptr then Inl Buffer_Overflow
             else block_send_loop net fuel s' sd to blocksize' (drop n ptr) (bytes_sent + n))"

definition block_send ::
  "'n sctp \<Rightarrow> nat \<Rightarrow> 'n \<Rightarrow> sd \<Rightarrow> byte list \<Rightarrow> sockaddr \<Rightarrow> fault + ('n \<times> nat)"
where
  "block_send net fuel s sd data to =
     rbind (clara_sendmsg net s sd CLARA_MSG_BLOCK (enc64 (of_nat (length data))) to) (\<lambda>(s', ssz).
     case ssz of
       None \<Rightarrow> Inr (s', 0)
     | Some _ \<Rightarrow> block_send_loop net fuel s' sd to BLOCKSIZE data 0)"

text \<open>The bytes written to the buffer; their number is what the code returns.\<close>

fun block_recv_loop ::
  "'n sctp \<Rightarrow> nat \<Rightarrow> 'n \<Rightarrow> sd \<Rightarrow> nat \<Rightarrow> byte list \<Rightarrow> fault + ('n \<times> byte list)"
where
  "block_recv_loop net fuel s sd 0 received = Inr (s, received)"
| "block_recv_loop net 0 s sd (Suc n) received = Inl Out_Of_Fuel"
| "block_recv_loop net (Suc fuel) s sd (Suc n) received =
     (let (s', r) = clara_recv net s sd (Suc n)
      in case r of
           None \<Rightarrow> Inr (s', received)
         | Some bs \<Rightarrow>
             if length bs > Suc n then Inl Buffer_Overflow
             else block_recv_loop net fuel s' sd (Suc n - length bs) (received @ bs))"

definition block_recv ::
  "'n sctp \<Rightarrow> nat \<Rightarrow> 'n \<Rightarrow> sd \<Rightarrow> nat \<Rightarrow> 64 word \<Rightarrow> fault + ('n \<times> byte list)"
where
  "block_recv net fuel s sd len blp_length =
     rbind (c_assert (\<not> unat blp_length > len)) (\<lambda>_.
     block_recv_loop net fuel s sd (unat blp_length) [])"

text \<open>
  The inner loop of \<^verbatim>\<open>block_forward\<close> returns the bytes forwarded and remaining, and
  whether the code jumps to its exit.
\<close>

fun block_forward_send ::
  "'n sctp \<Rightarrow> nat \<Rightarrow> 'n \<Rightarrow> sd \<Rightarrow> sockaddr \<Rightarrow> byte list \<Rightarrow> nat \<Rightarrow> nat \<Rightarrow> fault + ('n \<times> nat \<times> nat \<times> bool)"
where
  "block_forward_send net fuel s sd_out to [] forwarded remaining = Inr (s, forwarded, remaining, False)"
| "block_forward_send net 0 s sd_out to ptr forwarded remaining = Inl Out_Of_Fuel"
| "block_forward_send net (Suc fuel) s sd_out to ptr forwarded remaining =
     (let (s', ssz) = clara_send net s sd_out ptr to
      in case ssz of
           None \<Rightarrow> Inr (s', forwarded, remaining, True)
         | Some n \<Rightarrow>
             if n > length ptr \<or> n > remaining then Inl Buffer_Overflow
             else block_forward_send net fuel s' sd_out to (drop n ptr) (forwarded + n) (remaining - n))"

fun block_forward_loop ::
  "'n sctp \<Rightarrow> nat \<Rightarrow> 'n \<Rightarrow> sd \<Rightarrow> sd \<Rightarrow> sockaddr \<Rightarrow> nat \<Rightarrow> nat \<Rightarrow> nat \<Rightarrow> fault + ('n \<times> nat)"
where
  "block_forward_loop net fuel s sd_in sd_out to blocksize forwarded 0 = Inr (s, forwarded)"
| "block_forward_loop net 0 s sd_in sd_out to blocksize forwarded (Suc n) = Inl Out_Of_Fuel"
| "block_forward_loop net (Suc fuel) s sd_in sd_out to blocksize forwarded (Suc n) =
     (let blocksize' = (if blocksize > Suc n then Suc n else blocksize);
          (s', r) = clara_recv net s sd_in blocksize'
      in case r of
           None \<Rightarrow> Inr (s', forwarded)
         | Some bs \<Rightarrow>
             if length bs > blocksize' then Inl Buffer_Overflow
             else rbind (block_forward_send net (Suc fuel) s' sd_out to bs forwarded (Suc n))
               (\<lambda>(s'', forwarded', remaining', exit).
               if exit then Inr (s'', forwarded')
               else block_forward_loop net fuel s'' sd_in sd_out to blocksize' forwarded' remaining'))"

definition block_forward ::
  "'n sctp \<Rightarrow> nat \<Rightarrow> 'n \<Rightarrow> sd \<Rightarrow> sd \<Rightarrow> sockaddr \<Rightarrow> 64 word \<Rightarrow> fault + ('n \<times> nat)"
where
  "block_forward net fuel s sd_in sd_out to blp_length =
     rbind (clara_sendmsg net s sd_out CLARA_MSG_BLOCK (enc64 blp_length) to) (\<lambda>(s', ssz).
     case ssz of
       None \<Rightarrow> Inr (s', 0)
     | Some _ \<Rightarrow> block_forward_loop net fuel s' sd_in sd_out to BLOCKSIZE 0 (unat blp_length))"

text \<open>More fuel does not change a result.\<close>

lemma block_send_loop_fuel:
  "block_send_loop net fuel s sd to b ptr n = Inl Out_Of_Fuel \<or>
   block_send_loop net (fuel + m) s sd to b ptr n = block_send_loop net fuel s sd to b ptr n"
  by (induction net fuel s sd to b ptr n rule: block_send_loop.induct)
    (auto simp: Let_def split: prod.splits option.splits)

lemma block_send_fuel:
  "block_send net fuel s sd data to = Inl Out_Of_Fuel \<or>
   block_send net (fuel + m) s sd data to = block_send net fuel s sd data to"
  using block_send_loop_fuel [of net fuel _ sd to BLOCKSIZE data 0 m]
  by (auto simp: block_send_def rbind_def split: sum.splits prod.splits option.splits)

section \<open>What is on the wire\<close>

definition block_head :: "byte list \<Rightarrow> byte list" where
  "block_head data = enc16 CLARA_MSG_BLOCK @ enc64 (of_nat (length data))"

definition block_wire :: "byte list \<Rightarrow> byte list list" where
  "block_wire data = block_head data # chunks BLOCKSIZE data"

text \<open>Messages added to a channel, and taken from it.\<close>

definition adds :: "'n link \<Rightarrow> 'n \<Rightarrow> 'n \<Rightarrow> nat \<Rightarrow> byte list list \<Rightarrow> bool" where
  "adds k s s' c ms \<longleftrightarrow> lk_ok k s' \<and> lk_queue k s' = (lk_queue k s)(c := lk_queue k s c @ ms)"

definition leaves :: "'n link \<Rightarrow> 'n \<Rightarrow> 'n \<Rightarrow> nat \<Rightarrow> byte list list \<Rightarrow> bool" where
  "leaves k s s' c ms \<longleftrightarrow> lk_ok k s' \<and> lk_queue k s' = (lk_queue k s)(c := ms)"

definition moves :: "'n link \<Rightarrow> 'n \<Rightarrow> 'n \<Rightarrow> nat \<Rightarrow> byte list list \<Rightarrow> nat \<Rightarrow> byte list list \<Rightarrow> bool" where
  "moves k s s' c rest d ms \<longleftrightarrow> lk_ok k s' \<and>
     lk_queue k s' = (lk_queue k s)(c := rest, d := lk_queue k s d @ ms)"

lemma adds_refl: "lk_ok k s \<Longrightarrow> adds k s s c []"
  by (simp add: adds_def)

lemma adds_trans: "adds k s s' c ms \<Longrightarrow> adds k s' s'' c ns \<Longrightarrow> adds k s s'' c (ms @ ns)"
  by (simp add: adds_def)

lemma leaves_trans: "leaves k s s' c ms \<Longrightarrow> leaves k s' s'' c ns \<Longrightarrow> leaves k s s'' c ns"
  by (simp add: leaves_def)

lemma moves_trans:
  "c \<noteq> d \<Longrightarrow> moves k s s' c r d ms \<Longrightarrow> moves k s' s'' c r' d ns \<Longrightarrow> moves k s s'' c r' d (ms @ ns)"
  by (auto simp: moves_def)

lemma moves_intro:
  "c \<noteq> d \<Longrightarrow> leaves k s s' c r \<Longrightarrow> adds k s' s'' d ms \<Longrightarrow> moves k s s'' c r d ms"
  by (auto simp: moves_def leaves_def adds_def fun_upd_twist)

lemma send_adds:
  assumes "reliable net k" and "lk_ok k s" and "length bs \<le> lk_lim k"
  shows "\<exists>s'. clara_send net s sd bs to = (s', Some (length bs)) \<and> adds k s s' (lk_out k sd to) [bs]"
  using reliable_send [OF assms, of sd to] unfolding adds_def by metis

lemma sendmsg_adds:
  assumes "reliable net k" and "lk_ok k s" and "length bs + 2 \<le> lk_lim k"
  shows "\<exists>s'. clara_sendmsg net s sd type bs to = Inr (s', Some (length bs)) \<and>
    adds k s s' (lk_out k sd to) [enc16 type @ bs]"
  using reliable_sendmsg [OF assms, of sd type to] unfolding adds_def by metis

lemma recv_leaves:
  assumes "reliable net k" and "lk_ok k s" and "lk_queue k s (lk_inp k sd) = m # ms" and "length m \<le> n"
  shows "\<exists>s'. clara_recv net s sd n = (s', Some m) \<and> leaves k s s' (lk_inp k sd) ms"
  using reliable_recv [OF assms] unfolding leaves_def by metis

lemma recvmsg_leaves:
  assumes "reliable net k" and "lk_ok k s"
    and "lk_queue k s (lk_inp k sd) = (enc16 type @ bs) # ms" and "length bs \<le> n"
  shows "\<exists>s' fr. clara_recvmsg net s sd t n = Inr (s', Some \<lparr>cm_type = type, cm_bytes = bs,
      cm_from = fr, cm_notification = False\<rparr>) \<and> leaves k s s' (lk_inp k sd) ms"
  using reliable_recvmsg [OF assms, of t] unfolding leaves_def by metis

section \<open>Sending and receiving on a network that works\<close>

text \<open>Clamping the block size to what remains does not change the blocks.\<close>

lemma chunks_clamp:
  "0 < b \<Longrightarrow> ptr \<noteq> [] \<Longrightarrow> b' = (if b > length ptr then length ptr else b) \<Longrightarrow>
    chunks b ptr = take b' ptr # chunks b' (drop b' ptr) \<and> 0 < b' \<and> b' \<le> b \<and>
    length (take b' ptr) = b'"
  by (auto simp: chunks_step)

lemma block_send_loop_step:
  "ptr \<noteq> [] \<Longrightarrow> block_send_loop net (Suc fuel) s sd to b ptr n =
     (let b' = (if b > length ptr then length ptr else b);
          (s', ssz) = clara_send net s sd (take b' ptr) to
      in case ssz of
           None \<Rightarrow> Inr (s', n)
         | Some m \<Rightarrow>
             if m > length ptr then Inl Buffer_Overflow
             else block_send_loop net fuel s' sd to b' (drop m ptr) (n + m))"
  by (cases ptr) (simp, hypsubst, simp)

lemma block_send_loop_correct:
  assumes net: "reliable net k"
  shows "lk_ok k s \<Longrightarrow> 0 < b \<Longrightarrow> b \<le> lk_lim k \<Longrightarrow> length ptr \<le> fuel \<Longrightarrow>
    \<exists>s'. block_send_loop net fuel s sd to b ptr n = Inr (s', n + length ptr) \<and>
      adds k s s' (lk_out k sd to) (chunks b ptr)"
proof (induction fuel arbitrary: s b ptr n)
  case (Suc fuel)
  show ?case
  proof (cases "ptr = []")
    case True
    then show ?thesis using Suc.prems(1) by (auto intro: adds_refl)
  next
    case ne: False
    define b' where "b' = (if b > length ptr then length ptr else b)"
    have c: "chunks b ptr = take b' ptr # chunks b' (drop b' ptr)" "0 < b'" "b' \<le> b"
      "length (take b' ptr) = b'"
      using chunks_clamp [OF Suc.prems(2) ne b'_def] by auto
    have "length (take b' ptr) \<le> lk_lim k" using c(3,4) Suc.prems(3) by simp
    from send_adds [OF net Suc.prems(1) this] obtain s1 where
      s1: "clara_send net s sd (take b' ptr) to = (s1, Some b')"
        "adds k s s1 (lk_out k sd to) [take b' ptr]" unfolding c(4) by blast
    have "length (drop b' ptr) \<le> fuel" "b' \<le> lk_lim k" using c(2,3) Suc.prems by simp_all
    from Suc.IH [OF _ c(2) this(2,1), of s1 "n + b'"] s1(2) obtain s' where
      s': "block_send_loop net fuel s1 sd to b' (drop b' ptr) (n + b') =
        Inr (s', n + b' + (length ptr - b'))"
        "adds k s1 s' (lk_out k sd to) (chunks b' (drop b' ptr))" by (auto simp: adds_def)
    have "b' \<le> length ptr" using c(4) by simp
    then have "block_send_loop net (Suc fuel) s sd to b ptr n = Inr (s', n + length ptr)"
      using s1(1) s'(1) ne unfolding block_send_loop_step [OF ne] Let_def b'_def [symmetric] by simp
    moreover have "adds k s s' (lk_out k sd to) (chunks b ptr)"
      using adds_trans [OF s1(2) s'(2)] c(1) by simp
    ultimately show ?thesis by blast
  qed
qed (auto intro: adds_refl)

lemma block_send_correct:
  assumes "reliable net k" and "lk_ok k s" and "BLOCKSIZE \<le> lk_lim k" and "length data \<le> fuel"
  shows "\<exists>s'. block_send net fuel s sd data to = Inr (s', length data) \<and>
    adds k s s' (lk_out k sd to) (block_wire data)"
proof -
  have "length (enc64 (of_nat (length data))) + 2 \<le> lk_lim k" using assms(3) by (simp add: BLOCKSIZE_def)
  from sendmsg_adds [OF assms(1,2) this] obtain s1 where
    s1: "clara_sendmsg net s sd CLARA_MSG_BLOCK (enc64 (of_nat (length data))) to = Inr (s1, Some 8)"
      "adds k s s1 (lk_out k sd to) [block_head data]"
    unfolding block_head_def by fastforce
  have "lk_ok k s1" using s1(2) by (simp add: adds_def)
  from block_send_loop_correct [OF assms(1) this _ assms(3,4), of sd to 0] obtain s' where
    s': "block_send_loop net fuel s1 sd to BLOCKSIZE data 0 = Inr (s', length data)"
      "adds k s1 s' (lk_out k sd to) (chunks BLOCKSIZE data)" by (auto simp: BLOCKSIZE_def)
  with s1 adds_trans [OF s1(2) s'(2)] show ?thesis by (auto simp: block_send_def block_wire_def)
qed

text \<open>Any sequence of nonempty messages that add up to the announced length is put together.\<close>

lemma block_recv_loop_correct:
  assumes net: "reliable net k"
  shows "lk_ok k s \<Longrightarrow> lk_queue k s (lk_inp k sd) = ms @ rest \<Longrightarrow> [] \<notin> set ms \<Longrightarrow>
    length ms \<le> fuel \<Longrightarrow>
    \<exists>s'. block_recv_loop net fuel s sd (length (concat ms)) got = Inr (s', got @ concat ms) \<and>
      leaves k s s' (lk_inp k sd) rest"
proof (induction ms arbitrary: s fuel got)
  case Nil
  then show ?case by (auto simp: leaves_def)
next
  case (Cons m ms)
  from Cons.prems obtain fuel' where fuel: "fuel = Suc fuel'" by (cases fuel) auto
  have "m \<noteq> []" using Cons.prems(3) by auto
  then obtain n where n: "length (concat (m # ms)) = Suc n" by (cases m) auto
  then have "length m \<le> Suc n" "Suc n - length m = length (concat ms)" by auto
  have "lk_queue k s (lk_inp k sd) = m # (ms @ rest)" using Cons.prems(2) by simp
  from recv_leaves [OF net Cons.prems(1) this \<open>length m \<le> Suc n\<close>] obtain s1 where
    s1: "clara_recv net s sd (Suc n) = (s1, Some m)" "leaves k s s1 (lk_inp k sd) (ms @ rest)" by blast
  from Cons.IH [of s1 fuel' "got @ m"] s1(2) Cons.prems fuel obtain s' where
    "block_recv_loop net fuel' s1 sd (length (concat ms)) (got @ m) = Inr (s', (got @ m) @ concat ms)"
    "leaves k s1 s' (lk_inp k sd) rest" by (auto simp: leaves_def)
  with s1 leaves_trans [OF s1(2)] \<open>length m \<le> Suc n\<close> \<open>Suc n - length m = length (concat ms)\<close>
  show ?case unfolding n fuel by auto
qed

lemma chunks_count: "0 < b \<Longrightarrow> length (chunks b xs) \<le> length xs"
proof (induction b xs rule: chunks.induct)
  case (1 n xs)
  show ?case
  proof (cases "xs = []")
    case False
    with 1 have "length (chunks n (drop n xs)) \<le> length xs - n" by simp
    moreover have "0 < length xs" using False by simp
    ultimately have "Suc (length (chunks n (drop n xs))) \<le> length xs" using 1(2) by linarith
    then show ?thesis using 1(2) False by (simp add: chunks_step)
  qed simp
qed

lemma block_recv_correct:
  assumes "reliable net k" and "lk_ok k s"
    and "lk_queue k s (lk_inp k sd) = chunks BLOCKSIZE data @ rest"
    and "length data \<le> len" and "length data < 2 ^ 64" and "length data \<le> fuel"
  shows "\<exists>s'. block_recv net fuel s sd len (of_nat (length data)) = Inr (s', data) \<and>
    leaves k s s' (lk_inp k sd) rest"
proof -
  let ?ms = "chunks BLOCKSIZE data"
  have B: "0 < BLOCKSIZE" by (simp add: BLOCKSIZE_def)
  have "[] \<notin> set ?ms" using chunks_length [of "[]" BLOCKSIZE data] by auto
  moreover have "length ?ms \<le> fuel" using chunks_count [OF B, of data] assms(6) by simp
  moreover have "unat (of_nat (length data) :: 64 word) = length data"
    using assms(5) by (simp add: unat_of_nat)
  ultimately show ?thesis
    using block_recv_loop_correct [OF assms(1,2,3), of fuel "[]"] assms(4) concat_chunks [OF B, of data]
    by (simp add: block_recv_def)
qed

section \<open>Forwarding on a network that works\<close>

lemma block_forward_send_correct:
  assumes "reliable net k" and "lk_ok k s" and "ptr \<noteq> []" and "length ptr \<le> lk_lim k"
    and "length ptr \<le> remaining"
  shows "\<exists>s'. block_forward_send net (Suc fuel) s sd to ptr n remaining =
      Inr (s', n + length ptr, remaining - length ptr, False) \<and>
    adds k s s' (lk_out k sd to) [ptr]"
proof -
  from send_adds [OF assms(1,2,4)] obtain s' where
    "clara_send net s sd ptr to = (s', Some (length ptr))" "adds k s s' (lk_out k sd to) [ptr]" by blast
  then show ?thesis using assms(3,5) by (cases ptr) auto
qed

lemma block_forward_loop_step:
  "0 < r \<Longrightarrow> block_forward_loop net (Suc fuel) s sd_in sd_out to b n r =
     (let b' = (if b > r then r else b);
          (s', rc) = clara_recv net s sd_in b'
      in case rc of
           None \<Rightarrow> Inr (s', n)
         | Some bs \<Rightarrow>
             if length bs > b' then Inl Buffer_Overflow
             else rbind (block_forward_send net (Suc fuel) s' sd_out to bs n r)
               (\<lambda>(s'', n', r', exit).
               if exit then Inr (s'', n')
               else block_forward_loop net fuel s'' sd_in sd_out to b' n' r'))"
  by (cases r) (simp, hypsubst, simp)

lemma block_forward_loop_correct:
  assumes net: "reliable net k" and diff: "lk_inp k sd_in \<noteq> lk_out k sd_out to"
  shows "lk_ok k s \<Longrightarrow> lk_queue k s (lk_inp k sd_in) = chunks b data @ rest \<Longrightarrow> 0 < b \<Longrightarrow>
    b \<le> lk_lim k \<Longrightarrow> length data \<le> fuel \<Longrightarrow>
    \<exists>s'. block_forward_loop net fuel s sd_in sd_out to b n (length data) = Inr (s', n + length data) \<and>
      moves k s s' (lk_inp k sd_in) rest (lk_out k sd_out to) (chunks b data)"
proof (induction fuel arbitrary: s b data n)
  case (Suc fuel)
  show ?case
  proof (cases "data = []")
    case True
    then show ?thesis using Suc.prems(1,2) diff by (auto simp: moves_def fun_upd_idem)
  next
    case ne: False
    define b' where "b' = (if b > length data then length data else b)"
    have c: "chunks b data = take b' data # chunks b' (drop b' data)" "0 < b'" "b' \<le> b"
      "length (take b' data) = b'"
      using chunks_clamp [OF Suc.prems(3) ne b'_def] by auto
    let ?m = "take b' data"
    from recv_leaves [OF net Suc.prems(1), of sd_in ?m "chunks b' (drop b' data) @ rest" b']
    obtain s1 where s1: "clara_recv net s sd_in b' = (s1, Some ?m)"
      "leaves k s s1 (lk_inp k sd_in) (chunks b' (drop b' data) @ rest)"
      using Suc.prems(2) c by auto
    have m: "?m \<noteq> []" "length ?m \<le> lk_lim k" "length ?m \<le> length data" "lk_ok k s1"
      using c Suc.prems(4) s1(2) by (auto simp: leaves_def)
    from block_forward_send_correct [OF net m(4,1,2,3), of fuel sd_out to n] obtain s2 where
      s2: "block_forward_send net (Suc fuel) s1 sd_out to ?m n (length data) =
          Inr (s2, n + b', length data - b', False)"
        "adds k s1 s2 (lk_out k sd_out to) [?m]" unfolding c(4) by blast
    note mv = moves_intro [OF diff s1(2) s2(2)]
    have "lk_ok k s2" "lk_queue k s2 (lk_inp k sd_in) = chunks b' (drop b' data) @ rest"
      using mv diff by (simp_all add: moves_def)
    moreover have "length (drop b' data) \<le> fuel" "b' \<le> lk_lim k" using c(2,3) Suc.prems(4,5) by simp_all
    ultimately obtain s' where
      s': "block_forward_loop net fuel s2 sd_in sd_out to b' (n + b') (length data - b') =
        Inr (s', n + b' + (length data - b'))"
        "moves k s2 s' (lk_inp k sd_in) rest (lk_out k sd_out to) (chunks b' (drop b' data))"
      using Suc.IH [of s2 b' "drop b' data" "n + b'"] c(2) by auto
    have "b' \<le> length data" using c(4) by simp
    then have "block_forward_loop net (Suc fuel) s sd_in sd_out to b n (length data) =
        Inr (s', n + length data)"
      using s1(1) s2(1) s'(1) c(4) block_forward_loop_step [of "length data" net fuel s sd_in sd_out to b n] ne
      unfolding Let_def b'_def [symmetric] by simp
    moreover have "moves k s s' (lk_inp k sd_in) rest (lk_out k sd_out to) (chunks b data)"
      using moves_trans [OF diff mv s'(2)] c(1) by simp
    ultimately show ?thesis by blast
  qed
qed (use diff in \<open>auto simp: moves_def fun_upd_idem\<close>)

lemma block_forward_correct:
  assumes net: "reliable net k" and ok: "lk_ok k s" and diff: "lk_inp k sd_in \<noteq> lk_out k sd_out to"
    and q: "lk_queue k s (lk_inp k sd_in) = chunks BLOCKSIZE data @ rest"
    and lim: "BLOCKSIZE \<le> lk_lim k" and data: "length data < 2 ^ 64" and fuel: "length data \<le> fuel"
  shows "\<exists>s'. block_forward net fuel s sd_in sd_out to (of_nat (length data)) = Inr (s', length data) \<and>
    moves k s s' (lk_inp k sd_in) rest (lk_out k sd_out to) (block_wire data)"
proof -
  have "length (enc64 (of_nat (length data))) + 2 \<le> lk_lim k" using lim by (simp add: BLOCKSIZE_def)
  from sendmsg_adds [OF net ok this] obtain s1 where
    s1: "clara_sendmsg net s sd_out CLARA_MSG_BLOCK (enc64 (of_nat (length data))) to = Inr (s1, Some 8)"
      "adds k s s1 (lk_out k sd_out to) [block_head data]"
    unfolding block_head_def by fastforce
  have s1': "lk_ok k s1" "lk_queue k s1 (lk_inp k sd_in) = chunks BLOCKSIZE data @ rest"
    using s1(2) q diff by (auto simp: adds_def)
  have B: "0 < BLOCKSIZE" by (simp add: BLOCKSIZE_def)
  from block_forward_loop_correct [OF net diff s1' B lim fuel, of 0] obtain s' where
    s': "block_forward_loop net fuel s1 sd_in sd_out to BLOCKSIZE 0 (length data) = Inr (s', length data)"
      "moves k s1 s' (lk_inp k sd_in) rest (lk_out k sd_out to) (chunks BLOCKSIZE data)" by auto
  have "unat (of_nat (length data) :: 64 word) = length data" using data by (simp add: unat_of_nat)
  then have "block_forward net fuel s sd_in sd_out to (of_nat (length data)) = Inr (s', length data)"
    using s1(1) s'(1) by (simp add: block_forward_def)
  moreover have "moves k s s' (lk_inp k sd_in) rest (lk_out k sd_out to) (block_wire data)"
    using s1(2) s'(2) diff by (auto simp: moves_def adds_def block_wire_def)
  ultimately show ?thesis by blast
qed

end
