(* ===== verification/Stream_Transfer.thy ===== *)
theory Stream_Transfer
  imports Block
begin

text \<open>
  \<^verbatim>\<open>common/stream.c\<close>: data sent as a sequence of blocks between a start and an end
  message, optionally compressed. The LZO library is a parameter, the two functions the code
  calls; \<open>lzo_ok\<close> states what its documentation promises.
\<close>

section \<open>Operations\<close>

record lzo =
  lzo1x_1_compress :: "byte list \<Rightarrow> byte list"
  lzo1x_decompress :: "byte list \<Rightarrow> byte list"

definition STREAM_FORMAT_RAW :: u32 where "STREAM_FORMAT_RAW = 0"
definition STREAM_FORMAT_LZO1X_1 :: u32 where "STREAM_FORMAT_LZO1X_1 = 1"

record stream_options =
  so_fmt :: u32
  so_blksz :: "64 word"

definition default_opts :: stream_options where
  "default_opts = \<lparr>so_fmt = STREAM_FORMAT_RAW, so_blksz = 1048576\<rparr>"

definition enc_stream_params :: "stream_options \<Rightarrow> byte list" where
  "enc_stream_params p = enc32 (so_fmt p) @ [0, 0, 0, 0] @ enc64 (so_blksz p)"

definition dec_stream_params :: "byte list \<Rightarrow> stream_options" where
  "dec_stream_params bs = \<lparr>so_fmt = dec32 bs, so_blksz = dec64 (drop 8 bs)\<rparr>"

text \<open>The size of the buffer for a compressed block, computed in 64 bits.\<close>

definition enc_bufsz :: "64 word \<Rightarrow> nat" where
  "enc_bufsz blksz = unat (blksz + blksz div 16 + 64 + 3)"

text \<open>
  The loop of \<^verbatim>\<open>stream_send\<close>: the block size, what is left of the data and the bytes
  encoded. A compressed block longer than the buffer overruns it.
\<close>

fun stream_send_loop ::
  "'n sctp \<Rightarrow> lzo \<Rightarrow> nat \<Rightarrow> 'n \<Rightarrow> sd \<Rightarrow> sockaddr \<Rightarrow> u32 \<Rightarrow> nat \<Rightarrow> nat \<Rightarrow> byte list \<Rightarrow> nat \<Rightarrow> fault + ('n \<times> nat)"
where
  "stream_send_loop net lz fuel s sd to fmt bufsz raw_blksz [] encoded = Inr (s, encoded)"
| "stream_send_loop net lz 0 s sd to fmt bufsz raw_blksz ptr encoded = Inl Out_Of_Fuel"
| "stream_send_loop net lz (Suc fuel) s sd to fmt bufsz raw_blksz ptr encoded =
     (let raw = (if raw_blksz > length ptr then length ptr else raw_blksz)
      in rbind
        (if fmt = STREAM_FORMAT_LZO1X_1 then
           let blkbuf = lzo1x_1_compress lz (take raw ptr)
           in if length blkbuf > bufsz then Inl Buffer_Overflow
              else rbind (block_send net (Suc fuel) s sd blkbuf to) (\<lambda>(s', sent).
                rbind (c_assert (sent = length blkbuf)) (\<lambda>_. Inr s'))
         else
           rbind (block_send net (Suc fuel) s sd (take raw ptr) to) (\<lambda>(s', sent).
           rbind (c_assert (sent = raw)) (\<lambda>_. Inr s')))
        (\<lambda>s'. stream_send_loop net lz fuel s' sd to fmt bufsz raw (drop raw ptr) (encoded + raw)))"

definition stream_send ::
  "'n sctp \<Rightarrow> lzo \<Rightarrow> nat \<Rightarrow> 'n \<Rightarrow> sd \<Rightarrow> byte list \<Rightarrow> stream_options option \<Rightarrow> sockaddr \<Rightarrow> fault + ('n \<times> nat)"
where
  "stream_send net lz fuel s sd data opts to =
     (let stp = (case opts of None \<Rightarrow> default_opts | Some o' \<Rightarrow> o')
      in rbind (clara_sendmsg net s sd CLARA_MSG_STREAM_START (enc_stream_params stp) to) (\<lambda>(s1, ssz).
         case ssz of
           None \<Rightarrow> Inr (s1, 0)
         | Some _ \<Rightarrow>
             rbind (stream_send_loop net lz fuel s1 sd to (so_fmt stp) (enc_bufsz (so_blksz stp))
                      (unat (so_blksz stp)) data 0) (\<lambda>(s2, encoded).
             rbind (clara_sendmsg net s2 sd CLARA_MSG_STREAM_END [] to) (\<lambda>(s3, ssz').
             Inr (s3, encoded)))))"

text \<open>
  The loop of \<^verbatim>\<open>stream_recv\<close>; \<open>decoded\<close> are the bytes written to the buffer so far, of
  which \<open>remaining\<close> more fit. \<^verbatim>\<open>lzo1x_decompress\<close> does not check the room it has.
\<close>

fun stream_recv_loop ::
  "'n sctp \<Rightarrow> lzo \<Rightarrow> nat \<Rightarrow> 'n \<Rightarrow> sd \<Rightarrow> u32 \<Rightarrow> nat \<Rightarrow> nat \<Rightarrow> nat \<Rightarrow> byte list \<Rightarrow> fault + ('n \<times> byte list)"
where
  "stream_recv_loop net lz 0 s sd fmt bufsz raw_blksz remaining decoded = Inl Out_Of_Fuel"
| "stream_recv_loop net lz (Suc fuel) s sd fmt bufsz raw_blksz remaining decoded =
     rbind (clara_recvmsg net s sd CLARA_MSG_INVALID 8) (\<lambda>(s1, r).
     case r of
       None \<Rightarrow> Inr (s1, decoded)
     | Some m \<Rightarrow>
         if cm_type m = CLARA_MSG_STREAM_END \<and> length (cm_bytes m) = 0 then Inr (s1, decoded)
         else if cm_type m = CLARA_MSG_BLOCK \<and> length (cm_bytes m) = 8 then
           let raw = (if raw_blksz > remaining then remaining else raw_blksz);
               blp_length = dec64 (cm_bytes m)
           in if fmt = STREAM_FORMAT_LZO1X_1 then
                rbind (block_recv net (Suc fuel) s1 sd bufsz blp_length) (\<lambda>(s2, received).
                rbind (c_assert (length received \<le> bufsz)) (\<lambda>_.
                let block = lzo1x_decompress lz received
                in if length block > remaining then Inl Buffer_Overflow
                   else stream_recv_loop net lz fuel s2 sd fmt bufsz (length block)
                          (remaining - length block) (decoded @ block)))
              else
                rbind (block_recv net (Suc fuel) s1 sd raw blp_length) (\<lambda>(s2, received).
                rbind (c_assert (length received = raw)) (\<lambda>_.
                stream_recv_loop net lz fuel s2 sd fmt bufsz raw (remaining - raw)
                  (decoded @ received)))
         else Inl Assertion_Failed)"

definition stream_recv ::
  "'n sctp \<Rightarrow> lzo \<Rightarrow> nat \<Rightarrow> 'n \<Rightarrow> sd \<Rightarrow> nat \<Rightarrow> fault + ('n \<times> byte list)"
where
  "stream_recv net lz fuel s sd len =
     rbind (clara_recvmsg net s sd CLARA_MSG_STREAM_START 16) (\<lambda>(s1, r).
     case r of
       None \<Rightarrow> Inr (s1, [])
     | Some m \<Rightarrow>
         if length (cm_bytes m) < 16 then Inl Uninit_Read
         else
           let stp = dec_stream_params (cm_bytes m)
           in stream_recv_loop net lz fuel s1 sd (so_fmt stp) (enc_bufsz (so_blksz stp))
                (unat (so_blksz stp)) len [])"

fun stream_forward_loop ::
  "'n sctp \<Rightarrow> nat \<Rightarrow> 'n \<Rightarrow> sd \<Rightarrow> sd \<Rightarrow> sockaddr \<Rightarrow> nat \<Rightarrow> fault + ('n \<times> nat \<times> message_type option)"
where
  "stream_forward_loop net 0 s sd_in sd_out to forwarded = Inl Out_Of_Fuel"
| "stream_forward_loop net (Suc fuel) s sd_in sd_out to forwarded =
     rbind (clara_recvmsg net s sd_in CLARA_MSG_INVALID 8) (\<lambda>(s1, r).
     case r of
       None \<Rightarrow> Inr (s1, forwarded, None)
     | Some m \<Rightarrow>
         if cm_type m = CLARA_MSG_STREAM_END \<and> length (cm_bytes m) = 0 then
           Inr (s1, forwarded, Some (cm_type m))
         else if cm_type m = CLARA_MSG_BLOCK \<and> length (cm_bytes m) = 8 then
           rbind (block_forward net (Suc fuel) s1 sd_in sd_out to (dec64 (cm_bytes m))) (\<lambda>(s2, n).
           stream_forward_loop net fuel s2 sd_in sd_out to (forwarded + n))
         else Inl Assertion_Failed)"

definition stream_forward ::
  "'n sctp \<Rightarrow> nat \<Rightarrow> 'n \<Rightarrow> sd \<Rightarrow> sd \<Rightarrow> sockaddr \<Rightarrow> fault + ('n \<times> nat)"
where
  "stream_forward net fuel s sd_in sd_out to =
     rbind (clara_recvmsg net s sd_in CLARA_MSG_STREAM_START 16) (\<lambda>(s1, r).
     case r of
       None \<Rightarrow> Inr (s1, 0)
     | Some m \<Rightarrow>
         if length (cm_bytes m) < 16 then Inl Uninit_Read
         else
           rbind (clara_sendmsg net s1 sd_out (cm_type m) (cm_bytes m) to) (\<lambda>(s2, ssz).
           case ssz of
             None \<Rightarrow> Inr (s2, 0)
           | Some _ \<Rightarrow>
               rbind (stream_forward_loop net fuel s2 sd_in sd_out to 0) (\<lambda>(s3, forwarded, ended).
               case ended of
                 None \<Rightarrow> Inr (s3, forwarded)
               | Some type \<Rightarrow>
                   rbind (clara_sendmsg net s3 sd_out type [] to) (\<lambda>(s4, ssz').
                   Inr (s4, forwarded)))))"

section \<open>What is on the wire\<close>

definition lzo_ok :: "lzo \<Rightarrow> bool" where
  "lzo_ok lz \<longleftrightarrow>
     (\<forall>bs. lzo1x_decompress lz (lzo1x_1_compress lz bs) = bs) \<and>
     (\<forall>bs. length (lzo1x_1_compress lz bs) \<le> length bs + length bs div 16 + 64 + 3)"

definition enc_block :: "lzo \<Rightarrow> u32 \<Rightarrow> byte list \<Rightarrow> byte list" where
  "enc_block lz fmt bs = (if fmt = STREAM_FORMAT_LZO1X_1 then lzo1x_1_compress lz bs else bs)"

definition blocks_wire :: "byte list list \<Rightarrow> byte list list" where
  "blocks_wire bss = concat (map block_wire bss)"

definition stream_wire :: "stream_options \<Rightarrow> byte list list \<Rightarrow> byte list list" where
  "stream_wire stp bss =
     (enc16 CLARA_MSG_STREAM_START @ enc_stream_params stp) # blocks_wire bss @
     [enc16 CLARA_MSG_STREAM_END]"

lemma dec_enc_stream_params [simp]: "dec_stream_params (enc_stream_params p) = p"
proof -
  have "drop 8 (enc32 (so_fmt p) @ [0, 0, 0, 0] @ enc64 (so_blksz p)) = enc64 (so_blksz p)"
    by simp
  then show ?thesis by (simp only: dec_stream_params_def enc_stream_params_def) simp
qed

lemma length_enc_stream_params [simp]: "length (enc_stream_params p) = 16"
  by (simp add: enc_stream_params_def)

lemma blocks_wire_simps [simp]:
  "blocks_wire [] = []"
  "blocks_wire (bs # bss) = block_wire bs @ blocks_wire bss"
  by (simp_all add: blocks_wire_def)

section \<open>Sending\<close>

text \<open>
  The fuel: one unit for each block, and for the loop over a block of \<open>n\<close> bytes \<open>n\<close> units
  when its turn comes.
\<close>

definition stream_fuel :: "byte list list \<Rightarrow> nat \<Rightarrow> bool" where
  "stream_fuel bss fuel \<longleftrightarrow> (\<forall>bs\<in>set bss. length bs + length bss < fuel) \<and> length bss < fuel"

lemma stream_fuel_Cons:
  "stream_fuel (bs # bss) (Suc fuel) \<Longrightarrow> length bs \<le> Suc fuel \<and> stream_fuel bss fuel"
  by (auto simp: stream_fuel_def)

lemma stream_fuel_ex: "\<exists>n. \<forall>fuel\<ge>n. stream_fuel bss fuel"
proof (intro exI allI impI)
  fix fuel assume "fuel \<ge> Suc (length (concat bss) + length bss)"
  moreover have "length bs \<le> length (concat bss)" if "bs \<in> set bss" for bs
    using that by (induction bss) auto
  ultimately show "stream_fuel bss fuel" by (fastforce simp: stream_fuel_def)
qed

definition enc_blocks :: "lzo \<Rightarrow> u32 \<Rightarrow> nat \<Rightarrow> byte list \<Rightarrow> byte list list" where
  "enc_blocks lz fmt b data = map (enc_block lz fmt) (chunks b data)"

lemma stream_send_loop_step:
  assumes "ptr \<noteq> []"
  shows "stream_send_loop net lz (Suc fuel) s sd to fmt bufsz b ptr n =
     (let raw = (if b > length ptr then length ptr else b);
          blk = enc_block lz fmt (take raw ptr)
      in if fmt = STREAM_FORMAT_LZO1X_1 \<and> length blk > bufsz then Inl Buffer_Overflow
         else rbind (block_send net (Suc fuel) s sd blk to) (\<lambda>(s', sent).
           rbind (c_assert (sent = (if fmt = STREAM_FORMAT_LZO1X_1 then length blk else raw))) (\<lambda>_.
           stream_send_loop net lz fuel s' sd to fmt bufsz raw (drop raw ptr) (n + raw))))"
proof -
  have rb: "rbind (rbind m f) g = rbind m (\<lambda>x. rbind (f x) g)" for m :: "fault + ('a \<times> nat)"
    and f :: "'a \<times> nat \<Rightarrow> fault + 'a" and g :: "'a \<Rightarrow> fault + ('a \<times> nat)"
    by (cases m) auto
  have rc: "rbind (rbind c (\<lambda>_. Inr s')) g = rbind c (\<lambda>_. g s')"
    for c :: "fault + unit" and s' :: 'a and g :: "'a \<Rightarrow> fault + ('a \<times> nat)"
    by (cases c) auto
  obtain v vs where ptr: "ptr = v # vs" using assms by (cases ptr) auto
  show ?thesis
    unfolding ptr stream_send_loop.simps Let_def enc_block_def
    by (cases "fmt = STREAM_FORMAT_LZO1X_1") (simp_all add: rb rc case_prod_unfold)
qed

lemma stream_send_loop_correct:
  assumes net: "reliable net k" and lim: "BLOCKSIZE \<le> lk_lim k"
  shows "lk_ok k s \<Longrightarrow> 0 < b \<Longrightarrow> stream_fuel (enc_blocks lz fmt b ptr) fuel \<Longrightarrow>
    (fmt = STREAM_FORMAT_LZO1X_1 \<longrightarrow> (\<forall>blk\<in>set (enc_blocks lz fmt b ptr). length blk \<le> bufsz)) \<Longrightarrow>
    \<exists>s'. stream_send_loop net lz fuel s sd to fmt bufsz b ptr n = Inr (s', n + length ptr) \<and>
      adds k s s' (lk_out k sd to) (blocks_wire (enc_blocks lz fmt b ptr))"
proof (induction fuel arbitrary: s b ptr n)
  case 0
  then show ?case by (simp add: stream_fuel_def)
next
  case (Suc fuel)
  show ?case
  proof (cases "ptr = []")
    case True
    then show ?thesis using Suc.prems(1) by (auto simp: enc_blocks_def intro: adds_refl)
  next
    case ne: False
    define b' where "b' = (if b > length ptr then length ptr else b)"
    define blk where "blk = enc_block lz fmt (take b' ptr)"
    have c: "chunks b ptr = take b' ptr # chunks b' (drop b' ptr)" "0 < b'" "b' \<le> b"
      "length (take b' ptr) = b'"
      using chunks_clamp [OF Suc.prems(2) ne b'_def] by auto
    have blks: "enc_blocks lz fmt b ptr = blk # enc_blocks lz fmt b' (drop b' ptr)"
      by (simp add: enc_blocks_def c(1) blk_def)
    note fuel = stream_fuel_Cons [OF Suc.prems(3) [unfolded blks]]
    from block_send_correct [OF net Suc.prems(1) lim, of blk "Suc fuel"] fuel obtain s1 where
      s1: "block_send net (Suc fuel) s sd blk to = Inr (s1, length blk)"
        "adds k s s1 (lk_out k sd to) (block_wire blk)" by blast
    have "lk_ok k s1" using s1(2) by (simp add: adds_def)
    from Suc.IH [OF this c(2), of "drop b' ptr" "n + b'"] fuel Suc.prems(4) obtain s' where
      s': "stream_send_loop net lz fuel s1 sd to fmt bufsz b' (drop b' ptr) (n + b') =
        Inr (s', n + b' + length (drop b' ptr))"
        "adds k s1 s' (lk_out k sd to) (blocks_wire (enc_blocks lz fmt b' (drop b' ptr)))"
      unfolding blks by auto
    have "length blk = b'" if "fmt \<noteq> STREAM_FORMAT_LZO1X_1"
      using that c(4) by (simp add: blk_def enc_block_def)
    then have "stream_send_loop net lz (Suc fuel) s sd to fmt bufsz b ptr n =
        Inr (s', n + b' + length (drop b' ptr))"
      using s1(1) s'(1) Suc.prems(4) blks
      unfolding stream_send_loop_step [OF ne] Let_def b'_def [symmetric] blk_def [symmetric]
      by auto
    moreover have "n + b' + length (drop b' ptr) = n + length ptr" using c(4) by simp
    ultimately show ?thesis
      using adds_trans [OF s1(2) s'(2)] blks by auto
  qed
qed

definition opts_of :: "stream_options option \<Rightarrow> stream_options" where
  "opts_of opts = (case opts of None \<Rightarrow> default_opts | Some p \<Rightarrow> p)"

text \<open>The blocks of a transfer, as they are put on the wire.\<close>

definition wire_blocks :: "lzo \<Rightarrow> stream_options \<Rightarrow> byte list \<Rightarrow> byte list list" where
  "wire_blocks lz p data = enc_blocks lz (so_fmt p) (unat (so_blksz p)) data"

definition opts_ok :: "stream_options \<Rightarrow> bool" where
  "opts_ok p \<longleftrightarrow> 0 < so_blksz p \<and> unat (so_blksz p) \<le> 2 ^ 62"

lemma enc_bufsz_eq:
  assumes "unat b \<le> 2 ^ 62"
  shows "enc_bufsz b = unat b + unat b div 16 + 67"
proof -
  have d: "unat (b div 16) = unat b div 16" by (simp add: unat_div)
  have "unat b div 16 \<le> 2 ^ 62" using assms by simp
  with assms d show ?thesis by (simp add: enc_bufsz_def unat_word_ariths)
qed

lemma wire_blocks_length:
  assumes lz: "lzo_ok lz" and p: "opts_ok p" and blk: "blk \<in> set (wire_blocks lz p data)"
  shows "length blk \<le> enc_bufsz (so_blksz p)" and "length blk < 2 ^ 64"
proof -
  from blk obtain c where c: "c \<in> set (chunks (unat (so_blksz p)) data)" "blk = enc_block lz (so_fmt p) c"
    by (auto simp: wire_blocks_def enc_blocks_def)
  from chunks_length [OF c(1)] have l: "length c \<le> unat (so_blksz p)" by simp
  have "length blk \<le> length c + length c div 16 + 67"
    using lz c(2) by (auto simp: lzo_ok_def enc_block_def add_ac)
  also have "\<dots> \<le> unat (so_blksz p) + unat (so_blksz p) div 16 + 67"
    using l by (intro add_mono div_le_mono) auto
  finally have *: "length blk \<le> unat (so_blksz p) + unat (so_blksz p) div 16 + 67" .
  then show "length blk \<le> enc_bufsz (so_blksz p)" using p by (simp add: enc_bufsz_eq opts_ok_def)
  have "unat (so_blksz p) div 16 \<le> unat (so_blksz p)" by simp
  moreover have "unat (so_blksz p) \<le> 2 ^ 62" using p by (simp add: opts_ok_def)
  ultimately have "length blk \<le> 2 ^ 62 + 2 ^ 62 + 67" using * by linarith
  then show "length blk < 2 ^ 64" by simp
qed

lemma stream_send_correct:
  assumes net: "reliable net k" and ok: "lk_ok k s" and lim: "BLOCKSIZE \<le> lk_lim k"
    and lz: "lzo_ok lz" and p: "opts_ok (opts_of opts)"
    and fuel: "stream_fuel (wire_blocks lz (opts_of opts) data) fuel"
  shows "\<exists>s'. stream_send net lz fuel s sd data opts to = Inr (s', length data) \<and>
    adds k s s' (lk_out k sd to) (stream_wire (opts_of opts) (wire_blocks lz (opts_of opts) data))"
proof -
  let ?p = "opts_of opts"
  have l: "length (enc_stream_params ?p) + 2 \<le> lk_lim k" "length ([]::byte list) + 2 \<le> lk_lim k"
    using lim by (simp_all add: BLOCKSIZE_def)
  from sendmsg_adds [OF net ok l(1)] obtain s1 where
    s1: "clara_sendmsg net s sd CLARA_MSG_STREAM_START (enc_stream_params ?p) to = Inr (s1, Some 16)"
      "adds k s s1 (lk_out k sd to) [enc16 CLARA_MSG_STREAM_START @ enc_stream_params ?p]" by fastforce
  have "lk_ok k s1" using s1(2) by (simp add: adds_def)
  moreover have "0 < unat (so_blksz ?p)" using p by (simp add: opts_ok_def unat_gt_0 word_neq_0_conv)
  moreover note fuel [unfolded wire_blocks_def]
  moreover have "\<forall>blk\<in>set (enc_blocks lz (so_fmt ?p) (unat (so_blksz ?p)) data).
      length blk \<le> enc_bufsz (so_blksz ?p)"
    using wire_blocks_length(1) [OF lz p] by (auto simp: wire_blocks_def)
  ultimately obtain s2 where
    s2: "stream_send_loop net lz fuel s1 sd to (so_fmt ?p) (enc_bufsz (so_blksz ?p))
        (unat (so_blksz ?p)) data 0 = Inr (s2, length data)"
      "adds k s1 s2 (lk_out k sd to) (blocks_wire (wire_blocks lz ?p data))"
    using stream_send_loop_correct [OF net lim, of s1 "unat (so_blksz ?p)" lz "so_fmt ?p" data fuel
        "enc_bufsz (so_blksz ?p)" sd to 0] by (auto simp: wire_blocks_def)
  have "lk_ok k s2" using s2(2) by (simp add: adds_def)
  from sendmsg_adds [OF net this l(2)] obtain s3 where
    s3: "clara_sendmsg net s2 sd CLARA_MSG_STREAM_END [] to = Inr (s3, Some 0)"
      "adds k s2 s3 (lk_out k sd to) [enc16 CLARA_MSG_STREAM_END]" by fastforce
  have "stream_send net lz fuel s sd data opts to = Inr (s3, length data)"
    using s1(1) s2(1) s3(1) by (simp add: stream_send_def opts_of_def [symmetric] Let_def)
  then show ?thesis
    using adds_trans [OF adds_trans [OF s1(2) s2(2)] s3(2)] by (auto simp: stream_wire_def)
qed

section \<open>Receiving\<close>

lemma recv_end:
  assumes "reliable net k" and "lk_ok k s"
    and "lk_queue k s (lk_inp k sd) = enc16 CLARA_MSG_STREAM_END # rest"
  shows "\<exists>s' fr. clara_recvmsg net s sd t 8 = Inr (s', Some \<lparr>cm_type = CLARA_MSG_STREAM_END,
      cm_bytes = [], cm_from = fr, cm_notification = False\<rparr>) \<and> leaves k s s' (lk_inp k sd) rest"
  using recvmsg_leaves [OF assms(1,2), of sd CLARA_MSG_STREAM_END "[]" rest 8 t] assms(3) by auto

lemma recv_block_head:
  assumes "reliable net k" and "lk_ok k s"
    and "lk_queue k s (lk_inp k sd) = block_wire blk @ rest"
  shows "\<exists>s' fr. clara_recvmsg net s sd t 8 = Inr (s', Some \<lparr>cm_type = CLARA_MSG_BLOCK,
      cm_bytes = enc64 (of_nat (length blk)), cm_from = fr, cm_notification = False\<rparr>) \<and>
    leaves k s s' (lk_inp k sd) (chunks BLOCKSIZE blk @ rest)"
  using recvmsg_leaves [OF assms(1,2), of sd CLARA_MSG_BLOCK "enc64 (of_nat (length blk))"
      "chunks BLOCKSIZE blk @ rest" 8 t] assms(3)
  by (auto simp: block_wire_def block_head_def)

lemma msg_distinct: "CLARA_MSG_BLOCK \<noteq> CLARA_MSG_STREAM_END"
  by (simp add: CLARA_MSG_BLOCK_def CLARA_MSG_STREAM_END_def)

text \<open>The announced blocks arrive and fill the buffer with the data they were cut from.\<close>

lemma stream_recv_loop_correct:
  assumes net: "reliable net k" and lz: "lzo_ok lz"
  shows "lk_ok k s \<Longrightarrow> 0 < b \<Longrightarrow> stream_fuel (enc_blocks lz fmt b data) fuel \<Longrightarrow>
    lk_queue k s (lk_inp k sd) =
      blocks_wire (enc_blocks lz fmt b data) @ enc16 CLARA_MSG_STREAM_END # rest \<Longrightarrow>
    \<forall>blk\<in>set (enc_blocks lz fmt b data). length blk < 2 ^ 64 \<and> length blk \<le> bufsz \<Longrightarrow>
    \<exists>s'. stream_recv_loop net lz fuel s sd fmt bufsz b (length data) got = Inr (s', got @ data) \<and>
      leaves k s s' (lk_inp k sd) rest"
proof (induction fuel arbitrary: s b data got)
  case 0
  then show ?case by (simp add: stream_fuel_def)
next
  case (Suc fuel)
  show ?case
  proof (cases "data = []")
    case True
    then have "lk_queue k s (lk_inp k sd) = enc16 CLARA_MSG_STREAM_END # rest"
      using Suc.prems(4) by (simp add: enc_blocks_def)
    from recv_end [OF net Suc.prems(1) this, of CLARA_MSG_INVALID] True show ?thesis by auto
  next
    case ne: False
    define b' where "b' = (if b > length data then length data else b)"
    define blk where "blk = enc_block lz fmt (take b' data)"
    let ?bss = "enc_blocks lz fmt b' (drop b' data)" and ?rest = "enc16 CLARA_MSG_STREAM_END # rest"
    have c: "chunks b data = take b' data # chunks b' (drop b' data)" "0 < b'" "b' \<le> b"
      "length (take b' data) = b'"
      using chunks_clamp [OF Suc.prems(2) ne b'_def] by auto
    have blks: "enc_blocks lz fmt b data = blk # ?bss"
      by (simp add: enc_blocks_def c(1) blk_def)
    note fuel = stream_fuel_Cons [OF Suc.prems(3) [unfolded blks]]
    have blk: "length blk < 2 ^ 64" "length blk \<le> bufsz" using Suc.prems(5) blks by auto
    have "lk_queue k s (lk_inp k sd) = block_wire blk @ blocks_wire ?bss @ ?rest"
      using Suc.prems(4) blks by simp
    from recv_block_head [OF net Suc.prems(1) this] obtain s1 fr where
      s1: "clara_recvmsg net s sd CLARA_MSG_INVALID 8 = Inr (s1, Some \<lparr>cm_type = CLARA_MSG_BLOCK,
          cm_bytes = enc64 (of_nat (length blk)), cm_from = fr, cm_notification = False\<rparr>)"
        "leaves k s s1 (lk_inp k sd) (chunks BLOCKSIZE blk @ blocks_wire ?bss @ ?rest)" by blast
    have ok1: "lk_ok k s1" "lk_queue k s1 (lk_inp k sd) = chunks BLOCKSIZE blk @ blocks_wire ?bss @ ?rest"
      using s1(2) by (simp_all add: leaves_def)
    have raw: "length blk = b'" if "fmt \<noteq> STREAM_FORMAT_LZO1X_1"
      using that c(4) by (simp add: blk_def enc_block_def)
    let ?cap = "if fmt = STREAM_FORMAT_LZO1X_1 then bufsz else b'"
    have "length blk \<le> ?cap" "length blk \<le> Suc fuel" using raw blk(2) fuel by auto
    from block_recv_correct [OF net ok1 this(1) blk(1) this(2)] obtain s2 where
      s2: "block_recv net (Suc fuel) s1 sd ?cap (of_nat (length blk)) = Inr (s2, blk)"
        "leaves k s1 s2 (lk_inp k sd) (blocks_wire ?bss @ ?rest)" by blast
    have ok2: "lk_ok k s2" "lk_queue k s2 (lk_inp k sd) = blocks_wire ?bss @ ?rest"
      using s2(2) by (simp_all add: leaves_def)
    from Suc.IH [OF ok2(1) c(2) _ ok2(2), of "got @ take b' data"] fuel Suc.prems(5) blks obtain s' where
      s': "stream_recv_loop net lz fuel s2 sd fmt bufsz b' (length (drop b' data)) (got @ take b' data) =
        Inr (s', (got @ take b' data) @ drop b' data)"
        "leaves k s2 s' (lk_inp k sd) rest" by auto
    have dec: "lzo1x_decompress lz blk = take b' data" if "fmt = STREAM_FORMAT_LZO1X_1"
      using that lz by (simp add: blk_def enc_block_def lzo_ok_def)
    have idn: "blk = take b' data" if "fmt \<noteq> STREAM_FORMAT_LZO1X_1"
      using that by (simp add: blk_def enc_block_def)
    have "b' \<le> length data" "length (drop b' data) = length data - b'" using c(4) by simp_all
    then have "stream_recv_loop net lz (Suc fuel) s sd fmt bufsz b (length data) got = Inr (s', got @ data)"
      using s1(1) s2(1) s'(1) dec idn c(4) blk(2)
      unfolding stream_recv_loop.simps Let_def b'_def [symmetric]
      by (cases "fmt = STREAM_FORMAT_LZO1X_1") (simp_all add: msg_distinct)
    with leaves_trans [OF leaves_trans [OF s1(2) s2(2)] s'(2)] show ?thesis by blast
  qed
qed

lemma stream_recv_correct:
  assumes net: "reliable net k" and ok: "lk_ok k s" and lz: "lzo_ok lz" and p: "opts_ok p"
    and fuel: "stream_fuel (wire_blocks lz p data) fuel"
    and q: "lk_queue k s (lk_inp k sd) = stream_wire p (wire_blocks lz p data) @ rest"
  shows "\<exists>s'. stream_recv net lz fuel s sd (length data) = Inr (s', data) \<and>
    leaves k s s' (lk_inp k sd) rest"
proof -
  let ?b = "unat (so_blksz p)"
  let ?rest = "blocks_wire (wire_blocks lz p data) @ enc16 CLARA_MSG_STREAM_END # rest"
  from recvmsg_leaves [OF net ok, of sd CLARA_MSG_STREAM_START "enc_stream_params p" ?rest 16] q
  obtain s1 fr where s1: "clara_recvmsg net s sd CLARA_MSG_STREAM_START 16 = Inr (s1,
      Some \<lparr>cm_type = CLARA_MSG_STREAM_START, cm_bytes = enc_stream_params p, cm_from = fr,
        cm_notification = False\<rparr>)" "leaves k s s1 (lk_inp k sd) ?rest"
    by (fastforce simp: stream_wire_def)
  have ok1: "lk_ok k s1" "lk_queue k s1 (lk_inp k sd) = ?rest" using s1(2) by (simp_all add: leaves_def)
  have b: "0 < ?b" using p by (simp add: opts_ok_def unat_gt_0 word_neq_0_conv)
  have "\<forall>blk\<in>set (wire_blocks lz p data). length blk < 2 ^ 64 \<and> length blk \<le> enc_bufsz (so_blksz p)"
    using wire_blocks_length [OF lz p] by blast
  from stream_recv_loop_correct [OF net lz ok1(1) b fuel [unfolded wire_blocks_def]
      ok1(2) [unfolded wire_blocks_def] this [unfolded wire_blocks_def], of "[]"]
  obtain s' where "stream_recv_loop net lz fuel s1 sd (so_fmt p) (enc_bufsz (so_blksz p)) ?b
      (length data) [] = Inr (s', data)" "leaves k s1 s' (lk_inp k sd) rest" by auto
  with s1 leaves_trans [OF s1(2)] show ?thesis by (auto simp: stream_recv_def Let_def)
qed

section \<open>Forwarding\<close>

lemma stream_forward_loop_correct:
  assumes net: "reliable net k" and diff: "lk_inp k sd_in \<noteq> lk_out k sd_out to"
    and lim: "BLOCKSIZE \<le> lk_lim k"
  shows "lk_ok k s \<Longrightarrow> stream_fuel bss fuel \<Longrightarrow>
    lk_queue k s (lk_inp k sd_in) = blocks_wire bss @ enc16 CLARA_MSG_STREAM_END # rest \<Longrightarrow>
    \<forall>blk\<in>set bss. length blk < 2 ^ 64 \<Longrightarrow>
    \<exists>s'. stream_forward_loop net fuel s sd_in sd_out to n =
        Inr (s', n + length (concat bss), Some CLARA_MSG_STREAM_END) \<and>
      moves k s s' (lk_inp k sd_in) rest (lk_out k sd_out to) (blocks_wire bss)"
proof (induction bss arbitrary: s fuel n)
  case Nil
  then obtain fuel' where fuel: "fuel = Suc fuel'" by (cases fuel) (auto simp: stream_fuel_def)
  have "lk_queue k s (lk_inp k sd_in) = enc16 CLARA_MSG_STREAM_END # rest" using Nil.prems(3) by simp
  from recv_end [OF net Nil.prems(1) this, of CLARA_MSG_INVALID] diff fuel show ?case
    by (auto simp: leaves_def moves_def fun_upd_idem)
next
  case (Cons blk bss)
  then obtain fuel' where fuel: "fuel = Suc fuel'" by (cases fuel) (auto simp: stream_fuel_def)
  note f = stream_fuel_Cons [OF Cons.prems(2) [unfolded fuel]]
  let ?rest = "blocks_wire bss @ enc16 CLARA_MSG_STREAM_END # rest"
  have "lk_queue k s (lk_inp k sd_in) = block_wire blk @ ?rest" using Cons.prems(3) by simp
  from recv_block_head [OF net Cons.prems(1) this] obtain s1 fr where
    s1: "clara_recvmsg net s sd_in CLARA_MSG_INVALID 8 = Inr (s1, Some \<lparr>cm_type = CLARA_MSG_BLOCK,
        cm_bytes = enc64 (of_nat (length blk)), cm_from = fr, cm_notification = False\<rparr>)"
      "leaves k s s1 (lk_inp k sd_in) (chunks BLOCKSIZE blk @ ?rest)" by blast
  have ok1: "lk_ok k s1" "lk_queue k s1 (lk_inp k sd_in) = chunks BLOCKSIZE blk @ ?rest"
    using s1(2) by (simp_all add: leaves_def)
  have "length blk < 2 ^ 64" "length blk \<le> Suc fuel'" using Cons.prems(4) f by auto
  from block_forward_correct [OF net ok1(1) diff ok1(2) lim this] obtain s2 where
    s2: "block_forward net (Suc fuel') s1 sd_in sd_out to (of_nat (length blk)) = Inr (s2, length blk)"
      "moves k s1 s2 (lk_inp k sd_in) ?rest (lk_out k sd_out to) (block_wire blk)" by blast
  have mv: "moves k s s2 (lk_inp k sd_in) ?rest (lk_out k sd_out to) (block_wire blk)"
    using s1(2) s2(2) diff by (auto simp: moves_def leaves_def)
  have "lk_ok k s2" "lk_queue k s2 (lk_inp k sd_in) = ?rest"
    using mv diff by (auto simp: moves_def)
  from Cons.IH [OF this(1) _ this(2), of fuel' "n + length blk"] f Cons.prems(4) obtain s' where
    s': "stream_forward_loop net fuel' s2 sd_in sd_out to (n + length blk) =
      Inr (s', n + length blk + length (concat bss), Some CLARA_MSG_STREAM_END)"
      "moves k s2 s' (lk_inp k sd_in) rest (lk_out k sd_out to) (blocks_wire bss)" by auto
  have "stream_forward_loop net fuel s sd_in sd_out to n =
      Inr (s', n + length (concat (blk # bss)), Some CLARA_MSG_STREAM_END)"
    using s1(1) s2(1) s'(1) unfolding fuel by (simp add: msg_distinct add.assoc)
  with moves_trans [OF diff mv s'(2)] show ?case by auto
qed

text \<open>What arrives is what is sent on, message for message.\<close>

lemma stream_forward_correct:
  assumes net: "reliable net k" and ok: "lk_ok k s" and diff: "lk_inp k sd_in \<noteq> lk_out k sd_out to"
    and lim: "BLOCKSIZE \<le> lk_lim k" and fuel: "stream_fuel bss fuel"
    and q: "lk_queue k s (lk_inp k sd_in) = stream_wire p bss @ rest"
    and len: "\<forall>blk\<in>set bss. length blk < 2 ^ 64"
  shows "\<exists>s'. stream_forward net fuel s sd_in sd_out to = Inr (s', length (concat bss)) \<and>
    moves k s s' (lk_inp k sd_in) rest (lk_out k sd_out to) (stream_wire p bss)"
proof -
  let ?c = "lk_inp k sd_in" and ?d = "lk_out k sd_out to"
  let ?rest = "blocks_wire bss @ enc16 CLARA_MSG_STREAM_END # rest"
  have l: "length (enc_stream_params p) + 2 \<le> lk_lim k" "length ([]::byte list) + 2 \<le> lk_lim k"
    using lim by (simp_all add: BLOCKSIZE_def)
  from recvmsg_leaves [OF net ok, of sd_in CLARA_MSG_STREAM_START "enc_stream_params p" ?rest 16] q
  obtain s1 fr where s1: "clara_recvmsg net s sd_in CLARA_MSG_STREAM_START 16 = Inr (s1,
      Some \<lparr>cm_type = CLARA_MSG_STREAM_START, cm_bytes = enc_stream_params p, cm_from = fr,
        cm_notification = False\<rparr>)" "leaves k s s1 ?c ?rest"
    by (fastforce simp: stream_wire_def)
  have "lk_ok k s1" using s1(2) by (simp add: leaves_def)
  from sendmsg_adds [OF net this l(1)] obtain s2 where
    s2: "clara_sendmsg net s1 sd_out CLARA_MSG_STREAM_START (enc_stream_params p) to = Inr (s2, Some 16)"
      "adds k s1 s2 ?d [enc16 CLARA_MSG_STREAM_START @ enc_stream_params p]" by fastforce
  note m2 = moves_intro [OF diff s1(2) s2(2)]
  have "lk_ok k s2" "lk_queue k s2 ?c = ?rest" using m2 diff by (auto simp: moves_def)
  from stream_forward_loop_correct [OF net diff lim this(1) fuel this(2) len, of 0] obtain s3 where
    s3: "stream_forward_loop net fuel s2 sd_in sd_out to 0 =
        Inr (s3, length (concat bss), Some CLARA_MSG_STREAM_END)"
      "moves k s2 s3 ?c rest ?d (blocks_wire bss)" by auto
  have "lk_ok k s3" using s3(2) by (simp add: moves_def)
  from sendmsg_adds [OF net this l(2)] obtain s4 where
    s4: "clara_sendmsg net s3 sd_out CLARA_MSG_STREAM_END [] to = Inr (s4, Some 0)"
      "adds k s3 s4 ?d [enc16 CLARA_MSG_STREAM_END]" by fastforce
  have "stream_forward net fuel s sd_in sd_out to = Inr (s4, length (concat bss))"
    using s1(1) s2(1) s3(1) s4(1) by (simp add: stream_forward_def)
  moreover have "moves k s s4 ?c rest ?d (stream_wire p bss)"
    using moves_trans [OF diff m2 s3(2)] s4(2) diff
    by (auto simp: stream_wire_def moves_def adds_def fun_upd_twist)
  ultimately show ?thesis by blast
qed

section \<open>A block size of zero\<close>

text \<open>
  \<^verbatim>\<open>stream_send\<close> does not return: every round sends what an empty block is encoded to and takes
  nothing off the data.
\<close>

lemma stream_send_loop_zero:
  assumes net: "reliable net k" and lim: "BLOCKSIZE \<le> lk_lim k" and ne: "ptr \<noteq> []"
    and buf: "length (enc_block lz fmt []) \<le> bufsz"
  shows "lk_ok k s \<Longrightarrow> stream_send_loop net lz fuel s sd to fmt bufsz 0 ptr n = Inl Out_Of_Fuel"
proof (induction fuel arbitrary: s n)
  case 0
  then show ?case using ne by (cases ptr) auto
next
  case (Suc fuel)
  let ?blk = "enc_block lz fmt []"
  from block_send_correct [OF net Suc.prems lim, of ?blk "Suc fuel + length ?blk" sd to] obtain s1 where
    s1: "block_send net (Suc fuel + length ?blk) s sd ?blk to = Inr (s1, length ?blk)"
      "adds k s s1 (lk_out k sd to) (block_wire ?blk)" by auto
  have len: "(if fmt = STREAM_FORMAT_LZO1X_1 then length ?blk else 0) = length ?blk" by (simp add: enc_block_def)
  have "block_send net (Suc fuel) s sd ?blk to = Inl Out_Of_Fuel \<or>
      block_send net (Suc fuel) s sd ?blk to = Inr (s1, length ?blk)"
    using block_send_fuel [of net "Suc fuel" s sd ?blk to "length ?blk"] s1(1) by auto
  then show ?case
    using Suc.IH [of s1 n] s1(2) buf unfolding stream_send_loop_step [OF ne] by (auto simp: adds_def len)
qed

lemma stream_send_start:
  assumes net: "reliable net k" and ok: "lk_ok k s" and lim: "BLOCKSIZE \<le> lk_lim k"
  obtains s1 where "clara_sendmsg net s sd CLARA_MSG_STREAM_START (enc_stream_params p) to = Inr (s1, Some 16)"
    and "lk_ok k s1"
proof -
  have "length (enc_stream_params p) + 2 \<le> lk_lim k" using lim by (simp add: BLOCKSIZE_def)
  from sendmsg_adds [OF net ok this] that show thesis by (fastforce simp: adds_def)
qed

lemma stream_send_zero_block:
  assumes net: "reliable net k" and ok: "lk_ok k s" and lim: "BLOCKSIZE \<le> lk_lim k" and lz: "lzo_ok lz"
    and p: "so_blksz p = 0"
  shows "data \<noteq> [] \<Longrightarrow> stream_send net lz fuel s sd data (Some p) to = Inl Out_Of_Fuel"
    and "\<exists>s'. stream_send net lz fuel s sd [] (Some p) to = Inr (s', 0)"
proof -
  from lz have "length (lzo1x_1_compress lz []) \<le> length ([] :: byte list) + length ([] :: byte list) div 16 + 64 + 3"
    unfolding lzo_ok_def by blast
  then have c: "length (lzo1x_1_compress lz []) \<le> 67" by simp
  have b: "enc_bufsz (so_blksz p) = 67" by (simp add: p enc_bufsz_def)
  obtain s1 where s1: "clara_sendmsg net s sd CLARA_MSG_STREAM_START (enc_stream_params p) to = Inr (s1, Some 16)"
    "lk_ok k s1" by (rule stream_send_start [OF net ok lim])
  show "stream_send net lz fuel s sd data (Some p) to = Inl Out_Of_Fuel" if "data \<noteq> []"
    using stream_send_loop_zero [OF net lim that, of lz "so_fmt p" 67 s1] s1 c
    by (simp add: stream_send_def b) (simp add: p enc_block_def)
  have "length ([] :: byte list) + 2 \<le> lk_lim k" using lim by (simp add: BLOCKSIZE_def)
  from sendmsg_adds [OF net s1(2) this, of sd CLARA_MSG_STREAM_END to] s1(1)
  show "\<exists>s'. stream_send net lz fuel s sd [] (Some p) to = Inr (s', 0)" by (auto simp: stream_send_def)
qed

section \<open>A block size that wraps around\<close>

text \<open>
  From a block size of about \<open>2 ^ 64 * 16 / 17\<close> on, the size of the buffer for a compressed block
  wraps around, and a block that does not compress to the rest overruns it.
\<close>

lemma enc_bufsz_wrap:
  assumes "2 ^ 64 \<le> unat b + unat b div 16 + 67"
  shows "enc_bufsz b = unat b + unat b div 16 + 67 - 2 ^ 64"
proof -
  have d: "unat (b div 16) = unat b div 16" by (simp add: unat_div)
  have "unat b < 2 ^ LENGTH(64)" by (rule unsigned_less)
  then have "unat b < 2 ^ 64" by simp
  then have "unat b + unat b div 16 + 67 < 2 * 2 ^ 64" by simp
  then have "(unat b + unat b div 16 + 67) mod 2 ^ 64 = unat b + unat b div 16 + 67 - 2 ^ 64"
    using assms by (subst le_mod_geq) auto
  moreover have "enc_bufsz b = (unat b + unat b div 16 + 67) mod 2 ^ 64"
    unfolding enc_bufsz_def by (simp add: unat_word_ariths d mod_simps add.assoc)
  ultimately show ?thesis by simp
qed

lemma stream_send_overruns:
  assumes net: "reliable net k" and ok: "lk_ok k s" and lim: "BLOCKSIZE \<le> lk_lim k"
    and data: "data \<noteq> []" and p: "so_fmt p = STREAM_FORMAT_LZO1X_1" "2 ^ 64 \<le> unat (so_blksz p) + unat (so_blksz p) div 16 + 67"
    and blk: "unat (so_blksz p) + unat (so_blksz p) div 16 + 67 <
      2 ^ 64 + length (lzo1x_1_compress lz (take (unat (so_blksz p)) data))"
  shows "stream_send net lz (Suc fuel) s sd data (Some p) to = Inl Buffer_Overflow"
proof -
  obtain s1 where s1: "clara_sendmsg net s sd CLARA_MSG_STREAM_START (enc_stream_params p) to = Inr (s1, Some 16)"
    by (rule stream_send_start [OF net ok lim])
  let ?b = "unat (so_blksz p)"
  have "enc_bufsz (so_blksz p) < length (lzo1x_1_compress lz (take ?b data))"
    using blk p(2) by (simp add: enc_bufsz_wrap)
  moreover have "take (if ?b > length data then length data else ?b) data = take ?b data" by simp
  ultimately have "stream_send_loop net lz (Suc fuel) s1 sd to (so_fmt p) (enc_bufsz (so_blksz p)) ?b data 0 = Inl Buffer_Overflow"
    unfolding stream_send_loop_step [OF data] Let_def by (simp only: p(1) enc_block_def if_True simp_thms)
  with s1 show ?thesis by (simp add: stream_send_def)
qed

section \<open>A transfer through the agent\<close>

text \<open>
  A sender, the agent and a receiver on two channels: the agent forwards block for block and
  never decompresses, and the receiver reads what was sent.
\<close>

lemma stream_relay_correct:
  assumes net: "reliable net k" and ok: "lk_ok k s" and lim: "BLOCKSIZE \<le> lk_lim k"
    and lz: "lzo_ok lz" and p: "opts_ok (opts_of opts)"
    and fuel: "stream_fuel (wire_blocks lz (opts_of opts) data) fuel"
    and chan: "lk_out k sd to = c" "lk_inp k sd_in = c" "lk_out k sd_out to' = d" "lk_inp k sd' = d" "c \<noteq> d"
    and q: "lk_queue k s c = []" "lk_queue k s d = []"
  shows "\<exists>s1 s2 s3 n. stream_send net lz fuel s sd data opts to = Inr (s1, length data) \<and>
    stream_forward net fuel s1 sd_in sd_out to' = Inr (s2, n) \<and>
    stream_recv net lz fuel s2 sd' (length data) = Inr (s3, data) \<and>
    lk_queue k s3 = lk_queue k s"
proof -
  let ?p = "opts_of opts" and ?bss = "wire_blocks lz (opts_of opts) data"
  from stream_send_correct [OF net ok lim lz p fuel, of sd to] chan(1) q(1) obtain s1 where
    s1: "stream_send net lz fuel s sd data opts to = Inr (s1, length data)" "lk_ok k s1"
      "lk_queue k s1 = (lk_queue k s)(c := stream_wire ?p ?bss)" by (auto simp: adds_def)
  have len: "\<forall>blk\<in>set ?bss. length blk < 2 ^ 64" using wire_blocks_length(2) [OF lz p] by blast
  have "lk_inp k sd_in \<noteq> lk_out k sd_out to'" using chan by simp
  from stream_forward_correct [OF net s1(2) this lim fuel _ len, of ?p "[]"] s1(3) chan q(2) obtain s2 where
    s2: "stream_forward net fuel s1 sd_in sd_out to' = Inr (s2, length (concat ?bss))" "lk_ok k s2"
      "lk_queue k s2 = (lk_queue k s1)(c := [], d := stream_wire ?p ?bss)" by (auto simp: moves_def)
  from stream_recv_correct [OF net s2(2) lz p fuel, of sd' "[]"] s2(3) chan(4) obtain s3 where
    s3: "stream_recv net lz fuel s2 sd' (length data) = Inr (s3, data)"
      "lk_queue k s3 = (lk_queue k s2)(d := [])" by (auto simp: leaves_def)
  have "lk_queue k s3 = lk_queue k s" using s1(3) s2(3) s3(2) q by (simp add: fun_eq_iff)
  with s1(1) s2(1) s3(1) show ?thesis by blast
qed

end
