(* ===== verification/Api.thy ===== *)
theory Api
  imports Prelude
begin

text \<open>
  The table of the OpenCL functions that can be called remotely: \<^verbatim>\<open>include/api.h\<close> and
  \<^verbatim>\<open>common/api.c\<close>. The enumeration's values are the positions of its constructors.
\<close>

section \<open>The enumeration\<close>

datatype (plugins only: code) cl_function_t =
    CL_GETPLATFORMIDS
  | CL_GETPLATFORMINFO | CL_GETDEVICEIDS | CL_GETDEVICEINFO | CL_CREATECONTEXT
  | CL_CREATECONTEXTFROMTYPE | CL_RETAINCONTEXT | CL_RELEASECONTEXT | CL_GETCONTEXTINFO
  | CL_CREATECOMMANDQUEUE | CL_RETAINCOMMANDQUEUE | CL_RELEASECOMMANDQUEUE
  | CL_GETCOMMANDQUEUEINFO | CL_SETCOMMANDQUEUEPROPERTY | CL_CREATEBUFFER
  | CL_ENQUEUEREADBUFFER | CL_ENQUEUEWRITEBUFFER | CL_ENQUEUECOPYBUFFER | CL_RETAINMEMOBJECT
  | CL_RELEASEMEMOBJECT | CL_CREATEIMAGE2D | CL_CREATEIMAGE3D | CL_GETSUPPORTEDIMAGEFORMATS
  | CL_ENQUEUEREADIMAGE | CL_ENQUEUEWRITEIMAGE | CL_ENQUEUECOPYIMAGE
  | CL_ENQUEUECOPYIMAGETOBUFFER | CL_ENQUEUECOPYBUFFERTOIMAGE | CL_ENQUEUEMAPBUFFER
  | CL_ENQUEUEMAPIMAGE | CL_ENQUEUEUNMAPMEMOBJECT | CL_GETMEMOBJECTINFO | CL_GETIMAGEINFO
  | CL_CREATESAMPLER | CL_RETAINSAMPLER | CL_RELEASESAMPLER | CL_GETSAMPLERINFO
  | CL_CREATEPROGRAMWITHSOURCE | CL_CREATEPROGRAMWITHBINARY | CL_RETAINPROGRAM
  | CL_RELEASEPROGRAM | CL_BUILDPROGRAM | CL_UNLOADCOMPILER | CL_GETPROGRAMINFO
  | CL_GETPROGRAMBUILDINFO | CL_CREATEKERNEL | CL_CREATEKERNELSINPROGRAM | CL_RETAINKERNEL
  | CL_RELEASEKERNEL | CL_SETKERNELARG | CL_GETKERNELINFO | CL_GETKERNELWORKGROUPINFO
  | CL_ENQUEUENDRANGEKERNEL | CL_ENQUEUETASK | CL_ENQUEUENATIVEKERNEL | CL_WAITFOREVENTS
  | CL_GETEVENTINFO | CL_RETAINEVENT | CL_RELEASEEVENT | CL_ENQUEUEMARKER
  | CL_ENQUEUEWAITFOREVENTS | CL_ENQUEUEBARRIER | CL_GETEVENTPROFILINGINFO | CL_FLUSH
  | CL_FINISH

definition cl_functions :: "cl_function_t list" where
  "cl_functions = [
     CL_GETPLATFORMIDS, CL_GETPLATFORMINFO, CL_GETDEVICEIDS, CL_GETDEVICEINFO,
     CL_CREATECONTEXT, CL_CREATECONTEXTFROMTYPE, CL_RETAINCONTEXT, CL_RELEASECONTEXT,
     CL_GETCONTEXTINFO, CL_CREATECOMMANDQUEUE, CL_RETAINCOMMANDQUEUE, CL_RELEASECOMMANDQUEUE,
     CL_GETCOMMANDQUEUEINFO, CL_SETCOMMANDQUEUEPROPERTY, CL_CREATEBUFFER, CL_ENQUEUEREADBUFFER,
     CL_ENQUEUEWRITEBUFFER, CL_ENQUEUECOPYBUFFER, CL_RETAINMEMOBJECT, CL_RELEASEMEMOBJECT,
     CL_CREATEIMAGE2D, CL_CREATEIMAGE3D, CL_GETSUPPORTEDIMAGEFORMATS, CL_ENQUEUEREADIMAGE,
     CL_ENQUEUEWRITEIMAGE, CL_ENQUEUECOPYIMAGE, CL_ENQUEUECOPYIMAGETOBUFFER,
     CL_ENQUEUECOPYBUFFERTOIMAGE, CL_ENQUEUEMAPBUFFER, CL_ENQUEUEMAPIMAGE,
     CL_ENQUEUEUNMAPMEMOBJECT, CL_GETMEMOBJECTINFO, CL_GETIMAGEINFO, CL_CREATESAMPLER,
     CL_RETAINSAMPLER, CL_RELEASESAMPLER, CL_GETSAMPLERINFO, CL_CREATEPROGRAMWITHSOURCE,
     CL_CREATEPROGRAMWITHBINARY, CL_RETAINPROGRAM, CL_RELEASEPROGRAM, CL_BUILDPROGRAM,
     CL_UNLOADCOMPILER, CL_GETPROGRAMINFO, CL_GETPROGRAMBUILDINFO, CL_CREATEKERNEL,
     CL_CREATEKERNELSINPROGRAM, CL_RETAINKERNEL, CL_RELEASEKERNEL, CL_SETKERNELARG,
     CL_GETKERNELINFO, CL_GETKERNELWORKGROUPINFO, CL_ENQUEUENDRANGEKERNEL, CL_ENQUEUETASK,
     CL_ENQUEUENATIVEKERNEL, CL_WAITFOREVENTS, CL_GETEVENTINFO, CL_RETAINEVENT,
     CL_RELEASEEVENT, CL_ENQUEUEMARKER, CL_ENQUEUEWAITFOREVENTS, CL_ENQUEUEBARRIER,
     CL_GETEVENTPROFILINGINFO, CL_FLUSH, CL_FINISH
   ]"

text \<open>The enumerator with a given value.\<close>

definition cl_function_of :: "nat \<Rightarrow> cl_function_t option" where
  "cl_function_of d = (if d < length cl_functions then Some (cl_functions ! d) else None)"

fun position :: "'a \<Rightarrow> 'a list \<Rightarrow> nat" where
  "position x [] = 0"
| "position x (y # ys) = (if x = y then 0 else Suc (position x ys))"

definition cl_value :: "cl_function_t \<Rightarrow> nat" where
  "cl_value f = position f cl_functions"

section \<open>The table\<close>

record cl_function_info =
  fi_id :: cl_function_t
  fi_name :: string
  fi_argc :: nat

text \<open>The rows with their designators; a designator places its row in the array.\<close>

definition clfuninfo_rows :: "(cl_function_t \<times> cl_function_info) list" where
  "clfuninfo_rows = [
     (CL_GETPLATFORMIDS, \<lparr>fi_id = CL_GETPLATFORMIDS, fi_name = ''clGetPlatformIDs'', fi_argc = 3\<rparr>),
     (CL_GETPLATFORMINFO, \<lparr>fi_id = CL_GETPLATFORMINFO, fi_name = ''clGetPlatformInfo'', fi_argc = 5\<rparr>),
     (CL_GETDEVICEIDS, \<lparr>fi_id = CL_GETDEVICEIDS, fi_name = ''clGetDeviceIDs'', fi_argc = 5\<rparr>),
     (CL_GETDEVICEINFO, \<lparr>fi_id = CL_GETDEVICEINFO, fi_name = ''clGetDeviceInfo'', fi_argc = 5\<rparr>),
     (CL_CREATECONTEXT, \<lparr>fi_id = CL_CREATECONTEXT, fi_name = ''clCreateContext'', fi_argc = 6\<rparr>),
     (CL_CREATECONTEXTFROMTYPE, \<lparr>fi_id = CL_CREATECONTEXTFROMTYPE, fi_name = ''clCreateContextFromType'', fi_argc = 5\<rparr>),
     (CL_RETAINCONTEXT, \<lparr>fi_id = CL_RETAINCONTEXT, fi_name = ''clRetainContext'', fi_argc = 1\<rparr>),
     (CL_RELEASECONTEXT, \<lparr>fi_id = CL_RELEASECONTEXT, fi_name = ''clReleaseContext'', fi_argc = 1\<rparr>),
     (CL_GETCONTEXTINFO, \<lparr>fi_id = CL_GETCONTEXTINFO, fi_name = ''clGetContextInfo'', fi_argc = 5\<rparr>),
     (CL_CREATECOMMANDQUEUE, \<lparr>fi_id = CL_CREATECOMMANDQUEUE, fi_name = ''clCreateCommandQueue'', fi_argc = 4\<rparr>),
     (CL_RETAINCOMMANDQUEUE, \<lparr>fi_id = CL_RETAINCOMMANDQUEUE, fi_name = ''clRetainCommandQueue'', fi_argc = 1\<rparr>),
     (CL_RELEASECOMMANDQUEUE, \<lparr>fi_id = CL_RELEASECOMMANDQUEUE, fi_name = ''clReleaseCommandQueue'', fi_argc = 1\<rparr>),
     (CL_GETCOMMANDQUEUEINFO, \<lparr>fi_id = CL_GETCOMMANDQUEUEINFO, fi_name = ''clGetCommandQueueInfo'', fi_argc = 5\<rparr>),
     (CL_SETCOMMANDQUEUEPROPERTY, \<lparr>fi_id = CL_SETCOMMANDQUEUEPROPERTY, fi_name = ''clSetCommandQueueProperty'', fi_argc = 4\<rparr>),
     (CL_CREATEBUFFER, \<lparr>fi_id = CL_CREATEBUFFER, fi_name = ''clCreateBuffer'', fi_argc = 5\<rparr>),
     (CL_ENQUEUEREADBUFFER, \<lparr>fi_id = CL_ENQUEUEREADBUFFER, fi_name = ''clEnqueueReadBuffer'', fi_argc = 9\<rparr>),
     (CL_ENQUEUEWRITEBUFFER, \<lparr>fi_id = CL_ENQUEUEWRITEBUFFER, fi_name = ''clEnqueueWriteBuffer'', fi_argc = 9\<rparr>),
     (CL_ENQUEUECOPYBUFFER, \<lparr>fi_id = CL_ENQUEUECOPYBUFFER, fi_name = ''clEnqueueCopyBuffer'', fi_argc = 9\<rparr>),
     (CL_RETAINMEMOBJECT, \<lparr>fi_id = CL_RETAINMEMOBJECT, fi_name = ''clRetainMemObject'', fi_argc = 1\<rparr>),
     (CL_RELEASEMEMOBJECT, \<lparr>fi_id = CL_RELEASEMEMOBJECT, fi_name = ''clReleaseMemObject'', fi_argc = 1\<rparr>),
     (CL_CREATEIMAGE2D, \<lparr>fi_id = CL_CREATEIMAGE2D, fi_name = ''clCreateImage2D'', fi_argc = 8\<rparr>),
     (CL_CREATEIMAGE3D, \<lparr>fi_id = CL_CREATEIMAGE3D, fi_name = ''clCreateImage3D'', fi_argc = 10\<rparr>),
     (CL_GETSUPPORTEDIMAGEFORMATS, \<lparr>fi_id = CL_GETSUPPORTEDIMAGEFORMATS, fi_name = ''clGetSupportedImageFormats'', fi_argc = 6\<rparr>),
     (CL_ENQUEUEREADIMAGE, \<lparr>fi_id = CL_ENQUEUEREADIMAGE, fi_name = ''clEnqueueReadImage'', fi_argc = 11\<rparr>),
     (CL_ENQUEUEWRITEIMAGE, \<lparr>fi_id = CL_ENQUEUEWRITEIMAGE, fi_name = ''clEnqueueWriteImage'', fi_argc = 11\<rparr>),
     (CL_ENQUEUECOPYIMAGE, \<lparr>fi_id = CL_ENQUEUECOPYIMAGE, fi_name = ''clEnqueueCopyImage'', fi_argc = 9\<rparr>),
     (CL_ENQUEUECOPYIMAGETOBUFFER, \<lparr>fi_id = CL_ENQUEUECOPYIMAGETOBUFFER, fi_name = ''clEnqueueCopyImageToBuffer'', fi_argc = 9\<rparr>),
     (CL_ENQUEUECOPYBUFFERTOIMAGE, \<lparr>fi_id = CL_ENQUEUECOPYBUFFERTOIMAGE, fi_name = ''clEnqueueCopyBufferToImage'', fi_argc = 9\<rparr>),
     (CL_ENQUEUEMAPBUFFER, \<lparr>fi_id = CL_ENQUEUEMAPBUFFER, fi_name = ''clEnqueueMapBuffer'', fi_argc = 10\<rparr>),
     (CL_ENQUEUEMAPIMAGE, \<lparr>fi_id = CL_ENQUEUEMAPIMAGE, fi_name = ''clEnqueueMapImage'', fi_argc = 12\<rparr>),
     (CL_ENQUEUEUNMAPMEMOBJECT, \<lparr>fi_id = CL_ENQUEUEUNMAPMEMOBJECT, fi_name = ''clEnqueueUnmapMemObject'', fi_argc = 6\<rparr>),
     (CL_GETMEMOBJECTINFO, \<lparr>fi_id = CL_GETMEMOBJECTINFO, fi_name = ''clGetMemObjectInfo'', fi_argc = 5\<rparr>),
     (CL_GETIMAGEINFO, \<lparr>fi_id = CL_GETIMAGEINFO, fi_name = ''clGetImageInfo'', fi_argc = 5\<rparr>),
     (CL_CREATESAMPLER, \<lparr>fi_id = CL_CREATESAMPLER, fi_name = ''clCreateSampler'', fi_argc = 5\<rparr>),
     (CL_RETAINSAMPLER, \<lparr>fi_id = CL_RETAINSAMPLER, fi_name = ''clRetainSampler'', fi_argc = 1\<rparr>),
     (CL_RELEASESAMPLER, \<lparr>fi_id = CL_RELEASESAMPLER, fi_name = ''clReleaseSampler'', fi_argc = 1\<rparr>),
     (CL_GETSAMPLERINFO, \<lparr>fi_id = CL_GETSAMPLERINFO, fi_name = ''clGetSamplerInfo'', fi_argc = 5\<rparr>),
     (CL_CREATEPROGRAMWITHSOURCE, \<lparr>fi_id = CL_CREATEPROGRAMWITHSOURCE, fi_name = ''clCreateProgramWithSource'', fi_argc = 5\<rparr>),
     (CL_CREATEPROGRAMWITHBINARY, \<lparr>fi_id = CL_CREATEPROGRAMWITHBINARY, fi_name = ''clCreateProgramWithBinary'', fi_argc = 7\<rparr>),
     (CL_RETAINPROGRAM, \<lparr>fi_id = CL_RETAINPROGRAM, fi_name = ''clRetainProgram'', fi_argc = 1\<rparr>),
     (CL_RELEASEPROGRAM, \<lparr>fi_id = CL_RELEASEPROGRAM, fi_name = ''clReleaseProgram'', fi_argc = 1\<rparr>),
     (CL_BUILDPROGRAM, \<lparr>fi_id = CL_BUILDPROGRAM, fi_name = ''clBuildProgram'', fi_argc = 6\<rparr>),
     (CL_UNLOADCOMPILER, \<lparr>fi_id = CL_UNLOADCOMPILER, fi_name = ''clUnloadCompiler'', fi_argc = 0\<rparr>),
     (CL_GETPROGRAMINFO, \<lparr>fi_id = CL_GETPROGRAMINFO, fi_name = ''clGetProgramInfo'', fi_argc = 5\<rparr>),
     (CL_GETPROGRAMBUILDINFO, \<lparr>fi_id = CL_GETPROGRAMBUILDINFO, fi_name = ''clGetProgramBuildInfo'', fi_argc = 6\<rparr>),
     (CL_CREATEKERNEL, \<lparr>fi_id = CL_CREATEKERNEL, fi_name = ''clCreateKernel'', fi_argc = 3\<rparr>),
     (CL_CREATEKERNELSINPROGRAM, \<lparr>fi_id = CL_CREATEKERNELSINPROGRAM, fi_name = ''clCreateKernelsInProgram'', fi_argc = 4\<rparr>),
     (CL_RETAINKERNEL, \<lparr>fi_id = CL_RETAINKERNEL, fi_name = ''clRetainKernel'', fi_argc = 1\<rparr>),
     (CL_RELEASEKERNEL, \<lparr>fi_id = CL_RELEASEKERNEL, fi_name = ''clReleaseKernel'', fi_argc = 1\<rparr>),
     (CL_SETKERNELARG, \<lparr>fi_id = CL_SETKERNELARG, fi_name = ''clSetKernelArg'', fi_argc = 4\<rparr>),
     (CL_GETKERNELINFO, \<lparr>fi_id = CL_GETKERNELINFO, fi_name = ''clGetKernelInfo'', fi_argc = 5\<rparr>),
     (CL_GETKERNELWORKGROUPINFO, \<lparr>fi_id = CL_GETKERNELWORKGROUPINFO, fi_name = ''clGetKernelWorkGroupInfo'', fi_argc = 6\<rparr>),
     (CL_ENQUEUENDRANGEKERNEL, \<lparr>fi_id = CL_ENQUEUENDRANGEKERNEL, fi_name = ''clEnqueueNDRangeKernel'', fi_argc = 9\<rparr>),
     (CL_ENQUEUETASK, \<lparr>fi_id = CL_ENQUEUETASK, fi_name = ''clEnqueueTask'', fi_argc = 5\<rparr>),
     (CL_ENQUEUENATIVEKERNEL, \<lparr>fi_id = CL_ENQUEUENATIVEKERNEL, fi_name = ''clEnqueueNativeKernel'', fi_argc = 10\<rparr>),
     (CL_WAITFOREVENTS, \<lparr>fi_id = CL_WAITFOREVENTS, fi_name = ''clWaitForEvents'', fi_argc = 2\<rparr>),
     (CL_GETEVENTINFO, \<lparr>fi_id = CL_GETEVENTINFO, fi_name = ''clGetEventInfo'', fi_argc = 5\<rparr>),
     (CL_RETAINEVENT, \<lparr>fi_id = CL_RETAINEVENT, fi_name = ''clRetainEvent'', fi_argc = 1\<rparr>),
     (CL_RELEASEEVENT, \<lparr>fi_id = CL_RELEASEEVENT, fi_name = ''clReleaseEvent'', fi_argc = 1\<rparr>),
     (CL_ENQUEUEMARKER, \<lparr>fi_id = CL_ENQUEUEMARKER, fi_name = ''clEnqueueMarker'', fi_argc = 2\<rparr>),
     (CL_ENQUEUEWAITFOREVENTS, \<lparr>fi_id = CL_ENQUEUEWAITFOREVENTS, fi_name = ''clEnqueueWaitForEvents'', fi_argc = 3\<rparr>),
     (CL_ENQUEUEBARRIER, \<lparr>fi_id = CL_ENQUEUEBARRIER, fi_name = ''clEnqueueBarrier'', fi_argc = 1\<rparr>),
     (CL_GETEVENTPROFILINGINFO, \<lparr>fi_id = CL_GETEVENTPROFILINGINFO, fi_name = ''clGetEventProfilingInfo'', fi_argc = 5\<rparr>),
     (CL_FLUSH, \<lparr>fi_id = CL_FLUSH, fi_name = ''clFlush'', fi_argc = 1\<rparr>),
     (CL_FINISH, \<lparr>fi_id = CL_FINISH, fi_name = ''clFinish'', fi_argc = 1\<rparr>)
   ]"

text \<open>
  \<^verbatim>\<open>opencl_get_clfuninfo\<close>: a row that is not initialized has the value 0 in its
  \<^verbatim>\<open>id\<close>, which is the value of the first enumerator.
\<close>

definition opencl_get_clfuninfo :: "cl_function_t \<Rightarrow> fault + cl_function_info" where
  "opencl_get_clfuninfo f =
     (let r = (case map_of clfuninfo_rows f of
                 Some row \<Rightarrow> row
               | None \<Rightarrow> \<lparr>fi_id = CL_GETPLATFORMIDS, fi_name = [], fi_argc = 0\<rparr>)
      in rbind (c_assert (fi_id r = f)) (\<lambda>_. Inr r))"

definition MAX_ARGS :: nat where "MAX_ARGS = 32"

text \<open>Facts of the rows, checked one by one.\<close>

lemma cl_functions_UNIV: "f \<in> set cl_functions"
  by (cases f) (simp_all only: cl_functions_def list.set insert_iff simp_thms)

lemma clfuninfo_rows_designators: "map fst clfuninfo_rows = cl_functions"
  by (simp only: clfuninfo_rows_def cl_functions_def list.map fst_conv)

lemma clfuninfo_rows_ok: "list_all (\<lambda>(f, r). fi_id r = f \<and> fi_argc r \<le> 12) clfuninfo_rows"
  unfolding clfuninfo_rows_def by simp

lemma opencl_get_clfuninfo_row:
  "\<exists>r. opencl_get_clfuninfo f = Inr r \<and> fi_id r = f \<and> fi_argc r \<le> 12"
proof -
  have "f \<in> fst ` set clfuninfo_rows"
    using cl_functions_UNIV [of f] by (simp flip: clfuninfo_rows_designators)
  then obtain r where r: "map_of clfuninfo_rows f = Some r"
    by (metis map_of_eq_None_iff not_None_eq)
  with clfuninfo_rows_ok have "fi_id r = f \<and> fi_argc r \<le> 12"
    by (force simp: list_all_iff dest: map_of_SomeD)
  with r show ?thesis by (simp add: opencl_get_clfuninfo_def)
qed

lemma cl_functions_distinct: "distinct cl_functions"
  unfolding cl_functions_def by simp

lemma cl_value_of: "cl_function_of d = Some f \<Longrightarrow> cl_value f = d"
proof -
  have "distinct xs \<Longrightarrow> i < length xs \<Longrightarrow> position (xs ! i) xs = i" for xs :: "cl_function_t list" and i
    by (induction xs arbitrary: i) (auto simp: nth_Cons split: nat.splits)
  with cl_functions_distinct show "cl_function_of d = Some f \<Longrightarrow> cl_value f = d"
    by (auto simp: cl_function_of_def cl_value_def split: if_splits)
qed

lemma cl_function_of_value: "cl_function_of (cl_value f) = Some f"
proof -
  obtain d where "d < length cl_functions" "cl_functions ! d = f"
    using cl_functions_UNIV [of f] by (auto simp: in_set_conv_nth)
  then have "cl_function_of d = Some f" by (simp add: cl_function_of_def)
  with cl_value_of [OF this] show ?thesis by simp
qed

lemma length_cl_functions: "length cl_functions = 65"
  by (simp add: cl_functions_def)

end
