(* ===== verification/Key_Set.thy ===== *)
theory Key_Set
  imports Rb_Insert Rb_Delete Rb_Traverse
begin

text \<open>
  The keyed set of \<^verbatim>\<open>common/set.c\<close> and \<^verbatim>\<open>include/set.h\<close>: a red-black tree of pointers to
  heap-allocated items. The item store is explicit, so the model shows which pointers in the
  tree are still valid. \<open>cs_depth\<close> is the number of nested \<^verbatim>\<open>lock_wait\<close> calls of the thread
  that holds the set's lock (the lock itself is the theory \<open>Rec_Lock\<close>). Allocation is taken
  to succeed, and an address is not reused while the set lives.
\<close>

section \<open>State\<close>

record 'v item =
  it_key :: global_id
  it_data :: 'v

text \<open>An \<^verbatim>\<open>item_t\<close>: the address of a stack variable (a key only) or of a heap block.\<close>

datatype item_ref = On_Stack global_id | On_Heap nat

type_synonym 'v item_heap = "nat \<rightharpoonup> 'v item"

record 'v cset =
  cs_depth :: nat
  cs_tree :: "item_ref rb_tree"
  cs_trav :: "item_ref rb_traverser"
  cs_heap :: "'v item_heap"
  cs_brk :: nat

fun deref_key :: "'v item_heap \<Rightarrow> item_ref \<Rightarrow> fault + global_id" where
  "deref_key h (On_Stack k) = Inr k"
| "deref_key h (On_Heap a) =
     (case h a of None \<Rightarrow> Inl Use_After_Free | Some it \<Rightarrow> Inr (it_key it))"

fun deref_data :: "'v item_heap \<Rightarrow> item_ref \<Rightarrow> fault + 'v" where
  "deref_data h (On_Stack k) = Inl Null_Deref"
| "deref_data h (On_Heap a) =
     (case h a of None \<Rightarrow> Inl Use_After_Free | Some it \<Rightarrow> Inr (it_data it))"

fun item_free :: "'v item_heap \<Rightarrow> item_ref \<Rightarrow> fault + 'v item_heap" where
  "item_free h (On_Stack k) = Inl Use_After_Free"
| "item_free h (On_Heap a) =
     (case h a of None \<Rightarrow> Inl Use_After_Free | Some it \<Rightarrow> Inr (h(a := None)))"

definition comparison_func :: "'v item_heap \<Rightarrow> item_ref \<Rightarrow> item_ref \<Rightarrow> fault + int" where
  "comparison_func h a b =
     rbind (deref_key h a) (\<lambda>ka.
     rbind (deref_key h b) (\<lambda>kb.
     Inr (if ka > kb then 1 else if ka < kb then -1 else 0)))"

section \<open>Operations\<close>

definition set_lock :: "'v cset \<Rightarrow> 'v cset" where
  "set_lock s = s\<lparr>cs_depth := cs_depth s + 1\<rparr>"

text \<open>\<^verbatim>\<open>lock_post\<close> asserts that the caller owns the lock.\<close>

definition set_unlock :: "'v cset \<Rightarrow> fault + 'v cset" where
  "set_unlock s =
     rbind (c_assert (cs_depth s > 0)) (\<lambda>_. Inr (s\<lparr>cs_depth := cs_depth s - 1\<rparr>))"

definition set_create :: "'v cset" where
  "set_create =
     \<lparr>cs_depth = 0, cs_tree = rb_create,
      cs_trav = \<lparr>trav_init = False, trav_stack = [], trav_p = NULL\<rparr>,
      cs_heap = Map.empty, cs_brk = 1\<rparr>"

text \<open>The data of an insertion that fails is not stored; the returned flag tells.\<close>

definition set_insert :: "'v cset \<Rightarrow> global_id \<Rightarrow> 'v \<Rightarrow> fault + ('v cset \<times> bool)" where
  "set_insert s key data =
     (let item = On_Heap (cs_brk s);
          s1 = set_lock (s\<lparr>cs_heap := (cs_heap s)(cs_brk s \<mapsto> \<lparr>it_key = key, it_data = data\<rparr>),
                           cs_brk := cs_brk s + 1\<rparr>)
      in rbind (rb_insert (comparison_func (cs_heap s1)) (cs_tree s1) item) (\<lambda>(tree, r).
         rbind (set_unlock (s1\<lparr>cs_tree := tree\<rparr>)) (\<lambda>s2.
         case r of
           Some old \<Rightarrow> rbind (item_free (cs_heap s2) old) (\<lambda>h. Inr (s2\<lparr>cs_heap := h\<rparr>, False))
         | None \<Rightarrow> Inr (s2, True))))"

definition set_remove :: "'v cset \<Rightarrow> global_id \<Rightarrow> fault + ('v cset \<times> bool)" where
  "set_remove s key =
     (let s1 = set_lock s
      in rbind (rb_delete (comparison_func (cs_heap s1)) (cs_tree s1) (On_Stack key)) (\<lambda>(tree, r).
         rbind (set_unlock (s1\<lparr>cs_tree := tree\<rparr>)) (\<lambda>s2.
         case r of
           Some old \<Rightarrow> rbind (item_free (cs_heap s2) old) (\<lambda>h. Inr (s2\<lparr>cs_heap := h\<rparr>, True))
         | None \<Rightarrow> Inr (s2, False))))"

text \<open>The lock is released again before the item is read; the set itself is unchanged.\<close>

definition set_find :: "'v cset \<Rightarrow> global_id \<Rightarrow> fault + 'v option" where
  "set_find s key =
     (let s1 = set_lock s
      in rbind (rb_find (comparison_func (cs_heap s1)) (cs_tree s1) (On_Stack key)) (\<lambda>r.
         rbind (set_unlock s1) (\<lambda>s2.
         case r of
           Some it \<Rightarrow> rbind (deref_data (cs_heap s2) it) (\<lambda>d. Inr (Some d))
         | None \<Rightarrow> Inr None)))"

definition set_start :: "'v cset \<Rightarrow> 'v cset" where
  "set_start s = (set_lock s)\<lparr>cs_trav := rb_init_traverser (cs_trav s)\<rparr>"

definition set_finish :: "'v cset \<Rightarrow> fault + 'v cset" where
  "set_finish s = set_unlock s"

definition set_next :: "'v cset \<Rightarrow> fault + ('v cset \<times> 'v option)" where
  "set_next s =
     (let s1 = set_lock s
      in rbind (rb_traverse (cs_tree s1) (cs_trav s1)) (\<lambda>(tr, r).
         rbind (set_unlock (s1\<lparr>cs_trav := tr\<rparr>)) (\<lambda>s2.
         case r of
           None \<Rightarrow> Inr (s2, None)
         | Some it \<Rightarrow> rbind (deref_data (cs_heap s2) it) (\<lambda>d. Inr (s2, Some d)))))"

definition set_count :: "'v cset \<Rightarrow> int" where
  "set_count s = rb_count (cs_tree s)"

text \<open>
  \<^verbatim>\<open>rb_destroy\<close> is called without a free function: the nodes go, the items stay allocated.
  The result is the store of items nothing points to any more.
\<close>

definition set_destroy :: "'v cset \<Rightarrow> fault + 'v item_heap" where
  "set_destroy s =
     (let s1 = set_lock s
      in rbind (rb_destroy (cs_tree s1)) (\<lambda>_.
         rbind (set_unlock s1) (\<lambda>s2. Inr (cs_heap s2))))"

section \<open>The loop over a set\<close>

text \<open>
  \<^verbatim>\<open>while ((x = set_next(set)) != NULL) body\<close>: the body returns whether it breaks out of the
  loop. Each call of \<^verbatim>\<open>set_next\<close> consumes part of what the traverser has pending, which
  makes the loop terminate on any tree.
\<close>

definition trav_weight :: "'v cset \<Rightarrow> nat" where
  "trav_weight s =
     (if \<not> trav_init (cs_trav s) then Suc (node_weight (rb_root (cs_tree s)))
      else walk_weight (trav_p (cs_trav s) # trav_stack (cs_trav s)))"

lemma trav_down_weight: "trav_down st t = Inr st' \<Longrightarrow> walk_weight st' \<le> node_weight t + walk_weight st"
  by (induction st t rule: trav_down.induct) (fastforce split: if_splits)+

lemma rb_traverse_weight:
  assumes "rb_traverse tree tr = Inr (tr', Some d)"
  shows "trav_init tr' \<and> walk_weight (trav_p tr' # trav_stack tr') <
    (if \<not> trav_init tr then Suc (node_weight (rb_root tree))
     else walk_weight (trav_p tr # trav_stack tr))"
proof -
  have *: "trav_init tr' \<and> walk_weight (trav_p tr' # trav_stack tr') \<le> node_weight p + walk_weight st"
    if "rbind (trav_down st p) (\<lambda>st'. case st' of
       [] \<Rightarrow> Inr (tr\<lparr>trav_init := False, trav_stack := [], trav_p := NULL\<rparr>, None)
     | NULL # st'' \<Rightarrow> Inl Null_Deref
     | Node d l r c # st'' \<Rightarrow>
         Inr (tr\<lparr>trav_init := True, trav_stack := st'', trav_p := Node d l r c\<rparr>, Some d)) =
       Inr (tr', Some d)" for p st
  proof -
    from that obtain st' where d: "trav_down st p = Inr st'" by (auto simp: fault_simps)
    show ?thesis
    proof (cases st')
      case (Cons n st'')
      then show ?thesis using that d trav_down_weight [OF d] by (cases n) auto
    qed (use that d in simp)
  qed
  show ?thesis
  proof (cases "trav_init tr")
    case False
    then show ?thesis using assms * [of "[]" "rb_root tree"] by (simp add: rb_traverse_def)
  next
    case True
    then show ?thesis using assms * [of "trav_stack tr"]
      by (cases "trav_p tr") (auto simp: rb_traverse_def less_Suc_eq_le)
  qed
qed

lemma set_next_weight:
  assumes "set_next s = Inr (s', Some d)"
  shows "trav_weight s' < trav_weight s"
proof -
  obtain tr it where tr: "rb_traverse (cs_tree s) (cs_trav s) = Inr (tr, Some it)"
    and s': "cs_trav s' = tr" "cs_tree s' = cs_tree s"
    using assms
    by (auto simp: set_next_def set_lock_def set_unlock_def fault_simps Let_def split: option.splits)
  from rb_traverse_weight [OF tr] s' show ?thesis by (simp add: trav_weight_def)
qed

function set_loop ::
  "('v \<Rightarrow> 'b \<Rightarrow> fault + (bool \<times> 'b)) \<Rightarrow> 'v cset \<Rightarrow> 'b \<Rightarrow> fault + ('v cset \<times> 'b)"
where
  "set_loop body s b =
     rbind (set_next s) (\<lambda>(s', r).
     case r of
       None \<Rightarrow> Inr (s', b)
     | Some x \<Rightarrow>
         rbind (body x b) (\<lambda>(brk, b').
         if brk then Inr (s', b') else set_loop body s' b'))"
  by pat_completeness auto
termination
  by (relation "measure (\<lambda>(body, s, b). trav_weight s)") (auto dest: set_next_weight)

declare set_loop.simps [simp del]

text \<open>\<^verbatim>\<open>set_start\<close>, the loop, \<^verbatim>\<open>set_finish\<close>.\<close>

definition set_foreach ::
  "('v \<Rightarrow> 'b \<Rightarrow> fault + (bool \<times> 'b)) \<Rightarrow> 'v cset \<Rightarrow> 'b \<Rightarrow> fault + ('v cset \<times> 'b)"
where
  "set_foreach body s b =
     rbind (set_loop body (set_start s) b) (\<lambda>(s', b').
     rbind (set_finish s') (\<lambda>s''. Inr (s'', b')))"

text \<open>The loop that stops at the first element with a property, as most callers write it.\<close>

definition set_search :: "('v \<Rightarrow> bool) \<Rightarrow> 'v cset \<Rightarrow> fault + 'v option" where
  "set_search P s =
     rbind (set_foreach (\<lambda>x b. Inr (P x, if P x then Some x else None)) s None)
       (\<lambda>(s', r). Inr r)"

section \<open>The abstract map\<close>

fun set_key :: "'v item_heap \<Rightarrow> item_ref \<Rightarrow> global_id" where
  "set_key h (On_Stack k) = k"
| "set_key h (On_Heap a) = it_key (the (h a))"

fun set_val :: "'v item_heap \<Rightarrow> item_ref \<Rightarrow> 'v" where
  "set_val h (On_Heap a) = it_data (the (h a))"
| "set_val h (On_Stack k) = undefined"

fun item_live :: "'v item_heap \<Rightarrow> item_ref \<Rightarrow> bool" where
  "item_live h (On_Stack k) \<longleftrightarrow> True"
| "item_live h (On_Heap a) \<longleftrightarrow> h a \<noteq> None"

definition set_refs :: "'v cset \<Rightarrow> item_ref list" where
  "set_refs s = inorder (rb_root (cs_tree s))"

definition set_entries :: "'v cset \<Rightarrow> (global_id \<times> 'v) list" where
  "set_entries s = map (\<lambda>r. (set_key (cs_heap s) r, set_val (cs_heap s) r)) (set_refs s)"

definition set_map :: "'v cset \<Rightarrow> global_id \<rightharpoonup> 'v" where
  "set_map s = map_of (set_entries s)"

definition set_elems :: "'v cset \<Rightarrow> 'v list" where
  "set_elems s = map snd (set_entries s)"

text \<open>
  Well-formedness: the tree satisfies the red-black invariant under the keys of the items,
  and its pointers are exactly the live items.
\<close>

definition set_wf :: "'v cset \<Rightarrow> bool" where
  "set_wf s \<longleftrightarrow>
     rb_inv (set_key (cs_heap s)) (cs_tree s) \<and>
     set (set_refs s) = On_Heap ` dom (cs_heap s) \<and>
     (\<forall>a\<in>dom (cs_heap s). a < cs_brk s)"

definition set_room :: "'v cset \<Rightarrow> bool" where
  "set_room s \<longleftrightarrow> set_count s \<le> 65534"

interpretation set_order:
  rb_item_order "comparison_func h" "set_key h" "item_live h" for h :: "'v item_heap"
proof
  fix i a :: item_ref
  show "\<exists>d. comparison_func h i a = Inr d" if "item_live h i" "item_live h a"
    using that by (cases i; cases a) (auto simp: comparison_func_def)
  show "d < 0 \<longleftrightarrow> set_key h i < set_key h a" if "item_live h i" "item_live h a" "comparison_func h i a = Inr d" for d
    using that by (cases i; cases a) (auto simp: comparison_func_def fault_simps split: option.splits if_splits)
  show "d > 0 \<longleftrightarrow> set_key h a < set_key h i" if "item_live h i" "item_live h a" "comparison_func h i a = Inr d" for d
    using that by (cases i; cases a) (auto simp: comparison_func_def fault_simps split: option.splits if_splits)
qed

end
