(* ===== verification/Set_Laws.thy ===== *)
theory Set_Laws
  imports Key_Set
begin

text \<open>
  The laws of the keyed set: on a well-formed set within its capacity the operations of
  \<open>Key_Set\<close> are those of a finite map whose entries a traversal delivers in the order of
  the keys.
\<close>

section \<open>Well-formed sets\<close>

lemma rb_inv_cong:
  assumes "\<And>x. x \<in> set (inorder (rb_root tree)) \<Longrightarrow> key x = key' x"
  shows "rb_inv key tree \<longleftrightarrow> rb_inv key' tree"
proof -
  have "map key (inorder (rb_root tree)) = map key' (inorder (rb_root tree))"
    using assms by simp
  then show ?thesis unfolding rb_inv_def rb_sorted_def by (simp only:)
qed

lemma set_wfD:
  assumes "set_wf s"
  shows "rb_inv (set_key (cs_heap s)) (cs_tree s)"
    and "set (set_refs s) = On_Heap ` dom (cs_heap s)"
    and "a \<in> dom (cs_heap s) \<Longrightarrow> a < cs_brk s"
  using assms by (auto simp: set_wf_def)

lemma set_wf_ref:
  assumes "set_wf s" and "r \<in> set (inorder (rb_root (cs_tree s)))"
  obtains a it where "r = On_Heap a" and "cs_heap s a = Some it" and "a < cs_brk s"
proof -
  from set_wfD(2) [OF assms(1)] assms(2) obtain a it where
    a: "r = On_Heap a" "cs_heap s a = Some it" by (auto simp: set_refs_def)
  with set_wfD(3) [OF assms(1)] show thesis using that by (auto simp: dom_def)
qed

lemma set_wf_live: "set_wf s \<Longrightarrow> \<forall>r\<in>set (inorder (rb_root (cs_tree s))). item_live (cs_heap s) r"
  by (auto elim: set_wf_ref)

lemma set_wf_sorted:
  assumes "set_wf s"
  shows "sorted_wrt (<) (map (set_key (cs_heap s)) (inorder (rb_root (cs_tree s))))"
  using set_wfD(1) [OF assms] by (simp add: rb_inv_def rb_sorted_def)

lemma set_entries_keys: "map fst (set_entries s) = map (set_key (cs_heap s)) (set_refs s)"
  by (simp add: set_entries_def)

lemma set_entries_sorted: "set_wf s \<Longrightarrow> sorted_wrt (<) (map fst (set_entries s))"
  using set_wf_sorted by (auto simp: set_entries_keys set_refs_def)

lemma set_map_Some: "set_wf s \<Longrightarrow> set_map s k = Some v \<longleftrightarrow> (k, v) \<in> set (set_entries s)"
  unfolding set_map_def
  by (rule map_of_eq_Some_iff) (rule sorted_wrt_less_distinct [OF set_entries_sorted])

lemma set_map_dom: "dom (set_map s) = fst ` set (set_entries s)"
  by (simp add: set_map_def dom_map_of_conv_image_fst)

lemma set_map_new:
  "k \<notin> dom (set_map s) \<Longrightarrow> \<forall>r\<in>set (inorder (rb_root (cs_tree s))). set_key (cs_heap s) r \<noteq> k"
  by (auto simp: set_map_dom set_entries_def set_refs_def image_image)

lemma set_map_old:
  assumes "set_map s k = Some v"
  obtains r where "r \<in> set (inorder (rb_root (cs_tree s)))" and "set_key (cs_heap s) r = k"
    and "set_val (cs_heap s) r = v"
  using map_of_SomeD [OF assms [unfolded set_map_def]]
  by (auto simp: set_entries_def set_refs_def)

lemma set_count_entries: "set_wf s \<Longrightarrow> set_count s = int (length (set_entries s))"
  using set_wfD(1) by (auto simp: set_count_def rb_count_def rb_inv_def set_entries_def set_refs_def)

lemma set_room_tree: "set_room s \<longleftrightarrow> rb_room (cs_tree s)"
  by (simp add: set_room_def set_count_def rb_count_def rb_room_def)

lemma set_elems_ran: "set_wf s \<Longrightarrow> set (set_elems s) = ran (set_map s)"
  by (force simp: set_elems_def ran_def set_map_Some)

section \<open>Creation\<close>

lemma set_create_wf: "set_wf set_create" "set_map set_create = Map.empty" "set_entries set_create = []"
  by (simp_all add: set_wf_def set_create_def rb_create_def rb_inv_def rb_sorted_def
      set_refs_def set_map_def set_entries_def rb_shape_def)

section \<open>Insertion\<close>

text \<open>The set with the new item allocated, and the item of a fresh key linked in.\<close>

lemma set_key_alloc:
  assumes "set_wf s" and "r \<in> set (inorder (rb_root (cs_tree s)))"
  shows "set_key ((cs_heap s)(cs_brk s \<mapsto> it)) r = set_key (cs_heap s) r"
    and "set_val ((cs_heap s)(cs_brk s \<mapsto> it)) r = set_val (cs_heap s) r"
    and "item_live ((cs_heap s)(cs_brk s \<mapsto> it)) r"
  using assms by (auto elim!: set_wf_ref)

lemma set_insert_new:
  assumes wf: "set_wf s" and room: "set_room s" and new: "k \<notin> dom (set_map s)"
  shows "\<exists>s'. set_insert s k v = Inr (s', True) \<and> set_wf s' \<and> cs_depth s' = cs_depth s \<and>
    set_entries s' =
      filter (\<lambda>e. fst e < k) (set_entries s) @ (k, v) # filter (\<lambda>e. k < fst e) (set_entries s)"
proof -
  let ?h = "(cs_heap s)(cs_brk s \<mapsto> \<lparr>it_key = k, it_data = v\<rparr>)" and ?item = "On_Heap (cs_brk s)"
  let ?refs = "inorder (rb_root (cs_tree s))"
  note alloc = set_key_alloc [OF wf, where it = "\<lparr>it_key = k, it_data = v\<rparr>"]
  have inv: "rb_inv (set_key ?h) (cs_tree s)"
    using set_wfD(1) [OF wf] by (subst rb_inv_cong [OF alloc(1)])
  have "\<forall>r\<in>set ?refs. item_live ?h r" "\<forall>r\<in>set ?refs. set_key ?h r \<noteq> set_key ?h ?item"
    using alloc set_map_new [OF new] by auto
  from set_order.rb_probe_new [OF inv this(1) room [unfolded set_room_tree] _ this(2)]
  obtain tree where probe: "rb_probe (comparison_func ?h) (cs_tree s) ?item = Inr (tree, ?item)"
    and inv': "rb_inv (set_key ?h) tree"
    and ino: "inorder (rb_root tree) =
      filter (\<lambda>x. set_key ?h x < k) ?refs @ ?item # filter (\<lambda>x. k < set_key ?h x) ?refs"
    by auto
  let ?s = "s\<lparr>cs_heap := ?h, cs_brk := cs_brk s + 1, cs_tree := tree\<rparr>"
  have "set (inorder (rb_root tree)) = insert ?item (set ?refs)"
    using ino set_map_new [OF new] alloc(1) by (auto simp: not_less_iff_gr_or_eq)
  then have "set_wf ?s"
    using inv' set_wfD(2,3) [OF wf]
    by (auto simp: set_wf_def set_refs_def less_Suc_eq)
  moreover have "set_insert s k v = Inr (?s, True)"
    using probe by (simp add: set_insert_def set_lock_def set_unlock_def rb_insert_def)
  moreover have "set_entries ?s =
      filter (\<lambda>e. fst e < k) (set_entries s) @ (k, v) # filter (\<lambda>e. k < fst e) (set_entries s)"
    using alloc by (simp add: set_entries_def set_refs_def ino filter_map o_def cong: filter_cong map_cong)
  ultimately show ?thesis by auto
qed

text \<open>
  On a key that is present \<^verbatim>\<open>rb_insert\<close> returns the item already in the tree, which
  \<^verbatim>\<open>set_insert\<close> then frees: the new item leaks and the tree keeps a dangling pointer.
\<close>

lemma set_insert_old:
  assumes wf: "set_wf s" and room: "set_room s" and old: "set_map s k = Some d"
  shows "\<exists>s' a. set_insert s k v = Inr (s', False) \<and> cs_tree s' = cs_tree s \<and>
    On_Heap a \<in> set (set_refs s) \<and> set_key (cs_heap s) (On_Heap a) = k \<and>
    cs_heap s' = (cs_heap s)(cs_brk s \<mapsto> \<lparr>it_key = k, it_data = v\<rparr>, a := None)"
proof -
  let ?h = "(cs_heap s)(cs_brk s \<mapsto> \<lparr>it_key = k, it_data = v\<rparr>)" and ?item = "On_Heap (cs_brk s)"
  let ?refs = "inorder (rb_root (cs_tree s))"
  note alloc = set_key_alloc [OF wf, where it = "\<lparr>it_key = k, it_data = v\<rparr>"]
  from old obtain r where r: "r \<in> set ?refs" "set_key (cs_heap s) r = k" by (rule set_map_old)
  from wf r(1) obtain a it where a: "r = On_Heap a" "cs_heap s a = Some it" "a < cs_brk s"
    by (rule set_wf_ref)
  have inv: "rb_inv (set_key ?h) (cs_tree s)"
    using set_wfD(1) [OF wf] by (subst rb_inv_cong [OF alloc(1)])
  have "\<forall>r\<in>set ?refs. item_live ?h r" using alloc(3) by blast
  from set_order.rb_probe_present [OF inv this room [unfolded set_room_tree] _ r(1)]
  have "rb_probe (comparison_func ?h) (cs_tree s) ?item = Inr (cs_tree s, r)"
    using alloc(1) [OF r(1)] r(2) by simp
  then show ?thesis
    using a r by (auto simp: set_insert_def set_lock_def set_unlock_def rb_insert_def set_refs_def)
qed

lemma set_insert_old_find:
  assumes wf: "set_wf s" and room: "set_room s" and old: "set_map s k = Some d"
  shows "\<exists>s'. set_insert s k v = Inr (s', False) \<and> \<not> set_wf s'"
proof -
  from set_insert_old [OF assms, of v] obtain s' a where
    ins: "set_insert s k v = Inr (s', False)" and tree: "cs_tree s' = cs_tree s"
    and a: "On_Heap a \<in> set (set_refs s)"
    and h: "cs_heap s' = (cs_heap s)(cs_brk s \<mapsto> \<lparr>it_key = k, it_data = v\<rparr>, a := None)"
    by blast
  have "On_Heap a \<in> set (set_refs s') - On_Heap ` dom (cs_heap s')"
    using a h tree by (auto simp: set_refs_def)
  then have "\<not> set_wf s'" using set_wfD(2) by blast
  with ins show ?thesis by blast
qed

section \<open>Removal\<close>

lemma set_remove_absent:
  assumes wf: "set_wf s" and room: "set_room s" and new: "k \<notin> dom (set_map s)"
  shows "set_remove s k = Inr (s, False)"
proof -
  let ?refs = "inorder (rb_root (cs_tree s))"
  from set_map_new [OF new] have "\<forall>r\<in>set ?refs. set_key (cs_heap s) r \<noteq> set_key (cs_heap s) (On_Stack k)"
    by simp
  from set_order.rb_delete_absent [OF set_wfD(1) [OF wf] set_wf_live [OF wf]
      room [unfolded set_room_tree] _ this]
  show ?thesis by (simp add: set_remove_def set_lock_def set_unlock_def)
qed

lemma set_remove_present:
  assumes wf: "set_wf s" and room: "set_room s" and old: "set_map s k = Some v"
  shows "\<exists>s'. set_remove s k = Inr (s', True) \<and> set_wf s' \<and> cs_depth s' = cs_depth s \<and>
    set_entries s' = filter (\<lambda>e. fst e \<noteq> k) (set_entries s)"
proof -
  let ?h = "cs_heap s" and ?refs = "inorder (rb_root (cs_tree s))"
  from old obtain r where r: "r \<in> set ?refs" "set_key ?h r = k" by (rule set_map_old)
  from wf r(1) obtain a it where a: "r = On_Heap a" "?h a = Some it" "a < cs_brk s"
    by (rule set_wf_ref)
  from set_order.rb_delete_present [OF set_wfD(1) [OF wf] set_wf_live [OF wf]
      room [unfolded set_room_tree] _ r(1), of "On_Stack k"] r(2)
  obtain tree where del: "rb_delete (comparison_func ?h) (cs_tree s) (On_Stack k) = Inr (tree, Some r)"
    and inv: "rb_inv (set_key ?h) tree"
    and ino: "inorder (rb_root tree) = filter (\<lambda>x. set_key ?h x \<noteq> k) ?refs"
    by auto
  let ?s = "s\<lparr>cs_heap := ?h(a := None), cs_tree := tree\<rparr>"
  have same: "x = r" if "x \<in> set ?refs" "set_key ?h x = k" for x
    using that r sorted_wrt_less_distinct [OF set_wf_sorted [OF wf]]
    by (auto simp: distinct_map dest: inj_onD)
  have eq: "set_key (?h(a := None)) x = set_key ?h x" "set_val (?h(a := None)) x = set_val ?h x"
    if "x \<in> set (inorder (rb_root tree))" for x
  proof -
    have x: "x \<in> set ?refs" "x \<noteq> r" using that ino r by auto
    from wf x(1) obtain a' where "x = On_Heap a'" by (rule set_wf_ref)
    with x(2) a(1) show "set_key (?h(a := None)) x = set_key ?h x"
      "set_val (?h(a := None)) x = set_val ?h x" by simp_all
  qed
  have "rb_inv (set_key (?h(a := None))) tree"
    using inv by (subst rb_inv_cong [OF eq(1)])
  moreover have "set (inorder (rb_root tree)) = set ?refs - {r}"
    unfolding ino set_filter using r same by blast
  ultimately have "set_wf ?s"
    using set_wfD(2,3) [OF wf] a(1) by (auto simp: set_wf_def set_refs_def)
  moreover have "set_remove s k = Inr (?s, True)"
    using del a by (simp add: set_remove_def set_lock_def set_unlock_def)
  moreover have "set_entries ?s = filter (\<lambda>e. fst e \<noteq> k) (set_entries s)"
  proof -
    have "set_entries ?s = map (\<lambda>x. (set_key ?h x, set_val ?h x)) (inorder (rb_root tree))"
      using eq by (simp add: set_entries_def set_refs_def)
    then show ?thesis by (simp add: set_entries_def set_refs_def ino filter_map o_def)
  qed
  ultimately show ?thesis by auto
qed

section \<open>Lookup\<close>

lemma find_map_of:
  "map_of (map (\<lambda>x. (f x, g x)) xs) k = map_option g (find (\<lambda>x. f x = k) xs)"
  by (induction xs) auto

lemma set_find_correct:
  assumes wf: "set_wf s"
  shows "set_find s k = Inr (set_map s k)"
proof -
  let ?refs = "inorder (rb_root (cs_tree s))"
  have "rb_find (comparison_func (cs_heap s)) (cs_tree s) (On_Stack k) =
      Inr (find (\<lambda>x. set_key (cs_heap s) x = k) ?refs)"
    using set_order.rb_find_node_correct [OF _ set_wf_live [OF wf], of "On_Stack k"] set_wf_sorted [OF wf]
    by (simp add: rb_find_def set_order.srt_def)
  moreover have "set_map s k = map_option (set_val (cs_heap s)) (find (\<lambda>x. set_key (cs_heap s) x = k) ?refs)"
    by (simp add: set_map_def set_entries_def set_refs_def find_map_of)
  moreover have "\<exists>a it. r = On_Heap a \<and> cs_heap s a = Some it"
    if "find (\<lambda>x. set_key (cs_heap s) x = k) ?refs = Some r" for r
  proof -
    have "r \<in> set ?refs" using that by (auto simp: find_Some_iff)
    with wf show ?thesis by (auto elim!: set_wf_ref)
  qed
  ultimately show ?thesis
    by (cases "find (\<lambda>x. set_key (cs_heap s) x = k) ?refs")
       (auto simp: set_find_def set_lock_def set_unlock_def)
qed

section \<open>Traversal\<close>

lemma set_next_correct:
  assumes wf: "set_wf s" and ok: "trav_ok (cs_tree s) (cs_trav s)"
  shows "\<exists>tr. trav_ok (cs_tree s) tr \<and>
    (case trav_rest (cs_tree s) (cs_trav s) of
       [] \<Rightarrow> set_next s = Inr (s\<lparr>cs_trav := tr\<rparr>, None)
     | x # xs \<Rightarrow> (x \<in> set (set_refs s) \<longrightarrow>
         set_next s = Inr (s\<lparr>cs_trav := tr\<rparr>, Some (set_val (cs_heap s) x)) \<and>
         trav_rest (cs_tree s) tr = xs))"
proof -
  from rb_traverse_step [OF ok] obtain tr where tr: "trav_ok (cs_tree s) tr"
    "case trav_rest (cs_tree s) (cs_trav s) of
       [] \<Rightarrow> rb_traverse (cs_tree s) (cs_trav s) = Inr (tr, None) \<and> \<not> trav_init tr
     | x # xs \<Rightarrow> rb_traverse (cs_tree s) (cs_trav s) = Inr (tr, Some x) \<and> trav_init tr \<and>
         trav_rest (cs_tree s) tr = xs" by blast
  show ?thesis
  proof (cases "trav_rest (cs_tree s) (cs_trav s)")
    case Nil
    with tr show ?thesis
      by (intro exI [of _ tr]) (simp add: set_next_def set_lock_def set_unlock_def)
  next
    case (Cons x xs)
    with tr wf show ?thesis
      by (intro exI [of _ tr])
         (auto simp: set_next_def set_lock_def set_unlock_def set_refs_def elim!: set_wf_ref)
  qed
qed

text \<open>What a loop body does on a list of elements.\<close>

fun list_loop :: "('v \<Rightarrow> 'b \<Rightarrow> fault + (bool \<times> 'b)) \<Rightarrow> 'v list \<Rightarrow> 'b \<Rightarrow> fault + 'b" where
  "list_loop body [] b = Inr b"
| "list_loop body (x # xs) b =
     rbind (body x b) (\<lambda>(brk, b'). if brk then Inr b' else list_loop body xs b')"

lemma set_loop_correct:
  assumes "set_wf s" and "trav_ok (cs_tree s) (cs_trav s)"
    and "trav_rest (cs_tree s) (cs_trav s) = refs" and "set refs \<subseteq> set (set_refs s)"
  shows "\<exists>tr. set_loop body s b =
    rbind (list_loop body (map (set_val (cs_heap s)) refs) b) (\<lambda>b'. Inr (s\<lparr>cs_trav := tr\<rparr>, b'))"
  using assms
proof (induction refs arbitrary: s b)
  case Nil
  from set_next_correct [OF Nil(1,2)] Nil(3) show ?case
    by (subst set_loop.simps) auto
next
  case (Cons x refs)
  from set_next_correct [OF Cons.prems(1,2)] Cons.prems(3,4) obtain tr where
    tr: "trav_ok (cs_tree s) tr" "trav_rest (cs_tree s) tr = refs"
      "set_next s = Inr (s\<lparr>cs_trav := tr\<rparr>, Some (set_val (cs_heap s) x))" by auto
  let ?s = "s\<lparr>cs_trav := tr\<rparr>"
  have "set_wf ?s" "set refs \<subseteq> set (set_refs ?s)"
    using Cons.prems by (simp_all add: set_wf_def set_refs_def)
  then have IH: "\<exists>tr. set_loop body ?s b' =
    rbind (list_loop body (map (set_val (cs_heap s)) refs) b') (\<lambda>b'. Inr (s\<lparr>cs_trav := tr\<rparr>, b'))" for b'
    using Cons.IH [of ?s b'] tr by simp
  show ?case
  proof (cases "body (set_val (cs_heap s) x) b")
    case (Inr r)
    obtain brk b' where r: "r = (brk, b')" by (cases r)
    from IH [of b'] show ?thesis
      by (subst set_loop.simps) (auto simp: tr(3) Inr r)
  qed (subst set_loop.simps, simp add: tr(3))
qed

lemma set_foreach_correct:
  assumes wf: "set_wf s" and room: "set_room s"
  shows "\<exists>tr. set_foreach body s b =
    rbind (list_loop body (set_elems s) b) (\<lambda>b'. Inr (s\<lparr>cs_trav := tr\<rparr>, b'))"
proof -
  have "rb_height (rb_root (cs_tree s)) \<le> 30"
    using set_wfD(1) [OF wf] room
    by (intro rb_shape_height) (auto simp: rb_inv_def set_room_def set_count_def rb_count_def)
  then have ok: "trav_ok (cs_tree s) (rb_init_traverser (cs_trav s))"
    by (intro trav_ok_init) (simp add: RB_MAX_HEIGHT_def)
  let ?s = "set_start s"
  have "set_wf ?s" "trav_ok (cs_tree ?s) (cs_trav ?s)" "trav_rest (cs_tree ?s) (cs_trav ?s) = set_refs s"
    "set (set_refs s) \<subseteq> set (set_refs ?s)"
    using wf ok by (simp_all add: set_start_def set_lock_def set_wf_def set_refs_def trav_rest_init)
  from set_loop_correct [OF this, of body b] show ?thesis
    by (cases "list_loop body (set_elems s) b")
       (auto simp: set_foreach_def set_elems_def set_entries_def o_def set_finish_def set_unlock_def
         set_start_def set_lock_def)
qed

lemma list_loop_search:
  "list_loop (\<lambda>x b. Inr (P x, if P x then Some x else None)) xs None = Inr (find P xs)"
  by (induction xs) auto

lemma set_search_correct:
  assumes "set_wf s" and "set_room s"
  shows "set_search P s = Inr (find P (set_elems s))"
  using set_foreach_correct [OF assms, of "\<lambda>x b. Inr (P x, if P x then Some x else None)" None]
  by (auto simp: set_search_def list_loop_search)

section \<open>Destruction\<close>

text \<open>Every node is freed; every item is left allocated.\<close>

lemma set_destroy_leaks:
  assumes wf: "set_wf s" and room: "set_room s"
  shows "set_destroy s = Inr (cs_heap s)"
proof -
  have "rb_height (rb_root (cs_tree s)) \<le> 30"
    using set_wfD(1) [OF wf] room
    by (intro rb_shape_height) (auto simp: rb_inv_def set_room_def set_count_def rb_count_def)
  then have "rb_destroy (cs_tree s) = Inr (postorder (rb_root (cs_tree s)))"
    using rb_destroy_loop_correct [of "[]" "rb_root (cs_tree s)"]
    by (simp add: rb_destroy_def RB_MAX_HEIGHT_def)
  then show ?thesis by (simp add: set_destroy_def set_lock_def set_unlock_def)
qed

end
