(* ===== verification/Key_Store.thy ===== *)
theory Key_Store
  imports Set_Laws
begin

text \<open>
  The interface the rest of the program uses a keyed set through, as a locale: a store
  whose contents are a finite map, and the laws of its insertion, removal and lookup. The
  clients of \<^verbatim>\<open>set.c\<close> rest on the facts proved here once; the interpretation shows that
  \<^verbatim>\<open>set.c\<close> provides the interface.
\<close>

locale key_store =
  fixes ok :: "'s \<Rightarrow> bool"
    and card_of :: "'s \<Rightarrow> int"
    and amap :: "'s \<Rightarrow> 'k \<rightharpoonup> 'v"
    and ins :: "'s \<Rightarrow> 'k \<Rightarrow> 'v \<Rightarrow> fault + ('s \<times> bool)"
    and rem :: "'s \<Rightarrow> 'k \<Rightarrow> fault + ('s \<times> bool)"
    and fnd :: "'s \<Rightarrow> 'k \<Rightarrow> fault + 'v option"
  assumes finite_amap: "ok s \<Longrightarrow> finite (dom (amap s))"
    and card_amap: "ok s \<Longrightarrow> card_of s = int (card (dom (amap s)))"
    and ins_fresh: "ok s \<Longrightarrow> card_of s \<le> 65534 \<Longrightarrow> k \<notin> dom (amap s) \<Longrightarrow>
      \<exists>s'. ins s k v = Inr (s', True) \<and> ok s' \<and> amap s' = (amap s)(k \<mapsto> v)"
    and rem_law: "ok s \<Longrightarrow> card_of s \<le> 65534 \<Longrightarrow>
      \<exists>s'. rem s k = Inr (s', k \<in> dom (amap s)) \<and> ok s' \<and> amap s' = (amap s)(k := None)"
    and fnd_law: "ok s \<Longrightarrow> fnd s k = Inr (amap s k)"
begin

lemma ins_card:
  assumes "ok s" and "k \<notin> dom (amap s)" and "ins s k v = Inr (s', b)" and "card_of s \<le> 65534"
  shows "card_of s' = card_of s + 1 \<and> b"
proof -
  from ins_fresh [OF assms(1,4,2), of v] assms(3) have
    "ok s'" "amap s' = (amap s)(k \<mapsto> v)" "b" by auto
  then show ?thesis using assms(1,2) finite_amap [OF assms(1)] by (simp add: card_amap)
qed

lemma ins_fnd:
  assumes "ok s" and "card_of s \<le> 65534" and "k \<notin> dom (amap s)" and "ins s k v = Inr (s', b)"
  shows "fnd s' j = Inr (if j = k then Some v else amap s j)"
proof -
  from ins_fresh [OF assms(1-3), of v] assms(4) have "ok s'" "amap s' = (amap s)(k \<mapsto> v)" by auto
  then show ?thesis by (simp add: fnd_law)
qed

lemma ins_rem:
  assumes "ok s" and "card_of s \<le> 65533" and "k \<notin> dom (amap s)" and "ins s k v = Inr (s', b)"
  shows "\<exists>s''. rem s' k = Inr (s'', True) \<and> ok s'' \<and> amap s'' = amap s"
proof -
  have r: "card_of s \<le> 65534" using assms(2) by simp
  from ins_fresh [OF assms(1) r assms(3), of v] assms(4) have
    s': "ok s'" "amap s' = (amap s)(k \<mapsto> v)" by auto
  moreover have "card_of s' \<le> 65534"
    using ins_card [OF assms(1,3,4) r] assms(2) by simp
  ultimately show ?thesis using rem_law [of s' k] assms(3)
    by (auto simp: fun_upd_idem domIff)
qed

lemma rem_card:
  assumes "ok s" and "card_of s \<le> 65534" and "rem s k = Inr (s', b)"
  shows "card_of s' = (if b then card_of s - 1 else card_of s)"
proof -
  from rem_law [OF assms(1,2), of k] assms(3) have
    s': "ok s'" "amap s' = (amap s)(k := None)" "b = (k \<in> dom (amap s))" by auto
  have "card (dom (amap s)) > 0" if "k \<in> dom (amap s)"
    using that finite_amap [OF assms(1)] by (auto simp: card_gt_0_iff)
  then have "int (card (dom (amap s) - {k})) = int (card (dom (amap s))) - (if b then 1 else 0)"
    using s'(3) by (cases "card (dom (amap s))") (auto simp: card_Diff_singleton_if)
  then show ?thesis using s' assms(1) by (simp add: card_amap)
qed

end

section \<open>\<^verbatim>\<open>set.c\<close> provides the interface\<close>

lemma set_entries_insert_map:
  assumes "set_wf s" and "set_wf s'" and "k \<notin> dom (set_map s)"
    and "set_entries s' =
      filter (\<lambda>e. fst e < k) (set_entries s) @ (k, v) # filter (\<lambda>e. k < fst e) (set_entries s)"
  shows "set_map s' = (set_map s)(k \<mapsto> v)"
proof
  fix j
  have "set_map s' j = Some d \<longleftrightarrow> ((set_map s)(k \<mapsto> v)) j = Some d" for d
    using assms by (auto simp: set_map_Some set_map_dom image_iff not_less_iff_gr_or_eq)
  then show "set_map s' j = ((set_map s)(k \<mapsto> v)) j"
    by (metis not_None_eq)
qed

lemma set_entries_remove_map:
  assumes "set_wf s" and "set_wf s'" and "set_entries s' = filter (\<lambda>e. fst e \<noteq> k) (set_entries s)"
  shows "set_map s' = (set_map s)(k := None)"
proof
  fix j
  have "set_map s' j = Some d \<longleftrightarrow> ((set_map s)(k := None)) j = Some d" for d
    using assms by (auto simp: set_map_Some)
  then show "set_map s' j = ((set_map s)(k := None)) j"
    by (metis not_None_eq)
qed

lemma set_insert_map:
  assumes "set_wf s" and "set_room s" and "k \<notin> dom (set_map s)"
  shows "\<exists>s'. set_insert s k v = Inr (s', True) \<and> set_wf s' \<and> cs_depth s' = cs_depth s \<and>
    set_map s' = (set_map s)(k \<mapsto> v)"
  using set_insert_new [OF assms, of v] set_entries_insert_map [OF assms(1) _ assms(3)] by blast

lemma set_remove_map:
  assumes "set_wf s" and "set_room s"
  shows "\<exists>s'. set_remove s k = Inr (s', k \<in> dom (set_map s)) \<and> set_wf s' \<and>
    cs_depth s' = cs_depth s \<and> set_map s' = (set_map s)(k := None)"
proof (cases "set_map s k")
  case None
  then have "k \<notin> dom (set_map s)" by auto
  from set_remove_absent [OF assms this] this None assms(1) show ?thesis
    by (auto simp: fun_upd_idem)
next
  case (Some v)
  from set_remove_present [OF assms this] obtain s' where
    s': "set_remove s k = Inr (s', True)" "set_wf s'" "cs_depth s' = cs_depth s"
    "set_entries s' = filter (\<lambda>e. fst e \<noteq> k) (set_entries s)" by blast
  with set_entries_remove_map [OF assms(1) s'(2,4)] Some show ?thesis by auto
qed

lemma set_count_map: "set_wf s \<Longrightarrow> set_count s = int (card (dom (set_map s)))"
proof -
  assume wf: "set_wf s"
  have d: "distinct (map fst (set_entries s))"
    by (rule sorted_wrt_less_distinct [OF set_entries_sorted [OF wf]])
  have "dom (set_map s) = set (map fst (set_entries s))" by (simp add: set_map_dom)
  then have "card (dom (set_map s)) = length (set_entries s)"
    using distinct_card [OF d] by simp
  then show ?thesis using set_count_entries [OF wf] by simp
qed

interpretation ks:
  key_store set_wf set_count "set_map :: 'v cset \<Rightarrow> global_id \<rightharpoonup> 'v" set_insert set_remove set_find
proof
  fix s :: "'v cset" and k v
  show "finite (dom (set_map s))" by (simp add: set_map_dom)
  show "set_count s = int (card (dom (set_map s)))" if "set_wf s" using that by (rule set_count_map)
  show "\<exists>s'. set_insert s k v = Inr (s', True) \<and> set_wf s' \<and> set_map s' = (set_map s)(k \<mapsto> v)"
    if "set_wf s" "set_count s \<le> 65534" "k \<notin> dom (set_map s)"
    using set_insert_map [of s k v] that by (auto simp: set_room_def)
  show "\<exists>s'. set_remove s k = Inr (s', k \<in> dom (set_map s)) \<and> set_wf s' \<and>
      set_map s' = (set_map s)(k := None)" if "set_wf s" "set_count s \<le> 65534"
    using set_remove_map [of s k] that by (auto simp: set_room_def)
  show "set_find s k = Inr (set_map s k)" if "set_wf s" using that by (rule set_find_correct)
qed

end
