(* ===== verification/Id_Map.thy ===== *)
theory Id_Map
  imports Key_Store
begin

text \<open>
  The identifier map of \<^verbatim>\<open>common/map.c\<close> and the identifier pool of \<^verbatim>\<open>agent/src/id.c\<close>:
  two clients of the keyed set.
\<close>

section \<open>Mappings\<close>

text \<open>A \<^verbatim>\<open>mapping_t\<close>; \<^verbatim>\<open>mapping_create\<close> clears \<^verbatim>\<open>data\<close> (calloc).\<close>

record mapping =
  m_real :: arg
  m_virt :: global_id
  m_data :: arg

definition mapping_create :: "arg \<Rightarrow> global_id \<Rightarrow> mapping" where
  "mapping_create real virt = \<lparr>m_real = real, m_virt = virt, m_data = 0\<rparr>"

definition mapping_find_by_virt :: "mapping cset \<Rightarrow> global_id \<Rightarrow> fault + mapping option" where
  "mapping_find_by_virt mp virt =
     rbind (set_find mp virt) (\<lambda>r.
     case r of Some mapping \<Rightarrow> Inr (Some mapping) | None \<Rightarrow> Inr None)"

definition mapping_find_by_real :: "mapping cset \<Rightarrow> arg \<Rightarrow> fault + (mapping cset \<times> mapping option)" where
  "mapping_find_by_real mp real =
     set_foreach (\<lambda>mapping result.
       if m_real mapping = real then Inr (True, Some mapping) else Inr (False, result)) mp None"

text \<open>
  The loop of \<^verbatim>\<open>mapping_translate_list_to_real\<close>: the counter, what is left of the input
  array and of its length, and the translations written so far. Reading past the end of the
  array is a fault.
\<close>

fun translate_loop ::
  "mapping cset \<Rightarrow> nat \<Rightarrow> nat \<Rightarrow> global_id list \<Rightarrow> arg list \<Rightarrow> fault + (nat \<times> arg list)"
where
  "translate_loop mp i 0 virts reals = Inr (i, reals)"
| "translate_loop mp i (Suc n) [] reals = Inl Buffer_Overflow"
| "translate_loop mp i (Suc n) (virt # virts) reals =
     rbind (mapping_find_by_virt mp virt) (\<lambda>r.
     case r of
       None \<Rightarrow> Inr (i, reals)
     | Some mapping \<Rightarrow> translate_loop mp (Suc i) n virts (reals @ [m_real mapping]))"

definition mapping_translate_list_to_real ::
  "mapping cset \<Rightarrow> u32 \<Rightarrow> global_id list option \<Rightarrow> fault + (u32 \<times> arg list)"
where
  "mapping_translate_list_to_real mp num_items virt_list =
     (case virt_list of
        None \<Rightarrow> Inr (0, [])
      | Some virts \<Rightarrow>
          if num_items = 0 then Inr (0, [])
          else rbind (translate_loop mp 0 (unat num_items) virts []) (\<lambda>(i, reals).
               Inr (of_nat i, reals)))"

text \<open>Every entry of an identifier map is filed under its virtual identifier.\<close>

definition idmap_wf :: "mapping cset \<Rightarrow> bool" where
  "idmap_wf m \<longleftrightarrow> set_wf m \<and> set_room m \<and> (\<forall>k v. set_map m k = Some v \<longrightarrow> m_virt v = k)"

lemma idmap_wfD:
  assumes "idmap_wf m"
  shows "set_wf m" and "set_room m" and "set_map m k = Some v \<Longrightarrow> m_virt v = k"
  using assms by (auto simp: idmap_wf_def)

lemma mapping_find_by_virt_correct:
  "set_wf m \<Longrightarrow> mapping_find_by_virt m k = Inr (set_map m k)"
  by (simp add: mapping_find_by_virt_def ks.fnd_law option.case_eq_if)

lemma list_loop_first:
  "list_loop (\<lambda>x b. if P x then Inr (True, Some x) else Inr (False, b)) xs None = Inr (find P xs)"
  by (induction xs) auto

lemma mapping_find_by_real_correct:
  assumes "set_wf m" and "set_room m"
  shows "\<exists>tr. mapping_find_by_real m real =
    Inr (m\<lparr>cs_trav := tr\<rparr>, find (\<lambda>x. m_real x = real) (set_elems m))"
  using set_foreach_correct [OF assms, of "\<lambda>x b. if m_real x = real then Inr (True, Some x) else Inr (False, b)" None]
  by (simp add: mapping_find_by_real_def list_loop_first)

text \<open>What is found by its real pointer is what its virtual identifier leads to.\<close>

lemma mapping_real_virt:
  assumes wf: "idmap_wf m" and found: "mapping_find_by_real m real = Inr (m', Some x)"
  shows "m_real x = real \<and> mapping_find_by_virt m (m_virt x) = Inr (Some x)"
proof -
  note m = idmap_wfD [OF wf]
  from mapping_find_by_real_correct [OF m(1,2), of real] found
  have "find (\<lambda>x. m_real x = real) (set_elems m) = Some x" by auto
  then have x: "x \<in> set (set_elems m)" "m_real x = real" by (auto simp: find_Some_iff)
  from x(1) obtain k where k: "set_map m k = Some x"
    unfolding set_elems_ran [OF m(1)] by (auto simp: ran_def)
  with m(3) [OF k] x(2) show ?thesis by (simp add: mapping_find_by_virt_correct [OF m(1)])
qed

text \<open>The known identifiers the list starts with are the ones translated.\<close>

lemma translate_loop_correct:
  assumes "set_wf m"
  shows "length virts \<ge> n \<Longrightarrow> translate_loop m i n virts reals =
    (let known = takeWhile (\<lambda>v. v \<in> dom (set_map m)) (take n virts)
     in Inr (i + length known, reals @ map (\<lambda>v. m_real (the (set_map m v))) known))"
proof (induction n arbitrary: i virts reals)
  case (Suc n)
  then obtain virt rest where virts: "virts = virt # rest" by (cases virts) auto
  note found = mapping_find_by_virt_correct [OF assms, of virt]
  show ?case
  proof (cases "set_map m virt")
    case (Some mapping)
    with Suc found virts show ?thesis by (simp add: domI Let_def)
  qed (use found virts in \<open>simp add: domIff\<close>)
qed simp

lemma mapping_translate_correct:
  assumes "set_wf m" and "length virts \<ge> unat n"
  shows "mapping_translate_list_to_real m n (Some virts) =
    (let known = takeWhile (\<lambda>v. v \<in> dom (set_map m)) (take (unat n) virts)
     in Inr (of_nat (length known), map (\<lambda>v. m_real (the (set_map m v))) known))"
  using translate_loop_correct [OF assms(1,2), of 0 "[]"]
  by (auto simp: mapping_translate_list_to_real_def Let_def)

section \<open>The identifier pool\<close>

text \<open>
  \<^verbatim>\<open>id_create\<close> draws candidates until one is new. The results of \<^verbatim>\<open>rand()\<close> are the list
  \<open>rs\<close>; when it is used up the loop is still running (\<open>None\<close>).
\<close>

fun id_create ::
  "unit cset \<Rightarrow> int list \<Rightarrow> fault + (unit cset \<times> global_id \<times> int list) option"
where
  "id_create id_pool [] = Inr None"
| "id_create id_pool (r # rs) =
     (let candidate = word_of_int r in
      if candidate = 0 then id_create id_pool rs
      else rbind (set_insert id_pool candidate ()) (\<lambda>(id_pool', inserted).
        if inserted then Inr (Some (id_pool', candidate, rs))
        else id_create id_pool' rs))"

definition id_release :: "unit cset \<Rightarrow> global_id \<Rightarrow> fault + (unit cset \<times> bool)" where
  "id_release id_pool key = set_remove id_pool key"

text \<open>The identifiers handed out.\<close>

definition pool_ids :: "unit cset \<Rightarrow> global_id set" where
  "pool_ids p = dom (set_map p)"

definition pool_wf :: "unit cset \<Rightarrow> bool" where
  "pool_wf p \<longleftrightarrow> set_wf p \<and> 0 \<notin> pool_ids p"

text \<open>The first candidate \<^verbatim>\<open>id_create\<close> tries to insert.\<close>

fun first_nonzero :: "int list \<Rightarrow> global_id option" where
  "first_nonzero [] = None"
| "first_nonzero (r # rs) =
     (if (word_of_int r :: global_id) = 0 then first_nonzero rs else Some (word_of_int r))"

lemma id_create_fresh:
  assumes "pool_wf p" and "set_room p" and "first_nonzero rs = Some k" and "k \<notin> pool_ids p"
  shows "\<exists>p' rs'. id_create p rs = Inr (Some (p', k, rs')) \<and> k \<noteq> 0 \<and> pool_wf p' \<and>
    pool_ids p' = insert k (pool_ids p)"
  using assms(3)
proof (induction rs)
  case (Cons r rs)
  show ?case
  proof (cases "(word_of_int r :: global_id) = 0")
    case False
    with Cons.prems have k: "k = word_of_int r" "k \<noteq> 0" by auto
    from set_insert_map [of p k "()"] assms(1,2,4) obtain p' where
      p': "set_insert p k () = Inr (p', True)" "set_wf p'" "set_map p' = (set_map p)(k \<mapsto> ())"
      by (auto simp: pool_wf_def pool_ids_def)
    then have "id_create p (r # rs) = Inr (Some (p', k, rs))" using k by auto
    with p' k assms(1) show ?thesis by (auto simp: pool_wf_def pool_ids_def)
  qed (use Cons in auto)
qed simp

text \<open>
  On a collision the pool is no longer well-formed: \<^verbatim>\<open>set_insert\<close> has freed the item of
  the identifier that is in use. The next candidate compared with it reads freed memory.
\<close>

lemma id_create_collision:
  assumes "pool_wf p" and "set_room p" and "k \<in> pool_ids p" and "word_of_int r = k"
  shows "\<exists>p'. id_create p (r # rs) = id_create p' rs \<and> \<not> set_wf p'"
proof -
  have k0: "k \<noteq> 0" using assms(1,3) by (auto simp: pool_wf_def)
  have "set_map p k = Some ()" using assms(3) by (auto simp: pool_ids_def)
  from set_insert_old_find [OF _ assms(2) this, of "()"] assms(1) obtain p' where
    "set_insert p k () = Inr (p', False)" "\<not> set_wf p'" by (auto simp: pool_wf_def)
  then show ?thesis using k0 assms(4) by (auto intro!: exI [of _ p'])
qed

lemma id_release_correct:
  assumes "pool_wf p" and "set_room p"
  shows "\<exists>p'. id_release p k = Inr (p', k \<in> pool_ids p) \<and> pool_wf p' \<and>
    pool_ids p' = pool_ids p - {k}"
  using set_remove_map [of p k] assms
  by (auto simp: id_release_def pool_wf_def pool_ids_def)

end
