(* ===== verification/Memory.thy ===== *)
theory Memory
  imports Wire
begin

text \<open>
  The heap memory the processes allocate with \<^verbatim>\<open>calloc\<close> and reach through pointers that travel
  as arguments: blocks of bytes, each under the address of its first byte. An address is a
  positive number, 0 the null pointer, and a freed address is not used again; a pointer into
  a block is its address and an offset. \<^verbatim>\<open>calloc\<close> fails when the product of its arguments does
  not fit into \<^verbatim>\<open>size_t\<close> and when the address space is used up.
\<close>

record memory =
  mm_blocks :: "nat \<rightharpoonup> byte list"
  mm_next :: nat

definition mem_init :: memory where
  "mem_init = \<lparr>mm_blocks = Map.empty, mm_next = 1\<rparr>"

definition mem_calloc :: "memory \<Rightarrow> 64 word \<Rightarrow> 64 word \<Rightarrow> memory \<times> nat" where
  "mem_calloc m nmemb sz =
     (if unat nmemb * unat sz < 2 ^ 64 \<and> mm_next m < 2 ^ 64
      then (m\<lparr>mm_blocks := (mm_blocks m)(mm_next m \<mapsto> replicate (unat nmemb * unat sz) 0),
              mm_next := mm_next m + 1\<rparr>, mm_next m)
      else (m, 0))"

definition mem_free :: "memory \<Rightarrow> nat \<Rightarrow> fault + memory" where
  "mem_free m p =
     (if p = 0 then Inr m
      else if mm_blocks m p = None then Inl Use_After_Free
      else Inr (m\<lparr>mm_blocks := (mm_blocks m)(p := None)\<rparr>))"

definition mem_block :: "memory \<Rightarrow> nat \<Rightarrow> fault + byte list" where
  "mem_block m p =
     (if p = 0 then Inl Null_Deref
      else case mm_blocks m p of None \<Rightarrow> Inl Use_After_Free | Some bs \<Rightarrow> Inr bs)"

definition mem_read :: "memory \<Rightarrow> nat \<Rightarrow> nat \<Rightarrow> nat \<Rightarrow> fault + byte list" where
  "mem_read m p off n =
     rbind (mem_block m p) (\<lambda>bs.
     if off + n \<le> length bs then Inr (take n (drop off bs)) else Inl Buffer_Overflow)"

definition mem_write :: "memory \<Rightarrow> nat \<Rightarrow> nat \<Rightarrow> byte list \<Rightarrow> fault + memory" where
  "mem_write m p off bs =
     rbind (mem_block m p) (\<lambda>old.
     if off + length bs \<le> length old
     then Inr (m\<lparr>mm_blocks := (mm_blocks m)(p \<mapsto> take off old @ bs @ drop (off + length bs) old)\<rparr>)
     else Inl Buffer_Overflow)"

text \<open>Every live block is below the next address; addresses are arguments of 64 bits.\<close>

definition mem_wf :: "memory \<Rightarrow> bool" where
  "mem_wf m \<longleftrightarrow> 0 < mm_next m \<and> mm_next m \<le> 2 ^ 64 \<and>
     (\<forall>p. mm_blocks m p \<noteq> None \<longrightarrow> 0 < p \<and> p < mm_next m)"

lemma mem_init_wf: "mem_wf mem_init"
  by (simp add: mem_wf_def mem_init_def)

lemma mem_block_live: "p \<noteq> 0 \<Longrightarrow> mm_blocks m p = Some bs \<Longrightarrow> mem_block m p = Inr bs"
  by (simp add: mem_block_def)

lemma mem_calloc_wf:
  assumes "mem_wf m" and "mem_calloc m nmemb sz = (m', p)"
  shows "mem_wf m'" and "p < 2 ^ 64"
    and "p \<noteq> 0 \<Longrightarrow> mm_blocks m p = None \<and>
      mm_blocks m' = (mm_blocks m)(p \<mapsto> replicate (unat nmemb * unat sz) 0)"
    and "p = 0 \<Longrightarrow> m' = m"
  using assms by (auto simp: mem_calloc_def mem_wf_def less_Suc_eq split: if_splits)

lemma mem_free_live: "p = 0 \<or> mm_blocks m p \<noteq> None \<Longrightarrow> \<exists>m'. mem_free m p = Inr m'"
  by (auto simp: mem_free_def)

lemma mem_free_wf:
  assumes "mem_wf m" and "p = 0 \<or> mm_blocks m p \<noteq> None"
  shows "\<exists>m'. mem_free m p = Inr m' \<and> mem_wf m' \<and> mm_blocks m' = (mm_blocks m)(p := None)"
  using assms by (auto simp: mem_free_def mem_wf_def)

lemma mem_write_wf:
  assumes "mem_wf m" and "mm_blocks m p = Some old" and "off + length bs \<le> length old"
  shows "\<exists>m'. mem_write m p off bs = Inr m' \<and> mem_wf m' \<and>
    mm_blocks m' = (mm_blocks m)(p \<mapsto> take off old @ bs @ drop (off + length bs) old)"
  using assms by (auto simp: mem_write_def mem_block_def mem_wf_def)

text \<open>What was written is read back.\<close>

lemma mem_read_write:
  assumes "mem_write m p off bs = Inr m'"
  shows "mem_read m' p off (length bs) = Inr bs"
proof -
  from assms obtain old where "p \<noteq> 0" "off + length bs \<le> length old"
    "m' = m\<lparr>mm_blocks := (mm_blocks m)(p \<mapsto> take off old @ bs @ drop (off + length bs) old)\<rparr>"
    by (auto simp: mem_write_def mem_block_def fault_simps split: if_splits option.splits)
  then show ?thesis by (simp add: mem_read_def mem_block_def)
qed

text \<open>A pointer as an argument and back.\<close>

definition PTR2ARG :: "nat \<Rightarrow> arg" where "PTR2ARG p = of_nat p"

definition ARG2PTR :: "arg \<Rightarrow> nat" where "ARG2PTR a = unat a"

lemma ARG2PTR_PTR2ARG: "p < 2 ^ 64 \<Longrightarrow> ARG2PTR (PTR2ARG p) = p"
  by (simp add: ARG2PTR_def PTR2ARG_def unat_of_nat)

lemma PTR2ARG_ARG2PTR [simp]: "PTR2ARG (ARG2PTR a) = a"
  by (simp add: ARG2PTR_def PTR2ARG_def)

end
