(* ===== verification/Allocation.thy ===== *)
theory Allocation
  imports Id_Map Memory
begin

text \<open>
  The allocations of \<^verbatim>\<open>common/alloc.c\<close>: buffers in the heap memory that are known to the
  other processes by a handle, kept in a set filed by it.
\<close>

record clara_allocation =
  al_handle :: handle
  al_nmemb :: "64 word"
  al_size :: "64 word"
  al_ptr :: nat

record allocate_request =
  ar_handle :: handle
  ar_nmemb :: "64 word"
  ar_size :: "64 word"
  ar_hint :: global_id

text \<open>The buffer is null when \<^verbatim>\<open>calloc\<close> fails: the code does not look.\<close>

definition clara_create_allocation :: "memory \<Rightarrow> allocate_request \<Rightarrow> memory \<times> clara_allocation" where
  "clara_create_allocation m params =
     (let (m', p) = mem_calloc m (ar_nmemb params) (ar_size params)
      in (m', \<lparr>al_handle = ar_handle params, al_nmemb = ar_nmemb params, al_size = ar_size params,
               al_ptr = p\<rparr>))"

definition clara_find_allocation ::
  "clara_allocation cset \<Rightarrow> handle \<Rightarrow> fault + (clara_allocation cset \<times> clara_allocation option)"
where
  "clara_find_allocation allocations handle =
     set_foreach (\<lambda>allocation r.
       if al_handle allocation = handle then Inr (True, Some allocation) else Inr (False, r))
       allocations None"

text \<open>
  The buffer is freed; the result is the handle stored through \<^verbatim>\<open>old_handle\<close>, or \<open>None\<close> for a
  null allocation.
\<close>

definition clara_destroy_allocation ::
  "memory \<Rightarrow> clara_allocation option \<Rightarrow> fault + (memory \<times> handle option)"
where
  "clara_destroy_allocation m allocation =
     (case allocation of
        None \<Rightarrow> Inr (m, None)
      | Some a \<Rightarrow> rbind (mem_free m (al_ptr a)) (\<lambda>m'. Inr (m', Some (al_handle a))))"

lemma clara_find_allocation_correct:
  assumes "set_wf s" and "set_room s"
  shows "\<exists>tr. clara_find_allocation s h =
    Inr (s\<lparr>cs_trav := tr\<rparr>, find (\<lambda>a. al_handle a = h) (set_elems s))"
  using set_foreach_correct [OF assms, of "\<lambda>x b. if al_handle x = h then Inr (True, Some x) else Inr (False, b)" None]
  by (simp add: clara_find_allocation_def list_loop_first)

text \<open>In a set filed by handle the scan is a lookup.\<close>

lemma clara_find_allocation_lookup:
  assumes wf: "set_wf s" "set_room s" and keyed: "\<forall>k a. set_map s k = Some a \<longrightarrow> al_handle a = k"
  shows "\<exists>tr. clara_find_allocation s h = Inr (s\<lparr>cs_trav := tr\<rparr>, set_map s h)"
proof -
  have "find (\<lambda>a. al_handle a = h) (set_elems s) = set_map s h"
  proof (cases "find (\<lambda>a. al_handle a = h) (set_elems s)")
    case None
    then have "\<forall>a\<in>ran (set_map s). al_handle a \<noteq> h"
      by (auto simp: find_None_iff set_elems_ran [OF wf(1)])
    with keyed have "set_map s h = None" by (metis not_None_eq ranI)
    with None show ?thesis by simp
  next
    case (Some a)
    then have "a \<in> ran (set_map s)" "al_handle a = h"
      by (auto simp: find_Some_iff simp flip: set_elems_ran [OF wf(1)])
    with keyed have "set_map s h = Some a" by (auto simp: ran_def)
    with Some show ?thesis by simp
  qed
  with clara_find_allocation_correct [OF wf, of h] show ?thesis by simp
qed

end
