(* ===== verification/Rpc.thy ===== *)
theory Rpc
  imports Stream_Transfer Api Allocation
begin

text \<open>
  The remote procedure calls of \<^verbatim>\<open>common/rpc_client.c\<close> and \<^verbatim>\<open>common/rpc_server.c\<close>: the
  requests and responses as the structures of \<^verbatim>\<open>include/clara.h\<close> laid out in messages, and
  \<^verbatim>\<open>clara_execute\<close>, which translates the arguments of a call and runs its handler.
\<close>

section \<open>Structures in messages\<close>

definition enc_allocate_request :: "allocate_request \<Rightarrow> byte list" where
  "enc_allocate_request p =
     enc64 (ar_handle p) @ enc64 (ar_nmemb p) @ enc64 (ar_size p) @ enc64 (ar_hint p)"

definition dec_allocate_request :: "byte list \<Rightarrow> allocate_request" where
  "dec_allocate_request bs =
     \<lparr>ar_handle = dec64 bs, ar_nmemb = dec64 (drop 8 bs), ar_size = dec64 (drop 16 bs),
      ar_hint = dec64 (drop 24 bs)\<rparr>"

record execute_request =
  er_hint :: global_id
  er_fun :: arg
  er_retval :: arg

definition enc_execute_request :: "execute_request \<Rightarrow> byte list" where
  "enc_execute_request p = enc64 (er_hint p) @ enc64 (er_fun p) @ enc64 (er_retval p)"

definition dec_execute_request :: "byte list \<Rightarrow> execute_request" where
  "dec_execute_request bs =
     \<lparr>er_hint = dec64 bs, er_fun = dec64 (drop 8 bs), er_retval = dec64 (drop 16 bs)\<rparr>"

record fetch_request =
  fr_handle :: handle
  fr_size :: "64 word"
  fr_hint :: global_id
  fr_stream_opts :: stream_options

definition enc_fetch_request :: "fetch_request \<Rightarrow> byte list" where
  "enc_fetch_request p =
     enc64 (fr_handle p) @ enc64 (fr_size p) @ enc64 (fr_hint p) @ enc_stream_params (fr_stream_opts p)"

definition dec_fetch_request :: "byte list \<Rightarrow> fetch_request" where
  "dec_fetch_request bs =
     \<lparr>fr_handle = dec64 bs, fr_size = dec64 (drop 8 bs), fr_hint = dec64 (drop 16 bs),
      fr_stream_opts = dec_stream_params (drop 24 bs)\<rparr>"

record mapatptr_request =
  mr_virt :: global_id
  mr_ptr :: global_id

definition enc_mapatptr_request :: "mapatptr_request \<Rightarrow> byte list" where
  "enc_mapatptr_request p = enc64 (mr_virt p) @ enc64 (mr_ptr p)"

definition dec_mapatptr_request :: "byte list \<Rightarrow> mapatptr_request" where
  "dec_mapatptr_request bs = \<lparr>mr_virt = dec64 bs, mr_ptr = dec64 (drop 8 bs)\<rparr>"

section \<open>Requests of the client\<close>

text \<open>The arguments of a call that sends and only reports whether it could.\<close>

definition sent :: "'n \<times> nat option \<Rightarrow> 'n \<times> bool" where
  "sent r = (case r of (s, ssz) \<Rightarrow> (s, ssz \<noteq> None))"

definition clara_send_allocate_request ::
  "'n sctp \<Rightarrow> 'n \<Rightarrow> sd \<Rightarrow> 64 word \<Rightarrow> 64 word \<Rightarrow> byte list option \<Rightarrow> global_id \<Rightarrow> sockaddr \<Rightarrow>
    fault + ('n \<times> bool)"
where
  "clara_send_allocate_request net s sd nmemb sz data hint to =
     (let params = \<lparr>ar_handle = 0, ar_nmemb = nmemb, ar_size = sz, ar_hint = hint\<rparr>
      in rbind
        (case data of
           None \<Rightarrow> Inr []
         | Some d \<Rightarrow> if unat (nmemb * sz) > length d then Inl Buffer_Overflow
                     else Inr (take (unat (nmemb * sz)) d))
        (\<lambda>payload.
         rbind (clara_sendmsg net s sd CLARA_MSG_ALLOCATE_REQUEST
                 (enc_allocate_request params @ payload) to) (\<lambda>r. Inr (sent r))))"

definition clara_recv_allocate_response ::
  "'n sctp \<Rightarrow> 'n \<Rightarrow> sd \<Rightarrow> fault + ('n \<times> handle option)"
where
  "clara_recv_allocate_response net s sd =
     rbind (clara_recvmsg net s sd CLARA_MSG_ALLOCATE_RESPONSE 8) (\<lambda>(s', r).
     case r of
       None \<Rightarrow> Inr (s', None)
     | Some m \<Rightarrow> if length (cm_bytes m) \<noteq> 8 then Inr (s', None)
                 else Inr (s', Some (dec64 (cm_bytes m))))"

text \<open>An argument array shorter than \<open>argc\<close> is read past its end.\<close>

definition clara_send_execute_request ::
  "'n sctp \<Rightarrow> 'n \<Rightarrow> sd \<Rightarrow> arg \<Rightarrow> arg list \<Rightarrow> nat \<Rightarrow> global_id \<Rightarrow> sockaddr \<Rightarrow> fault + ('n \<times> bool)"
where
  "clara_send_execute_request net s sd d argv argc hint to =
     (let params = \<lparr>er_hint = hint, er_fun = d, er_retval = 0\<rparr>
      in if argc > length argv then Inl Buffer_Overflow
         else rbind (clara_sendmsg net s sd CLARA_MSG_EXECUTE_REQUEST
                (enc_execute_request params @ enc_args (take argc argv)) to) (\<lambda>r. Inr (sent r)))"

text \<open>The bytes copied to \<^verbatim>\<open>retbuf\<close>; the copy reads \<open>retbuflen\<close> bytes of an eight byte buffer.\<close>

definition clara_recv_execute_response ::
  "'n sctp \<Rightarrow> 'n \<Rightarrow> sd \<Rightarrow> nat \<Rightarrow> fault + ('n \<times> byte list option)"
where
  "clara_recv_execute_response net s sd retbuflen =
     rbind (clara_recvmsg net s sd CLARA_MSG_EXECUTE_RESPONSE 8) (\<lambda>(s', r).
     case r of
       None \<Rightarrow> Inr (s', None)
     | Some m \<Rightarrow>
         if length (cm_bytes m) = 0 then Inr (s', None)
         else if length (cm_bytes m) \<noteq> 8 then Inr (s', None)
         else if retbuflen > 8 then Inl Buffer_Overflow
         else Inr (s', Some (take retbuflen (cm_bytes m))))"

text \<open>The stream options are copied without a test of the pointer.\<close>

definition clara_send_fetch_request ::
  "'n sctp \<Rightarrow> 'n \<Rightarrow> sd \<Rightarrow> handle \<Rightarrow> 64 word \<Rightarrow> global_id \<Rightarrow> stream_options option \<Rightarrow> sockaddr \<Rightarrow>
    fault + ('n \<times> bool)"
where
  "clara_send_fetch_request net s sd src n hint opts to =
     (if src = 0 then Inr (s, False)
      else case opts of
        None \<Rightarrow> Inl Null_Deref
      | Some so \<Rightarrow>
          rbind (clara_sendmsg net s sd CLARA_MSG_FETCH_REQUEST
            (enc_fetch_request \<lparr>fr_handle = src, fr_size = n, fr_hint = hint, fr_stream_opts = so\<rparr>) to)
            (\<lambda>r. Inr (sent r)))"

text \<open>The announced length, the bytes received and the result.\<close>

definition clara_recv_fetch_response ::
  "'n sctp \<Rightarrow> lzo \<Rightarrow> nat \<Rightarrow> 'n \<Rightarrow> sd \<Rightarrow> nat \<Rightarrow> fault + ('n \<times> 64 word option \<times> byte list \<times> bool)"
where
  "clara_recv_fetch_response net lz fuel s sd cnt =
     rbind (clara_recvmsg net s sd CLARA_MSG_FETCH_RESPONSE 8) (\<lambda>(s', r).
     case r of
       None \<Rightarrow> Inr (s', None, [], False)
     | Some m \<Rightarrow>
         rbind (c_assert (length (cm_bytes m) = 8)) (\<lambda>_.
         rbind (stream_recv net lz fuel s' sd cnt) (\<lambda>(s'', buf).
         Inr (s'', Some (dec64 (cm_bytes m)), buf, length buf = cnt))))"

definition clara_send_mapatptr_request ::
  "'n sctp \<Rightarrow> 'n \<Rightarrow> sd \<Rightarrow> global_id \<Rightarrow> global_id \<Rightarrow> sockaddr \<Rightarrow> fault + ('n \<times> bool)"
where
  "clara_send_mapatptr_request net s sd virt ptr to =
     rbind (clara_sendmsg net s sd CLARA_MSG_MAPATPTR_REQUEST
       (enc_mapatptr_request \<lparr>mr_virt = virt, mr_ptr = ptr\<rparr>) to) (\<lambda>r. Inr (sent r))"

text \<open>The size of the response is not checked.\<close>

definition clara_recv_mapatptr_response :: "'n sctp \<Rightarrow> 'n \<Rightarrow> sd \<Rightarrow> fault + ('n \<times> arg option)" where
  "clara_recv_mapatptr_response net s sd =
     rbind (clara_recvmsg net s sd CLARA_MSG_MAPATPTR_RESPONSE 8) (\<lambda>(s', r).
     case r of
       None \<Rightarrow> Inr (s', None)
     | Some m \<Rightarrow> if length (cm_bytes m) < 8 then Inl Uninit_Read
                 else Inr (s', Some (dec64 (cm_bytes m))))"

text \<open>A stream into memory (\<^verbatim>\<open>struct memput_stream_params\<close>): the handle, offset and length.\<close>

record memput_stream_params =
  mp_dst :: handle
  mp_offset :: "64 word"
  mp_length :: "64 word"
  mp_hint :: global_id

definition enc_memput :: "memput_stream_params \<Rightarrow> byte list" where
  "enc_memput p = enc64 (mp_dst p) @ enc64 (mp_offset p) @ enc64 (mp_length p) @ enc64 (mp_hint p)"

definition dec_memput :: "byte list \<Rightarrow> memput_stream_params" where
  "dec_memput bs =
     \<lparr>mp_dst = dec64 bs, mp_offset = dec64 (drop 8 bs), mp_length = dec64 (drop 16 bs),
      mp_hint = dec64 (drop 24 bs)\<rparr>"

section \<open>Responses of the server\<close>

definition clara_send_allocate_response ::
  "'n sctp \<Rightarrow> 'n \<Rightarrow> sd \<Rightarrow> handle \<Rightarrow> sockaddr \<Rightarrow> fault + ('n \<times> bool)"
where
  "clara_send_allocate_response net s sd h to =
     rbind (clara_sendmsg net s sd CLARA_MSG_ALLOCATE_RESPONSE (enc64 h) to) (\<lambda>(s', ssz).
     case ssz of
       None \<Rightarrow> Inr (s', False)
     | Some n \<Rightarrow> Inr (s', n = 8))"

definition clara_send_execute_response ::
  "'n sctp \<Rightarrow> 'n \<Rightarrow> sd \<Rightarrow> arg \<Rightarrow> sockaddr \<Rightarrow> bool \<Rightarrow> fault + ('n \<times> bool)"
where
  "clara_send_execute_response net s sd retval to successful =
     rbind (clara_sendmsg net s sd CLARA_MSG_EXECUTE_RESPONSE
       (if successful then enc64 retval else []) to) (\<lambda>r. Inr (sent r))"

definition clara_send_fetch_response ::
  "'n sctp \<Rightarrow> lzo \<Rightarrow> nat \<Rightarrow> 'n \<Rightarrow> sd \<Rightarrow> byte list \<Rightarrow> stream_options option \<Rightarrow> sockaddr \<Rightarrow> fault + ('n \<times> bool)"
where
  "clara_send_fetch_response net lz fuel s sd buf opts to =
     rbind (clara_sendmsg net s sd CLARA_MSG_FETCH_RESPONSE (enc64 (of_nat (length buf))) to) (\<lambda>(s', ssz).
     case ssz of
       None \<Rightarrow> Inr (s', False)
     | Some _ \<Rightarrow>
         rbind (stream_send net lz fuel s' sd buf opts to) (\<lambda>(s'', n).
         Inr (s'', n = length buf)))"

definition clara_send_mapatptr_response ::
  "'n sctp \<Rightarrow> 'n \<Rightarrow> sd \<Rightarrow> arg \<Rightarrow> sockaddr \<Rightarrow> fault + ('n \<times> bool)"
where
  "clara_send_mapatptr_response net s sd real to =
     rbind (clara_sendmsg net s sd CLARA_MSG_MAPATPTR_RESPONSE (enc64 real) to) (\<lambda>r. Inr (sent r))"

section \<open>Executing a call\<close>

text \<open>
  An entry of a handler table: the handler and the mask of the arguments that are
  identifiers. A handler is given the request, whose last member \<^verbatim>\<open>retval\<close> is \<^verbatim>\<open>argv[0]\<close>, and
  the arguments \<^verbatim>\<open>argv[1]\<close> and on, and may change them and the state \<open>'w\<close> of the process.
\<close>

record 'w fun_entry =
  fe_pfn :: "('w \<Rightarrow> execute_request \<Rightarrow> arg list \<Rightarrow> fault + ('w \<times> execute_request \<times> arg list)) option"
  fe_ptrargs :: u32

text \<open>
  The loop that translates the arguments in place: \<open>n\<close> arguments to go and the array from
  the current one on. Reading past the message is a fault.
\<close>

fun translate_args ::
  "('w \<Rightarrow> global_id \<Rightarrow> fault + ('w \<times> arg)) \<Rightarrow> u32 \<Rightarrow> 'w \<Rightarrow> u32 \<Rightarrow> nat \<Rightarrow> arg list \<Rightarrow> fault + ('w \<times> arg list)"
where
  "translate_args id_map argmsk w argsel 0 argp = Inr (w, argp)"
| "translate_args id_map argmsk w argsel (Suc n) [] = Inl Buffer_Overflow"
| "translate_args id_map argmsk w argsel (Suc n) (a # argp) =
     rbind
       (if a = 0 then Inr (w, a)
        else if and argmsk argsel \<noteq> 0 then id_map w a else Inr (w, a)) (\<lambda>(w', a').
     rbind (translate_args id_map argmsk w' (push_bit 1 argsel) n argp) (\<lambda>(w'', rest).
     Inr (w'', a' # rest)))"

text \<open>
  \<^verbatim>\<open>int d = params->fun\<close> keeps the low 32 bits; the comparison with the number of entries
  extends the sign, so a negative \<open>d\<close> counts as too large. The result is the state, the
  message with its parameters and arguments (which are changed in place), the value to return
  and whether the call could be looked at.
\<close>

definition clara_execute ::
  "'w fun_entry list \<Rightarrow> ('w \<Rightarrow> global_id \<Rightarrow> fault + ('w \<times> arg)) \<Rightarrow> 'w \<Rightarrow> execute_request \<Rightarrow> arg list \<Rightarrow> arg \<Rightarrow>
    fault + ('w \<times> execute_request \<times> arg list \<times> arg \<times> bool)"
where
  "clara_execute fntbl id_map w params args retval =
     (let d = sint (ucast (er_fun params) :: u32)
      in if d < 0 \<or> int (length fntbl) \<le> d then Inr (w, params, args, retval, True)
         else let entry = fntbl ! nat d
           in case fe_pfn entry of
                None \<Rightarrow> Inr (w, params, args, retval, True)
              | Some pfn \<Rightarrow>
                  (case cl_function_of (nat d) of
                     None \<Rightarrow> Inl Buffer_Overflow
                   | Some f \<Rightarrow>
                       rbind (opencl_get_clfuninfo f) (\<lambda>fni.
                       rbind (c_assert (fi_argc fni \<le> MAX_ARGS)) (\<lambda>_.
                       rbind (translate_args id_map (fe_ptrargs entry) w 1 (fi_argc fni) args) (\<lambda>(w', args').
                       rbind (pfn w' (params\<lparr>er_retval := retval\<rparr>) args') (\<lambda>(w'', params'', args'').
                       Inr (w'', params'', args'', er_retval params'', True)))))))"

section \<open>Round trips\<close>

lemma dec_allocate_request_enc [simp]:
  "dec_allocate_request (enc_allocate_request p @ bs) = p"
  by (simp add: enc_allocate_request_def dec_allocate_request_def)

lemma dec_execute_request_enc [simp]:
  "dec_execute_request (enc_execute_request p @ bs) = p"
  by (simp add: enc_execute_request_def dec_execute_request_def)

lemma dec_mapatptr_request_enc [simp]:
  "dec_mapatptr_request (enc_mapatptr_request p @ bs) = p"
  by (simp add: enc_mapatptr_request_def dec_mapatptr_request_def)

lemma dec_fetch_request_enc [simp]:
  "dec_fetch_request (enc_fetch_request p) = p"
  by (simp add: enc_fetch_request_def dec_fetch_request_def)

lemma enc_request_length [simp]:
  "length (enc_allocate_request a) = 32" "length (enc_execute_request e) = 24"
  "length (enc_fetch_request f) = 40" "length (enc_mapatptr_request m) = 16"
  by (simp_all add: enc_allocate_request_def enc_execute_request_def enc_fetch_request_def
      enc_mapatptr_request_def)

section \<open>Calls over a network that works\<close>

text \<open>
  A request or response that one side sends is what the other side receives; \<open>server\<close> is the
  type and the bytes the receiving loop is given.
\<close>

lemma send_execute_request_wire:
  assumes net: "reliable net k" and ok: "lk_ok k s" and argc: "argc \<le> length argv"
    and lim: "26 + 8 * argc \<le> lk_lim k"
  shows "\<exists>s'. clara_send_execute_request net s sd d argv argc hint to = Inr (s', True) \<and>
    adds k s s' (lk_out k sd to) [enc16 CLARA_MSG_EXECUTE_REQUEST @
      enc_execute_request \<lparr>er_hint = hint, er_fun = d, er_retval = 0\<rparr> @ enc_args (take argc argv)]"
proof -
  let ?bs = "enc_execute_request \<lparr>er_hint = hint, er_fun = d, er_retval = 0\<rparr> @ enc_args (take argc argv)"
  have "length ?bs + 2 \<le> lk_lim k" using lim argc by simp
  from sendmsg_adds [OF net ok this, of sd CLARA_MSG_EXECUTE_REQUEST to] argc show ?thesis
    by (auto simp: clara_send_execute_request_def sent_def)
qed

text \<open>What the handler of the request is given: the parameters and the arguments.\<close>

lemma execute_request_received:
  "dec_execute_request (enc_execute_request p @ enc_args args) = p"
  "dec_args (length args) (drop 24 (enc_execute_request p @ enc_args args)) = args"
  using dec_args_enc [of args "[]"] by simp_all

lemma execute_response_roundtrip:
  assumes net: "reliable net k" and ok: "lk_ok k s" and lim: "10 \<le> lk_lim k"
    and chan: "lk_out k sd to = c" "lk_inp k sd' = c" and q: "lk_queue k s c = []"
  shows "\<exists>s1 s2. clara_send_execute_response net s sd v to success = Inr (s1, True) \<and>
    clara_recv_execute_response net s1 sd' 8 = Inr (s2, if success then Some (enc64 v) else None) \<and>
    lk_queue k s2 = lk_queue k s"
proof -
  let ?bs = "if success then enc64 v else []"
  have "length ?bs + 2 \<le> lk_lim k" using lim by simp
  from sendmsg_adds [OF net ok this, of sd CLARA_MSG_EXECUTE_RESPONSE to] obtain s1 where
    s1: "clara_sendmsg net s sd CLARA_MSG_EXECUTE_RESPONSE ?bs to = Inr (s1, Some (length ?bs))"
      "adds k s s1 c [enc16 CLARA_MSG_EXECUTE_RESPONSE @ ?bs]" unfolding chan by blast
  have ok1: "lk_ok k s1" "lk_queue k s1 (lk_inp k sd') = (enc16 CLARA_MSG_EXECUTE_RESPONSE @ ?bs) # []"
    using s1(2) q chan by (auto simp: adds_def)
  have "length ?bs \<le> 8" by simp
  from recvmsg_leaves [OF net ok1 this, of CLARA_MSG_EXECUTE_RESPONSE] obtain s2 fr where
    s2: "clara_recvmsg net s1 sd' CLARA_MSG_EXECUTE_RESPONSE 8 = Inr (s2, Some \<lparr>cm_type =
      CLARA_MSG_EXECUTE_RESPONSE, cm_bytes = ?bs, cm_from = fr, cm_notification = False\<rparr>)"
      "leaves k s1 s2 c []" unfolding chan by blast
  have "lk_queue k s2 = lk_queue k s"
    using s1(2) s2(2) q by (auto simp: adds_def leaves_def)
  moreover have "clara_recv_execute_response net s1 sd' 8 =
      Inr (s2, if success then Some (enc64 v) else None)"
    using s2(1) by (simp add: clara_recv_execute_response_def)
  moreover have "clara_send_execute_response net s sd v to success = Inr (s1, True)"
    using s1(1) by (simp add: clara_send_execute_response_def sent_def)
  ultimately show ?thesis by blast
qed

lemma fetch_response_roundtrip:
  assumes net: "reliable net k" and ok: "lk_ok k s" and lim: "BLOCKSIZE \<le> lk_lim k"
    and lz: "lzo_ok lz" and p: "opts_ok (opts_of opts)"
    and fuel: "stream_fuel (wire_blocks lz (opts_of opts) data) fuel"
    and chan: "lk_out k sd to = c" "lk_inp k sd' = c" and q: "lk_queue k s c = []"
  shows "\<exists>s1 s2. clara_send_fetch_response net lz fuel s sd data opts to = Inr (s1, True) \<and>
    clara_recv_fetch_response net lz fuel s1 sd' (length data) =
      Inr (s2, Some (of_nat (length data)), data, True) \<and>
    lk_queue k s2 = lk_queue k s"
proof -
  let ?h = "enc64 (of_nat (length data))" and ?p = "opts_of opts"
  let ?w = "stream_wire ?p (wire_blocks lz ?p data)"
  have "length ?h + 2 \<le> lk_lim k" using lim by (simp add: BLOCKSIZE_def)
  from sendmsg_adds [OF net ok this, of sd CLARA_MSG_FETCH_RESPONSE to] obtain s1 where
    s1: "clara_sendmsg net s sd CLARA_MSG_FETCH_RESPONSE ?h to = Inr (s1, Some 8)"
      "adds k s s1 c [enc16 CLARA_MSG_FETCH_RESPONSE @ ?h]" unfolding chan by auto
  have "lk_ok k s1" using s1(2) by (simp add: adds_def)
  from stream_send_correct [OF net this lim lz p fuel, of sd to] obtain s2 where
    s2: "stream_send net lz fuel s1 sd data opts to = Inr (s2, length data)" "adds k s1 s2 c ?w"
    unfolding chan by blast
  have ok2: "lk_ok k s2" "lk_queue k s2 (lk_inp k sd') = (enc16 CLARA_MSG_FETCH_RESPONSE @ ?h) # ?w"
    using adds_trans [OF s1(2) s2(2)] q chan by (auto simp: adds_def)
  from recvmsg_leaves [OF net ok2, of 8 CLARA_MSG_FETCH_RESPONSE] obtain s3 fr where
    s3: "clara_recvmsg net s2 sd' CLARA_MSG_FETCH_RESPONSE 8 = Inr (s3, Some \<lparr>cm_type =
      CLARA_MSG_FETCH_RESPONSE, cm_bytes = ?h, cm_from = fr, cm_notification = False\<rparr>)"
      "leaves k s2 s3 c ?w" unfolding chan by auto
  have ok3: "lk_ok k s3" "lk_queue k s3 (lk_inp k sd') = ?w @ []"
    using s3(2) chan by (auto simp: leaves_def)
  from stream_recv_correct [OF net ok3(1) lz p fuel ok3(2)] obtain s4 where
    s4: "stream_recv net lz fuel s3 sd' (length data) = Inr (s4, data)" "leaves k s3 s4 c []"
    unfolding chan by blast
  have "lk_queue k s4 = lk_queue k s"
    using s1(2) s2(2) s3(2) s4(2) q by (auto simp: adds_def leaves_def)
  with s1(1) s2(1) s3(1) s4(1) show ?thesis
    by (auto simp: clara_send_fetch_response_def clara_recv_fetch_response_def)
qed

section \<open>The translation of arguments\<close>

text \<open>Bit \<open>i\<close> of the mask decides about argument \<open>i\<close>, counted from zero; a zero stays zero.\<close>

lemma mask_bit: "and m (push_bit i (1 :: u32)) \<noteq> 0 \<longleftrightarrow> i < 32 \<and> bit m i"
proof -
  have "and m (push_bit i 1) = (if bit m i then push_bit i 1 else 0)"
    by (rule bit_eqI) (auto simp: bit_simps)
  moreover have "push_bit i (1 :: u32) = 0 \<longleftrightarrow> i \<ge> 32"
    by (auto simp: push_bit_of_1 intro: ccontr)
  ultimately show ?thesis using bit_imp_le_length [of m i] by auto
qed

lemma translate_args_correct:
  assumes id_map: "\<And>w a. P w \<Longrightarrow> \<exists>w'. id_map w a = Inr (w', g a) \<and> P w'"
  shows "P w \<Longrightarrow> n \<le> length args \<Longrightarrow> i + n \<le> 32 \<Longrightarrow>
    \<exists>w' args'. translate_args id_map m w (push_bit i 1) n args = Inr (w', args') \<and> P w' \<and>
      length args' = length args \<and>
      (\<forall>j<length args. args' ! j =
        (if j < n \<and> args ! j \<noteq> 0 \<and> bit m (i + j) then g (args ! j) else args ! j))"
proof (induction n arbitrary: w i args)
  case (Suc n)
  from Suc.prems(2) obtain a rest where args: "args = a # rest" by (cases args) auto
  let ?a = "if a \<noteq> 0 \<and> bit m i then g a else a"
  have "i < 32" using Suc.prems(3) by simp
  then have mb: "and m (push_bit i 1) \<noteq> 0 \<longleftrightarrow> bit m i" using mask_bit [of m i] by simp
  from id_map [OF Suc.prems(1), of a] obtain wm where wm: "id_map w a = Inr (wm, g a)" "P wm" by blast
  obtain w1 where w1: "(if a = 0 then Inr (w, a)
        else if bit m i then id_map w a else Inr (w, a)) = Inr (w1, ?a)" "P w1"
    using wm Suc.prems(1) by (cases "a = 0"; cases "bit m i") auto
  from Suc.IH [OF w1(2), of rest "Suc i"] Suc.prems args obtain w' args' where
    IH: "translate_args id_map m w1 (push_bit (Suc i) 1) n rest = Inr (w', args')" "P w'"
      "length args' = length rest"
      "\<forall>j<length rest. args' ! j =
        (if j < n \<and> rest ! j \<noteq> 0 \<and> bit m (Suc i + j) then g (rest ! j) else rest ! j)"
    by auto
  have "push_bit 1 (push_bit i (1 :: u32)) = push_bit (Suc i) 1" by (simp add: push_bit_push_bit)
  then have "translate_args id_map m w (push_bit i 1) (Suc n) args = Inr (w', ?a # args')"
    unfolding args translate_args.simps mb by (simp only: w1(1) IH(1) rbind_simps prod.case)
  moreover have "\<forall>j<length args. (?a # args') ! j =
      (if j < Suc n \<and> args ! j \<noteq> 0 \<and> bit m (i + j) then g (args ! j) else args ! j)"
    using IH(4) by (auto simp: args nth_Cons split: nat.splits)
  ultimately show ?case using IH(2,3) args by (intro exI [of _ w'] exI [of _ "?a # args'"]) simp
qed simp

text \<open>
  A call of a function in the table reaches its handler with the value to return stored in
  the request and the identifiers among its arguments translated, as the mask says.
\<close>

lemma cl_value_bound: "cl_value f < 65"
  using cl_function_of_value [of f]
  by (auto simp: cl_function_of_def length_cl_functions split: if_splits)

lemma fun_index:
  assumes "n < 65"
  shows "sint (ucast (of_nat n :: 64 word) :: 32 word) = int n"
proof -
  have "(ucast (of_nat n :: 64 word) :: 32 word) = of_nat n"
    by transfer simp
  then show ?thesis using assms by (simp add: signed_of_nat signed_take_bit_int_eq_self)
qed

lemma clara_execute_known:
  assumes id_map: "\<And>w a. P w \<Longrightarrow> \<exists>w'. id_map w a = Inr (w', g a) \<and> P w'" and w: "P w"
    and entry: "cl_value f < length fntbl" "fe_pfn (fntbl ! cl_value f) = Some pfn"
    and params: "er_fun params = of_nat (cl_value f)"
    and fni: "opencl_get_clfuninfo f = Inr fni" "fi_argc fni \<le> length args"
  shows "\<exists>w' args'. clara_execute fntbl id_map w params args retval =
      rbind (pfn w' (params\<lparr>er_retval := retval\<rparr>) args') (\<lambda>(w'', params'', args'').
        Inr (w'', params'', args'', er_retval params'', True)) \<and>
    P w' \<and> length args' = length args \<and>
    (\<forall>j<length args. args' ! j =
      (if j < fi_argc fni \<and> args ! j \<noteq> 0 \<and> bit (fe_ptrargs (fntbl ! cl_value f)) j
       then g (args ! j) else args ! j))"
proof -
  have argc: "fi_argc fni \<le> 12" using opencl_get_clfuninfo_row [of f] fni(1) by auto
  then have "0 + fi_argc fni \<le> 32" "fi_argc fni \<le> MAX_ARGS" by (simp_all add: MAX_ARGS_def)
  from translate_args_correct [of P id_map g w "fi_argc fni" args 0 "fe_ptrargs (fntbl ! cl_value f)",
      OF id_map w fni(2) this(1)]
  obtain w' args' where
    tr: "translate_args id_map (fe_ptrargs (fntbl ! cl_value f)) w 1 (fi_argc fni) args = Inr (w', args')"
    "P w'" "length args' = length args"
    "\<forall>j<length args. args' ! j =
      (if j < fi_argc fni \<and> args ! j \<noteq> 0 \<and> bit (fe_ptrargs (fntbl ! cl_value f)) j
       then g (args ! j) else args ! j)" by auto
  have d: "sint (ucast (er_fun params) :: u32) = int (cl_value f)"
    unfolding params by (rule fun_index [OF cl_value_bound])
  have "clara_execute fntbl id_map w params args retval =
      rbind (pfn w' (params\<lparr>er_retval := retval\<rparr>) args') (\<lambda>(w'', params'', args'').
        Inr (w'', params'', args'', er_retval params'', True))"
    using entry tr(1) fni(1) \<open>fi_argc fni \<le> MAX_ARGS\<close>
    unfolding clara_execute_def d Let_def nat_int cl_function_of_value by simp
  with tr(2-4) show ?thesis by blast
qed

text \<open>A function that is not in the table changes nothing and returns what it was given.\<close>

lemma clara_execute_unknown:
  assumes "cl_value f \<ge> length fntbl \<or> fe_pfn (fntbl ! cl_value f) = None"
    and params: "er_fun params = of_nat (cl_value f)"
  shows "clara_execute fntbl id_map w params args retval = Inr (w, params, args, retval, True)"
proof -
  have d: "sint (ucast (er_fun params) :: u32) = int (cl_value f)"
    unfolding params by (rule fun_index [OF cl_value_bound])
  show ?thesis using assms(1) unfolding clara_execute_def d Let_def nat_int by auto
qed

section \<open>Handlers and their tables\<close>

definition CL_SUCCESS :: arg where "CL_SUCCESS = 0"
definition CL_INVALID_VALUE :: arg where "CL_INVALID_VALUE = -30"
definition CL_INVALID_PLATFORM :: arg where "CL_INVALID_PLATFORM = -32"
definition CL_INVALID_DEVICE :: arg where "CL_INVALID_DEVICE = -33"
definition CL_CONTEXT_PLATFORM :: arg where "CL_CONTEXT_PLATFORM = 0x1084"

text \<open>\<^verbatim>\<open>args->argv[n]\<close> for \<open>n > 0\<close>; \<^verbatim>\<open>args->argv[0]\<close> is the value to return.\<close>

definition argv :: "arg list \<Rightarrow> nat \<Rightarrow> arg" where
  "argv args n = args ! (n - 1)"

definition argv0 :: "execute_request \<Rightarrow> arg \<Rightarrow> execute_request" where
  "argv0 params x = params\<lparr>er_retval := x\<rparr>"

text \<open>\<^verbatim>\<open>ARG1 | ARG3\<close> is \<open>ARGS [1, 3]\<close>.\<close>

definition ARGS :: "nat list \<Rightarrow> u32" where
  "ARGS is = fold (\<lambda>i m. or m (push_bit (i - 1) 1)) is 0"

text \<open>An array with designated initializers: as long as the greatest index needs.\<close>

definition no_entry :: "'w fun_entry" where
  "no_entry = \<lparr>fe_pfn = None, fe_ptrargs = 0\<rparr>"

definition fun_table :: "(cl_function_t \<times> 'w fun_entry) list \<Rightarrow> 'w fun_entry list" where
  "fun_table es =
     map (\<lambda>d. case cl_function_of d of
            None \<Rightarrow> no_entry
          | Some f \<Rightarrow> (case map_of es f of None \<Rightarrow> no_entry | Some e \<Rightarrow> e))
       [0 ..< Suc (fold max (map (\<lambda>(f, _). cl_value f) es) 0)]"

definition entry :: "('w \<Rightarrow> execute_request \<Rightarrow> arg list \<Rightarrow> fault + ('w \<times> execute_request \<times> arg list)) \<Rightarrow>
  nat list \<Rightarrow> 'w fun_entry"
where
  "entry pfn is = \<lparr>fe_pfn = Some pfn, fe_ptrargs = ARGS is\<rparr>"

end
