(* ===== verification/Agent_State.thy ===== *)
theory Agent_State
  imports Rpc
begin

text \<open>
  The state of the agent (\<^verbatim>\<open>agent/src/agent.h\<close>, \<^verbatim>\<open>consumer.h\<close>, \<^verbatim>\<open>provider.h\<close>,
  \<^verbatim>\<open>platform.h\<close>, \<^verbatim>\<open>object.h\<close>): the sets of pointers it keeps and the records they point
  to, each kind in a store of its own. An address is a positive number, 0 the null pointer;
  a freed address is not used again. The buffers of allocations are in the heap memory, whose
  addresses the consumers' calls carry as arguments. The locks of objects and providers are their nesting
  depths, as seen by the thread that holds them.
\<close>

record cl_object =
  ob_id :: global_id
  ob_real :: arg
  ob_refcnt :: u32
  ob_lock :: nat
  ob_provider :: nat
  ob_consumer :: nat

record agent_consumer =
  co_sd :: sd
  co_addr :: sockaddr
  co_attached :: bool
  co_objects :: "nat cset"
  co_allocations :: "clara_allocation cset"
  co_platform :: nat

record agent_provider =
  pv_sd :: sd
  pv_addr :: sockaddr
  pv_attached :: bool
  pv_lock :: nat
  pv_platforms :: "nat cset"

text \<open>
  The strings a platform or device is described by have memory of their own; they are kept as
  values, the bytes of that memory (\<open>None\<close> is the null pointer).
\<close>

record agent_platform =
  pf_profile :: "byte list option"
  pf_version :: "byte list option"
  pf_name :: "byte list option"
  pf_vendor :: "byte list option"
  pf_extensions :: "byte list option"
  pf_provider :: nat
  pf_consumer :: nat
  pf_id :: arg
  pf_global_id :: global_id
  pf_devices :: "nat cset"

text \<open>
  A device: the packed fields before \<^verbatim>\<open>max_work_item_sizes\<close> and those from
  \<^verbatim>\<open>max_work_group_size\<close> to \<^verbatim>\<open>platform_id\<close> are the bytes the code copies as a whole.
\<close>

record agent_device =
  dv_head :: "byte list"
  dv_work_item_sizes :: "byte list option"
  dv_body :: "byte list"
  dv_name :: "byte list option"
  dv_vendor :: "byte list option"
  dv_driver_version :: "byte list option"
  dv_profile :: "byte list option"
  dv_version :: "byte list option"
  dv_extensions :: "byte list option"
  dv_provider :: nat
  dv_id :: arg
  dv_global_id :: global_id

record 'n agent =
  ag_load_balancing :: bool
  ag_providers :: "nat cset"
  ag_consumers :: "nat cset"
  ag_id_pool :: "unit cset"
  ag_objects :: "nat cset"
  ag_lb_platforms :: "nat cset"
  ag_object_heap :: "nat \<rightharpoonup> cl_object"
  ag_consumer_heap :: "nat \<rightharpoonup> agent_consumer"
  ag_provider_heap :: "nat \<rightharpoonup> agent_provider"
  ag_platform_heap :: "nat \<rightharpoonup> agent_platform"
  ag_device_heap :: "nat \<rightharpoonup> agent_device"
  ag_mem :: memory
  ag_next :: nat
  ag_net :: 'n

text \<open>
  The agent through a consumer (cleared when it is detached) or a provider (not initialized
  before it is attached).
\<close>

definition consumer_agent :: "'n agent \<Rightarrow> nat \<Rightarrow> fault + agent_consumer" where
  "consumer_agent ag c =
     rbind (deref (ag_consumer_heap ag) c) (\<lambda>co. if co_attached co then Inr co else Inl Null_Deref)"

definition provider_agent :: "'n agent \<Rightarrow> nat \<Rightarrow> fault + agent_provider" where
  "provider_agent ag p =
     rbind (deref (ag_provider_heap ag) p) (\<lambda>pv. if pv_attached pv then Inr pv else Inl Uninit_Read)"

lemma consumer_agent_eq:
  "consumer_agent ag c = Inr co \<longleftrightarrow> c \<noteq> 0 \<and> ag_consumer_heap ag c = Some co \<and> co_attached co"
  by (auto simp: consumer_agent_def fault_simps)

lemma provider_agent_eq:
  "provider_agent ag p = Inr pv \<longleftrightarrow> p \<noteq> 0 \<and> ag_provider_heap ag p = Some pv \<and> pv_attached pv"
  by (auto simp: provider_agent_def fault_simps)

lemma agent_of_live [simp]:
  "0 < c \<Longrightarrow> ag_consumer_heap ag c = Some co \<Longrightarrow> co_attached co \<Longrightarrow> consumer_agent ag c = Inr co"
  "0 < v \<Longrightarrow> ag_provider_heap ag v = Some pv \<Longrightarrow> pv_attached pv \<Longrightarrow> provider_agent ag v = Inr pv"
  by (simp_all add: consumer_agent_eq provider_agent_eq)

text \<open>Storing into a live object, consumer or provider.\<close>

definition put_object :: "'n agent \<Rightarrow> nat \<Rightarrow> cl_object \<Rightarrow> 'n agent" where
  "put_object ag p ob = ag\<lparr>ag_object_heap := (ag_object_heap ag)(p \<mapsto> ob)\<rparr>"

definition put_consumer :: "'n agent \<Rightarrow> nat \<Rightarrow> agent_consumer \<Rightarrow> 'n agent" where
  "put_consumer ag p co = ag\<lparr>ag_consumer_heap := (ag_consumer_heap ag)(p \<mapsto> co)\<rparr>"

definition put_provider :: "'n agent \<Rightarrow> nat \<Rightarrow> agent_provider \<Rightarrow> 'n agent" where
  "put_provider ag p pv = ag\<lparr>ag_provider_heap := (ag_provider_heap ag)(p \<mapsto> pv)\<rparr>"

definition put_platform :: "'n agent \<Rightarrow> nat \<Rightarrow> agent_platform \<Rightarrow> 'n agent" where
  "put_platform ag p pf = ag\<lparr>ag_platform_heap := (ag_platform_heap ag)(p \<mapsto> pf)\<rparr>"

definition put_device :: "'n agent \<Rightarrow> nat \<Rightarrow> agent_device \<Rightarrow> 'n agent" where
  "put_device ag p dv = ag\<lparr>ag_device_heap := (ag_device_heap ag)(p \<mapsto> dv)\<rparr>"

lemmas put_defs = put_object_def put_consumer_def put_provider_def put_platform_def put_device_def

text \<open>
  What the socket documents of a send that does not fail: the whole message has been taken.
\<close>

definition sends_whole :: "'n sctp \<Rightarrow> bool" where
  "sends_whole net \<longleftrightarrow> (\<forall>s sd bs to r. snd (sctp_sendmsg net s sd bs to) = Some r \<longrightarrow> r = length bs)"

lemma sends_whole_sendmsg:
  assumes "sends_whole net"
  shows "\<exists>s' r. clara_sendmsg net s sd t bs to = Inr (s', r) \<and> (r = None \<or> r = Some (length bs))"
proof (cases "sctp_sendmsg net s sd (enc16 t @ bs) to")
  case (Pair s' r)
  with assms have "r = Some n \<Longrightarrow> n = length (enc16 t @ bs)" for n
    unfolding sends_whole_def by (metis snd_conv)
  with Pair show ?thesis by (cases r) (auto simp: clara_sendmsg_def)
qed

end
