(* ===== verification/Agent_Object.thy ===== *)
theory Agent_Object
  imports Agent_State
begin

text \<open>
  The OpenCL objects of the agent: \<^verbatim>\<open>agent/src/object.c\<close>, \<^verbatim>\<open>opencl_object.c\<close> and
  \<^verbatim>\<open>agent_remote_map\<close> of \<^verbatim>\<open>remote.c\<close>. An object is counted by the references its consumer
  holds, entered in the agent's set of objects and in its consumer's, and takes its identifier
  out of the agent's pool when the last reference goes.
\<close>

section \<open>Operations on objects\<close>

definition object_lock :: "'n agent \<Rightarrow> nat \<Rightarrow> fault + 'n agent" where
  "object_lock ag p =
     rbind (deref (ag_object_heap ag) p) (\<lambda>ob.
     Inr (put_object ag p (ob\<lparr>ob_lock := ob_lock ob + 1\<rparr>)))"

definition object_unlock :: "'n agent \<Rightarrow> nat \<Rightarrow> fault + 'n agent" where
  "object_unlock ag p =
     rbind (deref (ag_object_heap ag) p) (\<lambda>ob.
     rbind (c_assert (ob_lock ob > 0)) (\<lambda>_.
     Inr (put_object ag p (ob\<lparr>ob_lock := ob_lock ob - 1\<rparr>))))"

text \<open>\<^verbatim>\<open>set_insert\<close> and \<^verbatim>\<open>set_remove\<close> on the set of a consumer's objects, asserted.\<close>

definition consumer_add_object :: "'n agent \<Rightarrow> nat \<Rightarrow> global_id \<Rightarrow> nat \<Rightarrow> fault + 'n agent" where
  "consumer_add_object ag c k p =
     rbind (deref (ag_consumer_heap ag) c) (\<lambda>co.
     rbind (set_insert (co_objects co) k p) (\<lambda>(objs, ok).
     rbind (c_assert ok) (\<lambda>_. Inr (put_consumer ag c (co\<lparr>co_objects := objs\<rparr>)))))"

definition consumer_drop_object :: "'n agent \<Rightarrow> nat \<Rightarrow> global_id \<Rightarrow> fault + 'n agent" where
  "consumer_drop_object ag c k =
     rbind (deref (ag_consumer_heap ag) c) (\<lambda>co.
     rbind (set_remove (co_objects co) k) (\<lambda>(objs, ok).
     rbind (c_assert ok) (\<lambda>_. Inr (put_consumer ag c (co\<lparr>co_objects := objs\<rparr>)))))"

definition object_create ::
  "'n agent \<Rightarrow> nat \<Rightarrow> arg \<Rightarrow> global_id \<Rightarrow> fault + ('n agent \<times> nat option)"
where
  "object_create ag provider real_id key =
     (if real_id = 0 \<or> provider = 0 \<or> key = 0 then Inr (ag, None)
      else
        let p = ag_next ag;
            ob = \<lparr>ob_id = key, ob_real = real_id, ob_refcnt = 0, ob_lock = 0,
                  ob_provider = provider, ob_consumer = 0\<rparr>;
            ag1 = (put_object ag p ob)\<lparr>ag_next := p + 1\<rparr>
        in rbind (provider_agent ag1 provider) (\<lambda>pv.
           rbind (set_insert (ag_objects ag1) key p) (\<lambda>(objs, ok).
           rbind (c_assert ok) (\<lambda>_. Inr (ag1\<lparr>ag_objects := objs\<rparr>, Some p)))))"

definition object_retain :: "'n agent \<Rightarrow> nat \<Rightarrow> nat \<Rightarrow> fault + ('n agent \<times> bool)" where
  "object_retain ag p consumer =
     rbind (object_lock ag p) (\<lambda>ag1.
     rbind (deref (ag_object_heap ag1) p) (\<lambda>ob.
     if ob_refcnt ob > 0 \<and> consumer \<noteq> ob_consumer ob then
       rbind (object_unlock ag1 p) (\<lambda>ag2. Inr (ag2, False))
     else
       rbind
         (if ob_refcnt ob = 0 then
            consumer_add_object (put_object ag1 p (ob\<lparr>ob_consumer := consumer\<rparr>)) consumer (ob_id ob) p
          else Inr ag1) (\<lambda>ag2.
       rbind (deref (ag_object_heap ag2) p) (\<lambda>ob2.
       rbind (object_unlock (put_object ag2 p (ob2\<lparr>ob_refcnt := ob_refcnt ob2 + 1\<rparr>)) p) (\<lambda>ag3.
       Inr (ag3, True))))))"

definition object_release :: "'n agent \<Rightarrow> nat \<Rightarrow> fault + 'n agent" where
  "object_release ag p =
     rbind (object_lock ag p) (\<lambda>ag1.
     rbind (deref (ag_object_heap ag1) p) (\<lambda>ob0.
     let ob = ob0\<lparr>ob_refcnt := ob_refcnt ob0 - 1\<rparr>;
         ag2 = put_object ag1 p ob
     in rbind
          (if ob_refcnt ob = 0 then
             rbind (consumer_drop_object ag2 (ob_consumer ob) (ob_id ob)) (\<lambda>ag3.
             Inr (put_object ag3 p (ob\<lparr>ob_consumer := 0\<rparr>)))
           else Inr ag2) (\<lambda>ag4.
        object_unlock ag4 p)))"

text \<open>
  The lock outlives the object: it is posted, then destroyed, after the object is freed. Its
  depth is read before, and \<^verbatim>\<open>lock_post\<close> asserts that the caller holds it.
\<close>

definition object_destroy :: "'n agent \<Rightarrow> nat \<Rightarrow> fault + ('n agent \<times> bool)" where
  "object_destroy ag p =
     rbind (deref (ag_object_heap ag) p) (\<lambda>ob.
     if ob_refcnt ob \<noteq> 0 then Inr (ag, False)
     else
       rbind (provider_agent ag (ob_provider ob)) (\<lambda>pv.
       rbind (set_remove (ag_objects ag) (ob_id ob)) (\<lambda>(objs, ok).
       rbind (c_assert ok) (\<lambda>_.
       rbind (c_assert (ob_lock ob > 0)) (\<lambda>_.
       Inr (ag\<lparr>ag_objects := objs, ag_object_heap := (ag_object_heap ag)(p := None)\<rparr>, True))))))"

section \<open>The generic handlers\<close>

definition agent_remote_map :: "'n sctp \<Rightarrow> 'n agent \<Rightarrow> nat \<Rightarrow> arg \<Rightarrow> global_id \<Rightarrow> fault + ('n agent \<times> bool)" where
  "agent_remote_map net ag provider real virt =
     rbind (deref (ag_provider_heap ag) provider) (\<lambda>pv.
     rbind (clara_sendmsg net (ag_net ag) (pv_sd pv) CLARA_MSG_MAPPING (enc64 virt @ enc64 real) (pv_addr pv))
       (\<lambda>(s', ssz).
     case ssz of
       None \<Rightarrow> Inr (ag\<lparr>ag_net := s'\<rparr>, False)
     | Some n \<Rightarrow> rbind (c_assert (n = 16)) (\<lambda>_. Inr (ag\<lparr>ag_net := s'\<rparr>, True))))"

text \<open>The results of \<^verbatim>\<open>rand()\<close> are \<open>rs\<close>; \<open>None\<close>: \<^verbatim>\<open>id_create\<close> is still drawing.\<close>

definition clCreateObject ::
  "'n sctp \<Rightarrow> int list \<Rightarrow> 'n agent \<Rightarrow> nat \<Rightarrow> nat \<Rightarrow> arg \<Rightarrow> global_id \<Rightarrow> fault + ('n agent \<times> global_id) option"
where
  "clCreateObject net rs ag provider consumer local_id wish =
     rbind (provider_agent ag provider) (\<lambda>_.
     if local_id = 0 then Inr (Some (ag, 0))
     else
       rbind
         (if wish = 0 then id_create (ag_id_pool ag) rs
          else Inr (Some (ag_id_pool ag, wish, rs))) (\<lambda>r.
       case r of
         None \<Rightarrow> Inr None
       | Some (pool, key, rs') \<Rightarrow>
           rbind (object_create (ag\<lparr>ag_id_pool := pool\<rparr>) provider local_id key) (\<lambda>(ag1, obj).
           case obj of
             None \<Rightarrow> Inl Assertion_Failed
           | Some p \<Rightarrow>
               rbind (object_retain ag1 p consumer) (\<lambda>(ag2, ok).
               rbind (c_assert ok) (\<lambda>_.
               if wish = 0 then
                 rbind (agent_remote_map net ag2 provider local_id key) (\<lambda>(ag3, _).
                 Inr (Some (ag3, key)))
               else Inr (Some (ag2, key)))))))"

definition clRetainObject :: "'n agent \<Rightarrow> nat \<Rightarrow> global_id \<Rightarrow> fault + ('n agent \<times> bool)" where
  "clRetainObject ag consumer key =
     rbind (consumer_agent ag consumer) (\<lambda>co.
     rbind (set_find (ag_objects ag) key) (\<lambda>r.
     case r of
       None \<Rightarrow> Inr (ag, False)
     | Some p \<Rightarrow>
         rbind (object_retain ag p consumer) (\<lambda>(ag1, ok).
         rbind (c_assert ok) (\<lambda>_. Inr (ag1, True)))))"

definition clReleaseObject :: "'n agent \<Rightarrow> nat \<Rightarrow> global_id \<Rightarrow> fault + ('n agent \<times> bool)" where
  "clReleaseObject ag consumer key =
     rbind (consumer_agent ag consumer) (\<lambda>co.
     rbind (set_find (ag_objects ag) key) (\<lambda>r.
     case r of
       None \<Rightarrow> Inr (ag, False)
     | Some p \<Rightarrow>
         rbind (object_lock ag p) (\<lambda>ag1.
         rbind (object_release ag1 p) (\<lambda>ag2.
         rbind (deref (ag_object_heap ag2) p) (\<lambda>ob.
         if ob_refcnt ob = 0 then
           rbind (provider_agent ag2 (ob_provider ob)) (\<lambda>_.
           rbind (id_release (ag_id_pool ag2) key) (\<lambda>(pool, ok).
           rbind (c_assert ok) (\<lambda>_.
           rbind (object_destroy (ag2\<lparr>ag_id_pool := pool\<rparr>) p) (\<lambda>(ag3, ok').
           rbind (c_assert ok') (\<lambda>_. Inr (ag3, True))))))
         else
           rbind (object_unlock ag2 p) (\<lambda>ag3. Inr (ag3, True)))))))"

section \<open>Single operations\<close>

lemma object_retain_again:
  assumes "ag_object_heap ag p = Some ob" and "p \<noteq> 0" and "ob_refcnt ob \<noteq> 0" and "ob_consumer ob = c"
  shows "object_retain ag p c = Inr (put_object ag p (ob\<lparr>ob_refcnt := ob_refcnt ob + 1\<rparr>), True)"
  using assms by (simp add: object_retain_def object_lock_def object_unlock_def deref_def put_object_def)

lemma object_retain_denied:
  assumes "ag_object_heap ag p = Some ob" and "p \<noteq> 0" and "ob_refcnt ob \<noteq> 0" and "ob_consumer ob \<noteq> c"
  shows "object_retain ag p c = Inr (ag, False)"
  using assms
  by (auto simp: word_neq_0_conv object_retain_def object_lock_def object_unlock_def deref_def put_object_def fun_upd_idem)

lemma object_retain_first:
  assumes "ag_object_heap ag p = Some ob" and "p \<noteq> 0" and "ob_refcnt ob = 0"
    and "ag_consumer_heap ag c = Some co" and "c \<noteq> 0"
    and "set_insert (co_objects co) (ob_id ob) p = Inr (objs, True)"
  shows "object_retain ag p c =
    Inr (put_consumer (put_object ag p (ob\<lparr>ob_refcnt := 1, ob_consumer := c\<rparr>)) c
           (co\<lparr>co_objects := objs\<rparr>), True)"
  using assms
  by (cases ag; cases ob)
     (simp add: object_retain_def object_lock_def object_unlock_def consumer_add_object_def deref_def
       put_object_def put_consumer_def)

lemma object_release_more:
  assumes "ag_object_heap ag p = Some ob" and "p \<noteq> 0" and "ob_refcnt ob \<noteq> 1"
  shows "object_release ag p = Inr (put_object ag p (ob\<lparr>ob_refcnt := ob_refcnt ob - 1\<rparr>))"
  using assms
  by (simp add: object_release_def object_lock_def object_unlock_def deref_def put_object_def)

lemma object_release_last:
  assumes "ag_object_heap ag p = Some ob" and "p \<noteq> 0" and "ob_refcnt ob = 1"
    and "ag_consumer_heap ag (ob_consumer ob) = Some co" and "ob_consumer ob \<noteq> 0"
    and "set_remove (co_objects co) (ob_id ob) = Inr (objs, True)"
  shows "object_release ag p =
    Inr (put_consumer (put_object ag p (ob\<lparr>ob_refcnt := 0, ob_consumer := 0\<rparr>)) (ob_consumer ob)
           (co\<lparr>co_objects := objs\<rparr>))"
  using assms
  by (cases ag; cases ob)
     (simp add: object_release_def object_lock_def object_unlock_def consumer_drop_object_def deref_def
       put_object_def put_consumer_def)

lemma object_create_fresh:
  assumes "real \<noteq> 0" "provider \<noteq> 0" "key \<noteq> 0"
    and "ag_provider_heap ag provider = Some pv" "pv_attached pv"
    and "set_insert (ag_objects ag) key (ag_next ag) = Inr (objs, True)"
  shows "object_create ag provider real key =
    Inr (put_object ag (ag_next ag) \<lparr>ob_id = key, ob_real = real, ob_refcnt = 0, ob_lock = 0,
           ob_provider = provider, ob_consumer = 0\<rparr> \<lparr>ag_next := ag_next ag + 1, ag_objects := objs\<rparr>,
         Some (ag_next ag))"
  using assms by (simp add: object_create_def provider_agent_def deref_def put_object_def Let_def)

section \<open>The invariant\<close>

text \<open>
  The set of objects and the object store agree, and an object with references is entered in
  its consumer's set under its identifier, which the pool holds. An object without references
  (a platform or device, which the agent enters itself) has no consumer.
\<close>

definition table_inv :: "'n agent \<Rightarrow> bool" where
  "table_inv ag \<longleftrightarrow> set_wf (ag_objects ag) \<and> pool_wf (ag_id_pool ag) \<and>
     (\<forall>k p. set_map (ag_objects ag) k = Some p \<longleftrightarrow> (\<exists>ob. ag_object_heap ag p = Some ob \<and> ob_id ob = k))"

definition heap_inv :: "'n agent \<Rightarrow> bool" where
  "heap_inv ag \<longleftrightarrow> ag_next ag > 0 \<and>
     (\<forall>p. ag_object_heap ag p \<noteq> None \<longrightarrow> 0 < p \<and> p < ag_next ag) \<and>
     (\<forall>c. ag_consumer_heap ag c \<noteq> None \<longrightarrow> 0 < c) \<and> (\<forall>v. ag_provider_heap ag v \<noteq> None \<longrightarrow> 0 < v)"

definition live_inv :: "'n agent \<Rightarrow> bool" where
  "live_inv ag \<longleftrightarrow> (\<forall>p ob. ag_object_heap ag p = Some ob \<longrightarrow>
     ob_lock ob = 0 \<and> ob_id ob \<in> pool_ids (ag_id_pool ag) \<and>
     (if ob_refcnt ob = 0 then ob_consumer ob = 0 else ag_consumer_heap ag (ob_consumer ob) \<noteq> None) \<and>
     (\<exists>pv. ag_provider_heap ag (ob_provider ob) = Some pv \<and> pv_attached pv))"

definition owner_sets_inv :: "'n agent \<Rightarrow> bool" where
  "owner_sets_inv ag \<longleftrightarrow> (\<forall>c co. ag_consumer_heap ag c = Some co \<longrightarrow> set_wf (co_objects co) \<and>
     (\<forall>k p. set_map (co_objects co) k = Some p \<longleftrightarrow>
       (\<exists>ob. ag_object_heap ag p = Some ob \<and> ob_id ob = k \<and> ob_consumer ob = c)))"

definition object_inv :: "'n agent \<Rightarrow> bool" where
  "object_inv ag \<longleftrightarrow> table_inv ag \<and> heap_inv ag \<and> live_inv ag \<and> owner_sets_inv ag"

definition object_room :: "'n agent \<Rightarrow> bool" where
  "object_room ag \<longleftrightarrow> set_room (ag_objects ag) \<and> set_room (ag_id_pool ag) \<and>
     (\<forall>c co. ag_consumer_heap ag c = Some co \<longrightarrow> set_room (co_objects co))"

lemmas object_inv_defs = object_inv_def table_inv_def heap_inv_def live_inv_def owner_sets_inv_def

lemma object_invD:
  assumes "object_inv ag"
  shows "set_wf (ag_objects ag)" and "pool_wf (ag_id_pool ag)"
    and "set_map (ag_objects ag) k = Some p \<longleftrightarrow> (\<exists>ob. ag_object_heap ag p = Some ob \<and> ob_id ob = k)"
    and "0 < ag_next ag"
    and "ag_object_heap ag p = Some ob \<Longrightarrow> 0 < p \<and> p < ag_next ag"
    and "ag_consumer_heap ag c = Some co \<Longrightarrow> 0 < c"
    and "ag_provider_heap ag v = Some pv \<Longrightarrow> 0 < v"
    and "ag_object_heap ag p = Some ob \<Longrightarrow> ob_lock ob = 0 \<and> ob_id ob \<in> pool_ids (ag_id_pool ag) \<and>
      (ob_refcnt ob = 0 \<longrightarrow> ob_consumer ob = 0)"
    and "ag_object_heap ag p = Some ob \<Longrightarrow> ob_refcnt ob \<noteq> 0 \<Longrightarrow>
      \<exists>co. ag_consumer_heap ag (ob_consumer ob) = Some co"
    and "ag_object_heap ag p = Some ob \<Longrightarrow>
      \<exists>pv. ag_provider_heap ag (ob_provider ob) = Some pv \<and> pv_attached pv"
    and "ag_consumer_heap ag c = Some co \<Longrightarrow> set_wf (co_objects co)"
    and "ag_consumer_heap ag c = Some co \<Longrightarrow> set_map (co_objects co) k = Some p \<longleftrightarrow>
       (\<exists>ob. ag_object_heap ag p = Some ob \<and> ob_id ob = k \<and> ob_consumer ob = c)"
  using assms unfolding object_inv_defs by (auto split: if_splits)

text \<open>The abstract object table: what a consumer can observe of the objects.\<close>

record object_entry =
  oe_real :: arg
  oe_provider :: nat
  oe_consumer :: nat
  oe_refcnt :: nat

definition entry_of :: "cl_object \<Rightarrow> object_entry" where
  "entry_of ob = \<lparr>oe_real = ob_real ob, oe_provider = ob_provider ob, oe_consumer = ob_consumer ob,
     oe_refcnt = unat (ob_refcnt ob)\<rparr>"

definition object_table :: "'n agent \<Rightarrow> global_id \<rightharpoonup> object_entry" where
  "object_table ag k =
     (case set_map (ag_objects ag) k of
        None \<Rightarrow> None
      | Some p \<Rightarrow> map_option entry_of (ag_object_heap ag p))"

lemma object_table_Some:
  assumes "object_inv ag" and "object_table ag k = Some e"
  obtains p ob where "set_map (ag_objects ag) k = Some p" and "ag_object_heap ag p = Some ob"
    and "ob_id ob = k" and "p \<noteq> 0" and "e = entry_of ob"
proof -
  from assms(2) obtain p where p: "set_map (ag_objects ag) k = Some p"
    "map_option entry_of (ag_object_heap ag p) = Some e"
    by (auto simp: object_table_def split: option.splits)
  with object_invD(3,5) [OF assms(1)] that show thesis by fastforce
qed

lemma object_table_None:
  assumes "object_inv ag" and "object_table ag k = None"
  shows "set_map (ag_objects ag) k = None"
proof (cases "set_map (ag_objects ag) k")
  case (Some p)
  then show ?thesis using assms object_invD(3) [OF assms(1), of k p] by (auto simp: object_table_def)
qed simp

text \<open>Two live objects have different identifiers.\<close>

lemma object_id_inj:
  assumes "object_inv ag" and "ag_object_heap ag p = Some ob" and "ag_object_heap ag q = Some ob'"
    and "ob_id ob = ob_id ob'"
  shows "p = q"
proof -
  have "set_map (ag_objects ag) (ob_id ob) = Some p" "set_map (ag_objects ag) (ob_id ob) = Some q"
    using assms unfolding object_inv_def table_inv_def by auto
  then show ?thesis by simp
qed

text \<open>Counting a reference up or down keeps everything else.\<close>

lemma object_inv_refcnt:
  assumes inv: "object_inv ag" and ob: "ag_object_heap ag p = Some ob" "ob_refcnt ob \<noteq> 0" and r: "r \<noteq> 0"
  shows "object_inv (put_object ag p (ob\<lparr>ob_refcnt := r\<rparr>))"
    and "object_table (put_object ag p (ob\<lparr>ob_refcnt := r\<rparr>)) =
      (object_table ag)(ob_id ob \<mapsto> (entry_of ob)\<lparr>oe_refcnt := unat r\<rparr>)"
proof -
  let ?ag = "put_object ag p (ob\<lparr>ob_refcnt := r\<rparr>)"
  have eq: "(\<exists>ob'. ag_object_heap ?ag q = Some ob' \<and> ob_id ob' = k \<and> Q (ob_consumer ob')) \<longleftrightarrow>
      (\<exists>ob'. ag_object_heap ag q = Some ob' \<and> ob_id ob' = k \<and> Q (ob_consumer ob'))" for q k Q
    using ob by (auto simp: put_object_def)
  from inv have "table_inv ?ag"
    using eq [of _ _ "\<lambda>_. True"] by (simp add: object_inv_def table_inv_def) (simp add: put_object_def)
  moreover from inv have "heap_inv ?ag"
    using ob by (auto simp: object_inv_def heap_inv_def put_object_def)
  moreover from inv have "live_inv ?ag"
    using ob r by (auto simp: object_inv_def live_inv_def put_object_def)
  moreover from inv have "owner_sets_inv ?ag"
    using ob by (auto simp: object_inv_def owner_sets_inv_def put_object_def)
  ultimately show "object_inv ?ag" by (simp add: object_inv_def)
  show "object_table ?ag = (object_table ag)(ob_id ob \<mapsto> (entry_of ob)\<lparr>oe_refcnt := unat r\<rparr>)"
  proof
    fix k
    have m: "set_map (ag_objects ag) k = Some p \<longleftrightarrow> k = ob_id ob"
      using object_invD(3) [OF inv, of k p] ob by auto
    show "object_table ?ag k =
        ((object_table ag)(ob_id ob \<mapsto> (entry_of ob)\<lparr>oe_refcnt := unat r\<rparr>)) k"
    proof (cases "k = ob_id ob")
      case True
      then show ?thesis using m by (simp add: object_table_def put_object_def entry_of_def)
    next
      case False
      then show ?thesis using m
        by (cases "set_map (ag_objects ag) k") (auto simp: object_table_def put_object_def)
    qed
  qed
qed

section \<open>Entering and claiming an object\<close>

text \<open>A new object without references, under an identifier the pool now holds.\<close>

lemma object_inv_enter:
  assumes inv: "object_inv ag" and k: "set_map (ag_objects ag) k = None" and p: "p = ag_next ag"
    and objs: "set_wf (ag_objects ag')" "set_map (ag_objects ag') = (set_map (ag_objects ag))(k \<mapsto> p)"
    and pool: "pool_wf (ag_id_pool ag')" "insert k (pool_ids (ag_id_pool ag)) = pool_ids (ag_id_pool ag')"
    and heap: "ag_object_heap ag' = (ag_object_heap ag)(p \<mapsto> ob)" "ag_next ag' = p + 1"
    and ob: "ob_id ob = k" "ob_refcnt ob = 0" "ob_lock ob = 0" "ob_consumer ob = 0"
    and c: "ag_consumer_heap ag' = ag_consumer_heap ag"
    and v: "ag_provider_heap ag' = ag_provider_heap ag" "ag_provider_heap ag (ob_provider ob) = Some pv"
      "pv_attached pv"
  shows "object_inv ag'" and "object_table ag' = (object_table ag)(k \<mapsto> entry_of ob)"
proof -
  have new: "ag_object_heap ag p = None"
    using object_invD(5) [OF inv, of p] p by (cases "ag_object_heap ag p") auto
  have old: "ob_id ob' \<noteq> k" if "ag_object_heap ag q = Some ob'" for q ob'
    using object_invD(3) [OF inv, of k q] k that by auto
  have "table_inv ag'"
    unfolding table_inv_def
  proof (intro conjI allI objs(1) pool(1))
    fix j q
    show "set_map (ag_objects ag') j = Some q \<longleftrightarrow> (\<exists>ob. ag_object_heap ag' q = Some ob \<and> ob_id ob = j)"
      using object_invD(3) [OF inv, of j q] new old k objs(2) heap(1) ob(1)
      by (cases "q = p"; cases "j = k") auto
  qed
  moreover have "heap_inv ag'"
    using inv heap p c v(1) unfolding object_inv_def heap_inv_def by (auto simp: less_Suc_eq)
  moreover have "live_inv ag'"
    using inv heap(1) ob c v pool(2) unfolding object_inv_def live_inv_def by auto
  moreover have "owner_sets_inv ag'"
    unfolding owner_sets_inv_def
  proof (intro allI impI conjI)
    fix d dco j q
    assume "ag_consumer_heap ag' d = Some dco"
    then have d: "ag_consumer_heap ag d = Some dco" by (simp add: c)
    show "set_wf (co_objects dco)" by (rule object_invD(11) [OF inv d])
    show "set_map (co_objects dco) j = Some q \<longleftrightarrow>
        (\<exists>ob. ag_object_heap ag' q = Some ob \<and> ob_id ob = j \<and> ob_consumer ob = d)"
      using object_invD(12) [OF inv d, of j q] object_invD(6) [OF inv d] heap(1) new ob(4) by auto
  qed
  ultimately show "object_inv ag'" by (simp add: object_inv_def)
  show "object_table ag' = (object_table ag)(k \<mapsto> entry_of ob)"
  proof
    fix j
    have "set_map (ag_objects ag) j \<noteq> Some p"
      using inv new by (auto simp: object_inv_def table_inv_def)
    then show "object_table ag' j = ((object_table ag)(k \<mapsto> entry_of ob)) j"
      using objs(2) heap(1) by (auto simp: object_table_def split: option.splits)
  qed
qed

text \<open>The first reference gives an object its consumer.\<close>

lemma object_inv_claim:
  assumes inv: "object_inv ag" and ob: "ag_object_heap ag p = Some ob" "ob_refcnt ob = 0"
    and co: "ag_consumer_heap ag c = Some co"
    and cos: "set_wf cos" "set_map cos = (set_map (co_objects co))(ob_id ob \<mapsto> p)"
    and ag': "ag' = put_consumer (put_object ag p (ob\<lparr>ob_refcnt := 1, ob_consumer := c\<rparr>)) c
      (co\<lparr>co_objects := cos\<rparr>)"
  shows "object_inv ag'"
    and "object_table ag' = (object_table ag)(ob_id ob \<mapsto> (entry_of ob)\<lparr>oe_consumer := c, oe_refcnt := 1\<rparr>)"
proof -
  have c0: "0 < c" using object_invD(6) [OF inv co] .
  have only: "ob_id ob' = ob_id ob \<longleftrightarrow> q = p" if "ag_object_heap ag q = Some ob'" for q ob'
    using object_id_inj [OF inv that ob(1)] that ob(1) by auto
  have eq: "(\<exists>ob'. ag_object_heap ag' q = Some ob' \<and> ob_id ob' = k) \<longleftrightarrow>
      (\<exists>ob'. ag_object_heap ag q = Some ob' \<and> ob_id ob' = k)" for q k
    using ob by (auto simp: ag' put_object_def put_consumer_def)
  from inv have "table_inv ag'"
    unfolding object_inv_def table_inv_def eq by (simp add: ag' put_object_def put_consumer_def)
  moreover from inv have "heap_inv ag'"
    using ob co by (auto simp: ag' object_inv_def heap_inv_def put_object_def put_consumer_def)
  moreover have "live_inv ag'"
    unfolding live_inv_def
  proof (intro allI impI)
    fix q ob'
    assume q: "ag_object_heap ag' q = Some ob'"
    show "ob_lock ob' = 0 \<and> ob_id ob' \<in> pool_ids (ag_id_pool ag') \<and>
      (if ob_refcnt ob' = 0 then ob_consumer ob' = 0 else ag_consumer_heap ag' (ob_consumer ob') \<noteq> None) \<and>
      (\<exists>pv. ag_provider_heap ag' (ob_provider ob') = Some pv \<and> pv_attached pv)"
    proof (cases "q = p")
      case True
      then show ?thesis using q object_invD(8,10) [OF inv ob(1)]
        by (auto simp: ag' put_object_def put_consumer_def)
    next
      case False
      then have "ag_object_heap ag q = Some ob'" using q by (simp add: ag' put_object_def put_consumer_def)
      from object_invD(8,9,10) [OF inv this] show ?thesis
        by (auto simp: ag' put_object_def put_consumer_def)
    qed
  qed
  moreover have "owner_sets_inv ag'"
    unfolding owner_sets_inv_def
  proof (intro allI impI conjI)
    fix d dco j q
    assume d: "ag_consumer_heap ag' d = Some dco"
    then have d': "ag_consumer_heap ag d \<noteq> None" using co by (auto simp: ag' put_object_def put_consumer_def split: if_splits)
    then obtain eco where eco: "ag_consumer_heap ag d = Some eco" by blast
    show "set_wf (co_objects dco)"
      using d cos(1) object_invD(11) [OF inv eco] eco
      by (auto simp: ag' put_object_def put_consumer_def split: if_splits)
    show "set_map (co_objects dco) j = Some q \<longleftrightarrow>
        (\<exists>ob. ag_object_heap ag' q = Some ob \<and> ob_id ob = j \<and> ob_consumer ob = d)"
      using object_invD(12) [OF inv eco, of j q] d eco co cos(2) ob only [of q] c0
        object_invD(6) [OF inv eco] object_invD(8) [OF inv ob(1)]
      by (cases "d = c"; cases "q = p") (auto simp: ag' put_object_def put_consumer_def split: if_splits)
  qed
  ultimately show "object_inv ag'" by (simp add: object_inv_def)
  show "object_table ag' = (object_table ag)(ob_id ob \<mapsto> (entry_of ob)\<lparr>oe_consumer := c, oe_refcnt := 1\<rparr>)"
  proof
    fix j
    have m: "set_map (ag_objects ag) j = Some p \<longleftrightarrow> j = ob_id ob"
      using object_invD(3) [OF inv, of j p] ob by auto
    then show "object_table ag' j =
        ((object_table ag)(ob_id ob \<mapsto> (entry_of ob)\<lparr>oe_consumer := c, oe_refcnt := 1\<rparr>)) j"
      by (cases "j = ob_id ob"; cases "set_map (ag_objects ag) j")
         (auto simp: object_table_def ag' put_object_def put_consumer_def entry_of_def)
  qed
qed

text \<open>\<^verbatim>\<open>object_retain\<close> on an object without references.\<close>

lemma object_retain_claims:
  assumes inv: "object_inv ag" and ob: "ag_object_heap ag p = Some ob" "ob_refcnt ob = 0"
    and co: "ag_consumer_heap ag c = Some co" and room: "set_room (co_objects co)"
  shows "\<exists>ag'. object_retain ag p c = Inr (ag', True) \<and> object_inv ag' \<and>
    ag_id_pool ag' = ag_id_pool ag \<and> ag_provider_heap ag' = ag_provider_heap ag \<and>
    object_table ag' = (object_table ag)(ob_id ob \<mapsto> (entry_of ob)\<lparr>oe_consumer := c, oe_refcnt := 1\<rparr>)"
proof -
  have c0: "0 < c" and p0: "0 < p" using object_invD(5,6) [OF inv] co ob by auto
  have none: "set_map (co_objects co) (ob_id ob) = None"
  proof (cases "set_map (co_objects co) (ob_id ob)")
    case (Some q)
    then obtain ob' where "ag_object_heap ag q = Some ob'" "ob_id ob' = ob_id ob" "ob_consumer ob' = c"
      using object_invD(12) [OF inv co, of "ob_id ob" q] by auto
    then show ?thesis using object_id_inj [OF inv _ ob(1), of q ob'] ob c0 object_invD(8) [OF inv ob(1)] by auto
  qed simp
  from set_insert_map [OF object_invD(11) [OF inv co], of "ob_id ob" p] room none obtain cos where
    cos: "set_insert (co_objects co) (ob_id ob) p = Inr (cos, True)" "set_wf cos"
      "set_map cos = (set_map (co_objects co))(ob_id ob \<mapsto> p)" by auto
  from object_retain_first [OF ob(1) _ ob(2) co _ cos(1)] p0 c0
    object_inv_claim [OF inv ob co cos(2,3) refl]
  show ?thesis by (simp add: put_object_def put_consumer_def)
qed

section \<open>Creation\<close>

text \<open>Sending a message to the provider changes only the network.\<close>

lemma object_inv_net: "object_inv (ag\<lparr>ag_net := s\<rparr>) = object_inv ag"
  "object_table (ag\<lparr>ag_net := s\<rparr>) = object_table ag"
  by (simp add: object_inv_defs) (auto simp: object_table_def fun_eq_iff split: option.splits)

lemma agent_remote_map_total:
  assumes "sends_whole net" and "ag_provider_heap ag v = Some pv" and "v \<noteq> 0"
  shows "\<exists>s' b. agent_remote_map net ag v real virt = Inr (ag\<lparr>ag_net := s'\<rparr>, b)"
  using sends_whole_sendmsg [OF assms(1), of "ag_net ag" "pv_sd pv" CLARA_MSG_MAPPING
      "enc64 virt @ enc64 real" "pv_addr pv"] assms(2,3)
  by (auto simp: agent_remote_map_def deref_def c_assert_def)

lemma object_table_fresh:
  assumes "object_inv ag" and "k \<notin> pool_ids (ag_id_pool ag)"
  shows "set_map (ag_objects ag) k = None"
proof (cases "set_map (ag_objects ag) k")
  case (Some q)
  then obtain ob where "ag_object_heap ag q = Some ob" "ob_id ob = k"
    using object_invD(3) [OF assms(1), of k q] by auto
  then show ?thesis using object_invD(8) [OF assms(1), of q ob] assms(2) by auto
qed simp

text \<open>\<^verbatim>\<open>object_create\<close> under an identifier that was just taken into the pool.\<close>

lemma object_create_enters:
  assumes inv: "object_inv ag" and room: "object_room ag"
    and pool: "pool_wf pool" "pool_ids pool = insert k (pool_ids (ag_id_pool ag))"
    and k: "set_map (ag_objects ag) k = None" "k \<noteq> 0" and real: "real \<noteq> 0"
    and pv: "ag_provider_heap ag v = Some pv" "pv_attached pv"
  shows "\<exists>ag'. object_create (ag\<lparr>ag_id_pool := pool\<rparr>) v real k = Inr (ag', Some (ag_next ag)) \<and>
    object_inv ag' \<and> ag_id_pool ag' = pool \<and> ag_consumer_heap ag' = ag_consumer_heap ag \<and>
    ag_provider_heap ag' = ag_provider_heap ag \<and>
    ag_object_heap ag' (ag_next ag) = Some \<lparr>ob_id = k, ob_real = real, ob_refcnt = 0, ob_lock = 0,
      ob_provider = v, ob_consumer = 0\<rparr> \<and>
    object_table ag' = (object_table ag)(k \<mapsto>
      \<lparr>oe_real = real, oe_provider = v, oe_consumer = 0, oe_refcnt = 0\<rparr>)"
proof -
  let ?p = "ag_next ag"
  let ?ob = "\<lparr>ob_id = k, ob_real = real, ob_refcnt = 0, ob_lock = 0, ob_provider = v, ob_consumer = 0\<rparr>"
  have v0: "v \<noteq> 0" using object_invD(7) [OF inv] pv by auto
  from set_insert_map [OF object_invD(1) [OF inv], of k ?p] room k(1) obtain objs where
    objs: "set_insert (ag_objects ag) k ?p = Inr (objs, True)" "set_wf objs"
      "set_map objs = (set_map (ag_objects ag))(k \<mapsto> ?p)" by (auto simp: object_room_def)
  let ?ag1 = "put_object (ag\<lparr>ag_id_pool := pool\<rparr>) ?p ?ob \<lparr>ag_next := ?p + 1, ag_objects := objs\<rparr>"
  have cr: "object_create (ag\<lparr>ag_id_pool := pool\<rparr>) v real k = Inr (?ag1, Some ?p)"
    using object_create_fresh [of real v k "ag\<lparr>ag_id_pool := pool\<rparr>" pv objs] real v0 k(2) pv objs(1)
    by simp
  have "object_inv ?ag1 \<and> object_table ?ag1 = (object_table ag)(k \<mapsto> entry_of ?ob)"
    using objs(2,3) pool pv
    by (intro conjI object_inv_enter [OF inv k(1) refl, where ob = ?ob and pv = pv])
       (simp_all add: put_object_def)
  with cr show ?thesis by (simp add: entry_of_def) (simp add: put_object_def)
qed

lemma clCreateObject_correct:
  assumes inv: "object_inv ag" and room: "object_room ag" and net: "sends_whole net"
    and pv: "ag_provider_heap ag v = Some pv" "pv_attached pv"
    and co: "ag_consumer_heap ag c = Some co" and real: "real \<noteq> 0"
    and k: "first_nonzero rs = Some k" "k \<notin> pool_ids (ag_id_pool ag)"
  shows "\<exists>ag'. clCreateObject net rs ag v c real 0 = Inr (Some (ag', k)) \<and> k \<noteq> 0 \<and> object_inv ag' \<and>
    pool_ids (ag_id_pool ag') = insert k (pool_ids (ag_id_pool ag)) \<and>
    object_table ag' = (object_table ag)(k \<mapsto>
      \<lparr>oe_real = real, oe_provider = v, oe_consumer = c, oe_refcnt = 1\<rparr>)"
proof -
  have v0: "v \<noteq> 0" using object_invD(7) [OF inv] pv by auto
  from id_create_fresh [of "ag_id_pool ag" rs k] object_invD(2) [OF inv] room k obtain pool rs' where
    pool: "id_create (ag_id_pool ag) rs = Inr (Some (pool, k, rs'))" "k \<noteq> 0" "pool_wf pool"
      "pool_ids pool = insert k (pool_ids (ag_id_pool ag))" by (auto simp: object_room_def)
  note kn = object_table_fresh [OF inv k(2)]
  let ?ob = "\<lparr>ob_id = k, ob_real = real, ob_refcnt = 0, ob_lock = 0, ob_provider = v, ob_consumer = 0\<rparr>"
  from object_create_enters [OF inv room pool(3,4) kn pool(2) real pv] obtain ag1 where
    cr: "object_create (ag\<lparr>ag_id_pool := pool\<rparr>) v real k = Inr (ag1, Some (ag_next ag))"
    and ag1: "object_inv ag1" "ag_id_pool ag1 = pool" "ag_consumer_heap ag1 = ag_consumer_heap ag"
      "ag_provider_heap ag1 = ag_provider_heap ag" "ag_object_heap ag1 (ag_next ag) = Some ?ob"
      "object_table ag1 = (object_table ag)(k \<mapsto>
        \<lparr>oe_real = real, oe_provider = v, oe_consumer = 0, oe_refcnt = 0\<rparr>)" by blast
  from co ag1(3) have co1: "ag_consumer_heap ag1 c = Some co" by simp
  from object_retain_claims [OF ag1(1,5) _ co1] room co obtain ag2 where
    rt: "object_retain ag1 (ag_next ag) c = Inr (ag2, True)"
    and ag2: "object_inv ag2" "ag_id_pool ag2 = pool" "ag_provider_heap ag2 = ag_provider_heap ag"
      "object_table ag2 = (object_table ag)(k \<mapsto>
        \<lparr>oe_real = real, oe_provider = v, oe_consumer = c, oe_refcnt = 1\<rparr>)"
    using ag1 by (auto simp: object_room_def entry_of_def)
  from agent_remote_map_total [OF net, of ag2 v pv real k] pv(1) v0 ag2(3) obtain s' b where
    rm: "agent_remote_map net ag2 v real k = Inr (ag2\<lparr>ag_net := s'\<rparr>, b)" by auto
  have "clCreateObject net rs ag v c real 0 = Inr (Some (ag2\<lparr>ag_net := s'\<rparr>, k))"
    using real pool(1) cr rt rm pv v0 by (simp add: clCreateObject_def)
  then show ?thesis using pool(2,4) ag2 by (auto simp: object_inv_net)
qed

section \<open>Retaining\<close>

lemma clRetainObject_correct:
  assumes inv: "object_inv ag" and co: "ag_consumer_heap ag c = Some co" "co_attached co"
    and e: "object_table ag k = Some e" "oe_consumer e = c" and max: "oe_refcnt e + 1 < 2 ^ 32"
  shows "\<exists>ag'. clRetainObject ag c k = Inr (ag', True) \<and> object_inv ag' \<and>
    ag_id_pool ag' = ag_id_pool ag \<and>
    object_table ag' = (object_table ag)(k \<mapsto> e\<lparr>oe_refcnt := oe_refcnt e + 1\<rparr>)"
proof -
  from inv e(1) obtain p ob where p: "set_map (ag_objects ag) k = Some p" "ag_object_heap ag p = Some ob"
    "ob_id ob = k" "p \<noteq> 0" "e = entry_of ob" by (rule object_table_Some)
  have c0: "c \<noteq> 0" using object_invD(6) [OF inv co(1)] by simp
  have r: "unat (ob_refcnt ob + 1) = unat (ob_refcnt ob) + 1"
    using max p(5) by (simp add: entry_of_def unat_word_ariths)
  then have r0: "ob_refcnt ob + 1 \<noteq> 0" by auto
  have live: "ob_refcnt ob \<noteq> 0" "ob_consumer ob = c"
    using object_invD(8) [OF inv p(2)] e(2) p(5) c0 by (auto simp: entry_of_def)
  from object_retain_again [OF p(2,4) live]
  have "clRetainObject ag c k = Inr (put_object ag p (ob\<lparr>ob_refcnt := ob_refcnt ob + 1\<rparr>), True)"
    using co c0 p(1) object_invD(1) [OF inv] by (simp add: clRetainObject_def set_find_correct)
  with object_inv_refcnt [OF inv p(2) live(1) r0] p(3,5) r show ?thesis
    by (simp add: entry_of_def) (simp add: put_object_def)
qed

text \<open>
  A consumer that retains an object of another consumer brings the agent down: the refusal
  of \<^verbatim>\<open>object_retain\<close> is asserted not to happen.
\<close>

lemma clRetainObject_foreign:
  assumes inv: "object_inv ag" and co: "ag_consumer_heap ag c = Some co" "co_attached co"
    and e: "object_table ag k = Some e" "oe_consumer e \<noteq> c" "oe_refcnt e \<noteq> 0"
  shows "clRetainObject ag c k = Inl Assertion_Failed"
proof -
  from inv e(1) obtain p ob where p: "set_map (ag_objects ag) k = Some p" "ag_object_heap ag p = Some ob"
    "ob_id ob = k" "p \<noteq> 0" "e = entry_of ob" by (rule object_table_Some)
  have c0: "c \<noteq> 0" using object_invD(6) [OF inv co(1)] by simp
  have "ob_refcnt ob \<noteq> 0" "ob_consumer ob \<noteq> c"
    using e(2,3) p(5) by (auto simp: entry_of_def)
  from object_retain_denied [OF p(2,4) this] show ?thesis
    using co c0 p(1) object_invD(1) [OF inv] by (simp add: clRetainObject_def set_find_correct)
qed

lemma clRetainObject_unknown:
  assumes inv: "object_inv ag" and co: "ag_consumer_heap ag c = Some co" "co_attached co"
    and e: "object_table ag k = None"
  shows "clRetainObject ag c k = Inr (ag, False)" and "clReleaseObject ag c k = Inr (ag, False)"
  using object_table_None [OF inv e] object_invD(1,6) [OF inv] co
  by (simp_all add: clRetainObject_def clReleaseObject_def set_find_correct)

text \<open>
  An object that nobody has retained, a platform or device, goes to the first consumer that
  retains it.
\<close>

lemma clRetainObject_claims:
  assumes inv: "object_inv ag" and room: "object_room ag"
    and co: "ag_consumer_heap ag c = Some co" "co_attached co"
    and e: "object_table ag k = Some e" "oe_refcnt e = 0"
  shows "\<exists>ag'. clRetainObject ag c k = Inr (ag', True) \<and> object_inv ag' \<and>
    ag_id_pool ag' = ag_id_pool ag \<and>
    object_table ag' = (object_table ag)(k \<mapsto> e\<lparr>oe_consumer := c, oe_refcnt := 1\<rparr>)"
proof -
  from inv e(1) obtain p ob where p: "set_map (ag_objects ag) k = Some p" "ag_object_heap ag p = Some ob"
    "ob_id ob = k" "p \<noteq> 0" "e = entry_of ob" by (rule object_table_Some)
  have c0: "c \<noteq> 0" using object_invD(6) [OF inv co(1)] by simp
  have r0: "ob_refcnt ob = 0" using e(2) p(5) by (simp add: entry_of_def unat_eq_zero)
  from room co have "set_room (co_objects co)" by (auto simp: object_room_def)
  from object_retain_claims [OF inv p(2) r0 co(1) this] p(3,5) show ?thesis
    using co c0 p(1) object_invD(1) [OF inv] by (auto simp: clRetainObject_def set_find_correct)
qed

section \<open>Releasing\<close>

text \<open>
  Releasing an object without references is not refused: its count wraps around, and it can
  be neither retained nor removed from then on.
\<close>

lemma clReleaseObject_unowned:
  assumes inv: "object_inv ag" and co: "ag_consumer_heap ag c = Some co" "co_attached co"
    and e: "object_table ag k = Some e" "oe_refcnt e = 0"
  shows "\<exists>ag'. clReleaseObject ag c k = Inr (ag', True) \<and>
    object_table ag' = (object_table ag)(k \<mapsto> e\<lparr>oe_refcnt := 2 ^ 32 - 1\<rparr>) \<and> \<not> object_inv ag' \<and>
    clRetainObject ag' c k = Inl Assertion_Failed"
proof -
  from inv e(1) obtain p ob where p: "set_map (ag_objects ag) k = Some p" "ag_object_heap ag p = Some ob"
    "ob_id ob = k" "p \<noteq> 0" "e = entry_of ob" by (rule object_table_Some)
  have c0: "c \<noteq> 0" using object_invD(6) [OF inv co(1)] by simp
  have r0: "ob_refcnt ob = 0" using e(2) p(5) by (simp add: entry_of_def unat_eq_zero)
  have ob0: "ob_lock ob = 0" "ob_consumer ob = 0" using object_invD(8) [OF inv p(2)] r0 by auto
  let ?ob1 = "ob\<lparr>ob_lock := Suc 0\<rparr>"
  let ?ag1 = "put_object ag p ?ob1"
  let ?ag2 = "put_object ?ag1 p (?ob1\<lparr>ob_refcnt := - 1\<rparr>)"
  let ?ag3 = "put_object ag p (ob\<lparr>ob_refcnt := - 1\<rparr>)"
  have lk: "object_lock ag p = Inr ?ag1" using p(2,4) ob0 by (simp add: object_lock_def deref_def)
  have rel: "object_release ?ag1 p = Inr ?ag2"
    using object_release_more [of ?ag1 p ?ob1] p(4) r0 by (simp add: put_object_def)
  have dr: "deref (ag_object_heap ?ag2) p = Inr (?ob1\<lparr>ob_refcnt := - 1\<rparr>)"
    using p(4) by (simp add: put_object_def)
  have un: "object_unlock ?ag2 p = Inr ?ag3"
    using p(4) ob0 by (cases ob) (simp add: object_unlock_def deref_def put_object_def)
  have run: "clReleaseObject ag c k = Inr (?ag3, True)"
    using co c0 p(1) object_invD(1) [OF inv]
    by (simp add: clReleaseObject_def set_find_correct lk rel dr un del: deref_eq_Inr)
  have ob3: "ag_object_heap ?ag3 p = Some (ob\<lparr>ob_refcnt := - 1\<rparr>)" by (simp add: put_object_def)
  have m: "set_map (ag_objects ag) j = Some p \<longleftrightarrow> j = k" for j
    using object_invD(3) [OF inv, of j p] p by auto
  have minus1: "unat (- 1 :: u32) = 2 ^ 32 - 1" by (simp add: unsigned_minus_1_eq_mask mask_eq_exp_minus_1)
  have "object_table ?ag3 j = ((object_table ag)(k \<mapsto> e\<lparr>oe_refcnt := 2 ^ 32 - 1\<rparr>)) j" for j
    using m [of j] p(5) minus1
    by (cases "j = k"; cases "set_map (ag_objects ag) j") (auto simp: object_table_def put_object_def entry_of_def)
  then have table: "object_table ?ag3 = (object_table ag)(k \<mapsto> e\<lparr>oe_refcnt := 2 ^ 32 - 1\<rparr>)" by (rule ext)
  have bad: "\<not> object_inv ?ag3"
  proof
    assume "object_inv ?ag3"
    from object_invD(9) [OF this ob3] object_invD(6) [OF this] ob0(2) show False by fastforce
  qed
  from object_retain_denied [OF ob3 p(4), of c] c0 ob0(2) have "object_retain ?ag3 p c = Inr (?ag3, False)" by simp
  then have "clRetainObject ?ag3 c k = Inl Assertion_Failed"
    using co c0 p(1) object_invD(1) [OF inv] by (simp add: clRetainObject_def put_object_def set_find_correct)
  with run table bad show ?thesis by blast
qed

text \<open>Any consumer may release a reference: the owner is not checked.\<close>

lemma clReleaseObject_more:
  assumes inv: "object_inv ag" and co: "ag_consumer_heap ag c = Some co" "co_attached co"
    and e: "object_table ag k = Some e" and many: "oe_refcnt e > 1"
  shows "\<exists>ag'. clReleaseObject ag c k = Inr (ag', True) \<and> object_inv ag' \<and>
    ag_id_pool ag' = ag_id_pool ag \<and>
    object_table ag' = (object_table ag)(k \<mapsto> e\<lparr>oe_refcnt := oe_refcnt e - 1\<rparr>)"
proof -
  from inv e(1) obtain p ob where p: "set_map (ag_objects ag) k = Some p" "ag_object_heap ag p = Some ob"
    "ob_id ob = k" "p \<noteq> 0" "e = entry_of ob" by (rule object_table_Some)
  have c0: "c \<noteq> 0" using object_invD(6) [OF inv co(1)] by simp
  have gt: "unat (ob_refcnt ob) > 1" using many p(5) by (simp add: entry_of_def)
  then have r: "unat (ob_refcnt ob - 1) = unat (ob_refcnt ob) - 1"
    by (intro unat_minus_one) auto
  have r0: "ob_refcnt ob - 1 \<noteq> 0" using r gt by (metis diff_is_0_eq not_le unat_0)
  have r1: "ob_refcnt ob \<noteq> 1" and rz: "ob_refcnt ob \<noteq> 0" using gt by auto
  let ?ob1 = "ob\<lparr>ob_lock := Suc 0\<rparr>"
  have lock0: "ob_lock ob = 0" using object_invD(8) [OF inv p(2)] by simp
  let ?ag1 = "put_object ag p ?ob1"
  let ?ag2 = "put_object ?ag1 p (?ob1\<lparr>ob_refcnt := ob_refcnt ob - 1\<rparr>)"
  have lk: "object_lock ag p = Inr ?ag1" using p(2,4) lock0 by (simp add: object_lock_def deref_def)
  have rel: "object_release ?ag1 p = Inr ?ag2"
    using object_release_more [of ?ag1 p ?ob1] p(4) r1 by (simp add: put_object_def)
  have dr: "deref (ag_object_heap ?ag2) p = Inr (?ob1\<lparr>ob_refcnt := ob_refcnt ob - 1\<rparr>)"
    using p(4) by (simp add: put_object_def)
  have un: "object_unlock ?ag2 p = Inr (put_object ag p (ob\<lparr>ob_refcnt := ob_refcnt ob - 1\<rparr>))"
    using p(4) lock0 by (cases ob) (simp add: object_unlock_def deref_def put_object_def)
  have "clReleaseObject ag c k = Inr (put_object ag p (ob\<lparr>ob_refcnt := ob_refcnt ob - 1\<rparr>), True)"
    using co c0 p(1) object_invD(1) [OF inv] r0
    by (simp add: clReleaseObject_def set_find_correct lk rel dr un del: deref_eq_Inr)
  with object_inv_refcnt [OF inv p(2) rz r0] p(3,5) r show ?thesis
    by (simp add: entry_of_def) (simp add: put_object_def)
qed

text \<open>An object, its entries in both sets and its identifier, removed.\<close>

lemma object_inv_gone:
  assumes inv: "object_inv ag" and ob: "ag_object_heap ag p = Some ob"
    and objs: "set_wf (ag_objects ag')" "set_map (ag_objects ag') = (set_map (ag_objects ag))(ob_id ob := None)"
    and pool: "pool_wf (ag_id_pool ag')" "pool_ids (ag_id_pool ag') = pool_ids (ag_id_pool ag) - {ob_id ob}"
    and heap: "ag_object_heap ag' = (ag_object_heap ag)(p := None)" "ag_next ag' = ag_next ag"
    and c: "ag_consumer_heap ag (ob_consumer ob) = Some co"
      "ag_consumer_heap ag' = (ag_consumer_heap ag)(ob_consumer ob \<mapsto> co\<lparr>co_objects := cos\<rparr>)"
      "set_wf cos" "set_map cos = (set_map (co_objects co))(ob_id ob := None)"
    and v: "ag_provider_heap ag' = ag_provider_heap ag"
  shows "object_inv ag'" and "object_table ag' = (object_table ag)(ob_id ob := None)"
proof -
  have only: "ob_id ob' = ob_id ob \<longleftrightarrow> q = p" if "ag_object_heap ag q = Some ob'" for q ob'
    using object_id_inj [OF inv that ob] that ob by auto
  have "table_inv ag'"
    unfolding table_inv_def
  proof (intro conjI allI objs(1) pool(1))
    fix j q
    show "set_map (ag_objects ag') j = Some q \<longleftrightarrow> (\<exists>ob. ag_object_heap ag' q = Some ob \<and> ob_id ob = j)"
      using object_invD(3) [OF inv, of j q] only [of q] ob objs(2) heap(1)
      by (cases "q = p"; cases "j = ob_id ob") auto
  qed
  moreover have "heap_inv ag'"
    using inv heap c v unfolding object_inv_def heap_inv_def by auto
  moreover have "live_inv ag'"
    unfolding live_inv_def
  proof (intro allI impI)
    fix q ob'
    assume "ag_object_heap ag' q = Some ob'"
    then have q: "ag_object_heap ag q = Some ob'" "q \<noteq> p" using heap(1) by (auto split: if_splits)
    with only [OF q(1)] object_invD(8,9,10) [OF inv q(1)] pool(2) c(2) v
    show "ob_lock ob' = 0 \<and> ob_id ob' \<in> pool_ids (ag_id_pool ag') \<and>
      (if ob_refcnt ob' = 0 then ob_consumer ob' = 0 else ag_consumer_heap ag' (ob_consumer ob') \<noteq> None) \<and>
      (\<exists>pv. ag_provider_heap ag' (ob_provider ob') = Some pv \<and> pv_attached pv)" by auto
  qed
  moreover have "owner_sets_inv ag'"
    unfolding owner_sets_inv_def
  proof (intro allI impI conjI)
    fix d dco
    assume d: "ag_consumer_heap ag' d = Some dco"
    show "set_wf (co_objects dco)"
      using d c object_invD(11) [OF inv, of d] by (auto split: if_splits)
    fix j q
    show "set_map (co_objects dco) j = Some q \<longleftrightarrow>
        (\<exists>ob. ag_object_heap ag' q = Some ob \<and> ob_id ob = j \<and> ob_consumer ob = d)"
    proof (cases "d = ob_consumer ob")
      case True
      then have "dco = co\<lparr>co_objects := cos\<rparr>" using d c by simp
      then show ?thesis using True object_invD(12) [OF inv c(1), of j q] c(4) heap(1) only [of q] ob
        by (cases "q = p"; cases "j = ob_id ob") auto
    next
      case False
      then have "ag_consumer_heap ag d = Some dco" using d c by simp
      then show ?thesis using False object_invD(12) [OF inv, of d dco j q] heap(1) ob
        by (cases "q = p") auto
    qed
  qed
  ultimately show "object_inv ag'" by (simp add: object_inv_def)
  show "object_table ag' = (object_table ag)(ob_id ob := None)"
  proof
    fix j
    have m: "set_map (ag_objects ag) j = Some p \<longleftrightarrow> j = ob_id ob"
      using object_invD(3) [OF inv, of j p] ob by auto
    show "object_table ag' j = ((object_table ag)(ob_id ob := None)) j"
      using objs(2) heap(1) m
      by (cases "j = ob_id ob"; cases "set_map (ag_objects ag) j") (auto simp: object_table_def)
  qed
qed

lemma clReleaseObject_last:
  assumes inv: "object_inv ag" and room: "object_room ag"
    and co: "ag_consumer_heap ag c = Some co" "co_attached co"
    and e: "object_table ag k = Some e" and one: "oe_refcnt e = 1"
  shows "\<exists>ag'. clReleaseObject ag c k = Inr (ag', True) \<and> object_inv ag' \<and>
    pool_ids (ag_id_pool ag') = pool_ids (ag_id_pool ag) - {k} \<and>
    object_table ag' = (object_table ag)(k := None)"
proof -
  note R = room [unfolded object_room_def]
  from inv e(1) obtain p ob where p: "set_map (ag_objects ag) k = Some p" "ag_object_heap ag p = Some ob"
    "ob_id ob = k" "p \<noteq> 0" "e = entry_of ob" by (rule object_table_Some)
  have c0: "c \<noteq> 0" using object_invD(6) [OF inv co(1)] by simp
  have r1: "ob_refcnt ob = 1" using one p(5) by (simp add: entry_of_def word_unat_eq_iff)
  have lock0: "ob_lock ob = 0" and kp: "k \<in> pool_ids (ag_id_pool ag)"
    using object_invD(8) [OF inv p(2)] p(3) by auto
  from object_invD(9) [OF inv p(2)] r1 obtain oco where oco: "ag_consumer_heap ag (ob_consumer ob) = Some oco" by auto
  from object_invD(10) [OF inv p(2)] obtain pv where
    pv: "ag_provider_heap ag (ob_provider ob) = Some pv" "pv_attached pv" by blast
  have ne: "ob_consumer ob \<noteq> 0" "ob_provider ob \<noteq> 0"
    using object_invD(6) [OF inv oco] object_invD(7) [OF inv pv(1)] by simp_all
  have "k \<in> dom (set_map (co_objects oco))" "k \<in> dom (set_map (ag_objects ag))"
    using object_invD(12) [OF inv oco, of k p] p by auto
  with set_remove_map [OF object_invD(11) [OF inv oco], of k]
    set_remove_map [OF object_invD(1) [OF inv], of k] R oco
  obtain cos objs where
    cos: "set_remove (co_objects oco) k = Inr (cos, True)" "set_wf cos"
      "set_map cos = (set_map (co_objects oco))(k := None)" and
    objs: "set_remove (ag_objects ag) k = Inr (objs, True)" "set_wf objs"
      "set_map objs = (set_map (ag_objects ag))(k := None)" by auto
  from id_release_correct [OF object_invD(2) [OF inv], of k] R kp obtain pool where
    pool: "id_release (ag_id_pool ag) k = Inr (pool, True)" "pool_wf pool"
      "pool_ids pool = pool_ids (ag_id_pool ag) - {k}" by auto
  let ?ob1 = "ob\<lparr>ob_lock := Suc 0\<rparr>"
  let ?ag1 = "put_object ag p ?ob1"
  let ?ag2 = "put_consumer (put_object ?ag1 p (?ob1\<lparr>ob_refcnt := 0, ob_consumer := 0\<rparr>))
    (ob_consumer ob) (oco\<lparr>co_objects := cos\<rparr>)"
  let ?ag3 = "?ag2\<lparr>ag_id_pool := pool, ag_objects := objs,
    ag_object_heap := (ag_object_heap ag)(p := None)\<rparr>"
  have lk: "object_lock ag p = Inr ?ag1" using p(2,4) lock0 by (simp add: object_lock_def deref_def)
  have rel: "object_release ?ag1 p = Inr ?ag2"
    using object_release_last [of ?ag1 p ?ob1 oco cos] p(3,4) r1 oco ne cos(1)
    by (simp add: put_object_def)
  have des: "object_destroy (?ag2\<lparr>ag_id_pool := pool\<rparr>) p = Inr (?ag3, True)"
    using p(3,4) pv ne objs(1) by (simp add: object_destroy_def deref_def put_object_def put_consumer_def)
  have dr: "deref (ag_object_heap ?ag2) p = Inr (?ob1\<lparr>ob_refcnt := 0, ob_consumer := 0\<rparr>)"
    using p(4) by (simp add: put_object_def put_consumer_def)
  have pa: "provider_agent ?ag2 (ob_provider ob) = Inr pv" "ag_id_pool ?ag2 = ag_id_pool ag"
    using pv ne by (simp_all add: put_object_def put_consumer_def)
  have "clReleaseObject ag c k = Inr (?ag3, True)"
    using co c0 p(1) pool(1) object_invD(1) [OF inv]
    by (simp add: clReleaseObject_def set_find_correct lk rel dr pa des del: deref_eq_Inr)
  moreover have "object_inv ?ag3 \<and> object_table ?ag3 = (object_table ag)(ob_id ob := None)"
    using objs(2,3) pool(2,3) cos(2,3) oco p(3)
    by (intro conjI object_inv_gone [OF inv p(2), where co = oco and cos = cos])
       (simp_all add: put_object_def put_consumer_def)
  ultimately show ?thesis using pool(3) p(3) by auto
qed

section \<open>Runs\<close>

lemma object_table_pool:
  assumes "object_inv ag" and "object_table ag k = Some e"
  shows "k \<in> pool_ids (ag_id_pool ag)" and "k \<noteq> 0"
proof -
  from assms obtain p ob where p: "ag_object_heap ag p = Some ob" "ob_id ob = k" "e = entry_of ob"
    by (rule object_table_Some)
  from object_invD(8) [OF assms(1) p(1)] p show "k \<in> pool_ids (ag_id_pool ag)" by auto
  with object_invD(2) [OF assms(1)] show "k \<noteq> 0" by (auto simp: pool_wf_def)
qed

text \<open>
  What happens to the objects: a provider's platform or device is registered, a consumer's call
  creates an object under an identifier drawn by \<^verbatim>\<open>clCreateObject\<close> or drawn before
  (\<^verbatim>\<open>AGENT_GENERIC_MAP_EVENT\<close>), retains one or releases one. \<open>None\<close>: \<^verbatim>\<open>id_create\<close> is still drawing.
\<close>

datatype object_op =
    Register nat arg "int list"
  | Create nat nat arg "int list"
  | Create_Drawn nat nat arg "int list"
  | Retain nat global_id
  | Release nat global_id

fun object_exec :: "'n sctp \<Rightarrow> object_op \<Rightarrow> 'n agent \<Rightarrow> fault + 'n agent option" where
  "object_exec net (Register provider real rs) ag =
     rbind (id_create (ag_id_pool ag) rs) (\<lambda>r.
     case r of
       None \<Rightarrow> Inr None
     | Some (pool, key, _) \<Rightarrow>
         rbind (object_create (ag\<lparr>ag_id_pool := pool\<rparr>) provider real key) (\<lambda>(ag', obj).
         rbind (c_assert (obj \<noteq> None)) (\<lambda>_. Inr (Some ag'))))"
| "object_exec net (Create provider consumer real rs) ag =
     rbind (clCreateObject net rs ag provider consumer real 0) (\<lambda>r. Inr (map_option fst r))"
| "object_exec net (Create_Drawn provider consumer real rs) ag =
     rbind (id_create (ag_id_pool ag) rs) (\<lambda>r.
     case r of
       None \<Rightarrow> Inr None
     | Some (pool, key, _) \<Rightarrow>
         rbind (clCreateObject net [] (ag\<lparr>ag_id_pool := pool\<rparr>) provider consumer real key) (\<lambda>q.
         case q of
           None \<Rightarrow> Inr None
         | Some (ag', i) \<Rightarrow> rbind (c_assert (i = key)) (\<lambda>_. Inr (Some ag'))))"
| "object_exec net (Retain consumer key) ag = rbind (clRetainObject ag consumer key) (\<lambda>(ag', _). Inr (Some ag'))"
| "object_exec net (Release consumer key) ag = rbind (clReleaseObject ag consumer key) (\<lambda>(ag', _). Inr (Some ag'))"

fun object_run :: "'n sctp \<Rightarrow> object_op list \<Rightarrow> 'n agent \<Rightarrow> fault + 'n agent option" where
  "object_run net [] ag = Inr (Some ag)"
| "object_run net (op # ops) ag =
     rbind (object_exec net op ag) (\<lambda>r. case r of None \<Rightarrow> Inr None | Some ag' \<Rightarrow> object_run net ops ag')"

text \<open>
  What the program does not check: that the sets have room, that the first candidate of
  \<^verbatim>\<open>rand()\<close> is not in use (\<^verbatim>\<open>set_insert\<close> frees the item of one that is) and that the count of
  references stays between 0 and its greatest value.
\<close>

definition draws_used :: "'n agent \<Rightarrow> int list \<Rightarrow> bool" where
  "draws_used ag rs = (case first_nonzero rs of None \<Rightarrow> False | Some k \<Rightarrow> k \<in> pool_ids (ag_id_pool ag))"

definition counted :: "'n agent \<Rightarrow> global_id \<Rightarrow> nat \<Rightarrow> bool" where
  "counted ag k n = (case object_table ag k of None \<Rightarrow> False | Some e \<Rightarrow> oe_refcnt e = n)"

definition overlooked :: "'n agent \<Rightarrow> object_op \<Rightarrow> bool" where
  "overlooked ag op \<longleftrightarrow> \<not> object_room ag \<or>
     (case op of
        Register v real rs \<Rightarrow> draws_used ag rs
      | Create v c real rs \<Rightarrow> draws_used ag rs
      | Create_Drawn v c real rs \<Rightarrow> draws_used ag rs
      | Retain c k \<Rightarrow> counted ag k (2 ^ 32 - 1)
      | Release c k \<Rightarrow> counted ag k 0)"

lemma id_create_none: "first_nonzero rs = None \<Longrightarrow> id_create p rs = Inr None"
  by (induction rs) (auto split: if_splits)

lemma provider_agent_eq_Inr:
  "provider_agent ag v = Inr pv \<longleftrightarrow> v \<noteq> 0 \<and> ag_provider_heap ag v = Some pv \<and> pv_attached pv"
  by (auto simp: provider_agent_def deref_def fault_simps split: option.splits if_splits)

lemma object_create_eq_Some:
  assumes "object_create ag v real k = Inr (ag', Some p)"
  shows "real \<noteq> 0 \<and> k \<noteq> 0 \<and> (\<exists>pv. ag_provider_heap ag v = Some pv \<and> pv_attached pv)"
  using assms
  by (auto simp: object_create_def provider_agent_eq_Inr fault_simps Let_def put_object_def split: if_splits)

text \<open>Drawing an identifier nobody has.\<close>

lemma id_create_unused:
  assumes inv: "object_inv ag" and room: "object_room ag" and d: "\<not> draws_used ag rs"
    and run: "id_create (ag_id_pool ag) rs = Inr (Some (pool, k, rs'))"
  shows "k \<noteq> 0" and "pool_wf pool" and "pool_ids pool = insert k (pool_ids (ag_id_pool ag))"
    and "set_map (ag_objects ag) k = None" and "first_nonzero rs = Some k" and "k \<notin> pool_ids (ag_id_pool ag)"
proof -
  from run obtain j where j: "first_nonzero rs = Some j"
    using id_create_none [of rs "ag_id_pool ag"] by (cases "first_nonzero rs") auto
  with d have new: "j \<notin> pool_ids (ag_id_pool ag)" by (simp add: draws_used_def)
  from id_create_fresh [OF _ _ j new] object_invD(2) [OF inv] room run
  show "k \<noteq> 0" "pool_wf pool" "pool_ids pool = insert k (pool_ids (ag_id_pool ag))" "first_nonzero rs = Some k"
    "k \<notin> pool_ids (ag_id_pool ag)"
    using j new by (auto simp: object_room_def)
  with object_table_fresh [OF inv] show "set_map (ag_objects ag) k = None" by blast
qed

lemma object_retain_no_consumer:
  assumes "ag_object_heap ag p = Some ob" and "p \<noteq> 0" and "ob_refcnt ob = 0" and "ag_consumer_heap ag c = None"
  shows "object_retain ag p c \<noteq> Inr x"
  using assms
  by (auto simp: object_retain_def object_lock_def consumer_add_object_def deref_def put_object_def fault_simps split: if_splits)

text \<open>Creation and first reference under an identifier the pool has just taken in.\<close>

lemma create_retain_inv:
  assumes inv: "object_inv ag" and room: "object_room ag"
    and pool: "pool_wf pool" "pool_ids pool = insert k (pool_ids (ag_id_pool ag))"
    and k: "set_map (ag_objects ag) k = None"
    and cr: "object_create (ag\<lparr>ag_id_pool := pool\<rparr>) v real k = Inr (ag1, Some p)"
    and rt: "object_retain ag1 p c = Inr (ag2, ok)"
  shows "object_inv ag2"
proof -
  from object_create_eq_Some [OF cr] obtain pv where
    ne: "real \<noteq> 0" "k \<noteq> 0" and pv: "ag_provider_heap ag v = Some pv" "pv_attached pv" by auto
  from object_create_enters [OF inv room pool k ne(2,1) pv] cr have
    1: "object_inv ag1" "ag_consumer_heap ag1 = ag_consumer_heap ag" "p = ag_next ag"
    "ag_object_heap ag1 p = Some \<lparr>ob_id = k, ob_real = real, ob_refcnt = 0, ob_lock = 0, ob_provider = v, ob_consumer = 0\<rparr>"
    by auto
  have p0: "p \<noteq> 0" using object_invD(4) [OF inv] 1(3) by simp
  from object_retain_no_consumer [OF 1(4) p0] rt obtain co where co: "ag_consumer_heap ag1 c = Some co"
    by (cases "ag_consumer_heap ag1 c") auto
  from object_retain_claims [OF 1(1,4) _ co] room co 1(2) rt show ?thesis by (auto simp: object_room_def)
qed

lemma object_exec_inv:
  assumes inv: "object_inv ag" and ok: "\<not> overlooked ag op" and run: "object_exec net op ag = Inr (Some ag')"
  shows "object_inv ag'"
proof -
  have room: "object_room ag" using ok by (simp add: overlooked_def)
  show ?thesis
  proof (cases op)
    case (Register v real rs)
    then obtain pool k rs' p where
      1: "id_create (ag_id_pool ag) rs = Inr (Some (pool, k, rs'))"
      "object_create (ag\<lparr>ag_id_pool := pool\<rparr>) v real k = Inr (ag', Some p)"
      using run by (auto simp: fault_simps c_assert_def split: option.splits if_splits)
    have "\<not> draws_used ag rs" using ok Register by (simp add: overlooked_def)
    note new = id_create_unused [OF inv room this 1(1)]
    from object_create_eq_Some [OF 1(2)] obtain pv where
      "real \<noteq> 0" and pv: "ag_provider_heap ag v = Some pv" "pv_attached pv" by auto
    from object_create_enters [OF inv room new(2,3,4,1) this] 1(2) show ?thesis by auto
  next
    case (Create v c real rs)
    show ?thesis
    proof (cases "real = 0")
      case True
      then show ?thesis using run Create inv by (auto simp: clCreateObject_def fault_simps)
    next
      case False
      with run Create obtain pool k rs' ag1 p ag2 okr s where
        1: "id_create (ag_id_pool ag) rs = Inr (Some (pool, k, rs'))"
        "object_create (ag\<lparr>ag_id_pool := pool\<rparr>) v real k = Inr (ag1, Some p)"
        "object_retain ag1 p c = Inr (ag2, okr)" "ag' = ag2\<lparr>ag_net := s\<rparr>"
        by (auto simp: clCreateObject_def agent_remote_map_def fault_simps c_assert_def split: option.splits if_splits)
      have "\<not> draws_used ag rs" using ok Create by (simp add: overlooked_def)
      note new = id_create_unused [OF inv room this 1(1)]
      from create_retain_inv [OF inv room new(2,3,4) 1(2,3)] show ?thesis by (simp add: 1(4) object_inv_net)
    qed
  next
    case (Create_Drawn v c real rs)
    then obtain pool k rs' where 1: "id_create (ag_id_pool ag) rs = Inr (Some (pool, k, rs'))"
      using run by (auto simp: fault_simps split: option.splits)
    have "\<not> draws_used ag rs" using ok Create_Drawn by (simp add: overlooked_def)
    note new = id_create_unused [OF inv room this 1]
    have "real \<noteq> 0"
      using run 1 Create_Drawn new(1) by (auto simp: clCreateObject_def fault_simps c_assert_def split: if_splits)
    with run 1 Create_Drawn new(1) obtain ag1 p okr where
      2: "object_create (ag\<lparr>ag_id_pool := pool\<rparr>) v real k = Inr (ag1, Some p)" "object_retain ag1 p c = Inr (ag', okr)"
      by (auto simp: clCreateObject_def fault_simps c_assert_def split: option.splits if_splits)
    from create_retain_inv [OF inv room new(2,3,4) 2] show ?thesis .
  next
    case (Retain c k)
    then obtain b where b: "clRetainObject ag c k = Inr (ag', b)" using run by (auto simp: fault_simps)
    then obtain co where co: "ag_consumer_heap ag c = Some co" "co_attached co"
      by (auto simp: clRetainObject_def consumer_agent_def deref_def fault_simps split: option.splits if_splits)
    show ?thesis
    proof (cases "object_table ag k")
      case None
      from clRetainObject_unknown(1) [OF inv co None] b inv show ?thesis by simp
    next
      case (Some e)
      then obtain p ob where "e = entry_of ob" using object_table_Some [OF inv Some] by blast
      then have "oe_refcnt e < 2 ^ 32" using unsigned_less [of "ob_refcnt ob"] by (simp add: entry_of_def)
      moreover have "oe_refcnt e \<noteq> 2 ^ 32 - 1" using ok Retain Some by (simp add: overlooked_def counted_def)
      ultimately have max: "oe_refcnt e + 1 < 2 ^ 32" by simp
      consider "oe_refcnt e = 0" | "oe_refcnt e \<noteq> 0" "oe_consumer e = c" | "oe_refcnt e \<noteq> 0" "oe_consumer e \<noteq> c" by blast
      then show ?thesis
      proof cases
        case 1
        from clRetainObject_claims [OF inv room co Some 1] b show ?thesis by auto
      next
        case 2
        from clRetainObject_correct [OF inv co Some 2(2) max] b show ?thesis by auto
      next
        case 3
        from clRetainObject_foreign [OF inv co Some 3(2,1)] b show ?thesis by simp
      qed
    qed
  next
    case (Release c k)
    then obtain b where b: "clReleaseObject ag c k = Inr (ag', b)" using run by (auto simp: fault_simps)
    then obtain co where co: "ag_consumer_heap ag c = Some co" "co_attached co"
      by (auto simp: clReleaseObject_def consumer_agent_def deref_def fault_simps split: option.splits if_splits)
    show ?thesis
    proof (cases "object_table ag k")
      case None
      from clRetainObject_unknown(2) [OF inv co None] b inv show ?thesis by simp
    next
      case (Some e)
      have "oe_refcnt e = 1 \<or> oe_refcnt e > 1" using ok Release Some by (auto simp: overlooked_def counted_def)
      with clReleaseObject_last [OF inv room co Some] clReleaseObject_more [OF inv co Some] b show ?thesis by auto
    qed
  qed
qed

lemma object_run_inv:
  "object_inv ag \<Longrightarrow> object_run net ops ag = Inr (Some ag') \<Longrightarrow>
   object_inv ag' \<or>
   (\<exists>ops1 op ops2 ag1. ops = ops1 @ op # ops2 \<and> object_run net ops1 ag = Inr (Some ag1) \<and> object_inv ag1 \<and>
      overlooked ag1 op)"
proof (induction ops arbitrary: ag)
  case (Cons op ops)
  show ?case
  proof (cases "overlooked ag op")
    case True
    with Cons.prems(1) show ?thesis by (intro disjI2 exI [of _ "[]"]) auto
  next
    case False
    from Cons.prems(2) obtain ag0 where 0: "object_exec net op ag = Inr (Some ag0)" "object_run net ops ag0 = Inr (Some ag')"
      by (auto simp: fault_simps split: option.splits)
    from Cons.IH [OF object_exec_inv [OF Cons.prems(1) False 0(1)] 0(2)] show ?thesis
    proof
      assume "\<exists>ops1 op ops2 ag1. ops = ops1 @ op # ops2 \<and> object_run net ops1 ag0 = Inr (Some ag1) \<and> object_inv ag1 \<and>
        overlooked ag1 op"
      then obtain ops1 op' ops2 ag1 where "ops = ops1 @ op' # ops2" "object_run net ops1 ag0 = Inr (Some ag1)"
        "object_inv ag1" "overlooked ag1 op'" by blast
      with 0(1) show ?thesis by (intro disjI2 exI [of _ "op # ops1"]) auto
    qed simp
  qed
qed simp

text \<open>A created object that is released again leaves the table as it was.\<close>

lemma create_release:
  assumes inv: "object_inv ag" and room: "object_room ag" and net: "sends_whole net"
    and pv: "ag_provider_heap ag v = Some pv" "pv_attached pv"
    and co: "ag_consumer_heap ag c = Some co" and real: "real \<noteq> 0"
    and k: "first_nonzero rs = Some k" "k \<notin> pool_ids (ag_id_pool ag)"
    and run: "clCreateObject net rs ag v c real 0 = Inr (Some (ag1, k'))"
    and then_room: "object_room ag1" and live: "ag_consumer_heap ag1 d = Some dco" "co_attached dco"
  shows "\<exists>ag2. clReleaseObject ag1 d k' = Inr (ag2, True) \<and>
    object_table ag2 = object_table ag \<and> pool_ids (ag_id_pool ag2) = pool_ids (ag_id_pool ag)"
proof -
  from clCreateObject_correct [OF inv room net pv co real k] run have
    k': "k' = k" and ag1: "object_inv ag1" "pool_ids (ag_id_pool ag1) = insert k (pool_ids (ag_id_pool ag))"
    "object_table ag1 = (object_table ag)(k \<mapsto>
      \<lparr>oe_real = real, oe_provider = v, oe_consumer = c, oe_refcnt = 1\<rparr>)" by auto
  have none: "object_table ag k = None"
    using object_table_pool(1) [OF inv, of k] k(2) by (cases "object_table ag k") auto
  from clReleaseObject_last [OF ag1(1) then_room live, of k] ag1(3) obtain ag2 where
    "clReleaseObject ag1 d k = Inr (ag2, True)"
    "pool_ids (ag_id_pool ag2) = pool_ids (ag_id_pool ag1) - {k}"
    "object_table ag2 = (object_table ag1)(k := None)" by auto
  with ag1 none k(2) k' show ?thesis by (auto simp: fun_upd_idem)
qed

end
