(* ===== verification/Load_Balance.thy ===== *)
theory Load_Balance
  imports Agent_Object
begin

text \<open>
  The load balancer of \<^verbatim>\<open>agent/src/loadbalancer.c\<close>, which gives each consumer a platform of
  its own, and the life cycle of consumers and providers in \<^verbatim>\<open>consumer.c\<close> and
  \<^verbatim>\<open>provider.c\<close>.
\<close>

section \<open>The load balancer\<close>

definition lb_add_platform :: "'n agent \<Rightarrow> nat \<Rightarrow> fault + ('n agent \<times> bool)" where
  "lb_add_platform ag p =
     rbind (deref (ag_platform_heap ag) p) (\<lambda>pf.
     rbind (set_insert (ag_lb_platforms ag) (pf_global_id pf) p) (\<lambda>(s, ok).
     Inr (ag\<lparr>ag_lb_platforms := s\<rparr>, ok)))"

definition lb_remove_platform :: "'n agent \<Rightarrow> nat \<Rightarrow> fault + ('n agent \<times> bool)" where
  "lb_remove_platform ag p =
     rbind (deref (ag_platform_heap ag) p) (\<lambda>pf.
     rbind (set_remove (ag_lb_platforms ag) (pf_global_id pf)) (\<lambda>(s, ok).
     Inr (ag\<lparr>ag_lb_platforms := s\<rparr>, ok)))"

text \<open>The loop leaves the first platform without a consumer in \<^verbatim>\<open>platform\<close>, or null.\<close>

definition lb_allocate_platform :: "'n agent \<Rightarrow> nat \<Rightarrow> fault + ('n agent \<times> bool)" where
  "lb_allocate_platform ag consumer =
     rbind (set_foreach (\<lambda>p r.
         rbind (deref (ag_platform_heap ag) p) (\<lambda>pf.
         Inr (if pf_consumer pf = 0 then (True, p) else (False, r))))
       (ag_lb_platforms ag) 0) (\<lambda>(s, platform).
     let ag1 = ag\<lparr>ag_lb_platforms := s\<rparr>
     in if platform = 0 then Inr (ag1, False)
        else
          rbind (deref (ag_platform_heap ag1) platform) (\<lambda>pf.
          let ag2 = put_platform ag1 platform (pf\<lparr>pf_consumer := consumer\<rparr>)
          in rbind (deref (ag_consumer_heap ag2) consumer) (\<lambda>co.
             Inr (put_consumer ag2 consumer (co\<lparr>co_platform := platform\<rparr>), True))))"

definition lb_release_platform :: "'n agent \<Rightarrow> nat \<Rightarrow> fault + ('n agent \<times> bool)" where
  "lb_release_platform ag consumer =
     (if consumer = 0 then Inr (ag, False)
      else
        rbind (deref (ag_consumer_heap ag) consumer) (\<lambda>co.
        if co_platform co = 0 then Inr (ag, False)
        else
          rbind (deref (ag_platform_heap ag) (co_platform co)) (\<lambda>pf.
          if pf_consumer pf \<noteq> consumer then Inr (ag, False)
          else Inr (put_platform (put_consumer ag consumer (co\<lparr>co_platform := 0\<rparr>))
                      (co_platform co) (pf\<lparr>pf_consumer := 0\<rparr>), True))))"

section \<open>Consumers\<close>

definition consumer_create :: "'n agent \<Rightarrow> sd \<Rightarrow> sockaddr option \<Rightarrow> 'n agent \<times> nat option" where
  "consumer_create ag sd addr =
     (case addr of
        None \<Rightarrow> (ag, None)
      | Some a \<Rightarrow>
          if sd = -1 then (ag, None)
          else
            (put_consumer (ag\<lparr>ag_next := ag_next ag + 1\<rparr>) (ag_next ag)
               \<lparr>co_sd = sd, co_addr = a, co_attached = False, co_objects = set_create,
                co_allocations = set_create, co_platform = 0\<rparr>,
             Some (ag_next ag)))"

definition consumer_attach :: "'n agent \<Rightarrow> nat \<Rightarrow> fault + ('n agent \<times> bool)" where
  "consumer_attach ag c =
     (if c = 0 then Inr (ag, False)
      else
        rbind (set_insert (ag_consumers ag) (of_nat c) c) (\<lambda>(s, ok).
        let ag1 = ag\<lparr>ag_consumers := s\<rparr>
        in if \<not> ok then Inr (ag1, False)
           else
             rbind (deref (ag_consumer_heap ag1) c) (\<lambda>co.
             Inr (put_consumer ag1 c (co\<lparr>co_attached := True\<rparr>), True))))"

definition consumer_detach :: "'n agent \<Rightarrow> nat \<Rightarrow> fault + ('n agent \<times> bool)" where
  "consumer_detach ag c =
     (if c = 0 then Inr (ag, False)
      else
        rbind (deref (ag_consumer_heap ag) c) (\<lambda>co.
        if \<not> co_attached co then Inr (ag, False)
        else
          rbind (if ag_load_balancing ag then
                   rbind (lb_release_platform ag c) (\<lambda>(ag1, _). Inr ag1)
                 else Inr ag) (\<lambda>ag1.
          rbind (set_remove (ag_consumers ag1) (of_nat c)) (\<lambda>(s, ok).
          let ag2 = ag1\<lparr>ag_consumers := s\<rparr>
          in if \<not> ok then Inr (ag2, False)
             else
               rbind (deref (ag_consumer_heap ag2) c) (\<lambda>co2.
               Inr (put_consumer ag2 c (co2\<lparr>co_attached := False\<rparr>), True))))))"

text \<open>
  The body of the loop over the allocations of \<^verbatim>\<open>consumer_destroy\<close>: the allocation is freed
  and its handle given back to the pool of \<^verbatim>\<open>consumer->agent\<close>.
\<close>

definition drop_allocation ::
  "agent_consumer \<Rightarrow> clara_allocation \<Rightarrow> memory \<times> unit cset \<times> nat \<Rightarrow>
    fault + (bool \<times> memory \<times> unit cset \<times> nat)"
where
  "drop_allocation co allocation st =
     (case st of (m, pool, cnt) \<Rightarrow>
        rbind (clara_destroy_allocation m (Some allocation)) (\<lambda>(m', h).
        case h of
          None \<Rightarrow> Inl Assertion_Failed
        | Some old_handle \<Rightarrow>
            if \<not> co_attached co then Inl Null_Deref
            else
              rbind (id_release pool old_handle) (\<lambda>(pool', ok).
              rbind (c_assert ok) (\<lambda>_. Inr (False, m', pool', cnt + 1)))))"

definition consumer_destroy :: "'n agent \<Rightarrow> nat \<Rightarrow> fault + ('n agent \<times> bool)" where
  "consumer_destroy ag c =
     (if c = 0 then Inr (ag, False)
      else
        rbind (deref (ag_consumer_heap ag) c) (\<lambda>co.
        if co_attached co then Inr (ag, False)
        else
          rbind (set_foreach (drop_allocation co) (co_allocations co) (ag_mem ag, ag_id_pool ag, 0))
            (\<lambda>(allocs, m, pool, cnt).
          rbind (set_destroy allocs) (\<lambda>_.
          rbind (set_foreach (\<lambda>_ n. Inr (False, n + 1)) (co_objects co) (0::nat)) (\<lambda>(objs, cnt').
          rbind (set_destroy objs) (\<lambda>_.
          Inr (ag\<lparr>ag_mem := m, ag_id_pool := pool,
                  ag_consumer_heap := (ag_consumer_heap ag)(c := None)\<rparr>, True)))))))"

section \<open>Providers\<close>

definition provider_attach :: "'n agent \<Rightarrow> nat \<Rightarrow> fault + ('n agent \<times> bool)" where
  "provider_attach ag v =
     (if v = 0 then Inr (ag, False)
      else
        rbind (set_insert (ag_providers ag) (of_nat v) v) (\<lambda>(s, ok).
        let ag1 = ag\<lparr>ag_providers := s\<rparr>
        in if \<not> ok then Inr (ag1, False)
           else
             rbind (deref (ag_provider_heap ag1) v) (\<lambda>pv.
             Inr (put_provider ag1 v (pv\<lparr>pv_attached := True\<rparr>), True))))"

text \<open>The reference to the agent is kept; the consumers' platforms are not cleared.\<close>

definition provider_detach :: "'n agent \<Rightarrow> nat \<Rightarrow> fault + ('n agent \<times> bool)" where
  "provider_detach ag v =
     (if v = 0 then Inr (ag, False)
      else
        rbind (provider_agent ag v) (\<lambda>pv.
        rbind
          (if ag_load_balancing ag then
             rbind (set_foreach (\<lambda>p ag'.
                 rbind (lb_remove_platform ag' p) (\<lambda>(ag'', _). Inr (False, ag'')))
               (pv_platforms pv) ag) (\<lambda>(s, ag').
             Inr (put_provider ag' v (pv\<lparr>pv_platforms := s\<rparr>)))
           else Inr ag) (\<lambda>ag1.
        rbind (set_remove (ag_providers ag1) (of_nat v)) (\<lambda>(s, ok).
        Inr (ag1\<lparr>ag_providers := s\<rparr>, ok)))))"

section \<open>The allocation of platforms\<close>

text \<open>
  Every platform the balancer knows is live and filed under its identifier; a consumer's
  platform and a platform's consumer point at each other.
\<close>

definition lb_inv :: "'n agent \<Rightarrow> bool" where
  "lb_inv ag \<longleftrightarrow> set_wf (ag_lb_platforms ag) \<and> set_room (ag_lb_platforms ag) \<and>
     (\<forall>k p. set_map (ag_lb_platforms ag) k = Some p \<longrightarrow>
        (\<exists>pf. ag_platform_heap ag p = Some pf \<and> pf_global_id pf = k)) \<and>
     (\<forall>p pf. ag_platform_heap ag p = Some pf \<longrightarrow> p \<noteq> 0 \<and>
        (pf_consumer pf \<noteq> 0 \<longrightarrow>
          (\<exists>co. ag_consumer_heap ag (pf_consumer pf) = Some co \<and> co_platform co = p))) \<and>
     (\<forall>c co. ag_consumer_heap ag c = Some co \<longrightarrow> c \<noteq> 0 \<and>
        (co_platform co \<noteq> 0 \<longrightarrow>
          (\<exists>pf. ag_platform_heap ag (co_platform co) = Some pf \<and> pf_consumer pf = c)))"

lemma lb_invD:
  assumes "lb_inv ag"
  shows "set_wf (ag_lb_platforms ag)" and "set_room (ag_lb_platforms ag)"
    and "set_map (ag_lb_platforms ag) k = Some p \<Longrightarrow>
      \<exists>pf. ag_platform_heap ag p = Some pf \<and> pf_global_id pf = k"
    and "ag_platform_heap ag p = Some pf \<Longrightarrow> p \<noteq> 0"
    and "ag_platform_heap ag p = Some pf \<Longrightarrow> pf_consumer pf \<noteq> 0 \<Longrightarrow>
      \<exists>co. ag_consumer_heap ag (pf_consumer pf) = Some co \<and> co_platform co = p"
    and "ag_consumer_heap ag c = Some co \<Longrightarrow> c \<noteq> 0"
    and "ag_consumer_heap ag c = Some co \<Longrightarrow> co_platform co \<noteq> 0 \<Longrightarrow>
      \<exists>pf. ag_platform_heap ag (co_platform co) = Some pf \<and> pf_consumer pf = c"
  using assms unfolding lb_inv_def by blast+

text \<open>A platform serves at most one consumer.\<close>

lemma lb_exclusive:
  assumes "lb_inv ag" and "ag_consumer_heap ag c = Some co" and "ag_consumer_heap ag d = Some dco"
    and "co_platform co = co_platform dco" and "co_platform co \<noteq> 0"
  shows "c = d"
  using lb_invD(7) [OF assms(1,2)] lb_invD(7) [OF assms(1,3)] assms(4,5) by auto

definition free_platform :: "'n agent \<Rightarrow> nat \<Rightarrow> bool" where
  "free_platform ag p \<longleftrightarrow> (\<exists>pf. ag_platform_heap ag p = Some pf \<and> pf_consumer pf = 0)"

lemma lb_loop:
  assumes "\<forall>p\<in>set ps. p \<noteq> 0 \<and> (\<exists>pf. ag_platform_heap ag p = Some pf)"
  shows "list_loop (\<lambda>p r. rbind (deref (ag_platform_heap ag) p) (\<lambda>pf.
      Inr (if pf_consumer pf = 0 then (True, p) else (False, r)))) ps 0 =
    Inr (case find (free_platform ag) ps of None \<Rightarrow> 0 | Some p \<Rightarrow> p)"
  using assms by (induction ps) (auto simp: deref_def free_platform_def)

lemma lb_elems:
  assumes "lb_inv ag" and "p \<in> set (set_elems (ag_lb_platforms ag))"
  shows "p \<noteq> 0" and "\<exists>pf. ag_platform_heap ag p = Some pf"
proof -
  from assms obtain k where "set_map (ag_lb_platforms ag) k = Some p"
    using set_elems_ran [OF lb_invD(1)] by (auto simp: ran_def)
  with lb_invD(3,4) [OF assms(1)] show "p \<noteq> 0" "\<exists>pf. ag_platform_heap ag p = Some pf" by blast+
qed

lemma lb_search:
  assumes "lb_inv ag"
  shows "\<exists>tr. set_foreach (\<lambda>p r. rbind (deref (ag_platform_heap ag) p) (\<lambda>pf.
      Inr (if pf_consumer pf = 0 then (True, p) else (False, r)))) (ag_lb_platforms ag) 0 =
    Inr (ag_lb_platforms ag\<lparr>cs_trav := tr\<rparr>,
      case find (free_platform ag) (set_elems (ag_lb_platforms ag)) of None \<Rightarrow> 0 | Some p \<Rightarrow> p)"
  using set_foreach_correct [OF lb_invD(1,2) [OF assms], of "\<lambda>p r. rbind (deref (ag_platform_heap ag) p)
      (\<lambda>pf. Inr (if pf_consumer pf = 0 then (True, p) else (False, r)))" 0]
    lb_loop [of "set_elems (ag_lb_platforms ag)" ag] lb_elems [OF assms] by auto

lemma set_trav_irrelevant [simp]:
  "set_wf (s\<lparr>cs_trav := tr\<rparr>) = set_wf s" "set_room (s\<lparr>cs_trav := tr\<rparr>) = set_room s"
  "set_map (s\<lparr>cs_trav := tr\<rparr>) = set_map s" "set_elems (s\<lparr>cs_trav := tr\<rparr>) = set_elems s"
  by (simp_all add: set_wf_def set_room_def set_count_def set_map_def set_elems_def set_entries_def set_refs_def)

lemma lb_allocate_none:
  assumes inv: "lb_inv ag" and none: "\<forall>p\<in>ran (set_map (ag_lb_platforms ag)). \<not> free_platform ag p"
  shows "\<exists>tr. lb_allocate_platform ag c =
    Inr (ag\<lparr>ag_lb_platforms := ag_lb_platforms ag\<lparr>cs_trav := tr\<rparr>\<rparr>, False)"
proof -
  have "find (free_platform ag) (set_elems (ag_lb_platforms ag)) = None"
    using none set_elems_ran [OF lb_invD(1) [OF inv]] by (auto simp: find_None_iff)
  with lb_search [OF inv] show ?thesis by (auto simp: lb_allocate_platform_def Let_def)
qed

text \<open>The first free platform in the order of the identifiers becomes the consumer's.\<close>

lemma lb_allocate_some:
  assumes inv: "lb_inv ag" and co: "ag_consumer_heap ag c = Some co" "co_platform co = 0"
    and first: "find (free_platform ag) (set_elems (ag_lb_platforms ag)) = Some p"
  shows "\<exists>ag' pf. lb_allocate_platform ag c = Inr (ag', True) \<and> lb_inv ag' \<and>
    ag_platform_heap ag p = Some pf \<and> pf_consumer pf = 0 \<and>
    ag_platform_heap ag' = (ag_platform_heap ag)(p \<mapsto> pf\<lparr>pf_consumer := c\<rparr>) \<and>
    ag_consumer_heap ag' = (ag_consumer_heap ag)(c \<mapsto> co\<lparr>co_platform := p\<rparr>)"
proof -
  from first have p: "p \<in> set (set_elems (ag_lb_platforms ag))" "free_platform ag p"
    by (auto simp: find_Some_iff)
  from p(2) obtain pf where pf: "ag_platform_heap ag p = Some pf" "pf_consumer pf = 0"
    by (auto simp: free_platform_def)
  have p0: "p \<noteq> 0" and c0: "c \<noteq> 0" using lb_elems(1) [OF inv p(1)] lb_invD(6) [OF inv co(1)] by auto
  from lb_search [OF inv] first obtain tr where
    tr: "set_foreach (\<lambda>p r. rbind (deref (ag_platform_heap ag) p) (\<lambda>pf.
        Inr (if pf_consumer pf = 0 then (True, p) else (False, r)))) (ag_lb_platforms ag) 0 =
      Inr (ag_lb_platforms ag\<lparr>cs_trav := tr\<rparr>, p)" by auto
  let ?ag = "put_consumer (put_platform (ag\<lparr>ag_lb_platforms := ag_lb_platforms ag\<lparr>cs_trav := tr\<rparr>\<rparr>)
    p (pf\<lparr>pf_consumer := c\<rparr>)) c (co\<lparr>co_platform := p\<rparr>)"
  have "lb_allocate_platform ag c = Inr (?ag, True)"
    using tr p0 c0 pf co by (simp add: lb_allocate_platform_def deref_def put_platform_def put_consumer_def)
  moreover have H: "ag_platform_heap ?ag = (ag_platform_heap ag)(p \<mapsto> pf\<lparr>pf_consumer := c\<rparr>)"
    "ag_consumer_heap ?ag = (ag_consumer_heap ag)(c \<mapsto> co\<lparr>co_platform := p\<rparr>)"
    "ag_lb_platforms ?ag = ag_lb_platforms ag\<lparr>cs_trav := tr\<rparr>"
    by (simp_all add: put_platform_def put_consumer_def)
  moreover have "lb_inv ?ag"
    unfolding lb_inv_def
  proof (intro conjI allI impI)
    show "set_wf (ag_lb_platforms ?ag)" "set_room (ag_lb_platforms ?ag)"
      using lb_invD(1,2) [OF inv] H(3) by simp_all
    show "\<exists>pf. ag_platform_heap ?ag q = Some pf \<and> pf_global_id pf = k"
      if "set_map (ag_lb_platforms ?ag) k = Some q" for k q
      using lb_invD(3) [OF inv, of k q] that H(1,3) pf(1) by auto
    show "q \<noteq> 0" if "ag_platform_heap ?ag q = Some qf" for q qf
      using lb_invD(4) [OF inv, of q] that H(1) p0 by (auto split: if_splits)
    show "\<exists>co. ag_consumer_heap ?ag (pf_consumer qf) = Some co \<and> co_platform co = q"
      if "ag_platform_heap ?ag q = Some qf" "pf_consumer qf \<noteq> 0" for q qf
      using lb_invD(4,5) [OF inv, of q qf] that H(1,2) co by (auto split: if_splits)
    show "d \<noteq> 0" if "ag_consumer_heap ?ag d = Some dco" for d dco
      using lb_invD(6) [OF inv, of d] that H(2) c0 by (auto split: if_splits)
    show "\<exists>pf. ag_platform_heap ?ag (co_platform dco) = Some pf \<and> pf_consumer pf = d"
      if "ag_consumer_heap ?ag d = Some dco" "co_platform dco \<noteq> 0" for d dco
      using lb_invD(7) [OF inv, of d dco] that H(1,2) pf c0 lb_invD(6) [OF inv, of d]
      by (auto split: if_splits)
  qed
  ultimately show ?thesis using pf by blast
qed

lemma lb_release_correct:
  assumes inv: "lb_inv ag" and co: "ag_consumer_heap ag c = Some co" "co_platform co = p" "p \<noteq> 0"
  shows "\<exists>ag' pf. lb_release_platform ag c = Inr (ag', True) \<and> lb_inv ag' \<and>
    ag_platform_heap ag p = Some pf \<and> pf_consumer pf = c \<and>
    ag_platform_heap ag' = (ag_platform_heap ag)(p \<mapsto> pf\<lparr>pf_consumer := 0\<rparr>) \<and>
    ag_consumer_heap ag' = (ag_consumer_heap ag)(c \<mapsto> co\<lparr>co_platform := 0\<rparr>)"
proof -
  from lb_invD(7) [OF inv co(1)] co obtain pf where
    pf: "ag_platform_heap ag p = Some pf" "pf_consumer pf = c" by auto
  have c0: "c \<noteq> 0" using lb_invD(6) [OF inv co(1)] .
  let ?ag = "put_platform (put_consumer ag c (co\<lparr>co_platform := 0\<rparr>)) p (pf\<lparr>pf_consumer := 0\<rparr>)"
  have "lb_release_platform ag c = Inr (?ag, True)"
    using co c0 pf by (simp add: lb_release_platform_def deref_def)
  moreover have H: "ag_platform_heap ?ag = (ag_platform_heap ag)(p \<mapsto> pf\<lparr>pf_consumer := 0\<rparr>)"
    "ag_consumer_heap ?ag = (ag_consumer_heap ag)(c \<mapsto> co\<lparr>co_platform := 0\<rparr>)"
    "ag_lb_platforms ?ag = ag_lb_platforms ag"
    by (simp_all add: put_platform_def put_consumer_def)
  moreover have "lb_inv ?ag"
    unfolding lb_inv_def
  proof (intro conjI allI impI)
    show "set_wf (ag_lb_platforms ?ag)" "set_room (ag_lb_platforms ?ag)"
      using lb_invD(1,2) [OF inv] H(3) by simp_all
    show "\<exists>pf. ag_platform_heap ?ag q = Some pf \<and> pf_global_id pf = k"
      if "set_map (ag_lb_platforms ?ag) k = Some q" for k q
      using lb_invD(3) [OF inv, of k q] that H(1,3) pf(1) by auto
    show "q \<noteq> 0" if "ag_platform_heap ?ag q = Some qf" for q qf
      using lb_invD(4) [OF inv, of q] that H(1) co(3) by (auto split: if_splits)
    show "\<exists>co. ag_consumer_heap ?ag (pf_consumer qf) = Some co \<and> co_platform co = q"
      if "ag_platform_heap ?ag q = Some qf" "pf_consumer qf \<noteq> 0" for q qf
      using lb_invD(5) [OF inv, of q qf] that H(1,2) co by (auto split: if_splits)
    show "d \<noteq> 0" if "ag_consumer_heap ?ag d = Some dco" for d dco
      using lb_invD(6) [OF inv, of d] that H(2) c0 by (auto split: if_splits)
    show "\<exists>pf. ag_platform_heap ?ag (co_platform dco) = Some pf \<and> pf_consumer pf = d"
      if "ag_consumer_heap ?ag d = Some dco" "co_platform dco \<noteq> 0" for d dco
      using lb_invD(7) [OF inv, of d dco] that H(1,2) pf by (auto split: if_splits)
  qed
  ultimately show ?thesis using pf by blast
qed

section \<open>The end of a consumer\<close>

lemma list_loop_count: "list_loop (\<lambda>_ n. Inr (False, Suc n)) xs n = Inr (n + length xs)"
  by (induction xs arbitrary: n) auto

lemma consumer_destroy_ok:
  assumes co: "ag_consumer_heap ag c = Some co" "c \<noteq> 0" "\<not> co_attached co"
    and allocs: "set_wf (co_allocations co)" "set_room (co_allocations co)" "set_elems (co_allocations co) = []"
    and objs: "set_wf (co_objects co)" "set_room (co_objects co)"
  shows "consumer_destroy ag c =
    Inr (ag\<lparr>ag_consumer_heap := (ag_consumer_heap ag)(c := None)\<rparr>, True)"
proof -
  from set_foreach_correct [OF allocs(1,2), of "drop_allocation co" "(ag_mem ag, ag_id_pool ag, 0)"] allocs(3)
  obtain tr where tr: "set_foreach (drop_allocation co) (co_allocations co) (ag_mem ag, ag_id_pool ag, 0) =
      Inr (co_allocations co\<lparr>cs_trav := tr\<rparr>, ag_mem ag, ag_id_pool ag, 0)" by auto
  from set_foreach_correct [OF objs, of "\<lambda>_ n. Inr (False, Suc n)" "0::nat"] obtain tr' n where
    tr': "set_foreach (\<lambda>_ n. Inr (False, Suc n)) (co_objects co) (0::nat) =
      Inr (co_objects co\<lparr>cs_trav := tr'\<rparr>, n)" by (auto simp: list_loop_count)
  have "set_destroy (co_allocations co\<lparr>cs_trav := tr\<rparr>) = Inr (cs_heap (co_allocations co))"
    "set_destroy (co_objects co\<lparr>cs_trav := tr'\<rparr>) = Inr (cs_heap (co_objects co))"
    using set_destroy_leaks [of "co_allocations co\<lparr>cs_trav := tr\<rparr>"]
      set_destroy_leaks [of "co_objects co\<lparr>cs_trav := tr'\<rparr>"] allocs objs by simp_all
  then show ?thesis using co tr tr' by (simp add: consumer_destroy_def deref_def)
qed

text \<open>
  With an allocation left, the code reads the pool through the agent pointer it has just
  required to be null.
\<close>

lemma consumer_destroy_allocations:
  assumes co: "ag_consumer_heap ag c = Some co" "c \<noteq> 0" "\<not> co_attached co"
    and allocs: "set_wf (co_allocations co)" "set_room (co_allocations co)" "set_elems (co_allocations co) \<noteq> []"
    and live: "\<forall>a\<in>set (set_elems (co_allocations co)). al_ptr a = 0 \<or> mm_blocks (ag_mem ag) (al_ptr a) \<noteq> None"
  shows "consumer_destroy ag c = Inl Null_Deref"
proof -
  obtain a as where a: "set_elems (co_allocations co) = a # as" using allocs(3) by (cases "set_elems (co_allocations co)") auto
  with live obtain m where "mem_free (ag_mem ag) (al_ptr a) = Inr m"
    using mem_free_live [of "al_ptr a" "ag_mem ag"] by auto
  with a set_foreach_correct [OF allocs(1,2), of "drop_allocation co" "(ag_mem ag, ag_id_pool ag, 0)"] co(3)
  have "set_foreach (drop_allocation co) (co_allocations co) (ag_mem ag, ag_id_pool ag, 0) = Inl Null_Deref"
    by (simp add: drop_allocation_def clara_destroy_allocation_def)
  then show ?thesis using co by (simp add: consumer_destroy_def deref_def)
qed

text \<open>
  The objects a consumer did not release stay in the agent's set with a pointer to the freed
  consumer: releasing the last reference of one reads it.
\<close>

lemma orphan_release:
  assumes inv: "object_inv ag" and c: "oe_consumer e = c" and e: "object_table ag k = Some e" "oe_refcnt e = 1"
    and d: "ag_consumer_heap ag d = Some dco" "co_attached dco" "d \<noteq> c"
  shows "clReleaseObject (ag\<lparr>ag_consumer_heap := (ag_consumer_heap ag)(c := None)\<rparr>) d k =
    Inl Use_After_Free"
proof -
  from inv e(1) obtain p ob where p: "set_map (ag_objects ag) k = Some p" "ag_object_heap ag p = Some ob"
    "ob_id ob = k" "p \<noteq> 0" "e = entry_of ob" by (rule object_table_Some)
  have r1: "ob_refcnt ob = 1" using e(2) p(5) by (simp add: entry_of_def word_unat_eq_iff)
  have cc: "ob_consumer ob = c" "c \<noteq> 0"
    using c p(5) r1 object_invD(9) [OF inv p(2)] object_invD(6) [OF inv] by (auto simp: entry_of_def)
  have d0: "d \<noteq> 0" using object_invD(6) [OF inv d(1)] by simp
  let ?ag = "ag\<lparr>ag_consumer_heap := (ag_consumer_heap ag)(c := None)\<rparr>"
  have "\<exists>ag1. object_lock ?ag p = Inr ag1 \<and> object_release ag1 p = Inl Use_After_Free"
    using p cc r1
    by (simp add: object_lock_def object_release_def consumer_drop_object_def deref_def put_object_def)
  then show ?thesis
    using d d0 p(1) object_invD(1) [OF inv] by (auto simp: clReleaseObject_def set_find_correct)
qed

end
