(* ===== verification/Agent_Provider.thy ===== *)
theory Agent_Provider
  imports Load_Balance
begin

text \<open>
  What the agent keeps of a provider: the platforms of \<^verbatim>\<open>agent/src/platform.c\<close> with the
  devices of \<^verbatim>\<open>device.c\<close>, filled from the bytes of the provider's messages, the rest of the
  life cycle of \<^verbatim>\<open>provider.c\<close>, and the creation and destruction of the agent itself
  (\<^verbatim>\<open>agent.c\<close>).
\<close>

section \<open>Strings and copies\<close>

text \<open>
  \<^verbatim>\<open>strlen\<close> of the bytes at a pointer; reading on behind the bytes that were received or
  stored is a fault.
\<close>

fun strlen :: "byte list \<Rightarrow> fault + nat" where
  "strlen [] = Inl Uninit_Read"
| "strlen (b # bs) = (if b = 0 then Inr 0 else rbind (strlen bs) (\<lambda>n. Inr (n + 1)))"

text \<open>\<^verbatim>\<open>memcpy\<close> of the first bytes of a buffer.\<close>

definition copy_bytes :: "byte list \<Rightarrow> nat \<Rightarrow> fault + byte list" where
  "copy_bytes src n = (if n \<le> length src then Inr (take n src) else Inl Uninit_Read)"

text \<open>The new value of \<^verbatim>\<open>*dst\<close> (its memory, or what it was) and the number of bytes.\<close>

definition clara_malloc_and_memcpy ::
  "byte list option \<Rightarrow> byte list \<Rightarrow> nat \<Rightarrow> fault + (byte list option \<times> nat)"
where
  "clara_malloc_and_memcpy dst src n =
     (if n = 0 then Inr (dst, 0) else rbind (copy_bytes src n) (\<lambda>bs. Inr (Some bs, n)))"

definition clara_malloc_and_strcpy ::
  "byte list option \<Rightarrow> byte list \<Rightarrow> fault + (byte list option \<times> nat)"
where
  "clara_malloc_and_strcpy dst src =
     rbind (strlen src) (\<lambda>n. clara_malloc_and_memcpy dst src (n + 1))"

text \<open>A C string with its terminating zero.\<close>

definition cstr :: "byte list \<Rightarrow> bool" where
  "cstr s \<longleftrightarrow> s \<noteq> [] \<and> last s = 0 \<and> 0 \<notin> set (butlast s)"

lemma strlen_append_zero: "0 \<notin> set u \<Longrightarrow> strlen (u @ 0 # r) = Inr (length u)"
  by (induction u) auto

lemma cstr_split: "cstr s \<longleftrightarrow> (\<exists>u. s = u @ [0] \<and> 0 \<notin> set u)"
  unfolding cstr_def by (metis append_butlast_last_id butlast_snoc last_snoc snoc_eq_iff_butlast)

lemma strlen_cstr: "cstr s \<Longrightarrow> strlen (s @ r) = Inr (length s - 1)"
  by (auto simp: cstr_split strlen_append_zero)

lemma clara_malloc_and_strcpy_cstr:
  assumes "cstr s"
  shows "clara_malloc_and_strcpy dst (s @ r) = Inr (Some s, length s)"
proof -
  have "length s \<noteq> 0" using assms by (simp add: cstr_def)
  then have "Suc (length s - 1) = length s" by simp
  then show ?thesis using strlen_cstr [OF assms] assms
    by (simp add: clara_malloc_and_strcpy_def clara_malloc_and_memcpy_def copy_bytes_def)
qed

section \<open>Devices\<close>

text \<open>
  \<^verbatim>\<open>device_create\<close> asserts that \<^verbatim>\<open>id_create\<close> succeeds, which it does when it returns; \<open>None\<close>:
  it is still drawing from \<open>rs\<close>.
\<close>

definition device_create :: "int list \<Rightarrow> 'n agent \<Rightarrow> nat \<Rightarrow> fault + ('n agent \<times> nat) option" where
  "device_create rs ag provider =
     rbind (provider_agent ag provider) (\<lambda>_.
     rbind (id_create (ag_id_pool ag) rs) (\<lambda>r.
     Inr (case r of
        None \<Rightarrow> None
      | Some (pool, key, _) \<Rightarrow>
          Some (put_device (ag\<lparr>ag_id_pool := pool, ag_next := ag_next ag + 1\<rparr>) (ag_next ag)
             \<lparr>dv_head = replicate 20 0, dv_work_item_sizes = None, dv_body = replicate 224 0,
              dv_name = None, dv_vendor = None, dv_driver_version = None, dv_profile = None,
              dv_version = None, dv_extensions = None, dv_provider = provider, dv_id = 0,
              dv_global_id = key\<rparr>, ag_next ag))))"

definition dv_type :: "agent_device \<Rightarrow> 64 word" where
  "dv_type dv = dec64 (dv_head dv)"

definition dv_max_work_item_dimensions :: "agent_device \<Rightarrow> nat" where
  "dv_max_work_item_dimensions dv = unat (dec32 (drop 16 (dv_head dv)))"

definition dv_available :: "agent_device \<Rightarrow> u32" where
  "dv_available dv = dec32 (drop 192 (dv_body dv))"

definition dv_platform_id :: "agent_device \<Rightarrow> arg" where
  "dv_platform_id dv = dec64 (drop 216 (dv_body dv))"

text \<open>
  The bytes behind the pointer: the fields up to \<^verbatim>\<open>max_work_item_dimensions\<close>, that many
  sizes, the fields up to \<^verbatim>\<open>platform_id\<close>, six strings and the identifier.
\<close>

definition device_init :: "'n agent \<Rightarrow> nat \<Rightarrow> byte list \<Rightarrow> fault + ('n agent \<times> bool)" where
  "device_init ag device ptr =
     (if device = 0 then Inr (ag, False)
      else
        rbind (deref (ag_device_heap ag) device) (\<lambda>dv.
        rbind (copy_bytes ptr 20) (\<lambda>head.
        let dv1 = dv\<lparr>dv_head := head\<rparr>; ptr1 = drop 20 ptr; n = 8 * dv_max_work_item_dimensions dv1
        in rbind (copy_bytes ptr1 n) (\<lambda>sizes.
        let ptr2 = drop n ptr1
        in rbind (copy_bytes ptr2 224) (\<lambda>body.
        let ptr3 = drop 224 ptr2
        in rbind (clara_malloc_and_strcpy (dv_name dv) ptr3) (\<lambda>(name, n1).
        let ptr4 = drop n1 ptr3
        in rbind (clara_malloc_and_strcpy (dv_vendor dv) ptr4) (\<lambda>(vendor, n2).
        let ptr5 = drop n2 ptr4
        in rbind (clara_malloc_and_strcpy (dv_driver_version dv) ptr5) (\<lambda>(driver_version, n3).
        let ptr6 = drop n3 ptr5
        in rbind (clara_malloc_and_strcpy (dv_profile dv) ptr6) (\<lambda>(profile, n4).
        let ptr7 = drop n4 ptr6
        in rbind (clara_malloc_and_strcpy (dv_version dv) ptr7) (\<lambda>(version, n5).
        let ptr8 = drop n5 ptr7
        in rbind (clara_malloc_and_strcpy (dv_extensions dv) ptr8) (\<lambda>(extensions, n6).
        rbind (copy_bytes (drop n6 ptr8) 8) (\<lambda>i.
        Inr (put_device ag device
          (dv1\<lparr>dv_work_item_sizes := Some sizes, dv_body := body, dv_name := name, dv_vendor := vendor,
              dv_driver_version := driver_version, dv_profile := profile, dv_version := version,
              dv_extensions := extensions, dv_id := dec64 i\<rparr>), True)))))))))))))"

definition device_destroy :: "'n agent \<Rightarrow> nat \<Rightarrow> fault + ('n agent \<times> bool)" where
  "device_destroy ag p =
     (if p = 0 then Inr (ag, False)
      else
        rbind (deref (ag_device_heap ag) p) (\<lambda>dv.
        rbind (provider_agent ag (dv_provider dv)) (\<lambda>_.
        rbind (id_release (ag_id_pool ag) (dv_global_id dv)) (\<lambda>(pool, ok).
        rbind (c_assert ok) (\<lambda>_.
        Inr (ag\<lparr>ag_id_pool := pool, ag_device_heap := (ag_device_heap ag)(p := None)\<rparr>, True))))))"

section \<open>Platforms\<close>

definition platform_create :: "int list \<Rightarrow> 'n agent \<Rightarrow> nat \<Rightarrow> fault + ('n agent \<times> nat) option" where
  "platform_create rs ag provider =
     rbind (provider_agent ag provider) (\<lambda>_.
     rbind (id_create (ag_id_pool ag) rs) (\<lambda>r.
     Inr (case r of
        None \<Rightarrow> None
      | Some (pool, key, _) \<Rightarrow>
          Some (put_platform (ag\<lparr>ag_id_pool := pool, ag_next := ag_next ag + 1\<rparr>) (ag_next ag)
             \<lparr>pf_profile = None, pf_version = None, pf_name = None, pf_vendor = None,
              pf_extensions = None, pf_provider = provider, pf_consumer = 0, pf_id = 0,
              pf_global_id = key, pf_devices = set_create\<rparr>, ag_next ag))))"

definition platform_init :: "'n agent \<Rightarrow> nat \<Rightarrow> byte list \<Rightarrow> fault + ('n agent \<times> bool)" where
  "platform_init ag platform ptr =
     (if platform = 0 then Inr (ag, False)
      else
        rbind (deref (ag_platform_heap ag) platform) (\<lambda>pf.
        rbind (clara_malloc_and_strcpy (pf_profile pf) ptr) (\<lambda>(profile, n1).
        let ptr1 = drop n1 ptr
        in rbind (clara_malloc_and_strcpy (pf_version pf) ptr1) (\<lambda>(version, n2).
        let ptr2 = drop n2 ptr1
        in rbind (clara_malloc_and_strcpy (pf_name pf) ptr2) (\<lambda>(name, n3).
        let ptr3 = drop n3 ptr2
        in rbind (clara_malloc_and_strcpy (pf_vendor pf) ptr3) (\<lambda>(vendor, n4).
        let ptr4 = drop n4 ptr3
        in rbind (clara_malloc_and_strcpy (pf_extensions pf) ptr4) (\<lambda>(extensions, n5).
        rbind (copy_bytes (drop n5 ptr4) 8) (\<lambda>i.
        Inr (put_platform ag platform
          (pf\<lparr>pf_profile := profile, pf_version := version, pf_name := name, pf_vendor := vendor,
              pf_extensions := extensions, pf_id := dec64 i\<rparr>), True)))))))))"

text \<open>When the identifier cannot be released the rest is left as it is.\<close>

definition platform_destroy :: "'n agent \<Rightarrow> nat \<Rightarrow> fault + ('n agent \<times> bool)" where
  "platform_destroy ag p =
     (if p = 0 then Inr (ag, False)
      else
        rbind (deref (ag_platform_heap ag) p) (\<lambda>pf.
        rbind (provider_agent ag (pf_provider pf)) (\<lambda>_.
        rbind (id_release (ag_id_pool ag) (pf_global_id pf)) (\<lambda>(pool, ok).
        let ag1 = ag\<lparr>ag_id_pool := pool\<rparr>
        in if \<not> ok then Inr (ag1, False)
           else
             rbind (set_foreach (\<lambda>device ag'.
                 rbind (device_destroy ag' device) (\<lambda>(ag'', _). Inr (False, ag''))) (pf_devices pf) ag1)
               (\<lambda>(devices, ag2).
             rbind (set_destroy devices) (\<lambda>_.
             Inr (ag2\<lparr>ag_platform_heap := (ag_platform_heap ag2)(p := None)\<rparr>, True)))))))"

section \<open>Providers\<close>

text \<open>\<^verbatim>\<open>provider->agent\<close> is not initialized before the provider is attached.\<close>

definition provider_create :: "'n agent \<Rightarrow> sd \<Rightarrow> sockaddr option \<Rightarrow> 'n agent \<times> nat option" where
  "provider_create ag sd addr =
     (case addr of
        None \<Rightarrow> (ag, None)
      | Some a \<Rightarrow>
          if sd = -1 then (ag, None)
          else
            (put_provider (ag\<lparr>ag_next := ag_next ag + 1\<rparr>) (ag_next ag)
               \<lparr>pv_sd = sd, pv_addr = a, pv_attached = False, pv_lock = 0, pv_platforms = set_create\<rparr>,
             Some (ag_next ag)))"

text \<open>The objects of its platforms and devices stay in the agent's set.\<close>

definition provider_destroy :: "'n agent \<Rightarrow> nat \<Rightarrow> fault + ('n agent \<times> bool)" where
  "provider_destroy ag v =
     (if v = 0 then Inr (ag, False)
      else
        rbind (deref (ag_provider_heap ag) v) (\<lambda>pv.
        rbind (set_foreach (\<lambda>platform ag'.
            rbind (platform_destroy ag' platform) (\<lambda>(ag'', _). Inr (False, ag''))) (pv_platforms pv) ag)
          (\<lambda>(platforms, ag1).
        rbind (set_destroy platforms) (\<lambda>_.
        Inr (ag1\<lparr>ag_provider_heap := (ag_provider_heap ag1)(v := None)\<rparr>, True)))))"

section \<open>The agent\<close>

definition lb_create :: "nat cset" where
  "lb_create = set_create"

definition lb_destroy :: "nat cset \<Rightarrow> fault + bool" where
  "lb_destroy platforms = rbind (set_destroy platforms) (\<lambda>_. Inr True)"

text \<open>
  The reverse proxy of \<^verbatim>\<open>reverseproxy.c\<close> is a stub: \<^verbatim>\<open>rp_create\<close> asserts false before it does
  anything, so an agent with a reverse proxy is never created, and what follows the assertion
  (on a provider that is not initialised) and \<^verbatim>\<open>rp_destroy\<close> are never reached.
\<close>

definition rp_create :: "fault + bool" where
  "rp_create = rbind (c_assert False) (\<lambda>_. Inr True)"

text \<open>Without load balancing the balancer is a null pointer; its set is not looked at then.\<close>

definition agent_create :: "'n \<Rightarrow> bool \<Rightarrow> bool \<Rightarrow> fault + 'n agent option" where
  "agent_create s load_balancing reverse_proxy =
     (if load_balancing \<and> reverse_proxy then Inr None
      else
        rbind (if reverse_proxy then rp_create else Inr True) (\<lambda>ok.
        rbind (c_assert ok) (\<lambda>_. Inr (Some
        \<lparr>ag_load_balancing = load_balancing, ag_providers = set_create, ag_consumers = set_create,
         ag_id_pool = set_create, ag_objects = set_create, ag_lb_platforms = lb_create,
         ag_object_heap = Map.empty, ag_consumer_heap = Map.empty, ag_provider_heap = Map.empty,
         ag_platform_heap = Map.empty, ag_device_heap = Map.empty, ag_mem = mem_init, ag_next = 1,
         ag_net = s\<rparr>))))"

definition agent_destroy :: "'n agent \<Rightarrow> fault + bool" where
  "agent_destroy ag =
     rbind (if ag_load_balancing ag then lb_destroy (ag_lb_platforms ag) else Inr True) (\<lambda>ok.
     rbind (c_assert ok) (\<lambda>_.
     rbind (set_destroy (ag_providers ag)) (\<lambda>_.
     rbind (set_destroy (ag_consumers ag)) (\<lambda>_.
     rbind (set_destroy (ag_id_pool ag)) (\<lambda>_.
     rbind (set_destroy (ag_objects ag)) (\<lambda>_. Inr True))))))"

end
