(* ===== verification/Device_Info.thy ===== *)
theory Device_Info
  imports Agent_Provider
begin

text \<open>
  What a provider tells the agent about its platform and devices, and what the agent answers
  the consumers' questions with: the parameter names of \<^verbatim>\<open>CL/cl.h\<close>, the order in which the
  provider sends them (\<^verbatim>\<open>provider/src/provider_device.c\<close>, \<^verbatim>\<open>provider_startup\<close>), and where
  the agent finds each in its copy (\<^verbatim>\<open>agent/src/device.h\<close>, \<^verbatim>\<open>opencl_device.c\<close>).
\<close>

section \<open>Names\<close>

datatype (plugins only: code) device_info =
    DEVICE_TYPE | DEVICE_VENDOR_ID | DEVICE_MAX_COMPUTE_UNITS | DEVICE_MAX_WORK_ITEM_DIMENSIONS |
    DEVICE_MAX_WORK_GROUP_SIZE | DEVICE_MAX_WORK_ITEM_SIZES | DEVICE_PREFERRED_VECTOR_WIDTH_CHAR |
    DEVICE_PREFERRED_VECTOR_WIDTH_SHORT | DEVICE_PREFERRED_VECTOR_WIDTH_INT |
    DEVICE_PREFERRED_VECTOR_WIDTH_LONG | DEVICE_PREFERRED_VECTOR_WIDTH_FLOAT |
    DEVICE_PREFERRED_VECTOR_WIDTH_DOUBLE | DEVICE_MAX_CLOCK_FREQUENCY | DEVICE_ADDRESS_BITS |
    DEVICE_MAX_READ_IMAGE_ARGS | DEVICE_MAX_WRITE_IMAGE_ARGS | DEVICE_MAX_MEM_ALLOC_SIZE |
    DEVICE_IMAGE2D_MAX_WIDTH | DEVICE_IMAGE2D_MAX_HEIGHT | DEVICE_IMAGE3D_MAX_WIDTH |
    DEVICE_IMAGE3D_MAX_HEIGHT | DEVICE_IMAGE3D_MAX_DEPTH | DEVICE_IMAGE_SUPPORT |
    DEVICE_MAX_PARAMETER_SIZE | DEVICE_MAX_SAMPLERS | DEVICE_MEM_BASE_ADDR_ALIGN |
    DEVICE_MIN_DATA_TYPE_ALIGN_SIZE | DEVICE_SINGLE_FP_CONFIG | DEVICE_GLOBAL_MEM_CACHE_TYPE |
    DEVICE_GLOBAL_MEM_CACHELINE_SIZE | DEVICE_GLOBAL_MEM_CACHE_SIZE | DEVICE_GLOBAL_MEM_SIZE |
    DEVICE_MAX_CONSTANT_BUFFER_SIZE | DEVICE_MAX_CONSTANT_ARGS | DEVICE_LOCAL_MEM_TYPE |
    DEVICE_LOCAL_MEM_SIZE | DEVICE_ERROR_CORRECTION_SUPPORT | DEVICE_PROFILING_TIMER_RESOLUTION |
    DEVICE_ENDIAN_LITTLE | DEVICE_AVAILABLE | DEVICE_COMPILER_AVAILABLE |
    DEVICE_EXECUTION_CAPABILITIES | DEVICE_QUEUE_PROPERTIES | DEVICE_NAME | DEVICE_VENDOR |
    DRIVER_VERSION | DEVICE_PROFILE | DEVICE_VERSION | DEVICE_EXTENSIONS | DEVICE_PLATFORM

text \<open>\<^verbatim>\<open>CL_DEVICE_TYPE\<close> is \<open>0x1000\<close>, and the values go on without a gap.\<close>

definition device_infos :: "device_info list" where
  "device_infos = [
     DEVICE_TYPE, DEVICE_VENDOR_ID, DEVICE_MAX_COMPUTE_UNITS, DEVICE_MAX_WORK_ITEM_DIMENSIONS,
     DEVICE_MAX_WORK_GROUP_SIZE, DEVICE_MAX_WORK_ITEM_SIZES, DEVICE_PREFERRED_VECTOR_WIDTH_CHAR,
     DEVICE_PREFERRED_VECTOR_WIDTH_SHORT, DEVICE_PREFERRED_VECTOR_WIDTH_INT,
     DEVICE_PREFERRED_VECTOR_WIDTH_LONG, DEVICE_PREFERRED_VECTOR_WIDTH_FLOAT,
     DEVICE_PREFERRED_VECTOR_WIDTH_DOUBLE, DEVICE_MAX_CLOCK_FREQUENCY, DEVICE_ADDRESS_BITS,
     DEVICE_MAX_READ_IMAGE_ARGS, DEVICE_MAX_WRITE_IMAGE_ARGS, DEVICE_MAX_MEM_ALLOC_SIZE,
     DEVICE_IMAGE2D_MAX_WIDTH, DEVICE_IMAGE2D_MAX_HEIGHT, DEVICE_IMAGE3D_MAX_WIDTH,
     DEVICE_IMAGE3D_MAX_HEIGHT, DEVICE_IMAGE3D_MAX_DEPTH, DEVICE_IMAGE_SUPPORT,
     DEVICE_MAX_PARAMETER_SIZE, DEVICE_MAX_SAMPLERS, DEVICE_MEM_BASE_ADDR_ALIGN,
     DEVICE_MIN_DATA_TYPE_ALIGN_SIZE, DEVICE_SINGLE_FP_CONFIG, DEVICE_GLOBAL_MEM_CACHE_TYPE,
     DEVICE_GLOBAL_MEM_CACHELINE_SIZE, DEVICE_GLOBAL_MEM_CACHE_SIZE, DEVICE_GLOBAL_MEM_SIZE,
     DEVICE_MAX_CONSTANT_BUFFER_SIZE, DEVICE_MAX_CONSTANT_ARGS, DEVICE_LOCAL_MEM_TYPE,
     DEVICE_LOCAL_MEM_SIZE, DEVICE_ERROR_CORRECTION_SUPPORT, DEVICE_PROFILING_TIMER_RESOLUTION,
     DEVICE_ENDIAN_LITTLE, DEVICE_AVAILABLE, DEVICE_COMPILER_AVAILABLE,
     DEVICE_EXECUTION_CAPABILITIES, DEVICE_QUEUE_PROPERTIES, DEVICE_NAME, DEVICE_VENDOR,
     DRIVER_VERSION, DEVICE_PROFILE, DEVICE_VERSION, DEVICE_EXTENSIONS, DEVICE_PLATFORM]"

definition device_info_of :: "u32 \<Rightarrow> device_info option" where
  "device_info_of w =
     (if 0x1000 \<le> w \<and> unat w - 0x1000 < length device_infos
      then Some (device_infos ! (unat w - 0x1000)) else None)"

datatype platform_info =
    PLATFORM_PROFILE | PLATFORM_VERSION | PLATFORM_NAME | PLATFORM_VENDOR | PLATFORM_EXTENSIONS

definition platform_infos :: "platform_info list" where
  "platform_infos =
     [PLATFORM_PROFILE, PLATFORM_VERSION, PLATFORM_NAME, PLATFORM_VENDOR, PLATFORM_EXTENSIONS]"

definition platform_info_of :: "u32 \<Rightarrow> platform_info option" where
  "platform_info_of w =
     (if 0x900 \<le> w \<and> unat w - 0x900 < length platform_infos
      then Some (platform_infos ! (unat w - 0x900)) else None)"

section \<open>The provider's messages\<close>

text \<open>
  The vendor's library is a function \<open>q\<close> from names to values; \<open>None\<close> is an error status, which
  leaves \<^verbatim>\<open>size_ret\<close> as it was. The first loop adds up the sizes, the second fills the
  buffer; a value that could not be had leaves its part of the buffer uninitialized.
\<close>

fun info_total :: "('i \<Rightarrow> byte list option) \<Rightarrow> 'i list \<Rightarrow> nat \<Rightarrow> nat" where
  "info_total q [] size_ret = 0"
| "info_total q (i # is) size_ret =
     (let size_ret' = (case q i of None \<Rightarrow> size_ret | Some bs \<Rightarrow> length bs)
      in size_ret' + info_total q is size_ret')"

fun info_bytes :: "('i \<Rightarrow> byte list option) \<Rightarrow> 'i list \<Rightarrow> fault + byte list" where
  "info_bytes q [] = Inr []"
| "info_bytes q (i # is) =
     (case q i of
        None \<Rightarrow> Inl Uninit_Read
      | Some bs \<Rightarrow> rbind (info_bytes q is) (\<lambda>rest. Inr (bs @ rest)))"

definition platform_info_list :: "platform_info list" where
  "platform_info_list =
     [PLATFORM_PROFILE, PLATFORM_VERSION, PLATFORM_NAME, PLATFORM_VENDOR, PLATFORM_EXTENSIONS]"

definition device_info_list :: "device_info list" where
  "device_info_list = [
     DEVICE_TYPE, DEVICE_VENDOR_ID, DEVICE_MAX_COMPUTE_UNITS, DEVICE_MAX_WORK_ITEM_DIMENSIONS,
     DEVICE_MAX_WORK_ITEM_SIZES, DEVICE_MAX_WORK_GROUP_SIZE, DEVICE_PREFERRED_VECTOR_WIDTH_CHAR,
     DEVICE_PREFERRED_VECTOR_WIDTH_SHORT, DEVICE_PREFERRED_VECTOR_WIDTH_INT,
     DEVICE_PREFERRED_VECTOR_WIDTH_LONG, DEVICE_PREFERRED_VECTOR_WIDTH_FLOAT,
     DEVICE_PREFERRED_VECTOR_WIDTH_DOUBLE, DEVICE_MAX_CLOCK_FREQUENCY, DEVICE_ADDRESS_BITS,
     DEVICE_MAX_MEM_ALLOC_SIZE, DEVICE_IMAGE_SUPPORT, DEVICE_MAX_READ_IMAGE_ARGS,
     DEVICE_MAX_WRITE_IMAGE_ARGS, DEVICE_IMAGE2D_MAX_WIDTH, DEVICE_IMAGE2D_MAX_HEIGHT,
     DEVICE_IMAGE3D_MAX_WIDTH, DEVICE_IMAGE3D_MAX_HEIGHT, DEVICE_IMAGE3D_MAX_DEPTH,
     DEVICE_MAX_SAMPLERS, DEVICE_MAX_PARAMETER_SIZE, DEVICE_MEM_BASE_ADDR_ALIGN,
     DEVICE_MIN_DATA_TYPE_ALIGN_SIZE, DEVICE_SINGLE_FP_CONFIG, DEVICE_GLOBAL_MEM_CACHE_TYPE,
     DEVICE_GLOBAL_MEM_CACHELINE_SIZE, DEVICE_GLOBAL_MEM_CACHE_SIZE, DEVICE_GLOBAL_MEM_SIZE,
     DEVICE_MAX_CONSTANT_BUFFER_SIZE, DEVICE_MAX_CONSTANT_ARGS, DEVICE_LOCAL_MEM_TYPE,
     DEVICE_LOCAL_MEM_SIZE, DEVICE_ERROR_CORRECTION_SUPPORT, DEVICE_PROFILING_TIMER_RESOLUTION,
     DEVICE_ENDIAN_LITTLE, DEVICE_AVAILABLE, DEVICE_COMPILER_AVAILABLE,
     DEVICE_EXECUTION_CAPABILITIES, DEVICE_QUEUE_PROPERTIES, DEVICE_PLATFORM, DEVICE_NAME,
     DEVICE_VENDOR, DRIVER_VERSION, DEVICE_PROFILE, DEVICE_VERSION, DEVICE_EXTENSIONS]"

text \<open>The values one after the other, and the local identifier.\<close>

definition platform_message :: "(platform_info \<Rightarrow> byte list option) \<Rightarrow> arg \<Rightarrow> fault + byte list" where
  "platform_message q platform_id =
     rbind (info_bytes q platform_info_list) (\<lambda>bs. Inr (bs @ enc64 platform_id))"

definition device_message :: "(device_info \<Rightarrow> byte list option) \<Rightarrow> arg \<Rightarrow> fault + byte list" where
  "device_message q device_id =
     rbind (info_bytes q device_info_list) (\<lambda>bs. Inr (bs @ enc64 device_id))"

section \<open>The agent's copy\<close>

text \<open>
  Where a value is: an offset and a size in the fields before or after the work item sizes,
  these sizes, or one of the strings. \<open>Available\<close> is asked of the provider.
\<close>

datatype (plugins only: code) field_place =
    Head nat nat
  | Sizes
  | Body nat nat
  | Text "agent_device \<Rightarrow> byte list option"
  | Available

fun device_field :: "device_info \<Rightarrow> field_place" where
  "device_field DEVICE_TYPE = Head 0 8"
| "device_field DEVICE_VENDOR_ID = Head 8 4"
| "device_field DEVICE_MAX_COMPUTE_UNITS = Head 12 4"
| "device_field DEVICE_MAX_WORK_ITEM_DIMENSIONS = Head 16 4"
| "device_field DEVICE_MAX_WORK_GROUP_SIZE = Body 0 8"
| "device_field DEVICE_MAX_WORK_ITEM_SIZES = Sizes"
| "device_field DEVICE_PREFERRED_VECTOR_WIDTH_CHAR = Body 8 4"
| "device_field DEVICE_PREFERRED_VECTOR_WIDTH_SHORT = Body 12 4"
| "device_field DEVICE_PREFERRED_VECTOR_WIDTH_INT = Body 16 4"
| "device_field DEVICE_PREFERRED_VECTOR_WIDTH_LONG = Body 20 4"
| "device_field DEVICE_PREFERRED_VECTOR_WIDTH_FLOAT = Body 24 4"
| "device_field DEVICE_PREFERRED_VECTOR_WIDTH_DOUBLE = Body 28 4"
| "device_field DEVICE_MAX_CLOCK_FREQUENCY = Body 32 4"
| "device_field DEVICE_ADDRESS_BITS = Body 36 4"
| "device_field DEVICE_MAX_READ_IMAGE_ARGS = Body 52 4"
| "device_field DEVICE_MAX_WRITE_IMAGE_ARGS = Body 56 4"
| "device_field DEVICE_MAX_MEM_ALLOC_SIZE = Body 40 8"
| "device_field DEVICE_IMAGE2D_MAX_WIDTH = Body 60 8"
| "device_field DEVICE_IMAGE2D_MAX_HEIGHT = Body 68 8"
| "device_field DEVICE_IMAGE3D_MAX_WIDTH = Body 76 8"
| "device_field DEVICE_IMAGE3D_MAX_HEIGHT = Body 84 8"
| "device_field DEVICE_IMAGE3D_MAX_DEPTH = Body 92 8"
| "device_field DEVICE_IMAGE_SUPPORT = Body 48 4"
| "device_field DEVICE_MAX_PARAMETER_SIZE = Body 104 8"
| "device_field DEVICE_MAX_SAMPLERS = Body 100 4"
| "device_field DEVICE_MEM_BASE_ADDR_ALIGN = Body 112 4"
| "device_field DEVICE_MIN_DATA_TYPE_ALIGN_SIZE = Body 116 4"
| "device_field DEVICE_SINGLE_FP_CONFIG = Body 120 8"
| "device_field DEVICE_GLOBAL_MEM_CACHE_TYPE = Body 128 4"
| "device_field DEVICE_GLOBAL_MEM_CACHELINE_SIZE = Body 132 4"
| "device_field DEVICE_GLOBAL_MEM_CACHE_SIZE = Body 136 8"
| "device_field DEVICE_GLOBAL_MEM_SIZE = Body 144 8"
| "device_field DEVICE_MAX_CONSTANT_BUFFER_SIZE = Body 152 8"
| "device_field DEVICE_MAX_CONSTANT_ARGS = Body 160 4"
| "device_field DEVICE_LOCAL_MEM_TYPE = Body 164 4"
| "device_field DEVICE_LOCAL_MEM_SIZE = Body 168 8"
| "device_field DEVICE_ERROR_CORRECTION_SUPPORT = Body 176 4"
| "device_field DEVICE_PROFILING_TIMER_RESOLUTION = Body 180 8"
| "device_field DEVICE_ENDIAN_LITTLE = Body 188 4"
| "device_field DEVICE_AVAILABLE = Available"
| "device_field DEVICE_COMPILER_AVAILABLE = Body 196 4"
| "device_field DEVICE_EXECUTION_CAPABILITIES = Body 200 8"
| "device_field DEVICE_QUEUE_PROPERTIES = Body 208 8"
| "device_field DEVICE_NAME = Text dv_name"
| "device_field DEVICE_VENDOR = Text dv_vendor"
| "device_field DRIVER_VERSION = Text dv_driver_version"
| "device_field DEVICE_PROFILE = Text dv_profile"
| "device_field DEVICE_VERSION = Text dv_version"
| "device_field DEVICE_EXTENSIONS = Text dv_extensions"
| "device_field DEVICE_PLATFORM = Body 216 8"

text \<open>\<^verbatim>\<open>value_size\<close> and the bytes at \<^verbatim>\<open>param_buf\<close>.\<close>

definition device_param :: "u32 \<Rightarrow> agent_device \<Rightarrow> field_place \<Rightarrow> fault + (nat \<times> byte list option)" where
  "device_param available dv f =
     (case f of
        Head off n \<Rightarrow> Inr (n, Some (drop off (dv_head dv)))
      | Sizes \<Rightarrow> Inr (8 * dv_max_work_item_dimensions dv, dv_work_item_sizes dv)
      | Body off n \<Rightarrow> Inr (n, Some (drop off (dv_body dv)))
      | Text s \<Rightarrow>
          (case s dv of None \<Rightarrow> Inl Null_Deref | Some bs \<Rightarrow> rbind (strlen bs) (\<lambda>n. Inr (n + 1, Some bs)))
      | Available \<Rightarrow> Inr (4, Some (enc32 available)))"

fun platform_param :: "agent_platform \<Rightarrow> platform_info \<Rightarrow> byte list option" where
  "platform_param pf PLATFORM_PROFILE = pf_profile pf"
| "platform_param pf PLATFORM_VERSION = pf_version pf"
| "platform_param pf PLATFORM_NAME = pf_name pf"
| "platform_param pf PLATFORM_VENDOR = pf_vendor pf"
| "platform_param pf PLATFORM_EXTENSIONS = pf_extensions pf"

section \<open>What the provider reports is what the agent answers\<close>

text \<open>The sizes OpenCL documents for the values, and strings that end in a zero.\<close>

definition reported :: "(device_info \<Rightarrow> byte list) \<Rightarrow> device_info \<Rightarrow> bool" where
  "reported v i \<longleftrightarrow>
     (case device_field i of
        Head off n \<Rightarrow> length (v i) = n
      | Sizes \<Rightarrow> length (v i) = 8 * unat (dec32 (v DEVICE_MAX_WORK_ITEM_DIMENSIONS))
      | Body off n \<Rightarrow> length (v i) = n
      | Text s \<Rightarrow> cstr (v i)
      | Available \<Rightarrow> length (v i) = 4)"

definition fixed_size :: "device_info \<Rightarrow> nat" where
  "fixed_size i = (case device_field i of Head off n \<Rightarrow> n | Body off n \<Rightarrow> n | Available \<Rightarrow> 4 | _ \<Rightarrow> 0)"

definition head_list :: "device_info list" where
  "head_list = take 4 device_info_list"

definition body_list :: "device_info list" where
  "body_list = take 39 (drop 5 device_info_list)"

lemma info_bytes_all: "(\<And>i. q i = Some (v i)) \<Longrightarrow> info_bytes q is = Inr (concat (map v is))"
  by (induction "is") auto

lemma info_total_all: "(\<And>i. q i = Some (v i)) \<Longrightarrow> info_total q is n = length (concat (map v is))"
  by (induction "is" arbitrary: n) auto

lemma drop_to_item:
  assumes "i \<in> set is"
  shows "take (length (v i)) (drop (sum_list (map (\<lambda>j. length (v j)) (takeWhile (\<lambda>j. j \<noteq> i) is)))
    (concat (map v is))) = v i"
  using assms by (induction "is") auto

text \<open>The fields of the structure are in the order of the messages.\<close>

lemma head_fields: "\<forall>i\<in>set head_list. device_field i =
    Head (sum_list (map fixed_size (takeWhile (\<lambda>j. j \<noteq> i) head_list))) (fixed_size i)"
  by (simp add: head_list_def device_info_list_def fixed_size_def)

lemma body_fields: "\<forall>i\<in>set body_list. device_field i =
    (if i = DEVICE_AVAILABLE then Available
     else Body (sum_list (map fixed_size (takeWhile (\<lambda>j. j \<noteq> i) body_list))) (fixed_size i))"
  by (simp add: body_list_def device_info_list_def fixed_size_def)

lemma device_info_split: "device_info_list = head_list @ DEVICE_MAX_WORK_ITEM_SIZES # body_list @
    [DEVICE_NAME, DEVICE_VENDOR, DRIVER_VERSION, DEVICE_PROFILE, DEVICE_VERSION, DEVICE_EXTENSIONS]"
  by (simp add: head_list_def body_list_def device_info_list_def)

lemma fixed_sizes:
  "sum_list (map fixed_size head_list) = 20" "sum_list (map fixed_size body_list) = 224"
  "sum_list (map fixed_size (takeWhile (\<lambda>j. j \<noteq> DEVICE_PLATFORM) body_list)) = 216"
  "sum_list (map fixed_size (takeWhile (\<lambda>j. j \<noteq> DEVICE_AVAILABLE) body_list)) = 192"
  "sum_list (map fixed_size (takeWhile (\<lambda>j. j \<noteq> DEVICE_MAX_WORK_ITEM_DIMENSIONS) head_list)) = 16"
  by (simp_all add: head_list_def body_list_def device_info_list_def fixed_size_def)

lemma reported_size:
  assumes "\<forall>i. reported v i" and "i \<in> set head_list \<or> i \<in> set body_list"
  shows "length (v i) = fixed_size i"
proof -
  have "(\<exists>off. device_field i = Head off (fixed_size i)) \<or> (\<exists>off. device_field i = Body off (fixed_size i)) \<or>
      device_field i = Available"
    using assms(2) head_fields body_fields by auto
  moreover have "device_field i = Available \<Longrightarrow> fixed_size i = 4" by (simp add: fixed_size_def)
  ultimately show ?thesis
    using assms(1) [rule_format, of i] by (auto simp: reported_def)
qed

lemma reported_length:
  assumes "\<forall>i. reported v i" and "set is \<subseteq> set head_list \<or> set is \<subseteq> set body_list"
  shows "sum_list (map (\<lambda>j. length (v j)) is) = sum_list (map fixed_size is)"
  using assms(2) reported_size [OF assms(1)] by (intro arg_cong [where f = sum_list] map_cong) auto

lemma takeWhile_subset: "set xs \<subseteq> A \<Longrightarrow> set (takeWhile P xs) \<subseteq> A"
  by (induction xs) auto

text \<open>A field of the structure is at its place.\<close>

lemma field_at:
  assumes v: "\<forall>i. reported v i" and fs: "is = head_list \<or> is = body_list" and i: "i \<in> set is"
  shows "take (fixed_size i) (drop (sum_list (map fixed_size (takeWhile (\<lambda>j. j \<noteq> i) is))) (concat (map v is))) = v i"
    and "length (v i) = fixed_size i"
proof -
  show len: "length (v i) = fixed_size i" using reported_size [OF v] fs i by auto
  have "set (takeWhile (\<lambda>j. j \<noteq> i) is) \<subseteq> set head_list \<or> set (takeWhile (\<lambda>j. j \<noteq> i) is) \<subseteq> set body_list"
    using fs takeWhile_subset [OF order_refl, of "\<lambda>j. j \<noteq> i" "is"] by auto
  from reported_length [OF v this] len drop_to_item [OF i, of v]
  show "take (fixed_size i) (drop (sum_list (map fixed_size (takeWhile (\<lambda>j. j \<noteq> i) is))) (concat (map v is))) = v i"
    by simp
qed

definition reported_device :: "(device_info \<Rightarrow> byte list) \<Rightarrow> arg \<Rightarrow> agent_device \<Rightarrow> agent_device" where
  "reported_device v device_id dv =
     dv\<lparr>dv_head := concat (map v head_list), dv_work_item_sizes := Some (v DEVICE_MAX_WORK_ITEM_SIZES),
        dv_body := concat (map v body_list), dv_name := Some (v DEVICE_NAME),
        dv_vendor := Some (v DEVICE_VENDOR), dv_driver_version := Some (v DRIVER_VERSION),
        dv_profile := Some (v DEVICE_PROFILE), dv_version := Some (v DEVICE_VERSION),
        dv_extensions := Some (v DEVICE_EXTENSIONS), dv_id := device_id\<rparr>"

lemma dec_take: "dec32 (take 4 bs) = dec32 bs" "dec64 (take 8 bs) = dec64 bs"
  by (simp_all add: dec32_def dec64_def)

lemma reported_dims:
  assumes "\<forall>i. reported v i"
  shows "dv_max_work_item_dimensions (dv\<lparr>dv_head := concat (map v head_list)\<rparr>) =
    unat (dec32 (v DEVICE_MAX_WORK_ITEM_DIMENSIONS))"
proof -
  have i: "DEVICE_MAX_WORK_ITEM_DIMENSIONS \<in> set head_list" "fixed_size DEVICE_MAX_WORK_ITEM_DIMENSIONS = 4"
    by (simp_all add: head_list_def device_info_list_def fixed_size_def)
  from field_at(1) [OF assms disjI1 [OF refl] i(1)] fixed_sizes(5) i(2)
  have "take 4 (drop 16 (concat (map v head_list))) = v DEVICE_MAX_WORK_ITEM_DIMENSIONS" by simp
  then show ?thesis using dec_take(1) [of "drop 16 (concat (map v head_list))"]
    by (simp add: dv_max_work_item_dimensions_def)
qed

lemma copy_bytes_append: "length a = n \<Longrightarrow> copy_bytes (a @ b) n = Inr a"
  by (simp add: copy_bytes_def)

lemma device_init_message:
  assumes v: "\<forall>i. reported v i" and dv: "ag_device_heap ag p = Some dv" "p \<noteq> 0"
    and q: "\<And>i. q i = Some (v i)"
  shows "\<exists>msg. device_message q device_id = Inr msg \<and>
    device_init ag p msg = Inr (put_device ag p (reported_device v device_id dv), True)"
proof -
  let ?tail = "v DEVICE_NAME @ v DEVICE_VENDOR @ v DRIVER_VERSION @ v DEVICE_PROFILE @ v DEVICE_VERSION @
    v DEVICE_EXTENSIONS @ enc64 device_id"
  let ?head = "concat (map v head_list)" and ?body = "concat (map v body_list)"
  let ?msg = "?head @ v DEVICE_MAX_WORK_ITEM_SIZES @ ?body @ ?tail"
  have len: "length ?head = 20" "length ?body = 224"
    using reported_length [OF v, of head_list] reported_length [OF v, of body_list] fixed_sizes(1,2)
    by (simp_all add: length_concat o_def)
  have sizes: "length (v DEVICE_MAX_WORK_ITEM_SIZES) =
      8 * dv_max_work_item_dimensions (dv\<lparr>dv_head := ?head\<rparr>)"
    using v [rule_format, of DEVICE_MAX_WORK_ITEM_SIZES] reported_dims [OF v, of dv] by (simp add: reported_def)
  have str: "cstr (v DEVICE_NAME)" "cstr (v DEVICE_VENDOR)" "cstr (v DRIVER_VERSION)"
    "cstr (v DEVICE_PROFILE)" "cstr (v DEVICE_VERSION)" "cstr (v DEVICE_EXTENSIONS)"
    using v [rule_format, of DEVICE_NAME] v [rule_format, of DEVICE_VENDOR] v [rule_format, of DRIVER_VERSION]
      v [rule_format, of DEVICE_PROFILE] v [rule_format, of DEVICE_VERSION] v [rule_format, of DEVICE_EXTENSIONS]
    by (simp_all add: reported_def)
  have "device_message q device_id = Inr ?msg"
    by (simp add: device_message_def info_bytes_all [OF q] device_info_split)
  moreover have "device_init ag p ?msg = Inr (put_device ag p (reported_device v device_id dv), True)"
    using dv by (simp add: device_init_def deref_def copy_bytes_append [OF len(1)] copy_bytes_append [OF len(2)]
      copy_bytes_append [OF sizes] len sizes [symmetric] Let_def str clara_malloc_and_strcpy_cstr
      copy_bytes_def reported_device_def)
  ultimately show ?thesis by blast
qed

text \<open>Every value but the availability, which the agent asks anew, is answered as reported.\<close>

lemma reported_device_param:
  assumes v: "\<forall>i. reported v i" and i: "i \<noteq> DEVICE_AVAILABLE"
  shows "\<exists>bs. device_param a (reported_device v device_id dv) (device_field i) = Inr (length (v i), Some bs) \<and>
    copy_bytes bs (length (v i)) = Inr (v i)"
proof -
  have "i \<in> set device_info_list" by (cases i) (simp_all add: device_info_list_def)
  have fits: "n \<le> length bs" if "take n bs = w" "length w = n" for n and bs w :: "byte list"
    using that by (metis length_take min.cobounded1)
  from \<open>i \<in> set device_info_list\<close> consider "i \<in> set head_list" | "i = DEVICE_MAX_WORK_ITEM_SIZES" | "i \<in> set body_list"
    | s where "device_field i = Text s" "s (reported_device v device_id dv) = Some (v i)"
    unfolding device_info_split by (auto simp: reported_device_def)
  then show ?thesis
  proof cases
    case 1
    note at = field_at [OF v disjI1 [OF refl] 1]
    from fits [OF at] head_fields [rule_format, OF 1] at show ?thesis
      by (simp add: device_param_def reported_device_def copy_bytes_def)
  next
    case 2
    have "dv_max_work_item_dimensions (reported_device v device_id dv) =
        unat (dec32 (v DEVICE_MAX_WORK_ITEM_DIMENSIONS))"
      using reported_dims [OF v, of dv] by (simp add: dv_max_work_item_dimensions_def reported_device_def)
    with v [rule_format, of DEVICE_MAX_WORK_ITEM_SIZES] 2 show ?thesis
      by (simp add: device_param_def reported_def reported_device_def copy_bytes_def)
  next
    case 3
    note at = field_at [OF v disjI2 [OF refl] 3]
    from fits [OF at] body_fields [rule_format, OF 3] at i show ?thesis
      by (simp add: device_param_def reported_device_def copy_bytes_def)
  next
    case 4
    with v [rule_format, of i] have c: "cstr (v i)" by (simp add: reported_def)
    then have "length (v i) \<noteq> 0" "strlen (v i) = Inr (length (v i) - 1)"
      using strlen_cstr [OF c, of "[]"] by (simp_all add: cstr_def)
    with 4 show ?thesis by (simp add: device_param_def copy_bytes_def)
  qed
qed

definition reported_platform :: "(platform_info \<Rightarrow> byte list) \<Rightarrow> arg \<Rightarrow> agent_platform \<Rightarrow> agent_platform" where
  "reported_platform v platform_id pf =
     pf\<lparr>pf_profile := Some (v PLATFORM_PROFILE), pf_version := Some (v PLATFORM_VERSION),
        pf_name := Some (v PLATFORM_NAME), pf_vendor := Some (v PLATFORM_VENDOR),
        pf_extensions := Some (v PLATFORM_EXTENSIONS), pf_id := platform_id\<rparr>"

lemma platform_init_message:
  assumes v: "\<forall>i. cstr (v i)" and pf: "ag_platform_heap ag p = Some pf" "p \<noteq> 0"
    and q: "\<And>i. q i = Some (v i)"
  shows "\<exists>msg. platform_message q platform_id = Inr msg \<and>
    platform_init ag p msg = Inr (put_platform ag p (reported_platform v platform_id pf), True)"
  using pf v
  by (simp add: platform_message_def info_bytes_all [OF q] platform_info_list_def platform_init_def
      deref_def clara_malloc_and_strcpy_cstr copy_bytes_def reported_platform_def)

lemma reported_platform_param: "platform_param (reported_platform v platform_id pf) i = Some (v i)"
  by (cases i) (simp_all add: reported_platform_def)

end
