(* ===== verification/Provider_State.thy ===== *)
theory Provider_State
  imports Device_Info Rpc
begin

text \<open>
  The provider process: its state (\<^verbatim>\<open>provider/src/provider.h\<close>, \<^verbatim>\<open>platform.h\<close>, \<^verbatim>\<open>device.h\<close>), the
  vendor's OpenCL library it calls, the searches of \<^verbatim>\<open>provider.c\<close> and the translation of
  identifiers behind the pointers of a call.
\<close>

section \<open>The vendor's library\<close>

text \<open>
  The library is not part of the program: functions on its own state \<open>'o\<close> and on the memory
  it is given pointers into. One kind of function returns a status (\<^verbatim>\<open>cl_int\<close>), the other an
  object and, where it is given the address of a variable, the error code it stores there.
  The rest are the queries made at the start; \<open>None\<close> is an error status.
\<close>

record 'o vendor =
  vd_status :: "cl_function_t \<Rightarrow> arg list \<Rightarrow> 'o \<Rightarrow> memory \<Rightarrow> u32 \<times> 'o \<times> memory"
  vd_object :: "cl_function_t \<Rightarrow> arg list \<Rightarrow> 'o \<Rightarrow> memory \<Rightarrow> arg \<times> u32 \<times> 'o \<times> memory"
  vd_platforms :: "arg list option"
  vd_platform_info :: "arg \<Rightarrow> platform_info \<Rightarrow> byte list option"
  vd_devices :: "arg \<Rightarrow> arg list option"
  vd_device_info :: "arg \<Rightarrow> device_info \<Rightarrow> byte list option"

section \<open>The state\<close>

text \<open>A platform's set of devices is null before it is created.\<close>

record prov_device =
  dvc_id :: arg
  dvc_global_id :: global_id

record prov_platform =
  plt_id :: arg
  plt_global_id :: global_id
  plt_devices :: "nat cset option"

text \<open>
  The variable \<^verbatim>\<open>provider\<close>, with the heap of its platforms and devices, the memory consumers
  have allocated, and the states of the network and the library.
\<close>

record ('n, 'o) clara_provider =
  pr_sd :: sd
  pr_agent :: sockaddr
  pr_opts_device :: int
  pr_platforms :: "nat cset"
  pr_platform_heap :: "nat \<rightharpoonup> prov_platform"
  pr_device_heap :: "nat \<rightharpoonup> prov_device"
  pr_id_map :: "mapping cset"
  pr_allocations :: "clara_allocation cset"
  pr_mem :: memory
  pr_next :: nat
  pr_net :: 'n
  pr_vendor :: 'o

section \<open>Searches\<close>

text \<open>The platform or device, or null.\<close>

definition provider_find_platform ::
  "('n, 'o) clara_provider \<Rightarrow> global_id \<Rightarrow> fault + (('n, 'o) clara_provider \<times> nat)"
where
  "provider_find_platform pr i =
     rbind (set_foreach (\<lambda>platform r.
         rbind (deref (pr_platform_heap pr) platform) (\<lambda>pf.
         Inr (if plt_global_id pf = i then (True, platform) else (False, 0)))) (pr_platforms pr) 0)
       (\<lambda>(s, platform). Inr (pr\<lparr>pr_platforms := s\<rparr>, platform))"

definition provider_find_device ::
  "('n, 'o) clara_provider \<Rightarrow> nat \<Rightarrow> global_id \<Rightarrow> fault + (('n, 'o) clara_provider \<times> nat)"
where
  "provider_find_device pr platform i =
     rbind (deref (pr_platform_heap pr) platform) (\<lambda>pf.
     case plt_devices pf of
       None \<Rightarrow> Inl Null_Deref
     | Some devices \<Rightarrow>
         rbind (set_foreach (\<lambda>device r.
             rbind (deref (pr_device_heap pr) device) (\<lambda>dv.
             Inr (if dvc_global_id dv = i then (True, device) else (False, 0)))) devices 0)
           (\<lambda>(s, device).
              Inr (pr\<lparr>pr_platform_heap := (pr_platform_heap pr)(platform \<mapsto> pf\<lparr>plt_devices := Some s\<rparr>)\<rparr>,
                   device)))"

definition provider_id_map ::
  "('n, 'o) clara_provider \<Rightarrow> global_id \<Rightarrow> fault + (('n, 'o) clara_provider \<times> arg)"
where
  "provider_id_map pr i =
     rbind (mapping_find_by_virt (pr_id_map pr) i) (\<lambda>r.
     case r of None \<Rightarrow> Inl Assertion_Failed | Some mapping \<Rightarrow> Inr (pr, m_real mapping))"

section \<open>Arrays behind pointers\<close>

text \<open>
  \<^verbatim>\<open>mapping_translate_list_to_real\<close> with one array for input and output, and the assertion
  that all its items have been translated.
\<close>

definition translate_in_place ::
  "('n, 'o) clara_provider \<Rightarrow> u32 \<Rightarrow> arg \<Rightarrow> fault + ('n, 'o) clara_provider"
where
  "translate_in_place pr num_items p =
     (if ARG2PTR p = 0 \<or> num_items = 0 then
        rbind (mapping_translate_list_to_real (pr_id_map pr) num_items
                 (if ARG2PTR p = 0 then None else Some [])) (\<lambda>(n, _).
        rbind (c_assert (n = num_items)) (\<lambda>_. Inr pr))
      else
        rbind (mem_block (pr_mem pr) (ARG2PTR p)) (\<lambda>bs.
        rbind (mapping_translate_list_to_real (pr_id_map pr) num_items (Some (words_of bs))) (\<lambda>(n, reals).
        rbind (mem_write (pr_mem pr) (ARG2PTR p) 0 (enc_args reals)) (\<lambda>m.
        rbind (c_assert (n = num_items)) (\<lambda>_. Inr (pr\<lparr>pr_mem := m\<rparr>))))))"

end
