(* ===== verification/Provider_Calls.thy ===== *)
theory Provider_Calls
  imports Provider_State
begin

text \<open>
  The provider's side of the calls: the handlers of \<^verbatim>\<open>provider/src/opencl_*.c\<close>, which take
  the arguments apart and call the vendor's library, and the table of \<^verbatim>\<open>provider.c\<close> with the
  masks of the arguments that are identifiers. Debug output is left out.
\<close>

section \<open>Calls of the library\<close>

type_synonym ('n, 'o) pr_handler =
  "('n, 'o) clara_provider \<Rightarrow> execute_request \<Rightarrow> arg list \<Rightarrow>
    fault + (('n, 'o) clara_provider \<times> execute_request \<times> arg list)"

text \<open>\<^verbatim>\<open>cl_uint\<close> and \<^verbatim>\<open>cl_bool\<close> arguments keep their low 32 bits; a status is sign-extended.\<close>

definition uint32 :: "arg \<Rightarrow> arg" where
  "uint32 a = ucast (ucast a :: u32)"

definition status_call :: "'o vendor \<Rightarrow> cl_function_t \<Rightarrow> arg list \<Rightarrow> ('n, 'o) pr_handler" where
  "status_call vd f xs pr params args =
     (let (status, o', m) = vd_status vd f xs (pr_vendor pr) (pr_mem pr)
      in Inr (pr\<lparr>pr_vendor := o', pr_mem := m\<rparr>, argv0 params (scast status), args))"

definition object_call :: "'o vendor \<Rightarrow> cl_function_t \<Rightarrow> arg list \<Rightarrow> ('n, 'o) pr_handler" where
  "object_call vd f xs pr params args =
     (let (object, _, o', m) = vd_object vd f xs (pr_vendor pr) (pr_mem pr)
      in Inr (pr\<lparr>pr_vendor := o', pr_mem := m\<rparr>, argv0 params object, args))"

text \<open>With \<^verbatim>\<open>DECLARE_ERRCODE\<close> and \<^verbatim>\<open>COPY_ERRCODE\<close>: the error code goes through a variable.\<close>

definition errcode_call :: "'o vendor \<Rightarrow> cl_function_t \<Rightarrow> arg list \<Rightarrow> arg \<Rightarrow> ('n, 'o) pr_handler" where
  "errcode_call vd f xs errcode_ret pr params args =
     (let (object, errcode, o', m) = vd_object vd f xs (pr_vendor pr) (pr_mem pr)
      in rbind
           (if ARG2PTR errcode_ret = 0 then Inr m
            else mem_write m (ARG2PTR errcode_ret) 0 (enc32 errcode)) (\<lambda>m'.
         Inr (pr\<lparr>pr_vendor := o', pr_mem := m'\<rparr>, argv0 params object, args)))"

text \<open>\<^verbatim>\<open>DECLARE_GETOBJECTINFO\<close>.\<close>

definition get_object_info :: "'o vendor \<Rightarrow> cl_function_t \<Rightarrow> ('n, 'o) pr_handler" where
  "get_object_info vd f pr params args =
     status_call vd f [argv args 1, uint32 (argv args 2), argv args 3, argv args 4, argv args 5] pr params args"

definition clara_clGetDeviceInfo :: "'o vendor \<Rightarrow> ('n, 'o) pr_handler" where
  "clara_clGetDeviceInfo vd pr params args =
     status_call vd CL_GETDEVICEINFO
       [argv args 1, uint32 (argv args 2), argv args 3, argv args 4, argv args 5] pr params args"

section \<open>Contexts\<close>

text \<open>
  The properties are pairs of a name and a value up to a zero name. The first loop finds the
  platform, the second puts the local identifier in its place; both read past a block that has
  no zero.
\<close>

fun context_platform :: "arg list \<Rightarrow> arg \<Rightarrow> fault + arg" where
  "context_platform [] platform_id = Inl Buffer_Overflow"
| "context_platform [name] platform_id = (if name = 0 then Inr platform_id else Inl Buffer_Overflow)"
| "context_platform (name # value # ctx_prop) platform_id =
     (if name = 0 then Inr platform_id
      else context_platform ctx_prop (if name = CL_CONTEXT_PLATFORM then value else platform_id))"

fun set_context_platform :: "arg list \<Rightarrow> arg \<Rightarrow> fault + arg list" where
  "set_context_platform [] i = Inl Buffer_Overflow"
| "set_context_platform [name] i = (if name = 0 then Inr [name] else Inl Buffer_Overflow)"
| "set_context_platform (name # value # ctx_prop) i =
     (if name = 0 then Inr (name # value # ctx_prop)
      else rbind (set_context_platform ctx_prop i) (\<lambda>rest.
           Inr (name # (if name = CL_CONTEXT_PLATFORM then i else value) # rest)))"

text \<open>Both handlers begin with it: the local platform, and its identifier among the properties.\<close>

definition context_properties ::
  "('n, 'o) clara_provider \<Rightarrow> arg \<Rightarrow> fault + (('n, 'o) clara_provider \<times> nat)"
where
  "context_properties pr properties =
     rbind (mem_block (pr_mem pr) (ARG2PTR properties)) (\<lambda>bs.
     rbind (context_platform (words_of bs) 0) (\<lambda>platform_id.
     rbind (provider_find_platform pr platform_id) (\<lambda>(pr1, platform).
     rbind (c_assert (platform \<noteq> 0)) (\<lambda>_.
     rbind (deref (pr_platform_heap pr1) platform) (\<lambda>pf.
     rbind (set_context_platform (words_of bs) (plt_id pf)) (\<lambda>ps.
     rbind (mem_write (pr_mem pr1) (ARG2PTR properties) 0 (enc_args ps)) (\<lambda>m.
     Inr (pr1\<lparr>pr_mem := m\<rparr>, platform))))))))"

text \<open>The loop over the devices, from index \<open>i\<close> with \<open>n\<close> to go.\<close>

fun translate_devices ::
  "nat \<Rightarrow> nat \<Rightarrow> ('n, 'o) clara_provider \<Rightarrow> nat \<Rightarrow> arg \<Rightarrow> fault + ('n, 'o) clara_provider"
where
  "translate_devices i 0 pr platform devices = Inr pr"
| "translate_devices i (Suc n) pr platform devices =
     rbind (mem_read (pr_mem pr) (ARG2PTR devices) (8 * i) 8) (\<lambda>bs.
     rbind (provider_find_device pr platform (dec64 bs)) (\<lambda>(pr1, device).
     rbind (deref (pr_device_heap pr1) device) (\<lambda>dv.
     rbind (mem_write (pr_mem pr1) (ARG2PTR devices) (8 * i) (enc64 (dvc_id dv))) (\<lambda>m.
     translate_devices (Suc i) n (pr1\<lparr>pr_mem := m\<rparr>) platform devices))))"

definition clara_clCreateContext :: "'o vendor \<Rightarrow> ('n, 'o) pr_handler" where
  "clara_clCreateContext vd pr params args =
     (let properties = argv args 1; num_devices = ucast (argv args 2) :: u32; devices = argv args 3
      in rbind (context_properties pr properties) (\<lambda>(pr1, platform).
         rbind (translate_devices 0 (unat num_devices) pr1 platform devices) (\<lambda>pr2.
         errcode_call vd CL_CREATECONTEXT [properties, ucast num_devices, devices, 0, 0] (argv args 6)
           pr2 params args)))"

definition clara_clCreateContextFromType :: "'o vendor \<Rightarrow> ('n, 'o) pr_handler" where
  "clara_clCreateContextFromType vd pr params args =
     (let properties = argv args 1; device_type = argv args 2
      in rbind (context_properties pr properties) (\<lambda>(pr1, platform).
         errcode_call vd CL_CREATECONTEXTFROMTYPE [properties, device_type, 0, 0] (argv args 5)
           pr1 params args))"

definition clara_clRetainContext :: "'o vendor \<Rightarrow> ('n, 'o) pr_handler" where
  "clara_clRetainContext vd pr params args = status_call vd CL_RETAINCONTEXT [argv args 1] pr params args"

definition clara_clReleaseContext :: "'o vendor \<Rightarrow> ('n, 'o) pr_handler" where
  "clara_clReleaseContext vd pr params args = status_call vd CL_RELEASECONTEXT [argv args 1] pr params args"

section \<open>Command queues\<close>

definition clara_clCreateCommandQueue :: "'o vendor \<Rightarrow> ('n, 'o) pr_handler" where
  "clara_clCreateCommandQueue vd pr params args =
     object_call vd CL_CREATECOMMANDQUEUE [argv args 1, argv args 2, argv args 3, argv args 4] pr params args"

definition clara_clRetainCommandQueue :: "'o vendor \<Rightarrow> ('n, 'o) pr_handler" where
  "clara_clRetainCommandQueue vd pr params args =
     status_call vd CL_RETAINCOMMANDQUEUE [argv args 1] pr params args"

definition clara_clReleaseCommandQueue :: "'o vendor \<Rightarrow> ('n, 'o) pr_handler" where
  "clara_clReleaseCommandQueue vd pr params args =
     status_call vd CL_RELEASECOMMANDQUEUE [argv args 1] pr params args"

definition clara_clGetCommandQueueInfo :: "'o vendor \<Rightarrow> ('n, 'o) pr_handler" where
  "clara_clGetCommandQueueInfo vd = get_object_info vd CL_GETCOMMANDQUEUEINFO"

definition clara_clFlush :: "'o vendor \<Rightarrow> ('n, 'o) pr_handler" where
  "clara_clFlush vd pr params args = status_call vd CL_FLUSH [argv args 1] pr params args"

definition clara_clFinish :: "'o vendor \<Rightarrow> ('n, 'o) pr_handler" where
  "clara_clFinish vd pr params args = status_call vd CL_FINISH [argv args 1] pr params args"

section \<open>Memory objects\<close>

definition clara_clCreateBuffer :: "'o vendor \<Rightarrow> ('n, 'o) pr_handler" where
  "clara_clCreateBuffer vd pr params args =
     object_call vd CL_CREATEBUFFER
       [argv args 1, argv args 2, argv args 3, argv args 4, argv args 5] pr params args"

definition clara_clRetainMemObject :: "'o vendor \<Rightarrow> ('n, 'o) pr_handler" where
  "clara_clRetainMemObject vd pr params args = status_call vd CL_RETAINMEMOBJECT [argv args 1] pr params args"

definition clara_clReleaseMemObject :: "'o vendor \<Rightarrow> ('n, 'o) pr_handler" where
  "clara_clReleaseMemObject vd pr params args =
     status_call vd CL_RELEASEMEMOBJECT [argv args 1] pr params args"

definition clara_clGetMemObjectInfo :: "'o vendor \<Rightarrow> ('n, 'o) pr_handler" where
  "clara_clGetMemObjectInfo vd = get_object_info vd CL_GETMEMOBJECTINFO"

definition clara_clEnqueueReadBuffer :: "'o vendor \<Rightarrow> ('n, 'o) pr_handler" where
  "clara_clEnqueueReadBuffer vd pr params args =
     rbind (translate_in_place pr (ucast (argv args 7)) (argv args 8)) (\<lambda>pr1.
     status_call vd CL_ENQUEUEREADBUFFER
       [argv args 1, argv args 2, uint32 (argv args 3), argv args 4, argv args 5, argv args 6,
        uint32 (argv args 7), argv args 8, argv args 9] pr1 params args)"

definition clara_clEnqueueWriteBuffer :: "'o vendor \<Rightarrow> ('n, 'o) pr_handler" where
  "clara_clEnqueueWriteBuffer vd pr params args =
     rbind (translate_in_place pr (ucast (argv args 7)) (argv args 8)) (\<lambda>pr1.
     status_call vd CL_ENQUEUEWRITEBUFFER
       [argv args 1, argv args 2, uint32 (argv args 3), argv args 4, argv args 5, argv args 6,
        uint32 (argv args 7), argv args 8, argv args 9] pr1 params args)"

definition clara_clEnqueueCopyBuffer :: "'o vendor \<Rightarrow> ('n, 'o) pr_handler" where
  "clara_clEnqueueCopyBuffer vd pr params args =
     rbind (translate_in_place pr (ucast (argv args 7)) (argv args 8)) (\<lambda>pr1.
     status_call vd CL_ENQUEUECOPYBUFFER
       [argv args 1, argv args 2, argv args 3, argv args 4, argv args 5, argv args 6,
        uint32 (argv args 7), argv args 8, argv args 9] pr1 params args)"

section \<open>Programs\<close>

definition clara_clCreateProgramWithSource :: "'o vendor \<Rightarrow> ('n, 'o) pr_handler" where
  "clara_clCreateProgramWithSource vd pr params args =
     rbind (translate_in_place pr (ucast (argv args 2)) (argv args 3)) (\<lambda>pr1.
     errcode_call vd CL_CREATEPROGRAMWITHSOURCE
       [argv args 1, uint32 (argv args 2), argv args 3, argv args 4] (argv args 5) pr1 params args)"

text \<open>\<^verbatim>\<open>assert(0)\<close>: the translation of its lists is not written yet.\<close>

definition clara_clCreateProgramWithBinary :: "'o vendor \<Rightarrow> ('n, 'o) pr_handler" where
  "clara_clCreateProgramWithBinary vd pr params args = Inl Assertion_Failed"

definition clara_clRetainProgram :: "'o vendor \<Rightarrow> ('n, 'o) pr_handler" where
  "clara_clRetainProgram vd pr params args = status_call vd CL_RETAINPROGRAM [argv args 1] pr params args"

definition clara_clReleaseProgram :: "'o vendor \<Rightarrow> ('n, 'o) pr_handler" where
  "clara_clReleaseProgram vd pr params args = status_call vd CL_RELEASEPROGRAM [argv args 1] pr params args"

definition clara_clBuildProgram :: "'o vendor \<Rightarrow> ('n, 'o) pr_handler" where
  "clara_clBuildProgram vd pr params args =
     rbind (c_assert (argv args 5 = 0)) (\<lambda>_.
     rbind (c_assert (argv args 6 = 0)) (\<lambda>_.
     rbind (translate_in_place pr (ucast (argv args 2)) (argv args 3)) (\<lambda>pr1.
     status_call vd CL_BUILDPROGRAM
       [argv args 1, uint32 (argv args 2), argv args 3, argv args 4, 0, 0] pr1 params args)))"

definition clara_clUnloadCompiler :: "'o vendor \<Rightarrow> ('n, 'o) pr_handler" where
  "clara_clUnloadCompiler vd pr params args = status_call vd CL_UNLOADCOMPILER [] pr params args"

definition clara_clGetProgramInfo :: "'o vendor \<Rightarrow> ('n, 'o) pr_handler" where
  "clara_clGetProgramInfo vd = get_object_info vd CL_GETPROGRAMINFO"

definition clara_clGetProgramBuildInfo :: "'o vendor \<Rightarrow> ('n, 'o) pr_handler" where
  "clara_clGetProgramBuildInfo vd pr params args =
     status_call vd CL_GETPROGRAMBUILDINFO
       [argv args 1, argv args 2, uint32 (argv args 3), argv args 4, argv args 5, argv args 6] pr params args"

section \<open>Kernels\<close>

definition clara_clCreateKernel :: "'o vendor \<Rightarrow> ('n, 'o) pr_handler" where
  "clara_clCreateKernel vd pr params args =
     object_call vd CL_CREATEKERNEL [argv args 1, argv args 2, argv args 3] pr params args"

text \<open>An argument of eight bytes that is a known identifier is replaced by its object.\<close>

definition clara_clSetKernelArg :: "'o vendor \<Rightarrow> ('n, 'o) pr_handler" where
  "clara_clSetKernelArg vd pr params args =
     (let kernel = argv args 1; arg_index = uint32 (argv args 2); arg_size = argv args 3;
          arg_value = argv args 4
      in rbind
           (if arg_size = 8 then
              rbind (mem_read (pr_mem pr) (ARG2PTR arg_value) 0 8) (\<lambda>bs.
              rbind (mapping_find_by_virt (pr_id_map pr) (dec64 bs)) (\<lambda>r.
              case r of
                None \<Rightarrow> Inr pr
              | Some mapping \<Rightarrow>
                  rbind (mem_write (pr_mem pr) (ARG2PTR arg_value) 0 (enc64 (m_real mapping))) (\<lambda>m.
                  Inr (pr\<lparr>pr_mem := m\<rparr>))))
            else Inr pr) (\<lambda>pr1.
         status_call vd CL_SETKERNELARG [kernel, arg_index, arg_size, arg_value] pr1 params args))"

definition clara_clRetainKernel :: "'o vendor \<Rightarrow> ('n, 'o) pr_handler" where
  "clara_clRetainKernel vd pr params args = status_call vd CL_RETAINKERNEL [argv args 1] pr params args"

definition clara_clReleaseKernel :: "'o vendor \<Rightarrow> ('n, 'o) pr_handler" where
  "clara_clReleaseKernel vd pr params args = status_call vd CL_RELEASEKERNEL [argv args 1] pr params args"

definition clara_clGetKernelInfo :: "'o vendor \<Rightarrow> ('n, 'o) pr_handler" where
  "clara_clGetKernelInfo vd = get_object_info vd CL_GETKERNELINFO"

definition clara_clEnqueueNDRangeKernel :: "'o vendor \<Rightarrow> ('n, 'o) pr_handler" where
  "clara_clEnqueueNDRangeKernel vd pr params args =
     rbind (translate_in_place pr (ucast (argv args 7)) (argv args 8)) (\<lambda>pr1.
     status_call vd CL_ENQUEUENDRANGEKERNEL
       [argv args 1, argv args 2, uint32 (argv args 3), argv args 4, argv args 5, argv args 6,
        uint32 (argv args 7), argv args 8, argv args 9] pr1 params args)"

definition clara_clEnqueueTask :: "'o vendor \<Rightarrow> ('n, 'o) pr_handler" where
  "clara_clEnqueueTask vd pr params args =
     rbind (translate_in_place pr (ucast (argv args 3)) (argv args 4)) (\<lambda>pr1.
     status_call vd CL_ENQUEUETASK
       [argv args 1, argv args 2, uint32 (argv args 3), argv args 4, argv args 5] pr1 params args)"

section \<open>Events\<close>

definition clara_clWaitForEvents :: "'o vendor \<Rightarrow> ('n, 'o) pr_handler" where
  "clara_clWaitForEvents vd pr params args =
     status_call vd CL_WAITFOREVENTS [uint32 (argv args 1), argv args 2] pr params args"

definition CL_EVENT_COMMAND_QUEUE :: u32 where "CL_EVENT_COMMAND_QUEUE = 0x11D0"

text \<open>A command queue among the answers is replaced by its identifier.\<close>

definition clara_clGetEventInfo :: "'o vendor \<Rightarrow> ('n, 'o) pr_handler" where
  "clara_clGetEventInfo vd pr params args =
     (let object = argv args 1; param_name = ucast (argv args 2) :: u32; param_value_size = argv args 3;
          param_value = argv args 4; param_value_size_ret = argv args 5
      in rbind (status_call vd CL_GETEVENTINFO
             [object, ucast param_name, param_value_size, param_value, param_value_size_ret] pr params args)
           (\<lambda>(pr1, params1, args1).
         if param_name = CL_EVENT_COMMAND_QUEUE \<and> er_retval params1 = CL_SUCCESS \<and> ARG2PTR param_value \<noteq> 0 then
           rbind (mem_read (pr_mem pr1) (ARG2PTR param_value) 0 8) (\<lambda>bs.
           rbind (mapping_find_by_real (pr_id_map pr1) (dec64 bs)) (\<lambda>(s, r).
           case r of
             None \<Rightarrow> Inl Assertion_Failed
           | Some mapping \<Rightarrow>
               rbind (mem_write (pr_mem pr1) (ARG2PTR param_value) 0 (enc64 (m_virt mapping))) (\<lambda>m.
               Inr (pr1\<lparr>pr_id_map := s, pr_mem := m\<rparr>, params1, args1))))
         else Inr (pr1, params1, args1)))"

definition clara_clRetainEvent :: "'o vendor \<Rightarrow> ('n, 'o) pr_handler" where
  "clara_clRetainEvent vd pr params args = status_call vd CL_RETAINEVENT [argv args 1] pr params args"

definition clara_clReleaseEvent :: "'o vendor \<Rightarrow> ('n, 'o) pr_handler" where
  "clara_clReleaseEvent vd pr params args = status_call vd CL_RELEASEEVENT [argv args 1] pr params args"

definition clara_clEnqueueMarker :: "'o vendor \<Rightarrow> ('n, 'o) pr_handler" where
  "clara_clEnqueueMarker vd pr params args =
     status_call vd CL_ENQUEUEMARKER [argv args 1, argv args 2] pr params args"

definition clara_clEnqueueWaitForEvents :: "'o vendor \<Rightarrow> ('n, 'o) pr_handler" where
  "clara_clEnqueueWaitForEvents vd pr params args =
     status_call vd CL_ENQUEUEWAITFOREVENTS [argv args 1, uint32 (argv args 2), argv args 3] pr params args"

definition clara_clEnqueueBarrier :: "'o vendor \<Rightarrow> ('n, 'o) pr_handler" where
  "clara_clEnqueueBarrier vd pr params args = status_call vd CL_ENQUEUEBARRIER [argv args 1] pr params args"

definition clara_clGetEventProfilingInfo :: "'o vendor \<Rightarrow> ('n, 'o) pr_handler" where
  "clara_clGetEventProfilingInfo vd = get_object_info vd CL_GETEVENTPROFILINGINFO"

section \<open>The table\<close>

definition exec_fun_table_entries :: "'o vendor \<Rightarrow> (cl_function_t \<times> ('n, 'o) clara_provider fun_entry) list" where
  "exec_fun_table_entries vd = [
     (CL_GETDEVICEINFO, entry (clara_clGetDeviceInfo vd) [1, 4, 5]),
     (CL_CREATECONTEXT, entry (clara_clCreateContext vd) [1, 3, 4, 5, 6]),
     (CL_CREATECONTEXTFROMTYPE, entry (clara_clCreateContextFromType vd) [1, 3, 4, 5]),
     (CL_RETAINCONTEXT, entry (clara_clRetainContext vd) [1]),
     (CL_RELEASECONTEXT, entry (clara_clReleaseContext vd) [1]),
     (CL_CREATECOMMANDQUEUE, entry (clara_clCreateCommandQueue vd) [1, 2, 4]),
     (CL_RETAINCOMMANDQUEUE, entry (clara_clRetainCommandQueue vd) [1]),
     (CL_RELEASECOMMANDQUEUE, entry (clara_clReleaseCommandQueue vd) [1]),
     (CL_GETCOMMANDQUEUEINFO, entry (clara_clGetCommandQueueInfo vd) [1, 4, 5]),
     (CL_CREATEBUFFER, entry (clara_clCreateBuffer vd) [1, 4, 5]),
     (CL_RETAINMEMOBJECT, entry (clara_clRetainMemObject vd) [1]),
     (CL_RELEASEMEMOBJECT, entry (clara_clReleaseMemObject vd) [1]),
     (CL_ENQUEUEREADBUFFER, entry (clara_clEnqueueReadBuffer vd) [1, 2, 6, 8, 9]),
     (CL_ENQUEUEWRITEBUFFER, entry (clara_clEnqueueWriteBuffer vd) [1, 2, 6, 8, 9]),
     (CL_ENQUEUECOPYBUFFER, entry (clara_clEnqueueCopyBuffer vd) [1, 2, 3, 8, 9]),
     (CL_GETMEMOBJECTINFO, entry (clara_clGetMemObjectInfo vd) [1, 4, 5]),
     (CL_CREATEPROGRAMWITHSOURCE, entry (clara_clCreateProgramWithSource vd) [1, 3, 4, 5]),
     (CL_CREATEPROGRAMWITHBINARY, entry (clara_clCreateProgramWithBinary vd) [1, 3, 4, 5, 6, 7]),
     (CL_RETAINPROGRAM, entry (clara_clRetainProgram vd) [1]),
     (CL_RELEASEPROGRAM, entry (clara_clReleaseProgram vd) [1]),
     (CL_BUILDPROGRAM, entry (clara_clBuildProgram vd) [1, 3, 4]),
     (CL_UNLOADCOMPILER, entry (clara_clUnloadCompiler vd) []),
     (CL_GETPROGRAMINFO, entry (clara_clGetProgramInfo vd) [1, 4, 5]),
     (CL_GETPROGRAMBUILDINFO, entry (clara_clGetProgramBuildInfo vd) [1, 2, 5, 6]),
     (CL_CREATEKERNEL, entry (clara_clCreateKernel vd) [1, 2, 3]),
     (CL_RETAINKERNEL, entry (clara_clRetainKernel vd) [1]),
     (CL_RELEASEKERNEL, entry (clara_clReleaseKernel vd) [1]),
     (CL_SETKERNELARG, entry (clara_clSetKernelArg vd) [1, 4]),
     (CL_ENQUEUENDRANGEKERNEL, entry (clara_clEnqueueNDRangeKernel vd) [1, 2, 4, 5, 6, 8, 9]),
     (CL_ENQUEUETASK, entry (clara_clEnqueueTask vd) [1, 2, 4, 5]),
     (CL_GETKERNELINFO, entry (clara_clGetKernelInfo vd) [1, 4, 5]),
     (CL_WAITFOREVENTS, entry (clara_clWaitForEvents vd) [2]),
     (CL_GETEVENTINFO, entry (clara_clGetEventInfo vd) [1, 4, 5]),
     (CL_RETAINEVENT, entry (clara_clRetainEvent vd) [1]),
     (CL_RELEASEEVENT, entry (clara_clReleaseEvent vd) [1]),
     (CL_ENQUEUEMARKER, entry (clara_clEnqueueMarker vd) [1, 2]),
     (CL_ENQUEUEWAITFOREVENTS, entry (clara_clEnqueueWaitForEvents vd) [1, 3]),
     (CL_ENQUEUEBARRIER, entry (clara_clEnqueueBarrier vd) [1]),
     (CL_GETEVENTPROFILINGINFO, entry (clara_clGetEventProfilingInfo vd) [1, 4, 5]),
     (CL_FLUSH, entry (clara_clFlush vd) [1]),
     (CL_FINISH, entry (clara_clFinish vd) [1])]"

definition exec_fun_table :: "'o vendor \<Rightarrow> ('n, 'o) clara_provider fun_entry list" where
  "exec_fun_table vd = fun_table (exec_fun_table_entries vd)"

end
