(* ===== verification/Provider_Process.thy ===== *)
theory Provider_Process
  imports Provider_Calls
begin

text \<open>
  The provider's main program (\<^verbatim>\<open>provider/src/provider.c\<close>): how it introduces itself, its
  platform and its devices to the agent, and the loop that serves the agent's messages, one
  definition for each case of its switch.
\<close>

section \<open>Talking to the agent\<close>

definition provider_agent_sendmsg ::
  "'n sctp \<Rightarrow> ('n, 'o) clara_provider \<Rightarrow> message_type \<Rightarrow> byte list \<Rightarrow> fault + (('n, 'o) clara_provider \<times> nat option)"
where
  "provider_agent_sendmsg net pr type buf =
     rbind (clara_sendmsg net (pr_net pr) (pr_sd pr) type buf (pr_agent pr)) (\<lambda>(s, r).
     Inr (pr\<lparr>pr_net := s\<rparr>, r))"

text \<open>The message, when there is one; \<open>len\<close> is the size of the buffer.\<close>

definition provider_agent_recvmsg ::
  "'n sctp \<Rightarrow> ('n, 'o) clara_provider \<Rightarrow> message_type \<Rightarrow> nat \<Rightarrow> fault + (('n, 'o) clara_provider \<times> clara_msg option)"
where
  "provider_agent_recvmsg net pr type len =
     rbind (clara_recvmsg net (pr_net pr) (pr_sd pr) type len) (\<lambda>(s, r).
     Inr (pr\<lparr>pr_net := s\<rparr>, r))"

text \<open>
  \<^verbatim>\<open>assert(mapping_create(...))\<close> and \<^verbatim>\<open>assert(set_insert(provider->id_map, ...))\<close>, which
  stand together wherever an identifier becomes known.
\<close>

definition add_mapping :: "('n, 'o) clara_provider \<Rightarrow> arg \<Rightarrow> global_id \<Rightarrow> fault + ('n, 'o) clara_provider" where
  "add_mapping pr real virt =
     (let mapping = mapping_create real virt
      in rbind (set_insert (pr_id_map pr) (m_virt mapping) mapping) (\<lambda>(s, ok).
         rbind (c_assert ok) (\<lambda>_. Inr (pr\<lparr>pr_id_map := s\<rparr>))))"

text \<open>
  The global identifier that answers a description, received into a member that is zero (the
  result of the call is not looked at): as many bytes as came.
\<close>

definition recv_global_id ::
  "'n sctp \<Rightarrow> ('n, 'o) clara_provider \<Rightarrow> message_type \<Rightarrow> fault + (('n, 'o) clara_provider \<times> global_id)"
where
  "recv_global_id net pr type =
     rbind (provider_agent_recvmsg net pr type 8) (\<lambda>(pr1, r).
     Inr (pr1, case r of None \<Rightarrow> 0 | Some m \<Rightarrow> dec64 (cm_bytes m @ replicate (8 - length (cm_bytes m)) 0)))"

section \<open>Introducing the platform and the devices\<close>

text \<open>One device: its description is sent, its identifier received and mapped.\<close>

definition startup_device ::
  "'n sctp \<Rightarrow> 'o vendor \<Rightarrow> ('n, 'o) clara_provider \<Rightarrow> nat \<Rightarrow> arg \<Rightarrow> fault + ('n, 'o) clara_provider"
where
  "startup_device net vd pr platform device_id =
     (let device = pr_next pr
      in rbind (deref (pr_platform_heap pr) platform) (\<lambda>pf.
         case plt_devices pf of
           None \<Rightarrow> Inl Null_Deref
         | Some devices \<Rightarrow>
             rbind (set_insert devices (of_nat device) device) (\<lambda>(s, ok).
             rbind (c_assert ok) (\<lambda>_.
             let pr1 = pr\<lparr>pr_next := device + 1,
                   pr_platform_heap := (pr_platform_heap pr)(platform \<mapsto> pf\<lparr>plt_devices := Some s\<rparr>),
                   pr_device_heap := (pr_device_heap pr)(device \<mapsto> \<lparr>dvc_id = device_id, dvc_global_id = 0\<rparr>)\<rparr>
             in rbind (device_message (vd_device_info vd device_id) device_id) (\<lambda>buf.
                rbind (provider_agent_sendmsg net pr1 CLARA_MSG_OPENCL_DEVICE_INFO buf) (\<lambda>(pr2, _).
                rbind (recv_global_id net pr2 CLARA_MSG_OPENCL_DEVICE_ID) (\<lambda>(pr3, i).
                let pr4 = pr3\<lparr>pr_device_heap :=
                      (pr_device_heap pr3)(device \<mapsto> \<lparr>dvc_id = device_id, dvc_global_id = i\<rparr>)\<rparr>
                in add_mapping pr4 device_id i)))))))"

text \<open>The loop over the devices from number \<open>i\<close>; the option \<^verbatim>\<open>-d\<close> picks one of them.\<close>

fun startup_devices ::
  "'n sctp \<Rightarrow> 'o vendor \<Rightarrow> int \<Rightarrow> ('n, 'o) clara_provider \<Rightarrow> nat \<Rightarrow> arg list \<Rightarrow> fault + ('n, 'o) clara_provider"
where
  "startup_devices net vd i pr platform [] = Inr pr"
| "startup_devices net vd i pr platform (device_id # device_ids) =
     (if pr_opts_device pr \<noteq> -1 \<and> i \<noteq> pr_opts_device pr
      then startup_devices net vd (i + 1) pr platform device_ids
      else
        rbind (startup_device net vd pr platform device_id) (\<lambda>pr1.
        if pr_opts_device pr1 \<noteq> -1 then Inr pr1
        else startup_devices net vd (i + 1) pr1 platform device_ids))"

text \<open>
  One platform of the loop; the flag tells it to break off. The set of platforms is being
  traversed meanwhile and is not touched.
\<close>

definition startup_platform ::
  "'n sctp \<Rightarrow> 'o vendor \<Rightarrow> nat \<Rightarrow> ('n, 'o) clara_provider \<times> bool \<Rightarrow>
    fault + (bool \<times> ('n, 'o) clara_provider \<times> bool)"
where
  "startup_platform net vd platform = (\<lambda>(pr, _).
     rbind (deref (pr_platform_heap pr) platform) (\<lambda>pf.
     case vd_devices vd (plt_id pf) of
       None \<Rightarrow> Inr (True, pr, False)
     | Some device_ids \<Rightarrow>
         let pr1 = pr\<lparr>pr_platform_heap :=
               (pr_platform_heap pr)(platform \<mapsto> pf\<lparr>plt_devices := Some set_create\<rparr>)\<rparr>
         in rbind (startup_devices net vd 0 pr1 platform device_ids) (\<lambda>pr2.
            Inr (False, pr2, True))))"

definition provider_startup ::
  "'n sctp \<Rightarrow> 'o vendor \<Rightarrow> ('n, 'o) clara_provider \<Rightarrow> fault + (('n, 'o) clara_provider \<times> bool)"
where
  "provider_startup net vd pr =
     (let platform = pr_next pr; pf = \<lparr>plt_id = 0, plt_global_id = 0, plt_devices = None\<rparr>
      in rbind (set_insert set_create (of_nat platform) platform) (\<lambda>(s, _).
         let pr1 = pr\<lparr>pr_next := platform + 1, pr_platforms := s,
               pr_platform_heap := (pr_platform_heap pr)(platform \<mapsto> pf)\<rparr>
         in case vd_platforms vd of
              None \<Rightarrow> Inr (pr1, False)
            | Some ids \<Rightarrow>
                let platform_id = (case ids of [] \<Rightarrow> 0 | i # _ \<Rightarrow> i)
                in rbind (platform_message (vd_platform_info vd platform_id) platform_id) (\<lambda>buf.
                   rbind (provider_agent_sendmsg net pr1 CLARA_MSG_OPENCL_PLATFORM_INFO buf) (\<lambda>(pr2, _).
                   rbind (recv_global_id net pr2 CLARA_MSG_OPENCL_PLATFORM_ID) (\<lambda>(pr3, i).
                   let pr4 = pr3\<lparr>pr_platform_heap := (pr_platform_heap pr3)(platform \<mapsto>
                         pf\<lparr>plt_id := platform_id, plt_global_id := i\<rparr>)\<rparr>
                   in rbind (add_mapping pr4 platform_id i) (\<lambda>pr5.
                      rbind (set_foreach (startup_platform net vd) (pr_platforms pr5) (pr5, True))
                        (\<lambda>(s', pr6, ok). Inr (pr6\<lparr>pr_platforms := s'\<rparr>, ok))))))))"

section \<open>The messages of the agent\<close>

definition handle_ping ::
  "'n sctp \<Rightarrow> ('n, 'o) clara_provider \<Rightarrow> byte list \<Rightarrow> sockaddr \<Rightarrow> fault + ('n, 'o) clara_provider"
where
  "handle_ping net pr buf from =
     (if length buf < 8 then Inl Uninit_Read
      else
        rbind (clara_sendmsg net (pr_net pr) (pr_sd pr) CLARA_MSG_PONG (take 8 buf) from) (\<lambda>(s, _).
        Inr (pr\<lparr>pr_net := s\<rparr>)))"

text \<open>
  The mapping and the entry of an allocation are taken out, and its memory is freed. The
  result of \<^verbatim>\<open>clara_destroy_allocation\<close> is not looked at.
\<close>

definition drop_pr_allocation ::
  "('n, 'o) clara_provider \<Rightarrow> clara_allocation \<Rightarrow> fault + ('n, 'o) clara_provider"
where
  "drop_pr_allocation pr allocation =
     rbind (mapping_find_by_virt (pr_id_map pr) (al_handle allocation)) (\<lambda>r.
     case r of
       None \<Rightarrow> Inl Assertion_Failed
     | Some mapping \<Rightarrow>
         rbind (set_remove (pr_id_map pr) (m_virt mapping)) (\<lambda>(ids, ok).
         rbind (c_assert ok) (\<lambda>_.
         rbind (set_remove (pr_allocations pr) (al_handle allocation)) (\<lambda>(allocs, ok').
         rbind (c_assert ok') (\<lambda>_.
         rbind (clara_destroy_allocation (pr_mem pr) (Some allocation)) (\<lambda>(m, _).
         Inr (pr\<lparr>pr_id_map := ids, pr_allocations := allocs, pr_mem := m\<rparr>)))))))"

text \<open>The data that comes with a request is copied with the size of the allocation.\<close>

definition pr_handle_allocate ::
  "'n sctp \<Rightarrow> ('n, 'o) clara_provider \<Rightarrow> byte list \<Rightarrow> sockaddr \<Rightarrow> fault + ('n, 'o) clara_provider"
where
  "pr_handle_allocate net pr buf from =
     (if length buf < 32 then Inl Uninit_Read
      else
        let areq = dec_allocate_request buf; extra = drop 32 buf;
            (m, allocation) = clara_create_allocation (pr_mem pr) areq
        in rbind (set_insert (pr_allocations pr) (al_handle allocation) allocation) (\<lambda>(s, ok).
           rbind (c_assert ok) (\<lambda>_.
           rbind (add_mapping (pr\<lparr>pr_mem := m, pr_allocations := s\<rparr>) (PTR2ARG (al_ptr allocation))
               (al_handle allocation)) (\<lambda>pr1.
           rbind
             (if extra = [] then Inr pr1
              else
                let n = unat (al_nmemb allocation * al_size allocation)
                in if length extra < n then Inl Uninit_Read
                   else rbind (mem_write (pr_mem pr1) (al_ptr allocation) 0 (take n extra)) (\<lambda>m'.
                        Inr (pr1\<lparr>pr_mem := m'\<rparr>))) (\<lambda>pr2.
           rbind (clara_send_allocate_response net (pr_net pr2) (pr_sd pr2) (al_handle allocation) from)
             (\<lambda>(s', ok').
           let pr3 = pr2\<lparr>pr_net := s'\<rparr>
           in if ok' then Inr pr3 else drop_pr_allocation pr3 allocation))))))"

definition pr_handle_execute ::
  "'n sctp \<Rightarrow> 'o vendor \<Rightarrow> ('n, 'o) clara_provider \<Rightarrow> byte list \<Rightarrow> sockaddr \<Rightarrow> fault + ('n, 'o) clara_provider"
where
  "pr_handle_execute net vd pr buf from =
     (if length buf < 24 then Inl Uninit_Read
      else
        let ereq = dec_execute_request buf; args = dec_args ((length buf - 24) div 8) (drop 24 buf)
        in rbind (clara_execute (exec_fun_table vd) provider_id_map pr ereq args 0)
             (\<lambda>(pr1, _, _, retval, successful).
           rbind (c_assert successful) (\<lambda>_.
           rbind (clara_send_execute_response net (pr_net pr1) (pr_sd pr1) retval from successful) (\<lambda>(s, ok).
           rbind (c_assert ok) (\<lambda>_. Inr (pr1\<lparr>pr_net := s\<rparr>))))))"

text \<open>\<^verbatim>\<open>struct clara_mapping_params\<close> is the identifier and the real pointer.\<close>

definition handle_mapping :: "('n, 'o) clara_provider \<Rightarrow> byte list \<Rightarrow> fault + ('n, 'o) clara_provider" where
  "handle_mapping pr buf =
     (if length buf < 16 then Inl Uninit_Read
      else add_mapping pr (dec64 (drop 8 buf)) (dec64 buf))"

text \<open>
  The object behind a pointer of the consumer: it is read, mapped to the new identifier, and
  the identifier is written in its place.
\<close>

definition handle_mapatptr ::
  "'n sctp \<Rightarrow> ('n, 'o) clara_provider \<Rightarrow> byte list \<Rightarrow> sockaddr \<Rightarrow> fault + ('n, 'o) clara_provider"
where
  "handle_mapatptr net pr buf from =
     (if length buf < 16 then Inl Uninit_Read
      else
        let mapreq = dec_mapatptr_request buf
        in rbind (mapping_find_by_virt (pr_id_map pr) (mr_ptr mapreq)) (\<lambda>r.
           rbind
             (case r of
                None \<Rightarrow> Inr (pr, 0)
              | Some mapping \<Rightarrow>
                  rbind (mem_read (pr_mem pr) (ARG2PTR (m_real mapping)) 0 8) (\<lambda>bs.
                  let real = dec64 bs
                  in rbind (add_mapping pr real (mr_virt mapreq)) (\<lambda>pr1.
                     rbind (mem_write (pr_mem pr1) (ARG2PTR (m_real mapping)) 0 (enc64 (mr_virt mapreq))) (\<lambda>m.
                     Inr (pr1\<lparr>pr_mem := m\<rparr>, real))))) (\<lambda>(pr2, real).
           rbind (clara_send_mapatptr_response net (pr_net pr2) (pr_sd pr2) real from) (\<lambda>(s, ok).
           rbind (c_assert ok) (\<lambda>_. Inr (pr2\<lparr>pr_net := s\<rparr>))))))"

text \<open>The bytes are stored as they come, wherever they were to go.\<close>

definition pr_handle_memput ::
  "'n sctp \<Rightarrow> lzo \<Rightarrow> nat \<Rightarrow> ('n, 'o) clara_provider \<Rightarrow> byte list \<Rightarrow> fault + ('n, 'o) clara_provider"
where
  "pr_handle_memput net lz fuel pr buf =
     (if length buf < 32 then Inl Uninit_Read
      else
        let mpp = dec_memput buf
        in rbind (mapping_find_by_virt (pr_id_map pr) (mp_dst mpp)) (\<lambda>r.
           case r of
             None \<Rightarrow> Inl Assertion_Failed
           | Some mapping \<Rightarrow>
               rbind (stream_recv net lz fuel (pr_net pr) (pr_sd pr) (unat (mp_length mpp))) (\<lambda>(s, received).
               rbind
                 (if received = [] then Inr (pr_mem pr)
                  else mem_write (pr_mem pr) (ARG2PTR (m_real mapping)) (unat (mp_offset mpp)) received) (\<lambda>m.
               Inr (pr\<lparr>pr_net := s, pr_mem := m\<rparr>)))))"

text \<open>All of the allocation is sent, whatever size was asked for.\<close>

definition pr_handle_fetch ::
  "'n sctp \<Rightarrow> lzo \<Rightarrow> nat \<Rightarrow> ('n, 'o) clara_provider \<Rightarrow> byte list \<Rightarrow> fault + ('n, 'o) clara_provider"
where
  "pr_handle_fetch net lz fuel pr buf =
     (if length buf < 40 then Inl Uninit_Read
      else
        let freq = dec_fetch_request buf
        in rbind (clara_find_allocation (pr_allocations pr) (fr_handle freq)) (\<lambda>(s, r).
           let pr1 = pr\<lparr>pr_allocations := s\<rparr>
           in case r of
                None \<Rightarrow> Inl Null_Deref
              | Some allocation \<Rightarrow>
                  let n = unat (al_nmemb allocation * al_size allocation)
                  in rbind
                       (if fr_size freq = 0 then Inr pr1
                        else
                          rbind (if n = 0 then Inr [] else mem_read (pr_mem pr1) (al_ptr allocation) 0 n) (\<lambda>resp.
                          rbind (clara_send_fetch_response net lz fuel (pr_net pr1) (pr_sd pr1) resp
                              (Some (fr_stream_opts freq)) (pr_agent pr1)) (\<lambda>(s', _).
                          Inr (pr1\<lparr>pr_net := s'\<rparr>)))) (\<lambda>pr2.
                     drop_pr_allocation pr2 allocation)))"

section \<open>The main loop\<close>

text \<open>
  One message; the flag ends the loop, after the notification of a shutdown.
\<close>

definition PROVIDER_RECVBUFSZ :: nat where "PROVIDER_RECVBUFSZ = 10240"

definition provider_main_message ::
  "'n sctp \<Rightarrow> lzo \<Rightarrow> 'o vendor \<Rightarrow> nat \<Rightarrow> 16 word \<Rightarrow> ('n, 'o) clara_provider \<Rightarrow> clara_msg \<Rightarrow>
    fault + (('n, 'o) clara_provider \<times> bool)"
where
  "provider_main_message net lz vd fuel shutdown_event pr m =
     (let buf = cm_bytes m; from = cm_from m; go_on = (\<lambda>pr'. Inr (pr', False))
      in if cm_notification m then
           if length buf < 2 then Inl Uninit_Read else Inr (pr, dec16 buf = shutdown_event)
         else if cm_type m = CLARA_MSG_PING then rbind (handle_ping net pr buf from) go_on
         else if cm_type m = CLARA_MSG_ALLOCATE_REQUEST then rbind (pr_handle_allocate net pr buf from) go_on
         else if cm_type m = CLARA_MSG_EXECUTE_REQUEST then rbind (pr_handle_execute net vd pr buf from) go_on
         else if cm_type m = CLARA_MSG_MAPPING then rbind (handle_mapping pr buf) go_on
         else if cm_type m = CLARA_MSG_MAPATPTR_REQUEST then rbind (handle_mapatptr net pr buf from) go_on
         else if cm_type m = CLARA_MSG_MEMPUT_STREAM then rbind (pr_handle_memput net lz fuel pr buf) go_on
         else if cm_type m = CLARA_MSG_FETCH_REQUEST then rbind (pr_handle_fetch net lz fuel pr buf) go_on
         else Inr (pr, False))"

definition provider_main_step ::
  "'n sctp \<Rightarrow> lzo \<Rightarrow> 'o vendor \<Rightarrow> nat \<Rightarrow> 16 word \<Rightarrow> ('n, 'o) clara_provider \<Rightarrow>
    fault + (('n, 'o) clara_provider \<times> bool)"
where
  "provider_main_step net lz vd fuel shutdown_event pr =
     rbind (clara_recvmsg net (pr_net pr) (pr_sd pr) CLARA_MSG_INVALID PROVIDER_RECVBUFSZ) (\<lambda>(s, r).
     case r of
       None \<Rightarrow> Inr (pr\<lparr>pr_net := s\<rparr>, True)
     | Some m \<Rightarrow> provider_main_message net lz vd fuel shutdown_event (pr\<lparr>pr_net := s\<rparr>) m)"

fun provider_main_loop ::
  "nat \<Rightarrow> 'n sctp \<Rightarrow> lzo \<Rightarrow> 'o vendor \<Rightarrow> nat \<Rightarrow> 16 word \<Rightarrow> ('n, 'o) clara_provider \<Rightarrow>
    fault + ('n, 'o) clara_provider"
where
  "provider_main_loop 0 net lz vd fuel shutdown_event pr = Inl Out_Of_Fuel"
| "provider_main_loop (Suc rounds) net lz vd fuel shutdown_event pr =
     rbind (provider_main_step net lz vd fuel shutdown_event pr) (\<lambda>(pr1, end).
     if end then Inr pr1 else provider_main_loop rounds net lz vd fuel shutdown_event pr1)"

text \<open>
  A provider as \<^verbatim>\<open>provider_init\<close> makes it, with the socket and the agent's address, and the
  exchange it begins with, up to the message that it is idle; the result is the place the
  exchange ends at.
\<close>

definition provider_init ::
  "sd \<Rightarrow> sockaddr \<Rightarrow> int \<Rightarrow> 'n \<Rightarrow> 'o \<Rightarrow> ('n, 'o) clara_provider"
where
  "provider_init sd agent device s o0 =
     \<lparr>pr_sd = sd, pr_agent = agent, pr_opts_device = device, pr_platforms = set_create,
      pr_platform_heap = Map.empty, pr_device_heap = Map.empty, pr_id_map = set_create,
      pr_allocations = set_create, pr_mem = mem_init, pr_next = 1, pr_net = s, pr_vendor = o0\<rparr>"

datatype connection =
    Send_Failed | Receive_Failed | Size_Mismatch | Permission_Denied | Startup_Error | Connected

definition provider_connect ::
  "'n sctp \<Rightarrow> 'o vendor \<Rightarrow> ('n, 'o) clara_provider \<Rightarrow> fault + (('n, 'o) clara_provider \<times> connection)"
where
  "provider_connect net vd pr =
     rbind (provider_agent_sendmsg net pr CLARA_MSG_PROVIDER []) (\<lambda>(pr1, sent).
     if sent = None then Inr (pr1, Send_Failed)
     else
       rbind (provider_agent_recvmsg net pr1 CLARA_MSG_INVALID 0) (\<lambda>(pr2, r).
       case r of
         None \<Rightarrow> Inr (pr2, Receive_Failed)
       | Some m \<Rightarrow>
           if length (cm_bytes m) \<noteq> 0 then Inr (pr2, Size_Mismatch)
           else if cm_type m = CLARA_MSG_NACK then Inr (pr2, Permission_Denied)
           else if cm_type m \<noteq> CLARA_MSG_ACK then Inr (pr2, Permission_Denied)
           else
             rbind (provider_startup net vd pr2) (\<lambda>(pr3, ok).
             if \<not> ok then Inr (pr3, Startup_Error)
             else rbind (provider_agent_sendmsg net pr3 CLARA_MSG_IDLE []) (\<lambda>(pr4, _). Inr (pr4, Connected)))))"

end
