(* ===== verification/Agent_Remote.thy ===== *)
theory Agent_Remote
  imports Agent_Provider
begin

text \<open>
  The agent's calls to a provider: \<^verbatim>\<open>agent/src/remote.c\<close>, \<^verbatim>\<open>forward.c\<close> and
  \<^verbatim>\<open>agent_device_is_available\<close> of \<^verbatim>\<open>device.c\<close>. The lock of the provider keeps one call's
  request and response together on the provider's socket.
\<close>

section \<open>The lock of a provider\<close>

definition provider_lock :: "'n agent \<Rightarrow> nat \<Rightarrow> fault + 'n agent" where
  "provider_lock ag v =
     rbind (deref (ag_provider_heap ag) v) (\<lambda>pv.
     Inr (put_provider ag v (pv\<lparr>pv_lock := pv_lock pv + 1\<rparr>)))"

definition provider_unlock :: "'n agent \<Rightarrow> nat \<Rightarrow> fault + 'n agent" where
  "provider_unlock ag v =
     rbind (deref (ag_provider_heap ag) v) (\<lambda>pv.
     rbind (c_assert (pv_lock pv > 0)) (\<lambda>_.
     Inr (put_provider ag v (pv\<lparr>pv_lock := pv_lock pv - 1\<rparr>))))"

section \<open>Allocating and executing\<close>

text \<open>
  The bytes behind the parameters in the buffer go along. The result is the handle received,
  or \<open>None\<close> for \<open>false\<close>; after a send that failed the lock is kept.
\<close>

definition agent_remote_allocate ::
  "'n sctp \<Rightarrow> 'n agent \<Rightarrow> nat \<Rightarrow> allocate_request \<Rightarrow> byte list \<Rightarrow> fault + ('n agent \<times> handle option)"
where
  "agent_remote_allocate net ag provider params extra =
     rbind (provider_lock ag provider) (\<lambda>ag1.
     rbind (deref (ag_provider_heap ag1) provider) (\<lambda>pv.
     rbind (clara_sendmsg net (ag_net ag1) (pv_sd pv) CLARA_MSG_ALLOCATE_REQUEST
         (enc_allocate_request params @ extra) (pv_addr pv)) (\<lambda>(s1, ssz).
     if ssz = None then Inr (ag1\<lparr>ag_net := s1\<rparr>, None)
     else
       rbind (clara_recvmsg net s1 (pv_sd pv) CLARA_MSG_ALLOCATE_RESPONSE 8) (\<lambda>(s2, r).
       rbind (provider_unlock (ag1\<lparr>ag_net := s2\<rparr>) provider) (\<lambda>ag2.
       case r of
         None \<Rightarrow> Inr (ag2, None)
       | Some m \<Rightarrow>
           rbind (c_assert (length (cm_bytes m) = 8)) (\<lambda>_.
           Inr (ag2, Some (dec64 (cm_bytes m)))))))))"

definition agent_remote_execute ::
  "'n sctp \<Rightarrow> 'n agent \<Rightarrow> nat \<Rightarrow> byte list \<Rightarrow> fault + ('n agent \<times> arg option)"
where
  "agent_remote_execute net ag provider msgbuf =
     (if provider = 0 then Inr (ag, None)
      else
        rbind (provider_lock ag provider) (\<lambda>ag1.
        rbind (deref (ag_provider_heap ag1) provider) (\<lambda>pv.
        rbind (clara_sendmsg net (ag_net ag1) (pv_sd pv) CLARA_MSG_EXECUTE_REQUEST msgbuf (pv_addr pv))
          (\<lambda>(s1, ssz).
        if ssz = None then Inr (ag1\<lparr>ag_net := s1\<rparr>, None)
        else
          rbind (clara_recvmsg net s1 (pv_sd pv) CLARA_MSG_EXECUTE_RESPONSE 8) (\<lambda>(s2, r).
          rbind (provider_unlock (ag1\<lparr>ag_net := s2\<rparr>) provider) (\<lambda>ag2.
          case r of
            None \<Rightarrow> Inr (ag2, None)
          | Some m \<Rightarrow>
              rbind (c_assert (length (cm_bytes m) = 8)) (\<lambda>_.
              Inr (ag2, Some (dec64 (cm_bytes m))))))))))"

section \<open>Forwarding\<close>

text \<open>
  No result is looked at: when no response is received, or a shorter one, the response that
  goes on to the consumer is uninitialized.
\<close>

definition agent_forward_fetch ::
  "'n sctp \<Rightarrow> nat \<Rightarrow> 'n agent \<Rightarrow> nat \<Rightarrow> nat \<Rightarrow> fetch_request \<Rightarrow> fault + 'n agent"
where
  "agent_forward_fetch net fuel ag consumer provider params =
     rbind (provider_lock ag provider) (\<lambda>ag1.
     rbind (deref (ag_provider_heap ag1) provider) (\<lambda>pv.
     rbind (clara_sendmsg net (ag_net ag1) (pv_sd pv) CLARA_MSG_FETCH_REQUEST
         (enc_fetch_request params) (pv_addr pv)) (\<lambda>(s1, _).
     rbind
       (if fr_size params > 0 then
          rbind (clara_recvmsg net s1 (pv_sd pv) CLARA_MSG_FETCH_RESPONSE 8) (\<lambda>(s2, r).
          case r of
            None \<Rightarrow> Inl Uninit_Read
          | Some m \<Rightarrow>
              if length (cm_bytes m) < 8 then Inl Uninit_Read
              else
                rbind (deref (ag_consumer_heap ag1) consumer) (\<lambda>co.
                rbind (clara_sendmsg net s2 (co_sd co) (cm_type m) (take 8 (cm_bytes m)) (co_addr co))
                  (\<lambda>(s3, _).
                rbind (stream_forward net fuel s3 (pv_sd pv) (co_sd co) (co_addr co)) (\<lambda>(s4, _).
                Inr s4))))
        else Inr s1) (\<lambda>s'.
     provider_unlock (ag1\<lparr>ag_net := s'\<rparr>) provider))))"

definition agent_forward_memput ::
  "'n sctp \<Rightarrow> nat \<Rightarrow> 'n agent \<Rightarrow> nat \<Rightarrow> nat \<Rightarrow> memput_stream_params \<Rightarrow> fault + 'n agent"
where
  "agent_forward_memput net fuel ag consumer provider params =
     rbind (provider_lock ag provider) (\<lambda>ag1.
     rbind (deref (ag_provider_heap ag1) provider) (\<lambda>pv.
     rbind (clara_sendmsg net (ag_net ag1) (pv_sd pv) CLARA_MSG_MEMPUT_STREAM (enc_memput params) (pv_addr pv))
       (\<lambda>(s1, ssz).
     rbind
       (if ssz = None then Inr s1
        else
          rbind (deref (ag_consumer_heap ag1) consumer) (\<lambda>co.
          rbind (stream_forward net fuel s1 (co_sd co) (pv_sd pv) (pv_addr pv)) (\<lambda>(s2, _). Inr s2)))
       (\<lambda>s'. provider_unlock (ag1\<lparr>ag_net := s'\<rparr>) provider))))"

section \<open>Whether a device is available\<close>

definition CL_DEVICE_AVAILABLE :: u32 where "CL_DEVICE_AVAILABLE = 0x1027"

text \<open>
  \<^verbatim>\<open>cl_bool\<close> has four bytes. Each step but the last only prints when it fails; the request
  to fetch is sent without stream options, which \<^verbatim>\<open>clara_send_fetch_request\<close> copies from.
\<close>

definition agent_device_is_available ::
  "'n sctp \<Rightarrow> lzo \<Rightarrow> nat \<Rightarrow> int list \<Rightarrow> 'n agent \<Rightarrow> nat \<Rightarrow> fault + ('n agent \<times> u32) option"
where
  "agent_device_is_available net lz fuel rs ag device =
     rbind (deref (ag_device_heap ag) device) (\<lambda>dv.
     if dv_available dv = 0 then Inr (Some (ag, 0))
     else
       let v = dv_provider dv
       in rbind (deref (ag_provider_heap ag) v) (\<lambda>pv.
          rbind (provider_lock ag v) (\<lambda>ag1.
          rbind (provider_agent ag1 v) (\<lambda>_.
          rbind (id_create (ag_id_pool ag1) rs) (\<lambda>r.
          case r of
            None \<Rightarrow> Inr None
          | Some (pool, key, _) \<Rightarrow>
              rbind (agent_remote_allocate net (ag1\<lparr>ag_id_pool := pool\<rparr>) v
                \<lparr>ar_handle = key, ar_nmemb = 1, ar_size = 4, ar_hint = 0\<rparr> []) (\<lambda>(ag2, h).
              rbind
                (case h of
                   None \<Rightarrow> Inr (ag2, 0)
                 | Some handle \<Rightarrow>
                     rbind (clara_send_execute_request net (ag_net ag2) (pv_sd pv)
                       (of_nat (cl_value CL_GETDEVICEINFO))
                       [dv_global_id dv, ucast CL_DEVICE_AVAILABLE, 4, handle, 0] 5 0 (pv_addr pv)) (\<lambda>(s3, ok).
                     if \<not> ok then Inr (ag2\<lparr>ag_net := s3\<rparr>, 0)
                     else
                       rbind (clara_recv_execute_response net s3 (pv_sd pv) 4) (\<lambda>(s4, retbuf).
                       case retbuf of
                         None \<Rightarrow> Inr (ag2\<lparr>ag_net := s4\<rparr>, 0)
                       | Some retval \<Rightarrow>
                           rbind (clara_send_fetch_request net s4 (pv_sd pv) handle 4 0 None (pv_addr pv)) (\<lambda>(s5, ok5).
                           if \<not> ok5 then Inr (ag2\<lparr>ag_net := s5\<rparr>, 0)
                           else
                             rbind (clara_recv_fetch_response net lz fuel s5 (pv_sd pv) 4) (\<lambda>(s6, _, buf, ok6).
                             Inr (ag2\<lparr>ag_net := s6\<rparr>,
                                  if ok6 \<and> dec32 retval \<noteq> ucast CL_SUCCESS then 0
                                  else dec32 (buf @ replicate 4 0)))))))
                (\<lambda>(ag3, result).
              rbind (provider_unlock ag3 v) (\<lambda>ag4. Inr (Some (ag4, result))))))))))"

end
