(* ===== verification/Agent_Query.thy ===== *)
theory Agent_Query
  imports Agent_Remote Device_Info
begin

text \<open>
  The questions about platforms and devices that the agent answers itself: the searches of
  \<^verbatim>\<open>agent/src/platform.c\<close>, \<^verbatim>\<open>device.c\<close> and \<^verbatim>\<open>provider_handler.c\<close>, and the handlers of
  \<^verbatim>\<open>opencl_platform.c\<close> and \<^verbatim>\<open>opencl_device.c\<close>, which write their answers through the
  pointers among the arguments.
\<close>

section \<open>Loops over the agent's sets\<close>

text \<open>
  The loop over the providers, over the platforms of a provider and over the devices of a
  platform. The traverser is in the set, so the set is stored back.
\<close>

definition for_providers ::
  "(nat \<Rightarrow> 'n agent \<times> 'b \<Rightarrow> fault + (bool \<times> 'n agent \<times> 'b)) \<Rightarrow> 'n agent \<Rightarrow> 'b \<Rightarrow> fault + ('n agent \<times> 'b)"
where
  "for_providers f ag b =
     rbind (set_foreach f (ag_providers ag) (ag, b)) (\<lambda>(s, ag', b').
     Inr (ag'\<lparr>ag_providers := s\<rparr>, b'))"

definition for_platforms ::
  "(nat \<Rightarrow> 'n agent \<times> 'b \<Rightarrow> fault + (bool \<times> 'n agent \<times> 'b)) \<Rightarrow> 'n agent \<Rightarrow> nat \<Rightarrow> 'b \<Rightarrow> fault + ('n agent \<times> 'b)"
where
  "for_platforms f ag provider b =
     rbind (deref (ag_provider_heap ag) provider) (\<lambda>pv.
     rbind (set_foreach f (pv_platforms pv) (ag, b)) (\<lambda>(s, ag', b').
     rbind (deref (ag_provider_heap ag') provider) (\<lambda>pv'.
     Inr (put_provider ag' provider (pv'\<lparr>pv_platforms := s\<rparr>), b'))))"

definition for_devices ::
  "(nat \<Rightarrow> 'n agent \<times> 'b \<Rightarrow> fault + (bool \<times> 'n agent \<times> 'b)) \<Rightarrow> 'n agent \<Rightarrow> nat \<Rightarrow> 'b \<Rightarrow> fault + ('n agent \<times> 'b)"
where
  "for_devices f ag platform b =
     rbind (deref (ag_platform_heap ag) platform) (\<lambda>pf.
     rbind (set_foreach f (pf_devices pf) (ag, b)) (\<lambda>(s, ag', b').
     rbind (deref (ag_platform_heap ag') platform) (\<lambda>pf'.
     Inr (put_platform ag' platform (pf'\<lparr>pf_devices := s\<rparr>), b'))))"

section \<open>Searches\<close>

text \<open>The variable the search leaves its result in; the loop sets it to null when it runs out.\<close>

definition find_in_platforms ::
  "(agent_platform \<Rightarrow> bool) \<Rightarrow> 'n agent \<Rightarrow> nat \<Rightarrow> fault + ('n agent \<times> nat)"
where
  "find_in_platforms P ag provider =
     for_platforms (\<lambda>platform (ag', r).
       rbind (deref (ag_platform_heap ag') platform) (\<lambda>pf.
       Inr (if P pf then (True, ag', platform) else (False, ag', 0)))) ag provider 0"

definition agent_find_platform_by_local_id :: "'n agent \<Rightarrow> nat \<Rightarrow> arg \<Rightarrow> fault + ('n agent \<times> nat)" where
  "agent_find_platform_by_local_id ag provider i = find_in_platforms (\<lambda>pf. pf_id pf = i) ag provider"

text \<open>Without a provider the variable \<^verbatim>\<open>platform\<close> (\<open>None\<close>) is returned uninitialized.\<close>

definition agent_find_platform_by_global_id :: "'n agent \<Rightarrow> global_id \<Rightarrow> fault + ('n agent \<times> nat)" where
  "agent_find_platform_by_global_id ag i =
     rbind (for_providers (\<lambda>provider (ag', _).
         rbind (find_in_platforms (\<lambda>pf. pf_global_id pf = i) ag' provider) (\<lambda>(ag'', platform).
         Inr (platform \<noteq> 0, ag'', Some platform))) ag None) (\<lambda>(ag', r).
     case r of None \<Rightarrow> Inl Uninit_Read | Some platform \<Rightarrow> Inr (ag', platform))"

definition agent_find_device_by_global_id :: "'n agent \<Rightarrow> global_id \<Rightarrow> fault + ('n agent \<times> nat)" where
  "agent_find_device_by_global_id ag i =
     for_providers (\<lambda>provider (ag1, _).
       rbind (for_platforms (\<lambda>platform (ag2, _).
         rbind (for_devices (\<lambda>device (ag3, _).
           rbind (deref (ag_device_heap ag3) device) (\<lambda>dv.
           Inr (if dv_global_id dv = i then (True, ag3, device) else (False, ag3, 0))))
           ag2 platform 0) (\<lambda>(ag3, device).
         Inr (device \<noteq> 0, ag3, device))) ag1 provider 0) (\<lambda>(ag2, device).
       Inr (device \<noteq> 0, ag2, device))) ag 0"

text \<open>The host's part of a socket address, which is an address and a port of 16 bits.\<close>

definition sin_addr :: "sockaddr \<Rightarrow> nat" where
  "sin_addr a = a div 65536"

definition agent_find_provider_with_addr :: "'n agent \<Rightarrow> nat \<Rightarrow> fault + ('n agent \<times> nat)" where
  "agent_find_provider_with_addr ag addr =
     for_providers (\<lambda>provider (ag', r).
       rbind (deref (ag_provider_heap ag') provider) (\<lambda>pv.
       Inr (if sin_addr (pv_addr pv) = addr then (True, ag', provider) else (False, ag', 0)))) ag 0"

section \<open>Answers\<close>


text \<open>Storing bytes behind a pointer among the arguments, at an offset, and when it is not null.\<close>

definition store_at :: "'n agent \<Rightarrow> arg \<Rightarrow> nat \<Rightarrow> byte list \<Rightarrow> fault + 'n agent" where
  "store_at ag p off bs =
     rbind (mem_write (ag_mem ag) (ARG2PTR p) off bs) (\<lambda>m. Inr (ag\<lparr>ag_mem := m\<rparr>))"

definition store_opt :: "'n agent \<Rightarrow> arg \<Rightarrow> byte list \<Rightarrow> fault + 'n agent" where
  "store_opt ag p bs = (if ARG2PTR p = 0 then Inr ag else store_at ag p 0 bs)"

type_synonym 'n cl_handler =
  "'n agent \<Rightarrow> execute_request \<Rightarrow> arg list \<Rightarrow> fault + ('n agent \<times> execute_request \<times> arg list)"

text \<open>The loop that writes the platforms' identifiers: the number written so far.\<close>

definition store_platform_ids :: "u32 \<Rightarrow> arg \<Rightarrow> 'n agent \<Rightarrow> fault + ('n agent \<times> nat)" where
  "store_platform_ids num_entries platforms ag =
     for_providers (\<lambda>provider (ag1, c).
       if of_nat c = num_entries then Inr (True, ag1, c)
       else
         rbind (for_platforms (\<lambda>platform (ag2, c).
           if of_nat c = num_entries then Inr (True, ag2, c)
           else
             rbind (deref (ag_platform_heap ag2) platform) (\<lambda>pf.
             rbind (store_at ag2 platforms (8 * c) (enc64 (pf_global_id pf))) (\<lambda>ag3.
             Inr (False, ag3, c + 1)))) ag1 provider c) (\<lambda>(ag3, c').
         Inr (False, ag3, c'))) ag 0"

text \<open>\<^verbatim>\<open>*num_platforms\<close> starts at zero and is added to in memory.\<close>

definition count_platforms :: "arg \<Rightarrow> 'n agent \<Rightarrow> fault + 'n agent" where
  "count_platforms num_platforms ag =
     rbind (store_at ag num_platforms 0 (enc32 0)) (\<lambda>ag0.
     rbind (for_providers (\<lambda>provider (ag1, u).
       rbind (deref (ag_provider_heap ag1) provider) (\<lambda>pv.
       rbind (mem_read (ag_mem ag1) (ARG2PTR num_platforms) 0 4) (\<lambda>old.
       rbind (store_at ag1 num_platforms 0 (enc32 (dec32 old + word_of_int (set_count (pv_platforms pv))))) (\<lambda>ag2.
       Inr (False, ag2, u))))) ag0 ()) (\<lambda>(ag3, _). Inr ag3))"

definition clara_post_clGetPlatformIDs :: "nat \<Rightarrow> 'n cl_handler" where
  "clara_post_clGetPlatformIDs source ag params args =
     (let params = argv0 params CL_SUCCESS;
          num_entries = ucast (argv args 1) :: u32;
          platforms = argv args 2;
          num_platforms = argv args 3
      in rbind (consumer_agent ag source) (\<lambda>co.
         if ag_load_balancing ag then
           rbind (if co_platform co = 0 then lb_allocate_platform ag source else Inr (ag, True)) (\<lambda>(ag1, ok).
           if \<not> ok then
             rbind (store_opt ag1 num_platforms (enc32 0)) (\<lambda>ag2. Inr (ag2, params, args))
           else
             rbind (store_opt ag1 num_platforms (enc32 1)) (\<lambda>ag2.
             rbind
               (if ARG2PTR platforms = 0 then Inr ag2
                else
                  rbind (deref (ag_consumer_heap ag2) source) (\<lambda>co2.
                  rbind (deref (ag_platform_heap ag2) (co_platform co2)) (\<lambda>pf.
                  store_at ag2 platforms 0 (enc64 (pf_global_id pf))))) (\<lambda>ag3.
             Inr (ag3, params, args))))
         else
           rbind (if ARG2PTR num_platforms = 0 then Inr ag else count_platforms num_platforms ag) (\<lambda>ag1.
           rbind
             (if ARG2PTR platforms = 0 then Inr ag1
              else rbind (store_platform_ids num_entries platforms ag1) (\<lambda>(ag2, _). Inr ag2)) (\<lambda>ag2.
           Inr (ag2, params, args)))))"

definition clara_post_clGetPlatformInfo :: "nat \<Rightarrow> 'n cl_handler" where
  "clara_post_clGetPlatformInfo source ag params args =
     (let platform_id = argv args 1;
          param_name = ucast (argv args 2) :: u32;
          param_value_size = argv args 3;
          param_value = argv args 4;
          param_value_size_ret = argv args 5
      in rbind (consumer_agent ag source) (\<lambda>_.
         rbind (agent_find_platform_by_global_id ag platform_id) (\<lambda>(ag1, platform).
         if platform = 0 then Inr (ag1, argv0 params CL_INVALID_PLATFORM, args)
         else
           case platform_info_of param_name of
             None \<Rightarrow> Inr (ag1, argv0 params CL_INVALID_VALUE, args)
           | Some i \<Rightarrow>
               rbind (deref (ag_platform_heap ag1) platform) (\<lambda>pf.
               rbind
                 (if ARG2PTR param_value_size_ret = 0 \<and> ARG2PTR param_value = 0 then Inr (0, [])
                  else case platform_param pf i of
                    None \<Rightarrow> Inl Null_Deref
                  | Some str \<Rightarrow> rbind (strlen str) (\<lambda>n. Inr (n + 1, take (n + 1) str))) (\<lambda>(sz, str).
               rbind (store_opt ag1 param_value_size_ret (enc64 (of_nat sz))) (\<lambda>ag2.
               if ARG2PTR param_value = 0 then Inr (ag2, argv0 params CL_SUCCESS, args)
               else if unat param_value_size < sz then Inr (ag2, argv0 params CL_INVALID_VALUE, args)
               else
                 rbind (store_at ag2 param_value 0 str) (\<lambda>ag3.
                 Inr (ag3, argv0 params CL_SUCCESS, args))))))))"

text \<open>The identifiers of the devices whose type has a bit of \<^verbatim>\<open>device_type\<close>.\<close>

definition store_device_ids :: "u32 \<Rightarrow> arg \<Rightarrow> arg \<Rightarrow> 'n agent \<Rightarrow> nat \<Rightarrow> fault + ('n agent \<times> nat)" where
  "store_device_ids num_entries device_type devices ag platf =
     for_devices (\<lambda>device (ag1, b).
       if of_nat b = num_entries then Inr (True, ag1, b)
       else
         rbind (deref (ag_device_heap ag1) device) (\<lambda>dv.
         if and (dv_type dv) device_type = 0 then Inr (False, ag1, b)
         else
           rbind (store_at ag1 devices (8 * b) (enc64 (dv_global_id dv))) (\<lambda>ag2.
           Inr (False, ag2, b + 1)))) ag platf 0"

definition clara_post_clGetDeviceIDs :: "nat \<Rightarrow> 'n cl_handler" where
  "clara_post_clGetDeviceIDs source ag params args =
     (let platform = argv args 1;
          device_type = argv args 2;
          num_entries = ucast (argv args 3) :: u32;
          devices = argv args 4;
          num_devices = argv args 5;
          success = argv0 params CL_SUCCESS
      in rbind (store_opt ag num_devices (enc32 0)) (\<lambda>ag1.
         if platform = 0 then Inr (ag1, success, args)
         else
           rbind (consumer_agent ag1 source) (\<lambda>_.
           rbind (agent_find_platform_by_global_id ag1 platform) (\<lambda>(ag2, platf).
           if platf = 0 then Inr (ag2, argv0 params CL_INVALID_PLATFORM, args)
           else
             rbind (deref (ag_platform_heap ag2) platf) (\<lambda>pf.
             rbind (store_opt ag2 num_devices (enc32 (word_of_int (set_count (pf_devices pf))))) (\<lambda>ag3.
             rbind
               (if ARG2PTR devices = 0 then Inr ag3
                else rbind (store_device_ids num_entries device_type devices ag3 platf) (\<lambda>(ag4, _). Inr ag4)) (\<lambda>ag5.
             Inr (ag5, success, args))))))))"

definition clara_pre_clGetDeviceInfo :: "'n cl_handler" where
  "clara_pre_clGetDeviceInfo ag params args = Inr (ag, params\<lparr>er_hint := 0\<rparr>, args)"

text \<open>Asking whether the device is available may still be drawing an identifier.\<close>

definition clara_post_clGetDeviceInfo :: "'n sctp \<Rightarrow> lzo \<Rightarrow> nat \<Rightarrow> int list \<Rightarrow> nat \<Rightarrow> 'n cl_handler" where
  "clara_post_clGetDeviceInfo net lz fuel rs source ag params args =
     (let device_id = argv args 1;
          param_name = ucast (argv args 2) :: u32;
          param_value_size = argv args 3;
          param_value = argv args 4;
          param_value_size_ret = argv args 5
      in rbind (consumer_agent ag source) (\<lambda>_.
         rbind (agent_find_device_by_global_id ag device_id) (\<lambda>(ag1, device).
         if device = 0 then Inr (ag1, argv0 params CL_INVALID_DEVICE, args)
         else
           case device_info_of param_name of
             None \<Rightarrow> Inr (ag1, argv0 params CL_INVALID_VALUE, args)
           | Some i \<Rightarrow>
               rbind
                 (case device_field i of
                    Available \<Rightarrow>
                      rbind (agent_device_is_available net lz fuel rs ag1 device) (\<lambda>r.
                      case r of None \<Rightarrow> Inl Out_Of_Fuel | Some x \<Rightarrow> Inr x)
                  | _ \<Rightarrow> Inr (ag1, 0)) (\<lambda>(ag2, available).
               rbind (deref (ag_device_heap ag2) device) (\<lambda>dv.
               rbind (device_param available dv (device_field i)) (\<lambda>(value_size, param_buf).
               rbind (store_opt ag2 param_value_size_ret (enc64 (of_nat value_size))) (\<lambda>ag3.
               if ARG2PTR param_value = 0 then Inr (ag3, argv0 params CL_SUCCESS, args)
               else if unat param_value_size < value_size then Inr (ag3, argv0 params CL_INVALID_VALUE, args)
               else case param_buf of
                 None \<Rightarrow> Inl Null_Deref
               | Some buf \<Rightarrow>
                   rbind (copy_bytes buf value_size) (\<lambda>bs.
                   rbind (store_at ag3 param_value 0 bs) (\<lambda>ag4.
                   Inr (ag4, argv0 params CL_SUCCESS, args))))))))))"

end
