(* ===== verification/Agent_Calls.thy ===== *)
theory Agent_Calls
  imports Agent_Query
begin

text \<open>
  The calls of a consumer in the agent: the generic handlers of \<^verbatim>\<open>agent/src/agent_opencl.h\<close>
  and the \<^verbatim>\<open>opencl_*.c\<close> files that use them, the two tables of \<^verbatim>\<open>consumer_handler.c\<close>, and
  \<^verbatim>\<open>agent_execute\<close>, which runs one before and one after the call of the provider.
\<close>

section \<open>Generic handlers\<close>

text \<open>\<^verbatim>\<open>object_type_t\<close> and the status of an identifier that is not in the agent's set.\<close>

datatype object_type =
    T_PLATFORM | T_DEVICE | T_CONTEXT | T_COMMANDQUEUE | T_MEMOBJECT | T_SAMPLER | T_PROGRAM
  | T_KERNEL | T_EVENT

fun invalid_object_status :: "object_type \<Rightarrow> fault + arg" where
  "invalid_object_status T_CONTEXT = Inr (-34)"
| "invalid_object_status T_COMMANDQUEUE = Inr (-36)"
| "invalid_object_status T_MEMOBJECT = Inr (-38)"
| "invalid_object_status T_SAMPLER = Inr (-41)"
| "invalid_object_status T_PROGRAM = Inr (-44)"
| "invalid_object_status T_KERNEL = Inr (-48)"
| "invalid_object_status T_EVENT = Inr (-58)"
| "invalid_object_status _ = Inl Assertion_Failed"

definition AGENT_GENERIC_CREATE :: "'n sctp \<Rightarrow> int list \<Rightarrow> nat \<Rightarrow> nat \<Rightarrow> 'n cl_handler" where
  "AGENT_GENERIC_CREATE net rs target source ag params args =
     rbind (clCreateObject net rs ag target source (er_retval params) 0) (\<lambda>r.
     case r of
       None \<Rightarrow> Inl Out_Of_Fuel
     | Some (ag', virt) \<Rightarrow> Inr (ag', argv0 params virt, args))"

definition AGENT_GENERIC_RETAIN :: "object_type \<Rightarrow> nat \<Rightarrow> 'n cl_handler" where
  "AGENT_GENERIC_RETAIN t source ag params args =
     rbind (clRetainObject ag source (argv args 1)) (\<lambda>(ag', ok).
     rbind (if ok then Inr CL_SUCCESS else invalid_object_status t) (\<lambda>status.
     Inr (ag', argv0 params status, args)))"

definition AGENT_GENERIC_RELEASE :: "object_type \<Rightarrow> nat \<Rightarrow> 'n cl_handler" where
  "AGENT_GENERIC_RELEASE t source ag params args =
     rbind (clReleaseObject ag source (argv args 1)) (\<lambda>(ag', ok).
     rbind (if ok then Inr CL_SUCCESS else invalid_object_status t) (\<lambda>status.
     Inr (ag', argv0 params status, args)))"

text \<open>
  An event lives behind a pointer of the consumer: the provider is asked for the identifier
  it wrote there and given the one to put in its place.
\<close>

definition AGENT_GENERIC_MAP_EVENT ::
  "'n sctp \<Rightarrow> int list \<Rightarrow> nat \<Rightarrow> nat \<Rightarrow> nat \<Rightarrow> 'n cl_handler"
where
  "AGENT_GENERIC_MAP_EVENT net rs n target source ag params args =
     (let handle = argv args n
      in if handle = 0 then Inr (ag, params, args)
         else
           rbind (provider_agent ag target) (\<lambda>_.
           rbind (id_create (ag_id_pool ag) rs) (\<lambda>r.
           case r of
             None \<Rightarrow> Inl Out_Of_Fuel
           | Some (pool, virt, _) \<Rightarrow>
               rbind (provider_lock (ag\<lparr>ag_id_pool := pool\<rparr>) target) (\<lambda>ag1.
               rbind (deref (ag_provider_heap ag1) target) (\<lambda>pv.
               rbind (clara_send_mapatptr_request net (ag_net ag1) (pv_sd pv) virt handle (pv_addr pv)) (\<lambda>(s1, ok).
               rbind (c_assert ok) (\<lambda>_.
               rbind (clara_recv_mapatptr_response net s1 (pv_sd pv)) (\<lambda>(s2, real).
               case real of
                 None \<Rightarrow> Inl Assertion_Failed
               | Some real_id \<Rightarrow>
                   rbind (clCreateObject net [] (ag1\<lparr>ag_net := s2\<rparr>) target source real_id virt) (\<lambda>q.
                   case q of
                     None \<Rightarrow> Inl Out_Of_Fuel
                   | Some (ag2, virt') \<Rightarrow>
                       rbind (c_assert (virt' = virt)) (\<lambda>_.
                       rbind (provider_unlock ag2 target) (\<lambda>ag3.
                       Inr (ag3, params, args))))))))))))"

section \<open>Unloading the compiler everywhere\<close>

text \<open>The message with its parameters and arguments as they are now, and what follows them.\<close>

definition msgbuf :: "execute_request \<Rightarrow> arg list \<Rightarrow> byte list \<Rightarrow> byte list" where
  "msgbuf params args rest = enc_execute_request params @ enc_args args @ rest"

definition clara_post_clUnloadCompiler :: "'n sctp \<Rightarrow> byte list \<Rightarrow> nat \<Rightarrow> 'n cl_handler" where
  "clara_post_clUnloadCompiler net rest source ag params args =
     rbind (consumer_agent ag source) (\<lambda>_.
     rbind (for_providers (\<lambda>provider (ag1, u).
         rbind (agent_remote_execute net ag1 provider (msgbuf params args rest)) (\<lambda>(ag2, _).
         Inr (False, ag2, u))) ag ()) (\<lambda>(ag3, _).
     Inr (ag3, argv0 params CL_SUCCESS, args)))"

section \<open>The handlers\<close>

text \<open>
  One for each function with a part in the agent. They bear on the objects of a type alike;
  \<^verbatim>\<open>clEnqueueMarker\<close> has a handler, but no entry in the tables below.
\<close>

text \<open>Command queues (\<^verbatim>\<open>opencl_cmdqueue.c\<close>).\<close>

definition clara_post_clCreateCommandQueue :: "'n sctp \<Rightarrow> int list \<Rightarrow> nat \<Rightarrow> nat \<Rightarrow> 'n cl_handler" where
  [simp]: "clara_post_clCreateCommandQueue = AGENT_GENERIC_CREATE"

definition clara_pre_clRetainCommandQueue :: "nat \<Rightarrow> 'n cl_handler" where
  [simp]: "clara_pre_clRetainCommandQueue = AGENT_GENERIC_RETAIN T_COMMANDQUEUE"

definition clara_pre_clReleaseCommandQueue :: "nat \<Rightarrow> 'n cl_handler" where
  [simp]: "clara_pre_clReleaseCommandQueue = AGENT_GENERIC_RELEASE T_COMMANDQUEUE"

definition clara_pre_clFlush :: "'n cl_handler" where
  "clara_pre_clFlush ag params args = Inr (ag, params, args)"

definition clara_pre_clFinish :: "'n cl_handler" where
  "clara_pre_clFinish ag params args = Inr (ag, params, args)"

text \<open>Contexts (\<^verbatim>\<open>opencl_context.c\<close>).\<close>

definition clara_post_clCreateContext :: "'n sctp \<Rightarrow> int list \<Rightarrow> nat \<Rightarrow> nat \<Rightarrow> 'n cl_handler" where
  [simp]: "clara_post_clCreateContext = AGENT_GENERIC_CREATE"

definition clara_post_clCreateContextFromType :: "'n sctp \<Rightarrow> int list \<Rightarrow> nat \<Rightarrow> nat \<Rightarrow> 'n cl_handler" where
  [simp]: "clara_post_clCreateContextFromType = AGENT_GENERIC_CREATE"

definition clara_pre_clRetainContext :: "nat \<Rightarrow> 'n cl_handler" where
  [simp]: "clara_pre_clRetainContext = AGENT_GENERIC_RETAIN T_CONTEXT"

definition clara_pre_clReleaseContext :: "nat \<Rightarrow> 'n cl_handler" where
  [simp]: "clara_pre_clReleaseContext = AGENT_GENERIC_RELEASE T_CONTEXT"

text \<open>Memory objects (\<^verbatim>\<open>opencl_memobj.c\<close>).\<close>

definition clara_post_clCreateBuffer :: "'n sctp \<Rightarrow> int list \<Rightarrow> nat \<Rightarrow> nat \<Rightarrow> 'n cl_handler" where
  [simp]: "clara_post_clCreateBuffer = AGENT_GENERIC_CREATE"

definition clara_pre_clRetainMemObject :: "nat \<Rightarrow> 'n cl_handler" where
  [simp]: "clara_pre_clRetainMemObject = AGENT_GENERIC_RETAIN T_MEMOBJECT"

definition clara_pre_clReleaseMemObject :: "nat \<Rightarrow> 'n cl_handler" where
  [simp]: "clara_pre_clReleaseMemObject = AGENT_GENERIC_RELEASE T_MEMOBJECT"

definition clara_post_clEnqueueReadBuffer :: "'n sctp \<Rightarrow> int list \<Rightarrow> nat \<Rightarrow> nat \<Rightarrow> 'n cl_handler" where
  [simp]: "clara_post_clEnqueueReadBuffer net rs = AGENT_GENERIC_MAP_EVENT net rs 9"

definition clara_post_clEnqueueWriteBuffer :: "'n sctp \<Rightarrow> int list \<Rightarrow> nat \<Rightarrow> nat \<Rightarrow> 'n cl_handler" where
  [simp]: "clara_post_clEnqueueWriteBuffer net rs = AGENT_GENERIC_MAP_EVENT net rs 9"

definition clara_post_clEnqueueCopyBuffer :: "'n sctp \<Rightarrow> int list \<Rightarrow> nat \<Rightarrow> nat \<Rightarrow> 'n cl_handler" where
  [simp]: "clara_post_clEnqueueCopyBuffer net rs = AGENT_GENERIC_MAP_EVENT net rs 9"

text \<open>Programs (\<^verbatim>\<open>opencl_program.c\<close>).\<close>

definition clara_post_clCreateProgramWithSource :: "'n sctp \<Rightarrow> int list \<Rightarrow> nat \<Rightarrow> nat \<Rightarrow> 'n cl_handler" where
  [simp]: "clara_post_clCreateProgramWithSource = AGENT_GENERIC_CREATE"

definition clara_post_clCreateProgramWithBinary :: "'n sctp \<Rightarrow> int list \<Rightarrow> nat \<Rightarrow> nat \<Rightarrow> 'n cl_handler" where
  [simp]: "clara_post_clCreateProgramWithBinary = AGENT_GENERIC_CREATE"

definition clara_pre_clRetainProgram :: "nat \<Rightarrow> 'n cl_handler" where
  [simp]: "clara_pre_clRetainProgram = AGENT_GENERIC_RETAIN T_PROGRAM"

definition clara_pre_clReleaseProgram :: "nat \<Rightarrow> 'n cl_handler" where
  [simp]: "clara_pre_clReleaseProgram = AGENT_GENERIC_RELEASE T_PROGRAM"

text \<open>Kernels (\<^verbatim>\<open>opencl_kernel.c\<close>).\<close>

definition clara_post_clCreateKernel :: "'n sctp \<Rightarrow> int list \<Rightarrow> nat \<Rightarrow> nat \<Rightarrow> 'n cl_handler" where
  [simp]: "clara_post_clCreateKernel = AGENT_GENERIC_CREATE"

definition clara_pre_clRetainKernel :: "nat \<Rightarrow> 'n cl_handler" where
  [simp]: "clara_pre_clRetainKernel = AGENT_GENERIC_RETAIN T_KERNEL"

definition clara_pre_clReleaseKernel :: "nat \<Rightarrow> 'n cl_handler" where
  [simp]: "clara_pre_clReleaseKernel = AGENT_GENERIC_RELEASE T_KERNEL"

definition clara_post_clEnqueueNDRangeKernel :: "'n sctp \<Rightarrow> int list \<Rightarrow> nat \<Rightarrow> nat \<Rightarrow> 'n cl_handler" where
  [simp]: "clara_post_clEnqueueNDRangeKernel net rs = AGENT_GENERIC_MAP_EVENT net rs 9"

definition clara_post_clEnqueueTask :: "'n sctp \<Rightarrow> int list \<Rightarrow> nat \<Rightarrow> nat \<Rightarrow> 'n cl_handler" where
  [simp]: "clara_post_clEnqueueTask net rs = AGENT_GENERIC_MAP_EVENT net rs 5"

text \<open>Events (\<^verbatim>\<open>opencl_event.c\<close>).\<close>

definition clara_pre_clRetainEvent :: "nat \<Rightarrow> 'n cl_handler" where
  [simp]: "clara_pre_clRetainEvent = AGENT_GENERIC_RETAIN T_EVENT"

definition clara_pre_clReleaseEvent :: "nat \<Rightarrow> 'n cl_handler" where
  [simp]: "clara_pre_clReleaseEvent = AGENT_GENERIC_RELEASE T_EVENT"

definition clara_post_clEnqueueMarker :: "'n sctp \<Rightarrow> int list \<Rightarrow> nat \<Rightarrow> nat \<Rightarrow> 'n cl_handler" where
  [simp]: "clara_post_clEnqueueMarker net rs = AGENT_GENERIC_MAP_EVENT net rs 2"

definition clara_pre_clEnqueueBarrier :: "'n cl_handler" where
  "clara_pre_clEnqueueBarrier ag params args = Inr (ag, params, args)"

section \<open>The tables\<close>

definition pre_exec_fun_table_entries :: "nat \<Rightarrow> (cl_function_t \<times> 'n agent fun_entry) list" where
  "pre_exec_fun_table_entries source = [
     (CL_GETDEVICEINFO, entry clara_pre_clGetDeviceInfo []),
     (CL_RETAINCONTEXT, entry (clara_pre_clRetainContext source) []),
     (CL_RELEASECONTEXT, entry (clara_pre_clReleaseContext source) []),
     (CL_RETAINCOMMANDQUEUE, entry (clara_pre_clRetainCommandQueue source) []),
     (CL_RELEASECOMMANDQUEUE, entry (clara_pre_clReleaseCommandQueue source) []),
     (CL_RETAINMEMOBJECT, entry (clara_pre_clRetainMemObject source) []),
     (CL_RELEASEMEMOBJECT, entry (clara_pre_clReleaseMemObject source) []),
     (CL_RETAINPROGRAM, entry (clara_pre_clRetainProgram source) []),
     (CL_RELEASEPROGRAM, entry (clara_pre_clReleaseProgram source) []),
     (CL_RETAINKERNEL, entry (clara_pre_clRetainKernel source) []),
     (CL_RELEASEKERNEL, entry (clara_pre_clReleaseKernel source) []),
     (CL_RETAINEVENT, entry (clara_pre_clRetainEvent source) []),
     (CL_RELEASEEVENT, entry (clara_pre_clReleaseEvent source) []),
     (CL_ENQUEUEBARRIER, entry clara_pre_clEnqueueBarrier []),
     (CL_FLUSH, entry clara_pre_clFlush []),
     (CL_FINISH, entry clara_pre_clFinish [])]"

definition pre_exec_fun_table :: "nat \<Rightarrow> 'n agent fun_entry list" where
  "pre_exec_fun_table source = fun_table (pre_exec_fun_table_entries source)"

definition post_exec_fun_table_entries ::
  "'n sctp \<Rightarrow> lzo \<Rightarrow> nat \<Rightarrow> int list \<Rightarrow> byte list \<Rightarrow> nat \<Rightarrow> nat \<Rightarrow> (cl_function_t \<times> 'n agent fun_entry) list"
where
  "post_exec_fun_table_entries net lz fuel rs rest target source = [
     (CL_GETPLATFORMIDS, entry (clara_post_clGetPlatformIDs source) [2, 3]),
     (CL_GETPLATFORMINFO, entry (clara_post_clGetPlatformInfo source) [4, 5]),
     (CL_GETDEVICEIDS, entry (clara_post_clGetDeviceIDs source) [4, 5]),
     (CL_GETDEVICEINFO, entry (clara_post_clGetDeviceInfo net lz fuel rs source) [4, 5]),
     (CL_CREATECONTEXT, entry (clara_post_clCreateContext net rs target source) []),
     (CL_CREATECONTEXTFROMTYPE, entry (clara_post_clCreateContextFromType net rs target source) []),
     (CL_CREATECOMMANDQUEUE, entry (clara_post_clCreateCommandQueue net rs target source) []),
     (CL_CREATEBUFFER, entry (clara_post_clCreateBuffer net rs target source) []),
     (CL_ENQUEUEREADBUFFER, entry (clara_post_clEnqueueReadBuffer net rs target source) []),
     (CL_ENQUEUEWRITEBUFFER, entry (clara_post_clEnqueueWriteBuffer net rs target source) []),
     (CL_ENQUEUECOPYBUFFER, entry (clara_post_clEnqueueCopyBuffer net rs target source) []),
     (CL_CREATEPROGRAMWITHSOURCE, entry (clara_post_clCreateProgramWithSource net rs target source) []),
     (CL_CREATEPROGRAMWITHBINARY, entry (clara_post_clCreateProgramWithBinary net rs target source) []),
     (CL_UNLOADCOMPILER, entry (clara_post_clUnloadCompiler net rest source) []),
     (CL_CREATEKERNEL, entry (clara_post_clCreateKernel net rs target source) []),
     (CL_ENQUEUENDRANGEKERNEL, entry (clara_post_clEnqueueNDRangeKernel net rs target source) []),
     (CL_ENQUEUETASK, entry (clara_post_clEnqueueTask net rs target source) [])]"

definition post_exec_fun_table ::
  "'n sctp \<Rightarrow> lzo \<Rightarrow> nat \<Rightarrow> int list \<Rightarrow> byte list \<Rightarrow> nat \<Rightarrow> nat \<Rightarrow> 'n agent fun_entry list"
where
  "post_exec_fun_table net lz fuel rs rest target source =
     fun_table (post_exec_fun_table_entries net lz fuel rs rest target source)"

section \<open>One call\<close>

definition agent_id_map :: "nat \<Rightarrow> 'n agent \<Rightarrow> global_id \<Rightarrow> fault + ('n agent \<times> arg)" where
  "agent_id_map consumer ag i =
     rbind (deref (ag_consumer_heap ag) consumer) (\<lambda>co.
     rbind (clara_find_allocation (co_allocations co) i) (\<lambda>(s, r).
     let ag' = put_consumer ag consumer (co\<lparr>co_allocations := s\<rparr>)
     in case r of
          None \<Rightarrow> Inl Assertion_Failed
        | Some allocation \<Rightarrow> Inr (ag', PTR2ARG (al_ptr allocation))))"

text \<open>
  The message is read as the parameters, the whole arguments that follow, and the rest. The
  result is the state, the value to return and success.
\<close>

definition agent_execute ::
  "'n sctp \<Rightarrow> lzo \<Rightarrow> nat \<Rightarrow> int list \<Rightarrow> 'n agent \<Rightarrow> byte list \<Rightarrow> arg \<Rightarrow> nat \<Rightarrow> fault + ('n agent \<times> arg \<times> bool)"
where
  "agent_execute net lz fuel rs ag msg retval source =
     (if length msg < 24 then Inl Uninit_Read
      else
        let params = dec_execute_request msg;
            argc = (length msg - 24) div 8;
            args = dec_args argc (drop 24 msg);
            rest = drop (24 + 8 * argc) msg
        in rbind
             (if er_hint params = 0 then Inr 0
              else
                rbind (consumer_agent ag source) (\<lambda>_.
                rbind (set_find (ag_objects ag) (er_hint params)) (\<lambda>r.
                case r of
                  None \<Rightarrow> Inl Assertion_Failed
                | Some object \<Rightarrow>
                    rbind (deref (ag_object_heap ag) object) (\<lambda>ob. Inr (ob_provider ob))))) (\<lambda>owner.
           rbind (clara_execute (pre_exec_fun_table source) (agent_id_map source) ag params args retval)
             (\<lambda>(ag1, params1, args1, retval1, ok1).
           rbind (c_assert ok1) (\<lambda>_.
           rbind
             (if owner = 0 then Inr (ag1, retval1)
              else
                rbind (agent_remote_execute net ag1 owner (msgbuf params1 args1 rest)) (\<lambda>(ag2, r).
                case r of None \<Rightarrow> Inl Assertion_Failed | Some v \<Rightarrow> Inr (ag2, v))) (\<lambda>(ag3, retval2).
           rbind (clara_execute (post_exec_fun_table net lz fuel rs rest owner source) (agent_id_map source)
               ag3 params1 args1 retval2) (\<lambda>(ag4, params2, args2, retval3, ok2).
           rbind (c_assert ok2) (\<lambda>_.
           Inr (ag4, retval3, True))))))))"

end
