(* ===== verification/Consumer_Handler.thy ===== *)
theory Consumer_Handler
  imports Agent_Calls
begin

text \<open>
  The thread that serves a consumer: \<^verbatim>\<open>agent_consumer_handler\<close> of
  \<^verbatim>\<open>agent/src/consumer_handler.c\<close>, one definition for each case of its switch, one for the
  treatment of a message, and the loop with what follows it.
\<close>

section \<open>Allocating\<close>

definition put_allocations :: "'n agent \<Rightarrow> nat \<Rightarrow> clara_allocation cset \<Rightarrow> fault + 'n agent" where
  "put_allocations ag c s =
     rbind (deref (ag_consumer_heap ag) c) (\<lambda>co. Inr (put_consumer ag c (co\<lparr>co_allocations := s\<rparr>)))"

text \<open>
  \<^verbatim>\<open>set_remove\<close>, \<^verbatim>\<open>clara_destroy_allocation\<close> and \<^verbatim>\<open>id_release\<close>, each asserted.
\<close>

definition forget_allocation :: "'n agent \<Rightarrow> nat \<Rightarrow> clara_allocation \<Rightarrow> fault + 'n agent" where
  "forget_allocation ag c allocation =
     rbind (deref (ag_consumer_heap ag) c) (\<lambda>co.
     rbind (set_remove (co_allocations co) (al_handle allocation)) (\<lambda>(s, ok).
     rbind (c_assert ok) (\<lambda>_.
     rbind (put_allocations ag c s) (\<lambda>ag1.
     rbind (clara_destroy_allocation (ag_mem ag1) (Some allocation)) (\<lambda>(m, h).
     case h of
       None \<Rightarrow> Inl Assertion_Failed
     | Some old_handle \<Rightarrow>
         rbind (consumer_agent ag1 c) (\<lambda>_.
         rbind (id_release (ag_id_pool ag1) old_handle) (\<lambda>(pool, ok').
         rbind (c_assert ok') (\<lambda>_.
         Inr (ag1\<lparr>ag_mem := m, ag_id_pool := pool\<rparr>)))))))))"

text \<open>Memory in the agent: the allocation, entered among the consumer's and initialized.\<close>

definition allocate_local ::
  "'n agent \<Rightarrow> nat \<Rightarrow> allocate_request \<Rightarrow> byte list \<Rightarrow> fault + ('n agent \<times> clara_allocation)"
where
  "allocate_local ag c areq extra =
     (let (m, allocation) = clara_create_allocation (ag_mem ag) areq;
          ag1 = ag\<lparr>ag_mem := m\<rparr>
      in rbind (deref (ag_consumer_heap ag1) c) (\<lambda>co.
         rbind (set_insert (co_allocations co) (al_handle allocation) allocation) (\<lambda>(s, ok).
         rbind (c_assert ok) (\<lambda>_.
         rbind (put_allocations ag1 c s) (\<lambda>ag2.
         if extra = [] then Inr (ag2, allocation)
         else
           rbind (c_assert (of_nat (length extra) = al_nmemb allocation * al_size allocation)) (\<lambda>_.
           rbind (mem_write (ag_mem ag2) (al_ptr allocation) 0 extra) (\<lambda>m'.
           Inr (ag2\<lparr>ag_mem := m'\<rparr>, allocation))))))))"

text \<open>The object a request names by its hint.\<close>

definition hinted_provider :: "'n agent \<Rightarrow> nat \<Rightarrow> global_id \<Rightarrow> fault + nat" where
  "hinted_provider ag c hint =
     rbind (consumer_agent ag c) (\<lambda>_.
     rbind (set_find (ag_objects ag) hint) (\<lambda>r.
     case r of
       None \<Rightarrow> Inl Assertion_Failed
     | Some object \<Rightarrow> rbind (deref (ag_object_heap ag) object) (\<lambda>ob. Inr (ob_provider ob))))"

definition handle_allocate ::
  "'n sctp \<Rightarrow> int list \<Rightarrow> 'n agent \<Rightarrow> nat \<Rightarrow> byte list \<Rightarrow> sockaddr \<Rightarrow> fault + 'n agent option"
where
  "handle_allocate net rs ag c buf from =
     (if length buf < 32 then Inl Uninit_Read
      else
        let areq = dec_allocate_request buf; extra = drop 32 buf
        in rbind (deref (ag_consumer_heap ag) c) (\<lambda>co.
           if ar_handle areq \<noteq> 0 then
             rbind (clara_send_allocate_response net (ag_net ag) (co_sd co) 0 from) (\<lambda>(s, _).
             Inr (Some (ag\<lparr>ag_net := s\<rparr>)))
           else
             rbind (consumer_agent ag c) (\<lambda>_.
             rbind (if ar_hint areq = 0 then Inr 0 else hinted_provider ag c (ar_hint areq)) (\<lambda>provider.
             rbind (id_create (ag_id_pool ag) rs) (\<lambda>r.
             case r of
               None \<Rightarrow> Inr None
             | Some (pool, key, _) \<Rightarrow>
                 let ag1 = ag\<lparr>ag_id_pool := pool\<rparr>; areq1 = areq\<lparr>ar_handle := key\<rparr>
                 in rbind
                      (if ar_hint areq = 0 then
                         rbind (allocate_local ag1 c areq1 extra) (\<lambda>(ag2, allocation).
                         Inr (ag2, Some allocation, al_handle allocation))
                       else
                         rbind (agent_remote_allocate net ag1 provider areq1 extra) (\<lambda>(ag2, h).
                         Inr (ag2, None, case h of None \<Rightarrow> 0 | Some handle \<Rightarrow> handle)))
                      (\<lambda>(ag3, allocation, handle).
                    rbind (clara_send_allocate_response net (ag_net ag3) (co_sd co) handle from) (\<lambda>(s, ok).
                    let ag4 = ag3\<lparr>ag_net := s\<rparr>
                    in if ok then Inr (Some ag4)
                       else case allocation of
                         None \<Rightarrow> Inl Null_Deref
                       | Some a \<Rightarrow> rbind (forget_allocation ag4 c a) (\<lambda>ag5. Inr (Some ag5)))))))))"

section \<open>The other requests\<close>

definition handle_memput :: "'n sctp \<Rightarrow> nat \<Rightarrow> 'n agent \<Rightarrow> nat \<Rightarrow> byte list \<Rightarrow> fault + 'n agent" where
  "handle_memput net fuel ag c buf =
     (if length buf < 32 then Inl Uninit_Read
      else
        let mpp = dec_memput buf
        in rbind (hinted_provider ag c (mp_hint mpp)) (\<lambda>provider.
           agent_forward_memput net fuel ag c provider mpp))"

definition handle_execute ::
  "'n sctp \<Rightarrow> lzo \<Rightarrow> nat \<Rightarrow> int list \<Rightarrow> 'n agent \<Rightarrow> nat \<Rightarrow> byte list \<Rightarrow> sockaddr \<Rightarrow> fault + 'n agent"
where
  "handle_execute net lz fuel rs ag c buf from =
     rbind (agent_execute net lz fuel rs ag buf 0 c) (\<lambda>(ag1, resp_val, successful).
     rbind (deref (ag_consumer_heap ag1) c) (\<lambda>co.
     rbind (clara_send_execute_response net (ag_net ag1) (co_sd co) resp_val from successful) (\<lambda>(s, _).
     Inr (ag1\<lparr>ag_net := s\<rparr>))))"

text \<open>\<^verbatim>\<open>respbufsz\<close> is the smaller of the sizes; nothing is sent for a request of zero bytes.\<close>

definition handle_fetch ::
  "'n sctp \<Rightarrow> lzo \<Rightarrow> nat \<Rightarrow> 'n agent \<Rightarrow> nat \<Rightarrow> byte list \<Rightarrow> sockaddr \<Rightarrow> fault + 'n agent"
where
  "handle_fetch net lz fuel ag c buf from =
     (if length buf < 40 then Inl Uninit_Read
      else
        let freq = dec_fetch_request buf
        in if fr_hint freq = 0 then
             rbind (deref (ag_consumer_heap ag) c) (\<lambda>co.
             rbind (clara_find_allocation (co_allocations co) (fr_handle freq)) (\<lambda>(s, r).
             rbind (put_allocations ag c s) (\<lambda>ag1.
             case r of
               None \<Rightarrow> Inl Null_Deref
             | Some allocation \<Rightarrow>
                 let respbufsz = min (al_nmemb allocation * al_size allocation) (fr_size freq)
                 in rbind
                      (if fr_size freq = 0 then Inr ag1
                       else
                         rbind (if respbufsz = 0 then Inr []
                                else mem_read (ag_mem ag1) (al_ptr allocation) 0 (unat respbufsz)) (\<lambda>respbuf.
                         rbind (clara_send_fetch_response net lz fuel (ag_net ag1) (co_sd co) respbuf
                                  (Some (fr_stream_opts freq)) from) (\<lambda>(s', _).
                         Inr (ag1\<lparr>ag_net := s'\<rparr>)))) (\<lambda>ag2.
                    forget_allocation ag2 c allocation))))
           else
             rbind (hinted_provider ag c (fr_hint freq)) (\<lambda>provider.
             agent_forward_fetch net fuel ag c provider freq))"

section \<open>The thread\<close>

text \<open>
  One message, when there is one. \<open>shutdown_event\<close> is the system's \<^verbatim>\<open>SCTP_SHUTDOWN_EVENT\<close>; a
  notification starts with its type. The flag tells the loop to end; \<open>None\<close>: \<^verbatim>\<open>id_create\<close> is
  still drawing.
\<close>

definition AGENT_RECVBUFSZ :: nat where "AGENT_RECVBUFSZ = 10240"

definition consumer_message ::
  "'n sctp \<Rightarrow> lzo \<Rightarrow> nat \<Rightarrow> 16 word \<Rightarrow> int list \<Rightarrow> 'n agent \<Rightarrow> nat \<Rightarrow> clara_msg \<Rightarrow> fault + ('n agent \<times> bool) option"
where
  "consumer_message net lz fuel shutdown_event rs ag c m =
     (if cm_notification m then
        if length (cm_bytes m) < 2 then Inl Uninit_Read
        else Inr (Some (ag, dec16 (cm_bytes m) = shutdown_event))
      else if cm_type m = CLARA_MSG_ALLOCATE_REQUEST then
        rbind (handle_allocate net rs ag c (cm_bytes m) (cm_from m)) (\<lambda>r.
        Inr (map_option (\<lambda>ag'. (ag', False)) r))
      else if cm_type m = CLARA_MSG_MEMPUT_STREAM then
        rbind (handle_memput net fuel ag c (cm_bytes m)) (\<lambda>ag'. Inr (Some (ag', False)))
      else if cm_type m = CLARA_MSG_EXECUTE_REQUEST then
        rbind (handle_execute net lz fuel rs ag c (cm_bytes m) (cm_from m)) (\<lambda>ag'. Inr (Some (ag', False)))
      else if cm_type m = CLARA_MSG_FETCH_REQUEST then
        rbind (handle_fetch net lz fuel ag c (cm_bytes m) (cm_from m)) (\<lambda>ag'. Inr (Some (ag', False)))
      else Inr (Some (ag, False)))"

definition consumer_step ::
  "'n sctp \<Rightarrow> lzo \<Rightarrow> nat \<Rightarrow> 16 word \<Rightarrow> int list \<Rightarrow> 'n agent \<Rightarrow> nat \<Rightarrow> fault + ('n agent \<times> bool) option"
where
  "consumer_step net lz fuel shutdown_event rs ag c =
     rbind (deref (ag_consumer_heap ag) c) (\<lambda>co.
     rbind (clara_recvmsg net (ag_net ag) (co_sd co) CLARA_MSG_INVALID AGENT_RECVBUFSZ) (\<lambda>(s, r).
     case r of
       None \<Rightarrow> Inr (Some (ag\<lparr>ag_net := s\<rparr>, True))
     | Some m \<Rightarrow> consumer_message net lz fuel shutdown_event rs (ag\<lparr>ag_net := s\<rparr>) c m))"

text \<open>
  The loop, with the results of \<^verbatim>\<open>rand()\<close> for each message; when they are used up the thread is
  still running. Then the consumer is detached and destroyed.
\<close>

fun consumer_loop ::
  "'n sctp \<Rightarrow> lzo \<Rightarrow> nat \<Rightarrow> 16 word \<Rightarrow> int list list \<Rightarrow> 'n agent \<Rightarrow> nat \<Rightarrow> fault + 'n agent"
where
  "consumer_loop net lz fuel shutdown_event [] ag c = Inl Out_Of_Fuel"
| "consumer_loop net lz fuel shutdown_event (rs # rss) ag c =
     rbind (consumer_step net lz fuel shutdown_event rs ag c) (\<lambda>r.
     case r of
       None \<Rightarrow> Inl Out_Of_Fuel
     | Some (ag', True) \<Rightarrow> Inr ag'
     | Some (ag', False) \<Rightarrow> consumer_loop net lz fuel shutdown_event rss ag' c)"

definition agent_consumer_handler ::
  "'n sctp \<Rightarrow> lzo \<Rightarrow> nat \<Rightarrow> 16 word \<Rightarrow> int list list \<Rightarrow> 'n agent \<Rightarrow> nat \<Rightarrow> fault + 'n agent"
where
  "agent_consumer_handler net lz fuel shutdown_event rss ag c =
     rbind (consumer_loop net lz fuel shutdown_event rss ag c) (\<lambda>ag1.
     rbind (consumer_detach ag1 c) (\<lambda>(ag2, ok).
     rbind (c_assert ok) (\<lambda>_.
     rbind (consumer_destroy ag2 c) (\<lambda>(ag3, ok').
     rbind (c_assert ok') (\<lambda>_. Inr ag3)))))"

end
