(* ===== verification/Socket.thy ===== *)
theory Socket
  imports Net
begin

text \<open>
  The socket of \<^verbatim>\<open>clara_socket\<close> (\<^verbatim>\<open>common/net.c\<close>), for the processes that open one. The socket
  interface of the system is a parameter.
\<close>

section \<open>Sockets\<close>

text \<open>The options \<^verbatim>\<open>clara_socket\<close> sets, with the fields of their values that are not zero.\<close>

datatype sock_option =
    SCTP_EVENTS (sctp_data_io_event: bool) (sctp_shutdown_event: bool)
  | SCTP_DELAYED_ACK_TIME (assoc_value: u32)

text \<open>The calls of the system, on a state of its own; the flag is whether a call worked.\<close>

record 's sockets =
  sk_socket :: "'s \<Rightarrow> 's \<times> sd"
  sk_setsockopt :: "'s \<Rightarrow> sd \<Rightarrow> sock_option \<Rightarrow> 's \<times> bool"
  sk_bind :: "'s \<Rightarrow> sd \<Rightarrow> u32 \<times> 16 word \<Rightarrow> 's \<times> bool"
  sk_listen :: "'s \<Rightarrow> sd \<Rightarrow> nat \<Rightarrow> 's \<times> bool"
  sk_close :: "'s \<Rightarrow> sd \<Rightarrow> 's \<times> bool"
  sk_peeloff :: "'s \<Rightarrow> sd \<Rightarrow> 's \<times> sd"

text \<open>The second option is also tried, and fails, on the descriptor -1.\<close>

definition clara_socket :: "'s sockets \<Rightarrow> 's \<Rightarrow> 's \<times> sd" where
  "clara_socket sk s =
     (let (s1, sd) = sk_socket sk s
      in if sd = -1 then (s1, sd)
         else
           let (s2, ok) = sk_setsockopt sk s1 sd (SCTP_EVENTS True True);
               (s3, sd1) = (if ok then (s2, sd) else (fst (sk_close sk s2 sd), -1));
               (s4, ok') = sk_setsockopt sk s3 sd1 (SCTP_DELAYED_ACK_TIME 1)
           in if ok' then (s4, sd1) else (fst (sk_close sk s4 sd1), -1))"

section \<open>Descriptors\<close>

text \<open>What is documented of the calls, for the set \<open>op\<close> of the descriptors that are open.\<close>

definition sockets_ok :: "'s sockets \<Rightarrow> ('s \<Rightarrow> sd set) \<Rightarrow> bool" where
  "sockets_ok sk op \<longleftrightarrow>
     (\<forall>s. -1 \<notin> op s) \<and>
     (\<forall>s s' sd. sk_socket sk s = (s', sd) \<longrightarrow>
        (if sd = -1 then op s' = op s else sd \<notin> op s \<and> op s' = insert sd (op s))) \<and>
     (\<forall>s sd opt. op (fst (sk_setsockopt sk s sd opt)) = op s \<and> (snd (sk_setsockopt sk s sd opt) \<longrightarrow> sd \<in> op s)) \<and>
     (\<forall>s sd a. op (fst (sk_bind sk s sd a)) = op s) \<and> (\<forall>s sd n. op (fst (sk_listen sk s sd n)) = op s) \<and>
     (\<forall>s sd. op (fst (sk_close sk s sd)) = op s - {sd})"

lemma sockets_okD:
  assumes "sockets_ok sk op"
  shows "-1 \<notin> op s"
    and "sk_socket sk s = (s', sd) \<Longrightarrow> if sd = -1 then op s' = op s else sd \<notin> op s \<and> op s' = insert sd (op s)"
    and "sk_setsockopt sk s sd opt = (s', ok) \<Longrightarrow> op s' = op s \<and> (ok \<longrightarrow> sd \<in> op s)"
    and "sk_bind sk s sd a = (s', ok) \<Longrightarrow> op s' = op s"
    and "sk_listen sk s sd n = (s', ok) \<Longrightarrow> op s' = op s"
    and "sk_close sk s sd = (s', ok) \<Longrightarrow> op s' = op s - {sd}"
  using assms unfolding sockets_ok_def by (metis fst_conv snd_conv)+

lemma clara_socket_correct:
  assumes sk: "sockets_ok sk op" and run: "clara_socket sk s = (s', sd)"
  shows "if sd = -1 then op s' = op s else sd \<notin> op s \<and> op s' = insert sd (op s)"
proof -
  obtain s1 d where 1: "sk_socket sk s = (s1, d)" by fastforce
  obtain s2 ok where 2: "sk_setsockopt sk s1 d (SCTP_EVENTS True True) = (s2, ok)" by fastforce
  obtain s3 u where 3: "sk_close sk s2 d = (s3, u)" by fastforce
  let ?s = "if ok then s2 else s3" and ?d = "if ok then d else -1"
  obtain s4 ok' where 4: "sk_setsockopt sk ?s ?d (SCTP_DELAYED_ACK_TIME 1) = (s4, ok')" by fastforce
  obtain s5 u' where 5: "sk_close sk s4 ?d = (s5, u')" by fastforce
  have run': "(s', sd) = (if d = -1 then (s1, d) else if ok' then (s4, ?d) else (s5, -1))"
    using run 1 2 3 4 5 by (simp add: clara_socket_def split: if_splits)
  note sk' = sockets_okD [OF sk]
  have "op s2 = op s1" "op s3 = op s1 - {d}" "op s4 = op ?s" "op s5 = op s4 - {?d}" "ok' \<Longrightarrow> ?d \<in> op ?s"
    using sk'(3) [OF 2] sk'(6) [OF 3] sk'(3) [OF 4] sk'(6) [OF 5] by auto
  with run' sk'(2) [OF 1] sk'(1) show ?thesis by (auto split: if_splits)
qed

text \<open>
  \<^verbatim>\<open>sctp_peeloff\<close> makes a new descriptor for an association, or fails with -1; \<open>pe\<close> is the set of
  the open descriptors that it has made.
\<close>

definition peeloff_ok :: "'s sockets \<Rightarrow> ('s \<Rightarrow> sd set) \<Rightarrow> ('s \<Rightarrow> sd set) \<Rightarrow> bool" where
  "peeloff_ok sk op pe \<longleftrightarrow>
     (\<forall>s. pe s \<subseteq> op s) \<and>
     (\<forall>s a s' sd. sk_peeloff sk s a = (s', sd) \<longrightarrow>
        (if sd = -1 then op s' = op s \<and> pe s' = pe s
         else sd \<notin> op s \<and> op s' = insert sd (op s) \<and> pe s' = insert sd (pe s))) \<and>
     (\<forall>s. pe (fst (sk_socket sk s)) = pe s) \<and> (\<forall>s sd opt. pe (fst (sk_setsockopt sk s sd opt)) = pe s) \<and>
     (\<forall>s sd a. pe (fst (sk_bind sk s sd a)) = pe s) \<and> (\<forall>s sd n. pe (fst (sk_listen sk s sd n)) = pe s) \<and>
     (\<forall>s sd. pe (fst (sk_close sk s sd)) = pe s - {sd})"

lemma peeloff_okD:
  assumes "peeloff_ok sk op pe"
  shows "pe s \<subseteq> op s"
    and "sk_peeloff sk s a = (s', sd) \<Longrightarrow> if sd = -1 then op s' = op s \<and> pe s' = pe s
      else sd \<notin> op s \<and> op s' = insert sd (op s) \<and> pe s' = insert sd (pe s)"
    and "sk_socket sk s = (s', sd) \<Longrightarrow> pe s' = pe s" and "sk_setsockopt sk s sd opt = (s', ok) \<Longrightarrow> pe s' = pe s"
    and "sk_bind sk s sd addr = (s', ok) \<Longrightarrow> pe s' = pe s" and "sk_listen sk s sd n = (s', ok) \<Longrightarrow> pe s' = pe s"
    and "sk_close sk s sd = (s', ok) \<Longrightarrow> pe s' = pe s - {sd}"
  using assms unfolding peeloff_ok_def by (metis fst_conv)+

end
