(* ===== verification/Provider_Handler.thy ===== *)
theory Provider_Handler
  imports Consumer_Handler Socket
begin

text \<open>
  The thread that serves a provider (\<^verbatim>\<open>agent_provider_handler\<close> of
  \<^verbatim>\<open>agent/src/provider_handler.c\<close>), which takes in its platforms and devices and then pings
  it, and the agent's main loop (\<^verbatim>\<open>agent_main\<close> of \<^verbatim>\<open>agent.c\<close>), which admits providers and
  consumers.
\<close>

section \<open>Taking in platforms and devices\<close>

text \<open>
  The platform: an identifier, the strings and the local identifier, the entry among the
  provider's platforms and the agent's objects, and the answer. \<open>None\<close>: \<^verbatim>\<open>id_create\<close> is still
  drawing.
\<close>

definition handle_platform_info ::
  "'n sctp \<Rightarrow> int list \<Rightarrow> 'n agent \<Rightarrow> nat \<Rightarrow> byte list \<Rightarrow> sockaddr \<Rightarrow> fault + 'n agent option"
where
  "handle_platform_info net rs ag provider buf from =
     rbind (platform_create rs ag provider) (\<lambda>r.
     case r of
       None \<Rightarrow> Inr None
     | Some (ag1, platform) \<Rightarrow>
         rbind (platform_init ag1 platform buf) (\<lambda>(ag2, ok).
         rbind (c_assert ok) (\<lambda>_.
         rbind (deref (ag_platform_heap ag2) platform) (\<lambda>pf.
         rbind (deref (ag_provider_heap ag2) provider) (\<lambda>pv.
         rbind (set_insert (pv_platforms pv) (pf_global_id pf) platform) (\<lambda>(s, ok1).
         rbind (c_assert ok1) (\<lambda>_.
         let ag3 = put_provider ag2 provider (pv\<lparr>pv_platforms := s\<rparr>)
         in rbind (object_create ag3 provider (pf_id pf) (pf_global_id pf)) (\<lambda>(ag4, obj).
            rbind (c_assert (obj \<noteq> None)) (\<lambda>_.
            rbind (clara_sendmsg net (ag_net ag4) (pv_sd pv) CLARA_MSG_OPENCL_PLATFORM_ID
                (enc64 (pf_global_id pf)) from) (\<lambda>(s', _).
            Inr (Some (ag4\<lparr>ag_net := s'\<rparr>))))))))))))"

definition handle_device_info ::
  "'n sctp \<Rightarrow> int list \<Rightarrow> 'n agent \<Rightarrow> nat \<Rightarrow> byte list \<Rightarrow> sockaddr \<Rightarrow> fault + 'n agent option"
where
  "handle_device_info net rs ag provider buf from =
     rbind (device_create rs ag provider) (\<lambda>r.
     case r of
       None \<Rightarrow> Inr None
     | Some (ag1, device) \<Rightarrow>
         rbind (device_init ag1 device buf) (\<lambda>(ag2, ok).
         rbind (c_assert ok) (\<lambda>_.
         rbind (deref (ag_device_heap ag2) device) (\<lambda>dv.
         rbind (agent_find_platform_by_local_id (put_device ag2 device (dv\<lparr>dv_provider := provider\<rparr>)) provider
             (dv_platform_id dv)) (\<lambda>(ag3, platform).
         rbind (c_assert (platform \<noteq> 0)) (\<lambda>_.
         rbind (deref (ag_platform_heap ag3) platform) (\<lambda>pf.
         rbind (set_insert (pf_devices pf) (dv_global_id dv) device) (\<lambda>(s, ok1).
         rbind (c_assert ok1) (\<lambda>_.
         let ag4 = put_platform ag3 platform (pf\<lparr>pf_devices := s\<rparr>)
         in rbind (object_create ag4 provider (dv_id dv) (dv_global_id dv)) (\<lambda>(ag5, obj).
            rbind (c_assert (obj \<noteq> None)) (\<lambda>_.
            rbind (deref (ag_provider_heap ag5) provider) (\<lambda>pv.
            rbind (clara_sendmsg net (ag_net ag5) (pv_sd pv) CLARA_MSG_OPENCL_DEVICE_ID
                (enc64 (dv_global_id dv)) from) (\<lambda>(s', _).
            Inr (Some (ag5\<lparr>ag_net := s'\<rparr>)))))))))))))))"

section \<open>The provider's thread\<close>

text \<open>What the first loop does next: go on, end because of a shutdown, or end because of \<^verbatim>\<open>IDLE\<close>.\<close>

datatype provider_phase = Going_On | Shut_Down | Idle_State

definition provider_message ::
  "'n sctp \<Rightarrow> 16 word \<Rightarrow> int list \<Rightarrow> 'n agent \<Rightarrow> nat \<Rightarrow> clara_msg \<Rightarrow> fault + ('n agent \<times> provider_phase) option"
where
  "provider_message net shutdown_event rs ag v m =
     (if cm_notification m then
        if length (cm_bytes m) < 2 then Inl Uninit_Read
        else Inr (Some (ag, if dec16 (cm_bytes m) = shutdown_event then Shut_Down else Going_On))
      else if cm_type m = CLARA_MSG_OPENCL_PLATFORM_INFO then
        rbind (handle_platform_info net rs ag v (cm_bytes m) (cm_from m)) (\<lambda>r.
        Inr (map_option (\<lambda>ag'. (ag', Going_On)) r))
      else if cm_type m = CLARA_MSG_OPENCL_DEVICE_INFO then
        rbind (handle_device_info net rs ag v (cm_bytes m) (cm_from m)) (\<lambda>r.
        Inr (map_option (\<lambda>ag'. (ag', Going_On)) r))
      else Inr (Some (ag, if cm_type m = CLARA_MSG_IDLE then Idle_State else Going_On)))"

definition PROVIDER_BUFSZ :: nat where "PROVIDER_BUFSZ = 10000"

fun provider_intake ::
  "'n sctp \<Rightarrow> 16 word \<Rightarrow> int list list \<Rightarrow> 'n agent \<Rightarrow> nat \<Rightarrow> fault + ('n agent \<times> bool)"
where
  "provider_intake net shutdown_event [] ag v = Inl Out_Of_Fuel"
| "provider_intake net shutdown_event (rs # rss) ag v =
     rbind (deref (ag_provider_heap ag) v) (\<lambda>pv.
     rbind (clara_recvmsg net (ag_net ag) (pv_sd pv) CLARA_MSG_INVALID PROVIDER_BUFSZ) (\<lambda>(s, r).
     let ag1 = ag\<lparr>ag_net := s\<rparr>
     in case r of
          None \<Rightarrow> Inr (ag1, False)
        | Some m \<Rightarrow>
            rbind (provider_message net shutdown_event rs ag1 v m) (\<lambda>q.
            case q of
              None \<Rightarrow> Inl Out_Of_Fuel
            | Some (ag2, Going_On) \<Rightarrow> provider_intake net shutdown_event rss ag2 v
            | Some (ag2, Shut_Down) \<Rightarrow> Inr (ag2, False)
            | Some (ag2, Idle_State) \<Rightarrow> Inr (ag2, True))))"

text \<open>The platforms become available to the load balancer.\<close>

definition offer_platforms :: "'n agent \<Rightarrow> nat \<Rightarrow> fault + 'n agent" where
  "offer_platforms ag v =
     rbind (for_platforms (\<lambda>platform (ag', u).
       rbind (lb_add_platform ag' platform) (\<lambda>(ag'', _). Inr (False, ag'', u))) ag v ()) (\<lambda>(ag', _). Inr ag')"

text \<open>
  A round of the second loop: the seconds of the clock go to the provider; what comes back
  only matters when it is the notification of a shutdown.
\<close>

definition ping_round :: "'n sctp \<Rightarrow> 16 word \<Rightarrow> 64 word \<Rightarrow> 'n agent \<Rightarrow> nat \<Rightarrow> fault + ('n agent \<times> bool)" where
  "ping_round net shutdown_event sec ag v =
     rbind (provider_lock ag v) (\<lambda>ag1.
     rbind (deref (ag_provider_heap ag1) v) (\<lambda>pv.
     rbind (clara_sendmsg net (ag_net ag1) (pv_sd pv) CLARA_MSG_PING (enc64 sec) (pv_addr pv)) (\<lambda>(s1, _).
     rbind (clara_recvmsg net s1 (pv_sd pv) CLARA_MSG_INVALID PROVIDER_BUFSZ) (\<lambda>(s2, r).
     rbind (provider_unlock (ag1\<lparr>ag_net := s2\<rparr>) v) (\<lambda>ag2.
     case r of
       None \<Rightarrow> Inr (ag2, False)
     | Some m \<Rightarrow>
         if cm_notification m then
           if length (cm_bytes m) < 2 then Inl Uninit_Read
           else Inr (ag2, dec16 (cm_bytes m) = shutdown_event)
         else Inr (ag2, False))))))"

fun ping_loop :: "'n sctp \<Rightarrow> 16 word \<Rightarrow> 64 word list \<Rightarrow> 'n agent \<Rightarrow> nat \<Rightarrow> fault + 'n agent" where
  "ping_loop net shutdown_event [] ag v = Inl Out_Of_Fuel"
| "ping_loop net shutdown_event (sec # secs) ag v =
     rbind (ping_round net shutdown_event sec ag v) (\<lambda>(ag', exit).
     if exit then Inr ag' else ping_loop net shutdown_event secs ag' v)"

definition agent_provider_handler ::
  "'n sctp \<Rightarrow> 16 word \<Rightarrow> int list list \<Rightarrow> 64 word list \<Rightarrow> 'n agent \<Rightarrow> nat \<Rightarrow> fault + 'n agent"
where
  "agent_provider_handler net shutdown_event rss secs ag v =
     rbind (provider_intake net shutdown_event rss ag v) (\<lambda>(ag1, idle).
     rbind
       (if idle then
          rbind (provider_agent ag1 v) (\<lambda>_.
          rbind (if ag_load_balancing ag1 then offer_platforms ag1 v else Inr ag1) (\<lambda>ag2.
          ping_loop net shutdown_event secs ag2 v))
        else Inr ag1) (\<lambda>ag3.
     rbind (provider_detach ag3 v) (\<lambda>(ag4, ok).
     rbind (c_assert ok) (\<lambda>_.
     rbind (provider_destroy ag4 v) (\<lambda>(ag5, ok').
     rbind (c_assert ok') (\<lambda>_. Inr ag5))))))"

section \<open>The main loop\<close>

text \<open>
  What the system answers while a message is treated: the stream it came on and whether
  \<^verbatim>\<open>pthread_create\<close> works.
\<close>

record admission =
  ad_stream :: "16 word"
  ad_thread :: bool

datatype agent_thread = Provider_Thread nat | Consumer_Thread nat

text \<open>
  A provider: the type of the answer, the socket it is sent on and the thread, if any. The socket
  of the association, which \<^verbatim>\<open>sctp_peeloff\<close> opens, is not closed when something fails later.
\<close>

definition admit_provider ::
  "'s sockets \<Rightarrow> 's \<Rightarrow> 'n agent \<Rightarrow> sd \<Rightarrow> admission \<Rightarrow> sockaddr \<Rightarrow>
    fault + ('s \<times> 'n agent \<times> message_type \<times> sd \<times> agent_thread option)"
where
  "admit_provider sk s ag agent_sd ad from =
     rbind (agent_find_provider_with_addr ag (sin_addr from)) (\<lambda>(ag1, known).
     if known \<noteq> 0 then Inr (s, ag1, CLARA_MSG_NACK, agent_sd, None)
     else
       let (s1, sd) = sk_peeloff sk s agent_sd
       in if sd = -1 then Inr (s1, ag1, CLARA_MSG_NACK, sd, None)
          else case provider_create ag1 sd (Some from) of
            (ag2, None) \<Rightarrow> Inr (s1, ag2, CLARA_MSG_NACK, sd, None)
          | (ag2, Some provider) \<Rightarrow>
              rbind (provider_attach ag2 provider) (\<lambda>(ag3, ok).
              if \<not> ok then Inr (s1, ag3, CLARA_MSG_NACK, sd, None)
              else if \<not> ad_thread ad then Inr (s1, ag3, CLARA_MSG_NACK, sd, None)
              else Inr (s1, ag3, CLARA_MSG_ACK, sd, Some (Provider_Thread provider))))"

definition admit_consumer ::
  "'s sockets \<Rightarrow> 's \<Rightarrow> 'n agent \<Rightarrow> sd \<Rightarrow> admission \<Rightarrow> sockaddr \<Rightarrow>
    fault + ('s \<times> 'n agent \<times> message_type \<times> sd \<times> agent_thread option)"
where
  "admit_consumer sk s ag agent_sd ad from =
     (let (s1, sd) = sk_peeloff sk s agent_sd
      in if sd = -1 then Inr (s1, ag, CLARA_MSG_NACK, sd, None)
         else case consumer_create ag sd (Some from) of
           (ag1, None) \<Rightarrow> Inr (s1, ag1, CLARA_MSG_NACK, sd, None)
         | (ag1, Some consumer) \<Rightarrow>
             rbind (consumer_attach ag1 consumer) (\<lambda>(ag2, ok).
             if \<not> ok then Inr (s1, ag2, CLARA_MSG_NACK, sd, None)
             else if \<not> ad_thread ad then Inr (s1, ag2, CLARA_MSG_NACK, sd, None)
             else Inr (s1, ag2, CLARA_MSG_ACK, sd, Some (Consumer_Thread consumer))))"

text \<open>
  A message of the main loop: the sockets, the state, the thread started and the value the loop
  ends with (zero: it goes on).
\<close>

definition agent_main_message ::
  "'s sockets \<Rightarrow> 'n sctp \<Rightarrow> admission \<Rightarrow> 's \<Rightarrow> sd \<Rightarrow> 'n agent \<Rightarrow> clara_msg \<Rightarrow>
    fault + ('s \<times> 'n agent \<times> agent_thread option \<times> nat)"
where
  "agent_main_message sk net ad s agent_sd ag m =
     (if ad_stream ad \<noteq> 0 then Inr (s, ag, None, 0)
      else if cm_notification m then
        if length (cm_bytes m) < 2 then Inl Uninit_Read else Inr (s, ag, None, 0)
      else if cm_type m = CLARA_MSG_PROVIDER \<or> cm_type m = CLARA_MSG_CONSUMER then
        rbind (if cm_type m = CLARA_MSG_PROVIDER then admit_provider sk s ag agent_sd ad (cm_from m)
               else admit_consumer sk s ag agent_sd ad (cm_from m)) (\<lambda>(s1, ag1, type, sd, thread).
        rbind (clara_sendmsg net (ag_net ag1) sd type [] (cm_from m)) (\<lambda>(n, ssz).
        Inr (s1, ag1\<lparr>ag_net := n\<rparr>, thread, if ssz = None then 6 else 0)))
      else Inr (s, ag, None, 0))"

definition agent_main_step ::
  "'s sockets \<Rightarrow> 'n sctp \<Rightarrow> admission \<Rightarrow> 's \<Rightarrow> sd \<Rightarrow> 'n agent \<Rightarrow>
    fault + ('s \<times> 'n agent \<times> agent_thread option \<times> nat)"
where
  "agent_main_step sk net ad s agent_sd ag =
     rbind (clara_recvmsg net (ag_net ag) agent_sd CLARA_MSG_INVALID AGENT_RECVBUFSZ) (\<lambda>(n, r).
     case r of
       None \<Rightarrow> Inr (s, ag\<lparr>ag_net := n\<rparr>, None, 5)
     | Some m \<Rightarrow> agent_main_message sk net ad s agent_sd (ag\<lparr>ag_net := n\<rparr>) m)"

end
