(* ===== verification/Query_Laws.thy ===== *)
theory Query_Laws
  imports Agent_Query
begin

text \<open>
  What the searches and answers of \<open>Agent_Query\<close> compute: the loops over the agent's sets only
  move the traversers, a search finds the first match in the order of the sets, and an answer
  is the value asked for.
\<close>

section \<open>Up to the traversers\<close>

definition no_trav :: "'v cset \<Rightarrow> 'v cset" where
  "no_trav s = s\<lparr>cs_trav := cs_trav (set_create :: 'v cset)\<rparr>"

definition agent_view :: "'n agent \<Rightarrow> 'n agent" where
  "agent_view ag =
     ag\<lparr>ag_providers := no_trav (ag_providers ag),
        ag_provider_heap := (\<lambda>v. map_option (\<lambda>pv. pv\<lparr>pv_platforms := no_trav (pv_platforms pv)\<rparr>) (ag_provider_heap ag v)),
        ag_platform_heap := (\<lambda>p. map_option (\<lambda>pf. pf\<lparr>pf_devices := no_trav (pf_devices pf)\<rparr>) (ag_platform_heap ag p))\<rparr>"

lemma no_trav_upd [simp]: "no_trav (s\<lparr>cs_trav := tr\<rparr>) = no_trav s"
  by (simp add: no_trav_def)

lemma no_trav_eqD: "no_trav s' = no_trav s \<Longrightarrow> \<exists>tr. s' = s\<lparr>cs_trav := tr\<rparr>"
  by (cases s; cases s') (auto simp: no_trav_def)

lemma view_fields:
  assumes "agent_view ag' = agent_view ag"
  shows "ag_load_balancing ag' = ag_load_balancing ag" "ag_consumers ag' = ag_consumers ag"
    "ag_id_pool ag' = ag_id_pool ag" "ag_objects ag' = ag_objects ag"
    "ag_lb_platforms ag' = ag_lb_platforms ag" "ag_object_heap ag' = ag_object_heap ag"
    "ag_consumer_heap ag' = ag_consumer_heap ag" "ag_device_heap ag' = ag_device_heap ag"
    "ag_mem ag' = ag_mem ag" "ag_next ag' = ag_next ag" "ag_net ag' = ag_net ag"
  using arg_cong [OF assms, of ag_load_balancing]
    arg_cong [OF assms, of ag_consumers]
    arg_cong [OF assms, of ag_id_pool]
    arg_cong [OF assms, of ag_objects]
    arg_cong [OF assms, of ag_lb_platforms]
    arg_cong [OF assms, of ag_object_heap]
    arg_cong [OF assms, of ag_consumer_heap]
    arg_cong [OF assms, of ag_device_heap]
    arg_cong [OF assms, of ag_mem]
    arg_cong [OF assms, of ag_next]
    arg_cong [OF assms, of ag_net]
  by (simp_all add: agent_view_def)

lemma view_parts:
  assumes "agent_view ag' = agent_view ag"
  shows "no_trav (ag_providers ag') = no_trav (ag_providers ag)"
    "map_option (\<lambda>pv. pv\<lparr>pv_platforms := no_trav (pv_platforms pv)\<rparr>) (ag_provider_heap ag' v) =
     map_option (\<lambda>pv. pv\<lparr>pv_platforms := no_trav (pv_platforms pv)\<rparr>) (ag_provider_heap ag v)"
    "map_option (\<lambda>pf. pf\<lparr>pf_devices := no_trav (pf_devices pf)\<rparr>) (ag_platform_heap ag' p) =
     map_option (\<lambda>pf. pf\<lparr>pf_devices := no_trav (pf_devices pf)\<rparr>) (ag_platform_heap ag p)"
  using arg_cong [OF assms, of ag_providers] fun_cong [OF arg_cong [OF assms, of ag_provider_heap], of v]
    fun_cong [OF arg_cong [OF assms, of ag_platform_heap], of p]
  by (simp_all add: agent_view_def)

lemma view_provider:
  assumes "agent_view ag' = agent_view ag" and "ag_provider_heap ag v = Some pv"
  shows "\<exists>tr. ag_provider_heap ag' v = Some (pv\<lparr>pv_platforms := (pv_platforms pv)\<lparr>cs_trav := tr\<rparr>\<rparr>)"
proof -
  from view_parts(2) [OF assms(1), of v] assms(2) obtain pv' where pv': "ag_provider_heap ag' v = Some pv'"
    "pv'\<lparr>pv_platforms := no_trav (pv_platforms pv')\<rparr> = pv\<lparr>pv_platforms := no_trav (pv_platforms pv)\<rparr>"
    by auto
  then have "no_trav (pv_platforms pv') = no_trav (pv_platforms pv)"
    by (metis agent_provider.select_convs(5) agent_provider.surjective agent_provider.update_convs(5))
  from no_trav_eqD [OF this] obtain tr where "pv_platforms pv' = (pv_platforms pv)\<lparr>cs_trav := tr\<rparr>" by blast
  with pv' show ?thesis by (cases pv; cases pv') auto
qed

lemma view_platform:
  assumes "agent_view ag' = agent_view ag" and "ag_platform_heap ag p = Some pf"
  shows "\<exists>tr. ag_platform_heap ag' p = Some (pf\<lparr>pf_devices := (pf_devices pf)\<lparr>cs_trav := tr\<rparr>\<rparr>)"
proof -
  from view_parts(3) [OF assms(1), of p] assms(2) obtain pf' where pf': "ag_platform_heap ag' p = Some pf'"
    "pf'\<lparr>pf_devices := no_trav (pf_devices pf')\<rparr> = pf\<lparr>pf_devices := no_trav (pf_devices pf)\<rparr>"
    by auto
  then have "no_trav (pf_devices pf') = no_trav (pf_devices pf)"
    by (metis agent_platform.select_convs(10) agent_platform.surjective agent_platform.update_convs(10))
  from no_trav_eqD [OF this] obtain tr where "pf_devices pf' = (pf_devices pf)\<lparr>cs_trav := tr\<rparr>" by blast
  with pf' show ?thesis by (cases pf; cases pf') auto
qed

lemma view_upd [simp]:
  "agent_view (ag\<lparr>ag_providers := s\<lparr>cs_trav := tr\<rparr>\<rparr>) = agent_view (ag\<lparr>ag_providers := s\<rparr>)"
  by (simp add: agent_view_def)

lemma view_put_provider:
  assumes "ag_provider_heap ag v = Some pv"
  shows "agent_view (put_provider ag v (pv\<lparr>pv_platforms := (pv_platforms pv)\<lparr>cs_trav := tr\<rparr>\<rparr>)) = agent_view ag"
proof -
  have "(\<lambda>u. map_option (\<lambda>pv. pv\<lparr>pv_platforms := no_trav (pv_platforms pv)\<rparr>)
      (((ag_provider_heap ag)(v \<mapsto> pv\<lparr>pv_platforms := (pv_platforms pv)\<lparr>cs_trav := tr\<rparr>\<rparr>)) u)) =
    (\<lambda>u. map_option (\<lambda>pv. pv\<lparr>pv_platforms := no_trav (pv_platforms pv)\<rparr>) (ag_provider_heap ag u))"
    using assms by auto
  then show ?thesis by (simp add: agent_view_def put_provider_def)
qed

lemma view_put_platform:
  assumes "ag_platform_heap ag p = Some pf"
  shows "agent_view (put_platform ag p (pf\<lparr>pf_devices := (pf_devices pf)\<lparr>cs_trav := tr\<rparr>\<rparr>)) = agent_view ag"
proof -
  have "(\<lambda>u. map_option (\<lambda>pf. pf\<lparr>pf_devices := no_trav (pf_devices pf)\<rparr>)
      (((ag_platform_heap ag)(p \<mapsto> pf\<lparr>pf_devices := (pf_devices pf)\<lparr>cs_trav := tr\<rparr>\<rparr>)) u)) =
    (\<lambda>u. map_option (\<lambda>pf. pf\<lparr>pf_devices := no_trav (pf_devices pf)\<rparr>) (ag_platform_heap ag u))"
    using assms by auto
  then show ?thesis by (simp add: agent_view_def put_platform_def)
qed

section \<open>Loops\<close>

text \<open>The loop over a list with a body that always succeeds, on the part of the state that counts.\<close>

fun pure_loop :: "('v \<Rightarrow> 'b \<Rightarrow> bool \<times> 'b) \<Rightarrow> 'v list \<Rightarrow> 'b \<Rightarrow> 'b" where
  "pure_loop h [] b = b"
| "pure_loop h (x # xs) b = (if fst (h x b) then snd (h x b) else pure_loop h xs (snd (h x b)))"

lemma list_loop_pure:
  assumes step: "\<And>x ag b. x \<in> set xs \<Longrightarrow> Q ag b \<Longrightarrow>
      \<exists>ag'. f x (ag, b) = Inr (fst (h x b), ag', snd (h x b)) \<and> Q ag' (snd (h x b))"
  shows "Q ag b \<Longrightarrow> \<exists>ag'. list_loop f xs (ag, b) = Inr (ag', pure_loop h xs b) \<and> Q ag' (pure_loop h xs b)"
  using step
proof (induction xs arbitrary: ag b)
  case (Cons x xs)
  from Cons.prems(2) [of x ag b] Cons.prems(1) obtain ag1 where
    ag1: "f x (ag, b) = Inr (fst (h x b), ag1, snd (h x b))" "Q ag1 (snd (h x b))" by auto
  show ?case
  proof (cases "fst (h x b)")
    case True
    with ag1 show ?thesis by auto
  next
    case False
    from Cons.IH [OF ag1(2)] Cons.prems(2) obtain ag2 where
      "list_loop f xs (ag1, snd (h x b)) = Inr (ag2, pure_loop h xs (snd (h x b)))"
      "Q ag2 (pure_loop h xs (snd (h x b)))" by auto
    with ag1 False show ?thesis by auto
  qed
qed simp

lemma set_foreach_pure:
  assumes "set_wf s" and "set_room s" and "Q ag b"
    and "\<And>x ag b. x \<in> set (set_elems s) \<Longrightarrow> Q ag b \<Longrightarrow>
      \<exists>ag'. f x (ag, b) = Inr (fst (h x b), ag', snd (h x b)) \<and> Q ag' (snd (h x b))"
  shows "\<exists>ag' tr. set_foreach f s (ag, b) = Inr (s\<lparr>cs_trav := tr\<rparr>, ag', pure_loop h (set_elems s) b) \<and>
    Q ag' (pure_loop h (set_elems s) b)"
proof -
  from list_loop_pure [of "set_elems s" Q f h ag b, OF assms(4,3)] obtain ag' where
    "list_loop f (set_elems s) (ag, b) = Inr (ag', pure_loop h (set_elems s) b)"
    "Q ag' (pure_loop h (set_elems s) b)" by blast
  with set_foreach_correct [OF assms(1,2), of f "(ag, b)"] show ?thesis by auto
qed

lemma pure_loop_find:
  "pure_loop (\<lambda>x b. (P x, if P x then g x else z)) xs b =
    (if xs = [] then b else case find P xs of None \<Rightarrow> z | Some x \<Rightarrow> g x)"
  by (induction xs arbitrary: b) auto

section \<open>The agent's tree\<close>

text \<open>Providers, their platforms and their devices are live, and their sets well formed.\<close>

definition platform_ok :: "'n agent \<Rightarrow> nat \<Rightarrow> bool" where
  "platform_ok ag p \<longleftrightarrow> p \<noteq> 0 \<and> (\<exists>pf. ag_platform_heap ag p = Some pf \<and> set_wf (pf_devices pf) \<and>
     set_room (pf_devices pf) \<and>
     (\<forall>d\<in>set (set_elems (pf_devices pf)). d \<noteq> 0 \<and> ag_device_heap ag d \<noteq> None))"

definition provider_ok :: "'n agent \<Rightarrow> nat \<Rightarrow> bool" where
  "provider_ok ag v \<longleftrightarrow> v \<noteq> 0 \<and> (\<exists>pv. ag_provider_heap ag v = Some pv \<and> set_wf (pv_platforms pv) \<and>
     set_room (pv_platforms pv) \<and> (\<forall>p\<in>set (set_elems (pv_platforms pv)). platform_ok ag p))"

definition topo_inv :: "'n agent \<Rightarrow> bool" where
  "topo_inv ag \<longleftrightarrow> set_wf (ag_providers ag) \<and> set_room (ag_providers ag) \<and>
     (\<forall>v\<in>set (set_elems (ag_providers ag)). provider_ok ag v)"

definition provider_seq :: "'n agent \<Rightarrow> nat list" where
  "provider_seq ag = set_elems (ag_providers ag)"

definition platform_list :: "'n agent \<Rightarrow> nat \<Rightarrow> nat list" where
  "platform_list ag v = set_elems (pv_platforms (the (ag_provider_heap ag v)))"

definition all_platforms :: "'n agent \<Rightarrow> nat list" where
  "all_platforms ag = concat (map (platform_list ag) (provider_seq ag))"

definition the_platform :: "'n agent \<Rightarrow> nat \<Rightarrow> agent_platform" where
  "the_platform ag p = the (ag_platform_heap ag p)"

lemma for_platforms_view:
  assumes v: "provider_ok ag v" and ag1: "agent_view ag1 = agent_view ag"
    and step: "\<And>p ag' b. p \<in> set (platform_list ag v) \<Longrightarrow> agent_view ag' = agent_view ag \<Longrightarrow>
      \<exists>ag''. f p (ag', b) = Inr (fst (h p b), ag'', snd (h p b)) \<and> agent_view ag'' = agent_view ag"
  shows "\<exists>ag'. for_platforms f ag1 v b = Inr (ag', pure_loop h (platform_list ag v) b) \<and>
    agent_view ag' = agent_view ag"
proof -
  from v obtain pv where pv: "v \<noteq> 0" "ag_provider_heap ag v = Some pv" "set_wf (pv_platforms pv)"
    "set_room (pv_platforms pv)" by (auto simp: provider_ok_def)
  from view_provider [OF ag1 pv(2)] obtain tr where
    tr: "ag_provider_heap ag1 v = Some (pv\<lparr>pv_platforms := (pv_platforms pv)\<lparr>cs_trav := tr\<rparr>\<rparr>)" by blast
  let ?s = "(pv_platforms pv)\<lparr>cs_trav := tr\<rparr>"
  have elems: "set_elems ?s = platform_list ag v" using pv(2) by (simp add: platform_list_def)
  have "\<exists>ag' tr. set_foreach f ?s (ag1, b) = Inr (?s\<lparr>cs_trav := tr\<rparr>, ag', pure_loop h (set_elems ?s) b) \<and>
      agent_view ag' = agent_view ag"
    by (rule set_foreach_pure [where Q = "\<lambda>a _. agent_view a = agent_view ag"])
       (use pv(3,4) ag1 step elems in simp_all)
  then obtain ag' tr' where loop:
    "set_foreach f ?s (ag1, b) = Inr ((pv_platforms pv)\<lparr>cs_trav := tr'\<rparr>, ag', pure_loop h (platform_list ag v) b)"
    "agent_view ag' = agent_view ag" using elems by auto
  from view_provider [OF loop(2) pv(2)] obtain tr'' where
    tr'': "ag_provider_heap ag' v = Some (pv\<lparr>pv_platforms := (pv_platforms pv)\<lparr>cs_trav := tr''\<rparr>\<rparr>)" by blast
  from view_put_provider [OF tr'', of tr'] loop(2) have
    "agent_view (put_provider ag' v (pv\<lparr>pv_platforms := (pv_platforms pv)\<lparr>cs_trav := tr'\<rparr>\<rparr>)) = agent_view ag"
    by simp
  then show ?thesis using pv(1) tr loop(1) tr'' by (simp add: for_platforms_def deref_def)
qed

lemma for_providers_view:
  assumes topo: "topo_inv ag" and ag1: "agent_view ag1 = agent_view ag"
    and step: "\<And>v ag' b. v \<in> set (provider_seq ag) \<Longrightarrow> agent_view ag' = agent_view ag \<Longrightarrow>
      \<exists>ag''. f v (ag', b) = Inr (fst (h v b), ag'', snd (h v b)) \<and> agent_view ag'' = agent_view ag"
  shows "\<exists>ag'. for_providers f ag1 b = Inr (ag', pure_loop h (provider_seq ag) b) \<and>
    agent_view ag' = agent_view ag"
proof -
  from no_trav_eqD [OF view_parts(1) [OF ag1]] obtain tr where
    tr: "ag_providers ag1 = (ag_providers ag)\<lparr>cs_trav := tr\<rparr>" by blast
  let ?s = "(ag_providers ag)\<lparr>cs_trav := tr\<rparr>"
  have elems: "set_elems ?s = provider_seq ag" by (simp add: provider_seq_def)
  have "\<exists>ag' tr. set_foreach f ?s (ag1, b) = Inr (?s\<lparr>cs_trav := tr\<rparr>, ag', pure_loop h (set_elems ?s) b) \<and>
      agent_view ag' = agent_view ag"
    by (rule set_foreach_pure [where Q = "\<lambda>a _. agent_view a = agent_view ag"])
       (use topo ag1 step elems in \<open>simp_all add: topo_inv_def\<close>)
  then obtain ag' tr' where loop:
    "set_foreach f ?s (ag1, b) = Inr ((ag_providers ag)\<lparr>cs_trav := tr'\<rparr>, ag', pure_loop h (provider_seq ag) b)"
    "agent_view ag' = agent_view ag" using elems by auto
  from no_trav_eqD [OF view_parts(1) [OF loop(2)]] obtain tr'' where
    "ag_providers ag' = (ag_providers ag)\<lparr>cs_trav := tr''\<rparr>" by blast
  then have "agent_view (ag'\<lparr>ag_providers := (ag_providers ag)\<lparr>cs_trav := tr'\<rparr>\<rparr>) = agent_view ag'"
    by (simp add: agent_view_def)
  then show ?thesis using tr loop by (simp add: for_providers_def)
qed

section \<open>Searches\<close>

lemma platform_live:
  assumes "topo_inv ag" and "v \<in> set (provider_seq ag)"
  shows "provider_ok ag v" and "p \<in> set (platform_list ag v) \<Longrightarrow> platform_ok ag p"
  using assms by (auto simp: topo_inv_def provider_seq_def provider_ok_def platform_list_def)

text \<open>\<open>k\<close> is the identifier looked for: the local or the global one.\<close>

lemma find_in_platforms_correct:
  assumes v: "provider_ok ag v" and ag1: "agent_view ag1 = agent_view ag"
    and k: "\<And>pf tr. P (pf\<lparr>pf_devices := tr\<rparr>) = P pf"
  shows "\<exists>ag'. find_in_platforms P ag1 v =
      Inr (ag', case find (\<lambda>p. P (the_platform ag p)) (platform_list ag v) of None \<Rightarrow> 0 | Some p \<Rightarrow> p) \<and>
    agent_view ag' = agent_view ag"
proof -
  have step: "\<exists>ag''. (\<lambda>platform (ag', r).
       rbind (deref (ag_platform_heap ag') platform) (\<lambda>pf.
       Inr (if P pf then (True, ag', platform) else (False, ag', 0)))) p (ag', b) =
      Inr (P (the_platform ag p), ag'', if P (the_platform ag p) then p else 0) \<and> agent_view ag'' = agent_view ag"
    if p: "p \<in> set (platform_list ag v)" and ag': "agent_view ag' = agent_view ag" for p ag' b
  proof -
    have "platform_ok ag p" using v p by (auto simp: provider_ok_def platform_list_def)
    then obtain pf where pf: "p \<noteq> 0" "ag_platform_heap ag p = Some pf" by (auto simp: platform_ok_def)
    from view_platform [OF ag' pf(2)] obtain tr where
      "ag_platform_heap ag' p = Some (pf\<lparr>pf_devices := (pf_devices pf)\<lparr>cs_trav := tr\<rparr>\<rparr>)" by blast
    with pf ag' k show ?thesis by (simp add: deref_def the_platform_def)
  qed
  have "pure_loop (\<lambda>p b. (P (the_platform ag p), if P (the_platform ag p) then p else 0)) (platform_list ag v) 0 =
      (case find (\<lambda>p. P (the_platform ag p)) (platform_list ag v) of None \<Rightarrow> 0 | Some p \<Rightarrow> p)"
    by (auto simp: pure_loop_find split: option.splits)
  with for_platforms_view [OF v ag1, where
      h = "\<lambda>p b. (P (the_platform ag p), if P (the_platform ag p) then p else 0)" and b = 0] step
  show ?thesis unfolding find_in_platforms_def by fastforce
qed

lemma find_app: "find P (xs @ ys) = (case find P xs of None \<Rightarrow> find P ys | Some x \<Rightarrow> Some x)"
  by (induction xs) auto

lemma pure_loop_nested:
  assumes "\<And>x y. x \<in> set xs \<Longrightarrow> y \<in> set (f x) \<Longrightarrow> y \<noteq> (0::nat)"
    and g_def: "g = (\<lambda>x. case find P (f x) of None \<Rightarrow> 0 | Some y \<Rightarrow> y)"
  shows "pure_loop (\<lambda>x b. (g x \<noteq> 0, w (g x))) xs b =
    (if xs = [] then b else w (case find P (concat (map f xs)) of None \<Rightarrow> 0 | Some y \<Rightarrow> y))"
  using assms(1)
proof (induction xs arbitrary: b)
  case (Cons x xs)
  show ?case
  proof (cases "find P (f x)")
    case None
    then have "g x = 0" by (simp add: g_def)
    moreover have "pure_loop (\<lambda>x b. (g x \<noteq> 0, w (g x))) xs (w 0) =
        (if xs = [] then w 0 else w (case find P (concat (map f xs)) of None \<Rightarrow> 0 | Some y \<Rightarrow> y))"
      by (rule Cons.IH) (use Cons.prems in auto)
    ultimately show ?thesis using None by (auto simp: find_app)
  next
    case (Some y)
    then have "y \<in> set (f x)" by (auto simp: find_Some_iff)
    with Cons.prems [of x y] Some have "g x = y" "y \<noteq> 0" by (auto simp: g_def)
    with Some show ?thesis by (simp add: find_app)
  qed
qed simp

lemma pure_loop_nested0:
  assumes "\<And>x y. x \<in> set xs \<Longrightarrow> y \<in> set (f x) \<Longrightarrow> y \<noteq> (0::nat)"
    and "g = (\<lambda>x. case find P (f x) of None \<Rightarrow> 0 | Some y \<Rightarrow> y)"
  shows "pure_loop (\<lambda>x b. (g x \<noteq> 0, g x)) xs 0 =
    (case find P (concat (map f xs)) of None \<Rightarrow> 0 | Some y \<Rightarrow> y)"
proof -
  have "pure_loop (\<lambda>x b. (g x \<noteq> 0, (\<lambda>y. y) (g x))) xs 0 = (if xs = [] then 0
      else (\<lambda>y. y) (case find P (concat (map f xs)) of None \<Rightarrow> 0 | Some y \<Rightarrow> y))"
    by (rule pure_loop_nested [OF _ assms(2)]) (rule assms(1))
  then show ?thesis by (cases xs) simp_all
qed

text \<open>The first platform with the identifier, in the order of the sets; there must be a provider.\<close>

definition first_platform :: "'n agent \<Rightarrow> global_id \<Rightarrow> nat" where
  "first_platform ag i =
     (case find (\<lambda>p. pf_global_id (the_platform ag p) = i) (all_platforms ag) of None \<Rightarrow> 0 | Some p \<Rightarrow> p)"

lemma agent_find_platform_correct:
  assumes topo: "topo_inv ag" and some: "provider_seq ag \<noteq> []"
  shows "\<exists>ag'. agent_find_platform_by_global_id ag i = Inr (ag', first_platform ag i) \<and>
    agent_view ag' = agent_view ag"
proof -
  let ?P = "\<lambda>pf. pf_global_id pf = i"
  let ?g = "\<lambda>v. case find (\<lambda>p. ?P (the_platform ag p)) (platform_list ag v) of None \<Rightarrow> 0 | Some p \<Rightarrow> p"
  let ?f = "\<lambda>provider (ag', _). rbind (find_in_platforms ?P ag' provider) (\<lambda>(ag'', platform).
      Inr (platform \<noteq> 0, ag'', Some platform))"
  let ?h = "\<lambda>v (b :: nat option). (?g v \<noteq> 0, Some (?g v))"
  have step: "\<exists>ag''. ?f v (ag', b) = Inr (fst (?h v b), ag'', snd (?h v b)) \<and> agent_view ag'' = agent_view ag"
    if v: "v \<in> set (provider_seq ag)" "agent_view ag' = agent_view ag" for v ag' b
    using find_in_platforms_correct [OF platform_live(1) [OF topo v(1)] v(2), of ?P] by auto
  have nz: "p \<noteq> 0" if "v \<in> set (provider_seq ag)" "p \<in> set (platform_list ag v)" for v p
    using platform_live(2) [OF topo that] by (simp add: platform_ok_def)
  have "pure_loop ?h (provider_seq ag) None = Some (first_platform ag i)"
    using pure_loop_nested [of "provider_seq ag" "platform_list ag" ?g "\<lambda>p. ?P (the_platform ag p)" Some None] nz some
    by (simp add: first_platform_def all_platforms_def)
  moreover have "\<exists>ag'. for_providers ?f ag None = Inr (ag', pure_loop ?h (provider_seq ag) None) \<and>
      agent_view ag' = agent_view ag"
    by (rule for_providers_view [OF topo refl]) (rule step)
  ultimately show ?thesis by (auto simp: agent_find_platform_by_global_id_def)
qed

text \<open>Without a provider the search returns what its variable happens to hold.\<close>

lemma agent_find_platform_no_provider:
  assumes "topo_inv ag" and "provider_seq ag = []"
  shows "agent_find_platform_by_global_id ag i = Inl Uninit_Read"
proof -
  from set_foreach_correct [of "ag_providers ag" "\<lambda>provider (ag', _).
         rbind (find_in_platforms (\<lambda>pf. pf_global_id pf = i) ag' provider) (\<lambda>(ag'', platform).
         Inr (platform \<noteq> 0, ag'', Some platform))" "(ag, None)"] assms
  show ?thesis
    by (auto simp: agent_find_platform_by_global_id_def for_providers_def topo_inv_def provider_seq_def)
qed

text \<open>The same for devices.\<close>

definition device_list :: "'n agent \<Rightarrow> nat \<Rightarrow> nat list" where
  "device_list ag p = set_elems (pf_devices (the_platform ag p))"

definition all_devices :: "'n agent \<Rightarrow> nat list" where
  "all_devices ag = concat (map (device_list ag) (all_platforms ag))"

definition the_device :: "'n agent \<Rightarrow> nat \<Rightarrow> agent_device" where
  "the_device ag d = the (ag_device_heap ag d)"

definition first_device :: "'n agent \<Rightarrow> global_id \<Rightarrow> nat" where
  "first_device ag i =
     (case find (\<lambda>d. dv_global_id (the_device ag d) = i) (all_devices ag) of None \<Rightarrow> 0 | Some d \<Rightarrow> d)"

lemma for_devices_view:
  assumes p: "platform_ok ag p" and ag1: "agent_view ag1 = agent_view ag"
    and step: "\<And>d ag' b. d \<in> set (device_list ag p) \<Longrightarrow> agent_view ag' = agent_view ag \<Longrightarrow>
      \<exists>ag''. f d (ag', b) = Inr (fst (h d b), ag'', snd (h d b)) \<and> agent_view ag'' = agent_view ag"
  shows "\<exists>ag'. for_devices f ag1 p b = Inr (ag', pure_loop h (device_list ag p) b) \<and>
    agent_view ag' = agent_view ag"
proof -
  from p obtain pf where pf: "p \<noteq> 0" "ag_platform_heap ag p = Some pf" "set_wf (pf_devices pf)"
    "set_room (pf_devices pf)" by (auto simp: platform_ok_def)
  from view_platform [OF ag1 pf(2)] obtain tr where
    tr: "ag_platform_heap ag1 p = Some (pf\<lparr>pf_devices := (pf_devices pf)\<lparr>cs_trav := tr\<rparr>\<rparr>)" by blast
  let ?s = "(pf_devices pf)\<lparr>cs_trav := tr\<rparr>"
  have elems: "set_elems ?s = device_list ag p" using pf(2) by (simp add: device_list_def the_platform_def)
  have "\<exists>ag' tr. set_foreach f ?s (ag1, b) = Inr (?s\<lparr>cs_trav := tr\<rparr>, ag', pure_loop h (set_elems ?s) b) \<and>
      agent_view ag' = agent_view ag"
    by (rule set_foreach_pure [where Q = "\<lambda>a _. agent_view a = agent_view ag"])
       (use pf(3,4) ag1 step elems in simp_all)
  then obtain ag' tr' where loop:
    "set_foreach f ?s (ag1, b) = Inr ((pf_devices pf)\<lparr>cs_trav := tr'\<rparr>, ag', pure_loop h (device_list ag p) b)"
    "agent_view ag' = agent_view ag" using elems by auto
  from view_platform [OF loop(2) pf(2)] obtain tr'' where
    tr'': "ag_platform_heap ag' p = Some (pf\<lparr>pf_devices := (pf_devices pf)\<lparr>cs_trav := tr''\<rparr>\<rparr>)" by blast
  from view_put_platform [OF tr'', of tr'] loop(2) have
    "agent_view (put_platform ag' p (pf\<lparr>pf_devices := (pf_devices pf)\<lparr>cs_trav := tr'\<rparr>\<rparr>)) = agent_view ag"
    by simp
  then show ?thesis using pf(1) tr loop(1) tr'' by (simp add: for_devices_def deref_def)
qed

lemma concat_map_concat: "concat (map f (concat xss)) = concat (map (\<lambda>xs. concat (map f xs)) xss)"
  by (induction xss) auto

lemma agent_find_device_correct:
  assumes topo: "topo_inv ag"
  shows "\<exists>ag'. agent_find_device_by_global_id ag i = Inr (ag', first_device ag i) \<and>
    agent_view ag' = agent_view ag"
proof -
  let ?P = "\<lambda>d. dv_global_id (the_device ag d) = i"
  let ?or0 = "\<lambda>r :: nat option. case r of None \<Rightarrow> 0 | Some d \<Rightarrow> d"
  let ?gd = "\<lambda>p. ?or0 (find ?P (device_list ag p))"
  let ?gp = "\<lambda>v. ?or0 (find ?P (concat (map (device_list ag) (platform_list ag v))))"
  let ?fd = "\<lambda>device (ag3, _). rbind (deref (ag_device_heap ag3) device) (\<lambda>dv.
      Inr (if dv_global_id dv = i then (True, ag3, device) else (False, ag3, 0)))"
  let ?fp = "\<lambda>platform (ag2, _). rbind (for_devices ?fd ag2 platform 0) (\<lambda>(ag3, device).
      Inr (device \<noteq> 0, ag3, device))"
  let ?fv = "\<lambda>provider (ag1, _). rbind (for_platforms ?fp ag1 provider 0) (\<lambda>(ag2, device).
      Inr (device \<noteq> 0, ag2, device))"
  have pok: "platform_ok ag p" if "v \<in> set (provider_seq ag)" "p \<in> set (platform_list ag v)" for v p
    using platform_live(2) [OF topo that] .
  have dnz: "d \<noteq> 0 \<and> ag_device_heap ag d \<noteq> None" if "platform_ok ag p" "d \<in> set (device_list ag p)" for p d
    using that by (auto simp: platform_ok_def device_list_def the_platform_def)
  have dev: "\<exists>ag''. for_devices ?fd ag' p 0 = Inr (ag'', ?gd p) \<and> agent_view ag'' = agent_view ag"
    if p: "platform_ok ag p" and ag': "agent_view ag' = agent_view ag" for p ag'
  proof -
    have "\<exists>ag''. for_devices ?fd ag' p 0 =
        Inr (ag'', pure_loop (\<lambda>d b. (?P d, if ?P d then d else 0)) (device_list ag p) 0) \<and>
        agent_view ag'' = agent_view ag"
    proof (rule for_devices_view [OF p ag'])
      fix d ag' b assume d: "d \<in> set (device_list ag p)" and v: "agent_view ag' = agent_view ag"
      from dnz [OF p d] obtain dv where "d \<noteq> 0" "ag_device_heap ag' d = Some dv" "the_device ag d = dv"
        using view_fields(8) [OF v] by (auto simp: the_device_def)
      with v show "\<exists>ag''. ?fd d (ag', b) =
          Inr (fst (?P d, if ?P d then d else 0), ag'', snd (?P d, if ?P d then d else 0)) \<and>
          agent_view ag'' = agent_view ag" by (simp add: deref_def)
    qed
    then show ?thesis unfolding pure_loop_find by (auto split: option.splits)
  qed
  have plat: "\<exists>ag''. for_platforms ?fp ag' v 0 = Inr (ag'', ?gp v) \<and> agent_view ag'' = agent_view ag"
    if v: "v \<in> set (provider_seq ag)" and ag': "agent_view ag' = agent_view ag" for v ag'
  proof -
    let ?h = "\<lambda>p (b :: nat). (?gd p \<noteq> 0, ?gd p)"
    have "\<exists>ag''. for_platforms ?fp ag' v 0 = Inr (ag'', pure_loop ?h (platform_list ag v) 0) \<and>
        agent_view ag'' = agent_view ag"
    proof (rule for_platforms_view [OF platform_live(1) [OF topo v] ag'])
      fix p ag' b assume "p \<in> set (platform_list ag v)" "agent_view ag' = agent_view ag"
      with dev [OF pok [OF v]] show "\<exists>ag''. ?fp p (ag', b) = Inr (fst (?h p b), ag'', snd (?h p b)) \<and>
          agent_view ag'' = agent_view ag" by fastforce
    qed
    moreover have "pure_loop ?h (platform_list ag v) 0 = ?gp v"
      by (rule pure_loop_nested0) (use pok [OF v] dnz in auto)
    ultimately show ?thesis by simp
  qed
  let ?h = "\<lambda>v (b :: nat). (?gp v \<noteq> 0, ?gp v)"
  have "\<exists>ag'. for_providers ?fv ag 0 = Inr (ag', pure_loop ?h (provider_seq ag) 0) \<and>
      agent_view ag' = agent_view ag"
  proof (rule for_providers_view [OF topo refl])
    fix v ag' b assume "v \<in> set (provider_seq ag)" "agent_view ag' = agent_view ag"
    with plat show "\<exists>ag''. ?fv v (ag', b) = Inr (fst (?h v b), ag'', snd (?h v b)) \<and>
        agent_view ag'' = agent_view ag" by fastforce
  qed
  moreover have "pure_loop ?h (provider_seq ag) 0 = first_device ag i"
    unfolding first_device_def all_devices_def all_platforms_def concat_map_concat map_map o_def
    by (rule pure_loop_nested0) (use pok dnz in auto)
  ultimately show ?thesis by (simp add: agent_find_device_by_global_id_def)
qed

section \<open>Answers\<close>

text \<open>A live pointer to at least \<open>n\<close> bytes among the arguments.\<close>

definition points_to :: "memory \<Rightarrow> arg \<Rightarrow> nat \<Rightarrow> bool" where
  "points_to m p n \<longleftrightarrow> ARG2PTR p \<noteq> 0 \<and> (\<exists>bs. mm_blocks m (ARG2PTR p) = Some bs \<and> n \<le> length bs)"

definition only_memory :: "'n agent \<Rightarrow> 'n agent \<Rightarrow> bool" where
  "only_memory ag ag' \<longleftrightarrow> agent_view ag' = agent_view ag\<lparr>ag_mem := ag_mem ag'\<rparr>"

text \<open>The memory with bytes at the start of the block behind a pointer; nothing else is touched.\<close>

definition stored :: "memory \<Rightarrow> arg \<Rightarrow> byte list \<Rightarrow> memory" where
  "stored m p bs =
     (if ARG2PTR p = 0 then m
      else m\<lparr>mm_blocks := (mm_blocks m)(ARG2PTR p := map_option (\<lambda>old. bs @ drop (length bs) old) (mm_blocks m (ARG2PTR p)))\<rparr>)"

lemma stored_points [simp]: "points_to m q n \<Longrightarrow> points_to (stored m p bs) q n"
  by (auto simp: points_to_def stored_def)

lemma store_at_stored:
  assumes "points_to (ag_mem ag) p (length bs)"
  shows "store_at ag p 0 bs = Inr (ag\<lparr>ag_mem := stored (ag_mem ag) p bs\<rparr>)"
  using assms by (auto simp: store_at_def points_to_def mem_write_def mem_block_def stored_def)

lemma store_opt_stored:
  assumes "ARG2PTR p \<noteq> 0 \<longrightarrow> points_to (ag_mem ag) p (length bs)"
  shows "store_opt ag p bs = Inr (ag\<lparr>ag_mem := stored (ag_mem ag) p bs\<rparr>)"
  using assms store_at_stored [of ag p bs] by (cases "ARG2PTR p = 0") (simp_all add: store_opt_def stored_def)

lemma view_mem: "agent_view (ag\<lparr>ag_mem := m\<rparr>) = agent_view ag\<lparr>ag_mem := m\<rparr>"
  by (simp add: agent_view_def)

lemma only_memory_upd: "agent_view ag' = agent_view ag \<Longrightarrow> only_memory ag (ag'\<lparr>ag_mem := m\<rparr>)"
  by (simp add: only_memory_def view_mem)

lemma first_platform_live:
  assumes "topo_inv ag" and "first_platform ag i \<noteq> 0"
  shows "platform_ok ag (first_platform ag i)"
proof -
  from assms(2) have "find (\<lambda>p. pf_global_id (the_platform ag p) = i) (all_platforms ag) =
      Some (first_platform ag i)" by (auto simp: first_platform_def split: option.splits)
  then have "first_platform ag i \<in> set (all_platforms ag)" by (auto simp: find_Some_iff)
  with platform_live [OF assms(1)] show ?thesis by (auto simp: all_platforms_def)
qed

lemma first_device_live:
  assumes "topo_inv ag" and "first_device ag i \<noteq> 0"
  shows "ag_device_heap ag (first_device ag i) \<noteq> None"
proof -
  from assms(2) have "find (\<lambda>d. dv_global_id (the_device ag d) = i) (all_devices ag) =
      Some (first_device ag i)" by (auto simp: first_device_def split: option.splits)
  then have "first_device ag i \<in> set (all_devices ag)" by (auto simp: find_Some_iff)
  then obtain v p where v: "v \<in> set (provider_seq ag)" "p \<in> set (platform_list ag v)"
    "first_device ag i \<in> set (device_list ag p)" by (auto simp: all_devices_def all_platforms_def)
  from platform_live(2) [OF assms(1) v(1,2)] v(3) show ?thesis
    by (auto simp: platform_ok_def device_list_def the_platform_def)
qed

text \<open>
  Where an answer goes: \<^verbatim>\<open>param_value_size_ret\<close> is null or has room for the size, and
  \<^verbatim>\<open>param_value\<close> is null or has the room that \<^verbatim>\<open>param_value_size\<close> says, if that is enough.
\<close>

definition answer_room :: "memory \<Rightarrow> arg list \<Rightarrow> nat \<Rightarrow> bool" where
  "answer_room m args n \<longleftrightarrow>
     (ARG2PTR (argv args 5) \<noteq> 0 \<longrightarrow> points_to m (argv args 5) 8) \<and>
     (ARG2PTR (argv args 4) \<noteq> 0 \<longrightarrow> n \<le> unat (argv args 3) \<longrightarrow> points_to m (argv args 4) n)"

text \<open>The memory after an answer: the size, and the value if the consumer has room for it.\<close>

definition answered :: "memory \<Rightarrow> arg list \<Rightarrow> byte list \<Rightarrow> memory" where
  "answered m args s =
     (let m1 = stored m (argv args 5) (enc64 (of_nat (length s)))
      in if length s \<le> unat (argv args 3) then stored m1 (argv args 4) s else m1)"

definition answer_code :: "arg list \<Rightarrow> byte list \<Rightarrow> arg" where
  "answer_code args s =
     (if ARG2PTR (argv args 4) \<noteq> 0 \<and> unat (argv args 3) < length s then CL_INVALID_VALUE else CL_SUCCESS)"

text \<open>The two stores of an answer.\<close>

lemma store_answer:
  assumes "answer_room (ag_mem ag) args (length s)"
  shows "store_opt ag (argv args 5) (enc64 (of_nat (length s))) =
      Inr (ag\<lparr>ag_mem := stored (ag_mem ag) (argv args 5) (enc64 (of_nat (length s)))\<rparr>)" (is "_ = Inr ?ag1")
    and "ARG2PTR (argv args 4) \<noteq> 0 \<Longrightarrow> length s \<le> unat (argv args 3) \<Longrightarrow>
      store_at (ag\<lparr>ag_mem := stored (ag_mem ag) (argv args 5) (enc64 (of_nat (length s)))\<rparr>) (argv args 4) 0 s =
        Inr (ag\<lparr>ag_mem := answered (ag_mem ag) args s\<rparr>)"
    and "ARG2PTR (argv args 4) = 0 \<or> unat (argv args 3) < length s \<Longrightarrow>
      answered (ag_mem ag) args s = stored (ag_mem ag) (argv args 5) (enc64 (of_nat (length s)))"
proof -
  show "store_opt ag (argv args 5) (enc64 (of_nat (length s))) = Inr ?ag1"
    using assms by (intro store_opt_stored) (simp add: answer_room_def)
  show "store_at ?ag1 (argv args 4) 0 s = Inr (ag\<lparr>ag_mem := answered (ag_mem ag) args s\<rparr>)"
    if "ARG2PTR (argv args 4) \<noteq> 0" "length s \<le> unat (argv args 3)"
    using that assms store_at_stored [of ?ag1 "argv args 4" s] by (simp add: answer_room_def answered_def)
  show "answered (ag_mem ag) args s = stored (ag_mem ag) (argv args 5) (enc64 (of_nat (length s)))"
    if "ARG2PTR (argv args 4) = 0 \<or> unat (argv args 3) < length s"
    using that by (auto simp: answered_def stored_def Let_def)
qed

lemma clGetPlatformInfo_correct:
  assumes topo: "topo_inv ag" "provider_seq ag \<noteq> []" and co: "consumer_agent ag source = Inr co"
    and p: "first_platform ag (argv args 1) = p" "p \<noteq> 0"
    and i: "platform_info_of (ucast (argv args 2)) = Some i"
    and s: "platform_param (the_platform ag p) i = Some s" "cstr s"
    and ptr: "ARG2PTR (argv args 5) \<noteq> 0 \<or> ARG2PTR (argv args 4) \<noteq> 0"
    and room: "answer_room (ag_mem ag) args (length s)"
  shows "\<exists>ag'. clara_post_clGetPlatformInfo source ag params args = Inr (ag', argv0 params (answer_code args s), args) \<and>
    only_memory ag ag' \<and> ag_mem ag' = answered (ag_mem ag) args s"
proof -
  from agent_find_platform_correct [OF topo, of "argv args 1"] p(1) obtain ag1 where
    ag1: "agent_find_platform_by_global_id ag (argv args 1) = Inr (ag1, p)" "agent_view ag1 = agent_view ag" by auto
  from first_platform_live [OF topo(1)] p obtain pf where pf: "ag_platform_heap ag p = Some pf"
    by (auto simp: platform_ok_def)
  from view_platform [OF ag1(2) pf] obtain tr where
    tr: "ag_platform_heap ag1 p = Some (pf\<lparr>pf_devices := (pf_devices pf)\<lparr>cs_trav := tr\<rparr>\<rparr>)" by blast
  have param: "platform_param (pf\<lparr>pf_devices := (pf_devices pf)\<lparr>cs_trav := tr\<rparr>\<rparr>) i = Some s"
    using s(1) pf by (cases i) (simp_all add: the_platform_def)
  have len: "strlen s = Inr (length s - 1)" "Suc (length s - 1) = length s"
    using strlen_cstr [OF s(2), of "[]"] s(2) by (simp_all add: cstr_def)
  have mem: "ag_mem ag1 = ag_mem ag" using view_fields(9) [OF ag1(2)] by simp
  then have "answer_room (ag_mem ag1) args (length s)" using room by simp
  note st = store_answer [OF this, unfolded mem]
  have "clara_post_clGetPlatformInfo source ag params args =
      Inr (ag1\<lparr>ag_mem := answered (ag_mem ag) args s\<rparr>, argv0 params (answer_code args s), args)"
  proof (cases "ARG2PTR (argv args 4) \<noteq> 0 \<and> length s \<le> unat (argv args 3)")
    case True
    with co ag1(1) p(2) i tr param len st(1,2) show ?thesis
      by (simp add: clara_post_clGetPlatformInfo_def deref_def answer_code_def)
  next
    case False
    with co ag1(1) p(2) i tr param len st(1,3) ptr show ?thesis
      by (auto simp: clara_post_clGetPlatformInfo_def deref_def answer_code_def)
  qed
  with only_memory_upd [OF ag1(2), of "answered (ag_mem ag) args s"] show ?thesis by auto
qed

text \<open>
  A device's parameter, for a device the agent knows as it was reported. The availability is asked
  anew and is not covered here.
\<close>

lemma clGetDeviceInfo_correct:
  assumes topo: "topo_inv ag" and co: "consumer_agent ag source = Inr co"
    and d: "first_device ag (argv args 1) = d" "d \<noteq> 0"
    and dv: "the_device ag d = reported_device val device_id dv" "\<forall>i. reported val i"
    and i: "device_info_of (ucast (argv args 2)) = Some i" "i \<noteq> DEVICE_AVAILABLE"
    and room: "answer_room (ag_mem ag) args (length (val i))"
  shows "\<exists>ag'. clara_post_clGetDeviceInfo net lz fuel rs source ag params args =
      Inr (ag', argv0 params (answer_code args (val i)), args) \<and>
    only_memory ag ag' \<and> ag_mem ag' = answered (ag_mem ag) args (val i)"
proof -
  from agent_find_device_correct [OF topo, of "argv args 1"] d(1) obtain ag1 where
    ag1: "agent_find_device_by_global_id ag (argv args 1) = Inr (ag1, d)" "agent_view ag1 = agent_view ag" by auto
  from first_device_live [OF topo, of "argv args 1"] d obtain x where x: "ag_device_heap ag d = Some x" by auto
  with dv(1) view_fields(8) [OF ag1(2)] have
    live: "ag_device_heap ag1 d = Some (reported_device val device_id dv)" by (simp add: the_device_def)
  from reported_device_param [OF dv(2) i(2), of 0 device_id dv] obtain bs where
    bs: "device_param 0 (reported_device val device_id dv) (device_field i) = Inr (length (val i), Some bs)"
      "copy_bytes bs (length (val i)) = Inr (val i)" by blast
  have mem: "ag_mem ag1 = ag_mem ag" using view_fields(9) [OF ag1(2)] by simp
  then have "answer_room (ag_mem ag1) args (length (val i))" using room by simp
  note st = store_answer [OF this, unfolded mem]
  have "device_field i \<noteq> Available" using i(2) by (cases i) simp_all
  then have av: "(case device_field i of
        Available \<Rightarrow> rbind (agent_device_is_available net lz fuel rs ag1 d)
          (\<lambda>r. case r of None \<Rightarrow> Inl Out_Of_Fuel | Some x \<Rightarrow> Inr x)
      | _ \<Rightarrow> Inr (ag1, 0)) = Inr (ag1, 0)"
    by (auto split: field_place.splits)
  have "clara_post_clGetDeviceInfo net lz fuel rs source ag params args =
      Inr (ag1\<lparr>ag_mem := answered (ag_mem ag) args (val i)\<rparr>, argv0 params (answer_code args (val i)), args)"
  proof (cases "ARG2PTR (argv args 4) \<noteq> 0 \<and> length (val i) \<le> unat (argv args 3)")
    case True
    with co ag1(1) d(2) i(1) live bs st(1,2) show ?thesis unfolding clara_post_clGetDeviceInfo_def Let_def
      by (simp add: av deref_def answer_code_def)
  next
    case False
    with co ag1(1) d(2) i(1) live bs st(1,3) show ?thesis unfolding clara_post_clGetDeviceInfo_def Let_def
      by (auto simp: av deref_def answer_code_def)
  qed
  with only_memory_upd [OF ag1(2), of "answered (ag_mem ag) args (val i)"] show ?thesis by auto
qed

end
