(* ===== verification/Call_Laws.thy ===== *)
theory Call_Laws
  imports Provider_Handler Query_Laws
begin

text \<open>
  What a consumer's call does in the agent when the network works: the calls of a provider
  bring its answer, \<^verbatim>\<open>agent_execute\<close> runs the handlers of its two tables around it, and the
  memory a consumer allocates in the agent comes back when it is fetched.
\<close>

section \<open>Calls of a provider\<close>

text \<open>A provider that is attached, on channels of its own.\<close>

definition served :: "'n link \<Rightarrow> 'n agent \<Rightarrow> nat \<Rightarrow> agent_provider \<Rightarrow> nat \<Rightarrow> nat \<Rightarrow> bool" where
  "served k ag v pv out inp \<longleftrightarrow> v \<noteq> 0 \<and> ag_provider_heap ag v = Some pv \<and> pv_attached pv \<and>
     lk_out k (pv_sd pv) (pv_addr pv) = out \<and> lk_inp k (pv_sd pv) = inp \<and> out \<noteq> inp \<and>
     lk_ok k (ag_net ag)"

lemma agent_lock_cycle:
  assumes "v \<noteq> 0" and "ag_provider_heap ag v = Some pv"
  shows "\<exists>ag1. provider_lock ag v = Inr ag1 \<and> ag_net ag1 = ag_net ag \<and>
    (\<exists>pv1. ag_provider_heap ag1 v = Some pv1 \<and> pv_sd pv1 = pv_sd pv \<and> pv_addr pv1 = pv_addr pv) \<and>
    (\<forall>s. provider_unlock (ag1\<lparr>ag_net := s\<rparr>) v = Inr (ag\<lparr>ag_net := s\<rparr>))"
  using assms
  by (cases pv; cases ag)
     (auto simp: provider_lock_def provider_unlock_def deref_def put_provider_def fun_upd_idem)

lemma agent_remote_allocate_correct:
  assumes net: "reliable net k" and sv: "served k ag v pv out inp" and lim: "34 + length extra \<le> lk_lim k"
    and q: "lk_queue k (ag_net ag) inp = (enc16 t @ enc64 h) # ms"
  shows "\<exists>s'. agent_remote_allocate net ag v areq extra = Inr (ag\<lparr>ag_net := s'\<rparr>, Some h) \<and>
    moves k (ag_net ag) s' inp ms out
      [enc16 CLARA_MSG_ALLOCATE_REQUEST @ enc_allocate_request areq @ extra]"
proof -
  note sv = sv [unfolded served_def]
  from agent_lock_cycle [of v ag pv] sv obtain ag1 pv1 where
    ag1: "provider_lock ag v = Inr ag1" "ag_net ag1 = ag_net ag" "ag_provider_heap ag1 v = Some pv1"
      "pv_sd pv1 = pv_sd pv" "pv_addr pv1 = pv_addr pv"
      "\<And>s. provider_unlock (ag1\<lparr>ag_net := s\<rparr>) v = Inr (ag\<lparr>ag_net := s\<rparr>)" by auto
  let ?req = "enc_allocate_request areq @ extra"
  have "length ?req + 2 \<le> lk_lim k" using lim by simp
  from sendmsg_adds [OF net _ this, of "ag_net ag" "pv_sd pv" CLARA_MSG_ALLOCATE_REQUEST "pv_addr pv"] sv
  obtain s1 where s1: "clara_sendmsg net (ag_net ag) (pv_sd pv) CLARA_MSG_ALLOCATE_REQUEST ?req (pv_addr pv) =
      Inr (s1, Some (length ?req))" "adds k (ag_net ag) s1 out [enc16 CLARA_MSG_ALLOCATE_REQUEST @ ?req]" by auto
  have "lk_ok k s1" "lk_queue k s1 (lk_inp k (pv_sd pv)) = (enc16 t @ enc64 h) # ms" "length (enc64 h) \<le> 8"
    using s1(2) q sv by (auto simp: adds_def)
  from recvmsg_leaves [OF net this, of CLARA_MSG_ALLOCATE_RESPONSE] obtain s2 fr where
    s2: "clara_recvmsg net s1 (pv_sd pv) CLARA_MSG_ALLOCATE_RESPONSE 8 = Inr (s2, Some \<lparr>cm_type = t,
      cm_bytes = enc64 h, cm_from = fr, cm_notification = False\<rparr>)" "leaves k s1 s2 inp ms" using sv by auto
  have "moves k (ag_net ag) s2 inp ms out [enc16 CLARA_MSG_ALLOCATE_REQUEST @ ?req]"
    using s1(2) s2(2) sv by (auto simp: adds_def leaves_def moves_def fun_upd_twist)
  moreover have "agent_remote_allocate net ag v areq extra = Inr (ag\<lparr>ag_net := s2\<rparr>, Some h)"
    using ag1 s1(1) s2(1) sv by (simp add: agent_remote_allocate_def deref_def)
  ultimately show ?thesis by blast
qed

lemma agent_remote_execute_correct:
  assumes net: "reliable net k" and sv: "served k ag v pv out inp" and lim: "2 + length buf \<le> lk_lim k"
    and q: "lk_queue k (ag_net ag) inp = (enc16 t @ enc64 x) # ms"
  shows "\<exists>s'. agent_remote_execute net ag v buf = Inr (ag\<lparr>ag_net := s'\<rparr>, Some x) \<and>
    moves k (ag_net ag) s' inp ms out [enc16 CLARA_MSG_EXECUTE_REQUEST @ buf]"
proof -
  note sv = sv [unfolded served_def]
  from agent_lock_cycle [of v ag pv] sv obtain ag1 pv1 where
    ag1: "provider_lock ag v = Inr ag1" "ag_net ag1 = ag_net ag" "ag_provider_heap ag1 v = Some pv1"
      "pv_sd pv1 = pv_sd pv" "pv_addr pv1 = pv_addr pv"
      "\<And>s. provider_unlock (ag1\<lparr>ag_net := s\<rparr>) v = Inr (ag\<lparr>ag_net := s\<rparr>)" by auto
  have "length buf + 2 \<le> lk_lim k" using lim by simp
  from sendmsg_adds [OF net _ this, of "ag_net ag" "pv_sd pv" CLARA_MSG_EXECUTE_REQUEST "pv_addr pv"] sv
  obtain s1 where s1: "clara_sendmsg net (ag_net ag) (pv_sd pv) CLARA_MSG_EXECUTE_REQUEST buf (pv_addr pv) =
      Inr (s1, Some (length buf))" "adds k (ag_net ag) s1 out [enc16 CLARA_MSG_EXECUTE_REQUEST @ buf]" by auto
  have "lk_ok k s1" "lk_queue k s1 (lk_inp k (pv_sd pv)) = (enc16 t @ enc64 x) # ms" "length (enc64 x) \<le> 8"
    using s1(2) q sv by (auto simp: adds_def)
  from recvmsg_leaves [OF net this, of CLARA_MSG_EXECUTE_RESPONSE] obtain s2 fr where
    s2: "clara_recvmsg net s1 (pv_sd pv) CLARA_MSG_EXECUTE_RESPONSE 8 = Inr (s2, Some \<lparr>cm_type = t,
      cm_bytes = enc64 x, cm_from = fr, cm_notification = False\<rparr>)" "leaves k s1 s2 inp ms" using sv by auto
  have "moves k (ag_net ag) s2 inp ms out [enc16 CLARA_MSG_EXECUTE_REQUEST @ buf]"
    using s1(2) s2(2) sv by (auto simp: adds_def leaves_def moves_def fun_upd_twist)
  moreover have "agent_remote_execute net ag v buf = Inr (ag\<lparr>ag_net := s2\<rparr>, Some x)"
    using ag1 s1(1) s2(1) sv by (simp add: agent_remote_execute_def deref_def)
  ultimately show ?thesis by blast
qed

section \<open>The tables\<close>

lemma fold_max_base: "b \<le> fold max xs (b :: nat)"
proof (induction xs arbitrary: b)
  case (Cons x xs)
  have "b \<le> max x b" by simp
  also have "\<dots> \<le> fold max xs (max x b)" by (rule Cons)
  finally show ?case by simp
qed simp

lemma fold_max_ge: "x \<in> set xs \<Longrightarrow> x \<le> fold max xs (b :: nat)"
proof (induction xs arbitrary: b)
  case (Cons y xs)
  have "y \<le> fold max xs (max y b)" using fold_max_base [of "max y b" xs] by simp
  with Cons show ?case by auto
qed simp

lemma table_entry:
  assumes "map_of es f = Some e"
  shows "cl_value f < length (fun_table es)" and "fun_table es ! cl_value f = e"
proof -
  have "cl_value f \<in> set (map (\<lambda>(f, _). cl_value f) es)"
    using map_of_SomeD [OF assms] by force
  from fold_max_ge [OF this] show len: "cl_value f < length (fun_table es)"
    by (simp add: fun_table_def less_Suc_eq_le del: upt_Suc)
  with assms show "fun_table es ! cl_value f = e"
    by (simp add: fun_table_def cl_function_of_value del: upt_Suc)
qed

lemma table_no_entry:
  assumes "map_of es f = None"
  shows "cl_value f \<ge> length (fun_table es) \<or> fe_pfn (fun_table es ! cl_value f) = None"
proof (cases "cl_value f < length (fun_table es)")
  case True
  then have "fun_table es ! cl_value f = no_entry"
    using assms by (simp add: fun_table_def cl_function_of_value del: upt_Suc)
  then show ?thesis by (simp add: no_entry_def)
qed simp

lemma ARGS_Nil [simp]: "ARGS [] = 0"
  by (simp add: ARGS_def)

lemma translate_args_none: "n \<le> length args \<Longrightarrow> translate_args id_map 0 w argsel n args = Inr (w, args)"
proof (induction n arbitrary: args argsel)
  case (Suc n)
  then obtain a rest where "args = a # rest" by (cases args) auto
  with Suc show ?case by simp
qed simp

text \<open>A call whose handler takes its arguments as they are.\<close>

lemma clara_execute_plain:
  assumes e: "map_of es f = Some \<lparr>fe_pfn = Some pfn, fe_ptrargs = 0\<rparr>"
    and params: "er_fun params = of_nat (cl_value f)"
    and fni: "opencl_get_clfuninfo f = Inr fni" "fi_argc fni \<le> length args"
  shows "clara_execute (fun_table es) id_map w params args retval =
      rbind (pfn w (params\<lparr>er_retval := retval\<rparr>) args) (\<lambda>(w'', params'', args'').
        Inr (w'', params'', args'', er_retval params'', True))"
proof -
  have argc: "fi_argc fni \<le> MAX_ARGS"
    using opencl_get_clfuninfo_row [of f] fni(1) by (auto simp: MAX_ARGS_def)
  have d: "sint (ucast (er_fun params) :: u32) = int (cl_value f)"
    unfolding params by (rule fun_index [OF cl_value_bound])
  show ?thesis
    using table_entry [OF e] fni argc translate_args_none [OF fni(2), of id_map w 1]
    unfolding clara_execute_def d Let_def nat_int cl_function_of_value by simp
qed

lemma clara_execute_absent:
  assumes "map_of es f = None" and "er_fun params = of_nat (cl_value f)"
  shows "clara_execute (fun_table es) id_map w params args retval = Inr (w, params, args, retval, True)"
  by (rule clara_execute_unknown [OF table_no_entry [OF assms(1)] assms(2)])

section \<open>Calls that create an object\<close>

definition creates :: "cl_function_t \<Rightarrow> bool" where
  "creates f \<longleftrightarrow> f \<in> {CL_CREATECONTEXT, CL_CREATECONTEXTFROMTYPE, CL_CREATECOMMANDQUEUE, CL_CREATEBUFFER,
     CL_CREATEPROGRAMWITHSOURCE, CL_CREATEPROGRAMWITHBINARY, CL_CREATEKERNEL}"

lemma creates_entries:
  assumes "creates f"
  shows "map_of (pre_exec_fun_table_entries source) f = None"
    and "map_of (post_exec_fun_table_entries net lz fuel rs rest target source) f =
      Some \<lparr>fe_pfn = Some (AGENT_GENERIC_CREATE net rs target source), fe_ptrargs = 0\<rparr>"
  using assms by (auto simp: creates_def pre_exec_fun_table_entries_def post_exec_fun_table_entries_def entry_def)

lemma object_create_net:
  assumes "object_create ag v real key = Inr (ag', r)"
  shows "ag_net ag' = ag_net ag" and "ag_provider_heap ag' = ag_provider_heap ag"
  using assms by (auto simp: object_create_def fault_simps put_object_def Let_def split: if_splits)

lemma object_retain_net:
  assumes "object_retain ag p c = Inr (ag', b)"
  shows "ag_net ag' = ag_net ag" and "ag_provider_heap ag' = ag_provider_heap ag"
  using assms
  by (auto simp: object_retain_def object_lock_def object_unlock_def consumer_add_object_def fault_simps
      put_object_def put_consumer_def split: if_splits)

lemma clCreateObject_net:
  assumes "clCreateObject net rs ag v c real 0 = Inr (Some (ag', key))" and "real \<noteq> 0"
  shows "\<exists>ag2 b. agent_remote_map net ag2 v real key = Inr (ag', b) \<and> ag_net ag2 = ag_net ag \<and>
    ag_provider_heap ag2 = ag_provider_heap ag"
proof -
  from assms obtain pool rs' ag1 p ag2 b where
    cr: "object_create (ag\<lparr>ag_id_pool := pool\<rparr>) v real key = Inr (ag1, Some p)"
    and rt: "object_retain ag1 p c = Inr (ag2, True)" and rm: "agent_remote_map net ag2 v real key = Inr (ag', b)"
    by (auto simp: clCreateObject_def fault_simps split: option.splits)
  from object_create_net [OF cr] object_retain_net [OF rt] rm show ?thesis by auto
qed

text \<open>No call changes the socket of a consumer, detaches one or changes a provider.\<close>

definition sockets_of :: "'n agent \<Rightarrow> (nat \<Rightarrow> (sd \<times> bool) option) \<times> (nat \<rightharpoonup> agent_provider)" where
  "sockets_of ag =
     (\<lambda>c. map_option (\<lambda>co. (co_sd co, co_attached co)) (ag_consumer_heap ag c), ag_provider_heap ag)"

definition same_sockets :: "'n agent \<Rightarrow> 'n agent \<Rightarrow> bool" where
  "same_sockets ag ag' \<longleftrightarrow> sockets_of ag' = sockets_of ag"

lemma sockets_of_upd [simp]:
  "sockets_of (ag\<lparr>ag_object_heap := oh\<rparr>) = sockets_of ag" "sockets_of (ag\<lparr>ag_objects := os\<rparr>) = sockets_of ag"
  "sockets_of (ag\<lparr>ag_id_pool := ip\<rparr>) = sockets_of ag" "sockets_of (ag\<lparr>ag_next := n\<rparr>) = sockets_of ag"
  "sockets_of (ag\<lparr>ag_net := net\<rparr>) = sockets_of ag" "sockets_of (put_object ag p ob) = sockets_of ag"
  by (simp_all add: sockets_of_def put_object_def)

lemma same_socketsD:
  assumes "same_sockets ag ag'" and "ag_consumer_heap ag c = Some co"
  shows "\<exists>co'. ag_consumer_heap ag' c = Some co' \<and> co_sd co' = co_sd co \<and> co_attached co' = co_attached co"
proof -
  from assms(1) have "fst (sockets_of ag') c = fst (sockets_of ag) c" by (simp add: same_sockets_def)
  with assms(2) show ?thesis by (auto simp: sockets_of_def)
qed

lemma same_sockets_providers: "same_sockets ag ag' \<Longrightarrow> ag_provider_heap ag' = ag_provider_heap ag"
  by (simp add: same_sockets_def sockets_of_def)

lemma same_sockets_trans: "same_sockets a b \<Longrightarrow> same_sockets b c \<Longrightarrow> same_sockets a c"
  by (simp add: same_sockets_def)

lemma sockets_put_consumer:
  assumes "ag_consumer_heap ag c = Some co" and "co_sd co' = co_sd co" and "co_attached co' = co_attached co"
  shows "sockets_of (put_consumer ag c co') = sockets_of ag"
  using assms by (auto simp: sockets_of_def put_consumer_def)

lemma consumer_objects_sockets:
  "consumer_add_object ag c k p = Inr ag' \<Longrightarrow> sockets_of ag' = sockets_of ag"
  "consumer_drop_object ag c k = Inr ag' \<Longrightarrow> sockets_of ag' = sockets_of ag"
  unfolding consumer_add_object_def consumer_drop_object_def
  by (auto simp: fault_simps deref_def intro!: sockets_put_consumer split: if_splits option.splits)

lemma object_lock_sockets:
  "object_lock ag p = Inr ag' \<Longrightarrow> sockets_of ag' = sockets_of ag"
  "object_unlock ag p = Inr ag' \<Longrightarrow> sockets_of ag' = sockets_of ag"
  by (auto simp: object_lock_def object_unlock_def fault_simps)

lemma object_create_sockets: "object_create ag v real key = Inr (ag', r) \<Longrightarrow> sockets_of ag' = sockets_of ag"
  by (auto simp: object_create_def fault_simps Let_def split: if_splits)

lemma object_destroy_sockets: "object_destroy ag p = Inr (ag', b) \<Longrightarrow> sockets_of ag' = sockets_of ag"
  by (auto simp: object_destroy_def fault_simps split: if_splits)

lemma agent_remote_map_sockets:
  "agent_remote_map net ag v real key = Inr (ag', b) \<Longrightarrow> sockets_of ag' = sockets_of ag"
  by (auto simp: agent_remote_map_def fault_simps Let_def split: if_splits option.splits)

lemma object_retain_sockets:
  assumes "object_retain ag p c = Inr (ag', b)"
  shows "sockets_of ag' = sockets_of ag"
proof -
  from assms obtain ag1 ob where 1: "object_lock ag p = Inr ag1" and rest:
    "(if ob_refcnt ob > 0 \<and> c \<noteq> ob_consumer ob then rbind (object_unlock ag1 p) (\<lambda>ag2. Inr (ag2, False))
     else
       rbind (if ob_refcnt ob = 0 then consumer_add_object (put_object ag1 p (ob\<lparr>ob_consumer := c\<rparr>)) c (ob_id ob) p
          else Inr ag1) (\<lambda>ag2.
       rbind (deref (ag_object_heap ag2) p) (\<lambda>ob2.
       rbind (object_unlock (put_object ag2 p (ob2\<lparr>ob_refcnt := ob_refcnt ob2 + 1\<rparr>)) p) (\<lambda>ag3.
       Inr (ag3, True))))) = Inr (ag', b)"
    unfolding object_retain_def by (elim rbind_eq_InrE)
  have "sockets_of ag' = sockets_of ag1"
  proof (cases "ob_refcnt ob > 0 \<and> c \<noteq> ob_consumer ob")
    case True
    with rest show ?thesis by (auto simp: object_lock_sockets(2) fault_simps)
  next
    case False
    with rest obtain ag2 ob2 where
      2: "(if ob_refcnt ob = 0 then consumer_add_object (put_object ag1 p (ob\<lparr>ob_consumer := c\<rparr>)) c (ob_id ob) p
          else Inr ag1) = Inr ag2" and
      3: "object_unlock (put_object ag2 p (ob2\<lparr>ob_refcnt := ob_refcnt ob2 + 1\<rparr>)) p = Inr ag'"
      by (auto simp: fault_simps simp del: if_split_asm)
    from 2 have "sockets_of ag2 = sockets_of ag1"
      by (auto split: if_splits dest: consumer_objects_sockets(1))
    with object_lock_sockets(2) [OF 3] show ?thesis by simp
  qed
  with object_lock_sockets(1) [OF 1] show ?thesis by simp
qed

lemma object_release_sockets:
  assumes "object_release ag p = Inr ag'"
  shows "sockets_of ag' = sockets_of ag"
proof -
  from assms obtain ag1 ob ag4 where 1: "object_lock ag p = Inr ag1" and
    2: "(if ob_refcnt ob = 0 then
         rbind (consumer_drop_object (put_object ag1 p ob) (ob_consumer ob) (ob_id ob)) (\<lambda>ag3.
         Inr (put_object ag3 p (ob\<lparr>ob_consumer := 0\<rparr>)))
       else Inr (put_object ag1 p ob)) = Inr ag4" and
    3: "object_unlock ag4 p = Inr ag'"
    unfolding object_release_def Let_def by (elim rbind_eq_InrE)
  from 2 have "sockets_of ag4 = sockets_of ag1"
    by (auto simp: fault_simps split: if_splits dest: consumer_objects_sockets(2))
  with object_lock_sockets(1) [OF 1] object_lock_sockets(2) [OF 3] show ?thesis by simp
qed

lemma clCreateObject_sockets:
  assumes "clCreateObject net rs ag v c real 0 = Inr (Some (ag', key))"
  shows "same_sockets ag ag'"
  using assms
  by (auto simp: clCreateObject_def fault_simps same_sockets_def split: if_splits option.splits
      dest!: object_create_sockets object_retain_sockets agent_remote_map_sockets)

lemma clReleaseObject_sockets:
  assumes "clReleaseObject ag c key = Inr (ag', b)"
  shows "same_sockets ag ag'"
  using assms
  by (auto simp: clReleaseObject_def fault_simps same_sockets_def split: if_splits option.splits
      dest!: object_lock_sockets object_release_sockets object_destroy_sockets)

lemma agent_remote_map_sends:
  assumes net: "reliable net k" and sv: "v \<noteq> 0" "ag_provider_heap ag v = Some pv"
    and ok: "lk_ok k (ag_net ag)" "18 \<le> lk_lim k" and rm: "agent_remote_map net ag v real virt = Inr (ag', b)"
  shows "adds k (ag_net ag) (ag_net ag') (lk_out k (pv_sd pv) (pv_addr pv))
    [enc16 CLARA_MSG_MAPPING @ enc64 virt @ enc64 real]"
proof -
  have "length (enc64 virt @ enc64 real) + 2 \<le> lk_lim k" using ok(2) by simp
  from sendmsg_adds [OF net ok(1) this, of "pv_sd pv" CLARA_MSG_MAPPING "pv_addr pv"] rm sv show ?thesis
    by (auto simp: agent_remote_map_def deref_def c_assert_def)
qed

text \<open>The owner of a call is the provider of the object its hint names.\<close>

lemma execute_owner:
  assumes inv: "object_inv ag" and co: "ag_consumer_heap ag c = Some co" "co_attached co"
    and hint: "object_table ag h = Some e"
  shows "rbind (consumer_agent ag c) (\<lambda>_.
      rbind (set_find (ag_objects ag) h) (\<lambda>r.
      case r of
        None \<Rightarrow> Inl Assertion_Failed
      | Some object \<Rightarrow> rbind (deref (ag_object_heap ag) object) (\<lambda>ob. Inr (ob_provider ob)))) = Inr (oe_provider e)"
proof -
  from inv hint obtain p ob where p: "set_map (ag_objects ag) h = Some p" "ag_object_heap ag p = Some ob"
    "ob_id ob = h" "p \<noteq> 0" "e = entry_of ob" by (rule object_table_Some)
  have "c \<noteq> 0" using object_invD(6) [OF inv co(1)] by simp
  then show ?thesis
    using p co object_invD(1) [OF inv] by (simp add: set_find_correct deref_def entry_of_def)
qed

lemma execute_message:
  "\<not> length (enc_execute_request params @ enc_args args) < 24"
  "(length (enc_execute_request params @ enc_args args) - 24) div 8 = length args"
  "dec_args (length args) (drop 24 (enc_execute_request params @ enc_args args)) = args"
  "drop (24 + 8 * length args) (enc_execute_request params @ enc_args args) = []"
  using dec_args_enc [of args "[]"] by simp_all

lemma create_call_full:
  assumes inv: "object_inv ag" and room: "object_room ag"
    and net: "reliable net k" "sends_whole net" and sv: "served k ag v pv out inp"
    and co: "ag_consumer_heap ag c = Some co" "co_attached co"
    and hint: "object_table ag (er_hint params) = Some e" "oe_provider e = v"
    and f: "creates f" "er_fun params = of_nat (cl_value f)"
    and argc: "opencl_get_clfuninfo f = Inr fni" "fi_argc fni \<le> length args"
    and lim: "26 + 8 * length args \<le> lk_lim k"
    and resp: "lk_queue k (ag_net ag) inp = (enc16 t @ enc64 real) # ms" "real \<noteq> 0"
    and key: "first_nonzero rs = Some key" "key \<notin> pool_ids (ag_id_pool ag)"
  defines "msg \<equiv> enc_execute_request params @ enc_args args"
  shows "\<exists>ag'. agent_execute net lz fuel rs ag msg 0 c = Inr (ag', key, True) \<and> object_inv ag' \<and>
    object_table ag' = (object_table ag)(key \<mapsto>
      \<lparr>oe_real = real, oe_provider = v, oe_consumer = c, oe_refcnt = 1\<rparr>) \<and>
    pool_ids (ag_id_pool ag') = insert key (pool_ids (ag_id_pool ag)) \<and>
    moves k (ag_net ag) (ag_net ag') inp ms out
      [enc16 CLARA_MSG_EXECUTE_REQUEST @ msg, enc16 CLARA_MSG_MAPPING @ enc64 key @ enc64 real] \<and>
    same_sockets ag ag'"
proof -
  note sv' = sv [unfolded served_def]
  have hint0: "er_hint params \<noteq> 0" using object_table_pool(2) [OF inv hint(1)] .
  have "2 + length msg \<le> lk_lim k" using lim by (simp add: msg_def)
  from agent_remote_execute_correct [OF net(1) sv this resp(1)] obtain s1 where
    s1: "agent_remote_execute net ag v msg = Inr (ag\<lparr>ag_net := s1\<rparr>, Some real)"
      "moves k (ag_net ag) s1 inp ms out [enc16 CLARA_MSG_EXECUTE_REQUEST @ msg]" by blast
  let ?ag1 = "ag\<lparr>ag_net := s1\<rparr>"
  have "object_inv ?ag1" "object_room ?ag1" using inv room by (simp_all add: object_inv_net object_room_def)
  from clCreateObject_correct [OF this net(2), of v pv c co real rs key] sv' co resp(2) key obtain ag2 where
    ag2: "clCreateObject net rs ?ag1 v c real 0 = Inr (Some (ag2, key))" "object_inv ag2"
      "pool_ids (ag_id_pool ag2) = insert key (pool_ids (ag_id_pool ag))"
      "object_table ag2 = (object_table ag)(key \<mapsto>
        \<lparr>oe_real = real, oe_provider = v, oe_consumer = c, oe_refcnt = 1\<rparr>)" by (auto simp: object_inv_net)
  from clCreateObject_net [OF ag2(1) resp(2)] obtain ag3 b where
    ag3: "agent_remote_map net ag3 v real key = Inr (ag2, b)" "ag_net ag3 = s1"
      "ag_provider_heap ag3 = ag_provider_heap ag" by auto
  have "adds k s1 (ag_net ag2) out [enc16 CLARA_MSG_MAPPING @ enc64 key @ enc64 real]"
    using agent_remote_map_sends [OF net(1) _ _ _ _ ag3(1), of pv] sv' ag3(2,3) s1(2) lim
    by (auto simp: moves_def)
  with s1(2) have mv: "moves k (ag_net ag) (ag_net ag2) inp ms out
      [enc16 CLARA_MSG_EXECUTE_REQUEST @ msg, enc16 CLARA_MSG_MAPPING @ enc64 key @ enc64 real]"
    by (auto simp: moves_def adds_def)
  have pre: "clara_execute (pre_exec_fun_table c) (agent_id_map c) ag params args 0 = Inr (ag, params, args, 0, True)"
    unfolding pre_exec_fun_table_def by (rule clara_execute_absent [OF creates_entries(1) [OF f(1)] f(2)])
  have post: "clara_execute (post_exec_fun_table net lz fuel rs [] v c) (agent_id_map c) ?ag1 params args real =
      Inr (ag2, argv0 (params\<lparr>er_retval := real\<rparr>) key, args, key, True)"
    unfolding post_exec_fun_table_def clara_execute_plain [OF creates_entries(2) [OF f(1)] f(2) argc]
    using ag2(1) by (simp add: AGENT_GENERIC_CREATE_def argv0_def)
  have "agent_execute net lz fuel rs ag msg 0 c = Inr (ag2, key, True)"
    unfolding agent_execute_def msg_def Let_def execute_message dec_execute_request_enc
      execute_owner [OF inv co hint(1)]
    using hint0 sv' pre post s1(1) hint(2) by (simp add: msgbuf_def msg_def)
  moreover have "same_sockets ag ag2"
    using clCreateObject_sockets [OF ag2(1)] by (simp add: same_sockets_def)
  ultimately show ?thesis using ag2 mv by blast
qed

lemma create_call_correct:
  assumes inv: "object_inv ag" and room: "object_room ag"
    and net: "reliable net k" "sends_whole net" and sv: "served k ag v pv out inp"
    and co: "ag_consumer_heap ag c = Some co" "co_attached co"
    and hint: "object_table ag (er_hint params) = Some e" "oe_provider e = v"
    and f: "creates f" "er_fun params = of_nat (cl_value f)"
    and argc: "opencl_get_clfuninfo f = Inr fni" "fi_argc fni \<le> length args"
    and lim: "26 + 8 * length args \<le> lk_lim k"
    and resp: "lk_queue k (ag_net ag) inp = (enc16 t @ enc64 real) # ms" "real \<noteq> 0"
    and key: "first_nonzero rs = Some key" "key \<notin> pool_ids (ag_id_pool ag)"
  defines "msg \<equiv> enc_execute_request params @ enc_args args"
  shows "\<exists>ag'. agent_execute net lz fuel rs ag msg 0 c = Inr (ag', key, True) \<and> object_inv ag' \<and>
    object_table ag' = (object_table ag)(key \<mapsto>
      \<lparr>oe_real = real, oe_provider = v, oe_consumer = c, oe_refcnt = 1\<rparr>) \<and>
    pool_ids (ag_id_pool ag') = insert key (pool_ids (ag_id_pool ag)) \<and>
    moves k (ag_net ag) (ag_net ag') inp ms out
      [enc16 CLARA_MSG_EXECUTE_REQUEST @ msg, enc16 CLARA_MSG_MAPPING @ enc64 key @ enc64 real]"
  unfolding msg_def
  using create_call_full [OF inv room net sv co hint f argc lim resp key, of lz fuel] by blast

section \<open>Calls that count references\<close>

definition retains :: "cl_function_t \<Rightarrow> bool" where
  "retains f \<longleftrightarrow> f \<in> {CL_RETAINCONTEXT, CL_RETAINCOMMANDQUEUE, CL_RETAINMEMOBJECT, CL_RETAINPROGRAM,
     CL_RETAINKERNEL, CL_RETAINEVENT}"

definition releases :: "cl_function_t \<Rightarrow> bool" where
  "releases f \<longleftrightarrow> f \<in> {CL_RELEASECONTEXT, CL_RELEASECOMMANDQUEUE, CL_RELEASEMEMOBJECT, CL_RELEASEPROGRAM,
     CL_RELEASEKERNEL, CL_RELEASEEVENT}"

lemma retains_entries:
  assumes "retains f"
  shows "map_of (post_exec_fun_table_entries net lz fuel rs rest target source) f = None"
    and "\<exists>t. map_of (pre_exec_fun_table_entries source) f =
      Some \<lparr>fe_pfn = Some (AGENT_GENERIC_RETAIN t source), fe_ptrargs = 0\<rparr>"
  using assms by (auto simp: retains_def pre_exec_fun_table_entries_def post_exec_fun_table_entries_def entry_def)

lemma releases_entries:
  assumes "releases f"
  shows "map_of (post_exec_fun_table_entries net lz fuel rs rest target source) f = None"
    and "\<exists>t. map_of (pre_exec_fun_table_entries source) f =
      Some \<lparr>fe_pfn = Some (AGENT_GENERIC_RELEASE t source), fe_ptrargs = 0\<rparr>"
  using assms by (auto simp: releases_def pre_exec_fun_table_entries_def post_exec_fun_table_entries_def entry_def)

lemma clRetainObject_net:
  assumes "clRetainObject ag c key = Inr (ag', b)"
  shows "ag_net ag' = ag_net ag" and "ag_provider_heap ag' = ag_provider_heap ag"
  using assms object_retain_net by (auto simp: clRetainObject_def fault_simps split: option.splits)

lemma object_release_net:
  assumes "object_release ag p = Inr ag'"
  shows "ag_net ag' = ag_net ag \<and> ag_provider_heap ag' = ag_provider_heap ag"
  using assms
  by (auto simp: object_release_def object_lock_def object_unlock_def consumer_drop_object_def fault_simps
      put_object_def put_consumer_def Let_def split: if_splits)

lemma clReleaseObject_net:
  assumes "clReleaseObject ag c key = Inr (ag', b)"
  shows "ag_net ag' = ag_net ag" and "ag_provider_heap ag' = ag_provider_heap ag"
  using assms
  by (auto simp: clReleaseObject_def object_lock_def object_unlock_def object_destroy_def fault_simps
      put_object_def dest!: object_release_net split: if_splits option.splits)

text \<open>
  A call with a handler in the first table only: the handler, then the provider, whose answer
  is the value to return.
\<close>

lemma pre_call:
  assumes inv: "object_inv ag" and net: "reliable net k" and sv: "served k ag v pv out inp"
    and co: "ag_consumer_heap ag c = Some co" "co_attached co"
    and hint: "object_table ag (er_hint params) = Some e" "oe_provider e = v"
    and f: "er_fun params = of_nat (cl_value f)"
    and pre: "map_of (pre_exec_fun_table_entries c) f = Some \<lparr>fe_pfn = Some H, fe_ptrargs = 0\<rparr>"
    and post: "map_of (post_exec_fun_table_entries net lz fuel rs [] v c) f = None"
    and argc: "opencl_get_clfuninfo f = Inr fni" "fi_argc fni \<le> length args"
    and lim: "26 + 8 * length args \<le> lk_lim k"
    and resp: "lk_queue k (ag_net ag) inp = (enc16 t @ enc64 x) # ms"
    and H: "H ag (params\<lparr>er_retval := 0\<rparr>) args = Inr (ag1, argv0 params y, args)"
      "ag_net ag1 = ag_net ag" "ag_provider_heap ag1 = ag_provider_heap ag"
  shows "\<exists>s'. agent_execute net lz fuel rs ag (enc_execute_request params @ enc_args args) 0 c =
      Inr (ag1\<lparr>ag_net := s'\<rparr>, x, True) \<and>
    moves k (ag_net ag) s' inp ms out
      [enc16 CLARA_MSG_EXECUTE_REQUEST @ enc_execute_request (argv0 params y) @ enc_args args]"
proof -
  note sv' = sv [unfolded served_def]
  have hint0: "er_hint params \<noteq> 0" using object_table_pool(2) [OF inv hint(1)] .
  let ?msg = "enc_execute_request (argv0 params y) @ enc_args args"
  have "served k ag1 v pv out inp" "2 + length ?msg \<le> lk_lim k"
    "lk_queue k (ag_net ag1) inp = (enc16 t @ enc64 x) # ms"
    using sv' H(2,3) lim resp by (simp_all add: served_def)
  from agent_remote_execute_correct [OF net this] obtain s1 where
    s1: "agent_remote_execute net ag1 v ?msg = Inr (ag1\<lparr>ag_net := s1\<rparr>, Some x)"
      "moves k (ag_net ag) s1 inp ms out [enc16 CLARA_MSG_EXECUTE_REQUEST @ ?msg]" using H(2) by auto
  have pre': "clara_execute (pre_exec_fun_table c) (agent_id_map c) ag params args 0 =
      Inr (ag1, argv0 params y, args, y, True)"
    unfolding pre_exec_fun_table_def clara_execute_plain [OF pre f argc] using H(1) by (simp add: argv0_def)
  have f': "er_fun (argv0 params y) = of_nat (cl_value f)" using f by (simp add: argv0_def)
  have post': "clara_execute (post_exec_fun_table net lz fuel rs [] v c) (agent_id_map c) (ag1\<lparr>ag_net := s1\<rparr>)
      (argv0 params y) args x = Inr (ag1\<lparr>ag_net := s1\<rparr>, argv0 params y, args, x, True)"
    unfolding post_exec_fun_table_def by (rule clara_execute_absent [OF post f'])
  have "agent_execute net lz fuel rs ag (enc_execute_request params @ enc_args args) 0 c =
      Inr (ag1\<lparr>ag_net := s1\<rparr>, x, True)"
    unfolding agent_execute_def Let_def execute_message dec_execute_request_enc execute_owner [OF inv co hint(1)]
    using hint0 sv' pre' post' s1(1) hint(2) by (simp add: msgbuf_def)
  with s1(2) show ?thesis by blast
qed

lemma retain_call_correct:
  fixes ag :: "'n agent"
  assumes inv: "object_inv ag" and net: "reliable net k" and sv: "served k ag v pv out inp"
    and co: "ag_consumer_heap ag c = Some co" "co_attached co"
    and hint: "object_table ag (er_hint params) = Some e" "oe_provider e = v"
    and f: "retains f" "er_fun params = of_nat (cl_value f)"
    and argc: "opencl_get_clfuninfo f = Inr fni" "fi_argc fni \<le> length args"
    and lim: "26 + 8 * length args \<le> lk_lim k"
    and resp: "lk_queue k (ag_net ag) inp = (enc16 t @ enc64 x) # ms"
    and ob: "object_table ag (argv args 1) = Some e'" "oe_consumer e' = c" "oe_refcnt e' + 1 < 2 ^ 32"
  shows "\<exists>ag'. agent_execute net lz fuel rs ag (enc_execute_request params @ enc_args args) 0 c =
      Inr (ag', x, True) \<and> object_inv ag' \<and>
    object_table ag' = (object_table ag)(argv args 1 \<mapsto> e'\<lparr>oe_refcnt := oe_refcnt e' + 1\<rparr>) \<and>
    moves k (ag_net ag) (ag_net ag') inp ms out
      [enc16 CLARA_MSG_EXECUTE_REQUEST @ enc_execute_request (argv0 params CL_SUCCESS) @ enc_args args]"
proof -
  from clRetainObject_correct [OF inv co ob] obtain ag1 where
    ag1: "clRetainObject ag c (argv args 1) = Inr (ag1, True)" "object_inv ag1"
      "object_table ag1 = (object_table ag)(argv args 1 \<mapsto> e'\<lparr>oe_refcnt := oe_refcnt e' + 1\<rparr>)" by blast
  from retains_entries(2) [OF f(1), of c] obtain ty where
    pre: "map_of (pre_exec_fun_table_entries c :: (cl_function_t \<times> 'n agent fun_entry) list) f =
      Some \<lparr>fe_pfn = Some (AGENT_GENERIC_RETAIN ty c), fe_ptrargs = 0\<rparr>" ..
  have H: "AGENT_GENERIC_RETAIN ty c ag (params\<lparr>er_retval := 0\<rparr>) args = Inr (ag1, argv0 params CL_SUCCESS, args)"
    using ag1(1) by (simp add: AGENT_GENERIC_RETAIN_def argv0_def)
  from pre_call [OF inv net sv co hint f(2) pre retains_entries(1) [OF f(1)] argc lim resp H clRetainObject_net [OF ag1(1)]]
  obtain s' where "agent_execute net lz fuel rs ag (enc_execute_request params @ enc_args args) 0 c =
      Inr (ag1\<lparr>ag_net := s'\<rparr>, x, True)" "moves k (ag_net ag) s' inp ms out
      [enc16 CLARA_MSG_EXECUTE_REQUEST @ enc_execute_request (argv0 params CL_SUCCESS) @ enc_args args]" by blast
  with ag1 show ?thesis by (intro exI [of _ "ag1\<lparr>ag_net := s'\<rparr>"]) (simp add: object_inv_net)
qed

lemma release_call_full:
  fixes ag :: "'n agent"
  assumes inv: "object_inv ag" and room: "object_room ag"
    and net: "reliable net k" and sv: "served k ag v pv out inp"
    and co: "ag_consumer_heap ag c = Some co" "co_attached co"
    and hint: "object_table ag (er_hint params) = Some e" "oe_provider e = v"
    and f: "releases f" "er_fun params = of_nat (cl_value f)"
    and argc: "opencl_get_clfuninfo f = Inr fni" "fi_argc fni \<le> length args"
    and lim: "26 + 8 * length args \<le> lk_lim k"
    and resp: "lk_queue k (ag_net ag) inp = (enc16 t @ enc64 x) # ms"
    and ob: "object_table ag (argv args 1) = Some e'" "oe_refcnt e' = 1"
  shows "\<exists>ag'. agent_execute net lz fuel rs ag (enc_execute_request params @ enc_args args) 0 c =
      Inr (ag', x, True) \<and> object_inv ag' \<and>
    object_table ag' = (object_table ag)(argv args 1 := None) \<and>
    pool_ids (ag_id_pool ag') = pool_ids (ag_id_pool ag) - {argv args 1} \<and>
    moves k (ag_net ag) (ag_net ag') inp ms out
      [enc16 CLARA_MSG_EXECUTE_REQUEST @ enc_execute_request (argv0 params CL_SUCCESS) @ enc_args args] \<and>
    same_sockets ag ag'"
proof -
  from clReleaseObject_last [OF inv room co ob] obtain ag1 where
    ag1: "clReleaseObject ag c (argv args 1) = Inr (ag1, True)" "object_inv ag1"
      "pool_ids (ag_id_pool ag1) = pool_ids (ag_id_pool ag) - {argv args 1}"
      "object_table ag1 = (object_table ag)(argv args 1 := None)" by blast
  from releases_entries(2) [OF f(1), of c] obtain ty where
    pre: "map_of (pre_exec_fun_table_entries c :: (cl_function_t \<times> 'n agent fun_entry) list) f =
      Some \<lparr>fe_pfn = Some (AGENT_GENERIC_RELEASE ty c), fe_ptrargs = 0\<rparr>" ..
  have H: "AGENT_GENERIC_RELEASE ty c ag (params\<lparr>er_retval := 0\<rparr>) args = Inr (ag1, argv0 params CL_SUCCESS, args)"
    using ag1(1) by (simp add: AGENT_GENERIC_RELEASE_def argv0_def)
  from pre_call [OF inv net sv co hint f(2) pre releases_entries(1) [OF f(1)] argc lim resp H clReleaseObject_net [OF ag1(1)]]
  obtain s' where "agent_execute net lz fuel rs ag (enc_execute_request params @ enc_args args) 0 c =
      Inr (ag1\<lparr>ag_net := s'\<rparr>, x, True)" "moves k (ag_net ag) s' inp ms out
      [enc16 CLARA_MSG_EXECUTE_REQUEST @ enc_execute_request (argv0 params CL_SUCCESS) @ enc_args args]" by blast
  with ag1 clReleaseObject_sockets [OF ag1(1)] show ?thesis
    by (intro exI [of _ "ag1\<lparr>ag_net := s'\<rparr>"]) (simp add: object_inv_net same_sockets_def)
qed

end
