(* ===== verification/Alloc_Laws.thy ===== *)
theory Alloc_Laws
  imports Consumer_Handler
begin

text \<open>
  The memory consumers allocate in the agent, as a map from handles to bytes: an allocation
  adds an entry, a fetch sends its bytes and takes it out, and the identifier pool and the
  heap memory follow.
\<close>

section \<open>The invariant\<close>

text \<open>
  Every allocation is filed by its handle, which the pool holds, and owns a live block of the
  size it was asked for; no two allocations share a block or a handle.
\<close>

definition alloc_ok :: "'n agent \<Rightarrow> global_id \<Rightarrow> clara_allocation \<Rightarrow> bool" where
  "alloc_ok ag k a \<longleftrightarrow> al_handle a = k \<and> k \<in> pool_ids (ag_id_pool ag) \<and> al_ptr a \<noteq> 0 \<and>
     (\<exists>bs. mm_blocks (ag_mem ag) (al_ptr a) = Some bs \<and> length bs = unat (al_nmemb a * al_size a))"

definition owns :: "'n agent \<Rightarrow> nat \<Rightarrow> global_id \<Rightarrow> clara_allocation \<Rightarrow> bool" where
  "owns ag c k a \<longleftrightarrow> (\<exists>co. ag_consumer_heap ag c = Some co \<and> set_map (co_allocations co) k = Some a)"

definition alloc_inv :: "'n agent \<Rightarrow> bool" where
  "alloc_inv ag \<longleftrightarrow> mem_wf (ag_mem ag) \<and> pool_wf (ag_id_pool ag) \<and>
     (\<forall>c co. ag_consumer_heap ag c = Some co \<longrightarrow> 0 < c \<and> set_wf (co_allocations co)) \<and>
     (\<forall>c k a. owns ag c k a \<longrightarrow> alloc_ok ag k a) \<and>
     (\<forall>c k a d l b. owns ag c k a \<longrightarrow> owns ag d l b \<longrightarrow> al_ptr a = al_ptr b \<or> k = l \<longrightarrow> c = d \<and> k = l)"

lemma alloc_invD:
  assumes "alloc_inv ag"
  shows "mem_wf (ag_mem ag)" and "pool_wf (ag_id_pool ag)"
    and "ag_consumer_heap ag c = Some co \<Longrightarrow> 0 < c \<and> set_wf (co_allocations co)"
    and "owns ag c k a \<Longrightarrow> alloc_ok ag k a"
    and "owns ag c k a \<Longrightarrow> owns ag d l b \<Longrightarrow> al_ptr a = al_ptr b \<or> k = l \<Longrightarrow> c = d \<and> k = l"
  using assms unfolding alloc_inv_def by blast+

text \<open>The bytes behind each consumer's handles.\<close>

definition buffers :: "'n agent \<Rightarrow> nat \<Rightarrow> handle \<rightharpoonup> byte list" where
  "buffers ag c h =
     (case ag_consumer_heap ag c of
        None \<Rightarrow> None
      | Some co \<Rightarrow> (case set_map (co_allocations co) h of
          None \<Rightarrow> None
        | Some a \<Rightarrow> mm_blocks (ag_mem ag) (al_ptr a)))"

lemma buffers_owns: "owns ag c h a \<Longrightarrow> buffers ag c h = mm_blocks (ag_mem ag) (al_ptr a)"
  by (auto simp: owns_def buffers_def)

lemma buffers_none: "\<forall>a. \<not> owns ag c h a \<Longrightarrow> buffers ag c h = None"
  by (auto simp: owns_def buffers_def split: option.splits)

lemma buffers_Some:
  assumes "buffers ag c h = Some bs"
  obtains a where "owns ag c h a" and "mm_blocks (ag_mem ag) (al_ptr a) = Some bs"
  using assms by (auto simp: owns_def buffers_def split: option.splits)

lemma net_irrelevant [simp]:
  "alloc_inv (ag\<lparr>ag_net := s\<rparr>) = alloc_inv ag" "buffers (ag\<lparr>ag_net := s\<rparr>) = buffers ag"
  "owns (ag\<lparr>ag_net := s\<rparr>) = owns ag"
  by (auto simp: alloc_inv_def owns_def alloc_ok_def buffers_def fun_eq_iff split: option.splits)

section \<open>Allocating\<close>

text \<open>The state after \<open>a\<close> with the bytes \<open>data\<close> is entered for consumer \<open>c\<close>.\<close>

lemma alloc_inv_add:
  assumes inv: "alloc_inv ag" and co: "ag_consumer_heap ag c = Some co"
    and pool: "pool_wf pool" "pool_ids pool = insert (al_handle a) (pool_ids (ag_id_pool ag))"
    and s: "set_wf s" "set_map s = (set_map (co_allocations co))(al_handle a \<mapsto> a)"
    and new: "al_handle a \<notin> pool_ids (ag_id_pool ag)"
    and m: "mem_wf m" "mm_blocks m = (mm_blocks (ag_mem ag))(al_ptr a \<mapsto> data)"
    and p: "al_ptr a \<noteq> 0" "mm_blocks (ag_mem ag) (al_ptr a) = None" "length data = unat (al_nmemb a * al_size a)"
  defines "ag' \<equiv> put_consumer (ag\<lparr>ag_id_pool := pool, ag_mem := m\<rparr>) c (co\<lparr>co_allocations := s\<rparr>)"
  shows "alloc_inv ag'" and "buffers ag' = (buffers ag)(c := (buffers ag c)(al_handle a \<mapsto> data))"
proof -
  have owns': "owns ag' d k b \<longleftrightarrow> (if d = c \<and> k = al_handle a then b = a else owns ag d k b)" for d k b
    using co s(2) by (auto simp: owns_def ag'_def put_consumer_def)
  have fresh: "\<not> owns ag d (al_handle a) b" for d b
    using alloc_invD(4) [OF inv, of d "al_handle a" b] new by (auto simp: alloc_ok_def)
  have ptr: "al_ptr b \<noteq> al_ptr a" if "owns ag d k b" for d k b
    using alloc_invD(4) [OF inv that] p(2) by (auto simp: alloc_ok_def)
  have ok: "alloc_ok ag' k b" if "owns ag d k b" for d k b
    using alloc_invD(4) [OF inv that] ptr [OF that] m(2) pool(2)
    by (auto simp: alloc_ok_def ag'_def put_consumer_def)
  have oka: "alloc_ok ag' (al_handle a) a"
    using m(2) p pool(2) by (simp add: alloc_ok_def ag'_def put_consumer_def)
  show "alloc_inv ag'"
    unfolding alloc_inv_def
  proof (intro conjI allI impI)
    show "mem_wf (ag_mem ag')" "pool_wf (ag_id_pool ag')" using m(1) pool(1) by (simp_all add: ag'_def put_consumer_def)
    show "0 < d" "set_wf (co_allocations dco)" if "ag_consumer_heap ag' d = Some dco" for d dco
      using alloc_invD(3) [OF inv] that co s(1) by (auto simp: ag'_def put_consumer_def split: if_splits)
    show "alloc_ok ag' k b" if "owns ag' d k b" for d k b using that ok oka by (auto simp: owns' split: if_splits)
    show "d = e" "k = l" if "owns ag' d k b" "owns ag' e l b'" "al_ptr b = al_ptr b' \<or> k = l" for d k b e l b'
      using that ptr [of d k b] ptr [of e l b'] fresh [of d b] fresh [of e b'] alloc_invD(5) [OF inv, of d k b e l b'] by (auto simp: owns' split: if_splits)
  qed
  show "buffers ag' = (buffers ag)(c := (buffers ag c)(al_handle a \<mapsto> data))"
  proof (intro ext)
    fix d k
    show "buffers ag' d k = ((buffers ag)(c := (buffers ag c)(al_handle a \<mapsto> data))) d k"
    proof (cases "d = c \<and> k = al_handle a")
      case True
      then have "owns ag' d k a" by (simp add: owns')
      from buffers_owns [OF this] True m(2) show ?thesis by (simp add: ag'_def put_consumer_def)
    next
      case False
      show ?thesis
      proof (cases "\<exists>b. owns ag d k b")
        case True
        then obtain b where b: "owns ag d k b" ..
        with False have "owns ag' d k b" by (auto simp: owns')
        from buffers_owns [OF this] buffers_owns [OF b] ptr [OF b] m(2) False show ?thesis
          by (auto simp: ag'_def put_consumer_def)
      next
        case none: False
        with False have "\<forall>b. \<not> owns ag' d k b" by (simp add: owns')
        from buffers_none [OF this] buffers_none [of ag d k] none False show ?thesis by auto
      qed
    qed
  qed
qed

text \<open>And after it is taken out.\<close>

lemma alloc_inv_drop:
  assumes inv: "alloc_inv ag" and co: "ag_consumer_heap ag c = Some co" and a: "owns ag c h a"
    and pool: "pool_wf pool" "pool_ids pool = pool_ids (ag_id_pool ag) - {h}"
    and s: "set_wf s" "set_map s = (set_map (co_allocations co))(h := None)"
    and m: "mem_wf m" "mm_blocks m = (mm_blocks (ag_mem ag))(al_ptr a := None)"
  defines "ag' \<equiv> put_consumer (ag\<lparr>ag_id_pool := pool, ag_mem := m\<rparr>) c (co\<lparr>co_allocations := s\<rparr>)"
  shows "alloc_inv ag'" and "buffers ag' = (buffers ag)(c := (buffers ag c)(h := None))"
proof -
  have owns': "owns ag' d k b \<longleftrightarrow> owns ag d k b \<and> \<not> (d = c \<and> k = h)" for d k b
    using co s(2) by (auto simp: owns_def ag'_def put_consumer_def)
  have ptr: "al_ptr b \<noteq> al_ptr a" if "owns ag' d k b" for d k b
    using that alloc_invD(5) [OF inv _ a, of d k b] by (auto simp: owns')
  have ok: "alloc_ok ag' k b" if "owns ag' d k b" for d k b
  proof -
    have b: "owns ag d k b" and other: "\<not> (d = c \<and> k = h)" using that by (simp_all add: owns')
    with alloc_invD(5) [OF inv b a] have "k \<noteq> h" by blast
    with alloc_invD(4) [OF inv b] ptr [OF that] m(2) pool(2) show ?thesis
      by (auto simp: alloc_ok_def ag'_def put_consumer_def)
  qed
  show "alloc_inv ag'"
    unfolding alloc_inv_def
  proof (intro conjI allI impI)
    show "mem_wf (ag_mem ag')" "pool_wf (ag_id_pool ag')" using m(1) pool(1) by (simp_all add: ag'_def put_consumer_def)
    show "0 < d" "set_wf (co_allocations dco)" if "ag_consumer_heap ag' d = Some dco" for d dco
      using alloc_invD(3) [OF inv] that co s(1) by (auto simp: ag'_def put_consumer_def split: if_splits)
    show "alloc_ok ag' k b" if "owns ag' d k b" for d k b by (rule ok [OF that])
    show "d = e" "k = l" if "owns ag' d k b" "owns ag' e l b'" "al_ptr b = al_ptr b' \<or> k = l" for d k b e l b'
      using that alloc_invD(5) [OF inv, of d k b e l b'] by (auto simp: owns')
  qed
  show "buffers ag' = (buffers ag)(c := (buffers ag c)(h := None))"
  proof (intro ext)
    fix d k
    show "buffers ag' d k = ((buffers ag)(c := (buffers ag c)(h := None))) d k"
    proof (cases "\<exists>b. owns ag' d k b")
      case True
      then obtain b where b: "owns ag' d k b" ..
      then have b0: "owns ag d k b" "\<not> (d = c \<and> k = h)" by (simp_all add: owns')
      from buffers_owns [OF b] buffers_owns [OF b0(1)] ptr [OF b] m(2) b0(2) show ?thesis
        by (auto simp: ag'_def put_consumer_def)
    next
      case False
      then have none: "\<forall>b. \<not> owns ag' d k b" by simp
      show ?thesis
      proof (cases "d = c \<and> k = h")
        case False
        with none have "\<forall>b. \<not> owns ag d k b" by (simp add: owns')
        with buffers_none [OF none] buffers_none [of ag d k] False show ?thesis by auto
      qed (use buffers_none [OF none] in auto)
    qed
  qed
qed

text \<open>
  An allocation in the agent gives the consumer a new handle for a block with the bytes that
  came with the request, or with zeros, and the handle is the answer.
\<close>

definition initial_bytes :: "allocate_request \<Rightarrow> byte list \<Rightarrow> byte list" where
  "initial_bytes areq extra =
     (if extra = [] then replicate (unat (ar_nmemb areq) * unat (ar_size areq)) 0 else extra)"

lemma allocate_local_correct:
  assumes inv: "alloc_inv ag" and co: "ag_consumer_heap ag c = Some co" and c: "0 < c"
    and room: "set_room (co_allocations co)"
    and pool: "pool_wf pool" "pool_ids pool = insert h (pool_ids (ag_id_pool ag))"
    and new: "h \<notin> pool_ids (ag_id_pool ag)" and h: "ar_handle areq = h"
    and mem: "mem_calloc (ag_mem ag) (ar_nmemb areq) (ar_size areq) = (m, p)" "p \<noteq> 0"
    and extra: "extra \<noteq> [] \<Longrightarrow> length extra = unat (ar_nmemb areq) * unat (ar_size areq)"
  shows "\<exists>ag' a. allocate_local (ag\<lparr>ag_id_pool := pool\<rparr>) c areq extra = Inr (ag', a) \<and> al_handle a = h \<and>
    alloc_inv ag' \<and> ag_id_pool ag' = pool \<and> ag_net ag' = ag_net ag \<and>
    buffers ag' = (buffers ag)(c := (buffers ag c)(h \<mapsto> initial_bytes areq extra))"
proof -
  let ?n = "unat (ar_nmemb areq) * unat (ar_size areq)"
  let ?a = "\<lparr>al_handle = h, al_nmemb = ar_nmemb areq, al_size = ar_size areq, al_ptr = p\<rparr>"
  let ?bs = "initial_bytes areq extra"
  have d: "deref (ag_consumer_heap ag) c = Inr co" using co c by simp
  note m = mem_calloc_wf [OF alloc_invD(1) [OF inv] mem(1)]
  have n: "?n < 2 ^ 64" using mem by (auto simp: mem_calloc_def split: if_splits)
  then have prod: "unat (ar_nmemb areq * ar_size areq) = ?n" by (simp add: unat_mult_lem [THEN iffD1])
  have len: "length ?bs = ?n" using extra by (simp add: initial_bytes_def)
  have "h \<notin> dom (set_map (co_allocations co))"
    using alloc_invD(4) [OF inv, of c h] co new by (auto simp: owns_def alloc_ok_def)
  from set_insert_map [OF _ room this, of ?a] alloc_invD(3) [OF inv co] obtain s where
    s: "set_insert (co_allocations co) h ?a = Inr (s, True)" "set_wf s"
      "set_map s = (set_map (co_allocations co))(h \<mapsto> ?a)" by auto
  obtain m' where m': "mem_wf m'" "mm_blocks m' = (mm_blocks (ag_mem ag))(p \<mapsto> ?bs)"
    and run: "allocate_local (ag\<lparr>ag_id_pool := pool\<rparr>) c areq extra =
      Inr (put_consumer (ag\<lparr>ag_id_pool := pool, ag_mem := m'\<rparr>) c (co\<lparr>co_allocations := s\<rparr>), ?a)"
  proof (cases "extra = []")
    case True
    with m(1) m(3) mem(2) have "mem_wf m" "mm_blocks m = (mm_blocks (ag_mem ag))(p \<mapsto> ?bs)"
      by (simp_all add: initial_bytes_def)
    from that [OF this] True show thesis
      by (simp add: allocate_local_def clara_create_allocation_def mem(1) h d s(1) c_assert_def
          put_allocations_def)
  next
    case False
    have old: "mm_blocks m p = Some (replicate ?n 0)" using m(3) mem(2) by simp
    from mem_write_wf [OF m(1) old, of 0 extra] extra [OF False] obtain m' where
      w: "mem_write m p 0 extra = Inr m'" "mem_wf m'" "mm_blocks m' = (mm_blocks m)(p \<mapsto> extra)" by auto
    with m(3) mem(2) False have blocks: "mm_blocks m' = (mm_blocks (ag_mem ag))(p \<mapsto> ?bs)"
      by (simp add: initial_bytes_def)
    have "of_nat (length extra) = ar_nmemb areq * ar_size areq"
      using extra [OF False] by simp
    with that [OF w(2) blocks] False w(1) show thesis
      by (simp add: allocate_local_def clara_create_allocation_def mem(1) h d s(1) c_assert_def
          put_allocations_def put_consumer_def)
  qed
  have m3: "mm_blocks (ag_mem ag) p = None" using m(3) mem(2) by simp
  have "length ?bs = unat (al_nmemb ?a * al_size ?a)" using len prod by simp
  from alloc_inv_add [OF inv co pool(1) _ s(2) _ _ m'(1), of ?a ?bs] this pool(2) s(3) new m'(2) mem(2) m3
  have "alloc_inv (put_consumer (ag\<lparr>ag_id_pool := pool, ag_mem := m'\<rparr>) c (co\<lparr>co_allocations := s\<rparr>))"
    "buffers (put_consumer (ag\<lparr>ag_id_pool := pool, ag_mem := m'\<rparr>) c (co\<lparr>co_allocations := s\<rparr>)) =
      (buffers ag)(c := (buffers ag c)(h \<mapsto> ?bs))" by simp_all
  with run show ?thesis by (simp add: put_consumer_def)
qed

lemma handle_allocate_correct:
  assumes inv: "alloc_inv ag" and co: "ag_consumer_heap ag c = Some co" "co_attached co"
    and room: "set_room (co_allocations co)" "set_room (ag_id_pool ag)"
    and rs: "first_nonzero rs = Some h" "h \<notin> pool_ids (ag_id_pool ag)"
    and req: "ar_handle areq = 0" "ar_hint areq = 0"
    and mem: "snd (mem_calloc (ag_mem ag) (ar_nmemb areq) (ar_size areq)) \<noteq> 0"
    and extra: "extra \<noteq> [] \<Longrightarrow> length extra = unat (ar_nmemb areq) * unat (ar_size areq)"
    and net: "reliable net k" "lk_ok k (ag_net ag)" "10 \<le> lk_lim k"
  shows "\<exists>ag'. handle_allocate net rs ag c (enc_allocate_request areq @ extra) from = Inr (Some ag') \<and>
    alloc_inv ag' \<and> pool_ids (ag_id_pool ag') = insert h (pool_ids (ag_id_pool ag)) \<and>
    buffers ag' = (buffers ag)(c := (buffers ag c)(h \<mapsto> initial_bytes areq extra)) \<and>
    adds k (ag_net ag) (ag_net ag') (lk_out k (co_sd co) from) [enc16 CLARA_MSG_ALLOCATE_RESPONSE @ enc64 h]"
proof -
  from alloc_invD(3) [OF inv co(1)] have c: "0 < c" ..
  from id_create_fresh [OF alloc_invD(2) [OF inv] room(2) rs] obtain pool rs' where
    pool: "id_create (ag_id_pool ag) rs = Inr (Some (pool, h, rs'))" "pool_wf pool"
      "pool_ids pool = insert h (pool_ids (ag_id_pool ag))" by auto
  obtain m p where mp: "mem_calloc (ag_mem ag) (ar_nmemb areq) (ar_size areq) = (m, p)" by fastforce
  with mem have p: "p \<noteq> 0" by simp
  let ?req = "areq\<lparr>ar_handle := h\<rparr>"
  from allocate_local_correct [OF inv co(1) c room(1) pool(2,3) rs(2), of ?req m p extra] mp p extra
  obtain ag2 a where ag2: "allocate_local (ag\<lparr>ag_id_pool := pool\<rparr>) c ?req extra = Inr (ag2, a)"
    "al_handle a = h" "alloc_inv ag2" "ag_id_pool ag2 = pool" "ag_net ag2 = ag_net ag"
    "buffers ag2 = (buffers ag)(c := (buffers ag c)(h \<mapsto> initial_bytes areq extra))"
    by (auto simp: initial_bytes_def)
  have "length (enc64 h) + 2 \<le> lk_lim k" using net(3) by simp
  from sendmsg_adds [OF net(1,2) this, of "co_sd co" CLARA_MSG_ALLOCATE_RESPONSE "from"] obtain s' where
    s': "clara_sendmsg net (ag_net ag) (co_sd co) CLARA_MSG_ALLOCATE_RESPONSE (enc64 h) from =
        Inr (s', Some 8)"
      "adds k (ag_net ag) s' (lk_out k (co_sd co) from) [enc16 CLARA_MSG_ALLOCATE_RESPONSE @ enc64 h]" by auto
  have d: "deref (ag_consumer_heap ag) c = Inr co" using co c by simp
  have "handle_allocate net rs ag c (enc_allocate_request areq @ extra) from = Inr (Some (ag2\<lparr>ag_net := s'\<rparr>))"
    using pool(1) ag2(1,2,5) s'(1) req agent_of_live(1) [OF c co]
    by (simp add: handle_allocate_def clara_send_allocate_response_def d)
  with ag2 s'(2) pool(3) show ?thesis by simp
qed

section \<open>Fetching\<close>

text \<open>Finding an allocation by its handle only moves the set's traverser.\<close>

lemma owned_allocation_found:
  assumes inv: "alloc_inv ag" and co: "ag_consumer_heap ag c = Some co" and room: "set_room (co_allocations co)"
    and a: "owns ag c h a"
  shows "\<exists>tr. clara_find_allocation (co_allocations co) h = Inr ((co_allocations co)\<lparr>cs_trav := tr\<rparr>, Some a)"
proof -
  have "\<forall>k b. set_map (co_allocations co) k = Some b \<longrightarrow> al_handle b = k"
    using alloc_invD(4) [OF inv, of c] co by (auto simp: owns_def alloc_ok_def)
  from clara_find_allocation_lookup [OF _ room this, of h] alloc_invD(3) [OF inv co] a co
  show ?thesis by (auto simp: owns_def)
qed

lemma forget_allocation_correct:
  assumes inv: "alloc_inv ag" and co: "ag_consumer_heap ag c = Some co" "co_attached co"
    and room: "set_room (co_allocations co)" "set_room (ag_id_pool ag)" and a: "owns ag c h a"
  shows "\<exists>ag'. forget_allocation ag c a = Inr ag' \<and> alloc_inv ag' \<and> ag_net ag' = ag_net ag \<and>
    pool_ids (ag_id_pool ag') = pool_ids (ag_id_pool ag) - {h} \<and>
    buffers ag' = (buffers ag)(c := (buffers ag c)(h := None))"
proof -
  have c: "0 < c" and wf: "set_wf (co_allocations co)" using alloc_invD(3) [OF inv co(1)] by auto
  have ok: "al_handle a = h" "h \<in> pool_ids (ag_id_pool ag)" "mm_blocks (ag_mem ag) (al_ptr a) \<noteq> None"
    using alloc_invD(4) [OF inv a] by (auto simp: alloc_ok_def)
  have "h \<in> dom (set_map (co_allocations co))" using a co by (auto simp: owns_def)
  with set_remove_map [OF wf room(1), of h] obtain s where
    s: "set_remove (co_allocations co) h = Inr (s, True)" "set_wf s"
      "set_map s = (set_map (co_allocations co))(h := None)" by auto
  from mem_free_wf [OF alloc_invD(1) [OF inv]] ok(3) obtain m where
    m: "mem_free (ag_mem ag) (al_ptr a) = Inr m" "mem_wf m"
      "mm_blocks m = (mm_blocks (ag_mem ag))(al_ptr a := None)" by blast
  from id_release_correct [OF alloc_invD(2) [OF inv] room(2), of h] ok(2) obtain pool where
    pool: "id_release (ag_id_pool ag) h = Inr (pool, True)" "pool_wf pool"
      "pool_ids pool = pool_ids (ag_id_pool ag) - {h}" by auto
  let ?ag = "put_consumer (ag\<lparr>ag_id_pool := pool, ag_mem := m\<rparr>) c (co\<lparr>co_allocations := s\<rparr>)"
  have d: "deref (ag_consumer_heap ag) c = Inr co" using co c by simp
  have "forget_allocation ag c a = Inr ?ag"
    using c co m(1) pool(1) s(1) ok(1)
    by (simp add: forget_allocation_def put_allocations_def put_consumer_def clara_destroy_allocation_def
        c_assert_def d consumer_agent_def deref_def)
  with alloc_inv_drop [OF inv co(1) a pool(2,3) s(2,3) m(2,3)] pool(3) show ?thesis
    by (simp add: put_consumer_def)
qed

lemma unat_min: "unat (min a b) = min (unat a) (unat b)"
  by (simp add: min_def word_le_nat_alt)

text \<open>
  A fetch sends the bytes behind the handle, as many of them as were asked for, and takes the
  allocation out.
\<close>

lemma handle_fetch_correct:
  fixes ag :: "'n agent"
  assumes inv: "alloc_inv ag" and co: "ag_consumer_heap ag c = Some co" "co_attached co"
    and room: "set_room (co_allocations co)" "set_room (ag_id_pool ag)"
    and bs: "buffers ag c (fr_handle freq) = Some bs"
    and req: "fr_hint freq = 0" "fr_size freq \<noteq> 0" "opts_ok (fr_stream_opts freq)"
    and net: "reliable net k" "lk_ok k (ag_net ag)" "BLOCKSIZE \<le> lk_lim k" and lz: "lzo_ok lz"
    and fuel: "stream_fuel (wire_blocks lz (fr_stream_opts freq) (take (unat (fr_size freq)) bs)) fuel"
  shows "\<exists>ag'. handle_fetch net lz fuel ag c (enc_fetch_request freq) from = Inr ag' \<and> alloc_inv ag' \<and>
    pool_ids (ag_id_pool ag') = pool_ids (ag_id_pool ag) - {fr_handle freq} \<and>
    buffers ag' = (buffers ag)(c := (buffers ag c)(fr_handle freq := None)) \<and>
    adds k (ag_net ag) (ag_net ag') (lk_out k (co_sd co) from)
      ((enc16 CLARA_MSG_FETCH_RESPONSE @ enc64 (of_nat (length (take (unat (fr_size freq)) bs)))) #
       stream_wire (fr_stream_opts freq) (wire_blocks lz (fr_stream_opts freq) (take (unat (fr_size freq)) bs)))"
proof -
  let ?h = "fr_handle freq" and ?data = "take (unat (fr_size freq)) bs"
  from alloc_invD(3) [OF inv co(1)] have c: "0 < c" ..
  from bs obtain a where a: "owns ag c ?h a" "mm_blocks (ag_mem ag) (al_ptr a) = Some bs" by (rule buffers_Some)
  with alloc_invD(4) [OF inv a(1)] have len: "length bs = unat (al_nmemb a * al_size a)" "al_ptr a \<noteq> 0"
    by (auto simp: alloc_ok_def)
  from owned_allocation_found [OF inv co(1) room(1) a(1)] obtain tr where
    f: "clara_find_allocation (co_allocations co) ?h = Inr ((co_allocations co)\<lparr>cs_trav := tr\<rparr>, Some a)" ..
  let ?co = "co\<lparr>co_allocations := (co_allocations co)\<lparr>cs_trav := tr\<rparr>\<rparr>"
  let ?ag1 = "put_consumer ag c ?co"
  have same: "owns ?ag1 = owns ag" "buffers ?ag1 = buffers ag"
    using co(1) by (auto simp: fun_eq_iff owns_def buffers_def put_consumer_def split: option.splits)
  have inv1: "alloc_inv ?ag1"
    using inv co(1) unfolding alloc_inv_def same by (auto simp: put_consumer_def alloc_ok_def)
  have data: "(if min (al_nmemb a * al_size a) (fr_size freq) = 0 then Inr []
      else mem_read (ag_mem ag) (al_ptr a) 0 (unat (min (al_nmemb a * al_size a) (fr_size freq)))) = Inr ?data"
    using a(2) len req(2) by (auto simp: mem_read_def mem_block_def unat_min min_def unat_eq_0 word_le_nat_alt)
  have z: "min (al_nmemb a * al_size a) (fr_size freq) = 0 \<Longrightarrow> bs = []"
    using len req(2) by (auto simp: min_def split: if_splits)
  have l: "length (enc64 (of_nat (length ?data))) + 2 \<le> lk_lim k" using net(3) by (simp add: BLOCKSIZE_def)
  from sendmsg_adds [OF net(1,2) l, of "co_sd co" CLARA_MSG_FETCH_RESPONSE "from"] obtain s1 where
    s1: "clara_sendmsg net (ag_net ag) (co_sd co) CLARA_MSG_FETCH_RESPONSE (enc64 (of_nat (length ?data))) from =
        Inr (s1, Some 8)"
      "adds k (ag_net ag) s1 (lk_out k (co_sd co) from)
        [enc16 CLARA_MSG_FETCH_RESPONSE @ enc64 (of_nat (length ?data))]" by auto
  then have "lk_ok k s1" by (simp add: adds_def)
  from stream_send_correct [OF net(1) this net(3) lz, of "Some (fr_stream_opts freq)" ?data fuel "co_sd co" "from",
      unfolded opts_of_def option.case] req(3) fuel obtain s2 where
    s2: "stream_send net lz fuel s1 (co_sd co) ?data (Some (fr_stream_opts freq)) from = Inr (s2, length ?data)"
      "adds k s1 s2 (lk_out k (co_sd co) from)
        (stream_wire (fr_stream_opts freq) (wire_blocks lz (fr_stream_opts freq) ?data))" by auto
  let ?ag2 = "?ag1\<lparr>ag_net := s2\<rparr>"
  have inv2: "alloc_inv ?ag2" "owns ?ag2 c ?h a" using inv1 a(1) same by simp_all
  have co2: "ag_consumer_heap ?ag2 c = Some ?co" "co_attached ?co" using co by (simp_all add: put_consumer_def)
  have room2: "set_room (co_allocations ?co)" "set_room (ag_id_pool ?ag2)"
    using room by (simp_all add: set_room_def set_count_def put_consumer_def)
  have proj: "buffers ?ag2 = buffers ag" "ag_id_pool ?ag2 = ag_id_pool ag" "ag_net ?ag2 = s2"
    using same by (simp_all add: put_consumer_def)
  from forget_allocation_correct [OF inv2(1) co2 room2 inv2(2), unfolded proj] obtain ag3 where
    ag3: "forget_allocation ?ag2 c a = Inr ag3" "alloc_inv ag3" "ag_net ag3 = s2"
      "pool_ids (ag_id_pool ag3) = pool_ids (ag_id_pool ag) - {?h}"
      "buffers ag3 = (buffers ag)(c := (buffers ag c)(?h := None))" by blast
  have d: "deref (ag_consumer_heap ag) c = Inr co" using co c by simp
  have "handle_fetch net lz fuel ag c (enc_fetch_request freq) from = Inr ag3"
    using ag3(1) req(1,2) f data z s1(1) s2(1)
    by (cases "min (al_nmemb a * al_size a) (fr_size freq) = 0")
      (simp_all add: handle_fetch_def d put_allocations_def put_consumer_def clara_send_fetch_response_def
        dec_fetch_request_enc [of freq] Let_def)
  with ag3 adds_trans [OF s1(2) s2(2)] show ?thesis by simp
qed

section \<open>Allocating and fetching\<close>

lemma buffers_fresh:
  assumes "alloc_inv ag" and "h \<notin> pool_ids (ag_id_pool ag)"
  shows "buffers ag c h = None"
  using alloc_invD(4) [OF assms(1), of c h] assms(2) by (intro buffers_none) (auto simp: alloc_ok_def)

lemma allocate_fetch:
  assumes inv: "alloc_inv ag" and co: "ag_consumer_heap ag c = Some co" "co_attached co"
    and room: "set_room (co_allocations co)" "set_room (ag_id_pool ag)"
    and rs: "first_nonzero rs = Some h" "h \<notin> pool_ids (ag_id_pool ag)"
    and req: "ar_handle areq = 0" "ar_hint areq = 0"
    and mem: "snd (mem_calloc (ag_mem ag) (ar_nmemb areq) (ar_size areq)) \<noteq> 0"
    and extra: "extra \<noteq> [] \<Longrightarrow> length extra = unat (ar_nmemb areq) * unat (ar_size areq)"
    and net: "reliable net k" "lk_ok k (ag_net ag)" "BLOCKSIZE \<le> lk_lim k" and lz: "lzo_ok lz"
    and run: "handle_allocate net rs ag c (enc_allocate_request areq @ extra) from = Inr (Some ag')"
    and co': "ag_consumer_heap ag' c = Some co'" "co_attached co'"
    and room': "set_room (co_allocations co')" "set_room (ag_id_pool ag')"
    and freq: "fr_handle freq = h" "fr_hint freq = 0" "fr_size freq \<noteq> 0" "opts_ok (fr_stream_opts freq)"
    and fuel: "stream_fuel (wire_blocks lz (fr_stream_opts freq)
      (take (unat (fr_size freq)) (initial_bytes areq extra))) fuel"
  shows "\<exists>ag''. handle_fetch net lz fuel ag' c (enc_fetch_request freq) from = Inr ag'' \<and> alloc_inv ag'' \<and>
    buffers ag'' = buffers ag \<and> pool_ids (ag_id_pool ag'') = pool_ids (ag_id_pool ag) \<and>
    adds k (ag_net ag') (ag_net ag'') (lk_out k (co_sd co') from)
      ((enc16 CLARA_MSG_FETCH_RESPONSE @
          enc64 (of_nat (length (take (unat (fr_size freq)) (initial_bytes areq extra))))) #
       stream_wire (fr_stream_opts freq)
         (wire_blocks lz (fr_stream_opts freq) (take (unat (fr_size freq)) (initial_bytes areq extra))))"
proof -
  have lim: "10 \<le> lk_lim k" using net(3) by (simp add: BLOCKSIZE_def)
  from handle_allocate_correct [OF inv co room rs req mem extra net(1,2) lim, of "from"] run
  have ag': "alloc_inv ag'" "pool_ids (ag_id_pool ag') = insert h (pool_ids (ag_id_pool ag))"
    "buffers ag' = (buffers ag)(c := (buffers ag c)(h \<mapsto> initial_bytes areq extra))"
    "lk_ok k (ag_net ag')" by (auto simp: adds_def)
  have "buffers ag' c (fr_handle freq) = Some (initial_bytes areq extra)" using ag'(3) freq(1) by simp
  from handle_fetch_correct [OF ag'(1) co' room' this freq(2,3,4) net(1) ag'(4) net(3) lz fuel, of "from"]
  obtain ag'' where "handle_fetch net lz fuel ag' c (enc_fetch_request freq) from = Inr ag''" "alloc_inv ag''"
    "pool_ids (ag_id_pool ag'') = pool_ids (ag_id_pool ag') - {fr_handle freq}"
    "buffers ag'' = (buffers ag')(c := (buffers ag' c)(fr_handle freq := None))"
    and sent: "adds k (ag_net ag') (ag_net ag'') (lk_out k (co_sd co') from)
      ((enc16 CLARA_MSG_FETCH_RESPONSE @
          enc64 (of_nat (length (take (unat (fr_size freq)) (initial_bytes areq extra))))) #
       stream_wire (fr_stream_opts freq)
         (wire_blocks lz (fr_stream_opts freq) (take (unat (fr_size freq)) (initial_bytes areq extra))))"
    by blast
  moreover from this(3,4) ag'(2,3) freq(1) rs(2) buffers_fresh [OF inv rs(2), of c]
  have "pool_ids (ag_id_pool ag'') = pool_ids (ag_id_pool ag)" "buffers ag'' = buffers ag"
    by (auto simp: fun_upd_idem)
  ultimately show ?thesis by blast
qed

end
