(* ===== verification/Provider_Laws.thy ===== *)
theory Provider_Laws
  imports Provider_Process Call_Laws Alloc_Laws
begin

text \<open>
  The provider process as a map from identifiers to the vendor's objects and to memory: what
  each message of the agent does to it, and that its calls translate exactly the identifiers
  among their arguments.
\<close>

section \<open>The invariant\<close>

text \<open>
  Mappings and allocations are filed by their identifiers; an allocation has a live block of
  its own and size, which its handle is mapped to.
\<close>

definition pr_ids :: "('n, 'o) clara_provider \<Rightarrow> global_id \<rightharpoonup> arg" where
  "pr_ids pr i = map_option m_real (set_map (pr_id_map pr) i)"

definition pr_owns :: "('n, 'o) clara_provider \<Rightarrow> handle \<Rightarrow> clara_allocation \<Rightarrow> bool" where
  "pr_owns pr h a \<longleftrightarrow> set_map (pr_allocations pr) h = Some a"

definition pr_alloc_ok :: "('n, 'o) clara_provider \<Rightarrow> handle \<Rightarrow> clara_allocation \<Rightarrow> bool" where
  "pr_alloc_ok pr h a \<longleftrightarrow> al_handle a = h \<and> al_ptr a \<noteq> 0 \<and> al_ptr a < 2 ^ 64 \<and>
     pr_ids pr h = Some (PTR2ARG (al_ptr a)) \<and>
     (\<exists>bs. mm_blocks (pr_mem pr) (al_ptr a) = Some bs \<and> length bs = unat (al_nmemb a * al_size a))"

definition pr_inv :: "('n, 'o) clara_provider \<Rightarrow> bool" where
  "pr_inv pr \<longleftrightarrow> mem_wf (pr_mem pr) \<and> set_wf (pr_id_map pr) \<and> set_wf (pr_allocations pr) \<and>
     (\<forall>i x. set_map (pr_id_map pr) i = Some x \<longrightarrow> m_virt x = i) \<and>
     (\<forall>h a. pr_owns pr h a \<longrightarrow> pr_alloc_ok pr h a) \<and>
     (\<forall>h a k b. pr_owns pr h a \<longrightarrow> pr_owns pr k b \<longrightarrow> al_ptr a = al_ptr b \<longrightarrow> h = k)"

lemma pr_invD:
  assumes "pr_inv pr"
  shows "mem_wf (pr_mem pr)" and "set_wf (pr_id_map pr)" and "set_wf (pr_allocations pr)"
    and "set_map (pr_id_map pr) i = Some x \<Longrightarrow> m_virt x = i"
    and "pr_owns pr h a \<Longrightarrow> pr_alloc_ok pr h a"
    and "pr_owns pr h a \<Longrightarrow> pr_owns pr k b \<Longrightarrow> al_ptr a = al_ptr b \<Longrightarrow> h = k"
  using assms unfolding pr_inv_def by blast+

text \<open>The bytes behind the handles.\<close>

definition pr_buffers :: "('n, 'o) clara_provider \<Rightarrow> handle \<rightharpoonup> byte list" where
  "pr_buffers pr h =
     (case set_map (pr_allocations pr) h of None \<Rightarrow> None | Some a \<Rightarrow> mm_blocks (pr_mem pr) (al_ptr a))"

definition pr_room :: "('n, 'o) clara_provider \<Rightarrow> bool" where
  "pr_room pr \<longleftrightarrow> set_room (pr_id_map pr) \<and> set_room (pr_allocations pr)"

lemma pr_net_irrelevant [simp]:
  "pr_ids (pr\<lparr>pr_net := s\<rparr>) = pr_ids pr" "pr_owns (pr\<lparr>pr_net := s\<rparr>) = pr_owns pr"
  "pr_buffers (pr\<lparr>pr_net := s\<rparr>) = pr_buffers pr" "pr_inv (pr\<lparr>pr_net := s\<rparr>) = pr_inv pr"
  "pr_room (pr\<lparr>pr_net := s\<rparr>) = pr_room pr"
  by (auto simp: pr_ids_def pr_owns_def pr_buffers_def pr_inv_def pr_room_def pr_alloc_ok_def fun_eq_iff
      split: option.splits)

section \<open>Mappings\<close>

lemma add_mapping_correct:
  assumes inv: "pr_inv pr" and room: "set_room (pr_id_map pr)" and new: "pr_ids pr virt = None"
  shows "\<exists>s. add_mapping pr real virt = Inr (pr\<lparr>pr_id_map := s\<rparr>) \<and> pr_inv (pr\<lparr>pr_id_map := s\<rparr>) \<and>
    pr_ids (pr\<lparr>pr_id_map := s\<rparr>) = (pr_ids pr)(virt \<mapsto> real)"
proof -
  let ?x = "mapping_create real virt"
  have x: "m_virt ?x = virt" "m_real ?x = real" by (simp_all add: mapping_create_def)
  have "virt \<notin> dom (set_map (pr_id_map pr))" using new by (auto simp: pr_ids_def)
  from set_insert_map [OF pr_invD(2) [OF inv] room this, of ?x] obtain s where
    s: "set_insert (pr_id_map pr) virt ?x = Inr (s, True)" "set_wf s"
      "set_map s = (set_map (pr_id_map pr))(virt \<mapsto> ?x)" by blast
  have ids: "pr_ids (pr\<lparr>pr_id_map := s\<rparr>) = (pr_ids pr)(virt \<mapsto> real)"
    using s(3) x by (auto simp: pr_ids_def fun_eq_iff)
  have "pr_owns (pr\<lparr>pr_id_map := s\<rparr>) = pr_owns pr" by (simp add: pr_owns_def fun_eq_iff)
  moreover have "pr_alloc_ok (pr\<lparr>pr_id_map := s\<rparr>) h a" if "pr_owns pr h a" for h a
    using pr_invD(5) [OF inv that] new by (auto simp: pr_alloc_ok_def ids)
  ultimately have "pr_inv (pr\<lparr>pr_id_map := s\<rparr>)"
    using inv s(2,3) x(1) unfolding pr_inv_def by auto
  with s(1) x(1) ids show ?thesis
    by (intro exI [of _ s]) (simp add: add_mapping_def c_assert_def)
qed

lemma add_mapping_known:
  assumes inv: "pr_inv pr" and room: "set_room (pr_id_map pr)" and old: "pr_ids pr virt \<noteq> None"
  shows "add_mapping pr real virt = Inl Assertion_Failed"
proof -
  from old obtain x where "set_map (pr_id_map pr) virt = Some x" by (auto simp: pr_ids_def)
  from set_insert_old [OF pr_invD(2) [OF inv] room this, of "mapping_create real virt"]
  show ?thesis by (auto simp: add_mapping_def mapping_create_def c_assert_def)
qed

lemma handle_mapping_correct:
  assumes "pr_inv pr" and "set_room (pr_id_map pr)" and "pr_ids pr virt = None"
  shows "\<exists>pr'. handle_mapping pr (enc64 virt @ enc64 real) = Inr pr' \<and> pr_inv pr' \<and>
    pr_ids pr' = (pr_ids pr)(virt \<mapsto> real) \<and> pr_buffers pr' = pr_buffers pr \<and> pr_mem pr' = pr_mem pr"
  using add_mapping_correct [OF assms, of real] by (auto simp: handle_mapping_def pr_buffers_def fun_eq_iff split: option.splits)

section \<open>Memory\<close>

text \<open>The state after an allocation is entered, with its mapping and its bytes.\<close>

lemma pr_inv_add:
  assumes inv: "pr_inv pr" and ids: "set_wf ids" "set_map ids = (set_map (pr_id_map pr))(h \<mapsto> x)"
    and x: "m_virt x = h" "m_real x = PTR2ARG (al_ptr a)"
    and s: "set_wf s" "set_map s = (set_map (pr_allocations pr))(h \<mapsto> a)" and h: "al_handle a = h"
    and new: "pr_ids pr h = None"
    and m: "mem_wf m" "mm_blocks m = (mm_blocks (pr_mem pr))(al_ptr a \<mapsto> data)"
    and p: "al_ptr a \<noteq> 0" "al_ptr a < 2 ^ 64" "mm_blocks (pr_mem pr) (al_ptr a) = None"
      "length data = unat (al_nmemb a * al_size a)"
  defines "pr' \<equiv> pr\<lparr>pr_id_map := ids, pr_allocations := s, pr_mem := m\<rparr>"
  shows "pr_inv pr'" and "pr_ids pr' = (pr_ids pr)(h \<mapsto> PTR2ARG (al_ptr a))"
    and "pr_buffers pr' = (pr_buffers pr)(h \<mapsto> data)"
proof -
  show ids': "pr_ids pr' = (pr_ids pr)(h \<mapsto> PTR2ARG (al_ptr a))"
    using ids(2) x by (auto simp: pr_ids_def pr'_def fun_eq_iff)
  have owns': "pr_owns pr' k b \<longleftrightarrow> (if k = h then b = a else pr_owns pr k b)" for k b
    using s(2) by (auto simp: pr_owns_def pr'_def)
  have ptr: "al_ptr b \<noteq> al_ptr a" if "pr_owns pr k b" for k b
    using pr_invD(5) [OF inv that] p(3) by (auto simp: pr_alloc_ok_def)
  have ok: "pr_alloc_ok pr' k b" if "pr_owns pr k b" for k b
    using pr_invD(5) [OF inv that] ptr [OF that] m(2) new by (auto simp: pr_alloc_ok_def ids') (simp add: pr'_def)
  have oka: "pr_alloc_ok pr' h a" using m(2) p h by (simp add: pr_alloc_ok_def ids') (simp add: pr'_def)
  show "pr_inv pr'"
    unfolding pr_inv_def
  proof (intro conjI allI impI)
    show "mem_wf (pr_mem pr')" "set_wf (pr_id_map pr')" "set_wf (pr_allocations pr')"
      using m(1) ids(1) s(1) by (simp_all add: pr'_def)
    show "m_virt y = i" if "set_map (pr_id_map pr') i = Some y" for i y
      using that ids(2) x(1) pr_invD(4) [OF inv] by (auto simp: pr'_def split: if_splits)
    show "pr_alloc_ok pr' k b" if "pr_owns pr' k b" for k b
      using that ok oka by (auto simp: owns' split: if_splits)
    show "k = l" if "pr_owns pr' k b" "pr_owns pr' l c" "al_ptr b = al_ptr c" for k b l c
      using that ptr [of k b] ptr [of l c] pr_invD(6) [OF inv, of k b l c] by (auto simp: owns' split: if_splits)
  qed
  show "pr_buffers pr' = (pr_buffers pr)(h \<mapsto> data)"
  proof
    fix k
    show "pr_buffers pr' k = ((pr_buffers pr)(h \<mapsto> data)) k"
    proof (cases "k = h")
      case False
      show ?thesis
      proof (cases "set_map (pr_allocations pr) k")
        case (Some b)
        with ptr [of k b] False s(2) m(2) show ?thesis by (simp add: pr_buffers_def pr'_def pr_owns_def)
      qed (use False s(2) in \<open>simp add: pr_buffers_def pr'_def\<close>)
    qed (use s(2) m(2) in \<open>simp add: pr_buffers_def pr'_def\<close>)
  qed
qed

lemma pr_handle_allocate_correct:
  assumes inv: "pr_inv pr" and room: "pr_room pr" and new: "pr_ids pr (ar_handle areq) = None"
    and mem: "snd (mem_calloc (pr_mem pr) (ar_nmemb areq) (ar_size areq)) \<noteq> 0"
    and extra: "extra \<noteq> [] \<Longrightarrow> length extra = unat (ar_nmemb areq) * unat (ar_size areq)"
    and net: "reliable net k" "lk_ok k (pr_net pr)" "10 \<le> lk_lim k"
  shows "\<exists>pr' p. pr_handle_allocate net pr (enc_allocate_request areq @ extra) from = Inr pr' \<and> pr_inv pr' \<and>
    p \<noteq> 0 \<and> pr_ids pr' = (pr_ids pr)(ar_handle areq \<mapsto> p) \<and>
    pr_buffers pr' = (pr_buffers pr)(ar_handle areq \<mapsto> initial_bytes areq extra) \<and>
    adds k (pr_net pr) (pr_net pr') (lk_out k (pr_sd pr) from)
      [enc16 CLARA_MSG_ALLOCATE_RESPONSE @ enc64 (ar_handle areq)]"
proof -
  let ?h = "ar_handle areq" and ?n = "unat (ar_nmemb areq) * unat (ar_size areq)"
  let ?bs = "initial_bytes areq extra"
  obtain m p where mp: "mem_calloc (pr_mem pr) (ar_nmemb areq) (ar_size areq) = (m, p)" by fastforce
  with mem have p: "p \<noteq> 0" by simp
  note m = mem_calloc_wf [OF pr_invD(1) [OF inv] mp]
  let ?a = "\<lparr>al_handle = ?h, al_nmemb = ar_nmemb areq, al_size = ar_size areq, al_ptr = p\<rparr>"
  have n: "?n < 2 ^ 64" using mp p by (auto simp: mem_calloc_def split: if_splits)
  then have prod: "unat (ar_nmemb areq * ar_size areq) = ?n" by (simp add: unat_mult_lem [THEN iffD1])
  have len: "length ?bs = unat (al_nmemb ?a * al_size ?a)" using extra prod by (simp add: initial_bytes_def)
  have "?h \<notin> dom (set_map (pr_allocations pr))"
    using pr_invD(5) [OF inv, of ?h] new by (auto simp: pr_owns_def pr_alloc_ok_def)
  with set_insert_map [OF pr_invD(3) [OF inv], of ?h ?a] room obtain s where
    s: "set_insert (pr_allocations pr) ?h ?a = Inr (s, True)" "set_wf s"
      "set_map s = (set_map (pr_allocations pr))(?h \<mapsto> ?a)" by (auto simp: pr_room_def)
  let ?x = "mapping_create (PTR2ARG p) ?h"
  have x: "m_virt ?x = ?h" "m_real ?x = PTR2ARG p" by (simp_all add: mapping_create_def)
  have "?h \<notin> dom (set_map (pr_id_map pr))" using new by (auto simp: pr_ids_def)
  with set_insert_map [OF pr_invD(2) [OF inv], of ?h ?x] room obtain ids where
    ids: "set_insert (pr_id_map pr) ?h ?x = Inr (ids, True)" "set_wf ids"
      "set_map ids = (set_map (pr_id_map pr))(?h \<mapsto> ?x)" by (auto simp: pr_room_def)
  obtain m' where m': "mem_wf m'" "mm_blocks m' = (mm_blocks (pr_mem pr))(p \<mapsto> ?bs)"
    and copy: "(if extra = [] then Inr m else if length extra < ?n then Inl Uninit_Read
      else mem_write m p 0 (take ?n extra)) = Inr m'"
  proof (cases "extra = []")
    case True
    with m(1) m(3) p that [of m] show thesis by (simp add: initial_bytes_def)
  next
    case False
    have old: "mm_blocks m p = Some (replicate ?n 0)" using m(3) p by simp
    from mem_write_wf [OF m(1) old, of 0 extra] extra [OF False] obtain m' where
      "mem_write m p 0 extra = Inr m'" "mem_wf m'" "mm_blocks m' = (mm_blocks m)(p \<mapsto> extra)" by auto
    with that [of m'] False m(3) p extra [OF False] show thesis by (simp add: initial_bytes_def)
  qed
  have l: "length (enc64 ?h) + 2 \<le> lk_lim k" using net(3) by simp
  from sendmsg_adds [OF net(1,2) l, of "pr_sd pr" CLARA_MSG_ALLOCATE_RESPONSE "from"] obtain s' where
    s': "clara_sendmsg net (pr_net pr) (pr_sd pr) CLARA_MSG_ALLOCATE_RESPONSE (enc64 ?h) from = Inr (s', Some 8)"
      "adds k (pr_net pr) s' (lk_out k (pr_sd pr) from) [enc16 CLARA_MSG_ALLOCATE_RESPONSE @ enc64 ?h]" by auto
  let ?pr = "pr\<lparr>pr_id_map := ids, pr_allocations := s, pr_mem := m'\<rparr>"
  have "pr_handle_allocate net pr (enc_allocate_request areq @ extra) from = Inr (?pr\<lparr>pr_net := s'\<rparr>)"
  proof (cases "extra = []")
    case True
    with copy s'(1) s(1) ids(1) x show ?thesis
      by (simp add: pr_handle_allocate_def clara_create_allocation_def mp c_assert_def add_mapping_def
          clara_send_allocate_response_def dec_allocate_request_enc [of areq "[]", simplified])
  next
    case False
    with copy s'(1) s(1) ids(1) x prod extra [OF False] show ?thesis
      by (simp add: pr_handle_allocate_def clara_create_allocation_def mp c_assert_def add_mapping_def
          clara_send_allocate_response_def Let_def)
  qed
  moreover note pr_inv_add [OF inv ids(2,3) x(1) _ s(2,3) _ new m'(1), of ?bs] m'(2) p m(2,3) len x(2)
  moreover have "PTR2ARG p \<noteq> 0"
    using p m(2) ARG2PTR_PTR2ARG [of p] by (auto simp: ARG2PTR_def)
  ultimately show ?thesis
    using s'(2) by (intro exI [of _ "?pr\<lparr>pr_net := s'\<rparr>"] exI [of _ "PTR2ARG p"]) simp
qed

text \<open>And after it is taken out.\<close>

lemma pr_inv_drop:
  assumes inv: "pr_inv pr" and a: "pr_owns pr h a"
    and ids: "set_wf ids" "set_map ids = (set_map (pr_id_map pr))(h := None)"
    and s: "set_wf s" "set_map s = (set_map (pr_allocations pr))(h := None)"
    and m: "mem_wf m" "mm_blocks m = (mm_blocks (pr_mem pr))(al_ptr a := None)"
  defines "pr' \<equiv> pr\<lparr>pr_id_map := ids, pr_allocations := s, pr_mem := m\<rparr>"
  shows "pr_inv pr'" and "pr_ids pr' = (pr_ids pr)(h := None)"
    and "pr_buffers pr' = (pr_buffers pr)(h := None)"
proof -
  show ids': "pr_ids pr' = (pr_ids pr)(h := None)"
    using ids(2) by (auto simp: pr_ids_def pr'_def fun_eq_iff)
  have owns': "pr_owns pr' k b \<longleftrightarrow> pr_owns pr k b \<and> k \<noteq> h" for k b
    using s(2) by (auto simp: pr_owns_def pr'_def)
  have ptr: "al_ptr b \<noteq> al_ptr a" if "pr_owns pr k b" "k \<noteq> h" for k b
    using pr_invD(6) [OF inv that(1) a] that(2) by auto
  show "pr_inv pr'"
    unfolding pr_inv_def
  proof (intro conjI allI impI)
    show "mem_wf (pr_mem pr')" "set_wf (pr_id_map pr')" "set_wf (pr_allocations pr')"
      using m(1) ids(1) s(1) by (simp_all add: pr'_def)
    show "m_virt y = i" if "set_map (pr_id_map pr') i = Some y" for i y
      using that ids(2) pr_invD(4) [OF inv] by (auto simp: pr'_def split: if_splits)
    show "pr_alloc_ok pr' k b" if "pr_owns pr' k b" for k b
      using that pr_invD(5) [OF inv, of k b] ptr [of k b] m(2)
      by (auto simp: owns' pr_alloc_ok_def ids') (simp add: pr'_def)
    show "k = l" if "pr_owns pr' k b" "pr_owns pr' l c" "al_ptr b = al_ptr c" for k b l c
      using that pr_invD(6) [OF inv, of k b l c] by (auto simp: owns')
  qed
  show "pr_buffers pr' = (pr_buffers pr)(h := None)"
  proof
    fix k
    show "pr_buffers pr' k = ((pr_buffers pr)(h := None)) k"
    proof (cases "k = h")
      case False
      show ?thesis
      proof (cases "set_map (pr_allocations pr) k")
        case (Some b)
        with ptr [of k b] False s(2) m(2) show ?thesis by (simp add: pr_buffers_def pr'_def pr_owns_def)
      qed (use False s(2) in \<open>simp add: pr_buffers_def pr'_def\<close>)
    qed (use s(2) in \<open>simp add: pr_buffers_def pr'_def\<close>)
  qed
qed

lemma drop_pr_allocation_correct:
  assumes inv: "pr_inv pr" and room: "pr_room pr" and a: "pr_owns pr h a"
  shows "\<exists>pr'. drop_pr_allocation pr a = Inr pr' \<and> pr_inv pr' \<and> pr_net pr' = pr_net pr \<and>
    pr_ids pr' = (pr_ids pr)(h := None) \<and> pr_buffers pr' = (pr_buffers pr)(h := None)"
proof -
  have ok: "al_handle a = h" "mm_blocks (pr_mem pr) (al_ptr a) \<noteq> None"
    using pr_invD(5) [OF inv a] by (auto simp: pr_alloc_ok_def)
  from pr_invD(5) [OF inv a] obtain x where x: "set_map (pr_id_map pr) h = Some x"
    by (auto simp: pr_alloc_ok_def pr_ids_def)
  have xv: "m_virt x = h" using pr_invD(4) [OF inv x] .
  from x have "h \<in> dom (set_map (pr_id_map pr))" by blast
  with set_remove_map [OF pr_invD(2) [OF inv], of h] room obtain ids where
    ids: "set_remove (pr_id_map pr) h = Inr (ids, True)" "set_wf ids"
      "set_map ids = (set_map (pr_id_map pr))(h := None)" by (auto simp: pr_room_def)
  from a have "h \<in> dom (set_map (pr_allocations pr))" by (auto simp: pr_owns_def)
  with set_remove_map [OF pr_invD(3) [OF inv], of h] room obtain s where
    s: "set_remove (pr_allocations pr) h = Inr (s, True)" "set_wf s"
      "set_map s = (set_map (pr_allocations pr))(h := None)" by (auto simp: pr_room_def)
  from mem_free_wf [OF pr_invD(1) [OF inv]] ok(2) obtain m where
    m: "mem_free (pr_mem pr) (al_ptr a) = Inr m" "mem_wf m"
      "mm_blocks m = (mm_blocks (pr_mem pr))(al_ptr a := None)" by blast
  have "drop_pr_allocation pr a = Inr (pr\<lparr>pr_id_map := ids, pr_allocations := s, pr_mem := m\<rparr>)"
    using ids(1) s(1) m(1) ok(1) x xv
    by (simp add: drop_pr_allocation_def mapping_find_by_virt_correct [OF pr_invD(2) [OF inv]] c_assert_def
        clara_destroy_allocation_def)
  with pr_inv_drop [OF inv a ids(2,3) s(2,3) m(2,3)] show ?thesis by simp
qed

text \<open>A fetch sends all the bytes of the allocation and takes it out.\<close>

lemma pr_handle_fetch_correct:
  assumes inv: "pr_inv pr" and room: "pr_room pr" and bs: "pr_buffers pr (fr_handle freq) = Some bs"
    and req: "fr_size freq \<noteq> 0" "opts_ok (fr_stream_opts freq)"
    and net: "reliable net k" "lk_ok k (pr_net pr)" "BLOCKSIZE \<le> lk_lim k" and lz: "lzo_ok lz"
    and fuel: "stream_fuel (wire_blocks lz (fr_stream_opts freq) bs) fuel"
  shows "\<exists>pr'. pr_handle_fetch net lz fuel pr (enc_fetch_request freq) = Inr pr' \<and> pr_inv pr' \<and>
    pr_ids pr' = (pr_ids pr)(fr_handle freq := None) \<and>
    pr_buffers pr' = (pr_buffers pr)(fr_handle freq := None) \<and>
    adds k (pr_net pr) (pr_net pr') (lk_out k (pr_sd pr) (pr_agent pr))
      ((enc16 CLARA_MSG_FETCH_RESPONSE @ enc64 (of_nat (length bs))) #
       stream_wire (fr_stream_opts freq) (wire_blocks lz (fr_stream_opts freq) bs))"
proof -
  let ?h = "fr_handle freq" and ?out = "lk_out k (pr_sd pr) (pr_agent pr)"
  from bs obtain a where a: "pr_owns pr ?h a" "mm_blocks (pr_mem pr) (al_ptr a) = Some bs"
    by (auto simp: pr_buffers_def pr_owns_def split: option.splits)
  with pr_invD(5) [OF inv a(1)] have len: "length bs = unat (al_nmemb a * al_size a)" "al_ptr a \<noteq> 0"
    by (auto simp: pr_alloc_ok_def)
  have "\<forall>k b. set_map (pr_allocations pr) k = Some b \<longrightarrow> al_handle b = k"
    using pr_invD(5) [OF inv] by (auto simp: pr_owns_def pr_alloc_ok_def)
  from clara_find_allocation_lookup [OF pr_invD(3) [OF inv] _ this, of ?h] room a(1) obtain tr where
    f: "clara_find_allocation (pr_allocations pr) ?h = Inr ((pr_allocations pr)\<lparr>cs_trav := tr\<rparr>, Some a)"
    by (auto simp: pr_owns_def pr_room_def)
  let ?pr1 = "pr\<lparr>pr_allocations := (pr_allocations pr)\<lparr>cs_trav := tr\<rparr>\<rparr>"
  have same: "pr_owns ?pr1 = pr_owns pr" "pr_ids ?pr1 = pr_ids pr" "pr_buffers ?pr1 = pr_buffers pr"
    "pr_room ?pr1 = pr_room pr"
    by (auto simp: pr_owns_def pr_ids_def pr_buffers_def pr_room_def set_room_def set_count_def fun_eq_iff
        split: option.splits)
  have inv1: "pr_inv ?pr1" using inv unfolding pr_inv_def same by (auto simp: pr_alloc_ok_def same)
  have data: "(if unat (al_nmemb a * al_size a) = 0 then Inr []
      else mem_read (pr_mem pr) (al_ptr a) 0 (unat (al_nmemb a * al_size a))) = Inr bs"
    using a(2) len by (auto simp: mem_read_def mem_block_def)
  have l: "length (enc64 (of_nat (length bs))) + 2 \<le> lk_lim k" using net(3) by (simp add: BLOCKSIZE_def)
  from sendmsg_adds [OF net(1,2) l, of "pr_sd pr" CLARA_MSG_FETCH_RESPONSE "pr_agent pr"] obtain s1 where
    s1: "clara_sendmsg net (pr_net pr) (pr_sd pr) CLARA_MSG_FETCH_RESPONSE (enc64 (of_nat (length bs))) (pr_agent pr) =
        Inr (s1, Some 8)"
      "adds k (pr_net pr) s1 ?out [enc16 CLARA_MSG_FETCH_RESPONSE @ enc64 (of_nat (length bs))]" by auto
  then have "lk_ok k s1" by (simp add: adds_def)
  from stream_send_correct [OF net(1) this net(3) lz, of "Some (fr_stream_opts freq)" bs fuel "pr_sd pr" "pr_agent pr",
      unfolded opts_of_def option.case] req(2) fuel obtain s2 where
    s2: "stream_send net lz fuel s1 (pr_sd pr) bs (Some (fr_stream_opts freq)) (pr_agent pr) = Inr (s2, length bs)"
      "adds k s1 s2 ?out (stream_wire (fr_stream_opts freq) (wire_blocks lz (fr_stream_opts freq) bs))" by auto
  let ?pr2 = "?pr1\<lparr>pr_net := s2\<rparr>"
  have "pr_inv ?pr2" "pr_room ?pr2" "pr_owns ?pr2 ?h a" using inv1 a(1) room same by simp_all
  from drop_pr_allocation_correct [OF this] obtain pr' where
    pr': "drop_pr_allocation ?pr2 a = Inr pr'" "pr_inv pr'" "pr_net pr' = s2"
      "pr_ids pr' = (pr_ids pr)(?h := None)" "pr_buffers pr' = (pr_buffers pr)(?h := None)" by (auto simp: same)
  have "pr_handle_fetch net lz fuel pr (enc_fetch_request freq) = Inr pr'"
    using pr'(1) req(1) f data s1(1) s2(1)
    by (cases "unat (al_nmemb a * al_size a) = 0")
      (simp_all add: pr_handle_fetch_def clara_send_fetch_response_def Let_def)
  with pr' adds_trans [OF s1(2) s2(2)] show ?thesis by simp
qed

section \<open>Objects behind pointers\<close>

text \<open>
  The agent's request for the object behind a pointer: the provider answers with the real
  object, maps the new identifier to it and leaves the identifier in its place.
\<close>

lemma handle_mapatptr_correct:
  assumes inv: "pr_inv pr" and room: "pr_room pr"
    and ptr: "pr_ids pr h = Some p" "mm_blocks (pr_mem pr) (ARG2PTR p) = Some bs" "ARG2PTR p \<noteq> 0" "8 \<le> length bs"
    and new: "pr_ids pr virt = None"
    and net: "reliable net k" "lk_ok k (pr_net pr)" "10 \<le> lk_lim k"
  shows "\<exists>pr'. handle_mapatptr net pr (enc_mapatptr_request \<lparr>mr_virt = virt, mr_ptr = h\<rparr>) from = Inr pr' \<and>
    pr_ids pr' = (pr_ids pr)(virt \<mapsto> dec64 bs) \<and> pr_allocations pr' = pr_allocations pr \<and>
    mm_blocks (pr_mem pr') = (mm_blocks (pr_mem pr))(ARG2PTR p \<mapsto> enc64 virt @ drop 8 bs) \<and> pr_inv pr' \<and>
    adds k (pr_net pr) (pr_net pr') (lk_out k (pr_sd pr) from) [enc16 CLARA_MSG_MAPATPTR_RESPONSE @ enc64 (dec64 bs)]"
proof -
  let ?real = "dec64 bs"
  from ptr(1) obtain x where x: "set_map (pr_id_map pr) h = Some x" "m_real x = p" by (auto simp: pr_ids_def)
  from room have "set_room (pr_id_map pr)" by (simp add: pr_room_def)
  from add_mapping_correct [OF inv this new, of ?real] obtain s where
    s: "add_mapping pr ?real virt = Inr (pr\<lparr>pr_id_map := s\<rparr>)" "pr_inv (pr\<lparr>pr_id_map := s\<rparr>)"
      "pr_ids (pr\<lparr>pr_id_map := s\<rparr>) = (pr_ids pr)(virt \<mapsto> ?real)" by blast
  have d: "dec64 (take 8 bs) = ?real" by (simp add: dec_take)
  from mem_write_wf [OF pr_invD(1) [OF inv] ptr(2), of 0 "enc64 virt"] ptr(4) obtain m where
    m: "mem_write (pr_mem pr) (ARG2PTR p) 0 (enc64 virt) = Inr m" "mem_wf m"
      "mm_blocks m = (mm_blocks (pr_mem pr))(ARG2PTR p \<mapsto> enc64 virt @ drop 8 bs)" by auto
  have l: "length (enc64 ?real) + 2 \<le> lk_lim k" using net(3) by simp
  from sendmsg_adds [OF net(1,2) l, of "pr_sd pr" CLARA_MSG_MAPATPTR_RESPONSE "from"] obtain s' where
    s': "clara_sendmsg net (pr_net pr) (pr_sd pr) CLARA_MSG_MAPATPTR_RESPONSE (enc64 ?real) from = Inr (s', Some 8)"
      "adds k (pr_net pr) s' (lk_out k (pr_sd pr) from) [enc16 CLARA_MSG_MAPATPTR_RESPONSE @ enc64 ?real]" by auto
  let ?pr1 = "pr\<lparr>pr_id_map := s\<rparr>" and ?pr2 = "pr\<lparr>pr_id_map := s, pr_mem := m\<rparr>"
  have run: "handle_mapatptr net pr (enc_mapatptr_request \<lparr>mr_virt = virt, mr_ptr = h\<rparr>) from =
      Inr (?pr2\<lparr>pr_net := s'\<rparr>)"
    using x s(1) m(1) s'(1) ptr
    by (simp add: handle_mapatptr_def mapping_find_by_virt_correct [OF pr_invD(2) [OF inv]] mem_read_def
        mem_block_def d clara_send_mapatptr_response_def sent_def c_assert_def
        dec_mapatptr_request_enc [of _ "[]", simplified] Let_def)
  have own: "pr_owns ?pr2 = pr_owns pr" "pr_ids ?pr2 = pr_ids ?pr1" "pr_owns ?pr1 = pr_owns pr"
    by (simp_all add: pr_owns_def pr_ids_def fun_eq_iff)
  have ok: "pr_alloc_ok ?pr2 g a" if "pr_owns pr g a" for g a
  proof -
    have "pr_alloc_ok ?pr1 g a" using pr_invD(5) [OF s(2)] that own by simp
    then show ?thesis using m(3) ptr(2,4) by (auto simp: pr_alloc_ok_def own)
  qed
  have "pr_inv ?pr2"
    using s(2) m(2) ok unfolding pr_inv_def own by auto
  with run s(3) own m(3) s'(2) show ?thesis by (intro exI [of _ "?pr2\<lparr>pr_net := s'\<rparr>"]) simp
qed

text \<open>For a pointer it does not know the answer is zero.\<close>

lemma handle_mapatptr_unknown:
  assumes inv: "pr_inv pr" and new: "pr_ids pr h = None"
    and net: "reliable net k" "lk_ok k (pr_net pr)" "10 \<le> lk_lim k"
  shows "\<exists>s'. handle_mapatptr net pr (enc_mapatptr_request \<lparr>mr_virt = virt, mr_ptr = h\<rparr>) from =
      Inr (pr\<lparr>pr_net := s'\<rparr>) \<and>
    adds k (pr_net pr) s' (lk_out k (pr_sd pr) from) [enc16 CLARA_MSG_MAPATPTR_RESPONSE @ enc64 0]"
proof -
  from new have x: "set_map (pr_id_map pr) h = None" by (simp add: pr_ids_def)
  have l: "length (enc64 0) + 2 \<le> lk_lim k" using net(3) by simp
  from sendmsg_adds [OF net(1,2) l, of "pr_sd pr" CLARA_MSG_MAPATPTR_RESPONSE "from"] obtain s' where
    "clara_sendmsg net (pr_net pr) (pr_sd pr) CLARA_MSG_MAPATPTR_RESPONSE (enc64 0) from = Inr (s', Some 8)"
    "adds k (pr_net pr) s' (lk_out k (pr_sd pr) from) [enc16 CLARA_MSG_MAPATPTR_RESPONSE @ enc64 0]" by auto
  with x show ?thesis
    by (intro exI [of _ s']) (simp add: handle_mapatptr_def mapping_find_by_virt_correct [OF pr_invD(2) [OF inv]]
        clara_send_mapatptr_response_def sent_def c_assert_def dec_mapatptr_request_enc [of _ "[]", simplified])
qed

section \<open>Calls\<close>

text \<open>What the mask of a function makes of the arguments.\<close>

definition translated :: "(arg \<Rightarrow> arg) \<Rightarrow> u32 \<Rightarrow> nat \<Rightarrow> arg list \<Rightarrow> arg list" where
  "translated g m n args =
     map (\<lambda>j. if j < n \<and> args ! j \<noteq> 0 \<and> bit m j then g (args ! j) else args ! j) [0 ..< length args]"

lemma translate_args_known:
  assumes "\<And>j. j < n \<Longrightarrow> args ! j \<noteq> 0 \<Longrightarrow> bit m (i + j) \<Longrightarrow> id_map w (args ! j) = Inr (w, g (args ! j))"
    and "n \<le> length args" and "i + n \<le> 32"
  shows "translate_args id_map m w (push_bit i 1) n args =
    Inr (w, map (\<lambda>j. if j < n \<and> args ! j \<noteq> 0 \<and> bit m (i + j) then g (args ! j) else args ! j) [0 ..< length args])"
  using assms
proof (induction n arbitrary: i args)
  case 0
  then show ?case by (simp add: map_nth)
next
  case (Suc n)
  from Suc.prems(2) obtain a rest where args: "args = a # rest" by (cases args) auto
  have "i < 32" using Suc.prems(3) by simp
  then have mb: "and m (push_bit i 1) \<noteq> 0 \<longleftrightarrow> bit m i" using mask_bit [of m i] by simp
  have a: "(if a = 0 then Inr (w, a) else if bit m i then id_map w a else Inr (w, a)) =
      Inr (w, if a \<noteq> 0 \<and> bit m i then g a else a)"
    using Suc.prems(1) [of 0] args by auto
  have rest: "id_map w (rest ! j) = Inr (w, g (rest ! j))"
    if "j < n" "rest ! j \<noteq> 0" "bit m (Suc i + j)" for j
    using Suc.prems(1) [of "Suc j"] that args by auto
  have step: "push_bit 1 (push_bit i (1 :: u32)) = push_bit (Suc i) 1" by (simp add: push_bit_push_bit)
  have "translate_args id_map m w (push_bit i 1) (Suc n) args =
      Inr (w, (if a \<noteq> 0 \<and> bit m i then g a else a) #
        map (\<lambda>j. if j < n \<and> rest ! j \<noteq> 0 \<and> bit m (Suc i + j) then g (rest ! j) else rest ! j) [0 ..< length rest])"
    unfolding args translate_args.simps mb step
    using Suc.IH [of rest "Suc i", OF rest] Suc.prems(2,3) a by (simp add: args)
  also have "\<dots> = Inr (w, map (\<lambda>j. if j < Suc n \<and> args ! j \<noteq> 0 \<and> bit m (i + j) then g (args ! j) else args ! j)
      [0 ..< length args])"
    unfolding args length_Cons upt_conv_Cons [OF zero_less_Suc] map_Suc_upt [symmetric] by simp
  finally show ?case .
qed

lemma translate_args_unknown:
  assumes "\<And>j. j < n \<Longrightarrow> args ! j \<noteq> 0 \<Longrightarrow> bit m (i + j) \<Longrightarrow>
      id_map w (args ! j) = Inr (w, g (args ! j)) \<or> id_map w (args ! j) = Inl e"
    and "n \<le> length args" and "i + n \<le> 32"
    and "\<exists>j<n. args ! j \<noteq> 0 \<and> bit m (i + j) \<and> id_map w (args ! j) = Inl e"
  shows "translate_args id_map m w (push_bit i 1) n args = Inl e"
  using assms
proof (induction n arbitrary: i args)
  case (Suc n)
  from Suc.prems(2) obtain a rest where args: "args = a # rest" by (cases args) auto
  have "i < 32" using Suc.prems(3) by simp
  then have mb: "and m (push_bit i 1) \<noteq> 0 \<longleftrightarrow> bit m i" using mask_bit [of m i] by simp
  have step: "push_bit 1 (push_bit i (1 :: u32)) = push_bit (Suc i) 1" by (simp add: push_bit_push_bit)
  show ?case
  proof (cases "a \<noteq> 0 \<and> bit m i \<and> id_map w a = Inl e")
    case True
    then show ?thesis unfolding args translate_args.simps mb by simp
  next
    case False
    with Suc.prems(1) [of 0] args have a: "\<exists>x. (if a = 0 then Inr (w, a) else if bit m i then id_map w a else Inr (w, a)) =
        Inr (w, x)" by auto
    obtain j where j: "j < Suc n" "args ! j \<noteq> 0" "bit m (i + j)" "id_map w (args ! j) = Inl e"
      using Suc.prems(4) by blast
    with False args obtain j' where "j = Suc j'" by (cases j) auto
    with j args have ex: "\<exists>j<n. rest ! j \<noteq> 0 \<and> bit m (Suc i + j) \<and> id_map w (rest ! j) = Inl e" by auto
    have "translate_args id_map m w (push_bit (Suc i) 1) n rest = Inl e"
    proof (rule Suc.IH)
      show "id_map w (rest ! j) = Inr (w, g (rest ! j)) \<or> id_map w (rest ! j) = Inl e"
        if "j < n" "rest ! j \<noteq> 0" "bit m (Suc i + j)" for j
        using Suc.prems(1) [of "Suc j"] that args by auto
      show "n \<le> length rest" "Suc i + n \<le> 32" using Suc.prems(2,3) args by simp_all
    qed (rule ex)
    with a show ?thesis unfolding args translate_args.simps mb step by auto
  qed
qed simp

text \<open>
  A call at the provider: the handler of the table gets the arguments with the marked
  identifiers replaced by what they are mapped to, and its return value is sent back.
\<close>

lemma provider_id_map_correct:
  assumes "pr_inv pr"
  shows "provider_id_map pr i = (case pr_ids pr i of None \<Rightarrow> Inl Assertion_Failed | Some x \<Rightarrow> Inr (pr, x))"
  by (simp add: provider_id_map_def mapping_find_by_virt_correct [OF pr_invD(2) [OF assms]] pr_ids_def
      split: option.splits)

definition real_of :: "('n, 'o) clara_provider \<Rightarrow> arg \<Rightarrow> arg" where
  "real_of pr i = (case pr_ids pr i of None \<Rightarrow> i | Some x \<Rightarrow> x)"

lemma exec_function:
  assumes "er_fun params = of_nat (cl_value f)"
  shows "sint (ucast (er_fun params) :: u32) = int (cl_value f)"
  unfolding assms by (rule fun_index [OF cl_value_bound])

lemma provider_execute:
  fixes pr :: "('n, 'o) clara_provider"
  assumes inv: "pr_inv pr" and f: "map_of (exec_fun_table_entries vd :: (cl_function_t \<times> ('n, 'o) clara_provider fun_entry) list) f = Some (entry H is)"
    and params: "er_fun params = of_nat (cl_value f)"
    and fni: "opencl_get_clfuninfo f = Inr fni" "fi_argc fni \<le> length args"
    and known: "\<And>j. j < fi_argc fni \<Longrightarrow> args ! j \<noteq> 0 \<Longrightarrow> bit (ARGS is) j \<Longrightarrow> pr_ids pr (args ! j) \<noteq> None"
    and run: "H pr (params\<lparr>er_retval := 0\<rparr>) (translated (real_of pr) (ARGS is) (fi_argc fni) args) =
      Inr (pr1, params1, args1)"
    and net: "reliable net k" "lk_ok k (pr_net pr1)" "10 \<le> lk_lim k"
  shows "\<exists>s. pr_handle_execute net vd pr (enc_execute_request params @ enc_args args) from =
      Inr (pr1\<lparr>pr_net := s\<rparr>) \<and>
    adds k (pr_net pr1) s (lk_out k (pr_sd pr1) from)
      [enc16 CLARA_MSG_EXECUTE_RESPONSE @ enc64 (er_retval params1)]"
proof -
  have argc: "fi_argc fni \<le> 12" using opencl_get_clfuninfo_row [of f] fni(1) by auto
  have e: "cl_value f < length (exec_fun_table vd :: ('n, 'o) clara_provider fun_entry list)"
    "(exec_fun_table vd :: ('n, 'o) clara_provider fun_entry list) ! cl_value f = entry H is"
    using table_entry [OF f] by (simp_all add: exec_fun_table_def)
  have "translate_args provider_id_map (ARGS is) pr (push_bit 0 1) (fi_argc fni) args =
      Inr (pr, map (\<lambda>j. if j < fi_argc fni \<and> args ! j \<noteq> 0 \<and> bit (ARGS is) (0 + j) then real_of pr (args ! j) else args ! j)
        [0 ..< length args])"
    using known argc fni(2)
    by (intro translate_args_known) (auto simp: provider_id_map_correct [OF inv] real_of_def split: option.splits)
  then have tr: "translate_args provider_id_map (ARGS is) pr 1 (fi_argc fni) args =
      Inr (pr, translated (real_of pr) (ARGS is) (fi_argc fni) args)" by (simp add: translated_def)
  have exec: "clara_execute (exec_fun_table vd) provider_id_map pr params args 0 =
      Inr (pr1, params1, args1, er_retval params1, True)"
    using e tr fni(1) argc run
    unfolding clara_execute_def exec_function [OF params] Let_def nat_int cl_function_of_value
    by (simp add: entry_def MAX_ARGS_def c_assert_def)
  have l: "length (enc64 (er_retval params1)) + 2 \<le> lk_lim k" using net(3) by simp
  from sendmsg_adds [OF net(1,2) l, of "pr_sd pr1" CLARA_MSG_EXECUTE_RESPONSE "from"] obtain s where
    "clara_sendmsg net (pr_net pr1) (pr_sd pr1) CLARA_MSG_EXECUTE_RESPONSE (enc64 (er_retval params1)) from =
      Inr (s, Some 8)"
    "adds k (pr_net pr1) s (lk_out k (pr_sd pr1) from)
      [enc16 CLARA_MSG_EXECUTE_RESPONSE @ enc64 (er_retval params1)]" by auto
  then show ?thesis
    by (intro exI [of _ s]) (simp add: pr_handle_execute_def execute_message exec c_assert_def
        clara_send_execute_response_def sent_def dec_args_enc [of args "[]", simplified])
qed

text \<open>An identifier that is not known among the marked arguments aborts the provider.\<close>

lemma provider_execute_unknown:
  fixes pr :: "('n, 'o) clara_provider"
  assumes inv: "pr_inv pr" and f: "map_of (exec_fun_table_entries vd :: (cl_function_t \<times> ('n, 'o) clara_provider fun_entry) list) f = Some (entry H is)"
    and params: "er_fun params = of_nat (cl_value f)"
    and fni: "opencl_get_clfuninfo f = Inr fni" "fi_argc fni \<le> length args"
    and unknown: "j < fi_argc fni" "args ! j \<noteq> 0" "bit (ARGS is) j" "pr_ids pr (args ! j) = None"
  shows "pr_handle_execute net vd pr (enc_execute_request params @ enc_args args) from = Inl Assertion_Failed"
proof -
  have argc: "fi_argc fni \<le> 12" using opencl_get_clfuninfo_row [of f] fni(1) by auto
  have e: "cl_value f < length (exec_fun_table vd :: ('n, 'o) clara_provider fun_entry list)"
    "(exec_fun_table vd :: ('n, 'o) clara_provider fun_entry list) ! cl_value f = entry H is"
    using table_entry [OF f] by (simp_all add: exec_fun_table_def)
  have "translate_args provider_id_map (ARGS is) pr (push_bit 0 1) (fi_argc fni) args = Inl Assertion_Failed"
    using unknown argc fni(2)
    by (intro translate_args_unknown [where g = "real_of pr"])
       (auto simp: provider_id_map_correct [OF inv] real_of_def split: option.splits)
  then have "clara_execute (exec_fun_table vd) provider_id_map pr params args 0 = Inl Assertion_Failed"
    using e fni(1) argc
    unfolding clara_execute_def exec_function [OF params] Let_def nat_int cl_function_of_value
    by (simp add: entry_def MAX_ARGS_def c_assert_def)
  then show ?thesis by (simp add: pr_handle_execute_def execute_message dec_args_enc [of args "[]", simplified])
qed

end
