(* ===== verification/Provider_Inv.thy ===== *)
theory Provider_Inv
  imports Provider_Laws
begin

text \<open>
  The invariant of the provider over every message: whatever call runs, and whatever the
  vendor's library answers, the maps stay filed by their identifiers and every allocation keeps
  its block. What is used of the library is that it keeps to the memory it is given.
\<close>

section \<open>What the library may do to memory\<close>

definition mem_like :: "memory \<Rightarrow> memory \<Rightarrow> bool" where
  "mem_like m m' \<longleftrightarrow> mem_wf m' \<and> (\<forall>p. map_option length (mm_blocks m' p) = map_option length (mm_blocks m p))"

definition vendor_ok :: "'o vendor \<Rightarrow> bool" where
  "vendor_ok vd \<longleftrightarrow>
     (\<forall>f xs s m s' m' r. mem_wf m \<longrightarrow> vd_status vd f xs s m = (r, s', m') \<longrightarrow> mem_like m m') \<and>
     (\<forall>f xs s m s' m' r e. mem_wf m \<longrightarrow> vd_object vd f xs s m = (r, e, s', m') \<longrightarrow> mem_like m m')"

lemma vendor_okD:
  assumes "vendor_ok vd" and "mem_wf m"
  shows "vd_status vd f xs s m = (st, s', m') \<Longrightarrow> mem_like m m'"
    and "vd_object vd f xs s m = (r, e, s', m') \<Longrightarrow> mem_like m m'"
  using assms unfolding vendor_ok_def by blast+

lemma mem_like_refl: "mem_wf m \<Longrightarrow> mem_like m m"
  by (simp add: mem_like_def)

lemma mem_write_like:
  assumes "mem_write m p off bs = Inr m'" and "mem_wf m"
  shows "mem_like m m'"
proof -
  from assms(1) obtain old where old: "mm_blocks m p = Some old" "off + length bs \<le> length old"
    by (auto simp: mem_write_def mem_block_def fault_simps split: if_splits option.splits)
  from mem_write_wf [OF assms(2) old] assms(1) show ?thesis
    using old by (auto simp: mem_like_def)
qed

section \<open>Calls keep the invariant\<close>

text \<open>The state after a call knows the same identifiers and owns the same allocations.\<close>

definition pr_keeps :: "('n, 'o) clara_provider \<Rightarrow> ('n, 'o) clara_provider \<Rightarrow> bool" where
  "pr_keeps pr pr' \<longleftrightarrow> (pr_inv pr \<and> pr_room pr \<longrightarrow> pr_inv pr' \<and> pr_room pr' \<and>
     pr_ids pr' = pr_ids pr \<and> pr_owns pr' = pr_owns pr \<and> pr_net pr' = pr_net pr \<and> pr_sd pr' = pr_sd pr \<and>
     pr_agent pr' = pr_agent pr)"

lemma pr_keeps_refl [simp]: "pr_keeps pr pr"
  by (simp add: pr_keeps_def)

lemma pr_keeps_trans: "pr_keeps pr pr1 \<Longrightarrow> pr_keeps pr1 pr2 \<Longrightarrow> pr_keeps pr pr2"
  by (auto simp: pr_keeps_def)

lemma pr_inv_mem:
  assumes inv: "pr_inv pr" and m: "mem_like (pr_mem pr) m"
  shows "pr_inv (pr\<lparr>pr_mem := m\<rparr>)"
proof -
  have same: "pr_ids (pr\<lparr>pr_mem := m\<rparr>) = pr_ids pr" "pr_owns (pr\<lparr>pr_mem := m\<rparr>) = pr_owns pr"
    by (simp_all add: pr_ids_def pr_owns_def fun_eq_iff)
  have "pr_alloc_ok (pr\<lparr>pr_mem := m\<rparr>) h a" if "pr_owns pr h a" for h a
  proof -
    from pr_invD(5) [OF inv that] obtain bs where
      bs: "mm_blocks (pr_mem pr) (al_ptr a) = Some bs" "length bs = unat (al_nmemb a * al_size a)"
      by (auto simp: pr_alloc_ok_def)
    from m bs(1) have "map_option length (mm_blocks m (al_ptr a)) = Some (length bs)" by (simp add: mem_like_def)
    then obtain bs' where "mm_blocks m (al_ptr a) = Some bs'" "length bs' = length bs" by auto
    with pr_invD(5) [OF inv that] bs(2) show ?thesis by (auto simp: pr_alloc_ok_def same)
  qed
  with inv m show ?thesis unfolding pr_inv_def same by (auto simp: mem_like_def)
qed

lemma pr_keeps_mem:
  assumes "mem_wf (pr_mem pr) \<Longrightarrow> mem_like (pr_mem pr) m"
  shows "pr_keeps pr (pr\<lparr>pr_mem := m\<rparr>)"
  using pr_inv_mem [OF _ assms [OF pr_invD(1)]]
  by (auto simp: pr_keeps_def pr_room_def pr_ids_def pr_owns_def fun_eq_iff)

lemma pr_keeps_other:
  "pr_keeps pr (pr\<lparr>pr_vendor := s\<rparr>)" "pr_keeps pr (pr\<lparr>pr_platforms := ps\<rparr>)"
  "pr_keeps pr (pr\<lparr>pr_platform_heap := ph\<rparr>)"
  by (auto simp: pr_keeps_def pr_inv_def pr_ids_def pr_owns_def pr_alloc_ok_def pr_room_def fun_eq_iff)

lemma pr_keeps_trav:
  "pr_keeps pr (pr\<lparr>pr_id_map := (pr_id_map pr)\<lparr>cs_trav := tr\<rparr>\<rparr>)"
  "pr_keeps pr (pr\<lparr>pr_allocations := (pr_allocations pr)\<lparr>cs_trav := tr\<rparr>\<rparr>)"
  by (auto simp: pr_keeps_def pr_inv_def pr_ids_def pr_owns_def pr_alloc_ok_def pr_room_def fun_eq_iff set_wf_def
      set_map_def set_entries_def set_refs_def set_room_def set_count_def)

lemma pr_keeps_call:
  assumes "mem_wf (pr_mem pr) \<Longrightarrow> mem_like (pr_mem pr) m"
  shows "pr_keeps pr (pr\<lparr>pr_vendor := s, pr_mem := m\<rparr>)"
proof -
  have "pr_keeps (pr\<lparr>pr_vendor := s\<rparr>) (pr\<lparr>pr_vendor := s\<rparr>\<lparr>pr_mem := m\<rparr>)"
    by (rule pr_keeps_mem) (simp add: assms)
  from pr_keeps_trans [OF pr_keeps_other(1) this] show ?thesis by simp
qed

lemma status_call_keeps:
  assumes "vendor_ok vd" and "status_call vd f xs pr params args = Inr (pr', params', args')"
  shows "pr_keeps pr pr'"
proof -
  obtain r s m where r: "vd_status vd f xs (pr_vendor pr) (pr_mem pr) = (r, s, m)" by (metis prod_cases3)
  from pr_keeps_call [OF vendor_okD(1) [OF assms(1) _ r], of s] r assms(2)
  show ?thesis by (auto simp: status_call_def)
qed

lemma object_call_keeps:
  assumes "vendor_ok vd" and "object_call vd f xs pr params args = Inr (pr', params', args')"
  shows "pr_keeps pr pr'"
proof -
  obtain r e s m where r: "vd_object vd f xs (pr_vendor pr) (pr_mem pr) = (r, e, s, m)" by (metis prod_cases4)
  from pr_keeps_call [OF vendor_okD(2) [OF assms(1) _ r], of s] r assms(2)
  show ?thesis by (auto simp: object_call_def)
qed

lemma errcode_call_keeps:
  assumes "vendor_ok vd" and "errcode_call vd f xs e pr params args = Inr (pr', params', args')"
  shows "pr_keeps pr pr'"
proof -
  obtain r c s m where r: "vd_object vd f xs (pr_vendor pr) (pr_mem pr) = (r, c, s, m)" by (metis prod_cases4)
  with assms(2) obtain m' where m': "m' = m \<or> (\<exists>p. mem_write m p 0 (enc32 c) = Inr m')"
    "pr' = pr\<lparr>pr_vendor := s, pr_mem := m'\<rparr>"
    by (auto simp: errcode_call_def fault_simps split: if_splits)
  have "mem_like (pr_mem pr) m'" if "mem_wf (pr_mem pr)"
    using vendor_okD(2) [OF assms(1) that r] m'(1) mem_write_like [of m _ 0 "enc32 c" m']
    by (auto simp: mem_like_def)
  then have "pr_keeps pr (pr\<lparr>pr_vendor := s, pr_mem := m'\<rparr>)" by (rule pr_keeps_call)
  with m'(2) show ?thesis by simp
qed

lemma mem_write_keeps:
  assumes "mem_write (pr_mem pr) p off bs = Inr m"
  shows "pr_keeps pr (pr\<lparr>pr_mem := m\<rparr>)"
  by (rule pr_keeps_mem) (rule mem_write_like [OF assms])

lemma translate_in_place_keeps:
  assumes "translate_in_place pr n p = Inr pr'"
  shows "pr_keeps pr pr'"
  using assms by (auto simp: translate_in_place_def fault_simps mem_write_keeps split: if_splits)

lemma find_platform_keeps:
  assumes "provider_find_platform pr i = Inr (pr', x)"
  shows "pr_keeps pr pr'" and "pr_mem pr' = pr_mem pr"
  using assms by (auto simp: provider_find_platform_def fault_simps pr_keeps_other)

lemma find_device_keeps:
  assumes "provider_find_device pr pf i = Inr (pr', x)"
  shows "pr_keeps pr pr'" and "pr_mem pr' = pr_mem pr"
  using assms by (auto simp: provider_find_device_def fault_simps pr_keeps_other split: option.splits)

lemma context_properties_keeps:
  assumes "context_properties pr p = Inr (pr', pf)"
  shows "pr_keeps pr pr'"
proof -
  from assms obtain pr1 m off bs where "provider_find_platform pr off = Inr (pr1, pf)"
    and w: "mem_write (pr_mem pr1) (ARG2PTR p) 0 bs = Inr m" "pr' = pr1\<lparr>pr_mem := m\<rparr>"
    by (auto simp: context_properties_def fault_simps)
  then have "pr_keeps pr pr1" by (auto dest: find_platform_keeps)
  moreover have "pr_keeps pr1 pr'" using w mem_write_keeps by blast
  ultimately show ?thesis by (rule pr_keeps_trans)
qed

lemma translate_devices_keeps:
  "translate_devices i n pr pf p = Inr pr' \<Longrightarrow> pr_keeps pr pr'"
proof (induction i n pr pf p rule: translate_devices.induct)
  case (2 i n pr pf p)
  from "2.prems" obtain bs pr1 device dv m where
    s: "mem_read (pr_mem pr) (ARG2PTR p) (8 * i) 8 = Inr bs" "provider_find_device pr pf (dec64 bs) = Inr (pr1, device)"
      "deref (pr_device_heap pr1) device = Inr dv" and
    w: "mem_write (pr_mem pr1) (ARG2PTR p) (8 * i) (enc64 (dvc_id dv)) = Inr m" and
    r: "translate_devices (Suc i) n (pr1\<lparr>pr_mem := m\<rparr>) pf p = Inr pr'"
    by (auto simp: fault_simps)
  from "2.IH" [OF s(1,2) refl s(3) w r] have "pr_keeps (pr1\<lparr>pr_mem := m\<rparr>) pr'" .
  with find_device_keeps(1) [OF s(2)] mem_write_keeps [OF w] show ?case by (blast intro: pr_keeps_trans)
qed simp

section \<open>Every handler of the table\<close>

definition keeps :: "('n, 'o) pr_handler \<Rightarrow> bool" where
  "keeps H \<longleftrightarrow> (\<forall>pr params args pr' params' args'.
     H pr params args = Inr (pr', params', args') \<longrightarrow> pr_keeps pr pr')"

lemma keepsI:
  assumes "\<And>pr params args pr' params' args'. H pr params args = Inr (pr', params', args') \<Longrightarrow> pr_keeps pr pr'"
  shows "keeps H"
  using assms by (auto simp: keeps_def)

lemmas plain_calls =
  get_object_info_def clara_clGetDeviceInfo_def clara_clRetainContext_def clara_clReleaseContext_def
  clara_clCreateCommandQueue_def clara_clRetainCommandQueue_def clara_clReleaseCommandQueue_def
  clara_clGetCommandQueueInfo_def clara_clFlush_def clara_clFinish_def clara_clCreateBuffer_def
  clara_clRetainMemObject_def clara_clReleaseMemObject_def clara_clGetMemObjectInfo_def
  clara_clCreateProgramWithBinary_def clara_clRetainProgram_def clara_clReleaseProgram_def
  clara_clUnloadCompiler_def clara_clGetProgramInfo_def clara_clGetProgramBuildInfo_def
  clara_clCreateKernel_def clara_clRetainKernel_def clara_clReleaseKernel_def clara_clGetKernelInfo_def
  clara_clWaitForEvents_def clara_clRetainEvent_def clara_clReleaseEvent_def clara_clEnqueueMarker_def
  clara_clEnqueueWaitForEvents_def clara_clEnqueueBarrier_def clara_clGetEventProfilingInfo_def

lemmas wait_list_calls =
  clara_clEnqueueReadBuffer_def clara_clEnqueueWriteBuffer_def clara_clEnqueueCopyBuffer_def
  clara_clCreateProgramWithSource_def clara_clBuildProgram_def clara_clEnqueueNDRangeKernel_def
  clara_clEnqueueTask_def

lemma keeps_plain:
  assumes "vendor_ok vd"
    and "H \<in> {clara_clGetDeviceInfo vd, clara_clRetainContext vd, clara_clReleaseContext vd,
      clara_clCreateCommandQueue vd, clara_clRetainCommandQueue vd, clara_clReleaseCommandQueue vd,
      clara_clGetCommandQueueInfo vd, clara_clFlush vd, clara_clFinish vd, clara_clCreateBuffer vd,
      clara_clRetainMemObject vd, clara_clReleaseMemObject vd, clara_clGetMemObjectInfo vd,
      clara_clCreateProgramWithBinary vd, clara_clRetainProgram vd, clara_clReleaseProgram vd,
      clara_clUnloadCompiler vd, clara_clGetProgramInfo vd, clara_clGetProgramBuildInfo vd,
      clara_clCreateKernel vd, clara_clRetainKernel vd, clara_clReleaseKernel vd, clara_clGetKernelInfo vd,
      clara_clWaitForEvents vd, clara_clRetainEvent vd, clara_clReleaseEvent vd, clara_clEnqueueMarker vd,
      clara_clEnqueueWaitForEvents vd, clara_clEnqueueBarrier vd, clara_clGetEventProfilingInfo vd}"
  shows "keeps H"
  using assms(2) by (auto intro!: keepsI simp: plain_calls dest: status_call_keeps [OF assms(1)] object_call_keeps [OF assms(1)])

lemma keeps_wait_list:
  assumes "vendor_ok vd"
    and "H \<in> {clara_clEnqueueReadBuffer vd, clara_clEnqueueWriteBuffer vd, clara_clEnqueueCopyBuffer vd,
      clara_clCreateProgramWithSource vd, clara_clBuildProgram vd, clara_clEnqueueNDRangeKernel vd,
      clara_clEnqueueTask vd}"
  shows "keeps H"
  using assms(2)
  by (auto intro!: keepsI simp: wait_list_calls fault_simps
      dest!: translate_in_place_keeps status_call_keeps [OF assms(1)] errcode_call_keeps [OF assms(1)]
      intro: pr_keeps_trans)

lemma keeps_context:
  assumes "vendor_ok vd"
  shows "keeps (clara_clCreateContext vd)" and "keeps (clara_clCreateContextFromType vd)"
  by (auto intro!: keepsI simp: clara_clCreateContext_def clara_clCreateContextFromType_def fault_simps Let_def
      dest!: context_properties_keeps translate_devices_keeps errcode_call_keeps [OF assms])
     (blast intro: pr_keeps_trans)+

lemma keeps_set_arg:
  assumes "vendor_ok vd"
  shows "keeps (clara_clSetKernelArg vd)"
  by (auto intro!: keepsI simp: clara_clSetKernelArg_def fault_simps Let_def
      dest!: mem_write_keeps status_call_keeps [OF assms] split: if_splits option.splits)
     (blast intro: pr_keeps_trans)+

lemma find_by_real_keeps:
  assumes "mapping_find_by_real (pr_id_map pr) real = Inr (s, r)"
  shows "pr_keeps pr (pr\<lparr>pr_id_map := s\<rparr>)"
proof (cases "pr_inv pr \<and> pr_room pr")
  case True
  then have "set_wf (pr_id_map pr)" "set_room (pr_id_map pr)" using pr_invD(2) by (auto simp: pr_room_def)
  from mapping_find_by_real_correct [OF this, of real] assms obtain tr where
    "s = (pr_id_map pr)\<lparr>cs_trav := tr\<rparr>" by auto
  then show ?thesis using pr_keeps_trav(1) [of pr tr] by simp
qed (auto simp: pr_keeps_def)

lemma keeps_event_info:
  fixes vd :: "'o vendor"
  assumes "vendor_ok vd"
  shows "keeps (clara_clGetEventInfo vd :: ('n, 'o) pr_handler)"
proof (rule keepsI)
  fix pr pr' :: "('n, 'o) clara_provider" and params args params' args'
  assume run: "clara_clGetEventInfo vd pr params args = Inr (pr', params', args')"
  then obtain pr1 where pr1: "pr_keeps pr pr1" and
    "pr' = pr1 \<or> (\<exists>real s r p bs m. mapping_find_by_real (pr_id_map pr1) real = Inr (s, r) \<and>
       mem_write (pr_mem pr1) p 0 bs = Inr m \<and> pr' = pr1\<lparr>pr_id_map := s, pr_mem := m\<rparr>)"
    by (auto simp: clara_clGetEventInfo_def fault_simps Let_def dest!: status_call_keeps [OF assms]
        split: if_splits option.splits) blast
  then show "pr_keeps pr pr'"
  proof (elim disjE exE conjE)
    fix real s r p bs m
    assume f: "mapping_find_by_real (pr_id_map pr1) real = Inr (s, r)"
      and w: "mem_write (pr_mem pr1) p 0 bs = Inr m" and e: "pr' = pr1\<lparr>pr_id_map := s, pr_mem := m\<rparr>"
    have "pr_keeps (pr1\<lparr>pr_id_map := s\<rparr>) (pr1\<lparr>pr_id_map := s\<rparr>\<lparr>pr_mem := m\<rparr>)"
      by (rule mem_write_keeps) (use w in simp)
    with find_by_real_keeps [OF f] pr1 e show "pr_keeps pr pr'" by (auto intro: pr_keeps_trans)
  qed (use pr1 in simp)
qed

lemma handlers_keep:
  fixes vd :: "'o vendor"
  assumes "vendor_ok vd"
    and "(f, e) \<in> set (exec_fun_table_entries vd :: (cl_function_t \<times> ('n, 'o) clara_provider fun_entry) list)"
  shows "\<exists>H. fe_pfn e = Some H \<and> keeps H"
proof -
  have "\<forall>x\<in>set (exec_fun_table_entries vd :: (cl_function_t \<times> ('n, 'o) clara_provider fun_entry) list).
      \<exists>H. fe_pfn (snd x) = Some H \<and> keeps H"
    unfolding exec_fun_table_entries_def entry_def list.set ball_simps
    by (intro conjI)
       (simp_all add: keeps_plain [OF assms(1)] keeps_wait_list [OF assms(1)] keeps_context [OF assms(1)]
          keeps_set_arg [OF assms(1)] keeps_event_info [OF assms(1)])
  with assms(2) show ?thesis by force
qed

section \<open>Every message\<close>

lemma translate_args_state:
  assumes "\<And>i w' a. id_map w i = Inr (w', a) \<Longrightarrow> w' = w"
  shows "translate_args id_map m w sel n args = Inr (w', args') \<Longrightarrow> w' = w"
proof (induction n arbitrary: sel args args')
  case (Suc n)
  then obtain a rest where "args = a # rest" by (cases args) auto
  with Suc.prems obtain w1 a' rest' where step: "translate_args id_map m w1 (push_bit 1 sel) n rest = Inr (w', rest')"
    and "w1 = w \<or> id_map w a = Inr (w1, a')" by (auto simp: fault_simps split: if_splits)
  with assms [of a w1 a'] have "w1 = w" by blast
  with step Suc.IH show ?case by blast
qed simp

lemma execute_keeps:
  fixes vd :: "'o vendor" and pr :: "('n, 'o) clara_provider"
  assumes vd: "vendor_ok vd"
    and run: "clara_execute (exec_fun_table vd) provider_id_map pr params args x = Inr (pr', params', args', y, b)"
  shows "pr_keeps pr pr'"
proof -
  let ?d = "nat (sint (ucast (er_fun params) :: u32))" 
    and ?tab = "exec_fun_table vd :: ('n, 'o) clara_provider fun_entry list"
  consider "pr' = pr" | H m n pr1 args1 params1 args2 where "fe_pfn (?tab ! ?d) = Some H"
      "?d < length (?tab)" "translate_args provider_id_map m pr 1 n args = Inr (pr1, args1)"
      "H pr1 (params\<lparr>er_retval := x\<rparr>) args1 = Inr (pr', params1, args2)"
    using run unfolding clara_execute_def Let_def
    by (auto simp: fault_simps not_less not_le nat_less_iff split: if_splits option.splits)
  then show ?thesis
  proof cases
    case 2
    have "w = pr" if "provider_id_map pr i = Inr (w, a)" for i w a
      using that by (auto simp: provider_id_map_def fault_simps split: option.splits)
    then have pr1: "pr1 = pr" by (rule translate_args_state [OF _ 2(3)])
    from 2(1,2) obtain f e where
      e: "map_of (exec_fun_table_entries vd :: (cl_function_t \<times> ('n, 'o) clara_provider fun_entry) list) f = Some e"
        "fe_pfn e = Some H"
      by (auto simp: exec_fun_table_def fun_table_def no_entry_def simp del: upt_Suc split: option.splits)
    from handlers_keep [OF vd map_of_SomeD [OF e(1)]] e(2) have "keeps H" by auto
    with 2(4) pr1 show ?thesis unfolding keeps_def by blast
  qed simp
qed

definition pr_spare :: "('n, 'o) clara_provider \<Rightarrow> bool" where
  "pr_spare pr \<longleftrightarrow> set_count (pr_id_map pr) < 65534 \<and> set_count (pr_allocations pr) < 65534"

lemma pr_spare_room: "pr_spare pr \<Longrightarrow> pr_room pr"
  by (simp add: pr_spare_def pr_room_def set_room_def)

lemma set_insert_ok:
  assumes wf: "set_wf s" and room: "set_room s" and ins: "set_insert s k v = Inr (s', True)"
  shows "set_map s k = None" and "set_wf s'" and "set_map s' = (set_map s)(k \<mapsto> v)"
    and "set_count s' = set_count s + 1"
proof -
  show new: "set_map s k = None" using set_insert_old [OF wf room, of k _ v] ins by fastforce
  then have k: "k \<notin> dom (set_map s)" by auto
  from set_insert_map [OF wf room k, of v] ins show "set_wf s'" "set_map s' = (set_map s)(k \<mapsto> v)" by auto
  from set_insert_new [OF wf room k, of v] ins have e: "set_wf s'"
    "set_entries s' = filter (\<lambda>e. fst e < k) (set_entries s) @ (k, v) # filter (\<lambda>e. k < fst e) (set_entries s)"
    by auto
  have "fst e \<noteq> k" if "e \<in> set (set_entries s)" for e using that k by (auto simp: set_map_dom)
  then have "filter (\<lambda>e. k < fst e) (set_entries s) = filter (\<lambda>e. \<not> fst e < k) (set_entries s)"
    by (intro filter_cong) (auto simp: not_less less_le)
  with e show "set_count s' = set_count s + 1"
    using sum_length_filter_compl [of "\<lambda>e. fst e < k" "set_entries s"] wf by (simp add: set_count_entries)
qed

lemma add_mapping_ok:
  assumes inv: "pr_inv pr" and room: "set_room (pr_id_map pr)" and run: "add_mapping pr real virt = Inr pr'"
  obtains s where "pr_ids pr virt = None" and "pr' = pr\<lparr>pr_id_map := s\<rparr>" and "set_wf s"
    and "set_map s = (set_map (pr_id_map pr))(virt \<mapsto> mapping_create real virt)"
    and "set_count s = set_count (pr_id_map pr) + 1"
proof -
  from run obtain s where s: "set_insert (pr_id_map pr) virt (mapping_create real virt) = Inr (s, True)"
    "pr' = pr\<lparr>pr_id_map := s\<rparr>"
    by (auto simp: add_mapping_def fault_simps mapping_create_def)
  note ok = set_insert_ok [OF pr_invD(2) [OF inv] room s(1)]
  with s(2) show thesis by (intro that [of s]) (auto simp: pr_ids_def)
qed

lemma handle_mapping_inv:
  assumes inv: "pr_inv pr" and room: "set_room (pr_id_map pr)" and run: "handle_mapping pr buf = Inr pr'"
  shows "pr_inv pr'"
proof -
  from run have m: "add_mapping pr (dec64 (drop 8 buf)) (dec64 buf) = Inr pr'"
    by (simp add: handle_mapping_def split: if_splits)
  from add_mapping_ok [OF inv room m] have "pr_ids pr (dec64 buf) = None" by blast
  from add_mapping_correct [OF inv room this, of "dec64 (drop 8 buf)"] m show ?thesis by auto
qed

lemma keeps_inv: "pr_keeps pr pr' \<Longrightarrow> pr_inv pr \<Longrightarrow> pr_room pr \<Longrightarrow> pr_inv pr' \<and> pr_room pr'"
  by (simp add: pr_keeps_def)

lemma handle_mapatptr_inv:
  assumes inv: "pr_inv pr" and room: "pr_room pr" and run: "handle_mapatptr net pr buf from = Inr pr'"
  shows "pr_inv pr'"
proof -
  from run consider s where "pr' = pr\<lparr>pr_net := s\<rparr>"
    | s real virt pr1 p bs m where "add_mapping pr real virt = Inr pr1"
      "mem_write (pr_mem pr1) p 0 bs = Inr m" "pr' = pr1\<lparr>pr_mem := m, pr_net := s\<rparr>"
    unfolding handle_mapatptr_def Let_def
    by (auto simp: fault_simps split: if_splits option.splits)
  then show ?thesis
  proof cases
    case 2
    from room have r: "set_room (pr_id_map pr)" by (simp add: pr_room_def)
    from add_mapping_ok [OF inv r 2(1)] have "pr_ids pr virt = None" by blast
    from add_mapping_correct [OF inv r this, of real] 2(1) have inv1: "pr_inv pr1" by auto
    have "pr_inv (pr1\<lparr>pr_mem := m\<rparr>)"
    proof -
      have "mem_like (pr_mem pr1) m" by (rule mem_write_like [OF 2(2) pr_invD(1) [OF inv1]])
      then show ?thesis using pr_inv_mem [OF inv1] by simp
    qed
    then have "pr_inv (pr1\<lparr>pr_mem := m\<rparr>\<lparr>pr_net := s\<rparr>)" by simp
    with 2(3) show ?thesis by simp
  qed (use inv in simp)
qed

lemma drop_inv:
  assumes inv: "pr_inv pr" and room: "pr_room pr" and a: "pr_owns pr h a" and run: "drop_pr_allocation pr a = Inr pr'"
  shows "pr_inv pr'"
  using drop_pr_allocation_correct [OF inv room a] run by auto

lemma handle_allocate_inv:
  assumes inv: "pr_inv pr" and room: "pr_spare pr" and run: "pr_handle_allocate net pr buf from = Inr pr'"
    and mem: "snd (mem_calloc (pr_mem pr) (ar_nmemb (dec_allocate_request buf)) (ar_size (dec_allocate_request buf))) \<noteq> 0"
  shows "pr_inv pr'"
proof -
  let ?areq = "dec_allocate_request buf" and ?extra = "drop 32 buf"
  let ?h = "ar_handle ?areq"
  obtain m p where mp: "mem_calloc (pr_mem pr) (ar_nmemb ?areq) (ar_size ?areq) = (m, p)" by fastforce
  with mem have p: "p \<noteq> 0" by simp
  note m = mem_calloc_wf [OF pr_invD(1) [OF inv] mp]
  let ?a = "\<lparr>al_handle = ?h, al_nmemb = ar_nmemb ?areq, al_size = ar_size ?areq, al_ptr = p\<rparr>"
  let ?x = "mapping_create (PTR2ARG p) ?h"
  let ?n = "unat (ar_nmemb ?areq * ar_size ?areq)"
  have "unat (ar_nmemb ?areq) * unat (ar_size ?areq) < 2 ^ 64"
    using mp p by (auto simp: mem_calloc_def split: if_splits)
  then have prod: "?n = unat (ar_nmemb ?areq) * unat (ar_size ?areq)" by (simp add: unat_mult_lem [THEN iffD1])
  let ?copied = "if ?extra = [] then Inr m
    else if length ?extra < ?n then Inl Uninit_Read else mem_write m p 0 (take ?n ?extra)"
  have alloc: "clara_create_allocation (pr_mem pr) ?areq = (m, ?a)" by (simp add: clara_create_allocation_def mp)
  from run have len: "\<not> length buf < 32" by (auto simp: pr_handle_allocate_def)
  note run1 = run [unfolded pr_handle_allocate_def if_not_P [OF len] Let_def alloc prod.case clara_allocation.simps]
  from run1 obtain s where s: "set_insert (pr_allocations pr) ?h ?a = Inr (s, True)" by (auto elim!: rbind_eq_InrE)
  note run2 = run1 [unfolded s rbind_simps prod.case c_assert_simps]
  from run2 obtain ids where ids: "set_insert (pr_id_map pr) ?h ?x = Inr (ids, True)"
    by (auto elim!: rbind_eq_InrE simp: add_mapping_def mapping_create_def)
  let ?pr1 = "pr\<lparr>pr_mem := m, pr_allocations := s, pr_id_map := ids\<rparr>"
  have "add_mapping (pr\<lparr>pr_mem := m, pr_allocations := s\<rparr>) (PTR2ARG p) ?h = Inr ?pr1"
    using ids by (simp add: add_mapping_def mapping_create_def)
  note run3 = run2 [unfolded this rbind_simps]
  have m_same: "?pr1 = pr\<lparr>pr_allocations := s, pr_id_map := ids, pr_mem := m\<rparr>" by (cases pr) simp
  obtain m' pr2 where m': "?copied = Inr m'" and pr2: "pr2 = pr\<lparr>pr_allocations := s, pr_id_map := ids, pr_mem := m'\<rparr>" and
    run4: "rbind (clara_send_allocate_response net (pr_net pr2) (pr_sd pr2) ?h from) (\<lambda>(s', ok').
      if ok' then Inr (pr2\<lparr>pr_net := s'\<rparr>)
      else drop_pr_allocation (pr2\<lparr>pr_net := s'\<rparr>) ?a) = Inr pr'"
  proof (cases "?extra = []")
    case True
    with run3 m_same that [of m "pr\<lparr>pr_allocations := s, pr_id_map := ids, pr_mem := m\<rparr>"] show thesis by simp
  next
    case False
    from run3 [unfolded if_not_P [OF False]] obtain m' where "?copied = Inr m'"
      using False by (auto elim!: rbind_eq_InrE split: if_split_asm)
    with run3 False that [of m' "pr\<lparr>pr_allocations := s, pr_id_map := ids, pr_mem := m'\<rparr>"] show thesis by (simp split: if_split_asm)
  qed
  from run4 obtain s' where
    fin: "pr' = pr2\<lparr>pr_net := s'\<rparr> \<or> drop_pr_allocation (pr2\<lparr>pr_net := s'\<rparr>) ?a = Inr pr'"
    by (auto simp: fault_simps split: if_splits)
  from pr_spare_room [OF room] have r: "set_room (pr_allocations pr)" "set_room (pr_id_map pr)"
    by (simp_all add: pr_room_def)
  note s' = set_insert_ok [OF pr_invD(3) [OF inv] r(1) s]
  note i' = set_insert_ok [OF pr_invD(2) [OF inv] r(2) ids]
  obtain data where data: "mem_wf m'" "mm_blocks m' = (mm_blocks (pr_mem pr))(p \<mapsto> data)" "length data = ?n"
  proof (cases "?extra = []")
    case True
    with m' m(1,3) p that [of "replicate ?n 0"] prod show thesis by simp
  next
    case False
    have old: "mm_blocks m p = Some (replicate ?n 0)" using m(3) p prod by simp
    from m' False have "?n \<le> length ?extra" "mem_write m p 0 (take ?n ?extra) = Inr m'" by (auto split: if_splits)
    with mem_write_wf [OF m(1) old, of 0 "take ?n ?extra"] m(3) p that [of "take ?n ?extra"] show thesis by auto
  qed
  let ?pr = "pr\<lparr>pr_id_map := ids, pr_allocations := s, pr_mem := m'\<rparr>"
  have new: "pr_ids pr ?h = None" using i'(1) by (simp add: pr_ids_def)
  have inv': "pr_inv (?pr\<lparr>pr_net := s'\<rparr>)"
    using pr_inv_add(1) [OF inv i'(2,3) _ _ s'(2,3) _ new data(1)] p m(2,3) data(2,3)
    by (simp add: mapping_create_def)
  have "pr_room (?pr\<lparr>pr_net := s'\<rparr>)" "pr_owns (?pr\<lparr>pr_net := s'\<rparr>) ?h ?a"
    using room i'(4) s'(3,4) by (simp_all add: pr_room_def pr_spare_def set_room_def pr_owns_def)
  moreover have "pr2 = ?pr" using pr2 by (cases pr) simp
  ultimately show ?thesis using drop_inv [OF inv'] fin inv' by blast
qed

lemma handle_fetch_inv:
  assumes inv: "pr_inv pr" and room: "pr_room pr" and run: "pr_handle_fetch net lz fuel pr buf = Inr pr'"
  shows "pr_inv pr'"
proof -
  let ?freq = "dec_fetch_request buf"
  from run obtain s r where f: "clara_find_allocation (pr_allocations pr) (fr_handle ?freq) = Inr (s, r)"
    by (auto simp: pr_handle_fetch_def fault_simps Let_def split: if_splits)
  have "\<forall>k b. set_map (pr_allocations pr) k = Some b \<longrightarrow> al_handle b = k"
    using pr_invD(5) [OF inv] by (auto simp: pr_owns_def pr_alloc_ok_def)
  from clara_find_allocation_lookup [OF pr_invD(3) [OF inv] _ this, of "fr_handle ?freq"] room f obtain tr where
    s: "s = (pr_allocations pr)\<lparr>cs_trav := tr\<rparr>" "r = set_map (pr_allocations pr) (fr_handle ?freq)"
    by (auto simp: pr_room_def)
  from run obtain a s' where a: "r = Some a"
    and d: "drop_pr_allocation (pr\<lparr>pr_allocations := s, pr_net := s'\<rparr>) a = Inr pr'"
    by (auto simp: pr_handle_fetch_def fault_simps Let_def f split: if_splits option.splits)
       (metis clara_provider.ext_inject clara_provider.surjective clara_provider.update_convs(11))+
  let ?pr = "pr\<lparr>pr_allocations := s\<rparr>"
  from pr_keeps_trav(2) [of pr tr] inv room s(1) have k: "pr_inv ?pr" "pr_room ?pr" "pr_owns ?pr = pr_owns pr"
    by (auto simp: pr_keeps_def)
  have "pr_inv (?pr\<lparr>pr_net := s'\<rparr>)" "pr_room (?pr\<lparr>pr_net := s'\<rparr>)"
      "pr_owns (?pr\<lparr>pr_net := s'\<rparr>) (fr_handle ?freq) a"
    using k s(2) a by (simp_all add: pr_owns_def)
  from drop_inv [OF this] d show ?thesis by simp
qed

lemma handle_memput_inv:
  assumes inv: "pr_inv pr" and run: "pr_handle_memput net lz fuel pr buf = Inr pr'"
  shows "pr_inv pr'"
proof -
  from run consider s where "pr' = pr\<lparr>pr_net := s\<rparr>"
    | s m p off bs where "mem_write (pr_mem pr) p off bs = Inr m" "pr' = pr\<lparr>pr_net := s, pr_mem := m\<rparr>"
    by (auto simp: pr_handle_memput_def fault_simps Let_def split: if_split_asm option.splits)
  then show ?thesis
  proof cases
    case 2
    then have "mem_like (pr_mem (pr\<lparr>pr_net := s\<rparr>)) m" using mem_write_like pr_invD(1) [OF inv] by simp
    from pr_inv_mem [OF _ this] inv 2(2) show ?thesis by simp
  qed (use inv in simp)
qed

lemma handle_execute_inv:
  assumes inv: "pr_inv pr" and room: "pr_room pr" and vd: "vendor_ok vd"
    and run: "pr_handle_execute net vd pr buf from = Inr pr'"
  shows "pr_inv pr'"
proof -
  from run obtain pr1 params args x b s where
    e: "clara_execute (exec_fun_table vd) provider_id_map pr (dec_execute_request buf)
      (dec_args ((length buf - 24) div 8) (drop 24 buf)) 0 = Inr (pr1, params, args, x, b)"
    "pr' = pr1\<lparr>pr_net := s\<rparr>"
    by (auto simp: pr_handle_execute_def fault_simps Let_def split: if_splits)
  from keeps_inv [OF execute_keeps [OF vd e(1)] inv room] e(2) show ?thesis by simp
qed

theorem provider_message_inv:
  assumes inv: "pr_inv pr" and room: "pr_spare pr" and vd: "vendor_ok vd"
    and run: "provider_main_message net lz vd fuel ev pr m = Inr (pr', end)"
    and mem: "cm_type m = CLARA_MSG_ALLOCATE_REQUEST \<Longrightarrow>
      snd (mem_calloc (pr_mem pr) (ar_nmemb (dec_allocate_request (cm_bytes m)))
        (ar_size (dec_allocate_request (cm_bytes m)))) \<noteq> 0"
  shows "pr_inv pr'"
proof -
  note r = pr_spare_room [OF room]
  have r': "set_room (pr_id_map pr)" using r by (simp add: pr_room_def)
  have ping: "pr_inv pr'" if "handle_ping net pr buf from = Inr pr'" for buf "from" pr'
    using that inv by (auto simp: handle_ping_def fault_simps split: if_splits)
  show ?thesis
    using run mem ping handle_allocate_inv [OF inv room] handle_execute_inv [OF inv r vd]
      handle_mapping_inv [OF inv r'] handle_mapatptr_inv [OF inv r] handle_memput_inv [OF inv]
      handle_fetch_inv [OF inv r] inv
    by (auto simp: provider_main_message_def Let_def fault_simps split: if_split_asm)
qed

end
