(* ===== verification/Distributed.thy ===== *)
theory Distributed
  imports Provider_Inv
begin

text \<open>
  The agent and a provider together. They agree when the provider knows every object the agent
  has filed for it, under the agent's identifier, as the real object of the agent's table. A
  call that creates an object keeps the agreement, through the two messages it takes; a call
  that releases one keeps it too, but leaves the provider with an identifier the agent may
  give out again.
\<close>

definition agrees :: "'n agent \<Rightarrow> nat \<Rightarrow> ('m, 'o) clara_provider \<Rightarrow> bool" where
  "agrees ag v pr \<longleftrightarrow>
     (\<forall>i e. object_table ag i = Some e \<longrightarrow> oe_provider e = v \<longrightarrow> pr_ids pr i = Some (oe_real e))"

lemma agrees_add:
  assumes "agrees ag v pr" and "pr_ids pr' = (pr_ids pr)(key \<mapsto> real)"
    and "object_table ag' = (object_table ag)(key \<mapsto> e)" and "oe_real e = real"
  shows "agrees ag' v pr'"
  using assms by (auto simp: agrees_def)

lemma agrees_drop:
  assumes "agrees ag v pr" and "object_table ag' = (object_table ag)(key := None)"
  shows "agrees ag' v pr"
  using assms by (auto simp: agrees_def)

lemma agrees_keeps: "agrees ag v pr \<Longrightarrow> pr_ids pr' = pr_ids pr \<Longrightarrow> agrees ag v pr'"
  by (simp add: agrees_def)

text \<open>What the provider makes of the arguments the agent passes on.\<close>

lemma agrees_real_of:
  assumes "agrees ag v pr" and "object_table ag i = Some e" and "oe_provider e = v"
  shows "real_of pr i = oe_real e"
  using assms by (simp add: agrees_def real_of_def)

lemma table_handler_keeps:
  fixes pr :: "('m, 'o) clara_provider"
  assumes vd: "vendor_ok vd"
    and f: "map_of (exec_fun_table_entries vd :: (cl_function_t \<times> ('m, 'o) clara_provider fun_entry) list) f =
      Some (entry H is)"
    and run: "H pr params args = Inr (pr1, params1, args1)"
  shows "pr_keeps pr pr1"
proof -
  from handlers_keep [OF vd map_of_SomeD [OF f]] have "keeps H" by (simp add: entry_def)
  with run show ?thesis unfolding keeps_def by blast
qed

text \<open>
  The whole of a creating call: the provider runs it and answers with the object; the agent
  enters it under a fresh identifier and sends the mapping; the provider files the mapping.
\<close>

lemma create_agreement_correct:
  fixes ag :: "'n agent" and pr :: "('m, 'o) clara_provider"
  assumes inv: "object_inv ag" and room: "object_room ag"
    and net: "reliable net k" "sends_whole net" and sv: "served k ag v pv out inp"
    and co: "ag_consumer_heap ag c = Some co" "co_attached co"
    and hint: "object_table ag (er_hint params) = Some e" "oe_provider e = v"
    and f: "creates f" "er_fun params = of_nat (cl_value f)"
    and argc: "opencl_get_clfuninfo f = Inr fni" "fi_argc fni \<le> length args"
    and lim: "26 + 8 * length args \<le> lk_lim k"
    and key: "first_nonzero rs = Some key" "key \<notin> pool_ids (ag_id_pool ag)"
    and pr: "pr_inv pr" "pr_room pr" "vendor_ok vd" "agrees ag v pr" "pr_ids pr key = None"
    and entry: "map_of (exec_fun_table_entries vd :: (cl_function_t \<times> ('m, 'o) clara_provider fun_entry) list) f =
      Some (entry H is)"
    and known: "\<And>j. j < fi_argc fni \<Longrightarrow> args ! j \<noteq> 0 \<Longrightarrow> bit (ARGS is) j \<Longrightarrow> pr_ids pr (args ! j) \<noteq> None"
    and run: "H pr (params\<lparr>er_retval := 0\<rparr>) (translated (real_of pr) (ARGS is) (fi_argc fni) args) =
      Inr (pr1, params1, args1)"
    and pnet: "reliable pnet pk" "lk_ok pk (pr_net pr)" "10 \<le> lk_lim pk"
    and resp: "lk_queue k (ag_net ag) inp = (enc16 CLARA_MSG_EXECUTE_RESPONSE @ enc64 (er_retval params1)) # ms"
      "er_retval params1 \<noteq> 0"
  defines "msg \<equiv> enc_execute_request params @ enc_args args"
    and "mapping \<equiv> enc64 key @ enc64 (er_retval params1)"
  shows "\<exists>ag' pr2 pr3. agent_execute net lz fuel rs ag msg 0 c = Inr (ag', key, True) \<and>
    moves k (ag_net ag) (ag_net ag') inp ms out
      [enc16 CLARA_MSG_EXECUTE_REQUEST @ msg, enc16 CLARA_MSG_MAPPING @ mapping] \<and>
    pr_handle_execute pnet vd pr msg from = Inr pr2 \<and>
    adds pk (pr_net pr) (pr_net pr2) (lk_out pk (pr_sd pr) from)
      [enc16 CLARA_MSG_EXECUTE_RESPONSE @ enc64 (er_retval params1)] \<and>
    handle_mapping pr2 mapping = Inr pr3 \<and> object_inv ag' \<and> pr_inv pr3 \<and> agrees ag' v pr3"
proof -
  let ?real = "er_retval params1"
  from create_call_correct [OF inv room net sv co hint f argc lim resp key] obtain ag' where
    ag': "agent_execute net lz fuel rs ag msg 0 c = Inr (ag', key, True)" "object_inv ag'"
      "object_table ag' = (object_table ag)(key \<mapsto> \<lparr>oe_real = ?real, oe_provider = v, oe_consumer = c, oe_refcnt = 1\<rparr>)"
      "moves k (ag_net ag) (ag_net ag') inp ms out
        [enc16 CLARA_MSG_EXECUTE_REQUEST @ msg, enc16 CLARA_MSG_MAPPING @ mapping]"
    unfolding msg_def mapping_def by blast
  have "pr_keeps pr pr1" by (rule table_handler_keeps [OF pr(3) entry run])
  with pr(1,2) have k1: "pr_inv pr1" "pr_room pr1" "pr_ids pr1 = pr_ids pr" "pr_net pr1 = pr_net pr" "pr_sd pr1 = pr_sd pr"
    by (simp_all add: pr_keeps_def)
  have ok1: "lk_ok pk (pr_net pr1)" using pnet(2) k1(4) by simp
  have "\<exists>s. pr_handle_execute pnet vd pr msg from = Inr (pr1\<lparr>pr_net := s\<rparr>) \<and>
      adds pk (pr_net pr1) s (lk_out pk (pr_sd pr1) from) [enc16 CLARA_MSG_EXECUTE_RESPONSE @ enc64 ?real]"
    unfolding msg_def by (rule provider_execute [OF pr(1) entry f(2) argc _ run pnet(1) ok1 pnet(3)]) (rule known)
  then obtain s where
    s: "pr_handle_execute pnet vd pr msg from = Inr (pr1\<lparr>pr_net := s\<rparr>)"
      "adds pk (pr_net pr1) s (lk_out pk (pr_sd pr) from) [enc16 CLARA_MSG_EXECUTE_RESPONSE @ enc64 ?real]"
    unfolding k1(5) by (elim exE conjE)
  let ?pr2 = "pr1\<lparr>pr_net := s\<rparr>"
  have "pr_inv ?pr2" "set_room (pr_id_map ?pr2)" "pr_ids ?pr2 key = None"
    using k1 pr(5) by (simp_all add: pr_room_def)
  from handle_mapping_correct [OF this, of ?real] obtain pr3 where
    pr3: "handle_mapping ?pr2 mapping = Inr pr3" "pr_inv pr3" "pr_ids pr3 = (pr_ids ?pr2)(key \<mapsto> ?real)"
    unfolding mapping_def by blast
  have ids: "pr_ids pr3 = (pr_ids pr)(key \<mapsto> ?real)" unfolding pr3(3) using k1(3) by simp
  have "agrees ag' v pr3" by (rule agrees_add [OF pr(4) ids ag'(3)]) simp
  moreover have "adds pk (pr_net pr) (pr_net ?pr2) (lk_out pk (pr_sd pr) from)
      [enc16 CLARA_MSG_EXECUTE_RESPONSE @ enc64 ?real]" using s(2) k1(4) by simp
  ultimately show ?thesis using ag' s(1) pr3(1,2) by blast
qed

section \<open>Identifiers given out again\<close>

lemma set_room_subset:
  assumes "set_wf s" and "set_wf s'" and "dom (set_map s') \<subseteq> dom (set_map s)" and "set_room s"
  shows "set_room s'"
proof -
  have "finite (dom (set_map s))" by (simp add: set_map_def finite_dom_map_of)
  from card_mono [OF this assms(3)] show ?thesis
    using assms(4) by (simp add: set_room_def set_count_map assms(1,2))
qed

lemma object_room_shrinks:
  fixes ag ag' :: "'n agent"
  assumes inv: "object_inv ag" "object_inv ag'" and room: "object_room ag"
    and dom: "dom (object_table ag') \<subseteq> dom (object_table ag)" "pool_ids (ag_id_pool ag') \<subseteq> pool_ids (ag_id_pool ag)"
  shows "object_room ag'"
proof -
  have t: "dom (set_map (ag_objects a)) = dom (object_table a)" if "object_inv a" for a :: "'n agent"
  proof -
    have "set_map (ag_objects a) i = None \<longleftrightarrow> object_table a i = None" for i
      by (rule iffI) (simp add: object_table_def, rule object_table_None [OF that])
    then show ?thesis by (simp add: dom_def)
  qed
  have objs: "dom (set_map (ag_objects ag')) \<subseteq> dom (set_map (ag_objects ag))" using t inv dom(1) by simp
  have own: "dom (set_map (co_objects co)) \<subseteq> dom (set_map (ag_objects ag))" if "ag_consumer_heap ag' c = Some co" for c co
    using object_invD(12) [OF inv(2) that] object_invD(3) [OF inv(2)] objs by blast
  note wf = object_invD(1) [OF inv(1)] and R = room [unfolded object_room_def]
  show ?thesis unfolding object_room_def
    using set_room_subset [OF wf object_invD(1) [OF inv(2)] objs] R
      set_room_subset [of "ag_id_pool ag" "ag_id_pool ag'"] dom(2) object_invD(2) [OF inv(1)] object_invD(2) [OF inv(2)]
      set_room_subset [OF wf object_invD(11) [OF inv(2)] own]
    by (auto simp: pool_wf_def pool_ids_def)
qed

text \<open>The provider's mappings after a call.\<close>

lemma pr_handle_execute_ids:
  fixes pr :: "('m, 'o) clara_provider"
  assumes vd: "vendor_ok vd" and inv: "pr_inv pr" "pr_room pr" and run: "pr_handle_execute net vd pr buf from = Inr pr'"
  shows "pr_inv pr'" and "pr_room pr'" and "pr_ids pr' = pr_ids pr"
proof -
  from run obtain pr1 params args y b s where
    e: "clara_execute (exec_fun_table vd) provider_id_map pr (dec_execute_request buf)
        (dec_args ((length buf - 24) div 8) (drop 24 buf)) 0 = Inr (pr1, params, args, y, b)"
      "pr' = pr1\<lparr>pr_net := s\<rparr>"
    by (auto simp: pr_handle_execute_def fault_simps Let_def split: if_splits)
  from execute_keeps [OF vd e(1)] inv show "pr_inv pr'" and "pr_room pr'" and "pr_ids pr' = pr_ids pr"
    by (simp_all add: pr_keeps_def e(2))
qed

text \<open>
  The provider keeps the mapping of a released object. When the agent draws its identifier
  again for the next object, the mapping message ends the provider.
\<close>

lemma reused_identifier_aborts:
  fixes ag :: "'n agent" and pr :: "('m, 'o) clara_provider"
  assumes inv: "object_inv ag" and room: "object_room ag"
    and net: "reliable net k" "sends_whole net" and sv: "served k ag v pv out inp"
    and co: "ag_consumer_heap ag c = Some co" "co_attached co"
    and ob: "object_table ag (argv args 1) = Some e" "oe_provider e = v" "oe_refcnt e = 1"
    and rel: "releases f" "er_fun params = of_nat (cl_value f)" "er_hint params = argv args 1"
      "opencl_get_clfuninfo f = Inr fni" "fi_argc fni \<le> length args" "26 + 8 * length args \<le> lk_lim k"
    and hint: "object_table ag (er_hint params') = Some e'" "oe_provider e' = v" "er_hint params' \<noteq> argv args 1"
    and cr: "creates g" "er_fun params' = of_nat (cl_value g)"
      "opencl_get_clfuninfo g = Inr fni'" "fi_argc fni' \<le> length args'" "26 + 8 * length args' \<le> lk_lim k"
    and key: "first_nonzero rs = Some (argv args 1)"
    and q: "lk_queue k (ag_net ag) inp =
      (enc16 CLARA_MSG_EXECUTE_RESPONSE @ enc64 status) # (enc16 CLARA_MSG_EXECUTE_RESPONSE @ enc64 real) # ms" "real \<noteq> 0"
    and pr: "pr_inv pr" "pr_room pr" "vendor_ok vd" "agrees ag v pr"
    and run: "pr_handle_execute pnet vd pr (enc_execute_request (argv0 params CL_SUCCESS) @ enc_args args) from = Inr pr1"
      "pr_handle_execute pnet vd pr1 (enc_execute_request params' @ enc_args args') from = Inr pr2"
  shows "\<exists>ag1 ag2.
    agent_execute net lz fuel rs' ag (enc_execute_request params @ enc_args args) 0 c = Inr (ag1, status, True) \<and>
    object_table ag1 (argv args 1) = None \<and>
    agent_execute net lz fuel rs ag1 (enc_execute_request params' @ enc_args args') 0 c = Inr (ag2, argv args 1, True) \<and>
    moves k (ag_net ag) (ag_net ag2) inp ms out
      [enc16 CLARA_MSG_EXECUTE_REQUEST @ enc_execute_request (argv0 params CL_SUCCESS) @ enc_args args,
       enc16 CLARA_MSG_EXECUTE_REQUEST @ enc_execute_request params' @ enc_args args',
       enc16 CLARA_MSG_MAPPING @ enc64 (argv args 1) @ enc64 real] \<and>
    handle_mapping pr2 (enc64 (argv args 1) @ enc64 real) = Inl Assertion_Failed"
proof -
  let ?b = "argv args 1"
  have hint1: "object_table ag (er_hint params) = Some e" using ob(1) rel(3) by simp
  from release_call_full [OF inv room net(1) sv co hint1 ob(2) rel(1,2,4,5,6) q(1) ob(1,3)] obtain ag1 where
    ag1: "agent_execute net lz fuel rs' ag (enc_execute_request params @ enc_args args) 0 c = Inr (ag1, status, True)"
      "object_inv ag1" "object_table ag1 = (object_table ag)(?b := None)"
      "pool_ids (ag_id_pool ag1) = pool_ids (ag_id_pool ag) - {?b}"
      "moves k (ag_net ag) (ag_net ag1) inp ((enc16 CLARA_MSG_EXECUTE_RESPONSE @ enc64 real) # ms) out
        [enc16 CLARA_MSG_EXECUTE_REQUEST @ enc_execute_request (argv0 params CL_SUCCESS) @ enc_args args]"
      "same_sockets ag ag1" by blast
  have room1: "object_room ag1" by (rule object_room_shrinks [OF inv ag1(2) room]) (auto simp: ag1(3,4))
  have sv1: "served k ag1 v pv out inp"
    using sv ag1(5) same_sockets_providers [OF ag1(6)] by (simp add: served_def moves_def)
  from same_socketsD [OF ag1(6) co(1)] co(2) obtain co1 where
    co1: "ag_consumer_heap ag1 c = Some co1" "co_attached co1" by auto
  have hint2: "object_table ag1 (er_hint params') = Some e'" using hint ag1(3) by simp
  have q2: "lk_queue k (ag_net ag1) inp = (enc16 CLARA_MSG_EXECUTE_RESPONSE @ enc64 real) # ms"
    using ag1(5) sv by (simp add: moves_def served_def)
  have fresh: "?b \<notin> pool_ids (ag_id_pool ag1)" using ag1(4) by simp
  from create_call_full [OF ag1(2) room1 net sv1 co1 hint2 hint(2) cr q2 q(2) key fresh, of lz fuel] obtain ag2 where
    ag2: "agent_execute net lz fuel rs ag1 (enc_execute_request params' @ enc_args args') 0 c = Inr (ag2, ?b, True)"
      "moves k (ag_net ag1) (ag_net ag2) inp ms out [enc16 CLARA_MSG_EXECUTE_REQUEST @ enc_execute_request params' @ enc_args args',
        enc16 CLARA_MSG_MAPPING @ enc64 ?b @ enc64 real]" by blast
  note p1 = pr_handle_execute_ids [OF pr(3,1,2) run(1)]
  note p2 = pr_handle_execute_ids [OF pr(3) p1(1,2) run(2)]
  have "pr_ids pr2 ?b \<noteq> None" using p1(3) p2(3) pr(4) ob(1,2) by (simp add: agrees_def)
  moreover have "set_room (pr_id_map pr2)" using p2(2) by (simp add: pr_room_def)
  ultimately have "handle_mapping pr2 (enc64 ?b @ enc64 real) = Inl Assertion_Failed"
    using add_mapping_known [OF p2(1), of ?b real] by (auto simp: handle_mapping_def)
  moreover have "inp \<noteq> out" using sv by (auto simp: served_def)
  ultimately show ?thesis
    using ag1(1,3) ag2(1) moves_trans [OF _ ag1(5) ag2(2)] by auto
qed

end
