(* ===== verification/Rec_Lock.thy ===== *)
theory Rec_Lock
  imports Prelude
begin

text \<open>
  The recursive lock of \<^verbatim>\<open>common/lock.c\<close>: a binary semaphore, an owner and a nesting
  counter. The functions are modelled twice: as sequential functions of one thread, and as
  programs of single steps that any number of threads interleave. A step is one access to
  the shared record or one semaphore call; memory is sequentially consistent.
\<close>

section \<open>The lock and its statements\<close>

record lock =
  lk_sem :: nat
  lk_owner :: nat
  lk_cnt :: u32

definition lock_create :: lock where
  "lock_create = \<lparr>lk_sem = 1, lk_owner = 0, lk_cnt = 0\<rparr>"

text \<open>
  Program points: before each access of \<^verbatim>\<open>lock_wait\<close> (\<open>W\<close>) and \<^verbatim>\<open>lock_post\<close> (\<open>P\<close>). The
  condition \<^verbatim>\<open>(owner == 0) || (owner != tid)\<close> reads the owner up to two times.
\<close>

datatype lock_pc =
    Idle
  | W_test | W_test2 | W_sem | W_got | W_set | W_inc
  | P_assert | P_dec | P_clear | P_sem

datatype lock_outcome = Next lock lock_pc | Blocked | Abort

fun lock_stmt :: "nat \<Rightarrow> lock_pc \<Rightarrow> lock \<Rightarrow> lock_outcome" where
  "lock_stmt tid Idle l = Blocked"
| "lock_stmt tid W_test l = Next l (if lk_owner l = 0 then W_sem else W_test2)"
| "lock_stmt tid W_test2 l = Next l (if lk_owner l \<noteq> tid then W_sem else W_inc)"
| "lock_stmt tid W_sem l =
     (if lk_sem l > 0 then Next (l\<lparr>lk_sem := lk_sem l - 1\<rparr>) W_got else Blocked)"
| "lock_stmt tid W_got l = Next l (if lk_owner l = 0 then W_set else W_inc)"
| "lock_stmt tid W_set l = Next (l\<lparr>lk_owner := tid\<rparr>) W_inc"
| "lock_stmt tid W_inc l = Next (l\<lparr>lk_cnt := lk_cnt l + 1\<rparr>) Idle"
| "lock_stmt tid P_assert l = (if lk_owner l = tid then Next l P_dec else Abort)"
| "lock_stmt tid P_dec l =
     (let cnt = lk_cnt l - 1
      in Next (l\<lparr>lk_cnt := cnt\<rparr>) (if cnt = 0 then P_clear else Idle))"
| "lock_stmt tid P_clear l = Next (l\<lparr>lk_owner := 0\<rparr>) P_sem"
| "lock_stmt tid P_sem l = Next (l\<lparr>lk_sem := lk_sem l + 1\<rparr>) Idle"

section \<open>Sequential functions\<close>

text \<open>\<open>None\<close>: the call blocks in \<^verbatim>\<open>sem_wait\<close>.\<close>

definition lock_wait :: "nat \<Rightarrow> lock \<Rightarrow> (fault + lock) option" where
  "lock_wait tid l =
     (if tid = 0 then Some (Inl Assertion_Failed)
      else if lk_owner l = 0 \<or> lk_owner l \<noteq> tid then
        (if lk_sem l = 0 then None
         else let l1 = l\<lparr>lk_sem := lk_sem l - 1\<rparr>;
                  l2 = (if lk_owner l1 = 0 then l1\<lparr>lk_owner := tid\<rparr> else l1)
              in Some (Inr (l2\<lparr>lk_cnt := lk_cnt l2 + 1\<rparr>)))
      else Some (Inr (l\<lparr>lk_cnt := lk_cnt l + 1\<rparr>)))"

definition lock_post :: "nat \<Rightarrow> lock \<Rightarrow> fault + lock" where
  "lock_post tid l =
     rbind (c_assert (tid \<noteq> 0)) (\<lambda>_.
     rbind (c_assert (lk_owner l = tid)) (\<lambda>_.
     let l1 = l\<lparr>lk_cnt := lk_cnt l - 1\<rparr>
     in if lk_cnt l1 = 0 then Inr (l1\<lparr>lk_owner := 0, lk_sem := lk_sem l1 + 1\<rparr>) else Inr l1))"

text \<open>\<^verbatim>\<open>lock_destroy\<close> takes the lock and frees it; the flag tells of a lock that was held.\<close>

definition lock_destroy :: "nat \<Rightarrow> lock option \<Rightarrow> (fault + bool \<times> bool) option" where
  "lock_destroy tid lk =
     (case lk of
        None \<Rightarrow> Some (Inr (False, False))
      | Some l \<Rightarrow>
          (case lock_wait tid l of
             None \<Rightarrow> None
           | Some r \<Rightarrow> Some (rbind r (\<lambda>l'. Inr (True, lk_cnt l' \<noteq> 1)))))"

section \<open>Interleaved threads\<close>

text \<open>
  \<open>sys_depth t\<close> counts the calls of \<^verbatim>\<open>lock_wait\<close> of thread \<open>t\<close> that have incremented the
  counter less its decrements. Threads follow the discipline of the program: \<^verbatim>\<open>lock_post\<close>
  is called after a \<^verbatim>\<open>lock_wait\<close> of one's own, and nesting stays below the counter's range.
\<close>

record lock_sys =
  sys_lock :: lock
  sys_pc :: "nat \<Rightarrow> lock_pc"
  sys_depth :: "nat \<Rightarrow> nat"
  sys_aborted :: bool

definition sys_init :: lock_sys where
  "sys_init = \<lparr>sys_lock = lock_create, sys_pc = (\<lambda>_. Idle), sys_depth = (\<lambda>_. 0), sys_aborted = False\<rparr>"

fun ghost_depth :: "lock_pc \<Rightarrow> nat \<Rightarrow> nat" where
  "ghost_depth W_inc d = d + 1"
| "ghost_depth P_dec d = d - 1"
| "ghost_depth _ d = d"

inductive sys_step :: "lock_sys \<Rightarrow> nat \<Rightarrow> lock_sys \<Rightarrow> bool" where
  call_wait: "tid \<noteq> 0 \<Longrightarrow> sys_pc s tid = Idle \<Longrightarrow> sys_depth s tid + 1 < 2 ^ 32 \<Longrightarrow>
    sys_step s tid (s\<lparr>sys_pc := (sys_pc s)(tid := W_test)\<rparr>)"
| call_post: "tid \<noteq> 0 \<Longrightarrow> sys_pc s tid = Idle \<Longrightarrow> sys_depth s tid > 0 \<Longrightarrow>
    sys_step s tid (s\<lparr>sys_pc := (sys_pc s)(tid := P_assert)\<rparr>)"
| run: "lock_stmt tid (sys_pc s tid) (sys_lock s) = Next l pc \<Longrightarrow>
    sys_step s tid (s\<lparr>sys_lock := l, sys_pc := (sys_pc s)(tid := pc),
      sys_depth := (sys_depth s)(tid := ghost_depth (sys_pc s tid) (sys_depth s tid))\<rparr>)"
| abort: "lock_stmt tid (sys_pc s tid) (sys_lock s) = Abort \<Longrightarrow>
    sys_step s tid (s\<lparr>sys_aborted := True\<rparr>)"

inductive_cases sys_step_cases: "sys_step s tid s'"

inductive sys_reach :: "lock_sys \<Rightarrow> bool" where
  start: "sys_reach sys_init"
| step: "sys_reach s \<Longrightarrow> sys_step s tid s' \<Longrightarrow> sys_reach s'"

section \<open>The invariant\<close>

text \<open>The thread between its \<^verbatim>\<open>sem_wait\<close> and its \<^verbatim>\<open>sem_post\<close>, and the one the owner names.\<close>

definition crit :: "lock_sys \<Rightarrow> nat \<Rightarrow> bool" where
  "crit s t \<longleftrightarrow> sys_depth s t > 0 \<or> sys_pc s t \<in> {W_got, W_set, W_inc, P_clear, P_sem}"

definition owns :: "lock_sys \<Rightarrow> nat \<Rightarrow> bool" where
  "owns s t \<longleftrightarrow> sys_depth s t > 0 \<or> sys_pc s t \<in> {W_inc, P_clear}"

definition excl :: "lock_sys \<Rightarrow> bool" where
  "excl s \<longleftrightarrow> (\<forall>t u. crit s t \<longrightarrow> crit s u \<longrightarrow> t = u)"

definition sem_inv :: "lock_sys \<Rightarrow> bool" where
  "sem_inv s \<longleftrightarrow> lk_sem (sys_lock s) = (if \<exists>t. crit s t then 0 else 1)"

definition owner_inv :: "lock_sys \<Rightarrow> bool" where
  "owner_inv s \<longleftrightarrow> (\<forall>t. t \<noteq> 0 \<longrightarrow> (lk_owner (sys_lock s) = t \<longleftrightarrow> owns s t))"

definition cnt_inv :: "lock_sys \<Rightarrow> bool" where
  "cnt_inv s \<longleftrightarrow> (\<forall>t. crit s t \<longrightarrow> unat (lk_cnt (sys_lock s)) = sys_depth s t) \<and>
     ((\<forall>t. \<not> crit s t) \<longrightarrow> lk_cnt (sys_lock s) = 0)"

fun pc_inv :: "lock_pc \<Rightarrow> nat \<Rightarrow> bool" where
  "pc_inv Idle d \<longleftrightarrow> d < 2 ^ 32"
| "pc_inv W_test d \<longleftrightarrow> d + 1 < 2 ^ 32"
| "pc_inv W_test2 d \<longleftrightarrow> d + 1 < 2 ^ 32"
| "pc_inv W_inc d \<longleftrightarrow> d + 1 < 2 ^ 32"
| "pc_inv P_assert d \<longleftrightarrow> 0 < d \<and> d < 2 ^ 32"
| "pc_inv P_dec d \<longleftrightarrow> 0 < d \<and> d < 2 ^ 32"
| "pc_inv _ d \<longleftrightarrow> d = 0"

definition threads_inv :: "lock_sys \<Rightarrow> bool" where
  "threads_inv s \<longleftrightarrow> (\<forall>t. pc_inv (sys_pc s t) (sys_depth s t)) \<and>
     sys_pc s 0 = Idle \<and> sys_depth s 0 = 0 \<and> \<not> sys_aborted s"

definition lock_inv :: "lock_sys \<Rightarrow> bool" where
  "lock_inv s \<longleftrightarrow> excl s \<and> sem_inv s \<and> owner_inv s \<and> cnt_inv s \<and> threads_inv s"

text \<open>
  A step of thread \<open>t\<close> leaves the other threads alone, so the invariant is re-established
  from what it says of \<open>t\<close> and of the rest of the system.
\<close>

definition others :: "lock_sys \<Rightarrow> nat \<Rightarrow> lock_sys \<Rightarrow> bool" where
  "others s t s' \<longleftrightarrow> (\<forall>u. u \<noteq> t \<longrightarrow> sys_pc s' u = sys_pc s u \<and> sys_depth s' u = sys_depth s u)"

lemma others_crit: "others s t s' \<Longrightarrow> u \<noteq> t \<Longrightarrow> crit s' u = crit s u \<and> owns s' u = owns s u"
  by (simp add: others_def crit_def owns_def)

lemma lock_inv_step:
  assumes inv: "lock_inv s" and oth: "others s t s'" and t: "t \<noteq> 0" and ab: "\<not> sys_aborted s'"
    and pc: "pc_inv (sys_pc s' t) (sys_depth s' t)"
    and enter: "crit s' t \<Longrightarrow> crit s t \<or> lk_sem (sys_lock s) = 1"
    and sem: "lk_sem (sys_lock s') =
      (if crit s' t then 0 else if crit s t then 1 else lk_sem (sys_lock s))"
    and own: "lk_owner (sys_lock s') =
      (if owns s' t then t else if owns s t then 0 else lk_owner (sys_lock s))"
    and cnt: "if crit s' t then unat (lk_cnt (sys_lock s')) = sys_depth s' t
      else if crit s t then lk_cnt (sys_lock s') = 0
      else lk_cnt (sys_lock s') = lk_cnt (sys_lock s)"
    and oc: "owns s' t \<Longrightarrow> crit s' t" "owns s t \<Longrightarrow> crit s t"
  shows "lock_inv s'"
proof -
  have E: "\<And>u v. crit s u \<Longrightarrow> crit s v \<Longrightarrow> u = v"
    and S: "lk_sem (sys_lock s) = (if \<exists>t. crit s t then 0 else 1)"
    and O: "\<And>u. u \<noteq> 0 \<Longrightarrow> lk_owner (sys_lock s) = u \<longleftrightarrow> owns s u"
    and C: "\<And>u. crit s u \<Longrightarrow> unat (lk_cnt (sys_lock s)) = sys_depth s u"
      "\<forall>u. \<not> crit s u \<Longrightarrow> lk_cnt (sys_lock s) = 0"
    and T: "\<And>u. pc_inv (sys_pc s u) (sys_depth s u)" "sys_pc s 0 = Idle" "sys_depth s 0 = 0"
    using inv unfolding lock_inv_def excl_def sem_inv_def owner_inv_def cnt_inv_def threads_inv_def
    by blast+
  have other: "crit s' u = crit s u" "owns s' u = owns s u" "sys_depth s' u = sys_depth s u"
    "sys_pc s' u = sys_pc s u" if "u \<noteq> t" for u
    using oth that others_crit [OF oth that] by (auto simp: others_def)
  have alone: "\<not> crit s u" if "crit s' t \<or> crit s t" "u \<noteq> t" for u
    using that enter S E by (metis one_neq_zero)
  have own_crit: "owns s u \<Longrightarrow> crit s u" for u by (auto simp: owns_def crit_def)
  have "excl s'" unfolding excl_def using other(1) alone E by metis
  moreover have "sem_inv s'" unfolding sem_inv_def using sem S other(1) alone by metis
  moreover have "owner_inv s'"
    unfolding owner_inv_def using own O other(2) alone own_crit oc t by metis
  moreover have "cnt_inv s'"
    unfolding cnt_inv_def using cnt C other(1,3) alone by metis
  moreover have "threads_inv s'"
    unfolding threads_inv_def using T pc other(3,4) t ab by metis
  ultimately show ?thesis by (simp add: lock_inv_def)
qed

lemma lock_inv_init: "lock_inv sys_init"
  by (simp add: lock_inv_def excl_def sem_inv_def owner_inv_def cnt_inv_def threads_inv_def
      crit_def owns_def sys_init_def lock_create_def)

text \<open>What the invariant says of one thread and of the whole.\<close>

lemma lock_inv_thread:
  assumes "lock_inv s"
  shows "crit s t \<Longrightarrow> lk_sem (sys_lock s) = 0"
    and "t \<noteq> 0 \<Longrightarrow> lk_owner (sys_lock s) = t \<longleftrightarrow> owns s t"
    and "crit s t \<Longrightarrow> unat (lk_cnt (sys_lock s)) = sys_depth s t"
    and "pc_inv (sys_pc s t) (sys_depth s t)"
  using assms unfolding lock_inv_def excl_def sem_inv_def owner_inv_def cnt_inv_def threads_inv_def
  by (auto split: if_splits)

lemma lock_inv_global:
  assumes "lock_inv s"
  shows "lk_sem (sys_lock s) \<le> 1"
    and "lk_sem (sys_lock s) > 0 \<Longrightarrow> lk_cnt (sys_lock s) = 0"
    and "sys_pc s 0 = Idle" "sys_depth s 0 = 0"
    and "\<not> sys_aborted s"
  using assms unfolding lock_inv_def excl_def sem_inv_def owner_inv_def cnt_inv_def threads_inv_def
  by (auto split: if_splits)

lemma lock_inv_excl: "lock_inv s \<Longrightarrow> crit s t \<Longrightarrow> crit s u \<Longrightarrow> t = u"
  unfolding lock_inv_def excl_def by blast

lemma owner_zero:
  assumes inv: "lock_inv s" and c: "crit s t" "\<not> owns s t"
  shows "lk_owner (sys_lock s) = 0"
proof (rule ccontr)
  assume o: "lk_owner (sys_lock s) \<noteq> 0"
  with lock_inv_thread(2) [OF inv, of "lk_owner (sys_lock s)"] have "owns s (lk_owner (sys_lock s))" by simp
  moreover from this have "crit s (lk_owner (sys_lock s))" by (auto simp: owns_def crit_def)
  ultimately show False using lock_inv_excl [OF inv c(1)] c(2) by metis
qed

lemma cnt_inc: "unat (c :: u32) = d \<Longrightarrow> d + 1 < 2 ^ 32 \<Longrightarrow> unat (c + 1) = d + 1"
  by (simp add: unat_word_ariths)

lemma cnt_dec: "unat (c :: u32) = d \<Longrightarrow> 0 < d \<Longrightarrow> unat (c - 1) = d - 1"
  by (metis less_numeral_extra(3) unat_0 unat_minus_one)

lemma others_upd: "others s t (s\<lparr>sys_lock := l, sys_pc := (sys_pc s)(t := p), sys_depth := (sys_depth s)(t := d)\<rparr>)"
  "others s t (s\<lparr>sys_pc := (sys_pc s)(t := p)\<rparr>)"
  by (simp_all add: others_def)

lemma lock_inv_call_wait:
  assumes inv: "lock_inv s" and "tid \<noteq> 0" "sys_pc s tid = Idle" "sys_depth s tid + 1 < 2 ^ 32"
  shows "lock_inv (s\<lparr>sys_pc := (sys_pc s)(tid := W_test)\<rparr>)"
  using assms lock_inv_thread [OF inv, of tid] lock_inv_global [OF inv]
  by (intro lock_inv_step [OF inv, of tid]) (auto simp: others_upd crit_def owns_def)

lemma lock_inv_call_post:
  assumes inv: "lock_inv s" and "tid \<noteq> 0" "sys_pc s tid = Idle" "sys_depth s tid > 0"
  shows "lock_inv (s\<lparr>sys_pc := (sys_pc s)(tid := P_assert)\<rparr>)"
  using assms lock_inv_thread [OF inv, of tid] lock_inv_global [OF inv]
  by (intro lock_inv_step [OF inv, of tid]) (auto simp: others_upd crit_def owns_def)

lemma lock_inv_run:
  assumes inv: "lock_inv s" and st: "lock_stmt tid (sys_pc s tid) (sys_lock s) = Next l pc"
  shows "lock_inv (s\<lparr>sys_lock := l, sys_pc := (sys_pc s)(tid := pc),
      sys_depth := (sys_depth s)(tid := ghost_depth (sys_pc s tid) (sys_depth s tid))\<rparr>)"
proof -
  note D = lock_inv_thread [OF inv, of tid] and G = lock_inv_global [OF inv] and Z = owner_zero [OF inv, of tid]
  have t: "tid \<noteq> 0" using st G(3) by (cases tid) auto
  note step = lock_inv_step [OF inv others_upd(1) t]
  show ?thesis
  proof (cases "sys_pc s tid")
    case W_inc
    then have c: "crit s tid" by (simp add: crit_def)
    show ?thesis using st D G W_inc t cnt_inc [OF D(3) [OF c]]
      by (intro step) (auto simp: crit_def owns_def)
  next
    case P_dec
    then have c: "crit s tid" using D(4) by (simp add: crit_def)
    have one: "lk_cnt (sys_lock s) = 1 \<longleftrightarrow> sys_depth s tid = 1"
      unfolding D(3) [OF c, symmetric] by (simp add: word_unat_eq_iff)
    show ?thesis
    proof (cases "lk_cnt (sys_lock s) = 1")
      case True
      then show ?thesis using one st D G P_dec t
        by (intro step) (auto simp: crit_def owns_def Let_def)
    next
      case False
      then show ?thesis using one st D G P_dec t cnt_dec [OF D(3) [OF c]]
        by (intro step) (auto simp: crit_def owns_def Let_def)
    qed
  qed (use st D G Z t in \<open>(intro step; auto simp: crit_def owns_def unat_eq_zero split: if_splits)\<close>)+
qed

lemma lock_no_abort:
  assumes inv: "lock_inv s"
  shows "lock_stmt tid (sys_pc s tid) (sys_lock s) \<noteq> Abort"
proof (cases "sys_pc s tid")
  case P_assert
  have "tid \<noteq> 0" using P_assert lock_inv_global(3) [OF inv] by (cases tid) auto
  moreover have "owns s tid"
    using P_assert lock_inv_thread(4) [OF inv, of tid] by (simp add: owns_def)
  ultimately show ?thesis using P_assert lock_inv_thread(2) [OF inv, of tid] by simp
qed (simp_all add: Let_def)

lemma lock_inv_reach: "sys_reach s \<Longrightarrow> lock_inv s"
proof (induction rule: sys_reach.induct)
  case (step s tid s')
  from step.hyps(2) step.IH show ?case
    by (cases rule: sys_step_cases)
       (auto simp: lock_inv_call_wait lock_inv_call_post lock_inv_run dest: lock_no_abort)
qed (rule lock_inv_init)

section \<open>What the invariant gives\<close>

lemma lock_exclusive:
  "sys_reach s \<Longrightarrow> sys_depth s t > 0 \<Longrightarrow> sys_depth s u > 0 \<Longrightarrow> t = u"
  by (auto intro: lock_inv_excl [OF lock_inv_reach] simp: crit_def)

text \<open>The counter and the owner are only written by the thread in the critical region.\<close>

lemma lock_race_free:
  assumes "sys_reach s" and "{sys_pc s t, sys_pc s u} \<subseteq> {W_set, W_inc, P_dec, P_clear}"
  shows "t = u"
proof -
  note inv = lock_inv_reach [OF assms(1)]
  have "crit s v" if "sys_pc s v \<in> {W_set, W_inc, P_dec, P_clear}" for v
    using that lock_inv_thread(4) [OF inv, of v] by (auto simp: crit_def)
  with assms(2) show ?thesis by (auto intro: lock_inv_excl [OF inv])
qed

text \<open>A holder never waits for the semaphore, and a waiter waits for another thread.\<close>

lemma lock_wait_blocked:
  assumes "sys_reach s" and "sys_pc s t = W_sem" and "lk_sem (sys_lock s) = 0"
  shows "sys_depth s t = 0 \<and> (\<exists>u. u \<noteq> t \<and> crit s u \<and>
    (sys_pc s u = Idle \<and> sys_depth s u > 0 \<or>
     (\<exists>l pc. lock_stmt u (sys_pc s u) (sys_lock s) = Next l pc)))"
proof -
  note inv = lock_inv_reach [OF assms(1)]
  have d: "sys_depth s t = 0" using assms(2) lock_inv_thread(4) [OF inv, of t] by simp
  from inv assms(3) obtain u where u: "crit s u"
    unfolding lock_inv_def sem_inv_def by (auto split: if_splits)
  have ut: "u \<noteq> t" using u d assms(2) by (auto simp: crit_def)
  have "sys_pc s u = Idle \<and> sys_depth s u > 0 \<or>
     (\<exists>l pc. lock_stmt u (sys_pc s u) (sys_lock s) = Next l pc)"
  proof (cases "sys_pc s u")
    case W_sem
    with u lock_inv_thread(4) [OF inv, of u] show ?thesis by (simp add: crit_def)
  next
    case P_assert
    with lock_no_abort [OF inv, of u] show ?thesis by (simp split: if_splits)
  qed (use u in \<open>auto simp: crit_def Let_def\<close>)
  with d ut u show ?thesis by blast
qed

lemma lock_released:
  assumes "sys_reach s" and "\<forall>t. sys_pc s t = Idle \<and> sys_depth s t = 0"
  shows "sys_lock s = lock_create"
proof -
  note inv = lock_inv_reach [OF assms(1)]
  have n: "\<not> crit s t" "\<not> owns s t" for t using assms(2) by (simp_all add: crit_def owns_def)
  have "lk_sem (sys_lock s) = 1" "lk_cnt (sys_lock s) = 0"
    using inv n unfolding lock_inv_def sem_inv_def cnt_inv_def by auto
  moreover have "lk_owner (sys_lock s) = 0"
    using n lock_inv_thread(2) [OF inv, of "lk_owner (sys_lock s)"] by auto
  ultimately show ?thesis by (simp add: lock_create_def)
qed

section \<open>Refinement of an abstract recursive lock\<close>

text \<open>The abstract lock is free, or held by one thread with a nesting depth.\<close>

inductive spec_step :: "(nat \<times> nat) option \<Rightarrow> nat \<Rightarrow> (nat \<times> nat) option \<Rightarrow> bool" where
  acquire: "spec_step None t (Some (t, 1))"
| again: "n > 0 \<Longrightarrow> spec_step (Some (t, n)) t (Some (t, n + 1))"
| release: "n > 1 \<Longrightarrow> spec_step (Some (t, n)) t (Some (t, n - 1))"
| free: "spec_step (Some (t, 1)) t None"

definition lock_abs :: "lock_sys \<Rightarrow> (nat \<times> nat) option \<Rightarrow> bool" where
  "lock_abs s a \<longleftrightarrow>
     (case a of
        None \<Rightarrow> \<forall>t. sys_depth s t = 0
      | Some (u, n) \<Rightarrow> n > 0 \<and> (\<forall>t. sys_depth s t = (if t = u then n else 0)))"

lemma lock_refines:
  assumes "sys_reach s" and step: "sys_step s t s'" and abs: "lock_abs s a"
  shows "lock_abs s' a \<or> (\<exists>a'. spec_step a t a' \<and> lock_abs s' a')"
proof -
  note inv = lock_inv_reach [OF assms(1)]
  have excl: "sys_depth s u = 0" if "crit s t" "u \<noteq> t" for u
  proof -
    have "\<not> crit s u" using that lock_inv_excl [OF inv, of t u] by blast
    then show ?thesis by (simp add: crit_def)
  qed
  show ?thesis
    using step
  proof cases
    case (run l pc)
    consider "sys_pc s t = W_inc" | "sys_pc s t = P_dec" | "ghost_depth (sys_pc s t) (sys_depth s t) = sys_depth s t"
      by (cases "sys_pc s t") auto
    then show ?thesis
    proof cases
      case 1
      then have others: "\<forall>u. u \<noteq> t \<longrightarrow> sys_depth s u = 0" using excl by (simp add: crit_def)
      show ?thesis
      proof (cases a)
        case None
        then have "lock_abs s' (Some (t, 1))"
          using abs run 1 by (simp add: lock_abs_def)
        then show ?thesis using None spec_step.acquire by blast
      next
        case (Some p)
        obtain u n where p: "p = (u, n)" by (cases p)
        have "u = t" using abs others Some p by (auto simp: lock_abs_def)
        then have "lock_abs s' (Some (t, n + 1))" "n > 0"
          using abs run 1 Some p by (simp_all add: lock_abs_def)
        then show ?thesis using Some p \<open>u = t\<close> spec_step.again by blast
      qed
    next
      case 2
      then have d: "sys_depth s t > 0" using lock_inv_thread(4) [OF inv, of t] by simp
      then obtain u n where a: "a = Some (u, n)" using abs by (cases a) (auto simp: lock_abs_def)
      with abs have "sys_depth s t = (if t = u then n else 0)" by (simp add: lock_abs_def)
      with d a have n: "a = Some (t, n)" "n > 0" by (auto split: if_splits)
      show ?thesis
      proof (cases "n = 1")
        case True
        then have "lock_abs s' None" using abs n run 2 by (simp add: lock_abs_def)
        then show ?thesis using n True spec_step.free by blast
      next
        case False
        then have "lock_abs s' (Some (t, n - 1))" using abs n run 2 by (simp add: lock_abs_def)
        then show ?thesis using n False spec_step.release [of n t] by auto
      qed
    next
      case 3
      then have "lock_abs s' a" using abs run by (auto simp: lock_abs_def split: option.splits)
      then show ?thesis by blast
    qed
  qed (use abs in \<open>auto simp: lock_abs_def split: option.splits\<close>)
qed

section \<open>The sequential functions are their statements run alone\<close>

fun alone :: "nat \<Rightarrow> nat \<Rightarrow> lock_pc \<Rightarrow> lock \<Rightarrow> lock_outcome" where
  "alone tid 0 pc l = Next l pc"
| "alone tid (Suc n) pc l =
     (case lock_stmt tid pc l of
        Next l' pc' \<Rightarrow> (if pc' = Idle then Next l' Idle else alone tid n pc' l')
      | r \<Rightarrow> r)"

lemma lock_wait_alone:
  "tid \<noteq> 0 \<Longrightarrow> alone tid 6 W_test l =
    (case lock_wait tid l of None \<Rightarrow> Blocked | Some (Inl e) \<Rightarrow> Abort | Some (Inr l') \<Rightarrow> Next l' Idle)"
  by (cases "lk_owner l = 0"; cases "lk_owner l = tid"; cases "lk_sem l")
     (simp_all add: lock_wait_def numeral_eq_Suc)

lemma lock_post_alone:
  "tid \<noteq> 0 \<Longrightarrow> alone tid 4 P_assert l =
    (case lock_post tid l of Inl e \<Rightarrow> Abort | Inr l' \<Rightarrow> Next l' Idle)"
  by (cases "lk_owner l = tid"; cases "lk_cnt l - 1 = 0")
     (simp_all add: lock_post_def numeral_eq_Suc)

text \<open>A wait and the matching post leave the lock as it was.\<close>

lemma lock_wait_post:
  assumes "lock_wait tid l = Some (Inr l')" and "lk_owner l = 0 \<longrightarrow> lk_cnt l = 0"
    and "lk_cnt l' \<noteq> 0" and "lk_owner l \<noteq> 0 \<longrightarrow> lk_cnt l \<noteq> 0" and "lk_owner l \<in> {0, tid}"
  shows "lock_post tid l' = Inr l"
  using assms by (cases l) (auto simp: lock_wait_def lock_post_def Let_def split: if_splits)

end
