(* ===== verification/Examples.thy ===== *)
theory Examples
  imports Rec_Lock Rpc Load_Balance
begin

text \<open>
  Small concrete states of the components, on which the properties are exercised: a set with
  one entry, agents with one provider and one or two consumers, a lock held by a thread, a
  network of queues and a codec that does not compress.
\<close>

section \<open>A set with one entry\<close>

definition sing :: "global_id \<Rightarrow> 'v \<Rightarrow> 'v cset" where
  "sing k v =
     \<lparr>cs_depth = 0, cs_tree = \<lparr>rb_root = Node (On_Heap 1) NULL NULL RB_BLACK, rb_cnt = 1\<rparr>,
      cs_trav = \<lparr>trav_init = False, trav_stack = [], trav_p = NULL\<rparr>,
      cs_heap = [1 \<mapsto> \<lparr>it_key = k, it_data = v\<rparr>], cs_brk = 2\<rparr>"

lemma sing_simps [simp]:
  "set_wf (sing k v)" "set_room (sing k v)" "set_map (sing k v) = [k \<mapsto> v]"
  "set_elems (sing k v) = [v]" "set_entries (sing k v) = [(k, v)]" "set_count (sing k v) = 1"
  "cs_depth (sing k v) = 0"
  by (auto simp: sing_def set_wf_def set_room_def set_count_def rb_count_def set_map_def set_elems_def
      set_entries_def set_refs_def rb_inv_def rb_shape_def rb_sorted_def)

lemma create_simps [simp]:
  "set_wf set_create" "set_room set_create" "set_map set_create = Map.empty"
  "set_elems set_create = []" "set_entries set_create = []"
  using set_create_wf
  by (simp_all add: set_elems_def) (simp add: set_room_def set_count_def rb_count_def set_create_def rb_create_def)

lemma set_create_is: "set_insert set_create k v = Inr (sing k v, True)"
  by (simp add: set_insert_def set_create_def rb_create_def set_lock_def set_unlock_def rb_insert_def
      rb_probe_def sing_def)

lemma pool_simps [simp]:
  "pool_ids (sing k ()) = {k}" "pool_ids set_create = {}"
  "pool_wf (sing k ()) \<longleftrightarrow> k \<noteq> 0" "pool_wf set_create"
  by (auto simp: pool_ids_def pool_wf_def)

section \<open>Agents\<close>

definition net0 :: "(nat \<Rightarrow> byte list list) sctp" where
  "net0 = queue_net (\<lambda>sd to. to) (\<lambda>sd. nat sd)"

lemma net0_sends: "sends_whole net0"
  by (auto simp: sends_whole_def net0_def queue_net_def)

definition pv0 :: agent_provider where
  "pv0 = \<lparr>pv_sd = 4, pv_addr = 5, pv_attached = True, pv_lock = 0, pv_platforms = set_create\<rparr>"

definition co0 :: "nat cset \<Rightarrow> nat \<Rightarrow> agent_consumer" where
  "co0 objs pf = \<lparr>co_sd = 6, co_addr = 7, co_attached = True, co_objects = objs,
     co_allocations = set_create, co_platform = pf\<rparr>"

text \<open>One provider at address 1, consumers at 2 and 3, no object.\<close>

definition ag0 :: "(nat \<Rightarrow> byte list list) agent" where
  "ag0 = \<lparr>ag_load_balancing = False, ag_providers = set_create, ag_consumers = set_create,
     ag_id_pool = set_create, ag_objects = set_create, ag_lb_platforms = set_create,
     ag_object_heap = Map.empty, ag_consumer_heap = [2 \<mapsto> co0 set_create 0, 3 \<mapsto> co0 set_create 0],
     ag_provider_heap = [1 \<mapsto> pv0], ag_platform_heap = Map.empty,
     ag_device_heap = Map.empty, ag_mem = mem_init, ag_next = 4, ag_net = (\<lambda>_. [])\<rparr>"

text \<open>The same with an object of identifier 7 and \<open>r\<close> references, owned by consumer 2.\<close>

definition ob0 :: "u32 \<Rightarrow> cl_object" where
  "ob0 r = \<lparr>ob_id = 7, ob_real = 9, ob_refcnt = r, ob_lock = 0, ob_provider = 1, ob_consumer = 2\<rparr>"

definition ag1 :: "u32 \<Rightarrow> (nat \<Rightarrow> byte list list) agent" where
  "ag1 r = ag0\<lparr>ag_id_pool := sing 7 (), ag_objects := sing 7 4, ag_object_heap := [4 \<mapsto> ob0 r],
     ag_consumer_heap := [2 \<mapsto> co0 (sing 7 4) 0, 3 \<mapsto> co0 set_create 0], ag_next := 5\<rparr>"

lemma ag0_inv: "object_inv ag0" "object_room ag0"
  by (auto simp: object_inv_defs object_room_def ag0_def co0_def split: if_splits)

lemma ag1_inv:
  assumes "r \<noteq> 0"
  shows "object_inv (ag1 r)" and "object_room (ag1 r)"
  using assms
  by (auto simp: object_inv_defs object_room_def ag1_def ag0_def co0_def ob0_def pv0_def split: if_splits)

lemma ag1_table: "object_table (ag1 r) =
    [7 \<mapsto> \<lparr>oe_real = 9, oe_provider = 1, oe_consumer = 2, oe_refcnt = unat r\<rparr>]"
  by (auto simp: object_table_def ag1_def entry_of_def ob0_def fun_eq_iff)

text \<open>The first object of \<open>ag0\<close>: the mapping message is on its way to the provider.\<close>

lemma create_example:
  "clCreateObject net0 [0, 7] ag0 1 2 9 0 =
    Inr (Some ((ag1 1)\<lparr>ag_net := (\<lambda>_. [])(5 := [enc16 CLARA_MSG_MAPPING @ enc64 7 @ enc64 9])\<rparr>, 7))"
  by (simp add: clCreateObject_def object_create_def object_retain_def object_lock_def object_unlock_def
      consumer_add_object_def agent_remote_map_def clara_sendmsg_def provider_agent_def deref_def
      put_object_def put_consumer_def set_create_is ag0_def ag1_def ob0_def co0_def pv0_def net0_def
      queue_net_def) (simp add: fun_eq_iff)

text \<open>A free platform 8 at address 5 with the load balancer, and consumer 2 without one.\<close>

definition pf0 :: "nat \<Rightarrow> agent_platform" where
  "pf0 c = \<lparr>pf_profile = Some [70, 0], pf_version = Some [49, 0], pf_name = Some [65, 66, 0],
     pf_vendor = Some [0], pf_extensions = Some [0], pf_provider = 1, pf_consumer = c, pf_id = 9, pf_global_id = 8,
     pf_devices = set_create\<rparr>"

lemma pf0_consumer [simp]: "pf_consumer (pf0 c) = c"
  by (simp add: pf0_def)

definition ag2 :: "nat \<Rightarrow> nat \<Rightarrow> (nat \<Rightarrow> byte list list) agent" where
  "ag2 c p = ag0\<lparr>ag_lb_platforms := sing 8 5, ag_consumer_heap := [2 \<mapsto> co0 set_create p],
     ag_platform_heap := [5 \<mapsto> pf0 c]\<rparr>"

lemma ag2_inv: "lb_inv (ag2 0 0)" "lb_inv (ag2 2 5)"
  by (auto simp: lb_inv_def ag2_def ag0_def co0_def pf0_def split: if_splits)

section \<open>A network and a codec\<close>

definition lz0 :: lzo where
  "lz0 = \<lparr>lzo1x_1_compress = (\<lambda>bs. bs), lzo1x_decompress = (\<lambda>bs. bs)\<rparr>"

lemma lz0_ok: "lzo_ok lz0"
  by (simp add: lzo_ok_def lz0_def)

definition link0 :: "(nat \<Rightarrow> byte list list) link" where
  "link0 = queue_link (\<lambda>sd to. to) (\<lambda>sd. nat sd) 65536"

lemma link0_simps [simp]:
  "reliable net0 link0" "lk_ok link0 s" "lk_queue link0 s = s" "lk_out link0 sd to = to"
  "lk_inp link0 sd = nat sd" "lk_lim link0 = 65536"
  by (simp_all add: net0_def link0_def queue_net_reliable) (simp_all add: queue_link_def)

text \<open>Blocks of two bytes, and the blocks of a small buffer.\<close>

definition opts2 :: stream_options where
  "opts2 = \<lparr>so_fmt = STREAM_FORMAT_RAW, so_blksz = 2\<rparr>"

lemma opts2_simps [simp]:
  "opts_ok (opts_of (Some opts2))"
  "wire_blocks lz0 (opts_of (Some opts2)) [a, b, c] = [[a, b], [c]]"
  "stream_fuel [[a, b], [c]] 10"
  by (simp_all add: opts_ok_def opts_of_def opts2_def wire_blocks_def enc_blocks_def chunks_step
      enc_block_def STREAM_FORMAT_RAW_def STREAM_FORMAT_LZO1X_1_def stream_fuel_def)

lemma get_platform_ids_info: "\<exists>r. opencl_get_clfuninfo CL_GETPLATFORMIDS = Inr r \<and> fi_argc r = 3"
  by (simp add: opencl_get_clfuninfo_def clfuninfo_rows_def cl_value_def cl_functions_def)

section \<open>A thread that holds the lock\<close>

text \<open>Thread 1 after its call of \<^verbatim>\<open>lock_wait\<close>, run alone from the start.\<close>

definition sys1 :: lock_sys where
  "sys1 = \<lparr>sys_lock = \<lparr>lk_sem = 0, lk_owner = 1, lk_cnt = 1\<rparr>, sys_pc = (\<lambda>_. Idle),
     sys_depth = (\<lambda>_. 0)(1 := 1), sys_aborted = False\<rparr>"

lemma step_run:
  assumes "lock_stmt t (sys_pc s t) (sys_lock s) = Next l pc"
    and "s' = s\<lparr>sys_lock := l, sys_pc := (sys_pc s)(t := pc),
      sys_depth := (sys_depth s)(t := ghost_depth (sys_pc s t) (sys_depth s t))\<rparr>"
  shows "sys_step s t s'"
  using sys_step.run [OF assms(1)] assms(2) by simp

lemma reach_run:
  assumes "sys_reach s" and "lock_stmt t (sys_pc s t) (sys_lock s) = Next l pc"
    and "s' = s\<lparr>sys_lock := l, sys_pc := (sys_pc s)(t := pc),
      sys_depth := (sys_depth s)(t := ghost_depth (sys_pc s t) (sys_depth s t))\<rparr>"
  shows "sys_reach s'"
  using sys_reach.step [OF assms(1) sys_step.run [OF assms(2)]] assms(3) by simp

definition sys_at :: "lock_pc \<Rightarrow> nat \<Rightarrow> nat \<Rightarrow> lock_sys" where
  "sys_at pc sem own = \<lparr>sys_lock = \<lparr>lk_sem = sem, lk_owner = own, lk_cnt = 0\<rparr>,
     sys_pc = (\<lambda>_. Idle)(1 := pc), sys_depth = (\<lambda>_. 0), sys_aborted = False\<rparr>"

lemma sys_at_reach: "sys_reach (sys_at W_inc 0 1)"
proof -
  have "sys_reach (sys_at W_test 1 0)"
    using sys_reach.step [OF sys_reach.start sys_step.call_wait [of 1 sys_init]]
    by (simp add: sys_init_def lock_create_def sys_at_def)
  then have "sys_reach (sys_at W_sem 1 0)"
    by (rule reach_run [where t = 1]) (simp_all add: sys_at_def fun_eq_iff)
  then have "sys_reach (sys_at W_got 0 0)"
    by (rule reach_run [where t = 1]) (simp_all add: sys_at_def fun_eq_iff)
  then have "sys_reach (sys_at W_set 0 0)"
    by (rule reach_run [where t = 1]) (simp_all add: sys_at_def fun_eq_iff)
  then show ?thesis
    by (rule reach_run [where t = 1]) (simp_all add: sys_at_def fun_eq_iff)
qed

lemma sys1_reach: "sys_reach sys1"
  by (rule reach_run [OF sys_at_reach, where t = 1]) (simp_all add: sys_at_def sys1_def fun_eq_iff)

text \<open>A second thread waits for it.\<close>

lemma waiting_reach: "\<exists>s. sys_reach s \<and> sys_pc s 2 = W_sem \<and> lk_sem (sys_lock s) = 0"
proof -
  let ?s = "sys1\<lparr>sys_pc := (sys_pc sys1)(2 := W_test)\<rparr>"
  have r1: "sys_reach ?s"
    by (rule sys_reach.step [OF sys1_reach sys_step.call_wait]) (simp_all add: sys1_def)
  have r2: "sys_reach (?s\<lparr>sys_pc := (sys_pc ?s)(2 := W_test2)\<rparr>)" (is "sys_reach ?s2")
    by (rule reach_run [OF r1, where t = 2]) (simp_all add: sys1_def fun_eq_iff)
  have "sys_reach (?s2\<lparr>sys_pc := (sys_pc ?s2)(2 := W_sem)\<rparr>)"
    by (rule reach_run [OF r2, where t = 2]) (simp_all add: sys1_def fun_eq_iff)
  then show ?thesis by (intro exI conjI) (assumption, simp_all add: sys1_def)
qed

end
