(* ===== verification/Agent_Examples.thy ===== *)
theory Agent_Examples
  imports Examples Call_Laws Alloc_Laws
begin

text \<open>
  Small concrete agents for the properties of the calls: one with a provider, its platform and
  its device, one whose provider has answered a call, and a consumer with memory in the agent.
\<close>

section \<open>A platform with a device\<close>

definition info0 :: "device_info \<Rightarrow> byte list" where
  "info0 i = (case device_field i of
     Head off n \<Rightarrow> replicate n 0 | Body off n \<Rightarrow> replicate n 0 | Sizes \<Rightarrow> [] | Text s \<Rightarrow> [65, 0]
   | Available \<Rightarrow> replicate 4 0)"

lemma info0_reported: "reported info0 i"
proof -
  have z: "replicate 4 (0 :: byte) = [0, 0, 0, 0]" by (simp add: numeral_eq_Suc)
  have "(65 :: byte) \<noteq> 0" by simp
  with z show ?thesis by (auto simp: reported_def info0_def cstr_def dec32_def split: field_place.splits)
qed

definition dv0 :: agent_device where
  "dv0 = reported_device info0 9
     \<lparr>dv_head = replicate 20 0, dv_work_item_sizes = None, dv_body = replicate 224 0,
      dv_name = None, dv_vendor = None, dv_driver_version = None, dv_profile = None,
      dv_version = None, dv_extensions = None, dv_provider = 1, dv_id = 0, dv_global_id = 11\<rparr>"

text \<open>Provider 1 with platform 8, which has device 11; eight bytes of memory at address 10.\<close>

definition ag3 :: "(nat \<Rightarrow> byte list list) agent" where
  "ag3 = ag0\<lparr>ag_providers := sing 1 1, ag_provider_heap := [1 \<mapsto> pv0\<lparr>pv_platforms := sing 8 5\<rparr>],
     ag_platform_heap := [5 \<mapsto> (pf0 0)\<lparr>pf_devices := sing 11 12\<rparr>], ag_device_heap := [12 \<mapsto> dv0],
     ag_mem := \<lparr>mm_blocks = [10 \<mapsto> replicate 8 0], mm_next = 11\<rparr>\<rparr>"

lemma ag3_topo: "topo_inv ag3" "provider_seq ag3 = [1]" "consumer_agent ag3 2 = Inr (co0 set_create 0)"
  by (simp_all add: topo_inv_def provider_ok_def platform_ok_def ag3_def ag0_def co0_def provider_seq_def
      device_list_def pv0_def pf0_def)

lemma ag3_first: "first_platform ag3 8 = 5" "first_device ag3 11 = 12"
  by (simp_all add: first_platform_def first_device_def all_platforms_def all_devices_def provider_seq_def
      platform_list_def device_list_def the_platform_def the_device_def ag3_def ag0_def pf0_def dv0_def
      reported_device_def)

section \<open>A provider that has answered\<close>

text \<open>The agent with object 7, after the answer \<open>x\<close> of provider 1 has arrived.\<close>

definition ag4 :: "u32 \<Rightarrow> arg \<Rightarrow> (nat \<Rightarrow> byte list list) agent" where
  "ag4 r x = (ag1 r)\<lparr>ag_net := (\<lambda>_. [])(4 := [enc16 CLARA_MSG_EXECUTE_RESPONSE @ enc64 x])\<rparr>"

lemma ag4_inv:
  assumes "r \<noteq> 0"
  shows "object_inv (ag4 r x)" and "object_room (ag4 r x)"
  using ag1_inv [OF assms] by (simp_all add: ag4_def object_inv_net object_room_def)

lemma ag4_parts:
  "object_table (ag4 r x) = object_table (ag1 r)" "ag_id_pool (ag4 r x) = sing 7 ()"
  "ag_consumer_heap (ag4 r x) 2 = Some (co0 (sing 7 4) 0)" "co_attached (co0 (sing 7 4) 0)"
  "ag_net (ag4 r x) = (\<lambda>_. [])(4 := [enc16 CLARA_MSG_EXECUTE_RESPONSE @ enc64 x])"
  "served link0 (ag4 r x) 1 pv0 5 4"
  by (auto simp: ag4_def ag1_def ag0_def co0_def pv0_def served_def object_table_def entry_of_def fun_eq_iff)

lemma row_sizes:
  "\<exists>r. opencl_get_clfuninfo CL_CREATECOMMANDQUEUE = Inr r \<and> fi_argc r = 4"
  "\<exists>r. opencl_get_clfuninfo CL_RETAINCONTEXT = Inr r \<and> fi_argc r = 1"
  "\<exists>r. opencl_get_clfuninfo CL_RELEASECONTEXT = Inr r \<and> fi_argc r = 1"
  by (simp_all add: opencl_get_clfuninfo_def clfuninfo_rows_def cl_value_def cl_functions_def)

section \<open>Memory of a consumer\<close>

lemma ag0_alloc: "alloc_inv ag0"
  by (auto simp: alloc_inv_def ag0_def mem_init_wf co0_def owns_def split: if_splits)

definition areq0 :: allocate_request where
  "areq0 = \<lparr>ar_handle = 0, ar_nmemb = 3, ar_size = 1, ar_hint = 0\<rparr>"

definition ag5 :: "(nat \<Rightarrow> byte list list) agent" where
  "ag5 = ag0\<lparr>ag_id_pool := sing 7 (), ag_mem := \<lparr>mm_blocks = [1 \<mapsto> [1, 2, 3]], mm_next = 2\<rparr>,
     ag_consumer_heap := [2 \<mapsto> (co0 set_create 0)\<lparr>co_allocations :=
         sing 7 \<lparr>al_handle = 7, al_nmemb = 3, al_size = 1, al_ptr = 1\<rparr>\<rparr>, 3 \<mapsto> co0 set_create 0],
     ag_net := (\<lambda>_. [])(5 := [enc16 CLARA_MSG_ALLOCATE_RESPONSE @ enc64 7])\<rparr>"

lemma allocate_example:
  "handle_allocate net0 [7] ag0 2 (enc_allocate_request areq0 @ [1, 2, 3]) 5 = Inr (Some ag5)"
  by (simp add: handle_allocate_def areq0_def deref_def ag0_def co0_def consumer_agent_def set_create_is
      allocate_local_def clara_create_allocation_def mem_calloc_def mem_init_def put_allocations_def
      put_consumer_def c_assert_def mem_write_def mem_block_def clara_send_allocate_response_def
      clara_sendmsg_def net0_def queue_net_def ag5_def fun_eq_iff)

end
