(* ===== verification/Provider_Examples.thy ===== *)
theory Provider_Examples
  imports Distributed Agent_Examples
begin

text \<open>
  A small provider for the properties of its messages: it knows one object, its library
  answers every call with success and every creation with the object 33.
\<close>

lemmas message_types =
  CLARA_MSG_INVALID_def CLARA_MSG_ACK_def CLARA_MSG_NACK_def CLARA_MSG_IDLE_def
  CLARA_MSG_PING_def CLARA_MSG_PONG_def CLARA_MSG_PROVIDER_def CLARA_MSG_CONSUMER_def
  CLARA_MSG_ALLOCATE_REQUEST_def CLARA_MSG_ALLOCATE_RESPONSE_def CLARA_MSG_EXECUTE_REQUEST_def
  CLARA_MSG_EXECUTE_RESPONSE_def CLARA_MSG_FETCH_REQUEST_def CLARA_MSG_FETCH_RESPONSE_def
  CLARA_MSG_MAPATPTR_REQUEST_def CLARA_MSG_MAPATPTR_RESPONSE_def CLARA_MSG_MEMPUT_STREAM_def
  CLARA_MSG_BLOCK_def CLARA_MSG_STREAM_START_def CLARA_MSG_STREAM_END_def
  CLARA_MSG_OPENCL_PLATFORM_INFO_def CLARA_MSG_OPENCL_PLATFORM_ID_def
  CLARA_MSG_OPENCL_DEVICE_INFO_def CLARA_MSG_OPENCL_DEVICE_ID_def CLARA_MSG_MAPPING_def

lemma create_buffer_row: "\<exists>r. opencl_get_clfuninfo CL_CREATEBUFFER = Inr r \<and> fi_argc r = 5"
  by (simp add: opencl_get_clfuninfo_def clfuninfo_rows_def cl_value_def cl_functions_def)

definition vd0 :: "unit vendor" where
  "vd0 = \<lparr>vd_status = (\<lambda>f xs s m. (0, s, m)), vd_object = (\<lambda>f xs s m. (33, 0, s, m)),
     vd_platforms = Some [21], vd_platform_info = (\<lambda>p i. Some [65, 0]), vd_devices = (\<lambda>p. Some [22]),
     vd_device_info = (\<lambda>d i. Some (info0 i))\<rparr>"

lemma vd0_ok: "vendor_ok vd0"
  by (auto simp: vendor_ok_def vd0_def mem_like_def)

text \<open>Object 9 under identifier 7; the agent is at address 4.\<close>

definition prov0 :: "((nat \<Rightarrow> byte list list), unit) clara_provider" where
  "prov0 = (provider_init 5 4 (-1) (\<lambda>_. []) ())\<lparr>pr_id_map := sing 7 (mapping_create 9 7)\<rparr>"

lemma prov0_ids: "pr_ids prov0 = [7 \<mapsto> 9]"
  by (auto simp: pr_ids_def prov0_def mapping_create_def fun_eq_iff)

lemma create_count: "set_count set_create = 0"
  by (simp add: set_create_def set_count_def rb_count_def rb_create_def)

lemma prov0_inv: "pr_inv prov0" "pr_room prov0" "pr_spare prov0"
  by (auto simp: pr_inv_def pr_owns_def prov0_def provider_init_def mem_init_wf mapping_create_def pr_room_def
      pr_spare_def create_count split: if_splits)

lemma prov0_agrees: "agrees (ag4 1 x) 1 prov0"
  by (simp add: agrees_def ag4_parts ag1_table prov0_ids)

lemma prov0_net: "lk_ok link0 (pr_net prov0)" "pr_sd prov0 = 5" "pr_agent prov0 = 4" "pr_net prov0 = (\<lambda>_. [])"
  by (simp_all add: prov0_def provider_init_def)

text \<open>With memory: three bytes under handle 8, or an identifier in eight bytes.\<close>

definition prov1 :: "byte list \<Rightarrow> ((nat \<Rightarrow> byte list list), unit) clara_provider" where
  "prov1 bs = (provider_init 5 4 (-1) (\<lambda>_. []) ())\<lparr>pr_id_map := sing 8 (mapping_create 1 8),
     pr_allocations := sing 8 \<lparr>al_handle = 8, al_nmemb = of_nat (length bs), al_size = 1, al_ptr = 1\<rparr>,
     pr_mem := \<lparr>mm_blocks = [1 \<mapsto> bs], mm_next = 2\<rparr>\<rparr>"

lemma prov1_parts:
  "pr_ids (prov1 bs) = [8 \<mapsto> 1]" "pr_buffers (prov1 bs) = [8 \<mapsto> bs]" "lk_ok link0 (pr_net (prov1 bs))"
  "pr_room (prov1 bs)" "pr_net (prov1 bs) = (\<lambda>_. [])" "pr_sd (prov1 bs) = 5" "pr_agent (prov1 bs) = 4"
  "mm_blocks (pr_mem (prov1 bs)) = [1 \<mapsto> bs]"
  by (auto simp: prov1_def pr_ids_def pr_buffers_def mapping_create_def provider_init_def pr_room_def fun_eq_iff)

lemma prov1_inv:
  assumes "length bs < 2 ^ 64"
  shows "pr_inv (prov1 bs)"
proof -
  have "unat (of_nat (length bs) :: 64 word) = length bs" using assms by (simp add: unat_of_nat)
  then show ?thesis
    by (auto simp: pr_inv_def pr_owns_def pr_alloc_ok_def prov1_parts PTR2ARG_def)
       (auto simp: prov1_def provider_init_def mapping_create_def mem_wf_def split: if_splits)
qed

section \<open>A released object and another one\<close>

text \<open>A set with two entries, the keys in order.\<close>

definition duo :: "global_id \<Rightarrow> 'v \<Rightarrow> global_id \<Rightarrow> 'v \<Rightarrow> 'v cset" where
  "duo k v k' v' =
     \<lparr>cs_depth = 0, cs_tree = \<lparr>rb_root = Node (On_Heap 1) NULL (Node (On_Heap 2) NULL NULL RB_RED) RB_BLACK, rb_cnt = 2\<rparr>,
      cs_trav = \<lparr>trav_init = False, trav_stack = [], trav_p = NULL\<rparr>,
      cs_heap = [1 \<mapsto> \<lparr>it_key = k, it_data = v\<rparr>, 2 \<mapsto> \<lparr>it_key = k', it_data = v'\<rparr>], cs_brk = 3\<rparr>"

lemma duo_simps [simp]:
  assumes "k < k'"
  shows "set_wf (duo k v k' v')" "set_room (duo k v k' v')" "set_map (duo k v k' v') = [k \<mapsto> v, k' \<mapsto> v']"
    "set_count (duo k v k' v') = 2" "cs_depth (duo k v k' v') = 0"
  using assms
  by (auto simp: duo_def set_wf_def set_room_def set_count_def rb_count_def set_map_def
      set_entries_def set_refs_def rb_inv_def rb_shape_def rb_sorted_def)

text \<open>Objects 3 and 7 of consumer 2, with the answers of provider 1 to a release and a creation.\<close>

definition ag10 :: "(nat \<Rightarrow> byte list list) agent" where
  "ag10 = ag0\<lparr>ag_id_pool := duo 3 () 7 (), ag_objects := duo 3 5 7 4,
     ag_object_heap := [4 \<mapsto> ob0 1, 5 \<mapsto> (ob0 1)\<lparr>ob_id := 3, ob_real := 8\<rparr>],
     ag_consumer_heap := [2 \<mapsto> co0 (duo 3 5 7 4) 0, 3 \<mapsto> co0 set_create 0], ag_next := 6,
     ag_net := (\<lambda>_. [])(4 := [enc16 CLARA_MSG_EXECUTE_RESPONSE @ enc64 0, enc16 CLARA_MSG_EXECUTE_RESPONSE @ enc64 33])\<rparr>"

lemma ag10_inv: "object_inv ag10" "object_room ag10"
  by (auto simp: object_inv_defs object_room_def ag10_def ag0_def co0_def ob0_def pv0_def pool_wf_def pool_ids_def
      split: if_splits)

lemma ag10_table:
  "object_table ag10 =
    [3 \<mapsto> \<lparr>oe_real = 8, oe_provider = 1, oe_consumer = 2, oe_refcnt = 1\<rparr>,
     7 \<mapsto> \<lparr>oe_real = 9, oe_provider = 1, oe_consumer = 2, oe_refcnt = 1\<rparr>]"
  by (auto simp: object_table_def ag10_def entry_of_def ob0_def fun_eq_iff)

lemma ag10_parts:
  "ag_consumer_heap ag10 2 = Some (co0 (duo 3 5 7 4) 0)" "co_attached (co0 (duo 3 5 7 4) 0)"
  "served link0 ag10 1 pv0 5 4"
  "lk_queue link0 (ag_net ag10) 4 =
    (enc16 CLARA_MSG_EXECUTE_RESPONSE @ enc64 0) # (enc16 CLARA_MSG_EXECUTE_RESPONSE @ enc64 33) # []"
  by (auto simp: ag10_def ag0_def co0_def pv0_def served_def)

definition prov10 :: "((nat \<Rightarrow> byte list list), unit) clara_provider" where
  "prov10 = (provider_init 5 4 (-1) (\<lambda>_. []) ())\<lparr>pr_id_map := duo 3 (mapping_create 8 3) 7 (mapping_create 9 7)\<rparr>"

lemma prov10_ids: "pr_ids prov10 = [3 \<mapsto> 8, 7 \<mapsto> 9]"
  by (auto simp: pr_ids_def prov10_def mapping_create_def fun_eq_iff)

lemma prov10_inv: "pr_inv prov10" "pr_room prov10" "agrees ag10 1 prov10"
  by (auto simp: pr_inv_def pr_owns_def prov10_def provider_init_def mem_init_wf mapping_create_def pr_room_def
      agrees_def ag10_table pr_ids_def split: if_splits)

abbreviation release7 :: execute_request where
  "release7 \<equiv> \<lparr>er_hint = 7, er_fun = of_nat (cl_value CL_RELEASEMEMOBJECT), er_retval = 0\<rparr>"

abbreviation buffer3 :: execute_request where
  "buffer3 \<equiv> \<lparr>er_hint = 3, er_fun = of_nat (cl_value CL_CREATEBUFFER), er_retval = 0\<rparr>"

lemma release_row: "\<exists>r. opencl_get_clfuninfo CL_RELEASEMEMOBJECT = Inr r \<and> fi_argc r = 1"
  by (simp add: opencl_get_clfuninfo_def clfuninfo_rows_def cl_value_def cl_functions_def)

lemma prov10_runs:
  "\<exists>pr1 pr2. pr_handle_execute net0 vd0 prov10 (enc_execute_request release7 @ enc_args [7]) 4 = Inr pr1 \<and>
    pr_handle_execute net0 vd0 pr1 (enc_execute_request buffer3 @ enc_args [3, 1, 16, 0, 0]) 4 = Inr pr2"
proof -
  let ?a = "[3, 1, 16, 0, 0] :: arg list"
  obtain r where r: "opencl_get_clfuninfo CL_RELEASEMEMOBJECT = Inr r" "fi_argc r = 1" using release_row by blast
  obtain q where q: "opencl_get_clfuninfo CL_CREATEBUFFER = Inr q" "fi_argc q = 5" using create_buffer_row by blast
  have e1: "map_of (exec_fun_table_entries vd0) CL_RELEASEMEMOBJECT = Some (entry (clara_clReleaseMemObject vd0) [1])"
    and e2: "map_of (exec_fun_table_entries vd0) CL_CREATEBUFFER = Some (entry (clara_clCreateBuffer vd0) [1, 4, 5])"
    by (simp_all add: exec_fun_table_entries_def)
  have k1: "pr_ids prov10 ([7] ! j) \<noteq> None" if "j < fi_argc r" "[7] ! j \<noteq> (0 :: arg)" "bit (ARGS [1]) j" for j
    using that by (simp add: r prov10_ids)
  have r1: "clara_clReleaseMemObject vd0 prov10 (release7\<lparr>er_retval := 0\<rparr>) xs = Inr (prov10, release7, xs)" for xs
    by (simp add: clara_clReleaseMemObject_def status_call_def vd0_def argv0_def)
  have net: "reliable net0 link0" "lk_ok link0 (pr_net prov10)" "10 \<le> lk_lim link0"
    by (simp_all add: prov10_def provider_init_def)
  from provider_execute [OF prov10_inv(1) e1 _ r(1) _ k1 r1 net] obtain s where
    s: "pr_handle_execute net0 vd0 prov10 (enc_execute_request release7 @ enc_args [7]) 4 = Inr (prov10\<lparr>pr_net := s\<rparr>)"
    by (fastforce simp: r)
  let ?pr = "prov10\<lparr>pr_net := s\<rparr>"
  have inv: "pr_inv ?pr" "pr_ids ?pr = [3 \<mapsto> 8, 7 \<mapsto> 9]" using pr_handle_execute_ids [OF vd0_ok prov10_inv(1,2) s] prov10_ids by auto
  have k2: "pr_ids ?pr (?a ! j) \<noteq> None" if "j < fi_argc q" "?a ! j \<noteq> 0" "bit (ARGS [1, 4, 5]) j" for j
  proof -
    from that(1) have "j = 0 \<or> j = 1 \<or> j = 2 \<or> j = 3 \<or> j = 4" by (auto simp: q)
    with that(2,3) show ?thesis by (elim disjE) (simp_all add: prov10_ids ARGS_def bit_simps)
  qed
  have r2: "clara_clCreateBuffer vd0 ?pr (buffer3\<lparr>er_retval := 0\<rparr>) xs = Inr (?pr, buffer3\<lparr>er_retval := 33\<rparr>, xs)" for xs
    by (simp add: clara_clCreateBuffer_def object_call_def vd0_def argv0_def)
  have "lk_ok link0 (pr_net ?pr)" by simp
  from provider_execute [OF inv(1) e2 _ q(1) _ k2 r2 net(1) this net(3)] s show ?thesis
    by (fastforce simp: q)
qed

end
