(* ===== verification/Consumer_Library.thy ===== *)
theory Consumer_Library
  imports Rpc Memory
begin

text \<open>
  The library an application is linked to (\<^verbatim>\<open>consumer/src/consumer.c\<close> and the macros of
  \<^verbatim>\<open>consumer.h\<close>): its connection to the agent, and the frontends that allocate, fetch and free
  memory at the agent and run calls there. The application's memory is explicit; a pointer is
  the address of a block. Debug output is left out.
\<close>

section \<open>State\<close>

record clara_consumer =
  cn_sd :: sd
  cn_agent_addr :: sockaddr

text \<open>The variable \<^verbatim>\<open>consumer\<close>, the application's memory and the network.\<close>

record 'n client =
  ct_consumer :: "clara_consumer option"
  ct_mem :: memory
  ct_net :: 'n

text \<open>
  What the library gets from the system: the sockets and the codec, the variables
  \<^verbatim>\<open>AGENT_ADDR\<close> and \<^verbatim>\<open>AGENT_PORT\<close>, \<^verbatim>\<open>inet_pton\<close>, the address of a host and port for the sockets,
  that of a structure of zeros in which only the host is filled in, and what \<^verbatim>\<open>clara_socket\<close>
  returns.
\<close>

record 'n system =
  sy_net :: "'n sctp"
  sy_lzo :: lzo
  sy_fuel :: nat
  sy_agent_addr :: "string option"
  sy_agent_port :: "string option"
  sy_inet_pton :: "string \<Rightarrow> u32 option"
  sy_sockaddr :: "u32 \<times> 16 word \<Rightarrow> sockaddr"
  sy_sin_addr :: "u32 \<Rightarrow> sockaddr"
  sy_socket :: "sd option"

text \<open>Operations on the state, one after the other.\<close>

type_synonym ('n, 'a) client_op = "'n client \<Rightarrow> fault + ('n client \<times> 'a)"

definition creturn :: "'a \<Rightarrow> ('n, 'a) client_op" where
  "creturn x = (\<lambda>c. Inr (c, x))"

definition cbind :: "('n, 'a) client_op \<Rightarrow> ('a \<Rightarrow> ('n, 'b) client_op) \<Rightarrow> ('n, 'b) client_op" where
  "cbind m f = (\<lambda>c. rbind (m c) (\<lambda>(c', x). f x c'))"

definition cseq :: "('n, 'a) client_op \<Rightarrow> ('n, 'b) client_op \<Rightarrow> ('n, 'b) client_op" where
  "cseq m n = cbind m (\<lambda>_. n)"

section \<open>Connection\<close>

definition consumer_deinit :: "'n client \<Rightarrow> 'n client" where
  "consumer_deinit c = c\<lparr>ct_consumer := None\<rparr>"

definition agent_port :: "'n system \<Rightarrow> string" where
  "agent_port sy = (case sy_agent_port sy of None \<Rightarrow> CLARA_DEFAULT_PORT | Some p \<Rightarrow> p)"

text \<open>
  The variable is set before the address and the socket are known, and stays set when they
  cannot be had, with what \<^verbatim>\<open>clara_sockaddr\<close> has written in the address. The type of an answer that is a notification is not stored.
\<close>

definition consumer_init :: "'n system \<Rightarrow> ('n, bool) client_op" where
  "consumer_init sy c =
     (if ct_consumer c \<noteq> None then Inr (c, True)
      else
        case clara_sockaddr (sy_inet_pton sy) (sy_agent_addr sy) (Some (agent_port sy)) of
          None \<Rightarrow>
            let addr = sy_sin_addr sy (clara_sockaddr_left (sy_inet_pton sy) (sy_agent_addr sy) (Some (agent_port sy)))
            in Inr (c\<lparr>ct_consumer := Some \<lparr>cn_sd = 0, cn_agent_addr = addr\<rparr>\<rparr>, False)
        | Some a \<Rightarrow>
            let addr = sy_sockaddr sy a
            in case sy_socket sy of
                 None \<Rightarrow> Inr (c\<lparr>ct_consumer := Some \<lparr>cn_sd = -1, cn_agent_addr = addr\<rparr>\<rparr>, False)
               | Some sd \<Rightarrow>
                   let c1 = c\<lparr>ct_consumer := Some \<lparr>cn_sd = sd, cn_agent_addr = addr\<rparr>\<rparr>
                   in rbind (clara_sendmsg (sy_net sy) (ct_net c1) sd CLARA_MSG_CONSUMER [] addr) (\<lambda>(s, ssz).
                      let c2 = c1\<lparr>ct_net := s\<rparr>
                      in if ssz = None then Inr (consumer_deinit c2, False)
                         else rbind (clara_recvmsg (sy_net sy) s sd CLARA_MSG_INVALID 0) (\<lambda>(s', r).
                              let c3 = c2\<lparr>ct_net := s'\<rparr>
                              in case r of
                                   None \<Rightarrow> Inr (consumer_deinit c3, False)
                                 | Some m \<Rightarrow>
                                     if cm_bytes m \<noteq> [] then Inr (consumer_deinit c3, False)
                                     else if cm_notification m then Inl Uninit_Read
                                     else if cm_type m \<noteq> CLARA_MSG_ACK then Inr (consumer_deinit c3, False)
                                     else Inr (c3, True))))"

text \<open>The members of \<^verbatim>\<open>consumer\<close>, which may be null.\<close>

definition with_consumer :: "(clara_consumer \<Rightarrow> ('n, 'a) client_op) \<Rightarrow> ('n, 'a) client_op" where
  "with_consumer f = (\<lambda>c. case ct_consumer c of None \<Rightarrow> Inl Null_Deref | Some cn \<Rightarrow> f cn c)"

text \<open>An operation of the network, on its state.\<close>

definition on_net :: "('n \<Rightarrow> fault + ('n \<times> 'a)) \<Rightarrow> ('n, 'a) client_op" where
  "on_net f = (\<lambda>c. rbind (f (ct_net c)) (\<lambda>(s, x). Inr (c\<lparr>ct_net := s\<rparr>, x)))"

section \<open>Memory at the agent\<close>

text \<open>
  Bytes behind a pointer of the process, from an offset; nothing is touched when there are none.
\<close>

definition app_bytes :: "nat \<Rightarrow> nat \<Rightarrow> nat \<Rightarrow> ('n, byte list) client_op" where
  "app_bytes p off n =
     (\<lambda>c. if n = 0 then Inr (c, []) else rbind (mem_read (ct_mem c) p off n) (\<lambda>bs. Inr (c, bs)))"

definition app_store :: "nat \<Rightarrow> nat \<Rightarrow> byte list \<Rightarrow> ('n, unit) client_op" where
  "app_store p off bs =
     (\<lambda>c. if bs = [] then Inr (c, ())
          else rbind (mem_write (ct_mem c) p off bs) (\<lambda>m. Inr (c\<lparr>ct_mem := m\<rparr>, ())))"

text \<open>\<^verbatim>\<open>strlen\<close> of a string of the application.\<close>

definition app_strlen :: "nat \<Rightarrow> ('n, nat) client_op" where
  "app_strlen p =
     (\<lambda>c. rbind (mem_block (ct_mem c) p) (\<lambda>bs.
        if 0 \<in> set bs then Inr (c, length (takeWhile (\<lambda>b. b \<noteq> 0) bs)) else Inl Buffer_Overflow))"

definition cassert :: "bool \<Rightarrow> ('n, unit) client_op" where
  "cassert b = (\<lambda>c. rbind (c_assert b) (\<lambda>_. Inr (c, ())))"

definition consumer_begin_allocate ::
  "'n system \<Rightarrow> 64 word \<Rightarrow> 64 word \<Rightarrow> nat \<Rightarrow> global_id \<Rightarrow> ('n, bool) client_op"
where
  "consumer_begin_allocate sy nmemb sz data hint =
     cbind (consumer_init sy) (\<lambda>ok.
     if \<not> ok then creturn False
     else
       cbind (if data = 0 then creturn None
              else cbind (app_bytes data 0 (unat (nmemb * sz))) (\<lambda>bs. creturn (Some bs))) (\<lambda>bytes.
       with_consumer (\<lambda>cn. on_net (\<lambda>s.
         clara_send_allocate_request (sy_net sy) s (cn_sd cn) nmemb sz bytes hint (cn_agent_addr cn)))))"

definition consumer_end_allocate :: "'n system \<Rightarrow> ('n, handle) client_op" where
  "consumer_end_allocate sy =
     with_consumer (\<lambda>cn.
     cbind (on_net (\<lambda>s. clara_recv_allocate_response (sy_net sy) s (cn_sd cn))) (\<lambda>r.
     creturn (case r of None \<Rightarrow> 0 | Some h \<Rightarrow> h)))"

definition STREAM_FORMAT :: "64 word \<Rightarrow> u32" where
  "STREAM_FORMAT sz = (if sz > 16384 then STREAM_FORMAT_LZO1X_1 else STREAM_FORMAT_RAW)"

definition STREAM_BLOCKSIZE :: "64 word" where "STREAM_BLOCKSIZE = push_bit 22 1"

definition consumer_opts :: "64 word \<Rightarrow> stream_options" where
  "consumer_opts n = \<lparr>so_fmt = STREAM_FORMAT n, so_blksz = STREAM_BLOCKSIZE\<rparr>"

definition consumer_begin_fetch :: "'n system \<Rightarrow> handle \<Rightarrow> 64 word \<Rightarrow> global_id \<Rightarrow> ('n, bool) client_op" where
  "consumer_begin_fetch sy src n hint =
     with_consumer (\<lambda>cn. on_net (\<lambda>s.
       clara_send_fetch_request (sy_net sy) s (cn_sd cn) src n hint (Some (consumer_opts n)) (cn_agent_addr cn)))"

text \<open>The bytes are stored as they come, before the result is known.\<close>

definition consumer_end_fetch :: "'n system \<Rightarrow> nat \<Rightarrow> 64 word \<Rightarrow> ('n, bool) client_op" where
  "consumer_end_fetch sy dst n =
     (if dst = 0 then creturn False
      else
        with_consumer (\<lambda>cn.
        cbind (on_net (\<lambda>s.
            clara_recv_fetch_response (sy_net sy) (sy_lzo sy) (sy_fuel sy) s (cn_sd cn) (unat n))) (\<lambda>(_, buf, ok).
        cseq (app_store dst 0 buf) (creturn ok))))"

definition consumer_allocate ::
  "'n system \<Rightarrow> 64 word \<Rightarrow> 64 word \<Rightarrow> nat \<Rightarrow> global_id \<Rightarrow> ('n, handle) client_op"
where
  "consumer_allocate sy nmemb sz data hint =
     cbind (consumer_begin_allocate sy nmemb sz data hint) (\<lambda>ok.
     if \<not> ok then creturn 0 else consumer_end_allocate sy)"

definition consumer_fetch ::
  "'n system \<Rightarrow> handle \<Rightarrow> nat \<Rightarrow> 64 word \<Rightarrow> global_id \<Rightarrow> ('n, bool) client_op"
where
  "consumer_fetch sy src dst n hint =
     (if src = 0 then creturn False
      else
        let n' = (if dst = 0 then 0 else n)
        in cbind (consumer_begin_fetch sy src n' hint) (\<lambda>ok.
           if \<not> ok then creturn False
           else if n' = 0 then creturn True
           else consumer_end_fetch sy dst n'))"

definition consumer_free :: "'n system \<Rightarrow> handle \<Rightarrow> global_id \<Rightarrow> ('n, bool) client_op" where
  "consumer_free sy src hint = consumer_fetch sy src 0 0 hint"

definition consumer_memcpy ::
  "'n system \<Rightarrow> handle \<Rightarrow> nat \<Rightarrow> 64 word \<Rightarrow> global_id \<Rightarrow> ('n, bool) client_op"
where
  "consumer_memcpy sy dst src sz hint =
     (let params = \<lparr>mp_dst = dst, mp_offset = 0, mp_length = sz, mp_hint = hint\<rparr>
      in with_consumer (\<lambda>cn.
         cbind (on_net (\<lambda>s. clara_sendmsg (sy_net sy) s (cn_sd cn) CLARA_MSG_MEMPUT_STREAM (enc_memput params)
             (cn_agent_addr cn))) (\<lambda>ssz.
         if ssz = None then creturn False
         else
           cbind (app_bytes src 0 (unat sz)) (\<lambda>bs.
           cbind (on_net (\<lambda>s. stream_send (sy_net sy) (sy_lzo sy) (sy_fuel sy) s (cn_sd cn) bs
               (Some (consumer_opts sz)) (cn_agent_addr cn))) (\<lambda>bytes_sent.
           creturn (bytes_sent = unat sz))))))"

section \<open>Calls\<close>

text \<open>
  \<^verbatim>\<open>args\<close> are the arguments that follow \<open>hint\<close>; those of 32 bits are taken with a zero upper
  half. The result are the bytes of \<^verbatim>\<open>retbuf\<close>.
\<close>

definition consumer_execute ::
  "'n system \<Rightarrow> cl_function_t \<Rightarrow> nat \<Rightarrow> global_id \<Rightarrow> arg list \<Rightarrow> ('n, byte list option) client_op"
where
  "consumer_execute sy d retbuflen hint args =
     cbind (consumer_init sy) (\<lambda>ok.
     if \<not> ok then creturn None
     else (\<lambda>c.
       rbind (opencl_get_clfuninfo d) (\<lambda>fni.
       with_consumer (\<lambda>cn.
       cbind (on_net (\<lambda>s. clara_send_execute_request (sy_net sy) s (cn_sd cn) (of_nat (cl_value d)) args
           (fi_argc fni) hint (cn_agent_addr cn))) (\<lambda>sent.
       if \<not> sent then creturn None
       else on_net (\<lambda>s. clara_recv_execute_response (sy_net sy) s (cn_sd cn) retbuflen))) c)))"

section \<open>The macros of the calls\<close>

definition MALLOC :: "'n system \<Rightarrow> global_id \<Rightarrow> nat \<Rightarrow> 64 word \<Rightarrow> ('n, handle) client_op" where
  "MALLOC sy hint var sz = (if var \<noteq> 0 then consumer_allocate sy 1 sz var hint else creturn 0)"

definition CALLOC :: "'n system \<Rightarrow> global_id \<Rightarrow> nat \<Rightarrow> 64 word \<Rightarrow> 64 word \<Rightarrow> ('n, handle) client_op" where
  "CALLOC sy hint var nmemb sz = (if var \<noteq> 0 then consumer_allocate sy nmemb sz 0 hint else creturn 0)"

text \<open>The results of the next two are not looked at.\<close>

definition FETCH :: "'n system \<Rightarrow> global_id \<Rightarrow> handle \<Rightarrow> nat \<Rightarrow> 64 word \<Rightarrow> ('n, unit) client_op" where
  "FETCH sy hint h var sz = (if h \<noteq> 0 then cseq (consumer_fetch sy h var sz hint) (creturn ()) else creturn ())"

definition FREE :: "'n system \<Rightarrow> global_id \<Rightarrow> handle \<Rightarrow> ('n, unit) client_op" where
  "FREE sy hint h = (if h \<noteq> 0 then cseq (consumer_free sy h hint) (creturn ()) else creturn ())"

definition MEMPUT :: "'n system \<Rightarrow> global_id \<Rightarrow> handle \<Rightarrow> nat \<Rightarrow> 64 word \<Rightarrow> ('n, unit) client_op" where
  "MEMPUT sy hint h var sz = cseq (consumer_memcpy sy h var sz hint) (creturn ())"

text \<open>\<^verbatim>\<open>EXECUTE\<close> asserts that the call went through; \<open>n\<close> is the size of \<^verbatim>\<open>__rv\<close>.\<close>

definition EXECUTE ::
  "'n system \<Rightarrow> global_id \<Rightarrow> cl_function_t \<Rightarrow> nat \<Rightarrow> arg list \<Rightarrow> ('n, byte list) client_op"
where
  "EXECUTE sy hint fn n args =
     cbind (consumer_execute sy fn n hint args) (\<lambda>r c.
     case r of None \<Rightarrow> Inl Assertion_Failed | Some bs \<Rightarrow> Inr (c, bs))"

text \<open>A status is a \<^verbatim>\<open>cl_int\<close>, an object a pointer.\<close>

definition EXECUTE_status :: "'n system \<Rightarrow> global_id \<Rightarrow> cl_function_t \<Rightarrow> arg list \<Rightarrow> ('n, u32) client_op" where
  "EXECUTE_status sy hint fn args = cbind (EXECUTE sy hint fn 4 args) (\<lambda>bs. creturn (dec32 bs))"

definition EXECUTE_object :: "'n system \<Rightarrow> global_id \<Rightarrow> cl_function_t \<Rightarrow> arg list \<Rightarrow> ('n, arg) client_op" where
  "EXECUTE_object sy hint fn args = cbind (EXECUTE sy hint fn 8 args) (\<lambda>bs. creturn (dec64 bs))"

definition ERRCODE_SET :: "nat \<Rightarrow> u32 \<Rightarrow> ('n, unit) client_op" where
  "ERRCODE_SET errcode_ret v = (if errcode_ret \<noteq> 0 then app_store errcode_ret 0 (enc32 v) else creturn ())"

definition ERRCODE_INIT :: "'n system \<Rightarrow> global_id \<Rightarrow> ('n, handle) client_op" where
  "ERRCODE_INIT sy hint = consumer_allocate sy 1 4 0 hint"

definition ERRCODE_FETCH :: "'n system \<Rightarrow> global_id \<Rightarrow> handle \<Rightarrow> nat \<Rightarrow> ('n, unit) client_op" where
  "ERRCODE_FETCH sy hint h errcode_ret = cseq (consumer_fetch sy h errcode_ret 4 hint) (creturn ())"

text \<open>\<^verbatim>\<open>INIT_STATUS\<close>, and \<^verbatim>\<open>DECLARE_HINT\<close>, which returns the initial value for a null object.\<close>

definition INIT_STATUS :: "arg \<Rightarrow> u32" where "INIT_STATUS v = ucast v"

definition DECLARE_HINT :: "arg \<Rightarrow> 'a \<Rightarrow> ('n, 'a) client_op \<Rightarrow> ('n, 'a) client_op" where
  "DECLARE_HINT var rv body = (if var = 0 then creturn rv else body)"

definition HANDLE :: "handle \<Rightarrow> arg" where "HANDLE h = h"

end
