(* ===== verification/Consumer_Calls.thy ===== *)
theory Consumer_Calls
  imports Consumer_Library
begin

text \<open>
  The OpenCL functions of the consumer's library (\<^verbatim>\<open>consumer/src/opencl_*.c\<close>): each copies what
  its pointers point to into memory at the agent, runs the call on the handles, and fetches or
  frees the memory again. Objects are 64-bit values, pointers addresses of blocks. The functions
  that are not implemented only return a constant and are left out, as is debug output.
\<close>

section \<open>Status codes\<close>

definition CL_OUT_OF_HOST_MEMORY :: arg where "CL_OUT_OF_HOST_MEMORY = -6"
definition CL_INVALID_CONTEXT :: arg where "CL_INVALID_CONTEXT = -34"
definition CL_INVALID_COMMAND_QUEUE :: arg where "CL_INVALID_COMMAND_QUEUE = -36"
definition CL_INVALID_MEM_OBJECT :: arg where "CL_INVALID_MEM_OBJECT = -38"
definition CL_INVALID_PROGRAM :: arg where "CL_INVALID_PROGRAM = -44"
definition CL_INVALID_KERNEL :: arg where "CL_INVALID_KERNEL = -48"
definition CL_INVALID_EVENT :: arg where "CL_INVALID_EVENT = -58"

section \<open>Calls with an object and nothing else\<close>

text \<open>\<^verbatim>\<open>INIT_STATUS(init); DECLARE_HINT(object); EXECUTE(fn, object); RETURN;\<close>\<close>

definition object_status_call :: "'n system \<Rightarrow> cl_function_t \<Rightarrow> arg \<Rightarrow> arg \<Rightarrow> ('n, u32) client_op" where
  "object_status_call sy fn init object =
     DECLARE_HINT object (INIT_STATUS init) (EXECUTE_status sy object fn [object])"

definition clRetainContext :: "'n system \<Rightarrow> arg \<Rightarrow> ('n, u32) client_op" where
  "clRetainContext sy context = object_status_call sy CL_RETAINCONTEXT CL_INVALID_CONTEXT context"

definition clReleaseContext :: "'n system \<Rightarrow> arg \<Rightarrow> ('n, u32) client_op" where
  "clReleaseContext sy context = object_status_call sy CL_RELEASECONTEXT CL_INVALID_CONTEXT context"

definition clRetainCommandQueue :: "'n system \<Rightarrow> arg \<Rightarrow> ('n, u32) client_op" where
  "clRetainCommandQueue sy q = object_status_call sy CL_RETAINCOMMANDQUEUE CL_INVALID_COMMAND_QUEUE q"

definition clReleaseCommandQueue :: "'n system \<Rightarrow> arg \<Rightarrow> ('n, u32) client_op" where
  "clReleaseCommandQueue sy q = object_status_call sy CL_RELEASECOMMANDQUEUE CL_INVALID_COMMAND_QUEUE q"

definition clRetainMemObject :: "'n system \<Rightarrow> arg \<Rightarrow> ('n, u32) client_op" where
  "clRetainMemObject sy memobj = object_status_call sy CL_RETAINMEMOBJECT CL_INVALID_MEM_OBJECT memobj"

definition clReleaseMemObject :: "'n system \<Rightarrow> arg \<Rightarrow> ('n, u32) client_op" where
  "clReleaseMemObject sy memobj = object_status_call sy CL_RELEASEMEMOBJECT CL_INVALID_MEM_OBJECT memobj"

definition clRetainProgram :: "'n system \<Rightarrow> arg \<Rightarrow> ('n, u32) client_op" where
  "clRetainProgram sy program = object_status_call sy CL_RETAINPROGRAM CL_INVALID_PROGRAM program"

definition clReleaseProgram :: "'n system \<Rightarrow> arg \<Rightarrow> ('n, u32) client_op" where
  "clReleaseProgram sy program = object_status_call sy CL_RELEASEPROGRAM CL_INVALID_PROGRAM program"

definition clRetainKernel :: "'n system \<Rightarrow> arg \<Rightarrow> ('n, u32) client_op" where
  "clRetainKernel sy k = object_status_call sy CL_RETAINKERNEL CL_INVALID_KERNEL k"

definition clReleaseKernel :: "'n system \<Rightarrow> arg \<Rightarrow> ('n, u32) client_op" where
  "clReleaseKernel sy k = object_status_call sy CL_RELEASEKERNEL CL_INVALID_KERNEL k"

definition clRetainEvent :: "'n system \<Rightarrow> arg \<Rightarrow> ('n, u32) client_op" where
  "clRetainEvent sy event = object_status_call sy CL_RETAINEVENT CL_INVALID_EVENT event"

definition clReleaseEvent :: "'n system \<Rightarrow> arg \<Rightarrow> ('n, u32) client_op" where
  "clReleaseEvent sy event = object_status_call sy CL_RELEASEEVENT CL_INVALID_EVENT event"

definition clEnqueueBarrier :: "'n system \<Rightarrow> arg \<Rightarrow> ('n, u32) client_op" where
  "clEnqueueBarrier sy q = object_status_call sy CL_ENQUEUEBARRIER CL_INVALID_COMMAND_QUEUE q"

definition clFlush :: "'n system \<Rightarrow> arg \<Rightarrow> ('n, u32) client_op" where
  "clFlush sy q = object_status_call sy CL_FLUSH CL_INVALID_COMMAND_QUEUE q"

definition clFinish :: "'n system \<Rightarrow> arg \<Rightarrow> ('n, u32) client_op" where
  "clFinish sy q = object_status_call sy CL_FINISH CL_INVALID_COMMAND_QUEUE q"

definition clUnloadCompiler :: "'n system \<Rightarrow> ('n, u32) client_op" where
  "clUnloadCompiler sy = EXECUTE_status sy 0 CL_UNLOADCOMPILER []"

section \<open>Questions\<close>

text \<open>
  What all questions for a parameter do, with the arguments before the size: memory for the
  value and its size, the call, and both fetched.
\<close>

definition info_call ::
  "'n system \<Rightarrow> global_id \<Rightarrow> cl_function_t \<Rightarrow> arg list \<Rightarrow> 64 word \<Rightarrow> nat \<Rightarrow> nat \<Rightarrow> ('n, u32) client_op"
where
  "info_call sy hint fn args param_value_size param_value param_value_size_ret =
     cbind (CALLOC sy hint param_value 1 param_value_size) (\<lambda>h_param_value.
     cbind (CALLOC sy hint param_value_size_ret 1 8) (\<lambda>h_param_value_size_ret.
     cbind (EXECUTE_status sy hint fn
         (args @ [param_value_size, HANDLE h_param_value, HANDLE h_param_value_size_ret])) (\<lambda>rv.
     cseq (FETCH sy hint h_param_value param_value param_value_size)
    (cseq (FETCH sy hint h_param_value_size_ret param_value_size_ret 8)
          (creturn rv)))))"

definition clGetPlatformInfo ::
  "'n system \<Rightarrow> arg \<Rightarrow> u32 \<Rightarrow> 64 word \<Rightarrow> nat \<Rightarrow> nat \<Rightarrow> ('n, u32) client_op"
where
  "clGetPlatformInfo sy platform param_name param_value_size param_value param_value_size_ret =
     info_call sy 0 CL_GETPLATFORMINFO [platform, ucast param_name]
       param_value_size param_value param_value_size_ret"

definition clGetDeviceInfo ::
  "'n system \<Rightarrow> arg \<Rightarrow> u32 \<Rightarrow> 64 word \<Rightarrow> nat \<Rightarrow> nat \<Rightarrow> ('n, u32) client_op"
where
  "clGetDeviceInfo sy device param_name param_value_size param_value param_value_size_ret =
     info_call sy 0 CL_GETDEVICEINFO [device, ucast param_name]
       param_value_size param_value param_value_size_ret"

text \<open>\<^verbatim>\<open>DECLARE_GETOBJECTINFO\<close> of \<^verbatim>\<open>consumer.h\<close>.\<close>

definition clGetObjectInfo ::
  "cl_function_t \<Rightarrow> 'n system \<Rightarrow> arg \<Rightarrow> u32 \<Rightarrow> 64 word \<Rightarrow> nat \<Rightarrow> nat \<Rightarrow> ('n, u32) client_op"
where
  "clGetObjectInfo fn sy object param_name param_value_size param_value param_value_size_ret =
     DECLARE_HINT object (INIT_STATUS CL_SUCCESS)
       (info_call sy object fn [object, ucast param_name]
          param_value_size param_value param_value_size_ret)"

definition clGetCommandQueueInfo ::
  "'n system \<Rightarrow> arg \<Rightarrow> u32 \<Rightarrow> 64 word \<Rightarrow> nat \<Rightarrow> nat \<Rightarrow> ('n, u32) client_op"
where
  "clGetCommandQueueInfo = clGetObjectInfo CL_GETCOMMANDQUEUEINFO"

definition clGetMemObjectInfo ::
  "'n system \<Rightarrow> arg \<Rightarrow> u32 \<Rightarrow> 64 word \<Rightarrow> nat \<Rightarrow> nat \<Rightarrow> ('n, u32) client_op"
where
  "clGetMemObjectInfo = clGetObjectInfo CL_GETMEMOBJECTINFO"

definition clGetProgramInfo ::
  "'n system \<Rightarrow> arg \<Rightarrow> u32 \<Rightarrow> 64 word \<Rightarrow> nat \<Rightarrow> nat \<Rightarrow> ('n, u32) client_op"
where
  "clGetProgramInfo = clGetObjectInfo CL_GETPROGRAMINFO"

definition clGetKernelInfo ::
  "'n system \<Rightarrow> arg \<Rightarrow> u32 \<Rightarrow> 64 word \<Rightarrow> nat \<Rightarrow> nat \<Rightarrow> ('n, u32) client_op"
where
  "clGetKernelInfo = clGetObjectInfo CL_GETKERNELINFO"

definition clGetEventInfo ::
  "'n system \<Rightarrow> arg \<Rightarrow> u32 \<Rightarrow> 64 word \<Rightarrow> nat \<Rightarrow> nat \<Rightarrow> ('n, u32) client_op"
where
  "clGetEventInfo = clGetObjectInfo CL_GETEVENTINFO"

definition clGetProgramBuildInfo ::
  "'n system \<Rightarrow> arg \<Rightarrow> arg \<Rightarrow> u32 \<Rightarrow> 64 word \<Rightarrow> nat \<Rightarrow> nat \<Rightarrow> ('n, u32) client_op"
where
  "clGetProgramBuildInfo sy program device param_name param_value_size param_value param_value_size_ret =
     DECLARE_HINT program (INIT_STATUS CL_SUCCESS)
       (info_call sy program CL_GETPROGRAMBUILDINFO [program, device, ucast param_name]
          param_value_size param_value param_value_size_ret)"

definition clGetEventProfilingInfo ::
  "'n system \<Rightarrow> arg \<Rightarrow> u32 \<Rightarrow> 64 word \<Rightarrow> nat \<Rightarrow> nat \<Rightarrow> ('n, u32) client_op"
where
  "clGetEventProfilingInfo sy event param_name param_value_size param_value param_value_size_ret =
     DECLARE_HINT event (INIT_STATUS CL_INVALID_EVENT)
       (info_call sy event CL_GETEVENTPROFILINGINFO [event, ucast param_name]
          param_value_size param_value param_value_size_ret)"

section \<open>Platforms and devices\<close>

definition clGetPlatformIDs :: "'n system \<Rightarrow> u32 \<Rightarrow> nat \<Rightarrow> nat \<Rightarrow> ('n, u32) client_op" where
  "clGetPlatformIDs sy num_entries platforms num_platforms =
     (if num_entries = 0 \<and> platforms \<noteq> 0 then creturn (INIT_STATUS CL_INVALID_VALUE)
      else if platforms = 0 \<and> num_platforms = 0 then creturn (INIT_STATUS CL_INVALID_VALUE)
      else
        cseq (if num_platforms \<noteq> 0 then app_store num_platforms 0 (enc32 0) else creturn ())
       (cbind (CALLOC sy 0 platforms (ucast num_entries) 8) (\<lambda>h_platforms.
        cbind (CALLOC sy 0 num_platforms 1 4) (\<lambda>h_num_platforms.
        cbind (EXECUTE_status sy 0 CL_GETPLATFORMIDS
            [ucast num_entries, HANDLE h_platforms, HANDLE h_num_platforms]) (\<lambda>rv.
        cseq (FETCH sy 0 h_platforms platforms (ucast num_entries * 8))
       (cseq (FETCH sy 0 h_num_platforms num_platforms 4)
             (creturn rv)))))))"

definition clGetDeviceIDs :: "'n system \<Rightarrow> arg \<Rightarrow> arg \<Rightarrow> u32 \<Rightarrow> nat \<Rightarrow> nat \<Rightarrow> ('n, u32) client_op" where
  "clGetDeviceIDs sy platform device_type num_entries devices num_devices =
     (if num_entries = 0 \<and> devices \<noteq> 0 then creturn (INIT_STATUS CL_INVALID_VALUE)
      else if devices = 0 \<and> num_devices = 0 then creturn (INIT_STATUS CL_INVALID_VALUE)
      else
        cseq (if num_devices \<noteq> 0 then app_store num_devices 0 (enc32 0) else creturn ())
       (cbind (CALLOC sy 0 devices (ucast num_entries) 8) (\<lambda>h_devices.
        cbind (CALLOC sy 0 num_devices 1 4) (\<lambda>h_num_devices.
        cbind (EXECUTE_status sy 0 CL_GETDEVICEIDS
            [platform, device_type, ucast num_entries, HANDLE h_devices, HANDLE h_num_devices]) (\<lambda>rv.
        cseq (FETCH sy 0 h_devices devices (ucast num_entries * 8))
       (cseq (FETCH sy 0 h_num_devices num_devices 4)
             (creturn rv)))))))"

section \<open>Contexts\<close>

text \<open>
  The loop over the properties, with the platform found so far and the size of what has been
  read: \<open>None\<close> for a name that is not known.
\<close>

fun scan_properties :: "arg list \<Rightarrow> arg \<Rightarrow> 64 word \<Rightarrow> fault + (arg \<times> 64 word) option" where
  "scan_properties [] platform_id n = Inl Buffer_Overflow"
| "scan_properties [name] platform_id n =
     (if name = 0 then Inr (Some (platform_id, n))
      else if name = CL_CONTEXT_PLATFORM then Inl Buffer_Overflow else Inr None)"
| "scan_properties (name # value # ctx_prop) platform_id n =
     (if name = 0 then Inr (Some (platform_id, n))
      else if name = CL_CONTEXT_PLATFORM then scan_properties ctx_prop value (n + 16) else Inr None)"

definition context_error :: "nat \<Rightarrow> arg \<Rightarrow> ('n, arg) client_op" where
  "context_error errcode_ret status = cseq (ERRCODE_SET errcode_ret (ucast status)) (creturn 0)"

text \<open>The platform and the size of the properties, or the error.\<close>

definition context_platform_of ::
  "nat \<Rightarrow> nat \<Rightarrow> (arg \<Rightarrow> 64 word \<Rightarrow> ('n, arg) client_op) \<Rightarrow> ('n, arg) client_op"
where
  "context_platform_of properties errcode_ret body =
     (\<lambda>c. rbind (mem_block (ct_mem c) properties) (\<lambda>bs.
          rbind (scan_properties (words_of bs) 0 0) (\<lambda>r.
          case r of
            None \<Rightarrow> context_error errcode_ret CL_INVALID_VALUE c
          | Some (platform_id, n) \<Rightarrow>
              if platform_id = 0 then context_error errcode_ret CL_INVALID_PLATFORM c
              else body platform_id (n + 8) c)))"

definition clCreateContext ::
  "'n system \<Rightarrow> nat \<Rightarrow> u32 \<Rightarrow> nat \<Rightarrow> nat \<Rightarrow> nat \<Rightarrow> nat \<Rightarrow> ('n, arg) client_op"
where
  "clCreateContext sy properties num_devices devices pfn_notify user_data errcode_ret =
     (if properties = 0 then context_error errcode_ret CL_INVALID_PLATFORM
      else if devices = 0 \<or> num_devices = 0 then context_error errcode_ret CL_INVALID_VALUE
      else if pfn_notify = 0 \<and> user_data \<noteq> 0 then context_error errcode_ret CL_INVALID_VALUE
      else context_platform_of properties errcode_ret (\<lambda>hint ctx_prop_size.
        cbind (consumer_allocate sy 1 ctx_prop_size properties hint) (\<lambda>h_properties.
        if h_properties = 0 then context_error errcode_ret CL_OUT_OF_HOST_MEMORY
        else
          cbind (consumer_allocate sy (ucast num_devices) 8 devices hint) (\<lambda>h_devices.
          if h_devices = 0 then
            cseq (ERRCODE_SET errcode_ret (ucast CL_OUT_OF_HOST_MEMORY))
           (cseq (FREE sy hint h_properties) (creturn 0))
          else
            cbind (ERRCODE_INIT sy hint) (\<lambda>h_errcode_ret.
            cbind
              (if h_errcode_ret = 0 then
                 cseq (ERRCODE_SET errcode_ret (ucast CL_OUT_OF_HOST_MEMORY)) (creturn 0)
               else
                 cbind (EXECUTE_object sy hint CL_CREATECONTEXT
                     [h_properties, ucast num_devices, h_devices, 0, 0, h_errcode_ret]) (\<lambda>rv.
                 cseq (ERRCODE_FETCH sy hint h_errcode_ret errcode_ret) (creturn rv))) (\<lambda>rv.
            cseq (FREE sy hint h_devices)
           (cseq (FREE sy hint h_properties)
                 (creturn rv))))))))"

definition clCreateContextFromType ::
  "'n system \<Rightarrow> nat \<Rightarrow> arg \<Rightarrow> nat \<Rightarrow> nat \<Rightarrow> nat \<Rightarrow> ('n, arg) client_op"
where
  "clCreateContextFromType sy properties device_type pfn_notify user_data errcode_ret =
     (if properties = 0 then context_error errcode_ret CL_INVALID_PLATFORM
      else if pfn_notify = 0 \<and> user_data \<noteq> 0 then context_error errcode_ret CL_INVALID_VALUE
      else context_platform_of properties errcode_ret (\<lambda>hint ctx_prop_size.
        cbind (consumer_allocate sy 1 ctx_prop_size properties hint) (\<lambda>h_properties.
        if h_properties = 0 then context_error errcode_ret CL_OUT_OF_HOST_MEMORY
        else
          cbind (ERRCODE_INIT sy hint) (\<lambda>h_errcode_ret.
          cbind
            (if h_errcode_ret = 0 then
               cseq (ERRCODE_SET errcode_ret (ucast CL_OUT_OF_HOST_MEMORY)) (creturn 0)
             else
               cbind (EXECUTE_object sy hint CL_CREATECONTEXTFROMTYPE
                   [HANDLE h_properties, device_type, 0, 0, HANDLE h_errcode_ret]) (\<lambda>rv.
               cseq (ERRCODE_FETCH sy hint h_errcode_ret errcode_ret) (creturn rv))) (\<lambda>rv.
          cseq (FREE sy hint h_properties)
               (creturn rv))))))"

section \<open>Command queues and buffers\<close>

definition clCreateCommandQueue :: "'n system \<Rightarrow> arg \<Rightarrow> arg \<Rightarrow> arg \<Rightarrow> nat \<Rightarrow> ('n, arg) client_op" where
  "clCreateCommandQueue sy context device properties errcode_ret =
     DECLARE_HINT context 0
       (cbind (CALLOC sy context errcode_ret 1 4) (\<lambda>h_errcode_ret.
        cbind (EXECUTE_object sy context CL_CREATECOMMANDQUEUE
            [context, device, properties, HANDLE h_errcode_ret]) (\<lambda>rv.
        cseq (FETCH sy context h_errcode_ret errcode_ret 4)
             (creturn rv))))"

definition clCreateBuffer :: "'n system \<Rightarrow> arg \<Rightarrow> arg \<Rightarrow> 64 word \<Rightarrow> nat \<Rightarrow> nat \<Rightarrow> ('n, arg) client_op" where
  "clCreateBuffer sy context flags sz host_ptr errcode_ret =
     DECLARE_HINT context 0
       (cbind (CALLOC sy context errcode_ret 1 4) (\<lambda>h_errcode_ret.
        cbind (MALLOC sy context host_ptr sz) (\<lambda>h_host_ptr.
        cbind (EXECUTE_object sy context CL_CREATEBUFFER
            [context, flags, sz, HANDLE h_host_ptr, HANDLE h_errcode_ret]) (\<lambda>rv.
        cseq (FETCH sy context h_errcode_ret errcode_ret 4)
       (cseq (FREE sy context h_host_ptr)
             (creturn rv))))))"

definition clEnqueueReadBuffer ::
  "'n system \<Rightarrow> arg \<Rightarrow> arg \<Rightarrow> u32 \<Rightarrow> 64 word \<Rightarrow> 64 word \<Rightarrow> nat \<Rightarrow> u32 \<Rightarrow> nat \<Rightarrow> nat \<Rightarrow> ('n, u32) client_op"
where
  "clEnqueueReadBuffer sy q buffer blocking_read offset cb ptr num_events_in_wait_list event_wait_list event =
     DECLARE_HINT q (INIT_STATUS CL_INVALID_COMMAND_QUEUE)
       (cbind (CALLOC sy q ptr 1 cb) (\<lambda>h_ptr.
        cbind (MALLOC sy q event_wait_list (ucast num_events_in_wait_list * 8)) (\<lambda>h_event_wait_list.
        cbind (CALLOC sy q event 1 8) (\<lambda>h_event.
        cbind (EXECUTE_status sy q CL_ENQUEUEREADBUFFER
            [q, buffer, ucast blocking_read, offset, cb, HANDLE h_ptr, ucast num_events_in_wait_list,
             HANDLE h_event_wait_list, HANDLE h_event]) (\<lambda>rv.
        cseq (FETCH sy q h_ptr ptr cb)
       (cseq (FREE sy q h_event_wait_list)
       (cseq (FETCH sy q h_event event 8)
             (creturn rv))))))))"

definition clEnqueueWriteBuffer ::
  "'n system \<Rightarrow> arg \<Rightarrow> arg \<Rightarrow> u32 \<Rightarrow> 64 word \<Rightarrow> 64 word \<Rightarrow> nat \<Rightarrow> u32 \<Rightarrow> nat \<Rightarrow> nat \<Rightarrow> ('n, u32) client_op"
where
  "clEnqueueWriteBuffer sy q buffer blocking_write offset cb ptr num_events_in_wait_list event_wait_list event =
     DECLARE_HINT q (INIT_STATUS CL_INVALID_COMMAND_QUEUE)
       (cbind (CALLOC sy q ptr 1 cb) (\<lambda>h_ptr.
        cseq (MEMPUT sy q h_ptr ptr cb)
       (cbind (MALLOC sy q event_wait_list (ucast num_events_in_wait_list * 8)) (\<lambda>h_event_wait_list.
        cbind (CALLOC sy q event 1 8) (\<lambda>h_event.
        cbind (EXECUTE_status sy q CL_ENQUEUEWRITEBUFFER
            [q, buffer, ucast blocking_write, offset, cb, HANDLE h_ptr, ucast num_events_in_wait_list,
             HANDLE h_event_wait_list, HANDLE h_event]) (\<lambda>rv.
        cseq (FREE sy q h_ptr)
       (cseq (FREE sy q h_event_wait_list)
       (cseq (FETCH sy q h_event event 8)
             (creturn rv)))))))))"

text \<open>
  The calls with a list of events to wait for and an event to return, with the arguments
  before them.
\<close>

definition enqueue_call ::
  "'n system \<Rightarrow> global_id \<Rightarrow> cl_function_t \<Rightarrow> arg list \<Rightarrow> u32 \<Rightarrow> nat \<Rightarrow> nat \<Rightarrow> ('n, u32) client_op"
where
  "enqueue_call sy q fn args num_events_in_wait_list event_wait_list event =
     cbind (MALLOC sy q event_wait_list (ucast num_events_in_wait_list * 8)) (\<lambda>h_event_wait_list.
     cbind (CALLOC sy q event 1 8) (\<lambda>h_event.
     cbind (EXECUTE_status sy q fn
         (args @ [ucast num_events_in_wait_list, HANDLE h_event_wait_list, HANDLE h_event])) (\<lambda>rv.
     cseq (FREE sy q h_event_wait_list)
    (cseq (FETCH sy q h_event event 8)
          (creturn rv)))))"

definition clEnqueueCopyBuffer ::
  "'n system \<Rightarrow> arg \<Rightarrow> arg \<Rightarrow> arg \<Rightarrow> 64 word \<Rightarrow> 64 word \<Rightarrow> 64 word \<Rightarrow> u32 \<Rightarrow> nat \<Rightarrow> nat \<Rightarrow> ('n, u32) client_op"
where
  "clEnqueueCopyBuffer sy q src_buffer dst_buffer src_offset dst_offset cb num_events event_wait_list event =
     DECLARE_HINT q (INIT_STATUS CL_INVALID_COMMAND_QUEUE)
       (enqueue_call sy q CL_ENQUEUECOPYBUFFER [q, src_buffer, dst_buffer, src_offset, dst_offset, cb]
          num_events event_wait_list event)"

section \<open>Programs\<close>

text \<open>
  The loop over the strings from index \<open>i\<close> with \<open>n\<close> to go: its length is the one given, or that
  of a string with its zero; its handle goes into the array \<open>h_string\<close>.
\<close>

fun source_strings ::
  "'n system \<Rightarrow> global_id \<Rightarrow> nat \<Rightarrow> nat \<Rightarrow> nat \<Rightarrow> nat \<Rightarrow> nat \<Rightarrow> ('n, unit) client_op"
where
  "source_strings sy hint strings lengths h_string i 0 = creturn ()"
| "source_strings sy hint strings lengths h_string i (Suc n) =
     cbind (if lengths = 0 then creturn 0
            else cbind (app_bytes lengths (8 * i) 8) (\<lambda>bs. creturn (dec64 bs))) (\<lambda>given.
     cbind (app_bytes strings (8 * i) 8) (\<lambda>bs.
     let string_i = ARG2PTR (dec64 bs)
     in cbind (if given \<noteq> 0 then creturn given
               else cbind (app_strlen string_i) (\<lambda>l. creturn (of_nat l + 1))) (\<lambda>len.
        cbind (consumer_allocate sy len 1 string_i hint) (\<lambda>h.
        cseq (app_store h_string (8 * i) (enc64 h))
       (cseq (cassert (h \<noteq> 0))
             (source_strings sy hint strings lengths h_string (Suc i) n))))))"

fun free_strings :: "'n system \<Rightarrow> global_id \<Rightarrow> nat \<Rightarrow> nat \<Rightarrow> nat \<Rightarrow> ('n, unit) client_op" where
  "free_strings sy hint h_string i 0 = creturn ()"
| "free_strings sy hint h_string i (Suc n) =
     cbind (app_bytes h_string (8 * i) 8) (\<lambda>bs.
     cseq (FREE sy hint (dec64 bs)) (free_strings sy hint h_string (Suc i) n))"

text \<open>\<^verbatim>\<open>calloc\<close> in the process's own memory; the array \<open>h_string\<close> is never freed.\<close>

definition app_calloc :: "64 word \<Rightarrow> 64 word \<Rightarrow> ('n, nat) client_op" where
  "app_calloc nmemb sz = (\<lambda>c. let (m, p) = mem_calloc (ct_mem c) nmemb sz in Inr (c\<lparr>ct_mem := m\<rparr>, p))"

definition clCreateProgramWithSource ::
  "'n system \<Rightarrow> arg \<Rightarrow> u32 \<Rightarrow> nat \<Rightarrow> nat \<Rightarrow> nat \<Rightarrow> ('n, arg) client_op"
where
  "clCreateProgramWithSource sy context cnt strings lengths errcode_ret =
     DECLARE_HINT context 0
       (cbind (app_calloc (ucast cnt) 8) (\<lambda>h_string.
        cseq (cassert (h_string \<noteq> 0))
       (cseq (source_strings sy context strings lengths h_string 0 (unat cnt))
       (cbind (consumer_allocate sy (ucast cnt) 8 h_string context) (\<lambda>h_strings.
        cseq (cassert (h_strings \<noteq> 0))
       (cbind (MALLOC sy context lengths (ucast cnt * 8)) (\<lambda>h_lengths.
        cbind (CALLOC sy context errcode_ret 1 4) (\<lambda>h_errcode_ret.
        cbind (EXECUTE_object sy context CL_CREATEPROGRAMWITHSOURCE
            [context, ucast cnt, HANDLE h_strings, HANDLE h_lengths, HANDLE h_errcode_ret]) (\<lambda>rv.
        cseq (FETCH sy context h_errcode_ret errcode_ret 4)
       (cseq (FREE sy context h_lengths)
       (cseq (free_strings sy context h_string 0 (unat cnt))
       (cseq (FREE sy context h_strings)
             (creturn rv)))))))))))))"

definition clCreateProgramWithBinary :: "nat \<Rightarrow> ('n, arg) client_op" where
  "clCreateProgramWithBinary errcode_ret = cseq (ERRCODE_SET errcode_ret (ucast CL_INVALID_CONTEXT)) (creturn 0)"

text \<open>The size of an optional string is only computed when there is one.\<close>

definition MALLOC_string :: "'n system \<Rightarrow> global_id \<Rightarrow> nat \<Rightarrow> ('n, handle) client_op" where
  "MALLOC_string sy hint var =
     (if var \<noteq> 0 then cbind (app_strlen var) (\<lambda>l. MALLOC sy hint var ((of_nat l + 1) * 1)) else creturn 0)"

definition clBuildProgram ::
  "'n system \<Rightarrow> arg \<Rightarrow> u32 \<Rightarrow> nat \<Rightarrow> nat \<Rightarrow> nat \<Rightarrow> nat \<Rightarrow> ('n, u32) client_op"
where
  "clBuildProgram sy program num_devices device_list options pfn_notify user_data =
     DECLARE_HINT program (INIT_STATUS 0)
       (cbind (MALLOC sy program device_list (ucast num_devices * 8)) (\<lambda>h_device_list.
        cbind (MALLOC_string sy program options) (\<lambda>h_options.
        cbind (EXECUTE_status sy program CL_BUILDPROGRAM
            [program, ucast num_devices, HANDLE h_device_list, HANDLE h_options, HANDLE 0, HANDLE 0]) (\<lambda>rv.
        cseq (FREE sy program h_device_list)
       (cseq (FREE sy program h_options)
             (creturn rv))))))"

section \<open>Kernels\<close>

definition clCreateKernel :: "'n system \<Rightarrow> arg \<Rightarrow> nat \<Rightarrow> nat \<Rightarrow> ('n, arg) client_op" where
  "clCreateKernel sy program kernel_name errcode_ret =
     DECLARE_HINT program 0
       (cbind (MALLOC_string sy program kernel_name) (\<lambda>h_kernel_name.
        cbind (CALLOC sy program errcode_ret 1 4) (\<lambda>h_errcode_ret.
        cbind (EXECUTE_object sy program CL_CREATEKERNEL
            [program, HANDLE h_kernel_name, HANDLE h_errcode_ret]) (\<lambda>rv.
        cseq (FREE sy program h_kernel_name)
       (cseq (FETCH sy program h_errcode_ret errcode_ret 4)
             (creturn rv))))))"

definition clSetKernelArg :: "'n system \<Rightarrow> arg \<Rightarrow> u32 \<Rightarrow> 64 word \<Rightarrow> nat \<Rightarrow> ('n, u32) client_op" where
  "clSetKernelArg sy k arg_index arg_size arg_value =
     DECLARE_HINT k (INIT_STATUS CL_INVALID_KERNEL)
       (cbind (MALLOC sy k arg_value arg_size) (\<lambda>h_arg_value.
        cbind (EXECUTE_status sy k CL_SETKERNELARG [k, ucast arg_index, arg_size, HANDLE h_arg_value]) (\<lambda>rv.
        cseq (FREE sy k h_arg_value)
             (creturn rv))))"

definition clEnqueueNDRangeKernel ::
  "'n system \<Rightarrow> arg \<Rightarrow> arg \<Rightarrow> u32 \<Rightarrow> nat \<Rightarrow> nat \<Rightarrow> nat \<Rightarrow> u32 \<Rightarrow> nat \<Rightarrow> nat \<Rightarrow> ('n, u32) client_op"
where
  "clEnqueueNDRangeKernel sy q k work_dim global_work_offset global_work_size local_work_size
      num_events event_wait_list event =
     DECLARE_HINT q (INIT_STATUS CL_INVALID_COMMAND_QUEUE)
       (cbind (MALLOC sy q global_work_offset (ucast work_dim * 8)) (\<lambda>h_global_work_offset.
        cbind (MALLOC sy q global_work_size (ucast work_dim * 8)) (\<lambda>h_global_work_size.
        cbind (MALLOC sy q local_work_size (ucast work_dim * 8)) (\<lambda>h_local_work_size.
        cbind (MALLOC sy q event_wait_list (ucast num_events * 8)) (\<lambda>h_event_wait_list.
        cbind (CALLOC sy q event 1 8) (\<lambda>h_event.
        cbind (EXECUTE_status sy q CL_ENQUEUENDRANGEKERNEL
            [q, k, ucast work_dim, HANDLE h_global_work_offset, HANDLE h_global_work_size,
             HANDLE h_local_work_size, ucast num_events, HANDLE h_event_wait_list, HANDLE h_event]) (\<lambda>rv.
        cseq (FREE sy q h_global_work_offset)
       (cseq (FREE sy q h_global_work_size)
       (cseq (FREE sy q h_local_work_size)
       (cseq (FREE sy q h_event_wait_list)
       (cseq (FETCH sy q h_event event 8)
             (creturn rv))))))))))))"

definition clEnqueueTask :: "'n system \<Rightarrow> arg \<Rightarrow> arg \<Rightarrow> u32 \<Rightarrow> nat \<Rightarrow> nat \<Rightarrow> ('n, u32) client_op" where
  "clEnqueueTask sy q k num_events event_wait_list event =
     DECLARE_HINT q (INIT_STATUS CL_INVALID_COMMAND_QUEUE)
       (enqueue_call sy q CL_ENQUEUETASK [q, k] num_events event_wait_list event)"

section \<open>Events\<close>

text \<open>The first event of the list is the hint.\<close>

definition clWaitForEvents :: "'n system \<Rightarrow> u32 \<Rightarrow> nat \<Rightarrow> ('n, u32) client_op" where
  "clWaitForEvents sy num_events event_list =
     (if num_events = 0 then creturn (INIT_STATUS CL_INVALID_VALUE)
      else
        cbind (app_bytes event_list 0 8) (\<lambda>bs.
        let hint = dec64 bs
        in DECLARE_HINT hint (INIT_STATUS CL_INVALID_VALUE)
            (cbind (MALLOC sy hint event_list (ucast num_events * 8)) (\<lambda>h_event_list.
             cbind (EXECUTE_status sy hint CL_WAITFOREVENTS [ucast num_events, HANDLE h_event_list]) (\<lambda>rv.
             cseq (FREE sy hint h_event_list)
                  (creturn rv))))))"

definition clEnqueueMarker :: "'n system \<Rightarrow> arg \<Rightarrow> nat \<Rightarrow> ('n, u32) client_op" where
  "clEnqueueMarker sy q event =
     DECLARE_HINT q (INIT_STATUS CL_INVALID_COMMAND_QUEUE)
       (cbind (CALLOC sy q event 1 8) (\<lambda>h_event.
        cbind (EXECUTE_status sy q CL_ENQUEUEMARKER [q, HANDLE h_event]) (\<lambda>rv.
        cseq (FETCH sy q h_event event 8)
             (creturn rv))))"

definition clEnqueueWaitForEvents :: "'n system \<Rightarrow> arg \<Rightarrow> u32 \<Rightarrow> nat \<Rightarrow> ('n, u32) client_op" where
  "clEnqueueWaitForEvents sy q num_events event_list =
     DECLARE_HINT q (INIT_STATUS CL_INVALID_COMMAND_QUEUE)
       (cbind (MALLOC sy q event_list (ucast num_events * 8)) (\<lambda>h_event_list.
        cbind (EXECUTE_status sy q CL_ENQUEUEWAITFOREVENTS
            [q, ucast num_events, HANDLE h_event_list]) (\<lambda>rv.
        cseq (FREE sy q h_event_list)
             (creturn rv))))"

end
