(* ===== verification/Consumer_Laws.thy ===== *)
theory Consumer_Laws
  imports Consumer_Calls
begin

text \<open>
  What the consumer's library says to the agent when the network works. An operation
  \<open>talks\<close> when, given the answers in the order it asks for them, it returns a value, changes the
  application's memory and has sent exactly a given list of messages. One rule for each
  frontend and macro; the functions of OpenCL follow from these by going through their code.
\<close>

section \<open>Conversations\<close>

definition works :: "'n system \<Rightarrow> 'n link \<Rightarrow> clara_consumer \<Rightarrow> bool" where
  "works sy k cn \<longleftrightarrow>
     reliable (sy_net sy) k \<and> lzo_ok (sy_lzo sy) \<and> BLOCKSIZE \<le> lk_lim k \<and>
     lk_inp k (cn_sd cn) \<noteq> lk_out k (cn_sd cn) (cn_agent_addr cn)"

text \<open>\<open>ins\<close> are the answers, \<open>outs\<close> the messages sent; \<open>m\<close> and \<open>m'\<close> the memory before and after.\<close>

definition talks ::
  "'n link \<Rightarrow> clara_consumer \<Rightarrow> ('n, 'a) client_op \<Rightarrow> memory \<Rightarrow> byte list list \<Rightarrow> byte list list \<Rightarrow>
    memory \<Rightarrow> 'a \<Rightarrow> bool"
where
  "talks k cn op m ins outs m' x \<longleftrightarrow>
     (\<forall>c rest. ct_consumer c = Some cn \<longrightarrow> lk_ok k (ct_net c) \<longrightarrow> ct_mem c = m \<longrightarrow>
        lk_queue k (ct_net c) (lk_inp k (cn_sd cn)) = ins @ rest \<longrightarrow>
        (\<exists>c'. op c = Inr (c', x) \<and> ct_consumer c' = Some cn \<and> ct_mem c' = m' \<and>
          moves k (ct_net c) (ct_net c') (lk_inp k (cn_sd cn)) rest
            (lk_out k (cn_sd cn) (cn_agent_addr cn)) outs))"

lemma talksI:
  assumes "\<And>(c :: 'n client) rest. ct_consumer c = Some cn \<Longrightarrow> lk_ok k (ct_net c) \<Longrightarrow> ct_mem c = m \<Longrightarrow>
        lk_queue k (ct_net c) (lk_inp k (cn_sd cn)) = ins @ rest \<Longrightarrow>
        \<exists>c'. op c = Inr (c', x) \<and> ct_consumer c' = Some cn \<and> ct_mem c' = m' \<and>
          moves k (ct_net c) (ct_net c') (lk_inp k (cn_sd cn)) rest
            (lk_out k (cn_sd cn) (cn_agent_addr cn)) outs"
  shows "talks k cn (op :: ('n, 'a) client_op) m ins outs m' x"
  using assms unfolding talks_def by blast

lemma talksE:
  assumes "talks k cn op m ins outs m' x" and "ct_consumer c = Some cn" and "lk_ok k (ct_net c)"
    and "ct_mem c = m" and "lk_queue k (ct_net c) (lk_inp k (cn_sd cn)) = ins @ rest"
  obtains c' where "op c = Inr (c', x)" and "ct_consumer c' = Some cn" and "ct_mem c' = m'"
    and "moves k (ct_net c) (ct_net c') (lk_inp k (cn_sd cn)) rest
      (lk_out k (cn_sd cn) (cn_agent_addr cn)) outs"
  using assms unfolding talks_def by blast

lemma talks_eq:
  "talks k cn op m ins outs m' x \<Longrightarrow> ins = ins' \<Longrightarrow> outs = outs' \<Longrightarrow> m' = m'' \<Longrightarrow> x = x' \<Longrightarrow>
    talks k cn op m ins' outs' m'' x'"
  by simp

lemma talks_return: "talks k cn (creturn x) m [] [] m x"
  by (rule talksI) (auto simp: creturn_def moves_def)

lemma talks_bind:
  fixes op :: "('n, 'a) client_op"
  assumes w: "works sy k cn" and 1: "talks k cn op m ins1 outs1 m1 y"
    and 2: "talks k cn (f y) m1 ins2 outs2 m' x"
  shows "talks k cn (cbind op f) m (ins1 @ ins2) (outs1 @ outs2) m' x"
proof (rule talksI)
  fix c :: "'n client" and rest
  assume c: "ct_consumer c = Some cn" "lk_ok k (ct_net c)" "ct_mem c = m"
    "lk_queue k (ct_net c) (lk_inp k (cn_sd cn)) = (ins1 @ ins2) @ rest"
  have d: "lk_inp k (cn_sd cn) \<noteq> lk_out k (cn_sd cn) (cn_agent_addr cn)" using w by (simp add: works_def)
  from c(4) have "lk_queue k (ct_net c) (lk_inp k (cn_sd cn)) = ins1 @ (ins2 @ rest)" by simp
  from talksE [OF 1 c(1-3) this] obtain c1 where
    c1: "op c = Inr (c1, y)" "ct_consumer c1 = Some cn" "ct_mem c1 = m1"
      "moves k (ct_net c) (ct_net c1) (lk_inp k (cn_sd cn)) (ins2 @ rest)
        (lk_out k (cn_sd cn) (cn_agent_addr cn)) outs1" .
  have "lk_ok k (ct_net c1)" "lk_queue k (ct_net c1) (lk_inp k (cn_sd cn)) = ins2 @ rest"
    using c1(4) d by (auto simp: moves_def)
  from talksE [OF 2 c1(2) this(1) c1(3) this(2)] obtain c' where
    c': "f y c1 = Inr (c', x)" "ct_consumer c' = Some cn" "ct_mem c' = m'"
      "moves k (ct_net c1) (ct_net c') (lk_inp k (cn_sd cn)) rest
        (lk_out k (cn_sd cn) (cn_agent_addr cn)) outs2" .
  with c1(1) moves_trans [OF d c1(4) c'(4)]
  show "\<exists>c'. cbind op f c = Inr (c', x) \<and> ct_consumer c' = Some cn \<and> ct_mem c' = m' \<and>
      moves k (ct_net c) (ct_net c') (lk_inp k (cn_sd cn)) rest
        (lk_out k (cn_sd cn) (cn_agent_addr cn)) (outs1 @ outs2)"
    by (auto simp: cbind_def)
qed

text \<open>The cases in which one side is silent, so that lists compose without empty parts.\<close>

lemma talks_bind_quiet:
  assumes "works sy k cn" and "talks k cn op m [] [] m1 y" and "talks k cn (f y) m1 ins outs m' x"
  shows "talks k cn (cbind op f) m ins outs m' x"
  using talks_bind [where f = f, OF assms] by simp

lemma talks_bind_send:
  assumes "works sy k cn" and "talks k cn op m [] outs1 m1 y" and "talks k cn (f y) m1 ins outs2 m' x"
  shows "talks k cn (cbind op f) m ins (outs1 @ outs2) m' x"
  using talks_bind [where f = f, OF assms] by simp

lemma talks_bind_end:
  assumes "works sy k cn" and "talks k cn op m ins outs1 m1 y" and "talks k cn (f y) m1 [] outs2 m' x"
  shows "talks k cn (cbind op f) m ins (outs1 @ outs2) m' x"
  using talks_bind [where f = f, OF assms] by simp

lemma talks_last:
  assumes "works sy k cn" and "talks k cn op m ins outs m' y"
  shows "talks k cn (cseq op (creturn x)) m ins outs m' x"
  using talks_bind [where f = "\<lambda>_. creturn x", OF assms talks_return] by (simp add: cseq_def)

lemma talks_with_consumer:
  assumes "talks k cn (f cn) m ins outs m' x"
  shows "talks k cn (with_consumer f) m ins outs m' x"
  using assms by (simp add: talks_def with_consumer_def)

lemma talks_send:
  fixes f :: "'n \<Rightarrow> fault + ('n \<times> 'a)"
  assumes w: "works sy k cn"
    and f: "\<And>s. lk_ok k s \<Longrightarrow> \<exists>s'. f s = Inr (s', x) \<and> adds k s s' (lk_out k (cn_sd cn) (cn_agent_addr cn)) outs"
  shows "talks k cn (on_net f) m [] outs m x"
proof (rule talksI)
  fix c :: "'n client" and rest
  assume c: "ct_consumer c = Some cn" "lk_ok k (ct_net c)" "ct_mem c = m"
    "lk_queue k (ct_net c) (lk_inp k (cn_sd cn)) = [] @ rest"
  from f [OF c(2)] obtain s' where s': "f (ct_net c) = Inr (s', x)"
    "adds k (ct_net c) s' (lk_out k (cn_sd cn) (cn_agent_addr cn)) outs" by blast
  then have "moves k (ct_net c) s' (lk_inp k (cn_sd cn)) rest (lk_out k (cn_sd cn) (cn_agent_addr cn)) outs"
    using c(4) w by (auto simp: moves_def adds_def works_def)
  with s'(1) c(1,3) show "\<exists>c'. on_net f c = Inr (c', x) \<and> ct_consumer c' = Some cn \<and> ct_mem c' = m \<and>
      moves k (ct_net c) (ct_net c') (lk_inp k (cn_sd cn)) rest
        (lk_out k (cn_sd cn) (cn_agent_addr cn)) outs"
    by (intro exI [of _ "c\<lparr>ct_net := s'\<rparr>"]) (simp add: on_net_def)
qed

lemma talks_recv:
  fixes f :: "'n \<Rightarrow> fault + ('n \<times> 'a)"
  assumes f: "\<And>s rest. lk_ok k s \<Longrightarrow> lk_queue k s (lk_inp k (cn_sd cn)) = ins @ rest \<Longrightarrow>
      \<exists>s'. f s = Inr (s', x) \<and> leaves k s s' (lk_inp k (cn_sd cn)) rest" and w: "works sy k cn"
  shows "talks k cn (on_net f) m ins [] m x"
proof (rule talksI)
  fix c :: "'n client" and rest
  assume c: "ct_consumer c = Some cn" "lk_ok k (ct_net c)" "ct_mem c = m"
    "lk_queue k (ct_net c) (lk_inp k (cn_sd cn)) = ins @ rest"
  from f [OF c(2,4)] obtain s' where s': "f (ct_net c) = Inr (s', x)"
    "leaves k (ct_net c) s' (lk_inp k (cn_sd cn)) rest" by blast
  then have "moves k (ct_net c) s' (lk_inp k (cn_sd cn)) rest (lk_out k (cn_sd cn) (cn_agent_addr cn)) []"
    using w by (auto simp: moves_def leaves_def works_def)
  with s'(1) c(1,3) show "\<exists>c'. on_net f c = Inr (c', x) \<and> ct_consumer c' = Some cn \<and> ct_mem c' = m \<and>
      moves k (ct_net c) (ct_net c') (lk_inp k (cn_sd cn)) rest
        (lk_out k (cn_sd cn) (cn_agent_addr cn)) []"
    by (intro exI [of _ "c\<lparr>ct_net := s'\<rparr>"]) (simp add: on_net_def)
qed

section \<open>The application's memory\<close>

definition room :: "memory \<Rightarrow> nat \<Rightarrow> nat \<Rightarrow> bool" where
  "room m p n \<longleftrightarrow> p \<noteq> 0 \<and> (\<exists>bs. mm_blocks m p = Some bs \<and> n \<le> length bs)"

text \<open>The first bytes of a block; the block with its first bytes replaced.\<close>

definition block_at :: "memory \<Rightarrow> nat \<Rightarrow> nat \<Rightarrow> byte list" where
  "block_at m p n = take n (the (mm_blocks m p))"

definition overwrite :: "memory \<Rightarrow> nat \<Rightarrow> byte list \<Rightarrow> memory" where
  "overwrite m p bs =
     m\<lparr>mm_blocks := (mm_blocks m)(p := map_option (\<lambda>old. bs @ drop (length bs) old) (mm_blocks m p))\<rparr>"

lemma overwrite_room [simp]: "room m q n \<Longrightarrow> room (overwrite m p bs) q n"
  by (auto simp: room_def overwrite_def)

lemma overwrite_block: "room m p (length bs) \<Longrightarrow> block_at (overwrite m p bs) p (length bs) = bs"
  by (auto simp: room_def block_at_def overwrite_def)

lemma overwrite_other: "p \<noteq> q \<Longrightarrow> mm_blocks (overwrite m p bs) q = mm_blocks m q"
  by (simp add: overwrite_def)

lemma overwrite_nil [simp]: "overwrite m p [] = m"
  by (cases "mm_blocks m p") (simp_all add: overwrite_def fun_upd_idem)

lemma room_mono: "room m p n \<Longrightarrow> k \<le> n \<Longrightarrow> room m p k"
  by (auto simp: room_def)

lemma length_block_at [simp]: "room m p n \<Longrightarrow> length (block_at m p n) = n"
  by (auto simp: room_def block_at_def)

text \<open>Pointers that may be null.\<close>

definition opt :: "nat \<Rightarrow> 'a list \<Rightarrow> 'a list" where
  "opt p xs = (if p = 0 then [] else xs)"

definition put_bytes :: "memory \<Rightarrow> nat \<Rightarrow> byte list \<Rightarrow> memory" where
  "put_bytes m p bs = (if p = 0 then m else overwrite m p bs)"

definition opt_room :: "memory \<Rightarrow> nat \<Rightarrow> nat \<Rightarrow> bool" where
  "opt_room m p n \<longleftrightarrow> p = 0 \<or> room m p n"

definition handle_of :: "nat \<Rightarrow> handle \<Rightarrow> handle" where
  "handle_of p h = (if p = 0 then 0 else h)"

lemma opt_simps [simp]: "opt 0 xs = []" "p \<noteq> 0 \<Longrightarrow> opt p xs = xs"
  by (simp_all add: opt_def)

lemma put_bytes_simps [simp]: "put_bytes m 0 bs = m" "p \<noteq> 0 \<Longrightarrow> put_bytes m p bs = overwrite m p bs"
  by (simp_all add: put_bytes_def)

lemma handle_of_simps [simp]: "handle_of 0 h = 0" "p \<noteq> 0 \<Longrightarrow> handle_of p h = h"
  by (simp_all add: handle_of_def)

lemma opt_room_put [simp]: "opt_room m q n \<Longrightarrow> opt_room (put_bytes m p bs) q n"
  by (auto simp: opt_room_def put_bytes_def)

lemma talks_app_bytes:
  assumes "room m p (off + n)"
  shows "talks k cn (app_bytes p off n) m [] [] m (take n (drop off (the (mm_blocks m p))))"
  using assms
  by (intro talksI) (auto simp: app_bytes_def room_def mem_read_def mem_block_def moves_def)

lemma talks_block:
  assumes "room m p n"
  shows "talks k cn (app_bytes p 0 n) m [] [] m (block_at m p n)"
  using talks_app_bytes [of m p 0 n k cn] assms by (simp add: block_at_def)

lemma talks_app_store:
  assumes "room m p (length bs)"
  shows "talks k cn (app_store p 0 bs) m [] [] (overwrite m p bs) ()"
  using assms
  by (intro talksI, cases "bs = []")
    (auto simp: app_store_def room_def mem_write_def mem_block_def overwrite_def moves_def fun_upd_idem)

lemma talks_app_strlen:
  assumes "room m p n" and "0 \<in> set (block_at m p n)"
  shows "talks k cn (app_strlen p) m [] [] m (length (takeWhile (\<lambda>b. b \<noteq> 0) (block_at m p n)))"
proof -
  from assms(1) obtain bs where bs: "p \<noteq> 0" "mm_blocks m p = Some bs" by (auto simp: room_def)
  have "0 \<in> set (take n bs)" using assms(2) bs by (simp add: block_at_def)
  then have "takeWhile (\<lambda>b. b \<noteq> 0) bs = takeWhile (\<lambda>b. b \<noteq> 0) (take n bs)" "0 \<in> set bs"
    by (subst (1) append_take_drop_id [of n bs, symmetric], subst takeWhile_append1, auto dest: in_set_takeD)
  with bs show ?thesis
    by (intro talksI) (auto simp: app_strlen_def mem_block_def block_at_def moves_def)
qed

lemma talks_cassert: "b \<Longrightarrow> talks k cn (cassert b) m [] [] m ()"
  by (intro talksI) (auto simp: cassert_def moves_def)

section \<open>Messages\<close>

definition alloc_req :: "64 word \<Rightarrow> 64 word \<Rightarrow> global_id \<Rightarrow> byte list \<Rightarrow> byte list" where
  "alloc_req nmemb sz hint data =
     enc16 CLARA_MSG_ALLOCATE_REQUEST @
     enc_allocate_request \<lparr>ar_handle = 0, ar_nmemb = nmemb, ar_size = sz, ar_hint = hint\<rparr> @ data"

definition alloc_resp :: "handle \<Rightarrow> byte list" where
  "alloc_resp h = enc16 CLARA_MSG_ALLOCATE_RESPONSE @ enc64 h"

definition exec_req :: "cl_function_t \<Rightarrow> global_id \<Rightarrow> arg list \<Rightarrow> byte list" where
  "exec_req f hint args =
     enc16 CLARA_MSG_EXECUTE_REQUEST @
     enc_execute_request \<lparr>er_hint = hint, er_fun = of_nat (cl_value f), er_retval = 0\<rparr> @ enc_args args"

definition exec_resp :: "arg \<Rightarrow> byte list" where
  "exec_resp v = enc16 CLARA_MSG_EXECUTE_RESPONSE @ enc64 v"

definition fetch_req :: "handle \<Rightarrow> 64 word \<Rightarrow> global_id \<Rightarrow> byte list" where
  "fetch_req h n hint =
     enc16 CLARA_MSG_FETCH_REQUEST @
     enc_fetch_request \<lparr>fr_handle = h, fr_size = n, fr_hint = hint, fr_stream_opts = consumer_opts n\<rparr>"

definition data_stream :: "'n system \<Rightarrow> 64 word \<Rightarrow> byte list \<Rightarrow> byte list list" where
  "data_stream sy n data = stream_wire (consumer_opts n) (wire_blocks (sy_lzo sy) (consumer_opts n) data)"

text \<open>Nothing is answered to a fetch of zero bytes; the announced length is not looked at.\<close>

definition fetch_resp :: "'n system \<Rightarrow> 64 word \<Rightarrow> 64 word \<Rightarrow> byte list \<Rightarrow> byte list list" where
  "fetch_resp sy n len data =
     (if n = 0 then [] else (enc16 CLARA_MSG_FETCH_RESPONSE @ enc64 len) # data_stream sy n data)"

definition memput_msg :: "handle \<Rightarrow> 64 word \<Rightarrow> global_id \<Rightarrow> byte list" where
  "memput_msg h sz hint =
     enc16 CLARA_MSG_MEMPUT_STREAM @
     enc_memput \<lparr>mp_dst = h, mp_offset = 0, mp_length = sz, mp_hint = hint\<rparr>"

text \<open>Data of the right length, and fuel enough for the loops over it.\<close>

definition streamable :: "'n system \<Rightarrow> 64 word \<Rightarrow> byte list \<Rightarrow> bool" where
  "streamable sy n data \<longleftrightarrow>
     length data = unat n \<and> stream_fuel (wire_blocks (sy_lzo sy) (consumer_opts n) data) (sy_fuel sy)"

lemma streamable_length: "streamable sy n data \<Longrightarrow> length data = unat n"
  by (simp add: streamable_def)

lemma consumer_opts_ok: "opts_ok (consumer_opts n)"
  by (simp add: opts_ok_def consumer_opts_def STREAM_BLOCKSIZE_def push_bit_eq_mult unat_word_ariths)

section \<open>The frontends\<close>

lemma worksD:
  assumes "works sy k cn"
  shows "reliable (sy_net sy) k" and "lzo_ok (sy_lzo sy)" and "BLOCKSIZE \<le> lk_lim k"
    and "lk_inp k (cn_sd cn) \<noteq> lk_out k (cn_sd cn) (cn_agent_addr cn)" and "1024 \<le> lk_lim k"
  using assms by (auto simp: works_def BLOCKSIZE_def)

lemma talks_init: "talks k cn (consumer_init sy) m [] [] m True"
  by (rule talksI) (auto simp: consumer_init_def moves_def)

lemma talks_end_allocate:
  assumes w: "works sy k cn"
  shows "talks k cn (consumer_end_allocate sy) m [alloc_resp h] [] m h"
proof -
  have "talks k cn (on_net (\<lambda>s. clara_recv_allocate_response (sy_net sy) s (cn_sd cn))) m [alloc_resp h] [] m (Some h)"
  proof (rule talks_recv [OF _ w])
    fix s rest
    assume s: "lk_ok k s" "lk_queue k s (lk_inp k (cn_sd cn)) = [alloc_resp h] @ rest"
    then have "lk_queue k s (lk_inp k (cn_sd cn)) = (enc16 CLARA_MSG_ALLOCATE_RESPONSE @ enc64 h) # rest"
      by (simp add: alloc_resp_def)
    from recvmsg_leaves [OF worksD(1) [OF w] s(1) this, of 8 CLARA_MSG_ALLOCATE_RESPONSE]
    show "\<exists>s'. clara_recv_allocate_response (sy_net sy) s (cn_sd cn) = Inr (s', Some h) \<and>
        leaves k s s' (lk_inp k (cn_sd cn)) rest"
      by (auto simp: clara_recv_allocate_response_def)
  qed
  from talks_bind [where f = "\<lambda>r. creturn (case r of None \<Rightarrow> 0 | Some h \<Rightarrow> h)", OF w this] talks_return [of k cn h m]
  show ?thesis unfolding consumer_end_allocate_def by (intro talks_with_consumer) simp
qed

text \<open>Every request is one message whose sending is only reported as done or not.\<close>

lemma talks_sent:
  assumes w: "works sy k cn" and "length bs + 2 \<le> lk_lim k"
    and f: "\<And>s. f s = rbind (clara_sendmsg (sy_net sy) s (cn_sd cn) t bs (cn_agent_addr cn)) (\<lambda>r. Inr (sent r))"
  shows "talks k cn (on_net f) m [] [enc16 t @ bs] m True"
  using sendmsg_adds [OF worksD(1) [OF w] _ assms(2), of _ "cn_sd cn" t "cn_agent_addr cn"]
  by (intro talks_send [OF w]) (fastforce simp: f sent_def)

text \<open>The bytes an allocation is sent with.\<close>

definition payload :: "memory \<Rightarrow> nat \<Rightarrow> nat \<Rightarrow> byte list" where
  "payload m p n = (if p = 0 then [] else block_at m p n)"

lemma talks_begin_allocate:
  assumes w: "works sy k cn" and data: "opt_room m data (unat (n * sz))"
    and lim: "34 + length (payload m data (unat (n * sz))) \<le> lk_lim k"
  shows "talks k cn (consumer_begin_allocate sy n sz data hint) m []
    [alloc_req n sz hint (payload m data (unat (n * sz)))] m True"
proof -
  let ?bs = "payload m data (unat (n * sz))"
  define bytes where "bytes = (if data = 0 then None else Some ?bs)"
  have "talks k cn (with_consumer (\<lambda>cn. on_net (\<lambda>s. clara_send_allocate_request (sy_net sy) s (cn_sd cn)
      n sz bytes hint (cn_agent_addr cn)))) m [] [alloc_req n sz hint ?bs] m True"
    using lim data unfolding alloc_req_def
    by (intro talks_with_consumer talks_sent [OF w])
      (auto simp: clara_send_allocate_request_def bytes_def payload_def opt_room_def)
  moreover have "talks k cn (if data = 0 then creturn None
      else cbind (app_bytes data 0 (unat (n * sz))) (\<lambda>bs. creturn (Some bs))) m [] [] m bytes"
    using data by (auto simp: bytes_def payload_def opt_room_def talks_return
        intro: talks_bind_quiet [OF w talks_block talks_return])
  ultimately show ?thesis unfolding consumer_begin_allocate_def
    by (intro talks_bind_quiet [OF w talks_init]) (simp add: talks_bind_quiet [OF w])
qed

lemma talks_allocate:
  assumes w: "works sy k cn" and data: "opt_room m data (unat (n * sz))"
    and lim: "34 + length (payload m data (unat (n * sz))) \<le> lk_lim k"
  shows "talks k cn (consumer_allocate sy n sz data hint) m [alloc_resp h]
    [alloc_req n sz hint (payload m data (unat (n * sz)))] m h"
  unfolding consumer_allocate_def
  by (rule talks_eq, rule talks_bind [OF w talks_begin_allocate [OF assms]])
    (simp_all add: talks_end_allocate [OF w])

lemma talks_begin_fetch:
  assumes w: "works sy k cn" and h: "h \<noteq> 0"
  shows "talks k cn (consumer_begin_fetch sy h n hint) m [] [fetch_req h n hint] m True"
  using worksD(5) [OF w] h unfolding consumer_begin_fetch_def fetch_req_def
  by (intro talks_with_consumer talks_sent [OF w]) (simp_all add: clara_send_fetch_request_def)

lemma recv_fetch_response:
  assumes w: "works sy k cn" and s: "lk_ok k s" and data: "streamable sy n data"
    and q: "lk_queue k s (lk_inp k sd) = (enc16 CLARA_MSG_FETCH_RESPONSE @ enc64 len) # data_stream sy n data @ rest"
  shows "\<exists>s'. clara_recv_fetch_response (sy_net sy) (sy_lzo sy) (sy_fuel sy) s sd (unat n) =
      Inr (s', Some len, data, True) \<and> leaves k s s' (lk_inp k sd) rest"
proof -
  from recvmsg_leaves [OF worksD(1) [OF w] s q, of 8 CLARA_MSG_FETCH_RESPONSE] obtain s1 fr where
    s1: "clara_recvmsg (sy_net sy) s sd CLARA_MSG_FETCH_RESPONSE 8 = Inr (s1, Some \<lparr>cm_type =
      CLARA_MSG_FETCH_RESPONSE, cm_bytes = enc64 len, cm_from = fr, cm_notification = False\<rparr>)"
      "leaves k s s1 (lk_inp k sd) (data_stream sy n data @ rest)" by auto
  then have "lk_ok k s1" "lk_queue k s1 (lk_inp k sd) = stream_wire (consumer_opts n)
      (wire_blocks (sy_lzo sy) (consumer_opts n) data) @ rest"
    by (simp_all add: leaves_def data_stream_def)
  from stream_recv_correct [OF worksD(1) [OF w] this(1) worksD(2) [OF w] consumer_opts_ok _ this(2)] data
  obtain s' where "stream_recv (sy_net sy) (sy_lzo sy) (sy_fuel sy) s1 sd (unat n) = Inr (s', data)"
    "leaves k s1 s' (lk_inp k sd) rest" by (auto simp: streamable_def)
  with s1 leaves_trans [OF s1(2)] show ?thesis
    using data by (auto simp: clara_recv_fetch_response_def streamable_def)
qed

lemma talks_end_fetch:
  assumes w: "works sy k cn" and data: "streamable sy n data" and dst: "room m dst (unat n)" and n: "n \<noteq> 0"
  shows "talks k cn (consumer_end_fetch sy dst n) m (fetch_resp sy n len data) [] (overwrite m dst data) True"
proof -
  have "talks k cn (on_net (\<lambda>s. clara_recv_fetch_response (sy_net sy) (sy_lzo sy) (sy_fuel sy) s (cn_sd cn) (unat n)))
      m (fetch_resp sy n len data) [] m (Some len, data, True)"
    using recv_fetch_response [OF w _ data] n by (intro talks_recv [OF _ w]) (simp add: fetch_resp_def)
  moreover have "talks k cn (cseq (app_store dst 0 data) (creturn True)) m [] [] (overwrite m dst data) True"
    using dst streamable_length [OF data] by (simp add: talks_last [OF w talks_app_store])
  ultimately have "talks k cn (cbind (on_net (\<lambda>s. clara_recv_fetch_response (sy_net sy) (sy_lzo sy) (sy_fuel sy) s
      (cn_sd cn) (unat n))) (\<lambda>(_, buf, ok). cseq (app_store dst 0 buf) (creturn ok)))
      m (fetch_resp sy n len data @ []) ([] @ []) (overwrite m dst data) True"
    by (intro talks_bind [OF w]) auto
  moreover have "dst \<noteq> 0" using dst by (simp add: room_def)
  ultimately show ?thesis unfolding consumer_end_fetch_def by (simp add: talks_with_consumer)
qed

lemma talks_fetch:
  assumes w: "works sy k cn" and h: "h \<noteq> 0" and data: "streamable sy n data" and dst: "room m dst (unat n)"
  shows "talks k cn (consumer_fetch sy h dst n hint) m (fetch_resp sy n len data) [fetch_req h n hint]
    (overwrite m dst data) True"
proof -
  have "dst \<noteq> 0" using dst by (simp add: room_def)
  have "talks k cn (if n = 0 then creturn True else consumer_end_fetch sy dst n) m (fetch_resp sy n len data) []
    (overwrite m dst data) True"
  proof (cases "n = 0")
    case True
    then have "data = []" using data by (simp add: streamable_def)
    with True show ?thesis by (simp add: fetch_resp_def talks_return)
  qed (simp add: talks_end_fetch [OF w data dst])
  moreover have "consumer_fetch sy h dst n hint = cbind (consumer_begin_fetch sy h n hint) (\<lambda>ok.
      if \<not> ok then creturn False else if n = 0 then creturn True else consumer_end_fetch sy dst n)"
    using h \<open>dst \<noteq> 0\<close> by (simp add: consumer_fetch_def)
  ultimately show ?thesis
    by (simp only:) (rule talks_eq, rule talks_bind [OF w talks_begin_fetch [OF w h]], simp_all)
qed

lemma talks_free:
  assumes w: "works sy k cn" and h: "h \<noteq> 0"
  shows "talks k cn (consumer_free sy h hint) m [] [fetch_req h 0 hint] m True"
  using h by (simp add: consumer_free_def consumer_fetch_def)
    (rule talks_eq, rule talks_bind [OF w talks_begin_fetch [OF w h]], simp_all add: talks_return)

lemma talks_memcpy:
  assumes w: "works sy k cn" and src: "room m src (unat sz)"
    and data: "streamable sy sz (block_at m src (unat sz))"
  shows "talks k cn (consumer_memcpy sy h src sz hint) m []
    (memput_msg h sz hint # data_stream sy sz (block_at m src (unat sz))) m True"
proof -
  let ?bs = "block_at m src (unat sz)"
  let ?p = "\<lparr>mp_dst = h, mp_offset = 0, mp_length = sz, mp_hint = hint\<rparr>"
  have "length (enc_memput ?p) + 2 \<le> lk_lim k" using worksD(5) [OF w] by (simp add: enc_memput_def)
  from sendmsg_adds [OF worksD(1) [OF w] _ this] have
    1: "talks k cn (on_net (\<lambda>s. clara_sendmsg (sy_net sy) s (cn_sd cn) CLARA_MSG_MEMPUT_STREAM (enc_memput ?p)
      (cn_agent_addr cn))) m [] [memput_msg h sz hint] m (Some (length (enc_memput ?p)))"
    by (intro talks_send [OF w]) (auto simp: memput_msg_def)
  from stream_send_correct [OF worksD(1) [OF w] _ worksD(3,2) [OF w], of _ "Some (consumer_opts sz)" ?bs] data
  have 2: "talks k cn (on_net (\<lambda>s. stream_send (sy_net sy) (sy_lzo sy) (sy_fuel sy) s (cn_sd cn) ?bs
      (Some (consumer_opts sz)) (cn_agent_addr cn))) m [] (data_stream sy sz ?bs) m (unat sz)"
    by (intro talks_send [OF w]) (auto simp: opts_of_def consumer_opts_ok streamable_def data_stream_def)
  have 3: "talks k cn (cbind (on_net (\<lambda>s. stream_send (sy_net sy) (sy_lzo sy) (sy_fuel sy) s (cn_sd cn) ?bs
      (Some (consumer_opts sz)) (cn_agent_addr cn))) (\<lambda>bytes_sent. creturn (bytes_sent = unat sz)))
      m [] (data_stream sy sz ?bs) m True"
    by (rule talks_eq, rule talks_bind_send [OF w 2]) (simp_all add: talks_return)
  show ?thesis unfolding consumer_memcpy_def Let_def
    by (rule talks_with_consumer, rule talks_eq, rule talks_bind_send [OF w 1])
      (auto intro!: talks_bind_quiet [OF w talks_block [OF src]] 3)
qed

section \<open>Calls and macros\<close>

text \<open>As many arguments as the interface table lists.\<close>

definition argc_ok :: "cl_function_t \<Rightarrow> nat \<Rightarrow> bool" where
  "argc_ok f n \<longleftrightarrow> (\<exists>fni. opencl_get_clfuninfo f = Inr fni \<and> fi_argc fni = n)"

lemma argc_ok_bound: "argc_ok f n \<Longrightarrow> n \<le> 12"
  using opencl_get_clfuninfo_row [of f] by (auto simp: argc_ok_def)

lemma talks_execute:
  assumes w: "works sy k cn" and argc: "argc_ok f (length args)" and n: "n \<le> 8"
  shows "talks k cn (consumer_execute sy f n hint args) m [exec_resp v] [exec_req f hint args] m
    (Some (take n (enc64 v)))"
proof -
  obtain fni where fni: "opencl_get_clfuninfo f = Inr fni" "fi_argc fni = length args"
    using argc by (auto simp: argc_ok_def)
  let ?p = "\<lparr>er_hint = hint, er_fun = of_nat (cl_value f), er_retval = 0\<rparr>"
  have lim: "length (enc_execute_request ?p @ enc_args args) + 2 \<le> lk_lim k"
    using worksD(5) [OF w] argc_ok_bound [OF argc] by simp
  have 1: "talks k cn (on_net (\<lambda>s. clara_send_execute_request (sy_net sy) s (cn_sd cn) (of_nat (cl_value f)) args
      (fi_argc fni) hint (cn_agent_addr cn))) m [] [exec_req f hint args] m True"
    using fni(2) unfolding exec_req_def
    by (intro talks_sent [OF w lim]) (simp add: clara_send_execute_request_def)
  have 2: "talks k cn (on_net (\<lambda>s. clara_recv_execute_response (sy_net sy) s (cn_sd cn) n)) m [exec_resp v] [] m
      (Some (take n (enc64 v)))"
  proof (rule talks_recv [OF _ w])
    fix s rest
    assume s: "lk_ok k s" "lk_queue k s (lk_inp k (cn_sd cn)) = [exec_resp v] @ rest"
    then have "lk_queue k s (lk_inp k (cn_sd cn)) = (enc16 CLARA_MSG_EXECUTE_RESPONSE @ enc64 v) # rest"
      by (simp add: exec_resp_def)
    from recvmsg_leaves [OF worksD(1) [OF w] s(1) this, of 8 CLARA_MSG_EXECUTE_RESPONSE] n
    show "\<exists>s'. clara_recv_execute_response (sy_net sy) s (cn_sd cn) n = Inr (s', Some (take n (enc64 v))) \<and>
        leaves k s s' (lk_inp k (cn_sd cn)) rest"
      by (auto simp: clara_recv_execute_response_def)
  qed
  have "talks k cn (with_consumer (\<lambda>cn.
       cbind (on_net (\<lambda>s. clara_send_execute_request (sy_net sy) s (cn_sd cn) (of_nat (cl_value f)) args
           (fi_argc fni) hint (cn_agent_addr cn))) (\<lambda>sent.
       if \<not> sent then creturn None
       else on_net (\<lambda>s. clara_recv_execute_response (sy_net sy) s (cn_sd cn) n)))) m
      [exec_resp v] [exec_req f hint args] m (Some (take n (enc64 v)))"
    by (rule talks_with_consumer, rule talks_eq, rule talks_bind [OF w 1]) (simp_all add: 2)
  then show ?thesis unfolding consumer_execute_def
    by (intro talks_bind_quiet [OF w talks_init]) (simp add: talks_def fni(1))
qed

lemma talks_EXECUTE:
  assumes w: "works sy k cn" and argc: "argc_ok f (length args)" and n: "n \<le> 8"
  shows "talks k cn (EXECUTE sy hint f n args) m [exec_resp v] [exec_req f hint args] m (take n (enc64 v))"
proof -
  have "talks k cn (\<lambda>c. case Some (take n (enc64 v)) of None \<Rightarrow> Inl Assertion_Failed | Some bs \<Rightarrow> Inr (c, bs))
      m [] [] m (take n (enc64 v))"
    using talks_return [of k cn "take n (enc64 v)" m] by (simp add: creturn_def)
  from talks_bind [where f = "\<lambda>r c. case r of None \<Rightarrow> Inl Assertion_Failed | Some bs \<Rightarrow> Inr (c, bs)",
      OF w talks_execute [OF w argc n] this]
  show ?thesis unfolding EXECUTE_def by simp
qed

lemma take_to_le: "i \<le> n \<Longrightarrow> take i (to_le n x) = to_le i x"
proof (induction i arbitrary: n x)
  case (Suc i)
  then obtain n' where "n = Suc n'" "i \<le> n'" by (cases n) auto
  with Suc.IH show ?case by simp
qed simp

lemma dec32_enc64: "dec32 (take 4 (enc64 v)) = ucast v"
proof -
  have "dec32 (take 4 (enc64 v)) = of_nat (unat v mod 2 ^ 32)"
    by (simp add: dec32_def enc64_def take_to_le from_le_to_le)
  also have "\<dots> = ucast v"
    by transfer (simp add: take_bit_eq_mod zmod_int)
  finally show ?thesis .
qed

lemma talks_EXECUTE_status:
  assumes "works sy k cn" and "argc_ok f (length args)"
  shows "talks k cn (EXECUTE_status sy hint f args) m [exec_resp v] [exec_req f hint args] m (ucast v)"
  unfolding EXECUTE_status_def
  by (rule talks_eq, rule talks_bind [OF assms(1) talks_EXECUTE [OF assms]])
    (auto simp: dec32_enc64 intro: talks_return)

lemma talks_EXECUTE_object:
  assumes "works sy k cn" and "argc_ok f (length args)"
  shows "talks k cn (EXECUTE_object sy hint f args) m [exec_resp v] [exec_req f hint args] m v"
  unfolding EXECUTE_object_def
  by (rule talks_eq, rule talks_bind [OF assms(1) talks_EXECUTE [OF assms]])
    (auto intro: talks_return)

lemma talks_MALLOC:
  assumes w: "works sy k cn" and r: "opt_room m var (unat sz)" and lim: "34 + unat sz \<le> lk_lim k"
  shows "talks k cn (MALLOC sy hint var sz) m (opt var [alloc_resp h])
    (opt var [alloc_req 1 sz hint (block_at m var (unat sz))]) m (handle_of var h)"
proof (cases "var = 0")
  case False
  then have "payload m var (unat (1 * sz)) = block_at m var (unat sz)" "length (block_at m var (unat sz)) = unat sz"
    using r by (simp_all add: payload_def opt_room_def)
  with talks_allocate [OF w, of m var 1 sz hint h] r lim False show ?thesis by (simp add: MALLOC_def)
qed (simp add: MALLOC_def talks_return)

lemma talks_CALLOC:
  assumes w: "works sy k cn"
  shows "talks k cn (CALLOC sy hint var n sz) m (opt var [alloc_resp h]) (opt var [alloc_req n sz hint []]) m
    (handle_of var h)"
  using talks_allocate [OF w, of m 0 n sz hint h] worksD(5) [OF w]
  by (cases "var = 0") (simp_all add: CALLOC_def talks_return payload_def opt_room_def)

lemma talks_FETCH:
  assumes w: "works sy k cn" and h: "h \<noteq> 0" and data: "streamable sy n data" and r: "opt_room m var (unat n)"
  shows "talks k cn (FETCH sy hint (handle_of var h) var n) m (opt var (fetch_resp sy n len data))
    (opt var [fetch_req h n hint]) (put_bytes m var data) ()"
  using talks_last [OF w talks_fetch [OF w h data]] r h
  by (cases "var = 0") (simp_all add: FETCH_def talks_return opt_room_def)

lemma talks_FREE:
  assumes w: "works sy k cn" and h: "h \<noteq> 0"
  shows "talks k cn (FREE sy hint (handle_of var h)) m [] (opt var [fetch_req h 0 hint]) m ()"
  using talks_last [OF w talks_free [OF w h]] h
  by (cases "var = 0") (simp_all add: FREE_def talks_return)

text \<open>A null object with an error code.\<close>

lemma talks_ERRCODE_SET:
  assumes w: "works sy k cn" and e: "opt_room m errcode_ret 4"
  shows "talks k cn (cseq (ERRCODE_SET errcode_ret v) (creturn x)) m [] [] (put_bytes m errcode_ret (enc32 v)) x"
proof -
  have "talks k cn (ERRCODE_SET errcode_ret v) m [] [] (put_bytes m errcode_ret (enc32 v)) ()"
    using e by (cases "errcode_ret = 0") (simp_all add: ERRCODE_SET_def talks_return opt_room_def talks_app_store)
  from talks_last [OF w this] show ?thesis .
qed

text \<open>The rules in the form in which they go through the code of a function.\<close>

lemma talks_seq_FETCH:
  assumes "works sy k cn" and "h \<noteq> 0" and "streamable sy n data" and "opt_room m var (unat n)"
    and "talks k cn op (put_bytes m var data) ins outs m' x"
  shows "talks k cn (cseq (FETCH sy hint (handle_of var h) var n) op) m (opt var (fetch_resp sy n len data) @ ins)
    (opt var [fetch_req h n hint] @ outs) m' x"
  unfolding cseq_def by (rule talks_bind [OF assms(1) talks_FETCH [OF assms(1-4)]]) (rule assms(5))

lemma talks_seq_FREE:
  assumes "works sy k cn" and "h \<noteq> 0" and "talks k cn op m ins outs m' x"
  shows "talks k cn (cseq (FREE sy hint (handle_of var h)) op) m ins (opt var [fetch_req h 0 hint] @ outs) m' x"
  unfolding cseq_def by (rule talks_bind_send [OF assms(1) talks_FREE [OF assms(1,2)]]) (rule assms(3))

lemma talks_seq_send:
  assumes "works sy k cn" and "talks k cn op m [] outs1 m1 y" and "talks k cn op' m1 ins outs2 m' x"
  shows "talks k cn (cseq op op') m ins (outs1 @ outs2) m' x"
  unfolding cseq_def using talks_bind_send [where f = "\<lambda>_. op'", OF assms] .

lemma talks_FREE_handle:
  assumes "works sy k cn" and "h \<noteq> 0"
  shows "talks k cn (FREE sy hint h) m [] [fetch_req h 0 hint] m ()"
  using talks_FREE [OF assms, of hint 1 m] by simp

lemma talks_DECLARE_HINT:
  "var \<noteq> 0 \<Longrightarrow> talks k cn op m ins outs m' x \<Longrightarrow> talks k cn (DECLARE_HINT var rv op) m ins outs m' x"
  by (simp add: DECLARE_HINT_def)

lemma argc_table: "map (\<lambda>(f, r). (f, fi_argc r)) clfuninfo_rows =
  [(CL_GETPLATFORMIDS, 3), (CL_GETPLATFORMINFO, 5), (CL_GETDEVICEIDS, 5), (CL_GETDEVICEINFO, 5),
   (CL_CREATECONTEXT, 6), (CL_CREATECONTEXTFROMTYPE, 5), (CL_RETAINCONTEXT, 1), (CL_RELEASECONTEXT, 1),
   (CL_GETCONTEXTINFO, 5), (CL_CREATECOMMANDQUEUE, 4), (CL_RETAINCOMMANDQUEUE, 1),
   (CL_RELEASECOMMANDQUEUE, 1), (CL_GETCOMMANDQUEUEINFO, 5), (CL_SETCOMMANDQUEUEPROPERTY, 4),
   (CL_CREATEBUFFER, 5), (CL_ENQUEUEREADBUFFER, 9), (CL_ENQUEUEWRITEBUFFER, 9), (CL_ENQUEUECOPYBUFFER,
   9), (CL_RETAINMEMOBJECT, 1), (CL_RELEASEMEMOBJECT, 1), (CL_CREATEIMAGE2D, 8), (CL_CREATEIMAGE3D,
   10), (CL_GETSUPPORTEDIMAGEFORMATS, 6), (CL_ENQUEUEREADIMAGE, 11), (CL_ENQUEUEWRITEIMAGE, 11),
   (CL_ENQUEUECOPYIMAGE, 9), (CL_ENQUEUECOPYIMAGETOBUFFER, 9), (CL_ENQUEUECOPYBUFFERTOIMAGE, 9),
   (CL_ENQUEUEMAPBUFFER, 10), (CL_ENQUEUEMAPIMAGE, 12), (CL_ENQUEUEUNMAPMEMOBJECT, 6),
   (CL_GETMEMOBJECTINFO, 5), (CL_GETIMAGEINFO, 5), (CL_CREATESAMPLER, 5), (CL_RETAINSAMPLER, 1),
   (CL_RELEASESAMPLER, 1), (CL_GETSAMPLERINFO, 5), (CL_CREATEPROGRAMWITHSOURCE, 5),
   (CL_CREATEPROGRAMWITHBINARY, 7), (CL_RETAINPROGRAM, 1), (CL_RELEASEPROGRAM, 1), (CL_BUILDPROGRAM,
   6), (CL_UNLOADCOMPILER, 0), (CL_GETPROGRAMINFO, 5), (CL_GETPROGRAMBUILDINFO, 6), (CL_CREATEKERNEL,
   3), (CL_CREATEKERNELSINPROGRAM, 4), (CL_RETAINKERNEL, 1), (CL_RELEASEKERNEL, 1), (CL_SETKERNELARG,
   4), (CL_GETKERNELINFO, 5), (CL_GETKERNELWORKGROUPINFO, 6), (CL_ENQUEUENDRANGEKERNEL, 9),
   (CL_ENQUEUETASK, 5), (CL_ENQUEUENATIVEKERNEL, 10), (CL_WAITFOREVENTS, 2), (CL_GETEVENTINFO, 5),
   (CL_RETAINEVENT, 1), (CL_RELEASEEVENT, 1), (CL_ENQUEUEMARKER, 2), (CL_ENQUEUEWAITFOREVENTS, 3),
   (CL_ENQUEUEBARRIER, 1), (CL_GETEVENTPROFILINGINFO, 5), (CL_FLUSH, 1), (CL_FINISH, 1)]"
  by (simp only: clfuninfo_rows_def list.map prod.case cl_function_info.simps)

lemma argc_ok_table: "argc_ok f n \<longleftrightarrow> map_of (map (\<lambda>(f, r). (f, fi_argc r)) clfuninfo_rows) f = Some n"
proof -
  have "map_of (map (\<lambda>(f, r). (f, fi_argc r)) clfuninfo_rows) f = map_option fi_argc (map_of clfuninfo_rows f)"
    by (simp add: map_of_map)
  moreover have "f \<in> fst ` set clfuninfo_rows"
    using cl_functions_UNIV [of f] by (simp flip: clfuninfo_rows_designators)
  then obtain r where r: "map_of clfuninfo_rows f = Some r" by (metis map_of_eq_None_iff not_None_eq)
  moreover have "fi_id r = f"
    using clfuninfo_rows_ok map_of_SomeD [OF r] by (auto simp: list_all_iff)
  ultimately show ?thesis by (simp add: argc_ok_def opencl_get_clfuninfo_def)
qed

lemma argc_oks:
  "argc_ok CL_GETPLATFORMIDS n \<longleftrightarrow> n = 3"
  "argc_ok CL_GETPLATFORMINFO n \<longleftrightarrow> n = 5"
  "argc_ok CL_GETDEVICEIDS n \<longleftrightarrow> n = 5"
  "argc_ok CL_GETDEVICEINFO n \<longleftrightarrow> n = 5"
  "argc_ok CL_CREATECONTEXT n \<longleftrightarrow> n = 6"
  "argc_ok CL_CREATECONTEXTFROMTYPE n \<longleftrightarrow> n = 5"
  "argc_ok CL_RETAINCONTEXT n \<longleftrightarrow> n = 1"
  "argc_ok CL_RELEASECONTEXT n \<longleftrightarrow> n = 1"
  "argc_ok CL_CREATECOMMANDQUEUE n \<longleftrightarrow> n = 4"
  "argc_ok CL_RETAINCOMMANDQUEUE n \<longleftrightarrow> n = 1"
  "argc_ok CL_RELEASECOMMANDQUEUE n \<longleftrightarrow> n = 1"
  "argc_ok CL_GETCOMMANDQUEUEINFO n \<longleftrightarrow> n = 5"
  "argc_ok CL_CREATEBUFFER n \<longleftrightarrow> n = 5"
  "argc_ok CL_ENQUEUEREADBUFFER n \<longleftrightarrow> n = 9"
  "argc_ok CL_ENQUEUEWRITEBUFFER n \<longleftrightarrow> n = 9"
  "argc_ok CL_ENQUEUECOPYBUFFER n \<longleftrightarrow> n = 9"
  "argc_ok CL_RETAINMEMOBJECT n \<longleftrightarrow> n = 1"
  "argc_ok CL_RELEASEMEMOBJECT n \<longleftrightarrow> n = 1"
  "argc_ok CL_GETMEMOBJECTINFO n \<longleftrightarrow> n = 5"
  "argc_ok CL_CREATEPROGRAMWITHSOURCE n \<longleftrightarrow> n = 5"
  "argc_ok CL_RETAINPROGRAM n \<longleftrightarrow> n = 1"
  "argc_ok CL_RELEASEPROGRAM n \<longleftrightarrow> n = 1"
  "argc_ok CL_BUILDPROGRAM n \<longleftrightarrow> n = 6"
  "argc_ok CL_UNLOADCOMPILER n \<longleftrightarrow> n = 0"
  "argc_ok CL_GETPROGRAMINFO n \<longleftrightarrow> n = 5"
  "argc_ok CL_GETPROGRAMBUILDINFO n \<longleftrightarrow> n = 6"
  "argc_ok CL_CREATEKERNEL n \<longleftrightarrow> n = 3"
  "argc_ok CL_RETAINKERNEL n \<longleftrightarrow> n = 1"
  "argc_ok CL_RELEASEKERNEL n \<longleftrightarrow> n = 1"
  "argc_ok CL_SETKERNELARG n \<longleftrightarrow> n = 4"
  "argc_ok CL_GETKERNELINFO n \<longleftrightarrow> n = 5"
  "argc_ok CL_ENQUEUENDRANGEKERNEL n \<longleftrightarrow> n = 9"
  "argc_ok CL_ENQUEUETASK n \<longleftrightarrow> n = 5"
  "argc_ok CL_WAITFOREVENTS n \<longleftrightarrow> n = 2"
  "argc_ok CL_GETEVENTINFO n \<longleftrightarrow> n = 5"
  "argc_ok CL_RETAINEVENT n \<longleftrightarrow> n = 1"
  "argc_ok CL_RELEASEEVENT n \<longleftrightarrow> n = 1"
  "argc_ok CL_ENQUEUEMARKER n \<longleftrightarrow> n = 2"
  "argc_ok CL_ENQUEUEWAITFOREVENTS n \<longleftrightarrow> n = 3"
  "argc_ok CL_ENQUEUEBARRIER n \<longleftrightarrow> n = 1"
  "argc_ok CL_GETEVENTPROFILINGINFO n \<longleftrightarrow> n = 5"
  "argc_ok CL_FLUSH n \<longleftrightarrow> n = 1"
  "argc_ok CL_FINISH n \<longleftrightarrow> n = 1"
  unfolding argc_ok_table argc_table by auto

lemma talks_seq_MEMPUT:
  assumes "works sy k cn" and "room m src (unat n)" and "streamable sy n (block_at m src (unat n))"
    and "talks k cn op m ins outs m' x"
  shows "talks k cn (cseq (MEMPUT sy hint h src n) op) m ins
    ((memput_msg h n hint # data_stream sy n (block_at m src (unat n))) @ outs) m' x"
  unfolding cseq_def MEMPUT_def
  by (rule talks_bind_send [OF assms(1)], rule talks_last [unfolded cseq_def, OF assms(1) talks_memcpy [OF assms(1-3)]])
    (rule assms(4))

lemma talks_seq_store:
  assumes "works sy k cn" and "opt_room m p (length bs)" and "talks k cn op (put_bytes m p bs) ins outs m' x"
  shows "talks k cn (cseq (if p \<noteq> 0 then app_store p 0 bs else creturn ()) op) m ins outs m' x"
proof -
  have "talks k cn (if p \<noteq> 0 then app_store p 0 bs else creturn ()) m [] [] (put_bytes m p bs) ()"
    using assms(2) by (cases "p = 0") (simp_all add: talks_return talks_app_store opt_room_def)
  from talks_bind_quiet [where f = "\<lambda>_. op", OF assms(1) this assms(3)] show ?thesis
    unfolding cseq_def .
qed

lemma talks_bind_MALLOC_string:
  assumes w: "works sy k cn" and r: "opt_room m var n" "var \<noteq> 0 \<Longrightarrow> 0 \<in> set (block_at m var n)"
    and l: "l = of_nat (length (takeWhile (\<lambda>b. b \<noteq> 0) (block_at m var n))) + 1"
    and z: "opt_room m var (unat l)" "34 + unat l \<le> lk_lim k"
    and op: "talks k cn (f (handle_of var h)) m ins outs m' x"
  shows "talks k cn (cbind (MALLOC_string sy hint var) f) m (opt var [alloc_resp h] @ ins)
    (opt var [alloc_req 1 l hint (block_at m var (unat l))] @ outs) m' x"
proof -
  have "talks k cn (MALLOC_string sy hint var) m (opt var [alloc_resp h])
      (opt var [alloc_req 1 l hint (block_at m var (unat l))]) m (handle_of var h)"
  proof (cases "var = 0")
    case False
    then have room: "room m var n" and z': "0 \<in> set (block_at m var n)" using r by (auto simp: opt_room_def)
    have "talks k cn (MALLOC sy hint var ((of_nat (length (takeWhile (\<lambda>b. b \<noteq> 0) (block_at m var n))) + 1) * 1)) m
        (opt var [alloc_resp h]) (opt var [alloc_req 1 l hint (block_at m var (unat l))]) m (handle_of var h)"
      using talks_MALLOC [OF w z, of hint h] by (simp add: l)
    from talks_bind_quiet [where f = "\<lambda>l. MALLOC sy hint var ((of_nat l + 1) * 1)", OF w talks_app_strlen [OF room z'] this]
    show ?thesis using False by (simp add: MALLOC_string_def)
  qed (simp add: MALLOC_string_def talks_return)
  from talks_bind [where f = f, OF w this op] show ?thesis .
qed

lemmas talks_go = talks_DECLARE_HINT talks_seq_MEMPUT talks_seq_store
  talks_last [OF _ talks_FETCH] talks_last [OF _ talks_FREE]
  talks_seq_FETCH talks_seq_FREE
  talks_bind [OF _ talks_MALLOC] talks_bind [OF _ talks_CALLOC]
  talks_bind [OF _ talks_EXECUTE_status] talks_bind [OF _ talks_EXECUTE_object]
  talks_seq_FETCH [where ins = "[]", unfolded append_Nil2]
  talks_bind_end [OF _ talks_EXECUTE_status] talks_bind_end [OF _ talks_EXECUTE_object]

end
