(* ===== verification/Consumer_Call_Laws.thy ===== *)
theory Consumer_Call_Laws
  imports Consumer_Laws
begin

text \<open>
  What the functions of the consumer's library send and return when the network works and the
  agent accepts the allocations: the memory behind their pointers travels in allocation
  requests and streams, the call carries the handles, and what is fetched lands behind the
  pointers. Every list of messages is complete: nothing else is sent or asked for.
\<close>

section \<open>Calls with an object, questions\<close>

lemma object_status_call_correct:
  assumes w: "works sy k cn" and ob: "object \<noteq> 0" and argc: "argc_ok f 1"
  shows "talks k cn (object_status_call sy f init object) m [exec_resp v] [exec_req f object [object]] m (ucast v)"
  using assms unfolding object_status_call_def
  by (intro talks_DECLARE_HINT talks_EXECUTE_status) simp_all

lemma object_status_call_null: "talks k cn (object_status_call sy f init 0) m [] [] m (ucast init)"
  by (simp add: object_status_call_def DECLARE_HINT_def INIT_STATUS_def talks_return)

lemma info_call_correct:
  assumes w: "works sy k cn" and argc: "argc_ok f (length args + 3)" and h: "h \<noteq> 0" "hs \<noteq> 0"
    and val: "opt_room m value (unat n)" "streamable sy n data"
    and size: "opt_room m size_ret 8" "streamable sy 8 szd"
  shows "talks k cn (info_call sy hint f args n value size_ret) m
    (opt value [alloc_resp h] @ opt size_ret [alloc_resp hs] @ [exec_resp rv] @
     opt value (fetch_resp sy n len data) @ opt size_ret (fetch_resp sy 8 len' szd))
    (opt value [alloc_req 1 n hint []] @ opt size_ret [alloc_req 1 8 hint []] @
     [exec_req f hint (args @ [n, handle_of value h, handle_of size_ret hs])] @
     opt value [fetch_req h n hint] @ opt size_ret [fetch_req hs 8 hint])
    (put_bytes (put_bytes m value data) size_ret szd) (ucast rv)"
proof -
  have "argc_ok f (length (args @ [x, y, z]))" for x y z using argc by (simp add: numeral_3_eq_3)
  then show ?thesis unfolding info_call_def HANDLE_def
    by - (rule assms talks_go | (simp add: assms; fail))+
qed

section \<open>Reading and writing buffers\<close>

lemma clEnqueueReadBuffer_correct:
  assumes w: "works sy k cn" and q: "q \<noteq> 0" and h: "h \<noteq> 0" "hl \<noteq> 0" "he \<noteq> 0"
    and ptr: "opt_room m ptr (unat cb)" "streamable sy cb data"
    and wl: "opt_room m wait (unat (ucast n * 8 :: 64 word))" "34 + unat (ucast n * 8 :: 64 word) \<le> lk_lim k"
    and ev: "opt_room m event 8" "streamable sy 8 evd"
  shows "talks k cn (clEnqueueReadBuffer sy q buffer blocking off cb ptr n wait event) m
    (opt ptr [alloc_resp h] @ opt wait [alloc_resp hl] @ opt event [alloc_resp he] @ [exec_resp rv] @
     opt ptr (fetch_resp sy cb len data) @ opt event (fetch_resp sy 8 len' evd))
    (opt ptr [alloc_req 1 cb q []] @
     opt wait [alloc_req 1 (ucast n * 8) q (block_at m wait (unat (ucast n * 8 :: 64 word)))] @
     opt event [alloc_req 1 8 q []] @
     [exec_req CL_ENQUEUEREADBUFFER q [q, buffer, ucast blocking, off, cb, handle_of ptr h, ucast n,
        handle_of wait hl, handle_of event he]] @
     opt ptr [fetch_req h cb q] @ opt wait [fetch_req hl 0 q] @ opt event [fetch_req he 8 q])
    (put_bytes (put_bytes m ptr data) event evd) (ucast rv)"
  unfolding clEnqueueReadBuffer_def HANDLE_def
  by (rule assms talks_go | (simp add: assms argc_oks; fail))+

lemma clEnqueueWriteBuffer_correct:
  assumes w: "works sy k cn" and q: "q \<noteq> 0" and h: "h \<noteq> 0" "hl \<noteq> 0" "he \<noteq> 0"
    and ptr: "ptr \<noteq> 0" "room m ptr (unat cb)" "streamable sy cb (block_at m ptr (unat cb))"
    and wl: "opt_room m wait (unat (ucast n * 8 :: 64 word))" "34 + unat (ucast n * 8 :: 64 word) \<le> lk_lim k"
    and ev: "opt_room m event 8" "streamable sy 8 evd"
  shows "talks k cn (clEnqueueWriteBuffer sy q buffer blocking off cb ptr n wait event) m
    (opt ptr [alloc_resp h] @ opt wait [alloc_resp hl] @ opt event [alloc_resp he] @ [exec_resp rv] @
     opt event (fetch_resp sy 8 len evd))
    (opt ptr [alloc_req 1 cb q []] @
     (memput_msg (handle_of ptr h) cb q # data_stream sy cb (block_at m ptr (unat cb))) @
     opt wait [alloc_req 1 (ucast n * 8) q (block_at m wait (unat (ucast n * 8 :: 64 word)))] @
     opt event [alloc_req 1 8 q []] @
     [exec_req CL_ENQUEUEWRITEBUFFER q [q, buffer, ucast blocking, off, cb, handle_of ptr h, ucast n,
        handle_of wait hl, handle_of event he]] @
     opt ptr [fetch_req h 0 q] @ opt wait [fetch_req hl 0 q] @ opt event [fetch_req he 8 q])
    (put_bytes m event evd) (ucast rv)"
  unfolding clEnqueueWriteBuffer_def HANDLE_def
  by (rule assms talks_go | (simp add: assms argc_oks; fail))+

lemma enqueue_call_correct:
  assumes w: "works sy k cn" and argc: "argc_ok f (length args + 3)" and h: "hl \<noteq> 0" "he \<noteq> 0"
    and wl: "opt_room m wait (unat (ucast n * 8 :: 64 word))" "34 + unat (ucast n * 8 :: 64 word) \<le> lk_lim k"
    and ev: "opt_room m event 8" "streamable sy 8 evd"
  shows "talks k cn (enqueue_call sy q f args n wait event) m
    (opt wait [alloc_resp hl] @ opt event [alloc_resp he] @ [exec_resp rv] @
     opt event (fetch_resp sy 8 len evd))
    (opt wait [alloc_req 1 (ucast n * 8) q (block_at m wait (unat (ucast n * 8 :: 64 word)))] @
     opt event [alloc_req 1 8 q []] @
     [exec_req f q (args @ [ucast n, handle_of wait hl, handle_of event he])] @
     opt wait [fetch_req hl 0 q] @ opt event [fetch_req he 8 q])
    (put_bytes m event evd) (ucast rv)"
proof -
  have "argc_ok f (length (args @ [x, y, z]))" for x y z using argc by (simp add: numeral_3_eq_3)
  then show ?thesis unfolding enqueue_call_def HANDLE_def
    by - (rule assms talks_go | (simp add: assms; fail))+
qed

lemma clCreateBuffer_correct:
  assumes w: "works sy k cn" and c: "context \<noteq> 0" and h: "h \<noteq> 0" "he \<noteq> 0"
    and ptr: "opt_room m host_ptr (unat sz)" "34 + unat sz \<le> lk_lim k"
    and ev: "opt_room m errcode_ret 4" "streamable sy 4 err"
  shows "talks k cn (clCreateBuffer sy context flags sz host_ptr errcode_ret) m
    (opt errcode_ret [alloc_resp he] @ opt host_ptr [alloc_resp h] @ [exec_resp mem] @
     opt errcode_ret (fetch_resp sy 4 len err))
    (opt errcode_ret [alloc_req 1 4 context []] @
     opt host_ptr [alloc_req 1 sz context (block_at m host_ptr (unat sz))] @
     [exec_req CL_CREATEBUFFER context [context, flags, sz, handle_of host_ptr h, handle_of errcode_ret he]] @
     opt errcode_ret [fetch_req he 4 context] @ opt host_ptr [fetch_req h 0 context])
    (put_bytes m errcode_ret err) mem"
  unfolding clCreateBuffer_def HANDLE_def
  by (rule assms talks_go | (simp add: assms argc_oks; fail))+

lemma clCreateCommandQueue_correct:
  assumes w: "works sy k cn" and c: "context \<noteq> 0" and h: "he \<noteq> 0"
    and ev: "opt_room m errcode_ret 4" "streamable sy 4 err"
  shows "talks k cn (clCreateCommandQueue sy context device properties errcode_ret) m
    (opt errcode_ret [alloc_resp he] @ [exec_resp q] @ opt errcode_ret (fetch_resp sy 4 len err))
    (opt errcode_ret [alloc_req 1 4 context []] @
     [exec_req CL_CREATECOMMANDQUEUE context [context, device, properties, handle_of errcode_ret he]] @
     opt errcode_ret [fetch_req he 4 context])
    (put_bytes m errcode_ret err) q"
  unfolding clCreateCommandQueue_def HANDLE_def
  by (rule assms talks_go | (simp add: assms argc_oks; fail))+

section \<open>Kernels\<close>

lemma clSetKernelArg_correct:
  assumes w: "works sy k cn" and c: "kn \<noteq> 0" and h: "h \<noteq> 0"
    and val: "opt_room m arg_value (unat sz)" "34 + unat sz \<le> lk_lim k"
  shows "talks k cn (clSetKernelArg sy kn idx sz arg_value) m
    (opt arg_value [alloc_resp h] @ [exec_resp rv])
    (opt arg_value [alloc_req 1 sz kn (block_at m arg_value (unat sz))] @
     [exec_req CL_SETKERNELARG kn [kn, ucast idx, sz, handle_of arg_value h]] @
     opt arg_value [fetch_req h 0 kn])
    m (ucast rv)"
  unfolding clSetKernelArg_def HANDLE_def
  by (rule assms talks_go | (simp add: assms argc_oks; fail))+

lemma clCreateKernel_correct:
  assumes w: "works sy k cn" and c: "program \<noteq> 0" and h: "h \<noteq> 0" "he \<noteq> 0"
    and name: "opt_room m kernel_name n" "kernel_name \<noteq> 0 \<Longrightarrow> 0 \<in> set (block_at m kernel_name n)"
      "l = of_nat (length (takeWhile (\<lambda>b. b \<noteq> 0) (block_at m kernel_name n))) + 1"
      "opt_room m kernel_name (unat l)" "34 + unat l \<le> lk_lim k"
    and ev: "opt_room m errcode_ret 4" "streamable sy 4 err"
  shows "talks k cn (clCreateKernel sy program kernel_name errcode_ret) m
    (opt kernel_name [alloc_resp h] @ opt errcode_ret [alloc_resp he] @ [exec_resp kn] @
     opt errcode_ret (fetch_resp sy 4 len err))
    (opt kernel_name [alloc_req 1 l program (block_at m kernel_name (unat l))] @
     opt errcode_ret [alloc_req 1 4 program []] @
     [exec_req CL_CREATEKERNEL program [program, handle_of kernel_name h, handle_of errcode_ret he]] @
     opt kernel_name [fetch_req h 0 program] @ opt errcode_ret [fetch_req he 4 program])
    (put_bytes m errcode_ret err) kn"
  unfolding clCreateKernel_def HANDLE_def
  by (rule assms talks_go talks_bind_MALLOC_string [OF w name] | (simp add: assms argc_oks; fail))+

lemma clEnqueueNDRangeKernel_correct:
  fixes sy :: "'n system"
  defines "sz d \<equiv> ucast (d :: u32) * 8 :: 64 word"
  assumes w: "works sy k cn" and q: "q \<noteq> 0" and h: "h1 \<noteq> 0" "h2 \<noteq> 0" "h3 \<noteq> 0" "hl \<noteq> 0" "he \<noteq> 0"
    and dims: "opt_room m goff (unat (sz dim))" "opt_room m gsz (unat (sz dim))" "opt_room m lsz (unat (sz dim))"
      "34 + unat (sz dim) \<le> lk_lim k"
    and wl: "opt_room m wait (unat (sz n))" "34 + unat (sz n) \<le> lk_lim k"
    and ev: "opt_room m event 8" "streamable sy 8 evd"
  shows "talks k cn (clEnqueueNDRangeKernel sy q kn dim goff gsz lsz n wait event) m
    (opt goff [alloc_resp h1] @ opt gsz [alloc_resp h2] @ opt lsz [alloc_resp h3] @ opt wait [alloc_resp hl] @
     opt event [alloc_resp he] @ [exec_resp rv] @ opt event (fetch_resp sy 8 len evd))
    (opt goff [alloc_req 1 (sz dim) q (block_at m goff (unat (sz dim)))] @
     opt gsz [alloc_req 1 (sz dim) q (block_at m gsz (unat (sz dim)))] @
     opt lsz [alloc_req 1 (sz dim) q (block_at m lsz (unat (sz dim)))] @
     opt wait [alloc_req 1 (sz n) q (block_at m wait (unat (sz n)))] @
     opt event [alloc_req 1 8 q []] @
     [exec_req CL_ENQUEUENDRANGEKERNEL q [q, kn, ucast dim, handle_of goff h1, handle_of gsz h2,
        handle_of lsz h3, ucast n, handle_of wait hl, handle_of event he]] @
     opt goff [fetch_req h1 0 q] @ opt gsz [fetch_req h2 0 q] @ opt lsz [fetch_req h3 0 q] @
     opt wait [fetch_req hl 0 q] @ opt event [fetch_req he 8 q])
    (put_bytes m event evd) (ucast rv)"
  unfolding clEnqueueNDRangeKernel_def HANDLE_def sz_def
  by (rule assms [unfolded sz_def] talks_go | (simp add: assms argc_oks; fail))+

lemma clBuildProgram_correct:
  assumes w: "works sy k cn" and c: "program \<noteq> 0" and h: "hv \<noteq> 0" "ho \<noteq> 0"
    and devs: "opt_room m device_list (unat (ucast n * 8 :: 64 word))" "34 + unat (ucast n * 8 :: 64 word) \<le> lk_lim k"
    and name: "opt_room m options i" "options \<noteq> 0 \<Longrightarrow> 0 \<in> set (block_at m options i)"
      "l = of_nat (length (takeWhile (\<lambda>b. b \<noteq> 0) (block_at m options i))) + 1"
      "opt_room m options (unat l)" "34 + unat l \<le> lk_lim k"
  shows "talks k cn (clBuildProgram sy program n device_list options pfn_notify user_data) m
    (opt device_list [alloc_resp hv] @ opt options [alloc_resp ho] @ [exec_resp rv])
    (opt device_list [alloc_req 1 (ucast n * 8) program (block_at m device_list (unat (ucast n * 8 :: 64 word)))] @
     opt options [alloc_req 1 l program (block_at m options (unat l))] @
     [exec_req CL_BUILDPROGRAM program [program, ucast n, handle_of device_list hv, handle_of options ho, 0, 0]] @
     opt device_list [fetch_req hv 0 program] @ opt options [fetch_req ho 0 program])
    m (ucast rv)"
  unfolding clBuildProgram_def HANDLE_def
  by (rule assms talks_go talks_bind_MALLOC_string [OF w name] | (simp add: assms argc_oks; fail))+

section \<open>Events\<close>

lemma clWaitForEvents_correct:
  assumes w: "works sy k cn" and n: "n \<noteq> 0" and h: "h \<noteq> 0"
    and ev: "room m event_list (unat (ucast n * 8 :: 64 word))" "34 + unat (ucast n * 8 :: 64 word) \<le> lk_lim k"
    and e: "room m event_list 8" "dec64 (block_at m event_list 8) = e" "e \<noteq> 0"
  shows "talks k cn (clWaitForEvents sy n event_list) m
    (opt event_list [alloc_resp h] @ [exec_resp rv])
    (opt event_list [alloc_req 1 (ucast n * 8) e (block_at m event_list (unat (ucast n * 8 :: 64 word)))] @
     [exec_req CL_WAITFOREVENTS e [ucast n, handle_of event_list h]] @ opt event_list [fetch_req h 0 e])
    m (ucast rv)"
proof -
  have "opt_room m event_list (unat (ucast n * 8 :: 64 word))" using ev by (simp add: opt_room_def)
  note * = this assms
  have "talks k cn (DECLARE_HINT e (INIT_STATUS CL_INVALID_VALUE)
      (cbind (MALLOC sy e event_list (ucast n * 8)) (\<lambda>h_event_list.
       cbind (EXECUTE_status sy e CL_WAITFOREVENTS [ucast n, h_event_list]) (\<lambda>rv.
       cseq (FREE sy e h_event_list) (creturn rv))))) m
    (opt event_list [alloc_resp h] @ [exec_resp rv])
    (opt event_list [alloc_req 1 (ucast n * 8) e (block_at m event_list (unat (ucast n * 8 :: 64 word)))] @
     [exec_req CL_WAITFOREVENTS e [ucast n, handle_of event_list h]] @ opt event_list [fetch_req h 0 e])
    m (ucast rv)"
    by (rule * talks_go | (simp add: assms argc_oks; fail))+
  then show ?thesis using n e(2) unfolding clWaitForEvents_def HANDLE_def Let_def
    by (auto intro: talks_bind_quiet [OF w talks_block [OF e(1)]])
qed

section \<open>Platforms and devices\<close>

text \<open>The number of platforms is set to zero before the agent is asked.\<close>

lemma clGetPlatformIDs_correct:
  assumes w: "works sy k cn" and h: "hp \<noteq> 0" "hn \<noteq> 0"
    and args: "platforms \<noteq> 0 \<or> num_platforms \<noteq> 0" "num_entries = 0 \<longrightarrow> platforms = 0"
    and ids: "opt_room m platforms (unat (ucast num_entries * 8 :: 64 word))" "streamable sy (ucast num_entries * 8) ids"
    and cnt: "opt_room m num_platforms 4" "streamable sy 4 cnt"
  shows "talks k cn (clGetPlatformIDs sy num_entries platforms num_platforms) m
    (opt platforms [alloc_resp hp] @ opt num_platforms [alloc_resp hn] @ [exec_resp rv] @
     opt platforms (fetch_resp sy (ucast num_entries * 8) len ids) @
     opt num_platforms (fetch_resp sy 4 len' cnt))
    (opt platforms [alloc_req (ucast num_entries) 8 0 []] @ opt num_platforms [alloc_req 1 4 0 []] @
     [exec_req CL_GETPLATFORMIDS 0 [ucast num_entries, handle_of platforms hp, handle_of num_platforms hn]] @
     opt platforms [fetch_req hp (ucast num_entries * 8) 0] @ opt num_platforms [fetch_req hn 4 0])
    (put_bytes (put_bytes (put_bytes m num_platforms (enc32 0)) platforms ids) num_platforms cnt) (ucast rv)"
proof -
  have a: "\<not> (num_entries = 0 \<and> platforms \<noteq> 0)" "\<not> (platforms = 0 \<and> num_platforms = 0)" using args by auto
  show ?thesis unfolding clGetPlatformIDs_def HANDLE_def if_not_P [OF a(1)] if_not_P [OF a(2)]
    by (rule w h ids cnt talks_go | (simp add: assms argc_oks; fail))+
qed

lemma clGetDeviceIDs_correct:
  assumes w: "works sy k cn" and h: "hp \<noteq> 0" "hn \<noteq> 0"
    and args: "devices \<noteq> 0 \<or> num_devices \<noteq> 0" "num_entries = 0 \<longrightarrow> devices = 0"
    and ids: "opt_room m devices (unat (ucast num_entries * 8 :: 64 word))" "streamable sy (ucast num_entries * 8) ids"
    and cnt: "opt_room m num_devices 4" "streamable sy 4 cnt"
  shows "talks k cn (clGetDeviceIDs sy platform device_type num_entries devices num_devices) m
    (opt devices [alloc_resp hp] @ opt num_devices [alloc_resp hn] @ [exec_resp rv] @
     opt devices (fetch_resp sy (ucast num_entries * 8) len ids) @
     opt num_devices (fetch_resp sy 4 len' cnt))
    (opt devices [alloc_req (ucast num_entries) 8 0 []] @ opt num_devices [alloc_req 1 4 0 []] @
     [exec_req CL_GETDEVICEIDS 0 [platform, device_type, ucast num_entries, handle_of devices hp,
        handle_of num_devices hn]] @
     opt devices [fetch_req hp (ucast num_entries * 8) 0] @ opt num_devices [fetch_req hn 4 0])
    (put_bytes (put_bytes (put_bytes m num_devices (enc32 0)) devices ids) num_devices cnt) (ucast rv)"
proof -
  have a: "\<not> (num_entries = 0 \<and> devices \<noteq> 0)" "\<not> (devices = 0 \<and> num_devices = 0)" using args by auto
  show ?thesis unfolding clGetDeviceIDs_def HANDLE_def if_not_P [OF a(1)] if_not_P [OF a(2)]
    by (rule w h ids cnt talks_go | (simp add: assms argc_oks; fail))+
qed

end
