(* ===== verification/Consumer_Agent.thy ===== *)
theory Consumer_Agent
  imports Consumer_Call_Laws Alloc_Laws
begin

text \<open>
  The consumer's library and the agent together: each operation of the library sends a message,
  the agent's thread for that consumer takes one step on it, and the library takes the answer.
  Memory that goes to the agent and comes back is the same memory, as long as the request fits
  into the agent's receive buffer; a longer one ends the thread.
\<close>

section \<open>A step of the agent's thread\<close>

text \<open>
  The two ends of an association: what the library sends arrives at the agent's socket, and
  whatever the agent's socket sends arrives at the library's.
\<close>

definition joined :: "'n link \<Rightarrow> clara_consumer \<Rightarrow> sd \<Rightarrow> bool" where
  "joined k cn sd \<longleftrightarrow>
     lk_inp k sd = lk_out k (cn_sd cn) (cn_agent_addr cn) \<and> (\<forall>to. lk_out k sd to = lk_inp k (cn_sd cn)) \<and>
     lk_inp k (cn_sd cn) \<noteq> lk_out k (cn_sd cn) (cn_agent_addr cn)"

lemma consumer_step_receives:
  assumes net: "reliable net k" and ok: "lk_ok k (ag_net ag)" and co: "ag_consumer_heap ag i = Some co" "0 < i"
    and q: "lk_queue k (ag_net ag) (lk_inp k (co_sd co)) = (enc16 t @ bs) # ms" and len: "length bs \<le> AGENT_RECVBUFSZ"
  shows "\<exists>s fr. leaves k (ag_net ag) s (lk_inp k (co_sd co)) ms \<and>
    consumer_step net lz fuel ev rs ag i = consumer_message net lz fuel ev rs (ag\<lparr>ag_net := s\<rparr>) i
      \<lparr>cm_type = t, cm_bytes = bs, cm_from = fr, cm_notification = False\<rparr>"
  using recvmsg_leaves [OF net ok q len, of CLARA_MSG_INVALID] co
  by (fastforce simp: consumer_step_def deref_def)

lemma message_type_distinct:
  "CLARA_MSG_MEMPUT_STREAM \<noteq> CLARA_MSG_ALLOCATE_REQUEST" "CLARA_MSG_EXECUTE_REQUEST \<noteq> CLARA_MSG_ALLOCATE_REQUEST"
  "CLARA_MSG_FETCH_REQUEST \<noteq> CLARA_MSG_ALLOCATE_REQUEST" "CLARA_MSG_EXECUTE_REQUEST \<noteq> CLARA_MSG_MEMPUT_STREAM"
  "CLARA_MSG_FETCH_REQUEST \<noteq> CLARA_MSG_MEMPUT_STREAM" "CLARA_MSG_FETCH_REQUEST \<noteq> CLARA_MSG_EXECUTE_REQUEST"
  by (simp_all add: CLARA_MSG_MEMPUT_STREAM_def CLARA_MSG_ALLOCATE_REQUEST_def CLARA_MSG_EXECUTE_REQUEST_def
      CLARA_MSG_FETCH_REQUEST_def)

text \<open>The counts of handles: a consumer's are the handles it has memory for.\<close>

lemma allocations_count:
  assumes "alloc_inv ag" and "ag_consumer_heap ag i = Some co"
  shows "set_count (co_allocations co) = int (card (dom (buffers ag i)))"
proof -
  have "dom (buffers ag i) = dom (set_map (co_allocations co))"
    using assms alloc_invD(4) [OF assms(1), of i] unfolding buffers_def owns_def alloc_ok_def
    by (fastforce split: option.splits)
  then show ?thesis using set_count_map [of "co_allocations co"] alloc_invD(3) [OF assms] by simp
qed

lemma pool_count: "alloc_inv ag \<Longrightarrow> set_count (ag_id_pool ag) = int (card (pool_ids (ag_id_pool ag)))"
  using set_count_map [of "ag_id_pool ag"] alloc_invD(2) [of ag] by (simp add: pool_wf_def pool_ids_def)

text \<open>An allocation in the agent does not touch the rest of the consumer.\<close>

lemma put_allocations_consumer:
  "put_allocations ag i s = Inr ag' \<Longrightarrow> ag_consumer_heap ag i = Some co \<Longrightarrow>
    ag_consumer_heap ag' i = Some (co\<lparr>co_allocations := s\<rparr>)"
  by (auto simp: put_allocations_def put_consumer_def fault_simps)

lemma allocate_local_consumer:
  assumes "allocate_local ag i areq extra = Inr (ag', a)" and "ag_consumer_heap ag i = Some co"
  shows "\<exists>s. ag_consumer_heap ag' i = Some (co\<lparr>co_allocations := s\<rparr>)"
  using assms put_allocations_consumer [of _ i _ _ co]
  by (fastforce simp: allocate_local_def fault_simps split: if_splits prod.splits)

lemma forget_allocation_consumer:
  assumes "forget_allocation ag i a = Inr ag'" and "ag_consumer_heap ag i = Some co"
  shows "\<exists>s. ag_consumer_heap ag' i = Some (co\<lparr>co_allocations := s\<rparr>)"
  using assms put_allocations_consumer [of ag i _ _ co]
  by (fastforce simp: forget_allocation_def fault_simps split: option.splits prod.splits)

lemma handle_allocate_consumer:
  assumes "handle_allocate net rs ag i (enc_allocate_request areq @ bs) from = Inr (Some ag')"
    and "ar_handle areq = 0" "ar_hint areq = 0" and co: "ag_consumer_heap ag i = Some co"
  shows "\<exists>s. ag_consumer_heap ag' i = Some (co\<lparr>co_allocations := s\<rparr>)"
proof -
  from assms obtain pool key ag2 a s ok where
    2: "allocate_local (ag\<lparr>ag_id_pool := pool\<rparr>) i (areq\<lparr>ar_handle := key\<rparr>) bs = Inr (ag2, a)"
    "(if ok then Inr (Some (ag2\<lparr>ag_net := s\<rparr>))
      else rbind (forget_allocation (ag2\<lparr>ag_net := s\<rparr>) i a) (\<lambda>ag5. Inr (Some ag5))) = Inr (Some ag')"
    by (auto simp: handle_allocate_def fault_simps Let_def split: option.splits prod.splits)
  from allocate_local_consumer [OF 2(1)] co obtain t where
    "ag_consumer_heap ag2 i = Some (co\<lparr>co_allocations := t\<rparr>)" by auto
  with 2(2) forget_allocation_consumer [of "ag2\<lparr>ag_net := s\<rparr>" i a ag' "co\<lparr>co_allocations := t\<rparr>"] show ?thesis
    by (auto simp: fault_simps split: if_splits)
qed

section \<open>Allocations\<close>

lemma step_allocate:
  assumes inv: "alloc_inv ag" and co: "ag_consumer_heap ag i = Some co" "co_attached co"
    and room: "card (dom (buffers ag i)) < 65534" "card (pool_ids (ag_id_pool ag)) < 65534"
    and rs: "first_nonzero rs = Some h" "h \<notin> pool_ids (ag_id_pool ag)"
    and mem: "snd (mem_calloc (ag_mem ag) n sz) \<noteq> 0"
    and bs: "bs \<noteq> [] \<Longrightarrow> length bs = unat n * unat sz" "32 + length bs \<le> AGENT_RECVBUFSZ"
    and net: "reliable net k" "lk_ok k (ag_net ag)" "10 \<le> lk_lim k" and j: "joined k cn (co_sd co)"
    and q: "lk_queue k (ag_net ag) (lk_inp k (co_sd co)) = alloc_req n sz 0 bs # ms"
  shows "\<exists>ag' s. consumer_step net lz fuel ev rs ag i = Inr (Some (ag', False)) \<and> alloc_inv ag' \<and>
    ag_consumer_heap ag' i = Some (co\<lparr>co_allocations := s\<rparr>) \<and>
    pool_ids (ag_id_pool ag') = insert h (pool_ids (ag_id_pool ag)) \<and>
    buffers ag' = (buffers ag)(i := (buffers ag i)
      (h \<mapsto> initial_bytes \<lparr>ar_handle = 0, ar_nmemb = n, ar_size = sz, ar_hint = 0\<rparr> bs)) \<and>
    moves k (ag_net ag) (ag_net ag') (lk_inp k (co_sd co)) ms (lk_inp k (cn_sd cn)) [alloc_resp h]"
proof -
  let ?r = "\<lparr>ar_handle = 0, ar_nmemb = n, ar_size = sz, ar_hint = 0\<rparr>"
  let ?b = "enc_allocate_request ?r @ bs"
  have i: "0 < i" using alloc_invD(3) [OF inv co(1)] by simp
  have q': "lk_queue k (ag_net ag) (lk_inp k (co_sd co)) = (enc16 CLARA_MSG_ALLOCATE_REQUEST @ ?b) # ms"
    using q by (simp add: alloc_req_def)
  have "length ?b \<le> AGENT_RECVBUFSZ" using bs(2) by simp
  from consumer_step_receives [OF net(1,2) co(1) i q' this, of lz fuel ev rs] obtain s fr where
    s: "leaves k (ag_net ag) s (lk_inp k (co_sd co)) ms"
      "consumer_step net lz fuel ev rs ag i = consumer_message net lz fuel ev rs (ag\<lparr>ag_net := s\<rparr>) i
        \<lparr>cm_type = CLARA_MSG_ALLOCATE_REQUEST, cm_bytes = ?b, cm_from = fr, cm_notification = False\<rparr>" by blast
  have rooms: "set_room (co_allocations co)" "set_room (ag_id_pool ag)"
    using room allocations_count [OF inv co(1)] pool_count [OF inv] by (simp_all add: set_room_def)
  have "lk_ok k s" using s(1) by (simp add: leaves_def)
  from handle_allocate_correct [of "ag\<lparr>ag_net := s\<rparr>" i co rs h ?r bs net k, of fr] inv co rooms rs mem bs(1) net this
  obtain ag' where ag': "handle_allocate net rs (ag\<lparr>ag_net := s\<rparr>) i ?b fr = Inr (Some ag')" "alloc_inv ag'"
    "pool_ids (ag_id_pool ag') = insert h (pool_ids (ag_id_pool ag))"
    "buffers ag' = (buffers ag)(i := (buffers ag i)(h \<mapsto> initial_bytes ?r bs))"
    "adds k s (ag_net ag') (lk_inp k (cn_sd cn)) [alloc_resp h]"
    using j by (auto simp: joined_def alloc_resp_def)
  have "\<exists>s. ag_consumer_heap ag' i = Some (co\<lparr>co_allocations := s\<rparr>)"
    using handle_allocate_consumer [OF ag'(1)] co(1) by simp
  then obtain t where "ag_consumer_heap ag' i = Some (co\<lparr>co_allocations := t\<rparr>)" ..
  moreover have "consumer_step net lz fuel ev rs ag i = Inr (Some (ag', False))"
    using s(2) ag'(1) by (simp add: consumer_message_def)
  moreover have "lk_inp k (co_sd co) \<noteq> lk_inp k (cn_sd cn)" using j by (auto simp: joined_def)
  ultimately show ?thesis using ag'(2-4) moves_intro [OF _ s(1) ag'(5)] by blast
qed

lemma step_fetch:
  assumes inv: "alloc_inv ag" and co: "ag_consumer_heap ag i = Some co" "co_attached co"
    and room: "card (dom (buffers ag i)) \<le> 65534" "card (pool_ids (ag_id_pool ag)) \<le> 65534"
    and bs: "buffers ag i h = Some bs" "length bs = unat n" "n \<noteq> 0"
    and net: "reliable net k" "lk_ok k (ag_net ag)" "BLOCKSIZE \<le> lk_lim k" and lz: "lzo_ok lz"
    and fuel: "stream_fuel (wire_blocks lz (consumer_opts n) bs) fuel" and j: "joined k cn (co_sd co)"
    and q: "lk_queue k (ag_net ag) (lk_inp k (co_sd co)) = fetch_req h n 0 # ms"
  shows "\<exists>ag'. consumer_step net lz fuel ev rs ag i = Inr (Some (ag', False)) \<and> alloc_inv ag' \<and>
    pool_ids (ag_id_pool ag') = pool_ids (ag_id_pool ag) - {h} \<and>
    buffers ag' = (buffers ag)(i := (buffers ag i)(h := None)) \<and>
    moves k (ag_net ag) (ag_net ag') (lk_inp k (co_sd co)) ms (lk_inp k (cn_sd cn))
      ((enc16 CLARA_MSG_FETCH_RESPONSE @ enc64 n) #
       stream_wire (consumer_opts n) (wire_blocks lz (consumer_opts n) bs))"
proof -
  let ?r = "\<lparr>fr_handle = h, fr_size = n, fr_hint = 0, fr_stream_opts = consumer_opts n\<rparr>"
  have i: "0 < i" using alloc_invD(3) [OF inv co(1)] by simp
  have q': "lk_queue k (ag_net ag) (lk_inp k (co_sd co)) =
      (enc16 CLARA_MSG_FETCH_REQUEST @ enc_fetch_request ?r) # ms"
    using q by (simp add: fetch_req_def)
  from consumer_step_receives [OF net(1,2) co(1) i q', of lz fuel ev rs] obtain s fr where
    s: "leaves k (ag_net ag) s (lk_inp k (co_sd co)) ms"
      "consumer_step net lz fuel ev rs ag i = consumer_message net lz fuel ev rs (ag\<lparr>ag_net := s\<rparr>) i
        \<lparr>cm_type = CLARA_MSG_FETCH_REQUEST, cm_bytes = enc_fetch_request ?r, cm_from = fr,
         cm_notification = False\<rparr>" by (auto simp: AGENT_RECVBUFSZ_def)
  have rooms: "set_room (co_allocations co)" "set_room (ag_id_pool ag)"
    using room allocations_count [OF inv co(1)] pool_count [OF inv] by (simp_all add: set_room_def)
  have "lk_ok k s" using s(1) by (simp add: leaves_def)
  from handle_fetch_correct [of "ag\<lparr>ag_net := s\<rparr>" i co ?r bs net k lz fuel, of fr] inv co rooms bs net lz fuel this
  obtain ag' where ag': "handle_fetch net lz fuel (ag\<lparr>ag_net := s\<rparr>) i (enc_fetch_request ?r) fr = Inr ag'"
    "alloc_inv ag'" "pool_ids (ag_id_pool ag') = pool_ids (ag_id_pool ag) - {h}"
    "buffers ag' = (buffers ag)(i := (buffers ag i)(h := None))"
    "adds k s (ag_net ag') (lk_inp k (cn_sd cn)) ((enc16 CLARA_MSG_FETCH_RESPONSE @ enc64 n) #
       stream_wire (consumer_opts n) (wire_blocks lz (consumer_opts n) bs))"
    using j by (auto simp: joined_def consumer_opts_ok)
  moreover have "consumer_step net lz fuel ev rs ag i = Inr (Some (ag', False))"
    using s(2) ag'(1) by (simp add: consumer_message_def message_type_distinct)
  moreover have "lk_inp k (co_sd co) \<noteq> lk_inp k (cn_sd cn)" using j by (auto simp: joined_def)
  ultimately show ?thesis using moves_intro [OF _ s(1) ag'(5)] by blast
qed

section \<open>There and back\<close>

text \<open>The library's side of a conversation, from a state to a state.\<close>

definition client_ready :: "'n link \<Rightarrow> clara_consumer \<Rightarrow> 'n client \<Rightarrow> bool" where
  "client_ready k cn c \<longleftrightarrow> ct_consumer c = Some cn \<and> lk_ok k (ct_net c)"

lemma talks_runs:
  assumes "talks k cn op m ins outs m' x" and "client_ready k cn c" and "ct_mem c = m"
    and "lk_queue k (ct_net c) (lk_inp k (cn_sd cn)) = ins @ rest"
  shows "\<exists>c'. op c = Inr (c', x) \<and> client_ready k cn c' \<and> ct_mem c' = m' \<and>
    moves k (ct_net c) (ct_net c') (lk_inp k (cn_sd cn)) rest (lk_out k (cn_sd cn) (cn_agent_addr cn)) outs"
proof -
  from assms(2) have "ct_consumer c = Some cn" "lk_ok k (ct_net c)" by (simp_all add: client_ready_def)
  from talksE [OF assms(1) this assms(3,4)] show ?thesis by (metis client_ready_def moves_def)
qed

lemma first_nonzero_nonzero: "first_nonzero rs = Some h \<Longrightarrow> h \<noteq> 0"
  by (induction rs) (auto split: if_splits)

lemma memory_there_and_back:
  fixes n sz :: "64 word"
  assumes w: "works sy k cn" and j: "joined k cn (co_sd co)"
    and c: "client_ready k cn c" "lk_queue k (ct_net c) (lk_inp k (cn_sd cn)) = []"
      "lk_queue k (ct_net c) (lk_inp k (co_sd co)) = []"
    and size: "unat (n * sz) = unat n * unat sz" "n * sz \<noteq> 0" "32 + unat (n * sz) \<le> AGENT_RECVBUFSZ"
      "34 + unat (n * sz) \<le> lk_lim k"
    and src: "room (ct_mem c) src (unat (n * sz))" and dst: "room (ct_mem c) dst (unat (n * sz))"
    and bytes: "bytes = block_at (ct_mem c) src (unat (n * sz))"
    and inv: "alloc_inv ag" and co: "ag_consumer_heap ag i = Some co" "co_attached co"
    and room: "card (dom (buffers ag i)) < 65534" "card (pool_ids (ag_id_pool ag)) < 65534"
    and rs: "first_nonzero rs = Some h" "h \<notin> pool_ids (ag_id_pool ag)"
    and mem: "snd (mem_calloc (ag_mem ag) n sz) \<noteq> 0"
    and fuel: "streamable sy (n * sz) bytes"
      "stream_fuel (wire_blocks (sy_lzo sy) (consumer_opts (n * sz)) bytes) fuel"
  shows "\<exists>c1 ag1 c2 c3 ag2 c4.
    consumer_begin_allocate sy n sz src 0 c = Inr (c1, True) \<and>
    consumer_step (sy_net sy) (sy_lzo sy) fuel ev rs (ag\<lparr>ag_net := ct_net c1\<rparr>) i = Inr (Some (ag1, False)) \<and>
    consumer_end_allocate sy (c1\<lparr>ct_net := ag_net ag1\<rparr>) = Inr (c2, h) \<and>
    buffers ag1 = (buffers ag)(i := (buffers ag i)(h \<mapsto> bytes)) \<and>
    consumer_begin_fetch sy h (n * sz) 0 c2 = Inr (c3, True) \<and>
    consumer_step (sy_net sy) (sy_lzo sy) fuel ev rs' (ag1\<lparr>ag_net := ct_net c3\<rparr>) i = Inr (Some (ag2, False)) \<and>
    consumer_end_fetch sy dst (n * sz) (c3\<lparr>ct_net := ag_net ag2\<rparr>) = Inr (c4, True) \<and>
    ct_mem c4 = overwrite (ct_mem c) dst bytes \<and> buffers ag2 = buffers ag \<and>
    pool_ids (ag_id_pool ag2) = pool_ids (ag_id_pool ag) \<and> alloc_inv ag2 \<and>
    lk_queue k (ct_net c4) = lk_queue k (ct_net c)"
proof -
  let ?A = "lk_out k (cn_sd cn) (cn_agent_addr cn)" and ?C = "lk_inp k (cn_sd cn)"
  let ?m = "ct_mem c" and ?N = "n * sz"
  have chan: "lk_inp k (co_sd co) = ?A" "?C \<noteq> ?A" using j by (auto simp: joined_def)
  have q0: "lk_queue k (ct_net c) ?C = [] @ []" "lk_queue k (ct_net c) ?A = []" using c(2,3) chan by simp_all
  have h: "h \<noteq> 0" using rs(1) first_nonzero_nonzero by blast
  have src0: "src \<noteq> 0" using src by (simp add: room_def)
  then have pay: "payload ?m src (unat ?N) = bytes" by (simp add: payload_def bytes)
  have len: "length bytes = unat ?N" using src by (simp add: bytes)
  have ne: "bytes \<noteq> []" using len size(2) by (auto simp: unat_eq_0)
  have "talks k cn (consumer_begin_allocate sy n sz src 0) ?m [] [alloc_req n sz 0 bytes] ?m True"
    using talks_begin_allocate [OF w, of ?m src n sz 0] src size(4) len by (simp add: opt_room_def pay)
  from talks_runs [OF this c(1) refl q0(1)] obtain c1 where
    c1: "consumer_begin_allocate sy n sz src 0 c = Inr (c1, True)" "client_ready k cn c1" "ct_mem c1 = ?m"
      "moves k (ct_net c) (ct_net c1) ?C [] ?A [alloc_req n sz 0 bytes]" by blast
  have ok1: "lk_ok k (ct_net c1)" "lk_queue k (ct_net c1) = (lk_queue k (ct_net c))(?A := [alloc_req n sz 0 bytes])"
    using c1(4) q0 chan by (auto simp: moves_def)
  from step_allocate [of "ag\<lparr>ag_net := ct_net c1\<rparr>" i co rs h n sz bytes "sy_net sy" k cn "[]" "sy_lzo sy" fuel ev,
      OF _ _ co(2) _ _ rs(1) _ _ _ _ worksD(1) [OF w] _ _ j] inv co room rs(2) mem len size(1,3) worksD(5) [OF w] ok1 chan(1)
  obtain ag1 t where ag1:
    "consumer_step (sy_net sy) (sy_lzo sy) fuel ev rs (ag\<lparr>ag_net := ct_net c1\<rparr>) i = Inr (Some (ag1, False))"
    "alloc_inv ag1" "ag_consumer_heap ag1 i = Some (co\<lparr>co_allocations := t\<rparr>)"
    "pool_ids (ag_id_pool ag1) = insert h (pool_ids (ag_id_pool ag))"
    "buffers ag1 = (buffers ag)(i := (buffers ag i)(h \<mapsto> bytes))"
    "moves k (ct_net c1) (ag_net ag1) ?A [] ?C [alloc_resp h]"
    using ne by (auto simp: initial_bytes_def)
  have ready: "client_ready k cn (c1\<lparr>ct_net := ag_net ag1\<rparr>)"
    using c1(2) ag1(6) by (simp add: client_ready_def moves_def)
  have q1: "lk_queue k (ag_net ag1) = (lk_queue k (ct_net c))(?C := [alloc_resp h] @ [])"
    using ag1(6) ok1(2) q0 chan(2) by (auto simp: moves_def fun_eq_iff)
  from talks_runs [OF talks_end_allocate [OF w] ready refl] q1 obtain c2 where
    c2: "consumer_end_allocate sy (c1\<lparr>ct_net := ag_net ag1\<rparr>) = Inr (c2, h)" "client_ready k cn c2" "ct_mem c2 = ?m"
      "moves k (ag_net ag1) (ct_net c2) ?C [] ?A []" using c1(3) by fastforce
  have q2: "lk_queue k (ct_net c2) = lk_queue k (ct_net c)" "lk_queue k (ct_net c2) ?C = [] @ []"
    using c2(4) q1 q0 chan(2) by (auto simp: moves_def fun_eq_iff)
  from talks_runs [OF talks_begin_fetch [OF w h, of ?N 0 ?m] c2(2,3) q2(2)] obtain c3 where
    c3: "consumer_begin_fetch sy h ?N 0 c2 = Inr (c3, True)" "client_ready k cn c3" "ct_mem c3 = ?m"
      "moves k (ct_net c2) (ct_net c3) ?C [] ?A [fetch_req h ?N 0]" by blast
  have ok3: "lk_ok k (ct_net c3)" "lk_queue k (ct_net c3) = (lk_queue k (ct_net c))(?A := [fetch_req h ?N 0])"
    using c3(4) q2 q0 chan by (auto simp: moves_def fun_eq_iff)
  have small: "card (dom (buffers ag1 i)) \<le> 65534" "card (pool_ids (ag_id_pool ag1)) \<le> 65534"
  proof -
    have "dom (buffers ag1 i) = insert h (dom (buffers ag i))" using ag1(5) by auto
    moreover have "card (insert h X) \<le> Suc (card X)" for X :: "global_id set"
      by (cases "finite X") (simp_all add: card_insert_if)
    from this [of "dom (buffers ag i)"] this [of "pool_ids (ag_id_pool ag)"]
    have "card (insert h (dom (buffers ag i))) \<le> 65534" "card (insert h (pool_ids (ag_id_pool ag))) \<le> 65534"
      using room by linarith+
    ultimately show "card (dom (buffers ag1 i)) \<le> 65534" "card (pool_ids (ag_id_pool ag1)) \<le> 65534"
      using ag1(4) by simp_all
  qed
  have fetched: "buffers ag1 i h = Some bytes" using ag1(5) by simp
  from step_fetch [of "ag1\<lparr>ag_net := ct_net c3\<rparr>" i "co\<lparr>co_allocations := t\<rparr>" h bytes ?N "sy_net sy" k "sy_lzo sy" fuel cn "[]" ev rs',
      OF _ _ _ _ _ _ len size(2) worksD(1) [OF w] _ worksD(3,2) [OF w] fuel(2)] ag1(2,3) co(2) small fetched ok3 j chan(1)
  obtain ag2 where ag2:
    "consumer_step (sy_net sy) (sy_lzo sy) fuel ev rs' (ag1\<lparr>ag_net := ct_net c3\<rparr>) i = Inr (Some (ag2, False))"
    "alloc_inv ag2" "pool_ids (ag_id_pool ag2) = pool_ids (ag_id_pool ag1) - {h}"
    "buffers ag2 = (buffers ag1)(i := (buffers ag1 i)(h := None))"
    "moves k (ct_net c3) (ag_net ag2) ?A [] ?C (fetch_resp sy ?N ?N bytes)"
    using size(2) by (auto simp: fetch_resp_def data_stream_def)
  have ready4: "client_ready k cn (c3\<lparr>ct_net := ag_net ag2\<rparr>)"
    using c3(2) ag2(5) by (simp add: client_ready_def moves_def)
  have q4: "lk_queue k (ag_net ag2) = (lk_queue k (ct_net c))(?C := fetch_resp sy ?N ?N bytes @ [])"
    using ag2(5) ok3(2) q0 chan(2) by (auto simp: moves_def fun_eq_iff)
  from talks_runs [OF talks_end_fetch [OF w fuel(1) dst size(2), of ?N] ready4] q4 c3(3) obtain c4 where
    c4: "consumer_end_fetch sy dst ?N (c3\<lparr>ct_net := ag_net ag2\<rparr>) = Inr (c4, True)"
      "ct_mem c4 = overwrite ?m dst bytes" "moves k (ag_net ag2) (ct_net c4) ?C [] ?A []" by fastforce
  have q5: "lk_queue k (ct_net c4) = lk_queue k (ct_net c)"
    using c4(3) q4 q0 chan(2) by (auto simp: moves_def fun_eq_iff)
  have restored: "buffers ag2 = buffers ag" "pool_ids (ag_id_pool ag2) = pool_ids (ag_id_pool ag)"
    using ag2(3,4) ag1(4,5) rs(2) buffers_fresh [OF inv rs(2), of i] by (auto simp: fun_upd_idem)
  from c1(1) ag1(1,5) c2(1) c3(1) ag2(1,2) c4(1,2) restored q5 show ?thesis by blast
qed

section \<open>Requests that are too long\<close>

text \<open>
  What the sockets document of a message that does not fit: its first bytes are delivered
  without the end-of-record flag.
\<close>

definition truncates :: "'n sctp \<Rightarrow> 'n link \<Rightarrow> bool" where
  "truncates net k \<longleftrightarrow>
     (\<forall>s sd n m ms. lk_ok k s \<longrightarrow> lk_queue k s (lk_inp k sd) = m # ms \<longrightarrow> n < length m \<longrightarrow>
        (\<exists>s' fr. sctp_recvmsg net s sd n =
            (s', Some \<lparr>sm_bytes = take n m, sm_from = fr, sm_eor = False, sm_notification = False\<rparr>) \<and>
          lk_ok k s'))"

lemma queue_net_truncates: "truncates (queue_net out inp) (queue_link out inp lim)"
  by (simp add: truncates_def queue_net_def queue_link_def)

lemma allocation_too_long:
  assumes w: "works sy k cn" and t: "truncates (sy_net sy) k" and j: "joined k cn (co_sd co)"
    and c: "client_ready k cn c" "lk_queue k (ct_net c) (lk_inp k (co_sd co)) = []"
    and size: "AGENT_RECVBUFSZ < 32 + unat (n * sz)" "34 + unat (n * sz) \<le> lk_lim k"
    and src: "room (ct_mem c) src (unat (n * sz))"
    and i: "0 < i" and co: "ag_consumer_heap ag i = Some co"
  shows "\<exists>c1 s. consumer_begin_allocate sy n sz src hint c = Inr (c1, True) \<and>
    consumer_step (sy_net sy) lz fuel ev rs (ag\<lparr>ag_net := ct_net c1\<rparr>) i = Inr (Some (ag\<lparr>ag_net := s\<rparr>, True))"
proof -
  let ?A = "lk_out k (cn_sd cn) (cn_agent_addr cn)" and ?C = "lk_inp k (cn_sd cn)"
  let ?req = "alloc_req n sz hint (block_at (ct_mem c) src (unat (n * sz)))"
  have chan: "lk_inp k (co_sd co) = ?A" "?C \<noteq> ?A" using j by (auto simp: joined_def)
  have "src \<noteq> 0" using src by (simp add: room_def)
  then have "talks k cn (consumer_begin_allocate sy n sz src hint) (ct_mem c) [] [?req] (ct_mem c) True"
    using talks_begin_allocate [OF w, of "ct_mem c" src n sz hint] src size(2)
    by (simp add: opt_room_def payload_def)
  from talks_runs [OF this c(1) refl, of "lk_queue k (ct_net c) ?C"] obtain c1 where
    c1: "consumer_begin_allocate sy n sz src hint c = Inr (c1, True)" "client_ready k cn c1"
      "moves k (ct_net c) (ct_net c1) ?C (lk_queue k (ct_net c) ?C) ?A [?req]" by auto
  have "lk_queue k (ct_net c1) (lk_inp k (co_sd co)) = [?req]" "lk_ok k (ct_net c1)"
    using c1(3) c(2) chan by (auto simp: moves_def)
  moreover have "2 + AGENT_RECVBUFSZ < length ?req" using size(1) src by (simp add: alloc_req_def)
  ultimately obtain s fr where "sctp_recvmsg (sy_net sy) (ct_net c1) (co_sd co) (2 + AGENT_RECVBUFSZ) =
      (s, Some \<lparr>sm_bytes = take (2 + AGENT_RECVBUFSZ) ?req, sm_from = fr, sm_eor = False, sm_notification = False\<rparr>)"
    using t unfolding truncates_def by metis
  then have "consumer_step (sy_net sy) lz fuel ev rs (ag\<lparr>ag_net := ct_net c1\<rparr>) i = Inr (Some (ag\<lparr>ag_net := s\<rparr>, True))"
    using i co by (simp add: consumer_step_def clara_recvmsg_def deref_def)
  with c1(1) show ?thesis by blast
qed

section \<open>Without an agent\<close>

text \<open>
  The variable \<^verbatim>\<open>consumer\<close> stays set after a failed connection; the next call finds it and goes on
  with descriptor 0 and what stands in the address.
\<close>

lemma failed_connection:
  assumes "ct_consumer c = None" and "clara_sockaddr (sy_inet_pton sy) (sy_agent_addr sy) (Some (agent_port sy)) = None"
  shows "\<exists>c'. consumer_begin_allocate sy n sz 0 hint c = Inr (c', False) \<and> ct_net c' = ct_net c \<and>
    (\<forall>n sz hint. consumer_begin_allocate sy n sz 0 hint c' =
      on_net (\<lambda>s. clara_send_allocate_request (sy_net sy) s 0 n sz None hint
        (sy_sin_addr sy (clara_sockaddr_left (sy_inet_pton sy) (sy_agent_addr sy) (Some (agent_port sy))))) c')"
  using assms
  by (simp add: consumer_begin_allocate_def consumer_init_def cbind_def creturn_def with_consumer_def Let_def)

end
