(* ===== verification/Consumer_Context_Laws.thy ===== *)
theory Consumer_Context_Laws
  imports Consumer_Call_Laws
begin

text \<open>
  \<^verbatim>\<open>clCreateContext\<close>: the list of properties is read up to its zero, the platform in it is the
  hint of everything that follows, and a list without a platform or with an unknown name is
  refused before anything is sent.
\<close>

lemma context_refused:
  assumes w: "works sy k cn" and e: "opt_room m errcode_ret 4"
  shows "talks k cn (context_error errcode_ret status) m [] [] (put_bytes m errcode_ret (enc32 (ucast status))) 0"
  unfolding context_error_def by (rule talks_ERRCODE_SET [OF assms])

text \<open>What the scan makes of the properties: the error, or the platform and the size with the zero.\<close>

definition scanned :: "memory \<Rightarrow> nat \<Rightarrow> fault + (arg \<times> 64 word) option" where
  "scanned m properties = scan_properties (words_of (the (mm_blocks m properties))) 0 0"

lemma talks_context_platform:
  assumes w: "works sy k cn" and p: "room m properties 0" and e: "opt_room m errcode_ret 4"
  shows "scanned m properties = Inr None \<Longrightarrow>
      talks k cn (context_platform_of properties errcode_ret body) m [] []
        (put_bytes m errcode_ret (enc32 (ucast CL_INVALID_VALUE))) 0"
    and "scanned m properties = Inr (Some (0, n)) \<Longrightarrow>
      talks k cn (context_platform_of properties errcode_ret body) m [] []
        (put_bytes m errcode_ret (enc32 (ucast CL_INVALID_PLATFORM))) 0"
    and "scanned m properties = Inr (Some (platform_id, n)) \<Longrightarrow> platform_id \<noteq> 0 \<Longrightarrow>
      talks k cn (body platform_id (n + 8)) m ins outs m' x \<Longrightarrow>
      talks k cn (context_platform_of properties errcode_ret body) m ins outs m' x"
  using p context_refused [OF w e, of CL_INVALID_VALUE] context_refused [OF w e, of CL_INVALID_PLATFORM]
  unfolding talks_def context_platform_of_def scanned_def room_def by (auto simp: mem_block_def)

text \<open>Properties that end in their zero are read to it.\<close>

lemma scan_properties_pairs:
  "scan_properties (concat (map (\<lambda>v. [CL_CONTEXT_PLATFORM, v]) vs) @ 0 # rest) pid n =
    Inr (Some (last (pid # vs), n + 16 * of_nat (length vs)))"
proof -
  have nz: "CL_CONTEXT_PLATFORM \<noteq> 0" by (simp add: CL_CONTEXT_PLATFORM_def)
  show ?thesis
  proof (induction vs arbitrary: pid n)
    case Nil
    then show ?case by (cases rest) simp_all
  next
    case (Cons v vs)
    from Cons.IH [of v "n + 16"] nz show ?case by (simp add: distrib_left)
  qed
qed

lemma ERRCODE_FETCH_talks:
  assumes w: "works sy k cn" and h: "h \<noteq> 0" and e: "opt_room m errcode_ret 4" "streamable sy 4 err"
  shows "talks k cn (ERRCODE_FETCH sy hint h errcode_ret) m (opt errcode_ret (fetch_resp sy 4 len err))
    [fetch_req h (if errcode_ret = 0 then 0 else 4) hint] (put_bytes m errcode_ret err) ()"
proof (cases "errcode_ret = 0")
  case True
  moreover have "consumer_fetch sy h 0 4 hint = consumer_free sy h hint"
    by (simp add: consumer_free_def consumer_fetch_def)
  ultimately show ?thesis using talks_last [OF w talks_free [OF w h]] by (simp add: ERRCODE_FETCH_def)
next
  case False
  with talks_last [OF w talks_fetch [OF w h e(2)]] e(1) show ?thesis
    by (simp add: ERRCODE_FETCH_def opt_room_def)
qed

lemma talks_bind_allocate:
  assumes w: "works sy k cn" and r: "opt_room m data (unat (n * sz))"
    and lim: "34 + length (payload m data (unat (n * sz))) \<le> lk_lim k"
    and op: "talks k cn (f h) m ins outs m' x"
  shows "talks k cn (cbind (consumer_allocate sy n sz data hint) f) m ([alloc_resp h] @ ins)
    ([alloc_req n sz hint (payload m data (unat (n * sz)))] @ outs) m' x"
  using talks_bind [where f = f, OF w talks_allocate [OF w r lim] op] .

lemma clCreateContext_correct:
  assumes w: "works sy k cn" and ptrs: "devices \<noteq> 0" "n \<noteq> 0" "pfn_notify \<noteq> 0 \<or> user_data = 0"
    and props: "room m properties (unat (psz + 8))" "scanned m properties = Inr (Some (pid, psz))" "pid \<noteq> 0"
      "34 + unat (psz + 8) \<le> lk_lim k"
    and devs: "room m devices (unat (ucast n * 8 :: 64 word))" "34 + unat (ucast n * 8 :: 64 word) \<le> lk_lim k"
    and h: "hp \<noteq> 0" "hv \<noteq> 0" "he \<noteq> 0" and e: "opt_room m errcode_ret 4" "streamable sy 4 err"
  shows "talks k cn (clCreateContext sy properties n devices pfn_notify user_data errcode_ret) m
    ([alloc_resp hp] @ [alloc_resp hv] @ [alloc_resp he] @ [exec_resp ctx] @
     opt errcode_ret (fetch_resp sy 4 len err))
    ([alloc_req 1 (psz + 8) pid (block_at m properties (unat (psz + 8)))] @
     [alloc_req (ucast n) 8 pid (block_at m devices (unat (ucast n * 8 :: 64 word)))] @
     [alloc_req 1 4 pid []] @ [exec_req CL_CREATECONTEXT pid [hp, ucast n, hv, 0, 0, he]] @
     [fetch_req he (if errcode_ret = 0 then 0 else 4) pid] @ [fetch_req hv 0 pid] @ [fetch_req hp 0 pid])
    (put_bytes m errcode_ret err) ctx"
proof -
  have nz: "properties \<noteq> 0" "room m properties 0" using props(1) by (auto simp: room_def)
  let ?call = "cbind (EXECUTE_object sy pid CL_CREATECONTEXT [hp, ucast n, hv, 0, 0, he]) (\<lambda>rv.
                 cseq (ERRCODE_FETCH sy pid he errcode_ret) (creturn rv))"
  let ?m = "put_bytes m errcode_ret err"
  have call: "talks k cn ?call m ([exec_resp ctx] @ opt errcode_ret (fetch_resp sy 4 len err))
    ([exec_req CL_CREATECONTEXT pid [hp, ucast n, hv, 0, 0, he]] @ [fetch_req he (if errcode_ret = 0 then 0 else 4) pid])
    ?m ctx"
    by (rule w talks_last [OF w ERRCODE_FETCH_talks [OF w h(3) e]] talks_bind [OF _ talks_EXECUTE_object]
        | (simp add: argc_oks; fail))+
  have frees: "talks k cn (cseq (FREE sy pid hv) (cseq (FREE sy pid hp) (creturn ctx))) ?m []
      ([fetch_req hv 0 pid] @ [fetch_req hp 0 pid]) ?m ctx"
    by (rule talks_seq_send [OF w talks_FREE_handle [OF w h(2)]], rule talks_last [OF w talks_FREE_handle [OF w h(1)]])
  have pay: "payload m properties (unat (1 * (psz + 8))) = block_at m properties (unat (psz + 8))"
    "payload m devices (unat (ucast n * 8 :: 64 word)) = block_at m devices (unat (ucast n * 8 :: 64 word))"
    using nz(1) ptrs(1) by (simp_all add: payload_def)
  have rooms: "opt_room m properties (unat (1 * (psz + 8)))" "opt_room m devices (unat (ucast n * 8 :: 64 word))"
    "34 + length (payload m properties (unat (1 * (psz + 8)))) \<le> lk_lim k"
    "34 + length (payload m devices (unat (ucast n * 8 :: 64 word))) \<le> lk_lim k"
    using props(1,4) devs unfolding pay by (simp_all add: opt_room_def)
  have none: "opt_room m 0 (unat (1 * 4 :: 64 word))" "34 + length (payload m 0 (unat (1 * 4 :: 64 word))) \<le> lk_lim k"
    using worksD(5) [OF w] by (simp_all add: opt_room_def payload_def)
  have body: "talks k cn (cbind (consumer_allocate sy 1 (psz + 8) properties pid) (\<lambda>h_properties.
        if h_properties = 0 then context_error errcode_ret CL_OUT_OF_HOST_MEMORY
        else
          cbind (consumer_allocate sy (ucast n) 8 devices pid) (\<lambda>h_devices.
          if h_devices = 0 then
            cseq (ERRCODE_SET errcode_ret (ucast CL_OUT_OF_HOST_MEMORY))
           (cseq (FREE sy pid h_properties) (creturn 0))
          else
            cbind (ERRCODE_INIT sy pid) (\<lambda>h_errcode_ret.
            cbind
              (if h_errcode_ret = 0 then
                 cseq (ERRCODE_SET errcode_ret (ucast CL_OUT_OF_HOST_MEMORY)) (creturn 0)
               else
                 cbind (EXECUTE_object sy pid CL_CREATECONTEXT
                     [h_properties, ucast n, h_devices, 0, 0, h_errcode_ret]) (\<lambda>rv.
                 cseq (ERRCODE_FETCH sy pid h_errcode_ret errcode_ret) (creturn rv))) (\<lambda>rv.
            cseq (FREE sy pid h_devices)
           (cseq (FREE sy pid h_properties)
                 (creturn rv))))))) m
    ([alloc_resp hp] @ [alloc_resp hv] @ [alloc_resp he] @ [exec_resp ctx] @
     opt errcode_ret (fetch_resp sy 4 len err))
    ([alloc_req 1 (psz + 8) pid (payload m properties (unat (1 * (psz + 8))))] @
     [alloc_req (ucast n) 8 pid (payload m devices (unat (ucast n * 8 :: 64 word)))] @
     [alloc_req 1 4 pid (payload m 0 (unat (1 * 4 :: 64 word)))] @
     ([exec_req CL_CREATECONTEXT pid [hp, ucast n, hv, 0, 0, he]] @
     [fetch_req he (if errcode_ret = 0 then 0 else 4) pid]) @ [fetch_req hv 0 pid] @ [fetch_req hp 0 pid])
    ?m ctx"
    unfolding ERRCODE_INIT_def
    apply (rule talks_bind_allocate [OF w rooms(1,3)], subst if_not_P [OF h(1)])
    apply (rule talks_bind_allocate [OF w rooms(2,4)], subst if_not_P [OF h(2)])
    apply (rule talks_bind_allocate [OF w none], subst if_not_P [OF h(3)])
    apply (rule talks_bind_end [OF w call], rule frees)
    done
  have ifs: "\<not> (properties = 0)" "\<not> (devices = 0 \<or> n = 0)" "\<not> (pfn_notify = 0 \<and> user_data \<noteq> 0)"
    using nz ptrs by auto
  show ?thesis
    unfolding clCreateContext_def if_not_P [OF ifs(1)] if_not_P [OF ifs(2)] if_not_P [OF ifs(3)]
    by (rule talks_eq, rule talks_context_platform(3) [OF w nz(2) e(1) props(2,3)], rule body)
      (simp_all add: payload_def nz ptrs)
qed

end
