(* ===== verification/Consumer_Source_Laws.thy ===== *)
theory Consumer_Source_Laws
  imports Consumer_Call_Laws
begin

text \<open>
  \<^verbatim>\<open>clCreateProgramWithSource\<close>: the loop over the source strings sends each of them, with its
  given length or with its zero, collects the handles in an array of the process and sends that
  array as well.
\<close>

section \<open>Words and strings in memory\<close>

definition word_at :: "memory \<Rightarrow> nat \<Rightarrow> nat \<Rightarrow> arg" where
  "word_at m p i = dec64 (take 8 (drop (8 * i) (the (mm_blocks m p))))"

definition given_length :: "memory \<Rightarrow> nat \<Rightarrow> nat \<Rightarrow> 64 word" where
  "given_length m lengths i = (if lengths = 0 then 0 else word_at m lengths i)"

definition source_ptr :: "memory \<Rightarrow> nat \<Rightarrow> nat \<Rightarrow> nat" where
  "source_ptr m strings i = ARG2PTR (word_at m strings i)"

text \<open>The length of string \<open>i\<close>: the one given, or up to its zero and that included.\<close>

definition source_len :: "memory \<Rightarrow> nat \<Rightarrow> nat \<Rightarrow> nat \<Rightarrow> 64 word" where
  "source_len m strings lengths i =
     (if given_length m lengths i \<noteq> 0 then given_length m lengths i
      else of_nat (length (takeWhile (\<lambda>b. b \<noteq> 0) (the (mm_blocks m (source_ptr m strings i))))) + 1)"

definition source_text :: "memory \<Rightarrow> nat \<Rightarrow> nat \<Rightarrow> nat \<Rightarrow> byte list" where
  "source_text m strings lengths i =
     block_at m (source_ptr m strings i) (unat (source_len m strings lengths i))"

definition source_req :: "memory \<Rightarrow> nat \<Rightarrow> nat \<Rightarrow> global_id \<Rightarrow> nat \<Rightarrow> byte list" where
  "source_req m strings lengths hint i =
     alloc_req (source_len m strings lengths i) 1 hint (source_text m strings lengths i)"

text \<open>What the loop reads is there, and short enough for a message of \<open>lim\<close> bytes.\<close>

definition source_ok :: "nat \<Rightarrow> memory \<Rightarrow> nat \<Rightarrow> nat \<Rightarrow> nat \<Rightarrow> bool" where
  "source_ok lim m strings lengths i \<longleftrightarrow>
     room m strings (8 * i + 8) \<and> opt_room m lengths (8 * i + 8) \<and>
     room m (source_ptr m strings i) (unat (source_len m strings lengths i)) \<and>
     (given_length m lengths i = 0 \<longrightarrow> 0 \<in> set (the (mm_blocks m (source_ptr m strings i)))) \<and>
     34 + unat (source_len m strings lengths i) \<le> lim"

definition set_block :: "memory \<Rightarrow> nat \<Rightarrow> byte list \<Rightarrow> memory" where
  "set_block m p bs = m\<lparr>mm_blocks := (mm_blocks m)(p \<mapsto> bs)\<rparr>"

lemma set_block_simps [simp]:
  "mm_blocks (set_block m p bs) = (mm_blocks m)(p \<mapsto> bs)"
  "set_block (set_block m p bs) p bs' = set_block m p bs'"
  by (simp_all add: set_block_def)

lemma set_block_same: "mm_blocks m p = Some bs \<Longrightarrow> set_block m p bs = m"
  by (simp add: set_block_def fun_upd_idem)

lemma room_set_block: "p \<noteq> q \<Longrightarrow> room (set_block m q bs) p n = room m p n"
  by (simp add: room_def)

text \<open>A block the strings are not in does not matter.\<close>

lemma source_stable:
  assumes "mm_blocks m' = (mm_blocks m)(q := x)"
    and "strings \<noteq> q" and "lengths \<noteq> q" and "source_ptr m strings i \<noteq> q"
  shows "source_ok lim m' strings lengths i = source_ok lim m strings lengths i"
    and "source_req m' strings lengths hint i = source_req m strings lengths hint i"
    and "source_ptr m' strings i = source_ptr m strings i"
  using assms
  by (simp_all add: source_ok_def source_req_def source_text_def source_len_def given_length_def source_ptr_def
      word_at_def block_at_def room_def opt_room_def)

section \<open>The loops\<close>

lemma talks_word:
  assumes "room m p (8 * i + 8)"
  shows "talks k cn (app_bytes p (8 * i) 8) m [] [] m (take 8 (drop (8 * i) (the (mm_blocks m p))))"
  using talks_app_bytes [OF assms, of k cn] .

lemma talks_poke:
  assumes "p \<noteq> 0" and "mm_blocks m p = Some old" and "off + length bs \<le> length old" and "bs \<noteq> []"
  shows "talks k cn (app_store p off bs) m [] [] (set_block m p (take off old @ bs @ drop (off + length bs) old)) ()"
  using assms by (intro talksI) (auto simp: app_store_def mem_write_def mem_block_def set_block_def moves_def)

lemma talks_source_string:
  assumes w: "works sy k cn" and ok: "source_ok (lk_lim k) m strings lengths i" and h: "h \<noteq> 0"
    and hs: "h_string \<noteq> 0" "mm_blocks m h_string = Some old" "8 * i + 8 \<le> length old"
    and rest: "talks k cn (source_strings sy hint strings lengths h_string (Suc i) n)
      (set_block m h_string (take (8 * i) old @ enc64 h @ drop (8 * i + 8) old)) ins outs m' ()"
  shows "talks k cn (source_strings sy hint strings lengths h_string i (Suc n)) m ([alloc_resp h] @ ins)
    ([source_req m strings lengths hint i] @ outs) m' ()"
proof -
  let ?p = "source_ptr m strings i" and ?len = "source_len m strings lengths i"
  have given: "talks k cn (if lengths = 0 then creturn 0
      else cbind (app_bytes lengths (8 * i) 8) (\<lambda>bs. creturn (dec64 bs))) m [] [] m (given_length m lengths i)"
    using ok by (auto simp: given_length_def word_at_def source_ok_def opt_room_def talks_return
        intro!: talks_bind_quiet [OF w talks_word])
  have str: "talks k cn (app_bytes strings (8 * i) 8) m [] [] m (take 8 (drop (8 * i) (the (mm_blocks m strings))))"
    using ok by (intro talks_word) (simp add: source_ok_def)
  have len: "talks k cn (if given_length m lengths i \<noteq> 0 then creturn (given_length m lengths i)
      else cbind (app_strlen ?p) (\<lambda>l. creturn (of_nat l + 1))) m [] [] m ?len"
  proof (cases "given_length m lengths i = 0")
    case True
    from ok obtain bs where bs: "?p \<noteq> 0" "mm_blocks m ?p = Some bs" by (auto simp: source_ok_def room_def)
    then have "room m ?p (length bs)" "block_at m ?p (length bs) = bs" by (simp_all add: room_def block_at_def)
    moreover have "0 \<in> set bs" using ok True bs by (simp add: source_ok_def)
    ultimately have "talks k cn (app_strlen ?p) m [] [] m (length (takeWhile (\<lambda>b. b \<noteq> 0) bs))"
      using talks_app_strlen [of m ?p "length bs" k cn] by simp
    from talks_bind_quiet [where f = "\<lambda>l. creturn (of_nat l + 1)", OF w this talks_return] True bs
    show ?thesis by (simp add: source_len_def)
  qed (simp add: source_len_def talks_return)
  have r: "room m ?p (unat (?len * 1))" "34 + unat ?len \<le> lk_lim k" using ok by (simp_all add: source_ok_def)
  then have "?p \<noteq> 0" by (simp add: room_def)
  then have "payload m ?p (unat (?len * 1)) = source_text m strings lengths i"
    by (simp add: payload_def source_text_def)
  moreover have "length (source_text m strings lengths i) = unat ?len"
    using r(1) by (simp add: source_text_def)
  ultimately have alloc: "talks k cn (consumer_allocate sy ?len 1 ?p hint) m [alloc_resp h]
      [source_req m strings lengths hint i] m h"
    using talks_allocate [OF w, of m ?p ?len 1 hint h] r by (simp add: opt_room_def source_req_def)
  have store: "talks k cn (app_store h_string (8 * i) (enc64 h)) m [] []
      (set_block m h_string (take (8 * i) old @ enc64 h @ drop (8 * i + 8) old)) ()"
    using talks_poke [of h_string m old "8 * i" "enc64 h" k cn] hs by simp
  have p: "ARG2PTR (dec64 (take 8 (drop (8 * i) (the (mm_blocks m strings))))) = ?p"
    by (simp add: source_ptr_def word_at_def)
  show ?thesis unfolding source_strings.simps cseq_def Let_def
    by (rule talks_bind_quiet [OF w given], rule talks_bind_quiet [OF w str], unfold p,
        rule talks_bind_quiet [OF w len], rule talks_bind [OF w alloc],
        rule talks_bind_quiet [OF w store], rule talks_bind_quiet [OF w talks_cassert [OF h]], rule rest)
qed

lemma talks_source_strings:
  assumes w: "works sy k cn" and hs: "h_string \<noteq> 0" "strings \<noteq> h_string" "lengths \<noteq> h_string"
  shows "0 \<notin> set handles \<Longrightarrow> mm_blocks m h_string = Some old \<Longrightarrow> length old = 8 * (i + length handles) \<Longrightarrow>
    \<forall>j\<in>{i..<i + length handles}. source_ok (lk_lim k) m strings lengths j \<and> source_ptr m strings j \<noteq> h_string \<Longrightarrow>
    talks k cn (source_strings sy hint strings lengths h_string i (length handles)) m (map alloc_resp handles)
      (map (source_req m strings lengths hint) [i..<i + length handles])
      (set_block m h_string (take (8 * i) old @ enc_args handles)) ()"
proof (induction handles arbitrary: m i old)
  case Nil
  then show ?case by (simp add: talks_return set_block_same enc_args_def)
next
  case (Cons h handles)
  let ?old = "take (8 * i) old @ enc64 h @ drop (8 * i + 8) old"
  let ?m = "set_block m h_string ?old"
  have ok: "source_ok (lk_lim k) m strings lengths i" "h \<noteq> 0" "8 * i + 8 \<le> length old"
    using Cons.prems by auto
  have same: "source_req ?m strings lengths hint j = source_req m strings lengths hint j"
    "source_ok (lk_lim k) ?m strings lengths j \<and> source_ptr ?m strings j \<noteq> h_string"
    if "j \<in> {Suc i..<Suc i + length handles}" for j
    using that Cons.prems(4) source_stable [of ?m m h_string "Some ?old" strings lengths j] hs(2,3) by auto
  have "length ?old = 8 * (Suc i + length handles)" using Cons.prems(3) by simp
  from Cons.IH [OF _ _ this, of ?m] Cons.prems(1) same(2)
  have rest: "talks k cn (source_strings sy hint strings lengths h_string (Suc i) (length handles)) ?m
      (map alloc_resp handles) (map (source_req ?m strings lengths hint) [Suc i..<Suc i + length handles])
      (set_block ?m h_string (take (8 * Suc i) ?old @ enc_args handles)) ()" by simp
  have e1: "take (8 * Suc i) ?old @ enc_args handles = take (8 * i) old @ enc_args (h # handles)"
    using ok(3) by (simp add: enc_args_def)
  have e2: "map (source_req ?m strings lengths hint) [Suc i..<Suc i + length handles] =
      map (source_req m strings lengths hint) [Suc i..<Suc i + length handles]"
    using same(1) by (intro map_cong) auto
  have "talks k cn (source_strings sy hint strings lengths h_string (Suc i) (length handles)) ?m
      (map alloc_resp handles) (map (source_req m strings lengths hint) [Suc i..<Suc i + length handles])
      (set_block m h_string (take (8 * i) old @ enc_args (h # handles))) ()"
    by (rule talks_eq [OF rest refl e2 _ refl]) (simp only: e1 set_block_simps)
  moreover have "[i..<i + length (h # handles)] = i # [Suc i..<Suc i + length handles]"
    by (subst upt_conv_Cons) (simp_all del: upt_Suc)
  ultimately show ?case using talks_source_string [OF w ok(1,2) hs(1) Cons.prems(2) ok(3)]
    by (simp only: list.map length_Cons append.simps)
qed

lemma talks_free_strings:
  assumes w: "works sy k cn" and hs: "h_string \<noteq> 0"
  shows "0 \<notin> set handles \<Longrightarrow> mm_blocks m h_string = Some (pre @ enc_args handles) \<Longrightarrow> length pre = 8 * i \<Longrightarrow>
    talks k cn (free_strings sy hint h_string i (length handles)) m [] (map (\<lambda>h. fetch_req h 0 hint) handles) m ()"
proof (induction handles arbitrary: i pre)
  case Nil
  then show ?case by (simp add: talks_return)
next
  case (Cons h handles)
  have "room m h_string (8 * i + 8)" using Cons.prems hs by (simp add: room_def)
  from talks_word [OF this, of k cn] Cons.prems(2,3)
  have word: "talks k cn (app_bytes h_string (8 * i) 8) m [] [] m (enc64 h)" by (simp add: enc_args_def)
  have "mm_blocks m h_string = Some ((pre @ enc64 h) @ enc_args handles)" "length (pre @ enc64 h) = 8 * Suc i"
    using Cons.prems(2,3) by (simp_all add: enc_args_def)
  from Cons.IH [OF _ this] Cons.prems(1)
  have rest: "talks k cn (free_strings sy hint h_string (Suc i) (length handles)) m []
      (map (\<lambda>h. fetch_req h 0 hint) handles) m ()" by simp
  have "talks k cn (cseq (FREE sy hint (dec64 (enc64 h))) (free_strings sy hint h_string (Suc i) (length handles))) m []
      ([fetch_req h 0 hint] @ map (\<lambda>h. fetch_req h 0 hint) handles) m ()"
    using Cons.prems(1) unfolding dec_enc_nil
    by (intro talks_seq_send [OF w talks_FREE_handle [OF w] rest]) simp
  then show ?case
    by simp (rule talks_bind_quiet [OF w word], simp)
qed

section \<open>The whole call\<close>

text \<open>
  The array of handles is a block of its own, which the library never frees: it is still there
  afterwards, under the address \<open>h_string\<close> that \<^verbatim>\<open>calloc\<close> returned.
\<close>

lemma talks_calloc:
  assumes "mem_calloc m nmemb sz = (m', p)"
  shows "talks k cn (app_calloc nmemb sz) m [] [] m' p"
  using assms by (intro talksI) (auto simp: app_calloc_def moves_def)

lemma clCreateProgramWithSource_correct:
  fixes cnt :: u32
  assumes w: "works sy k cn" and c: "context \<noteq> 0" and m: "mem_wf m"
    and calloc: "mem_calloc m (ucast cnt) 8 = (m1, h_string)" "h_string \<noteq> 0"
    and strings: "\<forall>i<unat cnt. source_ok (lk_lim k) m strings lengths i" "strings \<noteq> h_string"
    and hs: "length handles = unat cnt" "0 \<notin> set handles" "hS \<noteq> 0" "hl \<noteq> 0" "he \<noteq> 0"
    and lens: "opt_room m lengths (8 * unat cnt)" and lim: "34 + 8 * unat cnt \<le> lk_lim k"
    and err: "opt_room m errcode_ret 4" "streamable sy 4 err"
  shows "talks k cn (clCreateProgramWithSource sy context cnt strings lengths errcode_ret) m
    (map alloc_resp handles @ [alloc_resp hS] @ opt lengths [alloc_resp hl] @ opt errcode_ret [alloc_resp he] @
     [exec_resp program] @ opt errcode_ret (fetch_resp sy 4 len err))
    (map (source_req m strings lengths context) [0..<unat cnt] @
     [alloc_req (ucast cnt) 8 context (enc_args handles)] @
     opt lengths [alloc_req 1 (ucast cnt * 8) context (block_at m lengths (8 * unat cnt))] @
     opt errcode_ret [alloc_req 1 4 context []] @
     [exec_req CL_CREATEPROGRAMWITHSOURCE context
        [context, ucast cnt, hS, handle_of lengths hl, handle_of errcode_ret he]] @
     opt errcode_ret [fetch_req he 4 context] @ opt lengths [fetch_req hl 0 context] @
     map (\<lambda>h. fetch_req h 0 context) handles @ [fetch_req hS 0 context])
    (put_bytes (set_block m1 h_string (enc_args handles)) errcode_ret err) program"
proof -
  let ?m2 = "set_block m1 h_string (enc_args handles)"
  let ?m3 = "put_bytes ?m2 errcode_ret err"
  have small: "unat cnt < 2 ^ 32" by (rule order_less_le_trans [OF unsigned_less]) simp
  then have ucnt: "unat (ucast cnt :: 64 word) = unat cnt"
    by (simp add: unsigned_ucast_eq take_bit_nat_eq_self)
  have sz: "unat (ucast cnt * 8 :: 64 word) = 8 * unat cnt"
    by (use small in \<open>simp add: unat_word_ariths ucnt\<close>)
  from mem_calloc_wf(3) [OF m calloc(1,2)] have
    m1: "mm_blocks m h_string = None" "mm_blocks m1 = (mm_blocks m)(h_string \<mapsto> replicate (8 * unat cnt) 0)"
    by (simp_all add: ucnt mult.commute)
  have live: "p \<noteq> h_string \<and> mm_blocks m1 p = mm_blocks m p" if "room m p n" for p n
    using that m1 by (auto simp: room_def)
  have lengths: "lengths \<noteq> h_string" using live lens calloc(2) by (auto simp: opt_room_def)
  have err_ptr: "errcode_ret \<noteq> h_string" using live err calloc(2) by (auto simp: opt_room_def)
  have m1_eq: "m1 = set_block (m1\<lparr>mm_blocks := mm_blocks m\<rparr>) h_string (replicate (8 * unat cnt) 0)"
    using m1 by (simp add: set_block_def)
  have src: "source_ok (lk_lim k) m1 strings lengths i \<and> source_ptr m1 strings i \<noteq> h_string \<and>
      source_req m1 strings lengths context i = source_req m strings lengths context i" if "i < unat cnt" for i
  proof -
    have "source_ok (lk_lim k) m strings lengths i" using strings(1) that by blast
    moreover from this have "source_ptr m strings i \<noteq> h_string" using live unfolding source_ok_def by blast
    ultimately show ?thesis using source_stable [OF m1(2) strings(2) lengths] by simp
  qed
  have loop: "talks k cn (source_strings sy context strings lengths h_string 0 (unat cnt)) m1
      (map alloc_resp handles) (map (source_req m strings lengths context) [0..<unat cnt]) ?m2 ()"
  proof (rule talks_eq [OF talks_source_strings [OF w calloc(2) strings(2) lengths hs(2), of m1
        "replicate (8 * unat cnt) 0" 0 "context", unfolded hs(1)]])
    show "map (source_req m1 strings lengths context) [0..<0 + unat cnt] =
        map (source_req m strings lengths context) [0..<unat cnt]"
      using src by (auto intro!: map_cong)
  qed (use src m1(2) hs(1) in auto)
  have strs: "talks k cn (consumer_allocate sy (ucast cnt) 8 h_string context) ?m2 [alloc_resp hS]
      [alloc_req (ucast cnt) 8 context (enc_args handles)] ?m2 hS"
    using talks_allocate [OF w, of ?m2 h_string "ucast cnt" 8 "context" hS] lim hs(1) calloc(2)
    by (simp add: sz payload_def block_at_def opt_room_def room_def)
  have lens2: "opt_room ?m2 lengths (unat (ucast cnt * 8 :: 64 word))"
    "block_at ?m2 lengths (unat (ucast cnt * 8 :: 64 word)) = block_at m lengths (8 * unat cnt)"
    using lens lengths m1(2) by (auto simp: sz opt_room_def room_def block_at_def)
  have err2: "opt_room ?m2 errcode_ret (unat (4 :: 64 word))"
    using err(1) err_ptr m1(2) by (auto simp: opt_room_def room_def)
  have "mm_blocks ?m3 h_string = Some ([] @ enc_args handles)"
    using err_ptr by (auto simp: put_bytes_def overwrite_def)
  from talks_free_strings [OF w calloc(2) hs(2) this, of 0 "context"] hs(1)
  have free: "talks k cn (free_strings sy context h_string 0 (unat cnt)) ?m3 []
      (map (\<lambda>h. fetch_req h 0 context) handles) ?m3 ()" by simp
  have last: "talks k cn (cseq (FREE sy context hS) (creturn program)) ?m3 [] [fetch_req hS 0 context] ?m3 program"
    by (rule talks_last [OF w talks_FREE_handle [OF w hs(3)]])
  have lim': "34 + unat (ucast cnt * 8 :: 64 word) \<le> lk_lim k" using lim by (simp add: sz)
  have call: "talks k cn (cbind (MALLOC sy context lengths (ucast cnt * 8)) (\<lambda>h_lengths.
        cbind (CALLOC sy context errcode_ret 1 4) (\<lambda>h_errcode_ret.
        cbind (EXECUTE_object sy context CL_CREATEPROGRAMWITHSOURCE
            [context, ucast cnt, hS, h_lengths, h_errcode_ret]) (\<lambda>rv.
        cseq (FETCH sy context h_errcode_ret errcode_ret 4)
       (cseq (FREE sy context h_lengths)
       (cseq (free_strings sy context h_string 0 (unat cnt))
       (cseq (FREE sy context hS)
             (creturn rv)))))))) ?m2
    (opt lengths [alloc_resp hl] @ opt errcode_ret [alloc_resp he] @
     [exec_resp program] @ opt errcode_ret (fetch_resp sy 4 len err))
    (opt lengths [alloc_req 1 (ucast cnt * 8) context (block_at m lengths (8 * unat cnt))] @
     opt errcode_ret [alloc_req 1 4 context []] @
     [exec_req CL_CREATEPROGRAMWITHSOURCE context
        [context, ucast cnt, hS, handle_of lengths hl, handle_of errcode_ret he]] @
     opt errcode_ret [fetch_req he 4 context] @ opt lengths [fetch_req hl 0 context] @
     map (\<lambda>h. fetch_req h 0 context) handles @ [fetch_req hS 0 context]) ?m3 program"
    unfolding lens2(2) [symmetric]
    by (rule w hs lim' lens2(1) err2 err(2) last talks_seq_send [OF w free]
        talks_go | (simp add: argc_oks; fail))+
  show ?thesis unfolding clCreateProgramWithSource_def HANDLE_def cseq_def
    by (rule talks_DECLARE_HINT [OF c], rule talks_bind_quiet [OF w talks_calloc [OF calloc(1)]],
        rule talks_bind_quiet [OF w talks_cassert [OF calloc(2)]], rule talks_bind [OF w loop],
        rule talks_bind [OF w strs], rule talks_bind_quiet [OF w talks_cassert [OF hs(3)]],
        rule call [unfolded cseq_def])
qed

end
