(* ===== verification/Consumer_Examples.thy ===== *)
theory Consumer_Examples
  imports Agent_Examples Consumer_Agent Consumer_Context_Laws Consumer_Source_Laws
begin

text \<open>
  A small application for the properties of the consumer's library: connected on socket 8 to the
  agent's socket 6, with some memory, over queues and a codec that does not compress.
\<close>

definition net1 :: "(nat \<Rightarrow> byte list list) sctp" where
  "net1 = queue_net (\<lambda>sd to. if sd = 6 then 8 else to) (\<lambda>sd. nat sd)"

definition link1 :: "(nat \<Rightarrow> byte list list) link" where
  "link1 = queue_link (\<lambda>sd to. if sd = 6 then 8 else to) (\<lambda>sd. nat sd) 65536"

lemma link1_simps [simp]:
  "reliable net1 link1" "truncates net1 link1" "lk_ok link1 s" "lk_queue link1 s = s"
  "lk_out link1 sd to = (if sd = 6 then 8 else to)" "lk_inp link1 sd = nat sd" "lk_lim link1 = 65536"
  by (simp_all add: net1_def link1_def queue_net_reliable queue_net_truncates) (simp_all add: queue_link_def)

definition cn1 :: clara_consumer where
  "cn1 = \<lparr>cn_sd = 8, cn_agent_addr = 6\<rparr>"

definition sy1 :: "(nat \<Rightarrow> byte list list) system" where
  "sy1 = \<lparr>sy_net = net1, sy_lzo = lz0, sy_fuel = 100, sy_agent_addr = None, sy_agent_port = None,
     sy_inet_pton = (\<lambda>_. None), sy_sockaddr = (\<lambda>_. 6), sy_sin_addr = unat, sy_socket = Some 8\<rparr>"

lemma sy1_works: "works sy1 link1 cn1" "joined link1 cn1 6"
  by (simp_all add: works_def joined_def sy1_def cn1_def lz0_ok BLOCKSIZE_def)

definition client1 :: "(nat \<rightharpoonup> byte list) \<Rightarrow> byte list list \<Rightarrow> (nat \<Rightarrow> byte list list) client" where
  "client1 blocks ms = \<lparr>ct_consumer = Some cn1, ct_mem = \<lparr>mm_blocks = blocks, mm_next = 100\<rparr>, ct_net = (\<lambda>_. [])(8 := ms)\<rparr>"

lemma client1_ready: "client_ready link1 cn1 (client1 blocks ms)"
  by (simp add: client_ready_def client1_def)

text \<open>A conversation on this state.\<close>

lemma talks_client1:
  assumes "talks link1 cn1 op \<lparr>mm_blocks = blocks, mm_next = 100\<rparr> ins outs m' x"
  shows "\<exists>c'. op (client1 blocks ins) = Inr (c', x) \<and> ct_mem c' = m' \<and> ct_net c' 8 = [] \<and> ct_net c' 6 = outs"
  using talks_runs [OF assms client1_ready [of blocks ins], where rest = "[]"]
  by (fastforce simp: client1_def cn1_def moves_def)

text \<open>Short data is one block.\<close>

lemma short_stream:
  assumes "bs \<noteq> []" and "length bs < 98"
  shows "wire_blocks lz0 (consumer_opts (of_nat (length bs))) bs = [bs]"
    and "streamable sy1 (of_nat (length bs)) bs" and "stream_fuel [bs] 100"
proof -
  have u: "unat (of_nat (length bs) :: 64 word) = length bs" using assms(2) by (simp add: unat_of_nat)
  have b: "unat STREAM_BLOCKSIZE = 4194304" by (simp add: STREAM_BLOCKSIZE_def push_bit_eq_mult unat_word_ariths)
  have "chunks 4194304 bs = [bs]" using assms by (simp add: chunks_step)
  then show w: "wire_blocks lz0 (consumer_opts (of_nat (length bs))) bs = [bs]"
    by (simp add: wire_blocks_def enc_blocks_def consumer_opts_def b enc_block_def lz0_def)
  show f: "stream_fuel [bs] 100" using assms(2) by (simp add: stream_fuel_def)
  with w u show "streamable sy1 (of_nat (length bs)) bs" by (simp add: streamable_def sy1_def)
qed

end
