(* ===== verification/Whole_Calls.thy ===== *)
theory Whole_Calls
  imports Distributed Consumer_Agent
begin

text \<open>
  A call through all three processes: the application calls the library, the library's request
  reaches the agent's thread, the agent runs it at the provider of the object it is about, and
  the answer goes back the same way. Creating a buffer leaves the three with the same idea of
  it: the application has an identifier, the agent files the real object under it, and the
  provider knows the identifier by the real object. Releasing it takes it out of the agent, but
  not out of the provider.
\<close>

section \<open>The agent's step\<close>

lemma step_execute:
  assumes net: "reliable net k" "10 \<le> lk_lim k" and j: "joined k cn (co_sd co)"
    and co: "ag_consumer_heap ag i = Some co" "0 < i" and ok: "lk_ok k (ag_net ag)"
    and q: "lk_queue k (ag_net ag) (lk_inp k (co_sd co)) = exec_req f hint args # ms"
    and len: "24 + 8 * length args \<le> AGENT_RECVBUFSZ"
    and run: "\<And>s. leaves k (ag_net ag) s (lk_inp k (co_sd co)) ms \<Longrightarrow>
      \<exists>ag'. agent_execute net lz fuel rs (ag\<lparr>ag_net := s\<rparr>)
        (enc_execute_request \<lparr>er_hint = hint, er_fun = of_nat (cl_value f), er_retval = 0\<rparr> @ enc_args args) 0 i =
          Inr (ag', x, True) \<and> lk_ok k (ag_net ag') \<and> same_sockets ag ag' \<and> P s ag'"
  shows "\<exists>s ag' s'. leaves k (ag_net ag) s (lk_inp k (co_sd co)) ms \<and> P s ag' \<and>
    consumer_step net lz fuel ev rs ag i = Inr (Some (ag'\<lparr>ag_net := s'\<rparr>, False)) \<and>
    adds k (ag_net ag') s' (lk_inp k (cn_sd cn)) [exec_resp x]"
proof -
  let ?b = "enc_execute_request \<lparr>er_hint = hint, er_fun = of_nat (cl_value f), er_retval = 0\<rparr> @ enc_args args"
  have q': "lk_queue k (ag_net ag) (lk_inp k (co_sd co)) = (enc16 CLARA_MSG_EXECUTE_REQUEST @ ?b) # ms"
    using q by (simp add: exec_req_def)
  have "length ?b \<le> AGENT_RECVBUFSZ" using len by simp
  from consumer_step_receives [OF net(1) ok co q' this, of lz fuel ev rs] obtain s fr where
    s: "leaves k (ag_net ag) s (lk_inp k (co_sd co)) ms"
      "consumer_step net lz fuel ev rs ag i = consumer_message net lz fuel ev rs (ag\<lparr>ag_net := s\<rparr>) i
        \<lparr>cm_type = CLARA_MSG_EXECUTE_REQUEST, cm_bytes = ?b, cm_from = fr, cm_notification = False\<rparr>" by blast
  from run [OF s(1)] obtain ag' where
    ag': "agent_execute net lz fuel rs (ag\<lparr>ag_net := s\<rparr>) ?b 0 i = Inr (ag', x, True)"
      "lk_ok k (ag_net ag')" "same_sockets ag ag'" "P s ag'" by blast
  from same_socketsD [OF ag'(3) co(1)] obtain co' where
    co': "ag_consumer_heap ag' i = Some co'" "co_sd co' = co_sd co" by blast
  have lim: "length (enc64 x) + 2 \<le> lk_lim k" using net(2) by simp
  have chan: "lk_out k (co_sd co') fr = lk_inp k (cn_sd cn)" using j co'(2) by (simp add: joined_def)
  from sendmsg_adds [OF net(1) ag'(2) lim, of "co_sd co'" CLARA_MSG_EXECUTE_RESPONSE fr] obtain s' where
    s': "clara_sendmsg net (ag_net ag') (co_sd co') CLARA_MSG_EXECUTE_RESPONSE (enc64 x) fr =
        Inr (s', Some (length (enc64 x)))"
      "adds k (ag_net ag') s' (lk_inp k (cn_sd cn)) [exec_resp x]" unfolding chan exec_resp_def by blast
  have "handle_execute net lz fuel rs (ag\<lparr>ag_net := s\<rparr>) i ?b fr = Inr (ag'\<lparr>ag_net := s'\<rparr>)"
    unfolding handle_execute_def ag'(1) using co' co(2) s'(1)
    by (simp add: deref_live clara_send_execute_response_def sent_def)
  then have "consumer_step net lz fuel ev rs ag i = Inr (Some (ag'\<lparr>ag_net := s'\<rparr>, False))"
    using s(2) by (simp add: consumer_message_def message_type_distinct)
  with s(1) s'(2) ag'(4) show ?thesis by blast
qed

text \<open>The agent's channels to the application and to the provider are four different ones.\<close>

definition apart :: "'n link \<Rightarrow> clara_consumer \<Rightarrow> sd \<Rightarrow> nat \<Rightarrow> nat \<Rightarrow> bool" where
  "apart k cn sd out inp \<longleftrightarrow> {lk_inp k sd, lk_inp k (cn_sd cn)} \<inter> {out, inp} = {}"

lemma served_leaves:
  assumes "served k ag v pv out inp" and "leaves k (ag_net ag) s c ms"
  shows "served k (ag\<lparr>ag_net := s\<rparr>) v pv out inp"
  using assms by (simp add: served_def leaves_def)

section \<open>Creating a buffer\<close>

text \<open>Without a host pointer and without an error code there is nothing to allocate.\<close>

lemma create_buffer_talks:
  assumes "works sy k cn" and "context \<noteq> 0"
  shows "talks k cn (clCreateBuffer sy context flags sz 0 0) m [exec_resp b]
    [exec_req CL_CREATEBUFFER context [context, flags, sz, 0, 0]] m b"
proof -
  have none: "cbind (creturn x) f = f x" "cseq (creturn x) op = op" "cbind op creturn = op"
    for x :: 'c and f :: "'c \<Rightarrow> ('a, 'd) client_op" and op :: "('a, 'd) client_op"
    by (simp_all add: fun_eq_iff cbind_def creturn_def cseq_def rbind_def split: sum.splits)
  have "clCreateBuffer sy context flags sz 0 0 =
      EXECUTE_object sy context CL_CREATEBUFFER [context, flags, sz, 0, 0]"
    using assms(2) by (simp add: clCreateBuffer_def DECLARE_HINT_def CALLOC_def MALLOC_def FETCH_def FREE_def HANDLE_def none)
  then show ?thesis using talks_EXECUTE_object [OF assms(1)] by (simp add: argc_oks)
qed

lemma create_buffer_whole:
  fixes pr :: "('m, 'o) clara_provider"
  assumes w: "works sy k cn" "sends_whole (sy_net sy)" and j: "joined k cn (co_sd co)"
    and inv: "object_inv ag" "object_room ag" and co: "ag_consumer_heap ag i = Some co" "co_attached co"
    and sv: "served k ag v pv out inp" "apart k cn (co_sd co) out inp"
    and ctx: "object_table ag context = Some e" "oe_provider e = v"
    and key: "first_nonzero rs = Some key" "key \<notin> pool_ids (ag_id_pool ag)"
    and pr: "pr_inv pr" "pr_room pr" "vendor_ok vd" "agrees ag v pr" "pr_ids pr key = None"
    and vd: "vd_object vd CL_CREATEBUFFER [oe_real e, flags, sz, 0, 0] (pr_vendor pr) (pr_mem pr) = (real, err, o', m')"
      "real \<noteq> 0"
    and pnet: "reliable pnet pk" "lk_ok pk (pr_net pr)" "10 \<le> lk_lim pk"
    and q: "lk_queue k (ag_net ag) (lk_inp k (co_sd co)) = exec_req CL_CREATEBUFFER context [context, flags, sz, 0, 0] # ms"
      "lk_queue k (ag_net ag) inp = exec_resp real # ms'"
  defines "req \<equiv> exec_req CL_CREATEBUFFER context [context, flags, sz, 0, 0]"
    and "mapping \<equiv> enc64 key @ enc64 real"
  shows "\<exists>ag' pr2 pr3.
    talks k cn (clCreateBuffer sy context flags sz 0 0) m [exec_resp key] [req] m key \<and>
    consumer_step (sy_net sy) (sy_lzo sy) fuel ev rs ag i = Inr (Some (ag', False)) \<and>
    lk_queue k (ag_net ag') = (lk_queue k (ag_net ag))(lk_inp k (co_sd co) := ms, inp := ms',
      out := lk_queue k (ag_net ag) out @ [req, enc16 CLARA_MSG_MAPPING @ mapping],
      lk_inp k (cn_sd cn) := lk_queue k (ag_net ag) (lk_inp k (cn_sd cn)) @ [exec_resp key]) \<and>
    pr_handle_execute pnet vd pr (drop 2 req) from = Inr pr2 \<and>
    adds pk (pr_net pr) (pr_net pr2) (lk_out pk (pr_sd pr) from) [exec_resp real] \<and>
    handle_mapping pr2 mapping = Inr pr3 \<and>
    object_table ag' key = Some \<lparr>oe_real = real, oe_provider = v, oe_consumer = i, oe_refcnt = 1\<rparr> \<and>
    object_inv ag' \<and> pr_inv pr3 \<and> agrees ag' v pr3"
proof -
  let ?args = "[context, flags, sz, 0, 0] :: arg list"
  let ?params = "\<lparr>er_hint = context, er_fun = of_nat (cl_value CL_CREATEBUFFER), er_retval = 0\<rparr>"
  let ?msg = "enc_execute_request ?params @ enc_args ?args"
  obtain fni where fni: "opencl_get_clfuninfo CL_CREATEBUFFER = Inr fni" "fi_argc fni = 5"
    by (simp add: opencl_get_clfuninfo_def clfuninfo_rows_def cl_value_def cl_functions_def)
  have ctx0: "context \<noteq> 0" using object_table_pool(2) [OF inv(1) ctx(1)] .
  have i: "0 < i" using object_invD(6) [OF inv(1) co(1)] by simp
  have entry: "map_of (exec_fun_table_entries vd :: (cl_function_t \<times> ('m, 'o) clara_provider fun_entry) list)
      CL_CREATEBUFFER = Some (entry (clara_clCreateBuffer vd) [1, 4, 5])"
    by (simp add: exec_fun_table_entries_def)
  have below5: "j = 0 \<or> j = 1 \<or> j = 2 \<or> j = 3 \<or> j = 4" if "j < fi_argc fni" for j using that fni(2) by auto
  have real_ctx: "pr_ids pr context = Some (oe_real e)" using pr(4) ctx by (simp add: agrees_def)
  have known: "pr_ids pr (?args ! j) \<noteq> None" if "j < fi_argc fni" "?args ! j \<noteq> 0" "bit (ARGS [1, 4, 5]) j" for j
    using below5 [OF that(1)] that(2,3) real_ctx by (elim disjE) (simp_all add: ARGS_def bit_simps)
  have args': "translated (real_of pr) (ARGS [1, 4, 5]) (fi_argc fni) ?args = [oe_real e, flags, sz, 0, 0]"
    using ctx0 real_ctx fni(2) by (simp add: translated_def real_of_def ARGS_def bit_simps upt_rec)
  let ?pr1 = "pr\<lparr>pr_vendor := o', pr_mem := m'\<rparr>"
  have run: "clara_clCreateBuffer vd pr (?params\<lparr>er_retval := 0\<rparr>)
      (translated (real_of pr) (ARGS [1, 4, 5]) (fi_argc fni) ?args) =
      Inr (?pr1, ?params\<lparr>er_retval := real\<rparr>, [oe_real e, flags, sz, 0, 0])"
    unfolding args' using vd(1) by (simp add: clara_clCreateBuffer_def object_call_def argv_def argv0_def)
  have chan: "lk_inp k (co_sd co) \<noteq> inp" "lk_inp k (co_sd co) \<noteq> out" "lk_inp k (cn_sd cn) \<noteq> inp"
    "lk_inp k (cn_sd cn) \<noteq> out" "lk_inp k (cn_sd cn) \<noteq> lk_inp k (co_sd co)" "out \<noteq> inp"
    using sv j by (auto simp: apart_def joined_def served_def)
  let ?P = "\<lambda>s ag'. \<exists>pr2 pr3. moves k s (ag_net ag') inp ms' out [req, enc16 CLARA_MSG_MAPPING @ mapping] \<and>
      pr_handle_execute pnet vd pr ?msg from = Inr pr2 \<and>
      adds pk (pr_net pr) (pr_net pr2) (lk_out pk (pr_sd pr) from) [exec_resp real] \<and>
      handle_mapping pr2 mapping = Inr pr3 \<and>
      object_table ag' key = Some \<lparr>oe_real = real, oe_provider = v, oe_consumer = i, oe_refcnt = 1\<rparr> \<and>
      object_inv ag' \<and> pr_inv pr3 \<and> agrees ag' v pr3"
  have call: "\<exists>ag'. agent_execute (sy_net sy) (sy_lzo sy) fuel rs (ag\<lparr>ag_net := s\<rparr>) ?msg 0 i = Inr (ag', key, True) \<and>
      lk_ok k (ag_net ag') \<and> same_sockets ag ag' \<and> ?P s ag'"
    if s: "leaves k (ag_net ag) s (lk_inp k (co_sd co)) ms" for s
  proof -
    let ?ag = "ag\<lparr>ag_net := s\<rparr>"
    have a: "object_inv ?ag" "object_room ?ag" "served k ?ag v pv out inp" "ag_consumer_heap ?ag i = Some co"
      "object_table ?ag (er_hint ?params) = Some e" "key \<notin> pool_ids (ag_id_pool ?ag)" "agrees ?ag v pr"
      using inv co ctx key pr(4) served_leaves [OF sv(1) s] by (simp_all add: object_inv_net object_room_def agrees_def)
    have len: "fi_argc fni \<le> length ?args" "26 + 8 * length ?args \<le> lk_lim k"
      using fni(2) w(1) by (simp_all add: works_def BLOCKSIZE_def)
    have resp: "lk_queue k (ag_net ?ag) inp = (enc16 CLARA_MSG_EXECUTE_RESPONSE @ enc64 real) # ms'"
      using q(2) s chan by (simp add: leaves_def exec_resp_def)
    have cr: "creates CL_CREATEBUFFER" "er_fun ?params = of_nat (cl_value CL_CREATEBUFFER)"
      by (simp_all add: creates_def)
    from create_call_full [OF a(1,2) worksD(1) [OF w(1)] w(2) a(3,4) co(2) a(5) ctx(2) cr fni(1) len resp vd(2) key(1) a(6),
        of "sy_lzo sy" fuel] obtain ag' where
      ag': "agent_execute (sy_net sy) (sy_lzo sy) fuel rs ?ag ?msg 0 i = Inr (ag', key, True)"
        "object_table ag' key = Some \<lparr>oe_real = real, oe_provider = v, oe_consumer = i, oe_refcnt = 1\<rparr>"
        "moves k s (ag_net ag') inp ms' out [req, enc16 CLARA_MSG_MAPPING @ mapping]" "same_sockets ?ag ag'"
      unfolding req_def exec_req_def mapping_def by auto
    have resp': "lk_queue k (ag_net ?ag) inp =
        (enc16 CLARA_MSG_EXECUTE_RESPONSE @ enc64 (er_retval (?params\<lparr>er_retval := real\<rparr>))) # ms'"
      "er_retval (?params\<lparr>er_retval := real\<rparr>) \<noteq> 0" using resp vd(2) by simp_all
    from create_agreement_correct [OF a(1,2) worksD(1) [OF w(1)] w(2) a(3,4) co(2) a(5) ctx(2) cr fni(1) len key(1) a(6)
        pr(1-3) a(7) pr(5) entry known run pnet resp', of "sy_lzo sy" fuel "from"]
    have "\<exists>pr2 pr3. pr_handle_execute pnet vd pr ?msg from = Inr pr2 \<and>
      adds pk (pr_net pr) (pr_net pr2) (lk_out pk (pr_sd pr) from) [exec_resp real] \<and>
      handle_mapping pr2 mapping = Inr pr3 \<and> object_inv ag' \<and> pr_inv pr3 \<and> agrees ag' v pr3"
      unfolding ag'(1) mapping_def exec_resp_def by auto
    with ag' show ?thesis by (auto simp: moves_def same_sockets_def)
  qed
  have "10 \<le> lk_lim k" "24 + 8 * length ?args \<le> AGENT_RECVBUFSZ"
    using w(1) by (simp_all add: works_def BLOCKSIZE_def AGENT_RECVBUFSZ_def)
  from step_execute [OF worksD(1) [OF w(1)] this(1) j co(1) i _ q(1) this(2), of "sy_lzo sy" fuel rs key ?P ev, OF _ call] sv(1)
  obtain s ag' s' where
    st: "leaves k (ag_net ag) s (lk_inp k (co_sd co)) ms" "?P s ag'"
      "consumer_step (sy_net sy) (sy_lzo sy) fuel ev rs ag i = Inr (Some (ag'\<lparr>ag_net := s'\<rparr>, False))"
      "adds k (ag_net ag') s' (lk_inp k (cn_sd cn)) [exec_resp key]" by (auto simp: served_def)
  have d: "drop 2 req = ?msg" by (simp add: req_def exec_req_def)
  from st(2) obtain pr2 pr3 where
    p: "moves k s (ag_net ag') inp ms' out [req, enc16 CLARA_MSG_MAPPING @ mapping]"
      "pr_handle_execute pnet vd pr (drop 2 req) from = Inr pr2"
      "adds pk (pr_net pr) (pr_net pr2) (lk_out pk (pr_sd pr) from) [exec_resp real]"
      "handle_mapping pr2 mapping = Inr pr3"
      "object_table ag' key = Some \<lparr>oe_real = real, oe_provider = v, oe_consumer = i, oe_refcnt = 1\<rparr>"
      "object_inv ag'" "pr_inv pr3" "agrees ag' v pr3" unfolding d by blast
  have "lk_queue k s' = (lk_queue k (ag_net ag))(lk_inp k (co_sd co) := ms, inp := ms',
      out := lk_queue k (ag_net ag) out @ [req, enc16 CLARA_MSG_MAPPING @ mapping],
      lk_inp k (cn_sd cn) := lk_queue k (ag_net ag) (lk_inp k (cn_sd cn)) @ [exec_resp key])"
    using st(1,4) p(1) chan by (auto simp: leaves_def moves_def adds_def fun_eq_iff)
  then show ?thesis
    using st(3) p create_buffer_talks [OF w(1) ctx0, of flags sz m key]
    by (intro exI [of _ "ag'\<lparr>ag_net := s'\<rparr>"] exI [of _ pr2] exI [of _ pr3])
       (simp add: object_inv_net agrees_def req_def)
qed

section \<open>Releasing it\<close>

text \<open>A status travels as a sign-extended 64-bit value.\<close>

lemma status_there_and_back: "ucast (scast (x :: u32) :: arg) = x"
  by (rule bit_word_eqI) (auto simp: bit_simps)

lemma release_buffer_whole:
  fixes pr :: "('m, 'o) clara_provider"
  assumes w: "works sy k cn" and j: "joined k cn (co_sd co)"
    and inv: "object_inv ag" "object_room ag" and co: "ag_consumer_heap ag i = Some co" "co_attached co"
    and sv: "served k ag v pv out inp" "apart k cn (co_sd co) out inp"
    and ob: "object_table ag b = Some e" "oe_provider e = v" "oe_refcnt e = 1"
    and pr: "pr_inv pr" "pr_room pr" "vendor_ok vd" "agrees ag v pr"
    and vd: "vd_status vd CL_RELEASEMEMOBJECT [oe_real e] (pr_vendor pr) (pr_mem pr) = (status, o', m')"
    and pnet: "reliable pnet pk" "lk_ok pk (pr_net pr)" "10 \<le> lk_lim pk"
    and q: "lk_queue k (ag_net ag) (lk_inp k (co_sd co)) = exec_req CL_RELEASEMEMOBJECT b [b] # ms"
      "lk_queue k (ag_net ag) inp = exec_resp (scast status) # ms'"
  defines "req \<equiv> exec_req CL_RELEASEMEMOBJECT b [b]"
  shows "\<exists>ag' pr2.
    talks k cn (clReleaseMemObject sy b) m [exec_resp (scast status)] [req] m status \<and>
    consumer_step (sy_net sy) (sy_lzo sy) fuel ev rs ag i = Inr (Some (ag', False)) \<and>
    lk_queue k (ag_net ag') = (lk_queue k (ag_net ag))(lk_inp k (co_sd co) := ms, inp := ms',
      out := lk_queue k (ag_net ag) out @ [req],
      lk_inp k (cn_sd cn) := lk_queue k (ag_net ag) (lk_inp k (cn_sd cn)) @ [exec_resp (scast status)]) \<and>
    pr_handle_execute pnet vd pr (drop 2 req) from = Inr pr2 \<and>
    adds pk (pr_net pr) (pr_net pr2) (lk_out pk (pr_sd pr) from) [exec_resp (scast status)] \<and>
    object_table ag' = (object_table ag)(b := None) \<and>
    pool_ids (ag_id_pool ag') = pool_ids (ag_id_pool ag) - {b} \<and> pr_ids pr2 b = Some (oe_real e) \<and>
    object_inv ag' \<and> pr_inv pr2 \<and> agrees ag' v pr2"
proof -
  let ?params = "\<lparr>er_hint = b, er_fun = of_nat (cl_value CL_RELEASEMEMOBJECT), er_retval = 0\<rparr>"
  let ?msg = "enc_execute_request ?params @ enc_args [b]"
  obtain fni where fni: "opencl_get_clfuninfo CL_RELEASEMEMOBJECT = Inr fni" "fi_argc fni = 1"
    by (simp add: opencl_get_clfuninfo_def clfuninfo_rows_def cl_value_def cl_functions_def)
  have b0: "b \<noteq> 0" using object_table_pool(2) [OF inv(1) ob(1)] .
  have i: "0 < i" using object_invD(6) [OF inv(1) co(1)] by simp
  have entry: "map_of (exec_fun_table_entries vd :: (cl_function_t \<times> ('m, 'o) clara_provider fun_entry) list)
      CL_RELEASEMEMOBJECT = Some (entry (clara_clReleaseMemObject vd) [1])"
    by (simp add: exec_fun_table_entries_def)
  have real_b: "pr_ids pr b = Some (oe_real e)" using pr(4) ob by (simp add: agrees_def)
  have known: "pr_ids pr ([b] ! j) \<noteq> None" if "j < fi_argc fni" "[b] ! j \<noteq> 0" "bit (ARGS [1]) j" for j
    using that fni(2) real_b by simp
  have args': "translated (real_of pr) (ARGS [1]) (fi_argc fni) [b] = [oe_real e]"
    using b0 real_b fni(2) by (simp add: translated_def real_of_def ARGS_def bit_simps upt_rec)
  let ?pr1 = "pr\<lparr>pr_vendor := o', pr_mem := m'\<rparr>"
  have run: "clara_clReleaseMemObject vd pr (?params\<lparr>er_retval := 0\<rparr>)
      (translated (real_of pr) (ARGS [1]) (fi_argc fni) [b]) = Inr (?pr1, ?params\<lparr>er_retval := scast status\<rparr>, [oe_real e])"
    unfolding args' using vd(1) by (simp add: clara_clReleaseMemObject_def status_call_def argv_def argv0_def)
  have k1: "pr_keeps pr ?pr1" by (rule table_handler_keeps [OF pr(3) entry run])
  have ids1: "pr_ids ?pr1 = pr_ids pr" "pr_inv ?pr1" using k1 pr(1,2) by (simp_all add: pr_keeps_def)
  have argc: "fi_argc fni \<le> length [b]" using fni(2) by simp
  have "lk_ok pk (pr_net ?pr1)" using pnet(2) by simp
  from provider_execute [OF pr(1) entry _ fni(1) argc known run pnet(1) this pnet(3), of "from"] obtain s2 where
    s2: "pr_handle_execute pnet vd pr ?msg from = Inr (?pr1\<lparr>pr_net := s2\<rparr>)"
      "adds pk (pr_net pr) s2 (lk_out pk (pr_sd pr) from) [exec_resp (scast status)]"
    by (auto simp: exec_resp_def)
  have chan: "lk_inp k (co_sd co) \<noteq> inp" "lk_inp k (co_sd co) \<noteq> out" "lk_inp k (cn_sd cn) \<noteq> inp"
    "lk_inp k (cn_sd cn) \<noteq> out" "lk_inp k (cn_sd cn) \<noteq> lk_inp k (co_sd co)" "out \<noteq> inp"
    using sv j by (auto simp: apart_def joined_def served_def)
  let ?P = "\<lambda>s ag'. moves k s (ag_net ag') inp ms' out [req] \<and> object_table ag' = (object_table ag)(b := None) \<and>
      pool_ids (ag_id_pool ag') = pool_ids (ag_id_pool ag) - {b} \<and> object_inv ag'"
  have call: "\<exists>ag'. agent_execute (sy_net sy) (sy_lzo sy) fuel rs (ag\<lparr>ag_net := s\<rparr>) ?msg 0 i =
      Inr (ag', scast status, True) \<and> lk_ok k (ag_net ag') \<and> same_sockets ag ag' \<and> ?P s ag'"
    if s: "leaves k (ag_net ag) s (lk_inp k (co_sd co)) ms" for s
  proof -
    let ?ag = "ag\<lparr>ag_net := s\<rparr>"
    have a: "object_inv ?ag" "object_room ?ag" "served k ?ag v pv out inp" "ag_consumer_heap ?ag i = Some co"
      "object_table ?ag (er_hint ?params) = Some e" "object_table ?ag (argv [b] 1) = Some e"
      using inv co ob served_leaves [OF sv(1) s] by (simp_all add: object_inv_net object_room_def argv_def)
    have rel: "releases CL_RELEASEMEMOBJECT" "er_fun ?params = of_nat (cl_value CL_RELEASEMEMOBJECT)"
      "26 + 8 * length [b] \<le> lk_lim k" using w by (simp_all add: releases_def works_def BLOCKSIZE_def)
    have resp: "lk_queue k (ag_net ?ag) inp = (enc16 CLARA_MSG_EXECUTE_RESPONSE @ enc64 (scast status)) # ms'"
      using q(2) s chan by (simp add: leaves_def exec_resp_def)
    from release_call_full [OF a(1,2) worksD(1) [OF w] a(3,4) co(2) a(5) ob(2) rel(1,2) fni(1) argc rel(3) resp a(6) ob(3),
        of "sy_lzo sy" fuel rs] show ?thesis
      by (auto simp: object_inv_net argv_def argv0_def CL_SUCCESS_def req_def exec_req_def moves_def same_sockets_def)
  qed
  have "10 \<le> lk_lim k" "24 + 8 * length [b] \<le> AGENT_RECVBUFSZ"
    using w by (simp_all add: works_def BLOCKSIZE_def AGENT_RECVBUFSZ_def)
  from step_execute [OF worksD(1) [OF w] this(1) j co(1) i _ q(1) this(2), of "sy_lzo sy" fuel rs "scast status" ?P ev, OF _ call] sv(1)
  obtain s ag' s' where
    st: "leaves k (ag_net ag) s (lk_inp k (co_sd co)) ms" "?P s ag'"
      "consumer_step (sy_net sy) (sy_lzo sy) fuel ev rs ag i = Inr (Some (ag'\<lparr>ag_net := s'\<rparr>, False))"
      "adds k (ag_net ag') s' (lk_inp k (cn_sd cn)) [exec_resp (scast status)]" by (auto simp: served_def)
  have d: "drop 2 req = ?msg" by (simp add: req_def exec_req_def)
  have "talks k cn (clReleaseMemObject sy b) m [exec_resp (scast status)] [req] m (ucast (scast status :: arg))"
    unfolding clReleaseMemObject_def req_def by (rule object_status_call_correct [OF w b0]) (simp add: argc_oks)
  then have t: "talks k cn (clReleaseMemObject sy b) m [exec_resp (scast status)] [req] m status"
    by (simp add: status_there_and_back)
  have "lk_queue k s' = (lk_queue k (ag_net ag))(lk_inp k (co_sd co) := ms, inp := ms',
      out := lk_queue k (ag_net ag) out @ [req],
      lk_inp k (cn_sd cn) := lk_queue k (ag_net ag) (lk_inp k (cn_sd cn)) @ [exec_resp (scast status)])"
    using st(1,2,4) chan by (auto simp: leaves_def moves_def adds_def fun_eq_iff)
  moreover have "agrees (ag'\<lparr>ag_net := s'\<rparr>) v (?pr1\<lparr>pr_net := s2\<rparr>)"
    using agrees_drop [OF pr(4), of ag' b] agrees_keeps [of ag' v pr "?pr1\<lparr>pr_net := s2\<rparr>"] st(2) ids1(1)
    by (simp add: agrees_def object_inv_net)
  ultimately show ?thesis
    using st(2,3) s2 t ids1 real_b d
    by (intro exI [of _ "ag'\<lparr>ag_net := s'\<rparr>"] exI [of _ "?pr1\<lparr>pr_net := s2\<rparr>"]) (simp add: object_inv_net)
qed

end
