(* ===== verification/Whole_Memory.thy ===== *)
theory Whole_Memory
  imports Whole_Calls
begin

text \<open>
  Memory at a provider, through all three processes. What the application copies into an
  allocation travels as one stream to the agent, which passes the blocks on unread, and stands in
  the provider's block byte for byte. What it fetches comes back the same way, and the
  allocation is gone.
\<close>

section \<open>The agent passes streams on\<close>

lemma provider_lock_consumers: "provider_lock ag v = Inr ag1 \<Longrightarrow> ag_consumer_heap ag1 = ag_consumer_heap ag"
  by (auto simp: provider_lock_def fault_simps put_provider_def split: if_splits)

lemma agent_forward_memput_correct:
  assumes net: "reliable net k" "BLOCKSIZE \<le> lk_lim k" and sv: "served k ag v pv out inp"
    and co: "ag_consumer_heap ag i = Some co" "0 < i" and diff: "lk_inp k (co_sd co) \<noteq> out"
    and fuel: "stream_fuel bss fuel" and len: "\<forall>blk\<in>set bss. length blk < 2 ^ 64"
    and q: "lk_queue k (ag_net ag) (lk_inp k (co_sd co)) = stream_wire p bss @ ms"
  shows "\<exists>s'. agent_forward_memput net fuel ag i v params = Inr (ag\<lparr>ag_net := s'\<rparr>) \<and>
    moves k (ag_net ag) s' (lk_inp k (co_sd co)) ms out
      ((enc16 CLARA_MSG_MEMPUT_STREAM @ enc_memput params) # stream_wire p bss)"
proof -
  note sv = sv [unfolded served_def]
  from agent_lock_cycle [of v ag pv] sv obtain ag1 pv1 where
    ag1: "provider_lock ag v = Inr ag1" "ag_net ag1 = ag_net ag" "ag_provider_heap ag1 v = Some pv1"
      "pv_sd pv1 = pv_sd pv" "pv_addr pv1 = pv_addr pv"
      "\<And>s. provider_unlock (ag1\<lparr>ag_net := s\<rparr>) v = Inr (ag\<lparr>ag_net := s\<rparr>)" by auto
  have co1: "ag_consumer_heap ag1 i = Some co" using provider_lock_consumers [OF ag1(1)] co(1) by simp
  have "length (enc_memput params) + 2 \<le> lk_lim k" using net(2) by (simp add: enc_memput_def BLOCKSIZE_def)
  from sendmsg_adds [OF net(1) _ this, of "ag_net ag" "pv_sd pv" CLARA_MSG_MEMPUT_STREAM "pv_addr pv"] sv
  obtain s1 where
    s1: "clara_sendmsg net (ag_net ag) (pv_sd pv) CLARA_MSG_MEMPUT_STREAM (enc_memput params) (pv_addr pv) =
        Inr (s1, Some (length (enc_memput params)))"
      "adds k (ag_net ag) s1 out [enc16 CLARA_MSG_MEMPUT_STREAM @ enc_memput params]" by auto
  have "lk_ok k s1" "lk_queue k s1 (lk_inp k (co_sd co)) = stream_wire p bss @ ms"
    using s1(2) q diff by (auto simp: adds_def)
  moreover have "lk_inp k (co_sd co) \<noteq> lk_out k (pv_sd pv) (pv_addr pv)" using diff sv by simp
  ultimately obtain s2 where
    s2: "stream_forward net fuel s1 (co_sd co) (pv_sd pv) (pv_addr pv) = Inr (s2, length (concat bss))"
      "moves k s1 s2 (lk_inp k (co_sd co)) ms out (stream_wire p bss)"
    using stream_forward_correct [OF net(1) _ _ net(2) fuel _ len] sv by metis
  have "moves k (ag_net ag) s2 (lk_inp k (co_sd co)) ms out
      ((enc16 CLARA_MSG_MEMPUT_STREAM @ enc_memput params) # stream_wire p bss)"
    using s1(2) s2(2) diff by (auto simp: adds_def moves_def)
  moreover have "agent_forward_memput net fuel ag i v params = Inr (ag\<lparr>ag_net := s2\<rparr>)"
    using ag1 s1(1) s2(1) sv co1 co(2) by (simp add: agent_forward_memput_def deref_live)
  ultimately show ?thesis by blast
qed

lemma agent_forward_fetch_correct:
  assumes net: "reliable net k" "BLOCKSIZE \<le> lk_lim k" and sv: "served k ag v pv out inp"
    and co: "ag_consumer_heap ag i = Some co" "0 < i"
    and chan: "lk_out k (co_sd co) (co_addr co) = c" "c \<noteq> out" "c \<noteq> inp"
    and fuel: "stream_fuel bss fuel" and len: "\<forall>blk\<in>set bss. length blk < 2 ^ 64" and size: "fr_size params > 0"
    and q: "lk_queue k (ag_net ag) inp = (enc16 CLARA_MSG_FETCH_RESPONSE @ enc64 n) # stream_wire p bss @ ms"
  shows "\<exists>s'. agent_forward_fetch net fuel ag i v params = Inr (ag\<lparr>ag_net := s'\<rparr>) \<and> lk_ok k s' \<and>
    lk_queue k s' = (lk_queue k (ag_net ag))(inp := ms,
      out := lk_queue k (ag_net ag) out @ [enc16 CLARA_MSG_FETCH_REQUEST @ enc_fetch_request params],
      c := lk_queue k (ag_net ag) c @ (enc16 CLARA_MSG_FETCH_RESPONSE @ enc64 n) # stream_wire p bss)"
proof -
  note sv = sv [unfolded served_def]
  from agent_lock_cycle [of v ag pv] sv obtain ag1 pv1 where
    ag1: "provider_lock ag v = Inr ag1" "ag_net ag1 = ag_net ag" "ag_provider_heap ag1 v = Some pv1"
      "pv_sd pv1 = pv_sd pv" "pv_addr pv1 = pv_addr pv"
      "\<And>s. provider_unlock (ag1\<lparr>ag_net := s\<rparr>) v = Inr (ag\<lparr>ag_net := s\<rparr>)" by auto
  have co1: "ag_consumer_heap ag1 i = Some co" using provider_lock_consumers [OF ag1(1)] co(1) by simp
  have lim: "length (enc_fetch_request params) + 2 \<le> lk_lim k" "length (enc64 n) + 2 \<le> lk_lim k"
    using net(2) by (simp_all add: BLOCKSIZE_def)
  from sendmsg_adds [OF net(1) _ lim(1), of "ag_net ag" "pv_sd pv" CLARA_MSG_FETCH_REQUEST "pv_addr pv"] sv
  obtain s1 where
    s1: "clara_sendmsg net (ag_net ag) (pv_sd pv) CLARA_MSG_FETCH_REQUEST (enc_fetch_request params) (pv_addr pv) =
        Inr (s1, Some (length (enc_fetch_request params)))"
      "adds k (ag_net ag) s1 out [enc16 CLARA_MSG_FETCH_REQUEST @ enc_fetch_request params]" by auto
  have "lk_ok k s1" "lk_queue k s1 (lk_inp k (pv_sd pv)) =
      (enc16 CLARA_MSG_FETCH_RESPONSE @ enc64 n) # stream_wire p bss @ ms" "length (enc64 n) \<le> 8"
    using s1(2) q sv by (auto simp: adds_def)
  from recvmsg_leaves [OF net(1) this, of CLARA_MSG_FETCH_RESPONSE] obtain s2 fr where
    s2: "clara_recvmsg net s1 (pv_sd pv) CLARA_MSG_FETCH_RESPONSE 8 = Inr (s2, Some \<lparr>cm_type = CLARA_MSG_FETCH_RESPONSE,
      cm_bytes = enc64 n, cm_from = fr, cm_notification = False\<rparr>)" "leaves k s1 s2 inp (stream_wire p bss @ ms)"
    using sv by auto
  then have "lk_ok k s2" by (simp add: leaves_def)
  from sendmsg_adds [OF net(1) this lim(2), of "co_sd co" CLARA_MSG_FETCH_RESPONSE "co_addr co"] chan(1) obtain s3 where
    s3: "clara_sendmsg net s2 (co_sd co) CLARA_MSG_FETCH_RESPONSE (enc64 n) (co_addr co) = Inr (s3, Some (length (enc64 n)))"
      "adds k s2 s3 c [enc16 CLARA_MSG_FETCH_RESPONSE @ enc64 n]" by auto
  have "lk_ok k s3" "lk_queue k s3 (lk_inp k (pv_sd pv)) = stream_wire p bss @ ms"
    "lk_inp k (pv_sd pv) \<noteq> lk_out k (co_sd co) (co_addr co)"
    using s2(2) s3(2) chan sv by (auto simp: adds_def leaves_def)
  from stream_forward_correct [OF net(1) this(1,3) net(2) fuel this(2) len] obtain s4 where
    s4: "stream_forward net fuel s3 (pv_sd pv) (co_sd co) (co_addr co) = Inr (s4, length (concat bss))"
      "moves k s3 s4 inp ms c (stream_wire p bss)" using chan(1) sv by auto
  have "agent_forward_fetch net fuel ag i v params = Inr (ag\<lparr>ag_net := s4\<rparr>)"
    using ag1 s1(1) s2(1) s3(1) s4(1) sv co1 co(2) size by (simp add: agent_forward_fetch_def deref_live)
  moreover have "lk_ok k s4 \<and> lk_queue k s4 = (lk_queue k (ag_net ag))(inp := ms,
      out := lk_queue k (ag_net ag) out @ [enc16 CLARA_MSG_FETCH_REQUEST @ enc_fetch_request params],
      c := lk_queue k (ag_net ag) c @ (enc16 CLARA_MSG_FETCH_RESPONSE @ enc64 n) # stream_wire p bss)"
    using s1(2) s2(2) s3(2) s4(2) chan sv by (auto simp: adds_def leaves_def moves_def fun_eq_iff)
  ultimately show ?thesis by blast
qed

section \<open>The provider's block\<close>

lemma dec_memput_enc [simp]: "dec_memput (enc_memput p) = p" "length (enc_memput p) = 32"
  by (simp_all add: dec_memput_def enc_memput_def dec_enc)

lemma pr_handle_memput_correct:
  assumes inv: "pr_inv pr" and old: "pr_buffers pr (mp_dst mpp) = Some old"
    and data: "length data = unat (mp_length mpp)" "unat (mp_offset mpp) + length data \<le> length old"
    and net: "reliable net k" "lk_ok k (pr_net pr)" and lz: "lzo_ok lz" and p: "opts_ok p"
    and fuel: "stream_fuel (wire_blocks lz p data) fuel"
    and q: "lk_queue k (pr_net pr) (lk_inp k (pr_sd pr)) = stream_wire p (wire_blocks lz p data) @ ms"
  shows "\<exists>pr'. pr_handle_memput net lz fuel pr (enc_memput mpp) = Inr pr' \<and> pr_inv pr' \<and> pr_ids pr' = pr_ids pr \<and>
    pr_buffers pr' = (pr_buffers pr)(mp_dst mpp \<mapsto>
      take (unat (mp_offset mpp)) old @ data @ drop (unat (mp_offset mpp) + length data) old) \<and>
    leaves k (pr_net pr) (pr_net pr') (lk_inp k (pr_sd pr)) ms"
proof -
  let ?h = "mp_dst mpp" and ?off = "unat (mp_offset mpp)"
  let ?new = "take ?off old @ data @ drop (?off + length data) old"
  from old obtain a where a: "pr_owns pr ?h a" "mm_blocks (pr_mem pr) (al_ptr a) = Some old"
    by (auto simp: pr_buffers_def pr_owns_def split: option.splits)
  have ok: "al_ptr a \<noteq> 0" "al_ptr a < 2 ^ 64" "pr_ids pr ?h = Some (PTR2ARG (al_ptr a))"
    using pr_invD(5) [OF inv a(1)] by (auto simp: pr_alloc_ok_def)
  from ok(3) obtain x where x: "set_map (pr_id_map pr) ?h = Some x" "m_real x = PTR2ARG (al_ptr a)"
    by (auto simp: pr_ids_def split: option.splits)
  have ptr: "ARG2PTR (m_real x) = al_ptr a" using ok(2) x(2) by (simp add: ARG2PTR_PTR2ARG)
  from stream_recv_correct [OF net lz p fuel q] data(1) obtain s where
    s: "stream_recv net lz fuel (pr_net pr) (pr_sd pr) (unat (mp_length mpp)) = Inr (s, data)"
      "leaves k (pr_net pr) s (lk_inp k (pr_sd pr)) ms" by auto
  have find: "mapping_find_by_virt (pr_id_map pr) ?h = Inr (Some x)"
    using mapping_find_by_virt_correct [OF pr_invD(2) [OF inv]] x(1) by simp
  let ?m = "(pr_mem pr)\<lparr>mm_blocks := (mm_blocks (pr_mem pr))(al_ptr a \<mapsto> ?new)\<rparr>"
  let ?pr' = "pr\<lparr>pr_net := s, pr_mem := ?m\<rparr>"
  have run: "pr_handle_memput net lz fuel pr (enc_memput mpp) = Inr ?pr'"
    using find s(1) ptr ok(1) a(2) data(2)
    by (cases "data = []") (auto simp: pr_handle_memput_def Let_def mem_write_def mem_block_def fun_upd_idem)
  have "pr_buffers ?pr' = (pr_buffers pr)(?h \<mapsto> ?new)"
  proof
    fix h
    show "pr_buffers ?pr' h = ((pr_buffers pr)(?h \<mapsto> ?new)) h"
    proof (cases "set_map (pr_allocations pr) h")
      case None
      with a(1) show ?thesis by (auto simp: pr_buffers_def pr_owns_def)
    next
      case (Some b)
      then have "al_ptr b = al_ptr a \<Longrightarrow> h = ?h" using pr_invD(6) [OF inv _ a(1), of h b] by (simp add: pr_owns_def)
      moreover have "h = ?h \<Longrightarrow> b = a" using Some a(1) by (simp add: pr_owns_def)
      ultimately show ?thesis using Some by (cases "h = ?h") (auto simp: pr_buffers_def)
    qed
  qed
  moreover have "pr_ids ?pr' = pr_ids pr" by (simp add: pr_ids_def fun_eq_iff)
  moreover have "pr_inv ?pr'" by (rule handle_memput_inv [OF inv run])
  ultimately show ?thesis using run s(2) by auto
qed

section \<open>Putting\<close>

lemma put_whole:
  fixes pr :: "('m, 'o) clara_provider"
  assumes w: "works sy k cn" and j: "joined k cn (co_sd co)"
    and inv: "object_inv ag" and co: "ag_consumer_heap ag i = Some co" "co_attached co"
    and sv: "served k ag v pv out inp" "apart k cn (co_sd co) out inp"
    and ob: "object_table ag hint = Some e" "oe_provider e = v"
    and src: "room m src (unat n)" "bytes = block_at m src (unat n)" "streamable sy n bytes"
    and pr: "pr_inv pr" "pr_buffers pr h = Some old" "unat n \<le> length old"
    and pnet: "reliable pnet pk" "lk_ok pk (pr_net pr)"
    and fuel: "stream_fuel (wire_blocks (sy_lzo sy) (consumer_opts n) bytes) fuel"
    and q: "lk_queue k (ag_net ag) (lk_inp k (co_sd co)) = memput_msg h n hint # data_stream sy n bytes @ ms"
      "lk_queue pk (pr_net pr) (lk_inp pk (pr_sd pr)) = data_stream sy n bytes @ ms'"
  shows "\<exists>s pr'.
    talks k cn (consumer_memcpy sy h src n hint) m [] (memput_msg h n hint # data_stream sy n bytes) m True \<and>
    consumer_step (sy_net sy) (sy_lzo sy) fuel ev rs ag i = Inr (Some (ag\<lparr>ag_net := s\<rparr>, False)) \<and>
    moves k (ag_net ag) s (lk_inp k (co_sd co)) ms out (memput_msg h n hint # data_stream sy n bytes) \<and>
    pr_handle_memput pnet (sy_lzo sy) fuel pr (drop 2 (memput_msg h n hint)) = Inr pr' \<and>
    leaves pk (pr_net pr) (pr_net pr') (lk_inp pk (pr_sd pr)) ms' \<and>
    pr_buffers pr' = (pr_buffers pr)(h \<mapsto> bytes @ drop (unat n) old) \<and> pr_ids pr' = pr_ids pr \<and> pr_inv pr'"
proof -
  let ?p = "\<lparr>mp_dst = h, mp_offset = 0, mp_length = n, mp_hint = hint\<rparr>"
  let ?bss = "wire_blocks (sy_lzo sy) (consumer_opts n) bytes" and ?A = "lk_inp k (co_sd co)"
  have i: "0 < i" using object_invD(6) [OF inv co(1)] by simp
  have msg: "memput_msg h n hint = enc16 CLARA_MSG_MEMPUT_STREAM @ enc_memput ?p"
    "drop 2 (memput_msg h n hint) = enc_memput ?p" by (simp_all add: memput_msg_def)
  have ok: "lk_ok k (ag_net ag)" using sv(1) by (simp add: served_def)
  have len: "\<forall>blk\<in>set ?bss. length blk < 2 ^ 64" using wire_blocks_length(2) [OF worksD(2) [OF w] consumer_opts_ok] by blast
  have chan: "?A \<noteq> out" "?A \<noteq> inp" using sv(2) by (auto simp: apart_def)
  have l: "length (enc_memput ?p) \<le> AGENT_RECVBUFSZ" by (simp add: AGENT_RECVBUFSZ_def)
  from consumer_step_receives [OF worksD(1) [OF w] ok co(1) i q(1) [unfolded msg(1)] l, of "sy_lzo sy" fuel ev rs] obtain s1 fr where
    s1: "leaves k (ag_net ag) s1 ?A (data_stream sy n bytes @ ms)"
      "consumer_step (sy_net sy) (sy_lzo sy) fuel ev rs ag i =
        consumer_message (sy_net sy) (sy_lzo sy) fuel ev rs (ag\<lparr>ag_net := s1\<rparr>) i
        \<lparr>cm_type = CLARA_MSG_MEMPUT_STREAM, cm_bytes = enc_memput ?p, cm_from = fr, cm_notification = False\<rparr>" by blast
  let ?ag = "ag\<lparr>ag_net := s1\<rparr>"
  have a: "object_inv ?ag" "ag_consumer_heap ?ag i = Some co" "object_table ?ag hint = Some e"
    "served k ?ag v pv out inp" "lk_queue k (ag_net ?ag) ?A = stream_wire (consumer_opts n) ?bss @ ms"
    using inv co ob served_leaves [OF sv(1) s1(1)] s1(1)
    by (simp_all add: object_inv_net leaves_def data_stream_def)
  have hp: "hinted_provider ?ag i hint = Inr v"
    using execute_owner [OF a(1,2) co(2) a(3)] ob(2) by (simp add: hinted_provider_def)
  from agent_forward_memput_correct [OF worksD(1,3) [OF w] a(4,2) i chan(1) fuel len a(5), of ?p] obtain s where
    s: "agent_forward_memput (sy_net sy) fuel ?ag i v ?p = Inr (ag\<lparr>ag_net := s\<rparr>)"
      "moves k s1 s ?A ms out (memput_msg h n hint # data_stream sy n bytes)"
    by (auto simp: msg(1) data_stream_def)
  have "handle_memput (sy_net sy) fuel ?ag i (enc_memput ?p) = Inr (ag\<lparr>ag_net := s\<rparr>)"
    using hp s(1) by (simp add: handle_memput_def Let_def)
  then have step: "consumer_step (sy_net sy) (sy_lzo sy) fuel ev rs ag i = Inr (Some (ag\<lparr>ag_net := s\<rparr>, False))"
    using s1(2) by (simp add: consumer_message_def message_type_distinct)
  have mv: "moves k (ag_net ag) s ?A ms out (memput_msg h n hint # data_stream sy n bytes)"
    using s1(1) s(2) chan by (auto simp: leaves_def moves_def)
  have lb: "length bytes = unat n" using streamable_length [OF src(3)] .
  from pr_handle_memput_correct [OF pr(1), of ?p old bytes pnet pk "sy_lzo sy" "consumer_opts n" fuel ms']
    pr(2,3) lb pnet worksD(2) [OF w] consumer_opts_ok fuel q(2)
  obtain pr' where "pr_handle_memput pnet (sy_lzo sy) fuel pr (enc_memput ?p) = Inr pr'" "pr_inv pr'"
    "pr_ids pr' = pr_ids pr" "pr_buffers pr' = (pr_buffers pr)(h \<mapsto> bytes @ drop (unat n) old)"
    "leaves pk (pr_net pr) (pr_net pr') (lk_inp pk (pr_sd pr)) ms'" by (auto simp: data_stream_def)
  with step mv talks_memcpy [OF w src(1), where h = h and hint = hint] src(2,3) show ?thesis
    unfolding msg(2) by blast
qed

section \<open>Fetching\<close>

lemma fetch_whole:
  fixes pr :: "('m, 'o) clara_provider"
  assumes w: "works sy k cn" and j: "joined k cn (co_sd co)"
    and inv: "object_inv ag" and co: "ag_consumer_heap ag i = Some co" "co_attached co"
    and sv: "served k ag v pv out inp" "apart k cn (co_sd co) out inp"
    and ob: "object_table ag hint = Some e" "oe_provider e = v"
    and dst: "room m dst (unat n)" "streamable sy n bytes" "n \<noteq> 0" "h \<noteq> 0"
    and pr: "pr_inv pr" "pr_room pr" "pr_buffers pr h = Some bytes"
    and pnet: "reliable pnet pk" "lk_ok pk (pr_net pr)" "BLOCKSIZE \<le> lk_lim pk"
    and fuel: "stream_fuel (wire_blocks (sy_lzo sy) (consumer_opts n) bytes) fuel"
    and q: "lk_queue k (ag_net ag) (lk_inp k (co_sd co)) = fetch_req h n hint # ms"
      "lk_queue k (ag_net ag) inp = fetch_resp sy n n bytes @ ms'"
  shows "\<exists>s pr'.
    talks k cn (consumer_fetch sy h dst n hint) m (fetch_resp sy n n bytes) [fetch_req h n hint] (overwrite m dst bytes) True \<and>
    consumer_step (sy_net sy) (sy_lzo sy) fuel ev rs ag i = Inr (Some (ag\<lparr>ag_net := s\<rparr>, False)) \<and>
    lk_queue k s = (lk_queue k (ag_net ag))(lk_inp k (co_sd co) := ms, inp := ms',
      out := lk_queue k (ag_net ag) out @ [fetch_req h n hint],
      lk_inp k (cn_sd cn) := lk_queue k (ag_net ag) (lk_inp k (cn_sd cn)) @ fetch_resp sy n n bytes) \<and>
    pr_handle_fetch pnet (sy_lzo sy) fuel pr (drop 2 (fetch_req h n hint)) = Inr pr' \<and>
    adds pk (pr_net pr) (pr_net pr') (lk_out pk (pr_sd pr) (pr_agent pr)) (fetch_resp sy n n bytes) \<and>
    pr_buffers pr' = (pr_buffers pr)(h := None) \<and> pr_ids pr' = (pr_ids pr)(h := None) \<and> pr_inv pr'"
proof -
  let ?r = "\<lparr>fr_handle = h, fr_size = n, fr_hint = hint, fr_stream_opts = consumer_opts n\<rparr>"
  let ?bss = "wire_blocks (sy_lzo sy) (consumer_opts n) bytes" and ?A = "lk_inp k (co_sd co)" and ?C = "lk_inp k (cn_sd cn)"
  have i: "0 < i" using object_invD(6) [OF inv co(1)] by simp
  have msg: "fetch_req h n hint = enc16 CLARA_MSG_FETCH_REQUEST @ enc_fetch_request ?r"
    "drop 2 (fetch_req h n hint) = enc_fetch_request ?r" by (simp_all add: fetch_req_def)
  have resp: "fetch_resp sy n n bytes = (enc16 CLARA_MSG_FETCH_RESPONSE @ enc64 n) # stream_wire (consumer_opts n) ?bss"
    using dst(3) by (simp add: fetch_resp_def data_stream_def)
  have ok: "lk_ok k (ag_net ag)" using sv(1) by (simp add: served_def)
  have len: "\<forall>blk\<in>set ?bss. length blk < 2 ^ 64" using wire_blocks_length(2) [OF worksD(2) [OF w] consumer_opts_ok] by blast
  have chan: "?A \<noteq> out" "?A \<noteq> inp" "?C \<noteq> out" "?C \<noteq> inp" "?C \<noteq> ?A" "out \<noteq> inp"
    using sv j by (auto simp: apart_def joined_def served_def)
  have toC: "lk_out k (co_sd co) (co_addr co) = ?C" using j by (simp add: joined_def)
  have l: "length (enc_fetch_request ?r) \<le> AGENT_RECVBUFSZ" by (simp add: AGENT_RECVBUFSZ_def)
  from consumer_step_receives [OF worksD(1) [OF w] ok co(1) i q(1) [unfolded msg(1)] l, of "sy_lzo sy" fuel ev rs] obtain s1 fr where
    s1: "leaves k (ag_net ag) s1 ?A ms"
      "consumer_step (sy_net sy) (sy_lzo sy) fuel ev rs ag i =
        consumer_message (sy_net sy) (sy_lzo sy) fuel ev rs (ag\<lparr>ag_net := s1\<rparr>) i
        \<lparr>cm_type = CLARA_MSG_FETCH_REQUEST, cm_bytes = enc_fetch_request ?r, cm_from = fr, cm_notification = False\<rparr>" by blast
  let ?ag = "ag\<lparr>ag_net := s1\<rparr>"
  have hint: "hint \<noteq> 0" using object_table_pool(2) [OF inv ob(1)] .
  have a: "object_inv ?ag" "ag_consumer_heap ?ag i = Some co" "object_table ?ag hint = Some e" "served k ?ag v pv out inp"
    "lk_queue k (ag_net ?ag) inp = (enc16 CLARA_MSG_FETCH_RESPONSE @ enc64 n) # stream_wire (consumer_opts n) ?bss @ ms'"
    using inv co ob served_leaves [OF sv(1) s1(1)] s1(1) q(2) chan(2)
    by (simp_all add: object_inv_net leaves_def resp)
  have hp: "hinted_provider ?ag i hint = Inr v"
    using execute_owner [OF a(1,2) co(2) a(3)] ob(2) by (simp add: hinted_provider_def)
  have size: "fr_size ?r > 0" using dst(3) by (simp add: word_neq_0_conv)
  from agent_forward_fetch_correct [OF worksD(1,3) [OF w] a(4,2) i toC chan(3,4) fuel len size a(5)] obtain s where
    s: "agent_forward_fetch (sy_net sy) fuel ?ag i v ?r = Inr (ag\<lparr>ag_net := s\<rparr>)"
      "lk_queue k s = (lk_queue k s1)(inp := ms', out := lk_queue k s1 out @ [fetch_req h n hint],
        ?C := lk_queue k s1 ?C @ fetch_resp sy n n bytes)" by (auto simp: msg(1) resp)
  have "handle_fetch (sy_net sy) (sy_lzo sy) fuel ?ag i (enc_fetch_request ?r) fr = Inr (ag\<lparr>ag_net := s\<rparr>)"
    using hp s(1) hint by (simp add: handle_fetch_def Let_def)
  then have step: "consumer_step (sy_net sy) (sy_lzo sy) fuel ev rs ag i = Inr (Some (ag\<lparr>ag_net := s\<rparr>, False))"
    using s1(2) by (simp add: consumer_message_def message_type_distinct)
  have queue: "lk_queue k s = (lk_queue k (ag_net ag))(?A := ms, inp := ms',
      out := lk_queue k (ag_net ag) out @ [fetch_req h n hint], ?C := lk_queue k (ag_net ag) ?C @ fetch_resp sy n n bytes)"
    using s1(1) s(2) chan by (auto simp: leaves_def fun_eq_iff)
  have lb: "of_nat (length bytes) = n" using streamable_length [OF dst(2)] by simp
  from pr_handle_fetch_correct [OF pr(1,2), of ?r bytes pnet pk "sy_lzo sy" fuel]
    pr(3) dst(3) consumer_opts_ok pnet worksD(2) [OF w] fuel
  obtain pr' where "pr_handle_fetch pnet (sy_lzo sy) fuel pr (enc_fetch_request ?r) = Inr pr'" "pr_inv pr'"
    "pr_ids pr' = (pr_ids pr)(h := None)" "pr_buffers pr' = (pr_buffers pr)(h := None)"
    "adds pk (pr_net pr) (pr_net pr') (lk_out pk (pr_sd pr) (pr_agent pr)) (fetch_resp sy n n bytes)"
    by (auto simp: lb resp)
  with step queue talks_fetch [OF w dst(4,2,1), where hint = hint and len = n] show ?thesis unfolding msg(2) by blast
qed

end
