(* ===== verification/Agent_Process.thy ===== *)
theory Agent_Process
  imports Provider_Handler Socket
begin

text \<open>
  The agent as a process: the start and the shutdown of \<^verbatim>\<open>agent/src/agent.c\<close> and the program of
  \<^verbatim>\<open>agent/src/main.c\<close> with its options. Signal handlers, which interrupt the program at any
  point, and what is printed are left out.
\<close>

section \<open>Start and shutdown\<close>

record agent_options =
  ao_addr :: string
  ao_port :: string
  ao_load_balancing :: bool
  ao_reverse_proxy :: bool

definition AGENT_DEFAULT_ADDR :: string where "AGENT_DEFAULT_ADDR = ''0.0.0.0''"
definition AGENT_BACKLOG :: nat where "AGENT_BACKLOG = 10"

text \<open>
  The result has the descriptor the agent keeps: 0, as \<^verbatim>\<open>calloc\<close> left it, when the address is
  refused, and a closed one when the socket cannot be bound or listened on.
\<close>

definition agent_startup ::
  "'s sockets \<Rightarrow> (string \<Rightarrow> u32 option) \<Rightarrow> agent_options \<Rightarrow> 's \<Rightarrow> 's \<times> sd \<times> bool"
where
  "agent_startup sk inet_pton opts s =
     (case clara_sockaddr inet_pton (Some (ao_addr opts)) (Some (ao_port opts)) of
        None \<Rightarrow> (s, 0, False)
      | Some addr \<Rightarrow>
          let (s1, sd) = clara_socket sk s
          in if sd = -1 then (s1, sd, False)
             else
               let (s2, bound) = sk_bind sk s1 sd addr
               in if \<not> bound then (fst (sk_close sk s2 sd), sd, False)
                  else
                    let (s3, listening) = sk_listen sk s2 sd AGENT_BACKLOG
                    in if \<not> listening then (fst (sk_close sk s3 sd), sd, False)
                       else (s3, sd, True))"

definition agent_shutdown :: "'s sockets \<Rightarrow> 's \<Rightarrow> sd \<Rightarrow> 's \<times> sd \<times> bool" where
  "agent_shutdown sk s sd =
     (if sd = -1 then (s, sd, False)
      else let (s1, ok) = sk_close sk s sd in if ok then (s1, -1, True) else (s1, sd, False))"

section \<open>The program\<close>

text \<open>The main loop, one admission per message, with the threads it has started.\<close>

fun agent_main_loop ::
  "'s sockets \<Rightarrow> 'n sctp \<Rightarrow> sd \<Rightarrow> admission list \<Rightarrow> 's \<Rightarrow> 'n agent \<Rightarrow>
    fault + ('s \<times> 'n agent \<times> agent_thread list \<times> nat)"
where
  "agent_main_loop sk net agent_sd [] s ag = Inl Out_Of_Fuel"
| "agent_main_loop sk net agent_sd (ad # ads) s ag =
     rbind (agent_main_step sk net ad s agent_sd ag) (\<lambda>(s1, ag1, thread, rc).
     if rc \<noteq> 0 then Inr (s1, ag1, (case thread of None \<Rightarrow> [] | Some t \<Rightarrow> [t]), rc)
     else
       rbind (agent_main_loop sk net agent_sd ads s1 ag1) (\<lambda>(s2, ag2, threads, rc').
       Inr (s2, ag2, (case thread of None \<Rightarrow> threads | Some t \<Rightarrow> t # threads), rc')))"

text \<open>
  At the end only the socket the agent listens on is closed. The sockets of its threads are not:
  a thread that ends calls \<^verbatim>\<open>shutdown\<close>, which leaves the descriptor open.
\<close>

definition agent_main ::
  "'s sockets \<Rightarrow> 'n sctp \<Rightarrow> admission list \<Rightarrow> 's \<Rightarrow> sd \<Rightarrow> 'n agent \<Rightarrow>
    fault + ('s \<times> 'n agent \<times> agent_thread list \<times> nat)"
where
  "agent_main sk net ads s sd ag =
     rbind (agent_main_loop sk net sd ads s ag) (\<lambda>(s1, ag', threads, rc).
     Inr (fst (agent_shutdown sk s1 sd), ag', threads, rc))"

text \<open>What \<^verbatim>\<open>getopt\<close> returns in turn, with \<^verbatim>\<open>optarg\<close>; any other character ends the program.\<close>

fun parse_options :: "(char \<times> string) list \<Rightarrow> agent_options \<Rightarrow> agent_options option" where
  "parse_options [] opts = Some opts"
| "parse_options ((c, optarg) # cs) opts =
     (if c = CHR ''b'' then parse_options cs (opts\<lparr>ao_load_balancing := True\<rparr>)
      else if c = CHR ''r'' then parse_options cs (opts\<lparr>ao_reverse_proxy := True\<rparr>)
      else if c = CHR ''a'' then parse_options cs (opts\<lparr>ao_addr := optarg\<rparr>)
      else if c = CHR ''p'' then parse_options cs (opts\<lparr>ao_port := optarg\<rparr>)
      else None)"

definition default_options :: agent_options where
  "default_options =
     \<lparr>ao_addr = AGENT_DEFAULT_ADDR, ao_port = CLARA_DEFAULT_PORT, ao_load_balancing = False, ao_reverse_proxy = False\<rparr>"

text \<open>The state of the sockets, the threads that were started and the exit code.\<close>

definition agent_program ::
  "'s sockets \<Rightarrow> (string \<Rightarrow> u32 option) \<Rightarrow> 'n sctp \<Rightarrow> (char \<times> string) list \<Rightarrow> admission list \<Rightarrow> 's \<Rightarrow> 'n \<Rightarrow>
    fault + ('s \<times> agent_thread list \<times> nat)"
where
  "agent_program sk inet_pton net getopts ads s n =
     (case parse_options getopts default_options of
        None \<Rightarrow> Inr (s, [], 1)
      | Some opts \<Rightarrow>
          rbind (agent_create n (ao_load_balancing opts) (ao_reverse_proxy opts)) (\<lambda>r.
          case r of
            None \<Rightarrow> Inr (s, [], 1)
          | Some ag \<Rightarrow>
              let (s1, sd, started) = agent_startup sk inet_pton opts s
              in if \<not> started then Inr (s1, [], 1)
                 else rbind (agent_main sk net ads s1 sd ag) (\<lambda>(s2, _, threads, rc). Inr (s2, threads, rc))))"

section \<open>The sockets that stay open\<close>

text \<open>
  What changes of the sockets: those of \<^verbatim>\<open>socket\<close> are the same again, and there are \<open>n\<close> or more
  new ones of \<^verbatim>\<open>sctp_peeloff\<close>.
\<close>

definition peels :: "('s \<Rightarrow> sd set) \<Rightarrow> ('s \<Rightarrow> sd set) \<Rightarrow> 's \<Rightarrow> 's \<Rightarrow> nat \<Rightarrow> bool" where
  "peels op pe s s' n \<longleftrightarrow>
     op s' - pe s' = op s - pe s \<and> pe s \<subseteq> pe s' \<and> finite (pe s' - pe s) \<and> n \<le> card (pe s' - pe s)"

lemma peels_refl: "peels op pe s s 0"
  by (simp add: peels_def)

lemma peels_trans:
  assumes "peels op pe s s' m" and "peels op pe s' s'' n"
  shows "peels op pe s s'' (m + n)"
proof -
  have "pe s'' - pe s = (pe s' - pe s) \<union> (pe s'' - pe s')" "(pe s' - pe s) \<inter> (pe s'' - pe s') = {}"
    using assms by (auto simp: peels_def)
  with assms show ?thesis by (auto simp: peels_def card_Un_disjoint)
qed

lemma sk_peeloff_peels:
  assumes "peeloff_ok sk op pe" and "sk_peeloff sk s a = (s', sd)"
  shows "peels op pe s s' (if sd = -1 then 0 else 1)"
proof (cases "sd = -1")
  case True
  then show ?thesis using peeloff_okD(2) [OF assms] by (simp add: peels_def)
next
  case False
  then have new: "sd \<notin> op s" "op s' = insert sd (op s)" "pe s' = insert sd (pe s)"
    using peeloff_okD(2) [OF assms] by auto
  then have "pe s' - pe s = {sd}" using peeloff_okD(1) [OF assms(1), of s] by auto
  with new False show ?thesis by (auto simp: peels_def)
qed

definition thread_count :: "agent_thread option \<Rightarrow> nat" where
  "thread_count t = (case t of None \<Rightarrow> 0 | Some _ \<Rightarrow> 1)"

lemma peels_less: "peels op pe s s' n \<Longrightarrow> m \<le> n \<Longrightarrow> peels op pe s s' m"
  by (auto simp: peels_def)

lemma admit_peels:
  assumes ok: "peeloff_ok sk op pe"
  shows "admit_provider sk s ag sd ad a = Inr (s', ag', type, sd', t) \<Longrightarrow> peels op pe s s' (thread_count t)"
    and "admit_consumer sk s ag sd ad a = Inr (s', ag', type, sd', t) \<Longrightarrow> peels op pe s s' (thread_count t)"
proof -
  obtain s1 d where p: "sk_peeloff sk s sd = (s1, d)" by fastforce
  have le: "peels op pe s s1 0" "d \<noteq> -1 \<Longrightarrow> peels op pe s s1 (Suc 0)"
    using sk_peeloff_peels [OF ok p] by (auto split: if_splits intro: peels_less)
  show "peels op pe s s' (thread_count t)" if "admit_provider sk s ag sd ad a = Inr (s', ag', type, sd', t)"
    using that le peels_refl [of op pe s] unfolding admit_provider_def p
    by (auto simp: fault_simps thread_count_def Let_def split: if_splits option.splits prod.splits)
  show "peels op pe s s' (thread_count t)" if "admit_consumer sk s ag sd ad a = Inr (s', ag', type, sd', t)"
    using that le unfolding admit_consumer_def p
    by (auto simp: fault_simps thread_count_def Let_def split: if_splits option.splits prod.splits)
qed

lemma agent_main_step_peels:
  assumes ok: "peeloff_ok sk op pe" and run: "agent_main_step sk net ad s sd ag = Inr (s', ag', t, rc)"
  shows "peels op pe s s' (thread_count t)"
proof -
  from run obtain n r where r: "clara_recvmsg net (ag_net ag) sd CLARA_MSG_INVALID AGENT_RECVBUFSZ = Inr (n, r)"
    by (auto simp: agent_main_step_def fault_simps)
  show ?thesis
  proof (cases r)
    case None
    then show ?thesis using run r by (auto simp: agent_main_step_def thread_count_def peels_refl)
  next
    case (Some m)
    then have "agent_main_message sk net ad s sd (ag\<lparr>ag_net := n\<rparr>) m = Inr (s', ag', t, rc)"
      using run r by (simp add: agent_main_step_def)
    then show ?thesis
      using admit_peels [OF ok] peels_refl [of op pe s]
      by (auto simp: agent_main_message_def fault_simps thread_count_def split: if_splits)
  qed
qed

lemma agent_main_loop_peels:
  assumes ok: "peeloff_ok sk op pe"
  shows "agent_main_loop sk net sd ads s ag = Inr (s', ag', threads, rc) \<Longrightarrow> peels op pe s s' (length threads)"
proof (induction ads arbitrary: s ag threads)
  case (Cons ad ads)
  from Cons.prems obtain s1 ag1 t rc1 where 1: "agent_main_step sk net ad s sd ag = Inr (s1, ag1, t, rc1)"
    by (auto simp: fault_simps)
  note p = agent_main_step_peels [OF ok 1]
  show ?case
  proof (cases "rc1 = 0")
    case True
    with Cons.prems 1 obtain ts where ts: "agent_main_loop sk net sd ads s1 ag1 = Inr (s', ag', ts, rc)"
      "threads = (case t of None \<Rightarrow> ts | Some t' \<Rightarrow> t' # ts)"
      by (auto simp: fault_simps)
    from peels_trans [OF p Cons.IH [OF ts(1)]] show ?thesis
      by (auto simp: ts(2) thread_count_def split: option.splits)
  next
    case False
    then show ?thesis using Cons.prems 1 p by (auto simp: thread_count_def split: option.splits)
  qed
qed simp

lemma clara_socket_peels:
  assumes "peeloff_ok sk op pe" and "clara_socket sk s = (s', sd)" and "sockets_ok sk op"
  shows "pe s' = pe s"
proof -
  obtain s1 d where 1: "sk_socket sk s = (s1, d)" by fastforce
  obtain s2 ok where 2: "sk_setsockopt sk s1 d (SCTP_EVENTS True True) = (s2, ok)" by fastforce
  obtain s3 u where 3: "sk_close sk s2 d = (s3, u)" by fastforce
  let ?s = "if ok then s2 else s3" and ?d = "if ok then d else -1"
  obtain s4 ok' where 4: "sk_setsockopt sk ?s ?d (SCTP_DELAYED_ACK_TIME 1) = (s4, ok')" by fastforce
  obtain s5 u' where 5: "sk_close sk s4 ?d = (s5, u')" by fastforce
  have run: "s' = (if d = -1 then s1 else if ok' then s4 else s5)"
    using assms(2) 1 2 3 4 5 by (simp add: clara_socket_def split: if_splits)
  note sk' = peeloff_okD [OF assms(1)]
  have "d \<noteq> -1 \<Longrightarrow> d \<notin> op s" "-1 \<notin> op s"
    using sockets_okD(1,2) [OF assms(3)] 1 by metis+
  then have "d \<notin> pe s" "-1 \<notin> pe s" using sk'(1) [of s] by blast+
  moreover have "pe s1 = pe s" "pe s2 = pe s1" "pe s3 = pe s2 - {d}" "pe s4 = pe ?s" "pe s5 = pe s4 - {?d}"
    using sk'(3) [OF 1] sk'(4) [OF 2] sk'(7) [OF 3] sk'(4) [OF 4] sk'(7) [OF 5] by auto
  ultimately show ?thesis unfolding run by auto
qed

lemma agent_startup_correct:
  assumes sk: "sockets_ok sk op" and run: "agent_startup sk inet_pton opts s = (s', sd, started)"
  shows "if started then sd \<notin> op s \<and> op s' = insert sd (op s) else op s' = op s"
    and "peeloff_ok sk op pe \<Longrightarrow> pe s' = pe s"
proof -
  let ?goal = "(if started then sd \<notin> op s \<and> op s' = insert sd (op s) else op s' = op s) \<and>
    (peeloff_ok sk op pe \<longrightarrow> pe s' = pe s)"
  have ?goal
  proof (cases "clara_sockaddr inet_pton (Some (ao_addr opts)) (Some (ao_port opts))")
    case None
    then show ?thesis using run by (simp add: agent_startup_def)
  next
    case (Some addr)
    obtain s1 d where 1: "clara_socket sk s = (s1, d)" by fastforce
    obtain s2 bound where 2: "sk_bind sk s1 d addr = (s2, bound)" by fastforce
    obtain s3 listening where 3: "sk_listen sk s2 d AGENT_BACKLOG = (s3, listening)" by fastforce
    obtain c2 u where 4: "sk_close sk s2 d = (c2, u)" by fastforce
    obtain c3 u' where 5: "sk_close sk s3 d = (c3, u')" by fastforce
    note sk' = sockets_okD [OF sk]
    have op: "op s2 = op s1" "op s3 = op s2" "op c2 = op s2 - {d}" "op c3 = op s3 - {d}"
      using sk'(4) [OF 2] sk'(5) [OF 3] sk'(6) [OF 4] sk'(6) [OF 5] by auto
    have pe: "pe s1 = pe s" "pe s2 = pe s" "pe s3 = pe s" "pe c2 = pe s - {d}" "pe c3 = pe s - {d}" "pe s \<subseteq> op s"
      if ok: "peeloff_ok sk op pe"
      using clara_socket_peels [OF ok 1 sk] peeloff_okD(5) [OF ok 2] peeloff_okD(6) [OF ok 3] peeloff_okD(7) [OF ok 4]
        peeloff_okD(7) [OF ok 5] peeloff_okD(1) [OF ok, of s] by simp_all
    note new = clara_socket_correct [OF sk 1]
    have "(if started then sd \<notin> op s \<and> op s' = insert sd (op s) else op s' = op s)"
      using new op run Some 1 2 3 4 5 by (auto simp: agent_startup_def split: if_splits)
    moreover have "pe s' = pe s" if ok: "peeloff_ok sk op pe"
    proof -
      have "s' \<in> {s1, c2, c3, s3}"
        using run Some 1 2 3 4 5 by (auto simp: agent_startup_def split: if_splits)
      moreover have "d \<notin> pe s" using new pe(6) [OF ok] sockets_okD(1) [OF sk, of s] by (auto split: if_splits)
      ultimately show ?thesis using pe [OF ok] by auto
    qed
    ultimately show ?thesis by blast
  qed
  then show "if started then sd \<notin> op s \<and> op s' = insert sd (op s) else op s' = op s"
    and "peeloff_ok sk op pe \<Longrightarrow> pe s' = pe s" by blast+
qed

lemma agent_shutdown_correct:
  assumes "sockets_ok sk op" and "agent_shutdown sk s sd = (s', sd', ok)"
  shows "op s' = op s - {sd}" and "peeloff_ok sk op pe \<Longrightarrow> pe s' = pe s - {sd}"
proof -
  show "op s' = op s - {sd}"
    using assms(2) sockets_okD(1,6) [OF assms(1)] by (auto simp: agent_shutdown_def split: if_splits prod.splits)
  show "pe s' = pe s - {sd}" if p: "peeloff_ok sk op pe"
    using assms(2) peeloff_okD(7) [OF p] peeloff_okD(1) [OF p, of s] sockets_okD(1) [OF assms(1), of s]
    by (auto simp: agent_shutdown_def split: if_splits prod.splits)
qed

text \<open>However the program ends, with whatever options and messages.\<close>

lemma agent_program_peels:
  assumes sk: "sockets_ok sk op" and pk: "peeloff_ok sk op pe"
    and run: "agent_program sk inet_pton net getopts ads s n = Inr (s', threads, rc)"
  shows "peels op pe s s' (length threads)"
proof (cases "parse_options getopts default_options")
  case None
  then show ?thesis using run by (auto simp: agent_program_def peels_refl)
next
  case (Some opts)
  note run' = run [unfolded agent_program_def Some option.case]
  then obtain r where r: "agent_create n (ao_load_balancing opts) (ao_reverse_proxy opts) = Inr r" by blast
  obtain s1 sd started where st: "agent_startup sk inet_pton opts s = (s1, sd, started)" by (metis prod_cases3)
  note op1 = agent_startup_correct(1) [OF sk st] and pe1 = agent_startup_correct(2) [OF sk st pk]
  show ?thesis
  proof (cases "r = None \<or> \<not> started")
    case True
    then show ?thesis using run' r st op1 pe1 by (auto simp: peels_def split: option.splits)
  next
    case False
    then obtain ag where "r = Some ag" by (cases r) auto
    with False run' r st obtain ag' where "agent_main sk net ads s1 sd ag = Inr (s', ag', threads, rc)"
      by (auto simp: fault_simps)
    then obtain s2 where s2: "agent_main_loop sk net sd ads s1 ag = Inr (s2, ag', threads, rc)"
      "s' = fst (agent_shutdown sk s2 sd)" by (auto simp: agent_main_def fault_simps)
    obtain s3 sd' ok where s3: "agent_shutdown sk s2 sd = (s3, sd', ok)" by (metis prod_cases3)
    have "s' = s3" "op s3 = op s2 - {sd}" "pe s3 = pe s2 - {sd}"
      using s2(2) s3 agent_shutdown_correct(1) [OF sk s3] agent_shutdown_correct(2) [OF sk s3 pk] by auto
    moreover note agent_main_loop_peels [OF pk s2(1)]
    moreover have "sd \<notin> op s" "op s1 = insert sd (op s)" using op1 False by auto
    moreover have "sd \<notin> pe s1" "sd \<notin> pe s" using \<open>sd \<notin> op s\<close> peeloff_okD(1) [OF pk, of s] pe1 by auto
    moreover have "sd \<notin> pe s2"
      using calculation peeloff_okD(1) [OF pk] by (auto simp: peels_def)
    ultimately show ?thesis using pe1 by (auto simp: peels_def)
  qed
qed

text \<open>Load balancing and a reverse proxy exclude each other; the proxy alone aborts.\<close>

lemma agent_program_proxy:
  assumes "parse_options getopts default_options = Some opts" and "ao_reverse_proxy opts"
  shows "agent_program sk inet_pton net getopts ads s n =
    (if ao_load_balancing opts then Inr (s, [], 1) else Inl Assertion_Failed)"
  using assms by (simp add: agent_program_def agent_create_def rp_create_def c_assert_def)

end
