(* ===== verification/Provider_Program.thy ===== *)
theory Provider_Program
  imports Provider_Process Socket
begin

text \<open>
  The provider as a program, from \<^verbatim>\<open>provider/src/provider.c\<close>: its options and the loop that
  reconnects (\<^verbatim>\<open>main\<close>), a connection from the socket to the end (\<^verbatim>\<open>provider_main\<close>,
  \<^verbatim>\<open>provider_shutdown\<close>), and the list of devices (\<^verbatim>\<open>provider_list\<close>, \<^verbatim>\<open>query.c\<close>).
\<close>

section \<open>The list of devices\<close>

text \<open>
  Both calls of a query, for the size and for the value, are one of the library's in the
  model; the arrays end with a null identifier.
\<close>

definition clara_GetPlatformIDs :: "'o vendor \<Rightarrow> arg list option" where
  "clara_GetPlatformIDs vd =
     (case vd_platforms vd of None \<Rightarrow> None | Some ids \<Rightarrow> if length ids = 0 then None else Some (ids @ [0]))"

definition clara_GetPlatformInfo :: "'o vendor \<Rightarrow> arg \<Rightarrow> platform_info \<Rightarrow> byte list option" where
  "clara_GetPlatformInfo vd platform param_name = vd_platform_info vd platform param_name"

definition clara_GetDeviceIDs :: "'o vendor \<Rightarrow> arg \<Rightarrow> arg list option" where
  "clara_GetDeviceIDs vd platform =
     (case vd_devices vd platform of None \<Rightarrow> None | Some ids \<Rightarrow> if length ids = 0 then None else Some (ids @ [0]))"

definition clara_GetDeviceInfo :: "'o vendor \<Rightarrow> arg \<Rightarrow> device_info \<Rightarrow> byte list option" where
  "clara_GetDeviceInfo vd device param_name = vd_device_info vd device param_name"

text \<open>The lines that are printed: an identifier, its name, and for a device its number.\<close>

datatype list_line =
    Platform_Line arg "byte list option"
  | Device_Line arg "byte list option" nat

fun list_devices :: "'o vendor \<Rightarrow> nat \<Rightarrow> arg list \<Rightarrow> list_line list \<times> nat" where
  "list_devices vd device_counter [] = ([], device_counter)"
| "list_devices vd device_counter (device # devices) =
     (if device = 0 then ([], device_counter)
      else
        let (ls, n) = list_devices vd (device_counter + 1) devices
        in (Device_Line device (clara_GetDeviceInfo vd device DEVICE_NAME) device_counter # ls, n))"

fun list_platforms :: "'o vendor \<Rightarrow> nat \<Rightarrow> arg list \<Rightarrow> list_line list" where
  "list_platforms vd device_counter [] = []"
| "list_platforms vd device_counter (platform # platforms) =
     (if platform = 0 then []
      else
        Platform_Line platform (clara_GetPlatformInfo vd platform PLATFORM_NAME) #
        (case clara_GetDeviceIDs vd platform of
           None \<Rightarrow> []
         | Some devices \<Rightarrow>
             let (ls, n) = list_devices vd device_counter devices in ls @ list_platforms vd n platforms))"

definition provider_list :: "'o vendor \<Rightarrow> list_line list" where
  "provider_list vd =
     (case clara_GetPlatformIDs vd of None \<Rightarrow> [] | Some platforms \<Rightarrow> list_platforms vd 0 platforms)"

section \<open>Shutdown\<close>

text \<open>
  The loops of \<^verbatim>\<open>provider_shutdown\<close> remove every element from the set they traverse. The node of
  the first element has no left child (\<open>drain_leftmost\<close>), so it is this node that
  \<^verbatim>\<open>rb_delete\<close> unlinks and frees, and the traversal stands on it: the \<^verbatim>\<open>set_next\<close> after the
  first removal reads it.
\<close>

definition drain :: "(nat \<Rightarrow> fault + unit) \<Rightarrow> nat cset \<Rightarrow> fault + unit" where
  "drain body s =
     rbind (set_next (set_start s)) (\<lambda>(s1, r).
     case r of
       None \<Rightarrow> rbind (set_finish s1) (\<lambda>_. Inr ())
     | Some x \<Rightarrow>
         rbind (body x) (\<lambda>_.
         rbind (set_remove s1 (of_nat x)) (\<lambda>_. Inl Use_After_Free)))"

text \<open>
  Without platforms (the pointer is null until \<^verbatim>\<open>provider_startup\<close>) only the socket is closed,
  \<^verbatim>\<open>provider->sd\<close>, which nothing changes once it is there.
\<close>

definition provider_shutdown ::
  "'s sockets \<Rightarrow> 's \<Rightarrow> sd \<Rightarrow> ('n, 'o) clara_provider \<Rightarrow> bool \<Rightarrow> fault + 's"
where
  "provider_shutdown sk s sd pr started =
     rbind (if \<not> started then Inr ()
            else drain (\<lambda>platform.
              rbind (deref (pr_platform_heap pr) platform) (\<lambda>pf.
              case plt_devices pf of
                None \<Rightarrow> Inr ()
              | Some devices \<Rightarrow> drain (\<lambda>device. rbind (deref (pr_device_heap pr) device) (\<lambda>_. Inr ())) devices))
              (pr_platforms pr)) (\<lambda>_.
     Inr (fst (sk_close sk s sd)))"

section \<open>A connection\<close>

record provider_options =
  po_addr :: "string option"
  po_port :: string
  po_list_devices :: bool
  po_device :: int

definition PROVIDER_DEFAULT_PORT :: string where "PROVIDER_DEFAULT_PORT = ''52428''"

text \<open>
  What \<^verbatim>\<open>provider_main\<close> returns, with \<^verbatim>\<open>errno\<close> where it is false. The argument \<open>err\<close> is what is
  there where the function does not say: what the failing call of the system has left, or
  \<open>EAGAIN\<close> after the event that ends the message loop.
\<close>

datatype errno = EAGAIN | EPERM | EINTR | Other_Errno

datatype provider_end = Listed "list_line list" | Ended errno

definition provider_main ::
  "'s sockets \<Rightarrow> (string \<Rightarrow> u32 option) \<Rightarrow> (u32 \<times> 16 word \<Rightarrow> sockaddr) \<Rightarrow> 'n sctp \<Rightarrow> lzo \<Rightarrow> 'o vendor \<Rightarrow>
    nat \<Rightarrow> nat \<Rightarrow> 16 word \<Rightarrow> errno \<Rightarrow> provider_options \<Rightarrow> 's \<Rightarrow> 'n \<Rightarrow> 'o \<Rightarrow>
    fault + ('s \<times> 'n \<times> 'o \<times> provider_end)"
where
  "provider_main sk inet_pton to_addr net lz vd rounds fuel shutdown_event err opts s n o0 =
     (if po_list_devices opts then Inr (s, n, o0, Listed (provider_list vd))
      else case clara_sockaddr inet_pton (po_addr opts) (Some (po_port opts)) of
        None \<Rightarrow> Inr (s, n, o0, Ended err)
      | Some addr \<Rightarrow>
          let (s1, sd) = clara_socket sk s
          in if sd = -1 then Inr (s1, n, o0, Ended err)
             else
               rbind (provider_connect net vd (provider_init sd (to_addr addr) (po_device opts) n o0)) (\<lambda>(pr, conn).
               rbind (if conn = Connected then provider_main_loop rounds net lz vd fuel shutdown_event pr else Inr pr) (\<lambda>pr1.
               rbind (provider_shutdown sk s1 sd pr1 (conn = Startup_Error \<or> conn = Connected)) (\<lambda>s2.
               Inr (s2, pr_net pr1, pr_vendor pr1, Ended
                 (case conn of Receive_Failed \<Rightarrow> EAGAIN | Permission_Denied \<Rightarrow> EPERM | _ \<Rightarrow> err))))))"

section \<open>The program\<close>

text \<open>\<^verbatim>\<open>atoi\<close>: what \<^verbatim>\<open>strtol\<close> returns, as a 32-bit \<^verbatim>\<open>int\<close>.\<close>

definition atoi :: "string \<Rightarrow> int" where
  "atoi s = sint (word_of_int (fst (strtol10 s)) :: 32 word)"

text \<open>What \<^verbatim>\<open>getopt\<close> returns in turn, with \<^verbatim>\<open>optarg\<close>; the flag is \<^verbatim>\<open>f_help\<close>.\<close>

fun parse_provider_options ::
  "(char \<times> string) list \<Rightarrow> provider_options \<Rightarrow> bool \<Rightarrow> (provider_options \<times> bool) option"
where
  "parse_provider_options [] opts f_help = Some (opts, f_help)"
| "parse_provider_options ((c, optarg) # cs) opts f_help =
     (if c = CHR ''a'' then
        parse_provider_options cs (opts\<lparr>po_addr := Some optarg, po_list_devices := False\<rparr>) False
      else if c = CHR ''h'' then parse_provider_options cs opts True
      else if c = CHR ''p'' then parse_provider_options cs (opts\<lparr>po_port := optarg\<rparr>) f_help
      else if c = CHR ''d'' then parse_provider_options cs (opts\<lparr>po_device := atoi optarg\<rparr>) f_help
      else if c = CHR ''l'' then
        parse_provider_options cs (opts\<lparr>po_addr := None, po_list_devices := True\<rparr>) False
      else None)"

definition provider_default_options :: provider_options where
  "provider_default_options =
     \<lparr>po_addr = None, po_port = PROVIDER_DEFAULT_PORT, po_list_devices = True, po_device = -1\<rparr>"

text \<open>One \<open>errno\<close> of a failing call for every round of the loop, whose length is its fuel.\<close>

fun provider_retry ::
  "('s \<Rightarrow> 'n \<Rightarrow> 'o \<Rightarrow> errno \<Rightarrow> fault + ('s \<times> 'n \<times> 'o \<times> provider_end)) \<Rightarrow> errno list \<Rightarrow> 's \<Rightarrow> 'n \<Rightarrow> 'o \<Rightarrow>
    fault + ('s \<times> 'n \<times> 'o \<times> provider_end)"
where
  "provider_retry connect [] s n o0 = Inl Out_Of_Fuel"
| "provider_retry connect (err # errs) s n o0 =
     rbind (connect s n o0 err) (\<lambda>(s1, n1, o1, e).
     case e of
       Ended EAGAIN \<Rightarrow> provider_retry connect errs s1 n1 o1
     | _ \<Rightarrow> Inr (s1, n1, o1, e))"

text \<open>What the program has done when it exits; its exit code is 1 for a bad option and otherwise 0.\<close>

datatype provider_exit = Bad_Option | Usage | Provider_End provider_end

definition provider_program ::
  "'s sockets \<Rightarrow> (string \<Rightarrow> u32 option) \<Rightarrow> (u32 \<times> 16 word \<Rightarrow> sockaddr) \<Rightarrow> 'n sctp \<Rightarrow> lzo \<Rightarrow> 'o vendor \<Rightarrow>
    nat \<Rightarrow> nat \<Rightarrow> 16 word \<Rightarrow> errno list \<Rightarrow> (char \<times> string) list \<Rightarrow> 's \<Rightarrow> 'n \<Rightarrow> 'o \<Rightarrow>
    fault + ('s \<times> provider_exit)"
where
  "provider_program sk inet_pton to_addr net lz vd rounds fuel shutdown_event errs getopts s n o0 =
     (case parse_provider_options getopts provider_default_options True of
        None \<Rightarrow> Inr (s, Bad_Option)
      | Some (opts, f_help) \<Rightarrow>
          if f_help then Inr (s, Usage)
          else
            rbind (provider_retry (\<lambda>s n o0 err.
                provider_main sk inet_pton to_addr net lz vd rounds fuel shutdown_event err opts s n o0)
                errs s n o0) (\<lambda>(s1, _, _, e).
            Inr (s1, Provider_End e)))"

end
