(* ===== verification/Program_Laws.thy ===== *)
theory Program_Laws
  imports Provider_Program Provider_Laws
begin

text \<open>
  The provider's program: what the list of devices numbers and what \<^verbatim>\<open>-d\<close> picks, how a connection
  ends, and that no socket is left open.
\<close>

section \<open>The list of devices\<close>

fun device_numbers :: "list_line list \<Rightarrow> (nat \<times> arg) list" where
  "device_numbers [] = []"
| "device_numbers (Platform_Line _ _ # ls) = device_numbers ls"
| "device_numbers (Device_Line device _ n # ls) = (n, device) # device_numbers ls"

lemma device_numbers_append [simp]: "device_numbers (xs @ ys) = device_numbers xs @ device_numbers ys"
  by (induction xs rule: device_numbers.induct) auto

lemma list_devices_numbers:
  "0 \<notin> set ds \<Longrightarrow>
    device_numbers (fst (list_devices vd n (ds @ [0]))) = List.enumerate n ds \<and>
    snd (list_devices vd n (ds @ [0])) = n + length ds"
  by (induction ds arbitrary: n) (auto simp: case_prod_unfold Let_def)

text \<open>The devices of the platforms up to the first that has none.\<close>

definition has_devices :: "'o vendor \<Rightarrow> arg \<Rightarrow> bool" where
  "has_devices vd p \<longleftrightarrow> vd_devices vd p \<noteq> None \<and> vd_devices vd p \<noteq> Some []"

definition reached_devices :: "'o vendor \<Rightarrow> arg list \<Rightarrow> arg list" where
  "reached_devices vd ps = concat (map (\<lambda>p. the (vd_devices vd p)) (takeWhile (has_devices vd) ps))"

lemma list_platforms_numbers:
  assumes "0 \<notin> set ps" and "\<forall>p ds. vd_devices vd p = Some ds \<longrightarrow> 0 \<notin> set ds"
  shows "device_numbers (list_platforms vd n (ps @ [0])) = List.enumerate n (reached_devices vd ps)"
  using assms(1)
proof (induction ps arbitrary: n)
  case (Cons p ps)
  show ?case
  proof (cases "has_devices vd p")
    case True
    then obtain ds where ds: "vd_devices vd p = Some ds" "ds \<noteq> []" by (auto simp: has_devices_def)
    have "device_numbers (fst (list_devices vd n (ds @ [0]))) = List.enumerate n ds"
      "snd (list_devices vd n (ds @ [0])) = n + length ds"
      using list_devices_numbers [of ds vd n] assms(2) ds(1) by blast+
    with Cons True ds show ?thesis
      by (simp add: clara_GetDeviceIDs_def reached_devices_def case_prod_unfold Let_def enumerate_append_eq)
  next
    case False
    then show ?thesis using Cons.prems
      by (auto simp: clara_GetDeviceIDs_def reached_devices_def has_devices_def)
  qed
qed (simp add: reached_devices_def)

lemma provider_list_numbers:
  assumes "vd_platforms vd = Some ps" and "0 \<notin> set ps" and "\<forall>p ds. vd_devices vd p = Some ds \<longrightarrow> 0 \<notin> set ds"
  shows "device_numbers (provider_list vd) = List.enumerate 0 (reached_devices vd ps)"
  using assms list_platforms_numbers [OF assms(2,3), of 0]
  by (simp add: provider_list_def clara_GetPlatformIDs_def reached_devices_def)

section \<open>The option for one device\<close>

lemma startup_devices_option:
  assumes "pr_opts_device pr = int n" and "n \<ge> i" and "\<And>d pr'. startup_device net vd pr platform d = Inr pr' \<Longrightarrow>
    pr_opts_device pr' = pr_opts_device pr"
  shows "startup_devices net vd (int i) pr platform ids =
    (if n - i < length ids then startup_device net vd pr platform (ids ! (n - i)) else Inr pr)"
  using assms(2)
proof (induction ids arbitrary: i)
  case (Cons d ids)
  show ?case
  proof (cases "n = i")
    case True
    then show ?thesis using assms(1,3)
      by (cases "startup_device net vd pr platform d") auto
  next
    case False
    with Cons.prems have "i + 1 \<le> n" by simp
    from Cons.IH [OF this] False Cons.prems assms(1) show ?thesis
      by (auto simp: nth_Cons' algebra_simps)
  qed
qed simp

lemma startup_device_option:
  "startup_device net vd pr platform d = Inr pr' \<Longrightarrow> pr_opts_device pr' = pr_opts_device pr"
  by (auto simp: startup_device_def provider_agent_sendmsg_def recv_global_id_def provider_agent_recvmsg_def
      add_mapping_def Let_def fault_simps split: option.splits)

lemma startup_platform_option:
  assumes "pr_opts_device pr = int n" and "pr_platform_heap pr platform = Some pf" and "platform \<noteq> 0"
    and "vd_devices vd (plt_id pf) = Some ds"
  shows "startup_platform net vd platform (pr, b) =
    (let pr1 = pr\<lparr>pr_platform_heap := (pr_platform_heap pr)(platform \<mapsto> pf\<lparr>plt_devices := Some set_create\<rparr>)\<rparr>
     in if n < length ds then rbind (startup_device net vd pr1 platform (ds ! n)) (\<lambda>pr2. Inr (False, pr2, True))
        else Inr (False, pr1, True))"
  using assms startup_devices_option [of _ n 0 net vd platform ds, OF _ _ startup_device_option]
  by (simp add: startup_platform_def deref_live Let_def)

text \<open>Against the list: only the numbers of the first platform are right.\<close>

lemma device_option_correct:
  assumes vd: "vd_platforms vd = Some (p # ps)" "0 \<notin> set (p # ps)" "\<forall>p ds. vd_devices vd p = Some ds \<longrightarrow> 0 \<notin> set ds"
    and ds: "vd_devices vd p = Some ds" "ds \<noteq> []"
    and pr: "pr_opts_device pr = int n" "pr_platform_heap pr platform = Some pf" "plt_id pf = p" "platform \<noteq> 0"
  shows "device_numbers (provider_list vd) = List.enumerate 0 (ds @ reached_devices vd ps)"
    and "startup_platform net vd platform (pr, b) =
      (let pr1 = pr\<lparr>pr_platform_heap := (pr_platform_heap pr)(platform \<mapsto> pf\<lparr>plt_devices := Some set_create\<rparr>)\<rparr>
       in if n < length ds then rbind (startup_device net vd pr1 platform (ds ! n)) (\<lambda>pr2. Inr (False, pr2, True))
          else Inr (False, pr1, True))"
  using provider_list_numbers [OF vd] ds startup_platform_option [OF pr(1,2,4), of vd ds net b] pr(3)
  by (simp_all add: reached_devices_def has_devices_def)

section \<open>Shutdown\<close>

text \<open>The node a traversal begins at has no left child.\<close>

lemma trav_down_leftmost: "trav_down st p = Inr (Node d l r c # st') \<Longrightarrow> p \<noteq> NULL \<Longrightarrow> l = NULL"
proof (induction st p rule: trav_down.induct)
  case (2 st d l r c)
  then show ?case by (cases l) (auto split: if_splits)
qed simp

lemma drain_leftmost:
  assumes "set_next (set_start s) = Inr (s1, Some x)"
  shows "\<exists>d r c. trav_p (cs_trav s1) = Node d NULL r c"
proof -
  let ?s = "set_lock (set_start s)"
  obtain tr it where tr: "rb_traverse (cs_tree ?s) (cs_trav ?s) = Inr (tr, Some it)" "cs_trav s1 = tr"
    using assms by (auto simp: set_next_def set_lock_def set_unlock_def fault_simps Let_def split: option.splits)
  have "\<not> trav_init (cs_trav ?s)" by (simp add: set_start_def set_lock_def rb_init_traverser_def)
  with tr(1) obtain st' where d: "trav_down [] (rb_root (cs_tree ?s)) = Inr st'"
    and r: "(case st' of [] \<Rightarrow> Inr (cs_trav ?s\<lparr>trav_init := False, trav_stack := [], trav_p := NULL\<rparr>, None)
      | NULL # st'' \<Rightarrow> Inl Null_Deref
      | Node d l r c # st'' \<Rightarrow> Inr (cs_trav ?s\<lparr>trav_init := True, trav_stack := st'', trav_p := Node d l r c\<rparr>, Some d)) =
      Inr (tr, Some it)"
    unfolding rb_traverse_def by auto
  from r obtain n st'' where st: "st' = n # st''" by (cases st') auto
  with r obtain d l r c where n: "n = Node d l r c" "trav_p tr = Node d l r c" by (cases n) auto
  have "rb_root (cs_tree ?s) \<noteq> NULL" using d st by auto
  with trav_down_leftmost [OF d [unfolded st n(1)]] n(2) tr(2) show ?thesis by blast
qed

text \<open>A set with an element is not drained.\<close>

lemma drain_fails:
  assumes "set_wf s" and "set_room s" and "set_elems s \<noteq> []"
  shows "\<exists>e. drain body s = Inl e"
proof (rule ccontr)
  assume "\<nexists>e. drain body s = Inl e"
  then obtain u where u: "drain body s = Inr u" by (cases "drain body s") auto
  then obtain s1 where s1: "set_next (set_start s) = Inr (s1, None)"
    by (auto simp: drain_def fault_simps split: option.splits)
  from set_foreach_correct [OF assms(1,2), of "\<lambda>x b. Inr (True, Some x)" None] assms(3)
  obtain tr x where "set_foreach (\<lambda>x b. Inr (True, Some x)) s None = Inr (s\<lparr>cs_trav := tr\<rparr>, Some x)"
    by (cases "set_elems s") auto
  moreover have "set_loop (\<lambda>x b. Inr (True, Some x)) (set_start s) None = Inr (s1, None)"
    unfolding set_loop.simps [of _ "set_start s"] s1 rbind_simps by simp
  ultimately show False by (auto simp: set_foreach_def)
qed

lemma rbind_fails: "\<exists>e. m = Inl e \<Longrightarrow> \<exists>e. rbind m f = Inl e"
  by auto

lemma provider_shutdown_fails:
  assumes "set_wf (pr_platforms pr)" and "set_room (pr_platforms pr)" and "set_elems (pr_platforms pr) \<noteq> []"
  shows "\<exists>e. provider_shutdown sk s sd pr True = Inl e"
  using rbind_fails [OF drain_fails [OF assms]] unfolding provider_shutdown_def not_True_eq_False if_False .

section \<open>How a connection ends\<close>

lemma provider_shutdown_closes:
  assumes "sockets_ok sk op" and "provider_shutdown sk s sd pr started = Inr s'"
  shows "op s' = op s - {sd}"
  using assms(2) sockets_okD(6) [OF assms(1), of s sd] by (cases "sk_close sk s sd") (auto simp: provider_shutdown_def)

lemma provider_main_closes:
  fixes n :: 'n and o0 :: 'o
  assumes sk: "sockets_ok sk op"
    and run: "provider_main sk inet_pton to_addr net lz vd rounds fuel ev err opts s n o0 = Inr (s', n', o', e)"
  shows "op s' = op s"
proof (cases "po_list_devices opts \<or> clara_sockaddr inet_pton (po_addr opts) (Some (po_port opts)) = None")
  case True
  then show ?thesis using run by (auto simp: provider_main_def split: if_splits)
next
  case False
  then obtain a where a: "\<not> po_list_devices opts" "clara_sockaddr inet_pton (po_addr opts) (Some (po_port opts)) = Some a" by auto
  obtain s1 sd where 1: "clara_socket sk s = (s1, sd)" by fastforce
  from clara_socket_correct [OF sk 1] have op: "if sd = -1 then op s1 = op s else sd \<notin> op s \<and> op s1 = insert sd (op s)" .
  show ?thesis
  proof (cases "sd = -1")
    case True
    then show ?thesis using run a 1 op by (simp add: provider_main_def)
  next
    case False
    with run a 1 obtain pr :: "('n, 'o) clara_provider" and started where "provider_shutdown sk s1 sd pr started = Inr s'"
      by (auto simp: provider_main_def fault_simps)
    from provider_shutdown_closes [OF sk this] op False show ?thesis by auto
  qed
qed

lemma provider_retry_closes:
  assumes "\<And>s n o0 err s' n' o' e. connect s n o0 err = Inr (s', n', o', e) \<Longrightarrow> op s' = op s"
  shows "provider_retry connect errs s n o0 = Inr (s', n', o', e) \<Longrightarrow> op s' = op s"
proof (induction errs arbitrary: s n o0)
  case (Cons err errs)
  from Cons.prems obtain s1 n1 o1 e1 where 1: "connect s n o0 err = Inr (s1, n1, o1, e1)" by auto
  with Cons.prems have "s' = s1 \<or> provider_retry connect errs s1 n1 o1 = Inr (s', n', o', e)"
    by (auto split: provider_end.splits errno.splits)
  with Cons.IH [of s1 n1 o1] assms [OF 1] show ?case by auto
qed simp

text \<open>However the program ends, with whatever options, agent and library.\<close>

lemma provider_program_closes:
  assumes sk: "sockets_ok sk op"
    and run: "provider_program sk inet_pton to_addr net lz vd rounds fuel ev errs getopts s n o0 = Inr (s', e)"
  shows "op s' = op s"
proof (cases "parse_provider_options getopts provider_default_options True")
  case (Some r)
  obtain opts h where r: "r = (opts, h)" by fastforce
  show ?thesis
  proof (cases h)
    case False
    let ?connect = "\<lambda>s n o0 err. provider_main sk inet_pton to_addr net lz vd rounds fuel ev err opts s n o0"
    from run Some r False obtain n' o' e' where "provider_retry ?connect errs s n o0 = Inr (s', n', o', e')"
      by (auto simp: provider_program_def)
    from provider_retry_closes [OF provider_main_closes [OF sk] this] show ?thesis .
  qed (use run Some r in \<open>simp add: provider_program_def\<close>)
qed (use run in \<open>simp add: provider_program_def\<close>)

text \<open>An agent that refuses.\<close>

lemma provider_main_refused:
  assumes net: "reliable net k" "lk_ok k n" "2 \<le> lk_lim k"
    and opts: "\<not> po_list_devices opts" "clara_sockaddr inet_pton (po_addr opts) (Some (po_port opts)) = Some a"
    and sd: "clara_socket sk s = (s1, sd)" "sd \<noteq> -1" and diff: "lk_out k sd (to_addr a) \<noteq> lk_inp k sd"
    and q: "lk_queue k n (lk_inp k sd) = enc16 CLARA_MSG_NACK # ms"
  shows "\<exists>n'. provider_main sk inet_pton to_addr net lz vd rounds fuel ev err opts s n o0 =
      Inr (fst (sk_close sk s1 sd), n', o0, Ended EPERM) \<and>
    moves k n n' (lk_inp k sd) ms (lk_out k sd (to_addr a)) [enc16 CLARA_MSG_PROVIDER]"
proof -
  let ?pr = "provider_init sd (to_addr a) (po_device opts) n o0"
  from sendmsg_adds [OF net(1,2), of "[]" sd CLARA_MSG_PROVIDER "to_addr a"] net(3) obtain n1 where
    n1: "clara_sendmsg net n sd CLARA_MSG_PROVIDER [] (to_addr a) = Inr (n1, Some 0)"
      "adds k n n1 (lk_out k sd (to_addr a)) [enc16 CLARA_MSG_PROVIDER]" by auto
  have "lk_ok k n1" "lk_queue k n1 (lk_inp k sd) = (enc16 CLARA_MSG_NACK @ []) # ms"
    using n1(2) q diff by (auto simp: adds_def)
  from recvmsg_leaves [OF net(1) this, of 0 CLARA_MSG_INVALID] obtain n2 fr where
    n2: "clara_recvmsg net n1 sd CLARA_MSG_INVALID 0 = Inr (n2, Some \<lparr>cm_type = CLARA_MSG_NACK, cm_bytes = [],
      cm_from = fr, cm_notification = False\<rparr>)" "leaves k n1 n2 (lk_inp k sd) ms" by auto
  have "provider_connect net vd ?pr = Inr (?pr\<lparr>pr_net := n2\<rparr>, Permission_Denied)"
    using n1(1) n2(1)
    by (simp add: provider_connect_def provider_agent_sendmsg_def provider_agent_recvmsg_def provider_init_def)
  then have "provider_main sk inet_pton to_addr net lz vd rounds fuel ev err opts s n o0 =
      Inr (fst (sk_close sk s1 sd), n2, o0, Ended EPERM)"
    using opts sd by (simp add: provider_main_def provider_shutdown_def provider_init_def)
  moreover have "moves k n n2 (lk_inp k sd) ms (lk_out k sd (to_addr a)) [enc16 CLARA_MSG_PROVIDER]"
    using n1(2) n2(2) diff by (auto simp: adds_def leaves_def moves_def)
  ultimately show ?thesis by blast
qed

end
