(* ===== verification/Agent_Intake.thy ===== *)
theory Agent_Intake
  imports Query_Laws Provider_Handler Device_Info Key_Store
begin

text \<open>
  The first loop of the agent's thread for a provider (\<^verbatim>\<open>agent_provider_handler\<close>): it enters the
  platform and the devices the provider describes under fresh identifiers, with every field as
  it was reported, and answers with the identifiers.
\<close>

section \<open>Platforms and devices\<close>

text \<open>What \<^verbatim>\<open>calloc\<close> and \<^verbatim>\<open>id_create\<close> leave in a new platform or device.\<close>

definition blank_platform :: "nat \<Rightarrow> global_id \<Rightarrow> agent_platform" where
  "blank_platform v k =
     \<lparr>pf_profile = None, pf_version = None, pf_name = None, pf_vendor = None, pf_extensions = None,
      pf_provider = v, pf_consumer = 0, pf_id = 0, pf_global_id = k, pf_devices = set_create\<rparr>"

definition blank_device :: "nat \<Rightarrow> global_id \<Rightarrow> agent_device" where
  "blank_device v k =
     \<lparr>dv_head = replicate 20 0, dv_work_item_sizes = None, dv_body = replicate 224 0, dv_name = None,
      dv_vendor = None, dv_driver_version = None, dv_profile = None, dv_version = None, dv_extensions = None,
      dv_provider = v, dv_id = 0, dv_global_id = k\<rparr>"

lemma reported_device_parts [simp]:
  "dv_provider (reported_device val d (blank_device v k)) = v" "dv_id (reported_device val d (blank_device v k)) = d"
  "dv_global_id (reported_device val d (blank_device v k)) = k"
  "(reported_device val d (blank_device v k))\<lparr>dv_provider := v\<rparr> = reported_device val d (blank_device v k)"
  by (simp_all add: reported_device_def blank_device_def)

lemma reported_platform_parts [simp]:
  "pf_id (reported_platform val d (blank_platform v k)) = d"
  "pf_global_id (reported_platform val d (blank_platform v k)) = k"
  "pf_devices (reported_platform val d (blank_platform v k)) = set_create"
  by (simp_all add: reported_platform_def blank_platform_def)

text \<open>The platform a device says it belongs to.\<close>

lemma reported_device_platform:
  assumes "\<forall>i. reported val i"
  shows "dv_platform_id (reported_device val d dv) = dec64 (val DEVICE_PLATFORM)"
proof -
  have i: "DEVICE_PLATFORM \<in> set body_list" "fixed_size DEVICE_PLATFORM = 8"
    by (simp_all add: body_list_def device_info_list_def fixed_size_def)
  from field_at(1) [OF assms disjI2 [OF refl] i(1)] fixed_sizes(3) i(2)
  have "take 8 (drop 216 (concat (map val body_list))) = val DEVICE_PLATFORM" by simp
  then show ?thesis using dec_take(2) [of "drop 216 (concat (map val body_list))"]
    by (simp add: dv_platform_id_def reported_device_def)
qed

text \<open>Other parts of the agent may change under the invariant of its objects.\<close>

lemma object_inv_other:
  assumes inv: "object_inv ag"
    and same: "ag_objects ag' = ag_objects ag" "ag_object_heap ag' = ag_object_heap ag" "ag_id_pool ag' = ag_id_pool ag"
      "ag_consumer_heap ag' = ag_consumer_heap ag" "ag_next ag \<le> ag_next ag'"
    and pv: "ag_provider_heap ag v = Some pv" "pv_attached pv"
      "ag_provider_heap ag' = (ag_provider_heap ag)(v \<mapsto> pv')" "pv_attached pv'"
  shows "object_inv ag'" and "object_table ag' = object_table ag"
proof -
  have "heap_inv ag'" using inv same pv unfolding object_inv_def heap_inv_def by (auto split: if_splits)
  moreover have "table_inv ag'" using inv same unfolding object_inv_def table_inv_def by simp
  moreover have "live_inv ag'" using inv same pv unfolding object_inv_def live_inv_def by fastforce
  moreover have "owner_sets_inv ag'" using inv same unfolding object_inv_def owner_sets_inv_def by simp
  ultimately show "object_inv ag'" by (simp add: object_inv_def)
  show "object_table ag' = object_table ag" by (rule ext) (simp only: object_table_def same(1,2))
qed

text \<open>There are no more objects than identifiers in the pool.\<close>

lemma object_count:
  assumes inv: "object_inv ag"
  shows "dom (set_map (ag_objects ag)) \<subseteq> pool_ids (ag_id_pool ag)" and "finite (pool_ids (ag_id_pool ag))"
proof -
  show "dom (set_map (ag_objects ag)) \<subseteq> pool_ids (ag_id_pool ag)"
  proof
    fix k
    assume "k \<in> dom (set_map (ag_objects ag))"
    then obtain p where "set_map (ag_objects ag) k = Some p" by auto
    with object_invD(3) [OF inv, of k p] object_invD(8) [OF inv, of p] show "k \<in> pool_ids (ag_id_pool ag)" by auto
  qed
  have "set_wf (ag_id_pool ag)" using object_invD(2) [OF inv] by (simp add: pool_wf_def)
  then show "finite (pool_ids (ag_id_pool ag))" by (simp add: pool_ids_def set_map_dom)
qed

lemma room_of_pool:
  assumes "set_wf s" and "dom (set_map s) \<subseteq> A" and "finite A" and "card A \<le> 65534"
  shows "set_room s"
  using set_count_map [OF assms(1)] card_mono [OF assms(3,2)] assms(4) by (simp add: set_room_def)

lemma pool_room:
  assumes inv: "object_inv ag" and card: "card (pool_ids (ag_id_pool ag)) \<le> 65534"
  shows "set_room (ag_id_pool ag)" and "set_room (ag_objects ag)"
proof -
  have "set_wf (ag_id_pool ag)" using object_invD(2) [OF inv] by (simp add: pool_wf_def)
  from room_of_pool [OF this _ object_count(2) [OF inv] card] show "set_room (ag_id_pool ag)" by (simp add: pool_ids_def)
  from room_of_pool [OF object_invD(1) [OF inv] object_count [OF inv] card] show "set_room (ag_objects ag)" .
qed

text \<open>An object without a consumer under an identifier the pool has just taken in.\<close>

lemma object_create_unowned:
  assumes inv: "object_inv ag0" and card: "card (pool_ids (ag_id_pool ag0)) \<le> 65534"
    and k: "k \<notin> pool_ids (ag_id_pool ag0)" "k \<noteq> 0" and real: "real \<noteq> 0"
    and pool: "pool_wf (ag_id_pool ag)" "pool_ids (ag_id_pool ag) = insert k (pool_ids (ag_id_pool ag0))"
    and same: "ag_objects ag = ag_objects ag0" "ag_object_heap ag = ag_object_heap ag0"
      "ag_consumer_heap ag = ag_consumer_heap ag0" "ag_next ag0 \<le> ag_next ag"
    and pv: "ag_provider_heap ag0 v = Some pv0" "pv_attached pv0"
      "ag_provider_heap ag = (ag_provider_heap ag0)(v \<mapsto> pv)" "pv_attached pv"
  shows "\<exists>ag' objs. object_create ag v real k = Inr (ag', Some (ag_next ag)) \<and> object_inv ag' \<and>
    ag' = ag\<lparr>ag_objects := objs, ag_object_heap := ag_object_heap ag', ag_next := ag_next ag + 1\<rparr> \<and>
    object_table ag' = (object_table ag0)(k \<mapsto> \<lparr>oe_real = real, oe_provider = v, oe_consumer = 0, oe_refcnt = 0\<rparr>)"
proof -
  let ?b = "ag\<lparr>ag_id_pool := ag_id_pool ag0\<rparr>" and ?p = "ag_next ag"
  let ?ob = "\<lparr>ob_id = k, ob_real = real, ob_refcnt = 0, ob_lock = 0, ob_provider = v, ob_consumer = 0\<rparr>"
  have b: "object_inv ?b" "object_table ?b = object_table ag0"
    using object_inv_other [OF inv, of ?b v pv0 pv] same pv by simp_all
  have v0: "v \<noteq> 0" using object_invD(7) [OF inv] pv(1) by auto
  note new = object_table_fresh [OF inv k(1)]
  from set_insert_map [OF object_invD(1) [OF inv] pool_room(2) [OF inv card], of k ?p] new obtain objs where
    objs: "set_insert (ag_objects ag0) k ?p = Inr (objs, True)" "set_wf objs"
      "set_map objs = (set_map (ag_objects ag0))(k \<mapsto> ?p)" by auto
  let ?ag1 = "put_object ag ?p ?ob \<lparr>ag_next := ?p + 1, ag_objects := objs\<rparr>"
  have cr: "object_create ag v real k = Inr (?ag1, Some ?p)"
    using object_create_fresh [OF real v0 k(2), of ag pv objs] pv objs(1) same(1) by simp
  have "object_inv ?ag1 \<and> object_table ?ag1 = (object_table ?b)(k \<mapsto> entry_of ?ob)"
    using objs(2,3) pool pv new same
    by (intro conjI object_inv_enter [OF b(1) _ refl, where ob = ?ob and pv = pv]) (simp_all add: put_object_def)
  with cr b(2) show ?thesis by (intro exI [of _ ?ag1] exI [of _ objs]) (simp add: put_object_def entry_of_def)
qed

section \<open>The platform\<close>

text \<open>
  The agent in the middle of the introduction: the provider has one platform, \<open>base\<close> at address
  \<open>p\<close>, with the devices \<open>devs\<close> under their identifiers.
\<close>

definition devices_at :: "'n agent \<Rightarrow> nat cset \<Rightarrow> global_id \<rightharpoonup> agent_device" where
  "devices_at ag s k = (case set_map s k of None \<Rightarrow> None | Some q \<Rightarrow> ag_device_heap ag q)"

definition intake :: "'n agent \<Rightarrow> nat \<Rightarrow> sd \<Rightarrow> nat \<Rightarrow> agent_platform \<Rightarrow> (global_id \<rightharpoonup> agent_device) \<Rightarrow> bool" where
  "intake ag v sd p base devs \<longleftrightarrow>
     object_inv ag \<and> 0 < p \<and>
     (\<exists>pv s. ag_provider_heap ag v = Some pv \<and> pv_attached pv \<and> pv_sd pv = sd \<and>
        set_wf (pv_platforms pv) \<and> set_room (pv_platforms pv) \<and> set_elems (pv_platforms pv) = [p] \<and>
        ag_platform_heap ag p = Some (base\<lparr>pf_devices := s\<rparr>) \<and> set_wf s \<and>
        dom (set_map s) \<subseteq> pool_ids (ag_id_pool ag) \<and> (\<forall>q\<in>ran (set_map s). q < ag_next ag) \<and>
        devices_at ag s = devs)"

lemma intake_net: "intake (ag\<lparr>ag_net := s\<rparr>) v sd p base devs = intake ag v sd p base devs"
proof -
  have "devices_at (ag\<lparr>ag_net := s\<rparr>) = devices_at ag"
    by (intro ext) (simp add: devices_at_def cong: option.case_cong)
  then show ?thesis by (simp add: intake_def object_inv_net)
qed

lemma set_insert_single:
  "\<exists>s. set_insert (set_create :: 'v cset) k x = Inr (s, True) \<and> set_wf s \<and> set_room s \<and> set_elems s = [x]"
proof -
  have c: "set_wf (set_create :: 'v cset)" "set_room (set_create :: 'v cset)" "k \<notin> dom (set_map (set_create :: 'v cset))"
    by (simp_all add: set_create_wf set_room_def set_count_entries)
  from set_insert_new [OF c, of x] obtain s where
    s: "set_insert set_create k x = Inr (s, True)" "set_wf s" "set_entries s = [(k, x)]"
    by (auto simp: set_create_wf)
  then have "set_room s" "set_elems s = [x]" by (simp_all add: set_room_def set_count_entries set_elems_def)
  with s show ?thesis by blast
qed

lemma handle_platform_info_correct:
  assumes inv: "object_inv ag" and card: "card (pool_ids (ag_id_pool ag)) \<le> 65534"
    and pv: "ag_provider_heap ag v = Some pv" "pv_attached pv" "pv_platforms pv = set_create"
    and k: "first_nonzero rs = Some k" "k \<notin> pool_ids (ag_id_pool ag)"
    and pid: "pid \<noteq> 0" and val: "\<forall>i. cstr (val i)" "\<And>i. q i = Some (val i)" "platform_message q pid = Inr msg"
    and net: "reliable net kk" "lk_ok kk (ag_net ag)" "10 \<le> lk_lim kk"
  shows "\<exists>ag'. handle_platform_info net rs ag v msg from = Inr (Some ag') \<and>
    adds kk (ag_net ag) (ag_net ag') (lk_out kk (pv_sd pv) from) [enc16 CLARA_MSG_OPENCL_PLATFORM_ID @ enc64 k] \<and>
    intake ag' v (pv_sd pv) (ag_next ag) (reported_platform val pid (blank_platform v k)) Map.empty \<and>
    pool_ids (ag_id_pool ag') = insert k (pool_ids (ag_id_pool ag)) \<and>
    object_table ag' = (object_table ag)(k \<mapsto> \<lparr>oe_real = pid, oe_provider = v, oe_consumer = 0, oe_refcnt = 0\<rparr>)"
proof -
  let ?p = "ag_next ag" and ?base = "reported_platform val pid (blank_platform v k)"
  have v0: "0 < v" and p0: "0 < ?p" using object_invD(7,4) [OF inv] pv(1) by auto
  from id_create_fresh [OF object_invD(2) [OF inv] pool_room(1) [OF inv card] k] obtain pool rs' where
    pool: "id_create (ag_id_pool ag) rs = Inr (Some (pool, k, rs'))" "k \<noteq> 0" "pool_wf pool"
      "pool_ids pool = insert k (pool_ids (ag_id_pool ag))" by blast
  let ?ag1 = "put_platform (ag\<lparr>ag_id_pool := pool, ag_next := ?p + 1\<rparr>) ?p (blank_platform v k)"
  have 1: "platform_create rs ag v = Inr (Some (?ag1, ?p))"
    using pv v0 pool(1) by (simp add: platform_create_def blank_platform_def)
  have "ag_platform_heap ?ag1 ?p = Some (blank_platform v k)" "?p \<noteq> 0" using p0 by (simp_all add: put_platform_def)
  from platform_init_message [OF val(1) this val(2), of pid] val(3)
  have 2: "platform_init ?ag1 ?p msg = Inr (put_platform ?ag1 ?p ?base, True)" by simp
  let ?ag2 = "put_platform ?ag1 ?p ?base"
  from set_insert_single [of k ?p] obtain s where
    s: "set_insert set_create k ?p = Inr (s, True)" "set_wf s" "set_room s" "set_elems s = [?p]" by blast
  let ?ag3 = "put_provider ?ag2 v (pv\<lparr>pv_platforms := s\<rparr>)"
  have "\<exists>ag' objs. object_create ?ag3 v pid k = Inr (ag', Some (ag_next ?ag3)) \<and> object_inv ag' \<and>
    ag' = ?ag3\<lparr>ag_objects := objs, ag_object_heap := ag_object_heap ag', ag_next := ag_next ?ag3 + 1\<rparr> \<and>
    object_table ag' = (object_table ag)(k \<mapsto> \<lparr>oe_real = pid, oe_provider = v, oe_consumer = 0, oe_refcnt = 0\<rparr>)"
    by (rule object_create_unowned [OF inv card k(2) pool(2) pid _ _ _ _ _ _ pv(1,2), of _ "pv\<lparr>pv_platforms := s\<rparr>"])
       (use pool pv in \<open>simp_all add: put_defs\<close>)
  then obtain ag4 objs where
    4: "object_create ?ag3 v pid k = Inr (ag4, Some (ag_next ?ag3))" "object_inv ag4"
      "ag4 = ?ag3\<lparr>ag_objects := objs, ag_object_heap := ag_object_heap ag4, ag_next := ag_next ?ag3 + 1\<rparr>"
      "object_table ag4 = (object_table ag)(k \<mapsto> \<lparr>oe_real = pid, oe_provider = v, oe_consumer = 0, oe_refcnt = 0\<rparr>)" by blast
  have f4: "ag_provider_heap ag4 v = Some (pv\<lparr>pv_platforms := s\<rparr>)" "ag_platform_heap ag4 ?p = Some ?base"
    "ag_id_pool ag4 = pool" "ag_net ag4 = ag_net ag"
    by (subst 4(3), simp add: put_defs)+
  from sendmsg_adds [OF net(1), of "ag_net ag4" "enc64 k" "pv_sd pv" CLARA_MSG_OPENCL_PLATFORM_ID "from"] net(2,3) f4(4)
  obtain s' where s': "clara_sendmsg net (ag_net ag4) (pv_sd pv) CLARA_MSG_OPENCL_PLATFORM_ID (enc64 k) from =
      Inr (s', Some (length (enc64 k)))"
    "adds kk (ag_net ag) s' (lk_out kk (pv_sd pv) from) [enc16 CLARA_MSG_OPENCL_PLATFORM_ID @ enc64 k]" by auto
  have run: "handle_platform_info net rs ag v msg from = Inr (Some (ag4\<lparr>ag_net := s'\<rparr>))"
    using 1 2 4(1) s(1) s'(1) pv p0 v0 f4 by (simp add: handle_platform_info_def deref_live put_defs Let_def)
  have "intake (ag4\<lparr>ag_net := s'\<rparr>) v (pv_sd pv) ?p ?base Map.empty"
    unfolding intake_def
    using 4(2) p0 f4 s pv(2)
    by (auto simp: object_inv_net devices_at_def set_create_wf fun_eq_iff reported_platform_def blank_platform_def
        intro!: exI [of _ set_create])
  with run s'(2) 4(4) f4 pool(4) show ?thesis by (auto simp: object_inv_net)
qed

section \<open>A device\<close>

lemma find_one_platform:
  assumes pv: "ag_provider_heap ag v = Some pv" "0 < v"
    and s: "set_wf (pv_platforms pv)" "set_room (pv_platforms pv)" "set_elems (pv_platforms pv) = [p]"
    and pf: "ag_platform_heap ag p = Some pf" "0 < p" "P pf"
  shows "\<exists>tr. find_in_platforms P ag v =
    Inr (put_provider ag v (pv\<lparr>pv_platforms := (pv_platforms pv)\<lparr>cs_trav := tr\<rparr>\<rparr>), p)"
proof -
  let ?body = "\<lambda>platform (ag', r). rbind (deref (ag_platform_heap ag') platform) (\<lambda>pf.
      Inr (if P pf then (True, ag', platform) else (False, ag', 0)))"
  from set_foreach_correct [OF s(1,2), of ?body "(ag, 0)"] obtain tr where
    "set_foreach ?body (pv_platforms pv) (ag, 0) = Inr ((pv_platforms pv)\<lparr>cs_trav := tr\<rparr>, ag, p)"
    using pf by (auto simp: s(3) deref_live)
  then show ?thesis using pv by (auto simp: find_in_platforms_def for_platforms_def deref_live)
qed

lemma devices_at_new:
  assumes "set_map s' = (set_map s)(k \<mapsto> q)" and "\<forall>q'\<in>ran (set_map s). q' < q" and "set_map s k = None"
    and "ag_device_heap ag' = (ag_device_heap ag)(q \<mapsto> dv)"
  shows "devices_at ag' s' = (devices_at ag s)(k \<mapsto> dv)"
proof
  fix j
  show "devices_at ag' s' j = ((devices_at ag s)(k \<mapsto> dv)) j"
  proof (cases "set_map s j")
    case (Some q')
    then have "q' < q" using assms(2) by (auto simp: ran_def)
    then show ?thesis using assms Some by (auto simp: devices_at_def)
  qed (use assms in \<open>auto simp: devices_at_def\<close>)
qed

lemma handle_device_info_correct:
  assumes st: "intake ag v sd p base devs" "pf_id base = pid" and card: "card (pool_ids (ag_id_pool ag)) \<le> 65534"
    and k: "first_nonzero rs = Some k" "k \<notin> pool_ids (ag_id_pool ag)"
    and d: "d \<noteq> 0" and val: "\<forall>i. reported val i" "\<And>i. q i = Some (val i)" "device_message q d = Inr msg"
      "dec64 (val DEVICE_PLATFORM) = pid"
    and net: "reliable net kk" "lk_ok kk (ag_net ag)" "10 \<le> lk_lim kk"
  shows "\<exists>ag'. handle_device_info net rs ag v msg from = Inr (Some ag') \<and>
    adds kk (ag_net ag) (ag_net ag') (lk_out kk sd from) [enc16 CLARA_MSG_OPENCL_DEVICE_ID @ enc64 k] \<and>
    intake ag' v sd p base (devs(k \<mapsto> reported_device val d (blank_device v k))) \<and>
    pool_ids (ag_id_pool ag') = insert k (pool_ids (ag_id_pool ag)) \<and>
    object_table ag' = (object_table ag)(k \<mapsto> \<lparr>oe_real = d, oe_provider = v, oe_consumer = 0, oe_refcnt = 0\<rparr>)"
proof -
  from st obtain pv ds where inv: "object_inv ag" and p0: "0 < p"
    and pv: "ag_provider_heap ag v = Some pv" "pv_attached pv" "pv_sd pv = sd"
    and ps: "set_wf (pv_platforms pv)" "set_room (pv_platforms pv)" "set_elems (pv_platforms pv) = [p]"
    and pf: "ag_platform_heap ag p = Some (base\<lparr>pf_devices := ds\<rparr>)"
    and ds: "set_wf ds" "dom (set_map ds) \<subseteq> pool_ids (ag_id_pool ag)" "\<forall>q\<in>ran (set_map ds). q < ag_next ag"
      "devices_at ag ds = devs" unfolding intake_def by blast
  let ?q = "ag_next ag" and ?dv = "reported_device val d (blank_device v k)"
  have v0: "0 < v" and q0: "0 < ?q" using object_invD(7,4) [OF inv] pv(1) by auto
  from id_create_fresh [OF object_invD(2) [OF inv] pool_room(1) [OF inv card] k] obtain pool rs' where
    pool: "id_create (ag_id_pool ag) rs = Inr (Some (pool, k, rs'))" "k \<noteq> 0" "pool_wf pool"
      "pool_ids pool = insert k (pool_ids (ag_id_pool ag))" by blast
  let ?ag1 = "put_device (ag\<lparr>ag_id_pool := pool, ag_next := ?q + 1\<rparr>) ?q (blank_device v k)"
  have 1: "device_create rs ag v = Inr (Some (?ag1, ?q))"
    using pv v0 pool(1) by (simp add: device_create_def blank_device_def)
  have "ag_device_heap ?ag1 ?q = Some (blank_device v k)" "?q \<noteq> 0" using q0 by (simp_all add: put_device_def)
  from device_init_message [OF val(1) this val(2), of d] val(3)
  have 2: "device_init ?ag1 ?q msg = Inr (put_device ?ag1 ?q ?dv, True)" by simp
  let ?ag2 = "put_device (put_device ?ag1 ?q ?dv) ?q ?dv"
  have "ag_provider_heap ?ag2 v = Some pv" "ag_platform_heap ?ag2 p = Some (base\<lparr>pf_devices := ds\<rparr>)"
    "pf_id (base\<lparr>pf_devices := ds\<rparr>) = pid" using pv pf st(2) by (simp_all add: put_device_def)
  from find_one_platform [OF this(1) v0 ps this(2) p0, where P = "\<lambda>pf. pf_id pf = pid", OF this(3)] obtain tr where
    3: "agent_find_platform_by_local_id ?ag2 v pid =
      Inr (put_provider ?ag2 v (pv\<lparr>pv_platforms := (pv_platforms pv)\<lparr>cs_trav := tr\<rparr>\<rparr>), p)"
    by (auto simp: agent_find_platform_by_local_id_def)
  let ?pv = "pv\<lparr>pv_platforms := (pv_platforms pv)\<lparr>cs_trav := tr\<rparr>\<rparr>"
  have new: "k \<notin> dom (set_map ds)" using ds(2) k(2) by blast
  from set_insert_map [OF ds(1) room_of_pool [OF ds(1,2) object_count(2) [OF inv] card] new, of ?q] obtain ds' where
    ds': "set_insert ds k ?q = Inr (ds', True)" "set_wf ds'" "set_map ds' = (set_map ds)(k \<mapsto> ?q)" by blast
  let ?ag3 = "put_platform (put_provider ?ag2 v ?pv) p (base\<lparr>pf_devices := ds'\<rparr>)"
  have "\<exists>ag' objs. object_create ?ag3 v d k = Inr (ag', Some (ag_next ?ag3)) \<and> object_inv ag' \<and>
    ag' = ?ag3\<lparr>ag_objects := objs, ag_object_heap := ag_object_heap ag', ag_next := ag_next ?ag3 + 1\<rparr> \<and>
    object_table ag' = (object_table ag)(k \<mapsto> \<lparr>oe_real = d, oe_provider = v, oe_consumer = 0, oe_refcnt = 0\<rparr>)"
    by (rule object_create_unowned [OF inv card k(2) pool(2) d _ _ _ _ _ _ pv(1,2), of _ ?pv])
       (use pool pv in \<open>simp_all add: put_defs\<close>)
  then obtain ag4 objs where
    4: "object_create ?ag3 v d k = Inr (ag4, Some (ag_next ?ag3))" "object_inv ag4"
      "ag4 = ?ag3\<lparr>ag_objects := objs, ag_object_heap := ag_object_heap ag4, ag_next := ag_next ?ag3 + 1\<rparr>"
      "object_table ag4 = (object_table ag)(k \<mapsto> \<lparr>oe_real = d, oe_provider = v, oe_consumer = 0, oe_refcnt = 0\<rparr>)" by blast
  have f4: "ag_provider_heap ag4 v = Some ?pv" "ag_platform_heap ag4 p = Some (base\<lparr>pf_devices := ds'\<rparr>)"
    "ag_id_pool ag4 = pool" "ag_net ag4 = ag_net ag" "ag_next ag4 = ?q + 2"
    "ag_device_heap ag4 = (ag_device_heap ag)(?q \<mapsto> ?dv)"
    by (subst 4(3), simp add: put_defs)+
  from sendmsg_adds [OF net(1), of "ag_net ag4" "enc64 k" "pv_sd pv" CLARA_MSG_OPENCL_DEVICE_ID "from"] net(2,3) f4(4)
  obtain s' where s': "clara_sendmsg net (ag_net ag4) (pv_sd pv) CLARA_MSG_OPENCL_DEVICE_ID (enc64 k) from =
      Inr (s', Some (length (enc64 k)))"
    "adds kk (ag_net ag) s' (lk_out kk (pv_sd pv) from) [enc16 CLARA_MSG_OPENCL_DEVICE_ID @ enc64 k]" by auto
  have plat: "dv_platform_id ?dv = pid" using reported_device_platform [OF val(1)] val(4) by simp
  have run: "handle_device_info net rs ag v msg from = Inr (Some (ag4\<lparr>ag_net := s'\<rparr>))"
    using 1 2 3 4(1) ds'(1) s'(1) pv pf p0 q0 v0 f4 plat
    by (simp add: handle_device_info_def deref_live put_defs Let_def)
  have "devices_at (ag4\<lparr>ag_net := s'\<rparr>) ds' = devs(k \<mapsto> ?dv)"
    using devices_at_new [OF ds'(3) ds(3), of "ag4\<lparr>ag_net := s'\<rparr>" ag ?dv] new f4(6) ds(4) by auto
  moreover have "\<forall>q\<in>ran (set_map ds'). q < ag_next ag4"
    using ds(3) new f4(5) unfolding ds'(3) by (force simp: ran_map_upd)
  moreover have "dom (set_map ds') \<subseteq> pool_ids pool" using ds(2) ds'(3) pool(4) by auto
  ultimately have "intake (ag4\<lparr>ag_net := s'\<rparr>) v sd p base (devs(k \<mapsto> ?dv))"
    unfolding intake_def
    using 4(2) p0 f4 ps pv ds'(2)
    by (auto simp: object_inv_net intro!: exI [of _ ds'])
  with run s'(2) 4(4) f4 pool(4) pv(3) show ?thesis by (auto simp: object_inv_net)
qed

section \<open>The agent's thread\<close>

text \<open>
  A device that is introduced: its identifier at the vendor's library and its parameters, with
  the random numbers that are drawn for it and the identifier among them.
\<close>

record newcomer =
  nc_id :: arg
  nc_info :: "device_info \<Rightarrow> byte list"
  nc_rand :: "int list"
  nc_key :: global_id

definition device_msg :: "newcomer \<Rightarrow> byte list" where
  "device_msg x = concat (map (nc_info x) device_info_list) @ enc64 (nc_id x)"

definition newcomer_ok :: "arg \<Rightarrow> newcomer \<Rightarrow> bool" where
  "newcomer_ok pid x \<longleftrightarrow> nc_id x \<noteq> 0 \<and> (\<forall>i. reported (nc_info x) i) \<and> dec64 (nc_info x DEVICE_PLATFORM) = pid \<and>
     first_nonzero (nc_rand x) = Some (nc_key x) \<and> length (device_msg x) \<le> PROVIDER_BUFSZ"

lemma device_msg_message: "(\<And>i. q i = Some (nc_info x i)) \<Longrightarrow> device_message q (nc_id x) = Inr (device_msg x)"
  by (simp add: device_message_def device_msg_def info_bytes_all)

definition known_devices :: "nat \<Rightarrow> newcomer list \<Rightarrow> global_id \<rightharpoonup> agent_device" where
  "known_devices v xs = map_of (map (\<lambda>x. (nc_key x, reported_device (nc_info x) (nc_id x) (blank_device v (nc_key x)))) xs)"

definition known_objects :: "nat \<Rightarrow> newcomer list \<Rightarrow> global_id \<rightharpoonup> object_entry" where
  "known_objects v xs =
     map_of (map (\<lambda>x. (nc_key x, \<lparr>oe_real = nc_id x, oe_provider = v, oe_consumer = 0, oe_refcnt = 0\<rparr>)) xs)"

lemma known_dom [simp]:
  "dom (known_devices v xs) = nc_key ` set xs" "dom (known_objects v xs) = nc_key ` set xs"
  by (simp_all add: known_devices_def known_objects_def dom_map_of_conv_image_fst image_image)

lemma known_Nil [simp]: "known_devices v [] = Map.empty" "known_objects v [] = Map.empty"
  by (simp_all add: known_devices_def known_objects_def)

lemma known_Cons:
  assumes "nc_key x \<notin> nc_key ` set xs"
  shows "m ++ known_devices v (x # xs) =
      m(nc_key x \<mapsto> reported_device (nc_info x) (nc_id x) (blank_device v (nc_key x))) ++ known_devices v xs"
    and "n ++ known_objects v (x # xs) =
      n(nc_key x \<mapsto> \<lparr>oe_real = nc_id x, oe_provider = v, oe_consumer = 0, oe_refcnt = 0\<rparr>) ++ known_objects v xs"
  using assms known_dom by (simp_all add: known_devices_def known_objects_def map_add_upd_left)

lemma introduction_types:
  "CLARA_MSG_IDLE \<noteq> CLARA_MSG_OPENCL_DEVICE_INFO" "CLARA_MSG_IDLE \<noteq> CLARA_MSG_OPENCL_PLATFORM_INFO"
  "CLARA_MSG_OPENCL_DEVICE_INFO \<noteq> CLARA_MSG_OPENCL_PLATFORM_INFO"
  by (simp_all add: CLARA_MSG_IDLE_def CLARA_MSG_OPENCL_DEVICE_INFO_def CLARA_MSG_OPENCL_PLATFORM_INFO_def)

lemma intake_devices:
  assumes net: "reliable net kk" "10 \<le> lk_lim kk"
    and chan: "\<And>fr. lk_out kk sd fr = out" "out \<noteq> lk_inp kk sd" and base: "pf_id base = pid"
  shows "intake ag v sd p base devs \<Longrightarrow> card (pool_ids (ag_id_pool ag)) + length xs \<le> 65534 \<Longrightarrow>
    \<forall>x\<in>set xs. newcomer_ok pid x \<Longrightarrow> distinct (map nc_key xs) \<Longrightarrow> nc_key ` set xs \<inter> pool_ids (ag_id_pool ag) = {} \<Longrightarrow>
    lk_ok kk (ag_net ag) \<Longrightarrow>
    lk_queue kk (ag_net ag) (lk_inp kk sd) =
      map (\<lambda>x. enc16 CLARA_MSG_OPENCL_DEVICE_INFO @ device_msg x) xs @ [enc16 CLARA_MSG_IDLE] @ ms \<Longrightarrow>
    \<exists>ag'. provider_intake net ev (map nc_rand xs @ rs # rss) ag v = Inr (ag', True) \<and>
      moves kk (ag_net ag) (ag_net ag') (lk_inp kk sd) ms out (map (\<lambda>x. enc16 CLARA_MSG_OPENCL_DEVICE_ID @ enc64 (nc_key x)) xs) \<and>
      intake ag' v sd p base (devs ++ known_devices v xs) \<and>
      object_table ag' = object_table ag ++ known_objects v xs"
proof (induction xs arbitrary: ag devs)
  case Nil
  from Nil.prems(1) obtain pv where pv: "ag_provider_heap ag v = Some pv" "pv_sd pv = sd" "0 < v"
    unfolding intake_def using object_invD(7) by blast
  have "lk_queue kk (ag_net ag) (lk_inp kk sd) = (enc16 CLARA_MSG_IDLE @ []) # ms" using Nil.prems(7) by simp
  from recvmsg_leaves [OF net(1) Nil.prems(6) this, of PROVIDER_BUFSZ CLARA_MSG_INVALID] obtain s fr where
    s: "clara_recvmsg net (ag_net ag) sd CLARA_MSG_INVALID PROVIDER_BUFSZ = Inr (s, Some \<lparr>cm_type = CLARA_MSG_IDLE,
      cm_bytes = [], cm_from = fr, cm_notification = False\<rparr>)" "leaves kk (ag_net ag) s (lk_inp kk sd) ms" by auto
  have "provider_intake net ev (rs # rss) ag v = Inr (ag\<lparr>ag_net := s\<rparr>, True)"
    using pv s(1) by (simp add: deref_live provider_message_def introduction_types Let_def)
  moreover have "moves kk (ag_net ag) s (lk_inp kk sd) ms out []"
    using s(2) chan(2) by (auto simp: leaves_def moves_def fun_eq_iff)
  moreover have "intake (ag\<lparr>ag_net := s\<rparr>) v sd p base devs"
    using Nil.prems(1) by (simp add: intake_net)
  ultimately show ?case by (auto simp: object_inv_net)
next
  case (Cons x xs)
  from Cons.prems(1) obtain pv where pv: "ag_provider_heap ag v = Some pv" "pv_sd pv = sd" "0 < v"
    unfolding intake_def using object_invD(7) by blast
  have x: "nc_id x \<noteq> 0" "\<forall>i. reported (nc_info x) i" "dec64 (nc_info x DEVICE_PLATFORM) = pid"
    "first_nonzero (nc_rand x) = Some (nc_key x)" "length (device_msg x) \<le> PROVIDER_BUFSZ"
    using Cons.prems(3) by (auto simp: newcomer_ok_def)
  from Cons.prems(7) have "lk_queue kk (ag_net ag) (lk_inp kk sd) = (enc16 CLARA_MSG_OPENCL_DEVICE_INFO @ device_msg x) #
    (map (\<lambda>x. enc16 CLARA_MSG_OPENCL_DEVICE_INFO @ device_msg x) xs @ [enc16 CLARA_MSG_IDLE] @ ms)" by simp
  from recvmsg_leaves [OF net(1) Cons.prems(6) this x(5), of CLARA_MSG_INVALID] obtain s fr where
    s: "clara_recvmsg net (ag_net ag) sd CLARA_MSG_INVALID PROVIDER_BUFSZ = Inr (s, Some \<lparr>cm_type =
      CLARA_MSG_OPENCL_DEVICE_INFO, cm_bytes = device_msg x, cm_from = fr, cm_notification = False\<rparr>)"
      "leaves kk (ag_net ag) s (lk_inp kk sd)
        (map (\<lambda>x. enc16 CLARA_MSG_OPENCL_DEVICE_INFO @ device_msg x) xs @ [enc16 CLARA_MSG_IDLE] @ ms)" by blast
  let ?ag = "ag\<lparr>ag_net := s\<rparr>"
  have a: "intake ?ag v sd p base devs" "card (pool_ids (ag_id_pool ?ag)) \<le> 65534" "nc_key x \<notin> pool_ids (ag_id_pool ?ag)"
    "lk_ok kk (ag_net ?ag)"
    using Cons.prems(1,2,5) s(2) by (auto simp: intake_net leaves_def)
  from handle_device_info_correct [OF a(1) base a(2) x(4) a(3) x(1,2) refl device_msg_message [OF refl] x(3) net(1) a(4) net(2),
      of fr] obtain ag1 where
    ag1: "handle_device_info net (nc_rand x) ?ag v (device_msg x) fr = Inr (Some ag1)"
      "adds kk s (ag_net ag1) out [enc16 CLARA_MSG_OPENCL_DEVICE_ID @ enc64 (nc_key x)]"
      "intake ag1 v sd p base (devs(nc_key x \<mapsto> reported_device (nc_info x) (nc_id x) (blank_device v (nc_key x))))"
      "pool_ids (ag_id_pool ag1) = insert (nc_key x) (pool_ids (ag_id_pool ag))"
      "object_table ag1 = (object_table ag)(nc_key x \<mapsto> \<lparr>oe_real = nc_id x, oe_provider = v, oe_consumer = 0, oe_refcnt = 0\<rparr>)"
    using chan(1) by (auto simp: object_inv_net)
  have step: "provider_intake net ev (map nc_rand (x # xs) @ rs # rss) ag v =
      provider_intake net ev (map nc_rand xs @ rs # rss) ag1 v"
    using pv s(1) ag1(1) by (simp add: deref_live provider_message_def introduction_types Let_def)
  have fin: "finite (pool_ids (ag_id_pool ag))" using Cons.prems(1) object_count(2) by (auto simp: intake_def)
  have rest: "card (pool_ids (ag_id_pool ag1)) + length xs \<le> 65534" "nc_key ` set xs \<inter> pool_ids (ag_id_pool ag1) = {}"
    "\<forall>x\<in>set xs. newcomer_ok pid x" "distinct (map nc_key xs)" "nc_key x \<notin> nc_key ` set xs" "lk_ok kk (ag_net ag1)"
    "lk_queue kk (ag_net ag1) (lk_inp kk sd) =
      map (\<lambda>x. enc16 CLARA_MSG_OPENCL_DEVICE_INFO @ device_msg x) xs @ [enc16 CLARA_MSG_IDLE] @ ms"
    using Cons.prems fin ag1(2,4) s(2) chan(2) a(3) by (auto simp: adds_def leaves_def card_insert_if)
  note kn = known_Cons [OF rest(5)]
  from Cons.IH [OF ag1(3) rest(1,3,4,2,6,7)] obtain ag' where
    ag': "provider_intake net ev (map nc_rand xs @ rs # rss) ag1 v = Inr (ag', True)"
      "moves kk (ag_net ag1) (ag_net ag') (lk_inp kk sd) ms out (map (\<lambda>x. enc16 CLARA_MSG_OPENCL_DEVICE_ID @ enc64 (nc_key x)) xs)"
      "intake ag' v sd p base (devs ++ known_devices v (x # xs))" "object_table ag' = object_table ag ++ known_objects v (x # xs)"
    unfolding kn ag1(5) by blast
  have "moves kk (ag_net ag) (ag_net ag') (lk_inp kk sd) ms out
      (map (\<lambda>x. enc16 CLARA_MSG_OPENCL_DEVICE_ID @ enc64 (nc_key x)) (x # xs))"
    using ag'(2) ag1(2) s(2) chan(2) by (auto simp: adds_def leaves_def moves_def fun_eq_iff)
  with step ag' show ?case by auto
qed

definition platform_msg :: "(platform_info \<Rightarrow> byte list) \<Rightarrow> arg \<Rightarrow> byte list" where
  "platform_msg val pid = concat (map val platform_info_list) @ enc64 pid"

lemma platform_msg_message: "(\<And>i. q i = Some (val i)) \<Longrightarrow> platform_message q pid = Inr (platform_msg val pid)"
  by (simp add: platform_message_def platform_msg_def info_bytes_all)

lemma provider_intake_correct:
  assumes inv: "object_inv ag" and card: "card (pool_ids (ag_id_pool ag)) + length xs < 65534"
    and pv: "ag_provider_heap ag v = Some pv" "pv_attached pv" "pv_platforms pv = set_create"
    and pid: "pid \<noteq> 0" "\<forall>i. cstr (val i)" "length (platform_msg val pid) \<le> PROVIDER_BUFSZ" "first_nonzero rs0 = Some k"
    and xs: "\<forall>x\<in>set xs. newcomer_ok pid x" "distinct (k # map nc_key xs)"
      "insert k (nc_key ` set xs) \<inter> pool_ids (ag_id_pool ag) = {}"
    and net: "reliable net kk" "10 \<le> lk_lim kk" "lk_ok kk (ag_net ag)"
    and chan: "\<And>fr. lk_out kk (pv_sd pv) fr = out" "out \<noteq> lk_inp kk (pv_sd pv)"
    and q: "lk_queue kk (ag_net ag) (lk_inp kk (pv_sd pv)) = (enc16 CLARA_MSG_OPENCL_PLATFORM_INFO @ platform_msg val pid) #
      map (\<lambda>x. enc16 CLARA_MSG_OPENCL_DEVICE_INFO @ device_msg x) xs @ [enc16 CLARA_MSG_IDLE] @ ms"
  shows "\<exists>ag'. provider_intake net ev (rs0 # map nc_rand xs @ rs # rss) ag v = Inr (ag', True) \<and>
    moves kk (ag_net ag) (ag_net ag') (lk_inp kk (pv_sd pv)) ms out ((enc16 CLARA_MSG_OPENCL_PLATFORM_ID @ enc64 k) #
      map (\<lambda>x. enc16 CLARA_MSG_OPENCL_DEVICE_ID @ enc64 (nc_key x)) xs) \<and>
    intake ag' v (pv_sd pv) (ag_next ag) (reported_platform val pid (blank_platform v k)) (known_devices v xs) \<and>
    object_table ag' = (object_table ag)(k \<mapsto> \<lparr>oe_real = pid, oe_provider = v, oe_consumer = 0, oe_refcnt = 0\<rparr>) ++
      known_objects v xs"
proof -
  have v0: "0 < v" using object_invD(7) [OF inv] pv(1) by auto
  from recvmsg_leaves [OF net(1,3) q pid(3), of CLARA_MSG_INVALID] obtain s fr where
    s: "clara_recvmsg net (ag_net ag) (pv_sd pv) CLARA_MSG_INVALID PROVIDER_BUFSZ = Inr (s, Some \<lparr>cm_type =
      CLARA_MSG_OPENCL_PLATFORM_INFO, cm_bytes = platform_msg val pid, cm_from = fr, cm_notification = False\<rparr>)"
      "leaves kk (ag_net ag) s (lk_inp kk (pv_sd pv))
        (map (\<lambda>x. enc16 CLARA_MSG_OPENCL_DEVICE_INFO @ device_msg x) xs @ [enc16 CLARA_MSG_IDLE] @ ms)" by blast
  let ?ag = "ag\<lparr>ag_net := s\<rparr>" and ?base = "reported_platform val pid (blank_platform v k)"
  have a: "object_inv ?ag" "card (pool_ids (ag_id_pool ?ag)) \<le> 65534" "ag_provider_heap ?ag v = Some pv"
    "k \<notin> pool_ids (ag_id_pool ?ag)" "lk_ok kk (ag_net ?ag)"
    using inv card pv xs(3) s(2) by (auto simp: object_inv_net leaves_def)
  from handle_platform_info_correct [OF a(1,2,3) pv(2,3) pid(4) a(4) pid(1,2) refl platform_msg_message [OF refl]
      net(1) a(5) net(2), of fr] obtain ag1 where
    ag1: "handle_platform_info net rs0 ?ag v (platform_msg val pid) fr = Inr (Some ag1)"
      "adds kk s (ag_net ag1) out [enc16 CLARA_MSG_OPENCL_PLATFORM_ID @ enc64 k]"
      "intake ag1 v (pv_sd pv) (ag_next ag) ?base Map.empty"
      "pool_ids (ag_id_pool ag1) = insert k (pool_ids (ag_id_pool ag))"
      "object_table ag1 = (object_table ag)(k \<mapsto> \<lparr>oe_real = pid, oe_provider = v, oe_consumer = 0, oe_refcnt = 0\<rparr>)"
    using chan(1) by (auto simp: object_inv_net)
  have rest: "card (pool_ids (ag_id_pool ag1)) + length xs \<le> 65534" "distinct (map nc_key xs)"
    "nc_key ` set xs \<inter> pool_ids (ag_id_pool ag1) = {}" "lk_ok kk (ag_net ag1)"
    "lk_queue kk (ag_net ag1) (lk_inp kk (pv_sd pv)) =
      map (\<lambda>x. enc16 CLARA_MSG_OPENCL_DEVICE_INFO @ device_msg x) xs @ [enc16 CLARA_MSG_IDLE] @ ms"
    using card xs(2,3) ag1(2,4) s(2) chan(2) object_count(2) [OF inv] by (auto simp: adds_def leaves_def card_insert_if)
  from intake_devices [OF net(1,2) chan _ ag1(3) rest(1) xs(1) rest(2-5), of ev rs rss] obtain ag' where
    ag': "provider_intake net ev (map nc_rand xs @ rs # rss) ag1 v = Inr (ag', True)"
      "moves kk (ag_net ag1) (ag_net ag') (lk_inp kk (pv_sd pv)) ms out
        (map (\<lambda>x. enc16 CLARA_MSG_OPENCL_DEVICE_ID @ enc64 (nc_key x)) xs)"
      "intake ag' v (pv_sd pv) (ag_next ag) ?base (known_devices v xs)"
      "object_table ag' = object_table ag1 ++ known_objects v xs" by auto
  have "provider_intake net ev (rs0 # map nc_rand xs @ rs # rss) ag v = Inr (ag', True)"
    using pv v0 s(1) ag1(1) ag'(1) by (simp add: deref_live provider_message_def introduction_types Let_def)
  moreover have "moves kk (ag_net ag) (ag_net ag') (lk_inp kk (pv_sd pv)) ms out ((enc16 CLARA_MSG_OPENCL_PLATFORM_ID @ enc64 k) #
      map (\<lambda>x. enc16 CLARA_MSG_OPENCL_DEVICE_ID @ enc64 (nc_key x)) xs)"
    using ag'(2) ag1(2) s(2) chan(2) by (auto simp: adds_def leaves_def moves_def fun_eq_iff)
  ultimately show ?thesis using ag'(3,4) unfolding ag1(5) by blast
qed

end
