(* ===== verification/Provider_Startup.thy ===== *)
theory Provider_Startup
  imports Agent_Intake Provider_Process Provider_Laws
begin

text \<open>
  The provider's side of its introduction (\<^verbatim>\<open>provider_startup\<close>): the messages that describe its
  platform and its devices, and the identifiers that answer them.
\<close>

lemma pr_inv_same:
  assumes "pr_id_map pr' = pr_id_map pr" and "pr_allocations pr' = pr_allocations pr" and "pr_mem pr' = pr_mem pr"
  shows "pr_inv pr' = pr_inv pr" and "pr_ids pr' = pr_ids pr"
proof -
  show ids: "pr_ids pr' = pr_ids pr" by (rule ext) (simp only: pr_ids_def assms(1))
  have "pr_owns pr' = pr_owns pr" by (intro ext) (simp only: pr_owns_def assms(2))
  moreover have "pr_alloc_ok pr' = pr_alloc_ok pr" by (intro ext) (simp only: pr_alloc_ok_def ids assms(3))
  ultimately show "pr_inv pr' = pr_inv pr" by (simp only: pr_inv_def assms)
qed

lemma pr_map_room:
  assumes "pr_inv pr" and "card (dom (pr_ids pr)) \<le> 65534"
  shows "set_room (pr_id_map pr)" and "finite (dom (pr_ids pr))"
proof -
  have d: "dom (pr_ids pr) = dom (set_map (pr_id_map pr))" by (auto simp: pr_ids_def)
  show "finite (dom (pr_ids pr))" unfolding d by (simp add: set_map_dom)
  show "set_room (pr_id_map pr)"
    using set_count_map [OF pr_invD(2) [OF assms(1)]] assms(2) unfolding d by (simp add: set_room_def)
qed

lemma recv_global_id_correct:
  assumes "reliable net kk" and "lk_ok kk (pr_net pr)"
    and "lk_queue kk (pr_net pr) (lk_inp kk (pr_sd pr)) = (enc16 t @ enc64 k) # ms"
  shows "\<exists>s. recv_global_id net pr t' = Inr (pr\<lparr>pr_net := s\<rparr>, k) \<and> leaves kk (pr_net pr) s (lk_inp kk (pr_sd pr)) ms"
proof -
  from recvmsg_leaves [OF assms, of 8 t'] obtain s fr where
    "clara_recvmsg net (pr_net pr) (pr_sd pr) t' 8 = Inr (s, Some \<lparr>cm_type = t, cm_bytes = enc64 k, cm_from = fr,
      cm_notification = False\<rparr>)" "leaves kk (pr_net pr) s (lk_inp kk (pr_sd pr)) ms" by auto
  then show ?thesis by (auto simp: recv_global_id_def provider_agent_recvmsg_def dec_enc)
qed

section \<open>A device\<close>

text \<open>The provider while it introduces the devices of its platform.\<close>

definition introducing ::
  "('n, 'o) clara_provider \<Rightarrow> sd \<Rightarrow> sockaddr \<Rightarrow> nat \<Rightarrow> arg \<Rightarrow> (global_id \<rightharpoonup> arg) \<Rightarrow> nat \<Rightarrow> bool"
where
  "introducing pr sd agent platform pid ids n \<longleftrightarrow>
     pr_inv pr \<and> pr_ids pr = ids \<and> pr_sd pr = sd \<and> pr_agent pr = agent \<and> pr_opts_device pr = -1 \<and> 0 < platform \<and>
     (\<exists>g s. pr_platform_heap pr platform = Some \<lparr>plt_id = pid, plt_global_id = g, plt_devices = Some s\<rparr> \<and>
        set_wf s \<and> card (dom (set_map s)) \<le> n \<and> dom (set_map s) \<subseteq> of_nat ` {..<pr_next pr})"

lemma startup_device_correct:
  assumes st: "introducing pr sd agent platform pid ids n" "card (dom ids) \<le> 65534" "n \<le> 65534" "pr_next pr < 2 ^ 64"
    and q: "\<And>i. vd_device_info vd (nc_id x) i = Some (nc_info x i)" and new: "ids (nc_key x) = None"
    and net: "reliable net kk" "lk_ok kk (pr_net pr)" "length (device_msg x) + 2 \<le> lk_lim kk"
    and chan: "lk_out kk sd agent \<noteq> lk_inp kk sd"
    and resp: "lk_queue kk (pr_net pr) (lk_inp kk sd) = (enc16 CLARA_MSG_OPENCL_DEVICE_ID @ enc64 (nc_key x)) # ms"
  shows "\<exists>pr'. startup_device net vd pr platform (nc_id x) = Inr pr' \<and>
    introducing pr' sd agent platform pid (ids(nc_key x \<mapsto> nc_id x)) (Suc n) \<and> pr_next pr' = pr_next pr + 1 \<and>
    pr_platforms pr' = pr_platforms pr \<and> pr_vendor pr' = pr_vendor pr \<and>
    moves kk (pr_net pr) (pr_net pr') (lk_inp kk sd) ms (lk_out kk sd agent)
      [enc16 CLARA_MSG_OPENCL_DEVICE_INFO @ device_msg x]"
proof -
  from st(1) obtain g s where inv: "pr_inv pr" "pr_ids pr = ids" "pr_sd pr = sd" "pr_agent pr = agent"
    "pr_opts_device pr = -1" "0 < platform"
    and pf: "pr_platform_heap pr platform = Some \<lparr>plt_id = pid, plt_global_id = g, plt_devices = Some s\<rparr>"
    and s: "set_wf s" "card (dom (set_map s)) \<le> n" "dom (set_map s) \<subseteq> of_nat ` {..<pr_next pr}"
    unfolding introducing_def by blast
  let ?d = "pr_next pr" and ?key = "of_nat (pr_next pr) :: global_id"
  have fresh: "?key \<notin> dom (set_map s)"
  proof
    assume "?key \<in> dom (set_map s)"
    then obtain j where j: "j < ?d" "?key = of_nat j" using s(3) by auto
    then have "unat ?key = unat (of_nat j :: global_id)" by simp
    then show False using j(1) st(4) by (simp add: unat_of_nat)
  qed
  have "set_room s" using set_count_map [OF s(1)] s(2) st(3) by (simp add: set_room_def)
  from set_insert_map [OF s(1) this fresh, of ?d] obtain s' where
    s': "set_insert s ?key ?d = Inr (s', True)" "set_wf s'" "set_map s' = (set_map s)(?key \<mapsto> ?d)" by blast
  let ?pr1 = "pr\<lparr>pr_next := ?d + 1,
    pr_platform_heap := (pr_platform_heap pr)(platform \<mapsto> \<lparr>plt_id = pid, plt_global_id = g, plt_devices = Some s'\<rparr>),
    pr_device_heap := (pr_device_heap pr)(?d \<mapsto> \<lparr>dvc_id = nc_id x, dvc_global_id = 0\<rparr>)\<rparr>"
  from sendmsg_adds [OF net, of sd CLARA_MSG_OPENCL_DEVICE_INFO agent] obtain n1 where
    n1: "clara_sendmsg net (pr_net pr) sd CLARA_MSG_OPENCL_DEVICE_INFO (device_msg x) agent =
        Inr (n1, Some (length (device_msg x)))"
      "adds kk (pr_net pr) n1 (lk_out kk sd agent) [enc16 CLARA_MSG_OPENCL_DEVICE_INFO @ device_msg x]" by auto
  have send: "provider_agent_sendmsg net ?pr1 CLARA_MSG_OPENCL_DEVICE_INFO (device_msg x) =
      Inr (?pr1\<lparr>pr_net := n1\<rparr>, Some (length (device_msg x)))"
    using n1(1) inv(3,4) by (simp add: provider_agent_sendmsg_def)
  have "lk_ok kk (pr_net (?pr1\<lparr>pr_net := n1\<rparr>))"
    "lk_queue kk (pr_net (?pr1\<lparr>pr_net := n1\<rparr>)) (lk_inp kk (pr_sd (?pr1\<lparr>pr_net := n1\<rparr>))) =
      (enc16 CLARA_MSG_OPENCL_DEVICE_ID @ enc64 (nc_key x)) # ms"
    using n1(2) chan resp inv(3) by (auto simp: adds_def)
  from recv_global_id_correct [OF net(1) this, of CLARA_MSG_OPENCL_DEVICE_ID] inv(3) obtain n2 where
    recv: "recv_global_id net (?pr1\<lparr>pr_net := n1\<rparr>) CLARA_MSG_OPENCL_DEVICE_ID = Inr (?pr1\<lparr>pr_net := n2\<rparr>, nc_key x)"
      "leaves kk n1 n2 (lk_inp kk sd) ms" by auto
  let ?pr4 = "?pr1\<lparr>pr_net := n2,
    pr_device_heap := (pr_device_heap ?pr1)(?d \<mapsto> \<lparr>dvc_id = nc_id x, dvc_global_id = nc_key x\<rparr>)\<rparr>"
  have "pr_inv ?pr4 = pr_inv pr" "pr_ids ?pr4 = pr_ids pr" by (rule pr_inv_same; simp)+
  then have pr4: "pr_inv ?pr4" "set_room (pr_id_map ?pr4)" "pr_ids ?pr4 (nc_key x) = None" "pr_ids ?pr4 = ids"
    using inv(1,2) pr_map_room [of pr] st(2) new by auto
  from add_mapping_correct [OF pr4(1-3), of "nc_id x"] obtain m where
    m: "add_mapping ?pr4 (nc_id x) (nc_key x) = Inr (?pr4\<lparr>pr_id_map := m\<rparr>)" "pr_inv (?pr4\<lparr>pr_id_map := m\<rparr>)"
      "pr_ids (?pr4\<lparr>pr_id_map := m\<rparr>) = ids(nc_key x \<mapsto> nc_id x)" unfolding pr4(4) by blast
  have run: "startup_device net vd pr platform (nc_id x) = Inr (?pr4\<lparr>pr_id_map := m\<rparr>)"
    using pf inv(6) s'(1) device_msg_message [of "vd_device_info vd (nc_id x)" x, OF q] send recv(1) m(1)
    by (simp add: startup_device_def deref_live Let_def)
  have "card (dom (set_map s')) \<le> Suc n" "dom (set_map s') \<subseteq> of_nat ` {..<?d + 1}"
    using s(2,3) fresh by (auto simp: s'(3) card_insert_if set_map_dom)
  then have "introducing (?pr4\<lparr>pr_id_map := m\<rparr>) sd agent platform pid (ids(nc_key x \<mapsto> nc_id x)) (Suc n)"
    unfolding introducing_def using m(2,3) inv s'(2) by simp
  moreover have "moves kk (pr_net pr) n2 (lk_inp kk sd) ms (lk_out kk sd agent)
      [enc16 CLARA_MSG_OPENCL_DEVICE_INFO @ device_msg x]"
    using n1(2) recv(2) chan by (auto simp: adds_def leaves_def moves_def)
  ultimately show ?thesis using run by (intro exI [of _ "?pr4\<lparr>pr_id_map := m\<rparr>"]) simp
qed

section \<open>All devices\<close>

definition known_ids :: "newcomer list \<Rightarrow> global_id \<rightharpoonup> arg" where
  "known_ids xs = map_of (map (\<lambda>x. (nc_key x, nc_id x)) xs)"

lemma known_ids_Nil [simp]: "known_ids [] = Map.empty"
  by (simp add: known_ids_def)

lemma known_ids_Cons:
  assumes "nc_key x \<notin> nc_key ` set xs"
  shows "m ++ known_ids (x # xs) = m(nc_key x \<mapsto> nc_id x) ++ known_ids xs"
proof -
  have "dom (known_ids xs) = nc_key ` set xs" by (simp add: known_ids_def dom_map_of_conv_image_fst image_image)
  with assms show ?thesis by (simp add: known_ids_def map_add_upd_left)
qed

lemma startup_devices_correct:
  assumes net: "reliable net kk" and chan: "lk_out kk sd agent \<noteq> lk_inp kk sd"
    and q: "\<And>x i. x \<in> set xs \<Longrightarrow> vd_device_info vd (nc_id x) i = Some (nc_info x i)"
      "\<And>x. x \<in> set xs \<Longrightarrow> length (device_msg x) + 2 \<le> lk_lim kk"
  shows "introducing pr sd agent platform pid ids n \<Longrightarrow> card (dom ids) + length xs \<le> 65534 \<Longrightarrow> n + length xs \<le> 65534 \<Longrightarrow>
    pr_next pr + length xs < 2 ^ 64 \<Longrightarrow> distinct (map nc_key xs) \<Longrightarrow> dom ids \<inter> nc_key ` set xs = {} \<Longrightarrow>
    lk_ok kk (pr_net pr) \<Longrightarrow>
    lk_queue kk (pr_net pr) (lk_inp kk sd) = map (\<lambda>x. enc16 CLARA_MSG_OPENCL_DEVICE_ID @ enc64 (nc_key x)) xs @ ms \<Longrightarrow>
    \<exists>pr'. startup_devices net vd j pr platform (map nc_id xs) = Inr pr' \<and>
      introducing pr' sd agent platform pid (ids ++ known_ids xs) (n + length xs) \<and>
      pr_platforms pr' = pr_platforms pr \<and> pr_vendor pr' = pr_vendor pr \<and>
      moves kk (pr_net pr) (pr_net pr') (lk_inp kk sd) ms (lk_out kk sd agent)
        (map (\<lambda>x. enc16 CLARA_MSG_OPENCL_DEVICE_INFO @ device_msg x) xs)"
  using q
proof (induction xs arbitrary: pr ids n j)
  case Nil
  then show ?case using chan by (auto simp: moves_def fun_eq_iff)
next
  case (Cons x xs)
  have new: "ids (nc_key x) = None" using Cons.prems(6) by auto
  have "lk_queue kk (pr_net pr) (lk_inp kk sd) = (enc16 CLARA_MSG_OPENCL_DEVICE_ID @ enc64 (nc_key x)) #
    (map (\<lambda>x. enc16 CLARA_MSG_OPENCL_DEVICE_ID @ enc64 (nc_key x)) xs @ ms)" using Cons.prems(8) by simp
  from startup_device_correct [OF Cons.prems(1) _ _ _ Cons.prems(9) new net Cons.prems(7,10) chan this] Cons.prems(2,3,4)
  obtain pr1 where
    pr1: "startup_device net vd pr platform (nc_id x) = Inr pr1"
      "introducing pr1 sd agent platform pid (ids(nc_key x \<mapsto> nc_id x)) (Suc n)" "pr_next pr1 = pr_next pr + 1"
      "pr_platforms pr1 = pr_platforms pr" "pr_vendor pr1 = pr_vendor pr"
      "moves kk (pr_net pr) (pr_net pr1) (lk_inp kk sd)
        (map (\<lambda>x. enc16 CLARA_MSG_OPENCL_DEVICE_ID @ enc64 (nc_key x)) xs @ ms) (lk_out kk sd agent)
        [enc16 CLARA_MSG_OPENCL_DEVICE_INFO @ device_msg x]" by auto
  have opts: "pr_opts_device pr = -1" "pr_opts_device pr1 = -1" and inv: "pr_inv pr" "pr_ids pr = ids"
    using Cons.prems(1) pr1(2) by (auto simp: introducing_def)
  have fin: "finite (dom ids)" using pr_map_room(2) [OF inv(1)] inv(2) Cons.prems(2) by simp
  have rest: "card (dom (ids(nc_key x \<mapsto> nc_id x))) + length xs \<le> 65534" "Suc n + length xs \<le> 65534"
    "pr_next pr1 + length xs < 2 ^ 64" "distinct (map nc_key xs)" "dom (ids(nc_key x \<mapsto> nc_id x)) \<inter> nc_key ` set xs = {}"
    "lk_ok kk (pr_net pr1)"
    "lk_queue kk (pr_net pr1) (lk_inp kk sd) = map (\<lambda>x. enc16 CLARA_MSG_OPENCL_DEVICE_ID @ enc64 (nc_key x)) xs @ ms"
    "nc_key x \<notin> nc_key ` set xs"
    using Cons.prems(2-6) pr1(3,6) fin chan by (auto simp: moves_def card_insert_if)
  have "(\<And>y i. y \<in> set xs \<Longrightarrow> vd_device_info vd (nc_id y) i = Some (nc_info y i))"
    "(\<And>y. y \<in> set xs \<Longrightarrow> length (device_msg y) + 2 \<le> lk_lim kk)" using Cons.prems(9,10) by simp_all
  from Cons.IH [OF pr1(2) rest(1-7) this, of "j + 1"] obtain pr' where
    pr': "startup_devices net vd (j + 1) pr1 platform (map nc_id xs) = Inr pr'"
      "introducing pr' sd agent platform pid (ids ++ known_ids (x # xs)) (n + length (x # xs))"
      "pr_platforms pr' = pr_platforms pr1" "pr_vendor pr' = pr_vendor pr1"
      "moves kk (pr_net pr1) (pr_net pr') (lk_inp kk sd) ms (lk_out kk sd agent)
        (map (\<lambda>x. enc16 CLARA_MSG_OPENCL_DEVICE_INFO @ device_msg x) xs)"
    unfolding known_ids_Cons [OF rest(8)] length_Cons add_Suc_right add_Suc by blast
  have "moves kk (pr_net pr) (pr_net pr') (lk_inp kk sd) ms (lk_out kk sd agent)
      (map (\<lambda>x. enc16 CLARA_MSG_OPENCL_DEVICE_INFO @ device_msg x) (x # xs))"
    using pr1(6) pr'(5) chan by (auto simp: moves_def fun_eq_iff)
  moreover have "startup_devices net vd j pr platform (map nc_id (x # xs)) = Inr pr'"
    using pr1(1) pr'(1) opts by simp
  ultimately show ?case using pr'(2-4) pr1(4,5) by auto
qed

section \<open>The platform\<close>

lemma provider_startup_correct:
  assumes inv: "pr_inv pr" "pr_ids pr = ids" "pr_sd pr = sd" "pr_agent pr = agent" "pr_opts_device pr = -1" "0 < pr_next pr"
    and count: "card (dom ids) + length xs < 65534" "pr_next pr + length xs + 1 < 2 ^ 64"
    and vd: "vd_platforms vd = Some (pid # pids)" "\<And>i. vd_platform_info vd pid i = Some (val i)"
      "vd_devices vd pid = Some (map nc_id xs)" "\<And>x i. x \<in> set xs \<Longrightarrow> vd_device_info vd (nc_id x) i = Some (nc_info x i)"
    and lim: "length (platform_msg val pid) + 2 \<le> lk_lim kk" "\<And>x. x \<in> set xs \<Longrightarrow> length (device_msg x) + 2 \<le> lk_lim kk"
    and keys: "distinct (k # map nc_key xs)" "dom ids \<inter> insert k (nc_key ` set xs) = {}"
    and net: "reliable net kk" "lk_ok kk (pr_net pr)" and chan: "lk_out kk sd agent \<noteq> lk_inp kk sd"
    and q: "lk_queue kk (pr_net pr) (lk_inp kk sd) = (enc16 CLARA_MSG_OPENCL_PLATFORM_ID @ enc64 k) #
      map (\<lambda>x. enc16 CLARA_MSG_OPENCL_DEVICE_ID @ enc64 (nc_key x)) xs @ ms"
  shows "\<exists>pr'. provider_startup net vd pr = Inr (pr', True) \<and> pr_inv pr' \<and> pr_ids pr' = ids(k \<mapsto> pid) ++ known_ids xs \<and>
    pr_sd pr' = sd \<and> pr_agent pr' = agent \<and> pr_vendor pr' = pr_vendor pr \<and>
    moves kk (pr_net pr) (pr_net pr') (lk_inp kk sd) ms (lk_out kk sd agent)
      ((enc16 CLARA_MSG_OPENCL_PLATFORM_INFO @ platform_msg val pid) #
       map (\<lambda>x. enc16 CLARA_MSG_OPENCL_DEVICE_INFO @ device_msg x) xs)"
proof -
  let ?p = "pr_next pr" and ?pf = "\<lparr>plt_id = 0, plt_global_id = 0, plt_devices = None\<rparr>"
  from set_insert_single [of "of_nat ?p" ?p] obtain s where
    s: "set_insert set_create (of_nat ?p) ?p = Inr (s, True)" "set_wf s" "set_room s" "set_elems s = [?p]" by blast
  let ?pr1 = "pr\<lparr>pr_next := ?p + 1, pr_platforms := s, pr_platform_heap := (pr_platform_heap pr)(?p \<mapsto> ?pf)\<rparr>"
  from sendmsg_adds [OF net lim(1), of sd CLARA_MSG_OPENCL_PLATFORM_INFO agent] obtain n1 where
    n1: "clara_sendmsg net (pr_net pr) sd CLARA_MSG_OPENCL_PLATFORM_INFO (platform_msg val pid) agent =
        Inr (n1, Some (length (platform_msg val pid)))"
      "adds kk (pr_net pr) n1 (lk_out kk sd agent) [enc16 CLARA_MSG_OPENCL_PLATFORM_INFO @ platform_msg val pid]" by auto
  have send: "provider_agent_sendmsg net ?pr1 CLARA_MSG_OPENCL_PLATFORM_INFO (platform_msg val pid) =
      Inr (?pr1\<lparr>pr_net := n1\<rparr>, Some (length (platform_msg val pid)))"
    using n1(1) inv(3,4) by (simp add: provider_agent_sendmsg_def)
  have "lk_ok kk (pr_net (?pr1\<lparr>pr_net := n1\<rparr>))"
    "lk_queue kk (pr_net (?pr1\<lparr>pr_net := n1\<rparr>)) (lk_inp kk (pr_sd (?pr1\<lparr>pr_net := n1\<rparr>))) =
      (enc16 CLARA_MSG_OPENCL_PLATFORM_ID @ enc64 k) #
      (map (\<lambda>x. enc16 CLARA_MSG_OPENCL_DEVICE_ID @ enc64 (nc_key x)) xs @ ms)"
    using n1(2) chan q inv(3) by (auto simp: adds_def)
  from recv_global_id_correct [OF net(1) this, of CLARA_MSG_OPENCL_PLATFORM_ID] inv(3) obtain n2 where
    recv: "recv_global_id net (?pr1\<lparr>pr_net := n1\<rparr>) CLARA_MSG_OPENCL_PLATFORM_ID = Inr (?pr1\<lparr>pr_net := n2\<rparr>, k)"
      "leaves kk n1 n2 (lk_inp kk sd) (map (\<lambda>x. enc16 CLARA_MSG_OPENCL_DEVICE_ID @ enc64 (nc_key x)) xs @ ms)" by auto
  let ?pr4 = "?pr1\<lparr>pr_net := n2, pr_platform_heap :=
    (pr_platform_heap ?pr1)(?p \<mapsto> \<lparr>plt_id = pid, plt_global_id = k, plt_devices = None\<rparr>)\<rparr>"
  have "pr_inv ?pr4 = pr_inv pr" "pr_ids ?pr4 = pr_ids pr" by (rule pr_inv_same; simp)+
  then have pr4: "pr_inv ?pr4" "set_room (pr_id_map ?pr4)" "pr_ids ?pr4 k = None" "pr_ids ?pr4 = ids"
    using inv(1,2) pr_map_room [of pr] count(1) keys(2) by auto
  have fin: "finite (dom ids)" using pr_map_room(2) [OF inv(1)] inv(2) count(1) by simp
  from add_mapping_correct [OF pr4(1-3), of pid] obtain m where
    m: "add_mapping ?pr4 pid k = Inr (?pr4\<lparr>pr_id_map := m\<rparr>)" "pr_inv (?pr4\<lparr>pr_id_map := m\<rparr>)"
      "pr_ids (?pr4\<lparr>pr_id_map := m\<rparr>) = ids(k \<mapsto> pid)" unfolding pr4(4) by blast
  let ?pr5 = "?pr4\<lparr>pr_id_map := m\<rparr>"
  let ?pr6 = "?pr5\<lparr>pr_platform_heap := (pr_platform_heap ?pr5)(?p \<mapsto>
    \<lparr>plt_id = pid, plt_global_id = k, plt_devices = Some set_create\<rparr>)\<rparr>"
  have "pr_inv ?pr6 = pr_inv ?pr5" "pr_ids ?pr6 = pr_ids ?pr5" by (rule pr_inv_same; simp)+
  then have i6: "introducing ?pr6 sd agent ?p pid (ids(k \<mapsto> pid)) 0"
    unfolding introducing_def using m(2,3) inv by (simp add: set_create_wf)
  have "card (dom (ids(k \<mapsto> pid))) + length xs \<le> 65534" "0 + length xs \<le> 65534" "pr_next ?pr6 + length xs < 2 ^ 64"
    "distinct (map nc_key xs)" "dom (ids(k \<mapsto> pid)) \<inter> nc_key ` set xs = {}" "lk_ok kk (pr_net ?pr6)"
    "lk_queue kk (pr_net ?pr6) (lk_inp kk sd) = map (\<lambda>x. enc16 CLARA_MSG_OPENCL_DEVICE_ID @ enc64 (nc_key x)) xs @ ms"
    using count fin keys recv(2) by (auto simp: card_insert_if leaves_def)
  from startup_devices_correct [OF net(1) chan vd(4) lim(2) i6 this, of 0] obtain pr7 where
    pr7: "startup_devices net vd 0 ?pr6 ?p (map nc_id xs) = Inr pr7"
      "introducing pr7 sd agent ?p pid (ids(k \<mapsto> pid) ++ known_ids xs) (0 + length xs)"
      "pr_platforms pr7 = s" "pr_vendor pr7 = pr_vendor pr"
      "moves kk n2 (pr_net pr7) (lk_inp kk sd) ms (lk_out kk sd agent)
        (map (\<lambda>x. enc16 CLARA_MSG_OPENCL_DEVICE_INFO @ device_msg x) xs)" by auto
  have "startup_platform net vd ?p (?pr5, True) = Inr (False, pr7, True)"
    using pr7(1) vd(3) inv(6) by (simp add: startup_platform_def deref_live)
  with set_foreach_correct [OF s(2,3), of "startup_platform net vd" "(?pr5, True)"] obtain tr where
    loop: "set_foreach (startup_platform net vd) s (?pr5, True) = Inr (s\<lparr>cs_trav := tr\<rparr>, pr7, True)" by (auto simp: s(4))
  let ?pr8 = "pr7\<lparr>pr_platforms := s\<lparr>cs_trav := tr\<rparr>\<rparr>"
  have run: "provider_startup net vd pr = Inr (?pr8, True)"
    using s(1) vd(1) platform_msg_message [of "vd_platform_info vd pid" val pid, OF vd(2)] send recv(1) m(1) loop
    by (simp add: provider_startup_def Let_def)
  have "pr_inv ?pr8 = pr_inv pr7" "pr_ids ?pr8 = pr_ids pr7" by (rule pr_inv_same; simp)+
  moreover have "pr_inv pr7" "pr_ids pr7 = ids(k \<mapsto> pid) ++ known_ids xs" "pr_sd pr7 = sd" "pr_agent pr7 = agent"
    using pr7(2) by (auto simp: introducing_def)
  moreover have "moves kk (pr_net pr) (pr_net ?pr8) (lk_inp kk sd) ms (lk_out kk sd agent)
      ((enc16 CLARA_MSG_OPENCL_PLATFORM_INFO @ platform_msg val pid) #
       map (\<lambda>x. enc16 CLARA_MSG_OPENCL_DEVICE_INFO @ device_msg x) xs)"
    using n1(2) recv(2) pr7(5) chan by (auto simp: adds_def leaves_def moves_def fun_eq_iff)
  ultimately show ?thesis using run pr7(4) by (intro exI [of _ ?pr8]) simp
qed

end
