(* ===== verification/Introduction.thy ===== *)
theory Introduction
  imports Provider_Startup Distributed
begin

text \<open>
  The introduction of a provider from both sides: \<^verbatim>\<open>provider_connect\<close> at the provider and the first
  loop of the agent's thread for it, on each other's messages.
\<close>

text \<open>What the provider says of its library, and what the agent answers.\<close>

definition description :: "(platform_info \<Rightarrow> byte list) \<Rightarrow> arg \<Rightarrow> newcomer list \<Rightarrow> byte list list" where
  "description val pid xs = (enc16 CLARA_MSG_OPENCL_PLATFORM_INFO @ platform_msg val pid) #
     map (\<lambda>x. enc16 CLARA_MSG_OPENCL_DEVICE_INFO @ device_msg x) xs"

definition identifiers :: "global_id \<Rightarrow> newcomer list \<Rightarrow> byte list list" where
  "identifiers k xs = (enc16 CLARA_MSG_OPENCL_PLATFORM_ID @ enc64 k) #
     map (\<lambda>x. enc16 CLARA_MSG_OPENCL_DEVICE_ID @ enc64 (nc_key x)) xs"

text \<open>The first platform of the library has these values and these devices.\<close>

definition offers :: "'o vendor \<Rightarrow> arg \<Rightarrow> (platform_info \<Rightarrow> byte list) \<Rightarrow> newcomer list \<Rightarrow> bool" where
  "offers vd pid val xs \<longleftrightarrow>
     (\<exists>pids. vd_platforms vd = Some (pid # pids)) \<and> (\<forall>i. vd_platform_info vd pid i = Some (val i)) \<and>
     vd_devices vd pid = Some (map nc_id xs) \<and> (\<forall>x\<in>set xs. \<forall>i. vd_device_info vd (nc_id x) i = Some (nc_info x i))"

section \<open>The provider\<close>

lemma provider_connect_correct:
  assumes inv: "pr_inv pr" "pr_opts_device pr = -1" "0 < pr_next pr"
    and count: "card (dom (pr_ids pr)) + length xs < 65534" "pr_next pr + length xs + 1 < 2 ^ 64"
    and vd: "offers vd pid val xs"
    and lim: "length (platform_msg val pid) + 2 \<le> lk_lim kk" "\<And>x. x \<in> set xs \<Longrightarrow> length (device_msg x) + 2 \<le> lk_lim kk"
    and keys: "distinct (k # map nc_key xs)" "dom (pr_ids pr) \<inter> insert k (nc_key ` set xs) = {}"
    and net: "reliable net kk" "lk_ok kk (pr_net pr)"
    and chan: "lk_out kk (pr_sd pr) (pr_agent pr) \<noteq> lk_inp kk (pr_sd pr)"
    and q: "lk_queue kk (pr_net pr) (lk_inp kk (pr_sd pr)) = enc16 CLARA_MSG_ACK # identifiers k xs @ ms"
  shows "\<exists>pr'. provider_connect net vd pr = Inr (pr', Connected) \<and> pr_inv pr' \<and>
    pr_ids pr' = (pr_ids pr)(k \<mapsto> pid) ++ known_ids xs \<and>
    moves kk (pr_net pr) (pr_net pr') (lk_inp kk (pr_sd pr)) ms (lk_out kk (pr_sd pr) (pr_agent pr))
      (enc16 CLARA_MSG_PROVIDER # description val pid xs @ [enc16 CLARA_MSG_IDLE])"
proof -
  let ?i = "lk_inp kk (pr_sd pr)" and ?o = "lk_out kk (pr_sd pr) (pr_agent pr)"
  have lim2: "2 \<le> lk_lim kk" using lim(1) by simp
  from sendmsg_adds [OF net, of "[]" "pr_sd pr" CLARA_MSG_PROVIDER "pr_agent pr"] lim2 obtain n1 where
    n1: "clara_sendmsg net (pr_net pr) (pr_sd pr) CLARA_MSG_PROVIDER [] (pr_agent pr) = Inr (n1, Some 0)"
      "adds kk (pr_net pr) n1 ?o [enc16 CLARA_MSG_PROVIDER]" by auto
  have "lk_ok kk n1" "lk_queue kk n1 ?i = (enc16 CLARA_MSG_ACK @ []) # identifiers k xs @ ms"
    using n1(2) chan q by (auto simp: adds_def)
  from recvmsg_leaves [OF net(1) this, of 0 CLARA_MSG_INVALID] obtain n2 fr where
    n2: "clara_recvmsg net n1 (pr_sd pr) CLARA_MSG_INVALID 0 = Inr (n2, Some \<lparr>cm_type = CLARA_MSG_ACK, cm_bytes = [],
      cm_from = fr, cm_notification = False\<rparr>)" "leaves kk n1 n2 ?i (identifiers k xs @ ms)" by auto
  let ?pr2 = "pr\<lparr>pr_net := n2\<rparr>"
  have same: "pr_inv ?pr2 = pr_inv pr" "pr_ids ?pr2 = pr_ids pr" by (rule pr_inv_same; simp)+
  obtain pids where pids: "vd_platforms vd = Some (pid # pids)" using vd by (auto simp: offers_def)
  have vd': "vd_platform_info vd pid i = Some (val i)" "vd_devices vd pid = Some (map nc_id xs)"
    "x \<in> set xs \<Longrightarrow> vd_device_info vd (nc_id x) j = Some (nc_info x j)" for x i j
    using vd by (auto simp: offers_def)
  have st: "pr_inv ?pr2" "pr_ids ?pr2 = pr_ids pr" "pr_sd ?pr2 = pr_sd pr" "pr_agent ?pr2 = pr_agent pr"
    "pr_opts_device ?pr2 = -1" "0 < pr_next ?pr2" "pr_next ?pr2 + length xs + 1 < 2 ^ 64" "lk_ok kk (pr_net ?pr2)"
    "lk_queue kk (pr_net ?pr2) ?i = (enc16 CLARA_MSG_OPENCL_PLATFORM_ID @ enc64 k) #
      map (\<lambda>x. enc16 CLARA_MSG_OPENCL_DEVICE_ID @ enc64 (nc_key x)) xs @ ms"
    using inv same count(2) n2(2) by (simp_all add: leaves_def identifiers_def)
  from provider_startup_correct [OF st(1-6) count(1) st(7) pids vd' lim keys net(1) st(8) chan st(9)] obtain pr3 where
    pr3: "provider_startup net vd ?pr2 = Inr (pr3, True)" "pr_inv pr3" "pr_ids pr3 = (pr_ids pr)(k \<mapsto> pid) ++ known_ids xs"
      "pr_sd pr3 = pr_sd pr" "pr_agent pr3 = pr_agent pr"
      "moves kk n2 (pr_net pr3) ?i ms ?o (description val pid xs)" by (auto simp: description_def)
  have "lk_ok kk (pr_net pr3)" using pr3(6) by (simp add: moves_def)
  from sendmsg_adds [OF net(1) this, of "[]" "pr_sd pr" CLARA_MSG_IDLE "pr_agent pr"] lim2 obtain n4 where
    n4: "clara_sendmsg net (pr_net pr3) (pr_sd pr) CLARA_MSG_IDLE [] (pr_agent pr) = Inr (n4, Some 0)"
      "adds kk (pr_net pr3) n4 ?o [enc16 CLARA_MSG_IDLE]" by auto
  have run: "provider_connect net vd pr = Inr (pr3\<lparr>pr_net := n4\<rparr>, Connected)"
    using n1(1) n2(1) pr3(1,4,5) n4(1)
    by (simp add: provider_connect_def provider_agent_sendmsg_def provider_agent_recvmsg_def)
       (simp add: CLARA_MSG_ACK_def CLARA_MSG_NACK_def)
  have "pr_inv (pr3\<lparr>pr_net := n4\<rparr>) = pr_inv pr3" "pr_ids (pr3\<lparr>pr_net := n4\<rparr>) = pr_ids pr3" by (rule pr_inv_same; simp)+
  moreover have "moves kk (pr_net pr) n4 ?i ms ?o
      (enc16 CLARA_MSG_PROVIDER # description val pid xs @ [enc16 CLARA_MSG_IDLE])"
    using n1(2) n2(2) pr3(6) n4(2) chan by (auto simp: adds_def leaves_def moves_def fun_eq_iff)
  ultimately show ?thesis using run pr3(2,3) by (intro exI [of _ "pr3\<lparr>pr_net := n4\<rparr>"]) simp
qed

section \<open>Both\<close>

lemma known_objects_ids: "known_objects v xs i = Some e \<Longrightarrow> known_ids xs i = Some (oe_real e)"
  by (induction xs) (auto simp: known_objects_def known_ids_def split: if_splits)

lemma known_objects_none: "known_objects v xs i = None \<longleftrightarrow> known_ids xs i = None"
  by (induction xs) (auto simp: known_objects_def known_ids_def)

lemma agrees_introduced:
  assumes "agrees ag v pr" and "object_table ag' = (object_table ag)(k \<mapsto> e) ++ known_objects v xs" and "oe_real e = real"
    and "pr_ids pr' = (pr_ids pr)(k \<mapsto> real) ++ known_ids xs"
  shows "agrees ag' v pr'"
  unfolding agrees_def
proof (intro allI impI)
  fix i e'
  assume "object_table ag' i = Some e'" and "oe_provider e' = v"
  then show "pr_ids pr' i = Some (oe_real e')"
    using assms known_objects_ids [of v xs i e'] known_objects_none [of v xs i]
    by (cases "known_objects v xs i") (auto simp: agrees_def map_add_def split: if_splits)
qed

lemma introduction_correct:
  fixes pr :: "('m, 'o) clara_provider"
  assumes p: "pr_inv pr" "pr_opts_device pr = -1" "0 < pr_next pr" "pr_next pr + length xs + 1 < 2 ^ 64"
      "dom (pr_ids pr) \<subseteq> pool_ids (ag_id_pool ag)" "agrees ag v pr" "offers vd pid val xs"
    and pnet: "reliable pnet pk" "PROVIDER_BUFSZ + 2 \<le> lk_lim pk" "lk_ok pk (pr_net pr)"
      "lk_out pk (pr_sd pr) (pr_agent pr) \<noteq> lk_inp pk (pr_sd pr)"
    and a: "object_inv ag" "card (pool_ids (ag_id_pool ag)) + length xs < 65534"
      "ag_provider_heap ag v = Some pv" "pv_attached pv" "pv_platforms pv = set_create"
    and net: "reliable net kk" "10 \<le> lk_lim kk" "lk_ok kk (ag_net ag)"
      "\<And>fr. lk_out kk (pv_sd pv) fr = out" "out \<noteq> lk_inp kk (pv_sd pv)"
    and pid: "pid \<noteq> 0" "\<forall>i. cstr (val i)" "length (platform_msg val pid) \<le> PROVIDER_BUFSZ" "first_nonzero rs0 = Some k"
    and xs: "\<forall>x\<in>set xs. newcomer_ok pid x" "distinct (k # map nc_key xs)"
      "insert k (nc_key ` set xs) \<inter> pool_ids (ag_id_pool ag) = {}"
    and q: "lk_queue pk (pr_net pr) (lk_inp pk (pr_sd pr)) = enc16 CLARA_MSG_ACK # identifiers k xs @ ms"
      "lk_queue kk (ag_net ag) (lk_inp kk (pv_sd pv)) = description val pid xs @ [enc16 CLARA_MSG_IDLE] @ ms'"
  shows "\<exists>pr' ag'.
    provider_connect pnet vd pr = Inr (pr', Connected) \<and>
    provider_intake net ev (rs0 # map nc_rand xs @ rs # rss) ag v = Inr (ag', True) \<and>
    moves pk (pr_net pr) (pr_net pr') (lk_inp pk (pr_sd pr)) ms (lk_out pk (pr_sd pr) (pr_agent pr))
      (enc16 CLARA_MSG_PROVIDER # description val pid xs @ [enc16 CLARA_MSG_IDLE]) \<and>
    moves kk (ag_net ag) (ag_net ag') (lk_inp kk (pv_sd pv)) ms' out (identifiers k xs) \<and>
    intake ag' v (pv_sd pv) (ag_next ag) (reported_platform val pid (blank_platform v k)) (known_devices v xs) \<and>
    object_table ag' = (object_table ag)(k \<mapsto> \<lparr>oe_real = pid, oe_provider = v, oe_consumer = 0, oe_refcnt = 0\<rparr>) ++
      known_objects v xs \<and>
    pr_inv pr' \<and> agrees ag' v pr'"
proof -
  have "card (dom (pr_ids pr)) \<le> card (pool_ids (ag_id_pool ag))"
    by (rule card_mono [OF object_count(2) [OF a(1)] p(5)])
  then have 1: "card (dom (pr_ids pr)) + length xs < 65534" using a(2) by simp
  have 2: "length (platform_msg val pid) + 2 \<le> lk_lim pk" "x \<in> set xs \<Longrightarrow> length (device_msg x) + 2 \<le> lk_lim pk" for x
    using pid(3) pnet(2) xs(1) by (fastforce simp: newcomer_ok_def)+
  have 3: "dom (pr_ids pr) \<inter> insert k (nc_key ` set xs) = {}" using p(5) xs(3) by blast
  from provider_connect_correct [OF p(1-3) 1 p(4,7) 2 xs(2) 3 pnet(1,3,4) q(1)] obtain pr' where
    pr': "provider_connect pnet vd pr = Inr (pr', Connected)" "pr_inv pr'"
      "pr_ids pr' = (pr_ids pr)(k \<mapsto> pid) ++ known_ids xs"
      "moves pk (pr_net pr) (pr_net pr') (lk_inp pk (pr_sd pr)) ms (lk_out pk (pr_sd pr) (pr_agent pr))
        (enc16 CLARA_MSG_PROVIDER # description val pid xs @ [enc16 CLARA_MSG_IDLE])" by blast
  have "lk_queue kk (ag_net ag) (lk_inp kk (pv_sd pv)) = (enc16 CLARA_MSG_OPENCL_PLATFORM_INFO @ platform_msg val pid) #
      map (\<lambda>x. enc16 CLARA_MSG_OPENCL_DEVICE_INFO @ device_msg x) xs @ [enc16 CLARA_MSG_IDLE] @ ms'"
    using q(2) by (simp add: description_def)
  from provider_intake_correct [OF a pid xs net this, of ev rs rss] obtain ag' where
    ag': "provider_intake net ev (rs0 # map nc_rand xs @ rs # rss) ag v = Inr (ag', True)"
      "moves kk (ag_net ag) (ag_net ag') (lk_inp kk (pv_sd pv)) ms' out (identifiers k xs)"
      "intake ag' v (pv_sd pv) (ag_next ag) (reported_platform val pid (blank_platform v k)) (known_devices v xs)"
      "object_table ag' = (object_table ag)(k \<mapsto> \<lparr>oe_real = pid, oe_provider = v, oe_consumer = 0, oe_refcnt = 0\<rparr>) ++
        known_objects v xs" unfolding identifiers_def by blast
  from agrees_introduced [OF p(6) ag'(4) _ pr'(3)] have "agrees ag' v pr'" by simp
  with pr' ag' show ?thesis by blast
qed

end
