(* ===== verification/Whole_Examples.thy ===== *)
theory Whole_Examples
  imports Provider_Examples Consumer_Examples Whole_Calls Whole_Memory Agent_Process Program_Laws Introduction
begin

text \<open>
  The agent between the application and the provider of the other examples: the application's
  requests have arrived on socket 6 and the provider's answer on socket 4.
\<close>

definition ag7 :: "byte list list \<Rightarrow> byte list list \<Rightarrow> (nat \<Rightarrow> byte list list) agent" where
  "ag7 reqs answers = (ag1 1)\<lparr>ag_net := (\<lambda>_. [])(6 := reqs, 4 := answers)\<rparr>"

definition ag6 :: "byte list list \<Rightarrow> arg \<Rightarrow> (nat \<Rightarrow> byte list list) agent" where
  "ag6 reqs x = ag7 reqs [exec_resp x]"

lemma ag7_parts:
  "object_table (ag7 reqs ans) = object_table (ag1 1)" "ag_id_pool (ag7 reqs ans) = sing 7 ()"
  "ag_consumer_heap (ag7 reqs ans) 2 = Some (co0 (sing 7 4) 0)" "co_attached (co0 (sing 7 4) 0)"
  "co_sd (co0 (sing 7 4) 0) = 6" "ag_net (ag7 reqs ans) = (\<lambda>_. [])(6 := reqs, 4 := ans)"
  "object_inv (ag7 reqs ans)" "object_room (ag7 reqs ans)"
  "served link1 (ag7 reqs ans) 1 pv0 5 4" "agrees (ag7 reqs ans) 1 prov0" "apart link1 cn1 6 5 4"
  using ag1_inv [of 1]
  by (auto simp: ag7_def object_inv_net object_room_def agrees_def ag1_table prov0_ids)
     (auto simp: ag1_def ag0_def co0_def pv0_def served_def apart_def cn1_def)

lemma ag6_parts:
  "object_table (ag6 reqs x) = object_table (ag1 1)" "ag_id_pool (ag6 reqs x) = sing 7 ()"
  "ag_consumer_heap (ag6 reqs x) 2 = Some (co0 (sing 7 4) 0)" "co_attached (co0 (sing 7 4) 0)"
  "co_sd (co0 (sing 7 4) 0) = 6" "ag_net (ag6 reqs x) = (\<lambda>_. [])(6 := reqs, 4 := [exec_resp x])"
  "object_inv (ag6 reqs x)" "object_room (ag6 reqs x)"
  "served link1 (ag6 reqs x) 1 pv0 5 4" "agrees (ag6 reqs x) 1 prov0" "apart link1 cn1 6 5 4"
  by (simp_all only: ag6_def ag7_parts)

lemma ag7_object:
  "object_table (ag7 reqs ans) 7 = Some \<lparr>oe_real = 9, oe_provider = 1, oe_consumer = 2, oe_refcnt = 1\<rparr>"
  by (simp add: ag7_parts ag1_table)

lemma ag6_object:
  "object_table (ag6 reqs x) 7 = Some \<lparr>oe_real = 9, oe_provider = 1, oe_consumer = 2, oe_refcnt = 1\<rparr>"
  unfolding ag6_def by (rule ag7_object)

lemma sy1_parts: "sends_whole (sy_net sy1)" "sy_net sy1 = net1" "sy_lzo sy1 = lz0" "cn_sd cn1 = 8"
  by (auto simp: sy1_def net1_def sends_whole_def queue_net_def cn1_def)

text \<open>What is said of them in the calls through all three processes.\<close>

lemma whole1:
  "joined link1 cn1 (co_sd (co0 (sing 7 4) 0))" "apart link1 cn1 (co_sd (co0 (sing 7 4) 0)) 5 4"
  "lk_queue link1 (ag_net (ag6 (req # reqs) x)) (lk_inp link1 (co_sd (co0 (sing 7 4) 0))) = req # reqs"
  "lk_queue link1 (ag_net (ag6 reqs x)) 4 = exec_resp x # []" "reliable net0 link0" "10 \<le> lk_lim link0"
  by (simp_all add: ag6_parts sy1_works)

lemma vd0_calls:
  "vd_object vd0 f xs (pr_vendor prov0) (pr_mem prov0) = (33, 0, pr_vendor prov0, pr_mem prov0)"
  "vd_status vd0 f xs (pr_vendor prov0) (pr_mem prov0) = (0, pr_vendor prov0, pr_mem prov0)"
  by (simp_all add: vd0_def)

text \<open>The provider with a block of memory under handle 8 and messages of the agent.\<close>

definition prov2 :: "byte list \<Rightarrow> byte list list \<Rightarrow> ((nat \<Rightarrow> byte list list), unit) clara_provider" where
  "prov2 bs reqs = (prov1 bs)\<lparr>pr_net := (\<lambda>_. [])(5 := reqs)\<rparr>"

lemma prov2_parts:
  "pr_buffers (prov2 bs reqs) 8 = Some bs" "pr_ids (prov2 bs reqs) = [8 \<mapsto> 1]" "pr_room (prov2 bs reqs)"
  "pr_sd (prov2 bs reqs) = 5" "pr_agent (prov2 bs reqs) = 4" "pr_net (prov2 bs reqs) = (\<lambda>_. [])(5 := reqs)"
  "lk_ok link0 (pr_net (prov2 bs reqs))" "BLOCKSIZE \<le> lk_lim link0"
  using prov1_parts [of bs] by (simp_all add: prov2_def pr_buffers_def pr_ids_def pr_room_def fun_eq_iff BLOCKSIZE_def)

lemma prov2_inv: "length bs < 2 ^ 64 \<Longrightarrow> pr_inv (prov2 bs reqs)"
  using prov1_inv [of bs] by (simp add: prov2_def pr_inv_def pr_owns_def pr_alloc_ok_def)

text \<open>Sockets with one descriptor to give, 3.\<close>

definition sockets0 :: "sd set sockets" where
  "sockets0 =
     \<lparr>sk_socket = (\<lambda>s. if 3 \<in> s then (s, -1) else (insert 3 s, 3)),
      sk_setsockopt = (\<lambda>s sd _. (s, sd \<in> s - {-1})), sk_bind = (\<lambda>s _ _. (s, True)),
      sk_listen = (\<lambda>s _ _. (s, True)), sk_close = (\<lambda>s sd. (s - {sd}, True)),
      sk_peeloff = (\<lambda>s sd. if 9 \<in> s then (s, -1) else (insert 9 s, 9))\<rparr>"

lemma sockets0_ok: "sockets_ok sockets0 (\<lambda>s. s - {-1})"
  by (auto simp: sockets_ok_def sockets0_def split: if_splits)

lemma sockets0_peeloff: "peeloff_ok sockets0 (\<lambda>s. s - {-1}) (\<lambda>s. s \<inter> {9})"
  by (auto simp: peeloff_ok_def sockets0_def split: if_splits)

text \<open>An agent that admits a consumer, which gets socket 9, and then cannot receive any more.\<close>

lemma sockets0_run:
  "agent_program sockets0 (\<lambda>_. Some 0) net0 [(CHR ''p'', ''4711'')]
    [\<lparr>ad_stream = 0, ad_thread = True\<rparr>, \<lparr>ad_stream = 0, ad_thread = True\<rparr>] {7}
    ((\<lambda>_. [])(3 := [enc16 CLARA_MSG_CONSUMER])) = Inr ({9, 7}, [Consumer_Thread 1], 5)"
proof -
  let ?o = "default_options\<lparr>ao_port := ''4711''\<rparr>" and ?q = "(\<lambda>_. [])(3 := [enc16 CLARA_MSG_CONSUMER]) :: nat \<Rightarrow> byte list list"
    and ?ad = "\<lparr>ad_stream = 0, ad_thread = True\<rparr>"
  have p: "parse_options [(CHR ''p'', ''4711'')] default_options = Some ?o" by simp
  have a: "clara_sockaddr (\<lambda>_. Some 0) (Some (ao_addr ?o)) (Some (ao_port ?o)) = Some (0, 4711)"
    by (simp add: clara_sockaddr_def strtol10_def is_space_def is_digit_def digits_value_def clamp_long_def)
  have s: "clara_socket sockets0 {7} = ({7, 3}, 3)" by (auto simp: clara_socket_def sockets0_def)
  have st: "agent_startup sockets0 (\<lambda>_. Some 0) ?o {7} = ({7, 3}, 3, True)"
    unfolding agent_startup_def a by (simp add: s) (simp add: sockets0_def)
  have l: "clara_recvmsg net0 q 3 CLARA_MSG_INVALID AGENT_RECVBUFSZ = Inr (q, None)" if "q 3 = []" for q
    using that by (simp add: clara_recvmsg_def net0_def queue_net_def Let_def)
  obtain ag where c: "agent_create ?q (ao_load_balancing ?o) (ao_reverse_proxy ?o) = Inr (Some ag)"
    and ag: "ag_net ag = ?q" "ag_consumers ag = set_create" "ag_next ag = 1"
    by (simp add: agent_create_def default_options_def c_assert_def)
  have r1: "clara_recvmsg net0 ?q 3 CLARA_MSG_INVALID AGENT_RECVBUFSZ =
      Inr (\<lambda>_. [], Some \<lparr>cm_type = CLARA_MSG_CONSUMER, cm_bytes = [], cm_from = 0, cm_notification = False\<rparr>)"
    by (simp add: clara_recvmsg_def net0_def queue_net_def Let_def AGENT_RECVBUFSZ_def fun_upd_idem fun_eq_iff)
  from set_insert_single [of 1 "1 :: nat"] obtain cs where cs: "set_insert set_create 1 (1 :: nat) = Inr (cs, True)" by blast
  let ?n = "(\<lambda>_. [])(0 := [enc16 CLARA_MSG_ACK]) :: nat \<Rightarrow> byte list list"
  have w: "clara_sendmsg net0 (\<lambda>_. []) 9 CLARA_MSG_ACK [] 0 = Inr (?n, Some 0)"
    by (simp add: clara_sendmsg_def clara_send_def net0_def queue_net_def)
  have "sk_peeloff sockets0 {7, 3} 3 = ({9, 7, 3}, 9)" by (simp add: sockets0_def)
  then obtain ag' where 1: "agent_main_step sockets0 net0 ?ad {7, 3} 3 ag = Inr ({9, 7, 3}, ag', Some (Consumer_Thread 1), 0)"
    and n: "ag_net ag' = ?n"
    using ag r1 w cs
    by (simp add: agent_main_step_def agent_main_message_def admit_consumer_def consumer_create_def consumer_attach_def
        put_consumer_def deref_live CLARA_MSG_CONSUMER_def CLARA_MSG_PROVIDER_def)
  have 2: "agent_main_step sockets0 net0 ?ad {9, 7, 3} 3 ag' = Inr ({9, 7, 3}, ag', None, 5)"
    using n l [of ?n] by (simp add: agent_main_step_def)
  have "agent_main sockets0 net0 [?ad, ?ad] {7, 3} 3 ag = Inr ({9, 7}, ag', [Consumer_Thread 1], 5)"
    using 1 2 by (simp add: agent_main_def agent_shutdown_def sockets0_def insert_Diff_if)
  then show ?thesis using c by (simp add: agent_program_def p st)
qed

text \<open>An agent that refuses a provider on this socket.\<close>

lemma refused_run:
  "provider_program sockets0 (\<lambda>_. Some 0) (\<lambda>_. 4) net0 lz0 vd0 1 1 0 [EINTR] [(CHR ''a'', ''10.0.0.1'')] {7}
    ((\<lambda>_. [])(3 := [enc16 CLARA_MSG_NACK])) () = Inr ({7}, Provider_End (Ended EPERM))"
proof -
  let ?o = "provider_default_options\<lparr>po_addr := Some ''10.0.0.1'', po_list_devices := False\<rparr>"
  have p: "parse_provider_options [(CHR ''a'', ''10.0.0.1'')] provider_default_options True = Some (?o, False)" by simp
  have o: "\<not> po_list_devices ?o" by simp
  have a: "clara_sockaddr (\<lambda>_. Some 0) (po_addr ?o) (Some (po_port ?o)) = Some (0, 52428)"
    by (simp add: provider_default_options_def PROVIDER_DEFAULT_PORT_def clara_sockaddr_def strtol10_def
        is_space_def is_digit_def digits_value_def clamp_long_def)
  have s: "clara_socket sockets0 {7} = ({7, 3}, 3)" "(3 :: sd) \<noteq> -1" by (auto simp: clara_socket_def sockets0_def)
  have l: "2 \<le> lk_lim link0" "lk_out link0 3 4 \<noteq> lk_inp link0 3"
    "lk_queue link0 ((\<lambda>_. [])(3 := [enc16 CLARA_MSG_NACK])) (lk_inp link0 3) = enc16 CLARA_MSG_NACK # []" by simp_all
  from provider_main_refused [OF link0_simps(1,2) l(1) o a s, where to_addr = "\<lambda>_. 4" and lz = lz0 and
      vd = vd0 and rounds = 1 and fuel = 1 and ev = 0 and err = EINTR and ?o0.0 = "()", OF l(2,3)]
  obtain n' where "provider_main sockets0 (\<lambda>_. Some 0) (\<lambda>_. 4) net0 lz0 vd0 1 1 0 EINTR ?o {7}
      ((\<lambda>_. [])(3 := [enc16 CLARA_MSG_NACK])) () = Inr (fst (sk_close sockets0 {7, 3} 3), n', (), Ended EPERM)" by blast
  moreover have "fst (sk_close sockets0 {7, 3} 3) = {7}" by (auto simp: sockets0_def)
  ultimately show ?thesis unfolding provider_program_def p by simp
qed

text \<open>A library with a second platform, and a provider for the device of number 1.\<close>

definition vd2 :: "unit vendor" where
  "vd2 = vd0\<lparr>vd_platforms := Some [21, 31], vd_devices := (\<lambda>p. if p = 21 then Some [22] else Some [32, 33])\<rparr>"

lemma vd2_parts:
  "vd_platforms vd2 = Some [21, 31]" "\<forall>p ds. vd_devices vd2 p = Some ds \<longrightarrow> 0 \<notin> set ds"
  "vd_devices vd2 21 = Some [22]"
  by (auto simp: vd2_def split: if_splits)

lemma vd2_reached: "reached_devices vd2 [31] = [32, 33]"
  by (simp add: reached_devices_def has_devices_def vd2_def)

definition prov3 :: "((nat \<Rightarrow> byte list list), unit) clara_provider" where
  "prov3 = (provider_init 5 4 1 (\<lambda>_. []) ())\<lparr>pr_platform_heap :=
     [9 \<mapsto> \<lparr>plt_id = 21, plt_global_id = 0, plt_devices = None\<rparr>]\<rparr>"

lemma prov3_parts:
  "pr_opts_device prov3 = int 1" "pr_platform_heap prov3 9 = Some \<lparr>plt_id = 21, plt_global_id = 0, plt_devices = None\<rparr>"
  "plt_id \<lparr>plt_id = 21, plt_global_id = 0, plt_devices = None\<rparr> = 21"
  "pr_platform_heap prov3 = [9 \<mapsto> \<lparr>plt_id = 21, plt_global_id = 0, plt_devices = None\<rparr>]"
  by (simp_all add: prov3_def provider_init_def)

text \<open>
  A library whose device names its platform, a provider that has just started, and the agent
  with a thread for it on socket 4, which reaches only the provider.
\<close>

definition info1 :: "device_info \<Rightarrow> byte list" where
  "info1 = info0(DEVICE_PLATFORM := enc64 21)"

definition newcomer1 :: newcomer where
  "newcomer1 = \<lparr>nc_id = 22, nc_info = info1, nc_rand = [8], nc_key = 8\<rparr>"

definition vd4 :: "unit vendor" where
  "vd4 = vd0\<lparr>vd_device_info := (\<lambda>d i. Some (info1 i))\<rparr>"

definition prov4 :: "byte list list \<Rightarrow> ((nat \<Rightarrow> byte list list), unit) clara_provider" where
  "prov4 ms = provider_init 5 4 (-1) ((\<lambda>_. [])(5 := ms)) ()"

definition net4 :: "(nat \<Rightarrow> byte list list) sctp" where
  "net4 = queue_net (\<lambda>sd to. 9) (\<lambda>sd. nat sd)"

definition link4 :: "(nat \<Rightarrow> byte list list) link" where
  "link4 = queue_link (\<lambda>sd to. 9) (\<lambda>sd. nat sd) 65536"

definition ag8 :: "byte list list \<Rightarrow> (nat \<Rightarrow> byte list list) agent" where
  "ag8 ms = ag0\<lparr>ag_net := (\<lambda>_. [])(4 := ms)\<rparr>"

lemma link4_simps [simp]:
  "reliable net4 link4" "lk_ok link4 s" "lk_queue link4 s = s" "lk_out link4 sd to = 9" "lk_inp link4 sd = nat sd"
  "lk_lim link4 = 65536"
  by (simp_all add: net4_def link4_def queue_net_reliable) (simp_all add: queue_link_def)

lemma info1_reported: "reported info1 i"
  using info0_reported [of i] by (cases "i = DEVICE_PLATFORM") (simp_all add: reported_def info1_def cong: field_place.case_cong)

lemma newcomer1_ok: "newcomer_ok 21 newcomer1" "nc_rand newcomer1 = [8]" "nc_key newcomer1 = 8" "nc_id newcomer1 = 22"
proof -
  have "length (device_msg newcomer1) \<le> PROVIDER_BUFSZ"
    by (simp add: device_msg_def newcomer1_def device_info_list_def info1_def info0_def PROVIDER_BUFSZ_def)
  moreover have "dec64 (nc_info newcomer1 DEVICE_PLATFORM) = 21" by (simp add: newcomer1_def info1_def dec_enc)
  ultimately show "newcomer_ok 21 newcomer1"
    by (simp add: newcomer_ok_def newcomer1_def info1_reported)
qed (simp_all add: newcomer1_def)

lemma vd4_offers: "offers vd4 21 (\<lambda>i. [65, 0]) [newcomer1]"
  by (simp add: offers_def vd4_def vd0_def newcomer1_def)

lemma prov4_parts:
  "pr_inv (prov4 ms)" "pr_opts_device (prov4 ms) = -1" "pr_next (prov4 ms) = 1" "pr_ids (prov4 ms) = Map.empty"
  "pr_sd (prov4 ms) = 5" "pr_agent (prov4 ms) = 4" "pr_net (prov4 ms) = (\<lambda>_. [])(5 := ms)"
  by (auto simp: prov4_def provider_init_def pr_inv_def pr_owns_def pr_ids_def mem_init_wf fun_eq_iff)

lemma ag8_parts:
  "object_inv (ag8 ms)" "ag_id_pool (ag8 ms) = set_create" "object_table (ag8 ms) = Map.empty"
  "ag_provider_heap (ag8 ms) 1 = Some pv0" "pv_attached pv0" "pv_platforms pv0 = set_create" "pv_sd pv0 = 4"
  "ag_net (ag8 ms) = (\<lambda>_. [])(4 := ms)"
  using ag0_inv by (simp_all add: ag8_def object_inv_net) (simp_all add: ag0_def pv0_def object_table_def fun_eq_iff)

lemma platform_msg_short: "length (platform_msg (\<lambda>i. [65, 0]) 21) \<le> PROVIDER_BUFSZ"
  by (simp add: platform_msg_def platform_info_list_def PROVIDER_BUFSZ_def)

end
