(* ===== verification/Consumer_Unsupported.thy ===== *)
theory Consumer_Unsupported
  imports Consumer_Laws
begin

text \<open>
  The functions of OpenCL the consumer's library does not implement: images
  (\<^verbatim>\<open>consumer/src/opencl_image.c\<close>), samplers (\<^verbatim>\<open>opencl_sampler.c\<close>), mapping of buffers and a few
  others. They return a status, or a null object with an error code, and send nothing. Arguments
  they do not look at are left out.
\<close>

definition CL_INVALID_OPERATION :: arg where "CL_INVALID_OPERATION = -59"
definition CL_INVALID_SAMPLER :: arg where "CL_INVALID_SAMPLER = -41"

definition no_status :: "arg \<Rightarrow> ('n, u32) client_op" where
  "no_status status = creturn (INIT_STATUS status)"

definition no_object :: "nat \<Rightarrow> arg \<Rightarrow> ('n, arg) client_op" where
  "no_object errcode_ret status = cseq (ERRCODE_SET errcode_ret (ucast status)) (creturn 0)"

definition clGetContextInfo :: "('n, u32) client_op" where
  "clGetContextInfo = no_status CL_INVALID_CONTEXT"

definition clSetCommandQueueProperty :: "('n, u32) client_op" where
  "clSetCommandQueueProperty = no_status CL_INVALID_COMMAND_QUEUE"

definition clEnqueueMapBuffer :: "nat \<Rightarrow> ('n, arg) client_op" where
  "clEnqueueMapBuffer errcode_ret = no_object errcode_ret CL_INVALID_MEM_OBJECT"

definition clEnqueueUnmapMemObject :: "('n, u32) client_op" where
  "clEnqueueUnmapMemObject = no_status CL_INVALID_MEM_OBJECT"

definition clCreateKernelsInProgram :: "('n, u32) client_op" where
  "clCreateKernelsInProgram = no_status CL_INVALID_PROGRAM"

definition clGetKernelWorkGroupInfo :: "('n, u32) client_op" where
  "clGetKernelWorkGroupInfo = no_status CL_INVALID_KERNEL"

definition clEnqueueNativeKernel :: "('n, u32) client_op" where
  "clEnqueueNativeKernel = no_status CL_INVALID_COMMAND_QUEUE"

section \<open>Images and samplers\<close>

definition clCreateImage2D :: "nat \<Rightarrow> ('n, arg) client_op" where
  "clCreateImage2D errcode_ret = no_object errcode_ret CL_INVALID_OPERATION"

definition clCreateImage3D :: "nat \<Rightarrow> ('n, arg) client_op" where
  "clCreateImage3D errcode_ret = no_object errcode_ret CL_INVALID_OPERATION"

definition clGetSupportedImageFormats :: "('n, u32) client_op" where
  "clGetSupportedImageFormats = no_status CL_INVALID_CONTEXT"

definition clEnqueueReadImage :: "('n, u32) client_op" where
  "clEnqueueReadImage = no_status CL_INVALID_OPERATION"

definition clEnqueueWriteImage :: "('n, u32) client_op" where
  "clEnqueueWriteImage = no_status CL_INVALID_OPERATION"

definition clEnqueueCopyImage :: "('n, u32) client_op" where
  "clEnqueueCopyImage = no_status CL_INVALID_OPERATION"

definition clEnqueueCopyImageToBuffer :: "('n, u32) client_op" where
  "clEnqueueCopyImageToBuffer = no_status CL_INVALID_OPERATION"

definition clEnqueueCopyBufferToImage :: "('n, u32) client_op" where
  "clEnqueueCopyBufferToImage = no_status CL_INVALID_OPERATION"

definition clEnqueueMapImage :: "nat \<Rightarrow> ('n, arg) client_op" where
  "clEnqueueMapImage errcode_ret = no_object errcode_ret CL_INVALID_OPERATION"

definition clGetImageInfo :: "('n, u32) client_op" where
  "clGetImageInfo = no_status CL_INVALID_MEM_OBJECT"

definition clCreateSampler :: "nat \<Rightarrow> ('n, arg) client_op" where
  "clCreateSampler errcode_ret = no_object errcode_ret CL_INVALID_OPERATION"

definition clRetainSampler :: "('n, u32) client_op" where
  "clRetainSampler = no_status CL_INVALID_SAMPLER"

definition clReleaseSampler :: "('n, u32) client_op" where
  "clReleaseSampler = no_status CL_INVALID_SAMPLER"

definition clGetSamplerInfo :: "('n, u32) client_op" where
  "clGetSamplerInfo = no_status CL_INVALID_SAMPLER"

section \<open>Nothing is sent\<close>

lemma no_status_talks: "talks k cn (no_status status) m [] [] m (ucast status)"
  by (simp add: no_status_def INIT_STATUS_def talks_return)

lemma no_object_talks:
  assumes "works sy k cn" and "opt_room m errcode_ret 4"
  shows "talks k cn (no_object errcode_ret status) m [] [] (put_bytes m errcode_ret (enc32 (ucast status))) 0"
  unfolding no_object_def by (rule talks_ERRCODE_SET [OF assms])

end
