(* ===== verification/Signatures.thy ===== *)
theory Signatures
  imports Consumer_Laws Provider_Laws
begin

text \<open>
  The functions' prototypes in \<^verbatim>\<open>include/CL/cl.h\<close>, as kinds of parameters, and the two tables
  that have to fit them: the number of arguments in the interface table and the provider's marks for
  the arguments to translate.
\<close>

section \<open>Prototypes\<close>

text \<open>An object of OpenCL, a pointer to data, a function to call back, or a value of another type.\<close>

datatype cl_param = Obj | Ptr | Fun | Num

definition cl_prototypes :: "(cl_function_t \<times> cl_param list) list" where
  "cl_prototypes = [
     (CL_GETPLATFORMIDS, [Num, Ptr, Ptr]),
     (CL_GETPLATFORMINFO, [Obj, Num, Num, Ptr, Ptr]),
     (CL_GETDEVICEIDS, [Obj, Num, Num, Ptr, Ptr]),
     (CL_GETDEVICEINFO, [Obj, Num, Num, Ptr, Ptr]),
     (CL_CREATECONTEXT, [Ptr, Num, Ptr, Fun, Ptr, Ptr]),
     (CL_CREATECONTEXTFROMTYPE, [Ptr, Num, Fun, Ptr, Ptr]),
     (CL_RETAINCONTEXT, [Obj]),
     (CL_RELEASECONTEXT, [Obj]),
     (CL_GETCONTEXTINFO, [Obj, Num, Num, Ptr, Ptr]),
     (CL_CREATECOMMANDQUEUE, [Obj, Obj, Num, Ptr]),
     (CL_RETAINCOMMANDQUEUE, [Obj]),
     (CL_RELEASECOMMANDQUEUE, [Obj]),
     (CL_GETCOMMANDQUEUEINFO, [Obj, Num, Num, Ptr, Ptr]),
     (CL_SETCOMMANDQUEUEPROPERTY, [Obj, Num, Num, Ptr]),
     (CL_CREATEBUFFER, [Obj, Num, Num, Ptr, Ptr]),
     (CL_ENQUEUEREADBUFFER, [Obj, Obj, Num, Num, Num, Ptr, Num, Ptr, Ptr]),
     (CL_ENQUEUEWRITEBUFFER, [Obj, Obj, Num, Num, Num, Ptr, Num, Ptr, Ptr]),
     (CL_ENQUEUECOPYBUFFER, [Obj, Obj, Obj, Num, Num, Num, Num, Ptr, Ptr]),
     (CL_RETAINMEMOBJECT, [Obj]),
     (CL_RELEASEMEMOBJECT, [Obj]),
     (CL_CREATEIMAGE2D, [Obj, Num, Ptr, Num, Num, Num, Ptr, Ptr]),
     (CL_CREATEIMAGE3D, [Obj, Num, Ptr, Num, Num, Num, Num, Num, Ptr, Ptr]),
     (CL_GETSUPPORTEDIMAGEFORMATS, [Obj, Num, Num, Num, Ptr, Ptr]),
     (CL_ENQUEUEREADIMAGE, [Obj, Obj, Num, Ptr, Ptr, Num, Num, Ptr, Num, Ptr, Ptr]),
     (CL_ENQUEUEWRITEIMAGE, [Obj, Obj, Num, Ptr, Ptr, Num, Num, Ptr, Num, Ptr, Ptr]),
     (CL_ENQUEUECOPYIMAGE, [Obj, Obj, Obj, Ptr, Ptr, Ptr, Num, Ptr, Ptr]),
     (CL_ENQUEUECOPYIMAGETOBUFFER, [Obj, Obj, Obj, Ptr, Ptr, Num, Num, Ptr, Ptr]),
     (CL_ENQUEUECOPYBUFFERTOIMAGE, [Obj, Obj, Obj, Num, Ptr, Ptr, Num, Ptr, Ptr]),
     (CL_ENQUEUEMAPBUFFER, [Obj, Obj, Num, Num, Num, Num, Num, Ptr, Ptr, Ptr]),
     (CL_ENQUEUEMAPIMAGE, [Obj, Obj, Num, Num, Ptr, Ptr, Ptr, Ptr, Num, Ptr, Ptr, Ptr]),
     (CL_ENQUEUEUNMAPMEMOBJECT, [Obj, Obj, Ptr, Num, Ptr, Ptr]),
     (CL_GETMEMOBJECTINFO, [Obj, Num, Num, Ptr, Ptr]),
     (CL_GETIMAGEINFO, [Obj, Num, Num, Ptr, Ptr]),
     (CL_CREATESAMPLER, [Obj, Num, Num, Num, Ptr]),
     (CL_RETAINSAMPLER, [Obj]),
     (CL_RELEASESAMPLER, [Obj]),
     (CL_GETSAMPLERINFO, [Obj, Num, Num, Ptr, Ptr]),
     (CL_CREATEPROGRAMWITHSOURCE, [Obj, Num, Ptr, Ptr, Ptr]),
     (CL_CREATEPROGRAMWITHBINARY, [Obj, Num, Ptr, Ptr, Ptr, Ptr, Ptr]),
     (CL_RETAINPROGRAM, [Obj]),
     (CL_RELEASEPROGRAM, [Obj]),
     (CL_BUILDPROGRAM, [Obj, Num, Ptr, Ptr, Fun, Ptr]),
     (CL_UNLOADCOMPILER, []),
     (CL_GETPROGRAMINFO, [Obj, Num, Num, Ptr, Ptr]),
     (CL_GETPROGRAMBUILDINFO, [Obj, Obj, Num, Num, Ptr, Ptr]),
     (CL_CREATEKERNEL, [Obj, Ptr, Ptr]),
     (CL_CREATEKERNELSINPROGRAM, [Obj, Num, Ptr, Ptr]),
     (CL_RETAINKERNEL, [Obj]),
     (CL_RELEASEKERNEL, [Obj]),
     (CL_SETKERNELARG, [Obj, Num, Num, Ptr]),
     (CL_GETKERNELINFO, [Obj, Num, Num, Ptr, Ptr]),
     (CL_GETKERNELWORKGROUPINFO, [Obj, Obj, Num, Num, Ptr, Ptr]),
     (CL_ENQUEUENDRANGEKERNEL, [Obj, Obj, Num, Ptr, Ptr, Ptr, Num, Ptr, Ptr]),
     (CL_ENQUEUETASK, [Obj, Obj, Num, Ptr, Ptr]),
     (CL_ENQUEUENATIVEKERNEL, [Obj, Fun, Ptr, Num, Num, Ptr, Ptr, Num, Ptr, Ptr]),
     (CL_WAITFOREVENTS, [Num, Ptr]),
     (CL_GETEVENTINFO, [Obj, Num, Num, Ptr, Ptr]),
     (CL_RETAINEVENT, [Obj]),
     (CL_RELEASEEVENT, [Obj]),
     (CL_ENQUEUEMARKER, [Obj, Ptr]),
     (CL_ENQUEUEWAITFOREVENTS, [Obj, Num, Ptr]),
     (CL_ENQUEUEBARRIER, [Obj]),
     (CL_GETEVENTPROFILINGINFO, [Obj, Num, Num, Ptr, Ptr]),
     (CL_FLUSH, [Obj]),
     (CL_FINISH, [Obj])]"

definition cl_params :: "cl_function_t \<Rightarrow> cl_param list" where
  "cl_params f = (case map_of cl_prototypes f of None \<Rightarrow> [] | Some ps \<Rightarrow> ps)"

text \<open>Every function is in the interface table with the number of its parameters.\<close>

lemma prototypes_argc: "map (\<lambda>(f, r). (f, fi_argc r)) clfuninfo_rows = map (\<lambda>(f, ps). (f, length ps)) cl_prototypes"
  unfolding argc_table cl_prototypes_def by simp

lemma argc_params: "argc_ok f n \<longleftrightarrow> n = length (cl_params f)"
proof -
  have p: "map_of (map (\<lambda>(f, ps). (f, length ps)) cl_prototypes) f = map_option length (map_of cl_prototypes f)"
    by (simp add: map_of_map)
  obtain m where "argc_ok f m" using opencl_get_clfuninfo_row [of f] by (auto simp: argc_ok_def)
  then have "map_of cl_prototypes f \<noteq> None" unfolding argc_ok_table prototypes_argc p by auto
  then show ?thesis unfolding argc_ok_table prototypes_argc p by (auto simp: cl_params_def)
qed

section \<open>The arguments to translate\<close>

text \<open>
  What goes over the wire as an identifier: objects, and pointers, for which the consumer has
  allocated memory. The callback of \<^verbatim>\<open>clBuildProgram\<close> and its data are left out: the consumer sends
  zero for them and the provider asserts it.
\<close>

definition by_identifier :: "cl_function_t \<Rightarrow> nat \<Rightarrow> bool" where
  "by_identifier f j \<longleftrightarrow> j < length (cl_params f) \<and> cl_params f ! j \<noteq> Num \<and> \<not> (f = CL_BUILDPROGRAM \<and> 4 \<le> j)"

definition by_prototype :: "(arg \<Rightarrow> arg) \<Rightarrow> cl_function_t \<Rightarrow> arg list \<Rightarrow> arg list" where
  "by_prototype g f args =
     map (\<lambda>j. if by_identifier f j \<and> args ! j \<noteq> 0 then g (args ! j) else args ! j) [0 ..< length args]"

lemma bit_or_fold:
  "bit (fold (\<lambda>i m. or m (push_bit (i - 1) 1)) is (m :: u32)) j \<longleftrightarrow> bit m j \<or> j < 32 \<and> (\<exists>i\<in>set is. i - 1 = j)"
  by (induction "is" arbitrary: m) (auto simp: bit_simps)

lemma bit_ARGS: "0 \<notin> set is \<Longrightarrow> bit (ARGS is) j \<longleftrightarrow> j < 32 \<and> Suc j \<in> set is"
  unfolding ARGS_def bit_or_fold by (auto simp: Bex_def) (metis Suc_pred neq0_conv)+

definition marked :: "cl_function_t \<Rightarrow> nat list" where
  "marked f = map Suc (filter (by_identifier f) [0 ..< length (cl_params f)])"

lemma marked_rows:
  "marked CL_GETDEVICEINFO = [1, 4, 5]"
  "marked CL_CREATECONTEXT = [1, 3, 4, 5, 6]"
  "marked CL_CREATECONTEXTFROMTYPE = [1, 3, 4, 5]"
  "marked CL_RETAINCONTEXT = [1]"
  "marked CL_RELEASECONTEXT = [1]"
  "marked CL_CREATECOMMANDQUEUE = [1, 2, 4]"
  "marked CL_RETAINCOMMANDQUEUE = [1]"
  "marked CL_RELEASECOMMANDQUEUE = [1]"
  "marked CL_GETCOMMANDQUEUEINFO = [1, 4, 5]"
  "marked CL_CREATEBUFFER = [1, 4, 5]"
  "marked CL_RETAINMEMOBJECT = [1]"
  "marked CL_RELEASEMEMOBJECT = [1]"
  "marked CL_ENQUEUEREADBUFFER = [1, 2, 6, 8, 9]"
  "marked CL_ENQUEUEWRITEBUFFER = [1, 2, 6, 8, 9]"
  "marked CL_ENQUEUECOPYBUFFER = [1, 2, 3, 8, 9]"
  "marked CL_GETMEMOBJECTINFO = [1, 4, 5]"
  "marked CL_CREATEPROGRAMWITHSOURCE = [1, 3, 4, 5]"
  "marked CL_CREATEPROGRAMWITHBINARY = [1, 3, 4, 5, 6, 7]"
  "marked CL_RETAINPROGRAM = [1]"
  "marked CL_RELEASEPROGRAM = [1]"
  "marked CL_BUILDPROGRAM = [1, 3, 4]"
  "marked CL_UNLOADCOMPILER = []"
  "marked CL_GETPROGRAMINFO = [1, 4, 5]"
  "marked CL_GETPROGRAMBUILDINFO = [1, 2, 5, 6]"
  "marked CL_CREATEKERNEL = [1, 2, 3]"
  "marked CL_RETAINKERNEL = [1]"
  "marked CL_RELEASEKERNEL = [1]"
  "marked CL_SETKERNELARG = [1, 4]"
  "marked CL_ENQUEUENDRANGEKERNEL = [1, 2, 4, 5, 6, 8, 9]"
  "marked CL_ENQUEUETASK = [1, 2, 4, 5]"
  "marked CL_GETKERNELINFO = [1, 4, 5]"
  "marked CL_WAITFOREVENTS = [2]"
  "marked CL_GETEVENTINFO = [1, 4, 5]"
  "marked CL_RETAINEVENT = [1]"
  "marked CL_RELEASEEVENT = [1]"
  "marked CL_ENQUEUEMARKER = [1, 2]"
  "marked CL_ENQUEUEWAITFOREVENTS = [1, 3]"
  "marked CL_ENQUEUEBARRIER = [1]"
  "marked CL_GETEVENTPROFILINGINFO = [1, 4, 5]"
  "marked CL_FLUSH = [1]"
  "marked CL_FINISH = [1]"
  by code_simp+

lemma exec_marks: "list_all (\<lambda>(f, e). \<exists>H. e = entry H (marked f)) (exec_fun_table_entries vd)"
  unfolding exec_fun_table_entries_def list.pred_inject prod.case marked_rows
  by (intro conjI exI) (rule refl, simp_all)

lemma bit_marked: "bit (ARGS (marked f)) j \<longleftrightarrow> by_identifier f j"
proof -
  have "length (cl_params f) \<le> 12" using argc_ok_bound argc_params by blast
  then show ?thesis by (subst bit_ARGS) (auto simp: marked_def by_identifier_def)
qed

text \<open>
  A call at the provider: the handler gets the arguments with the objects and pointers of the
  prototype, and nothing else, translated.
\<close>

lemma provider_execute_prototype:
  fixes pr :: "('n, 'o) clara_provider"
  assumes inv: "pr_inv pr"
    and f: "map_of (exec_fun_table_entries vd :: (cl_function_t \<times> ('n, 'o) clara_provider fun_entry) list) f = Some e"
    and H: "fe_pfn e = Some H" and params: "er_fun params = of_nat (cl_value f)"
    and len: "length args = length (cl_params f)"
    and known: "\<And>j. by_identifier f j \<Longrightarrow> args ! j \<noteq> 0 \<Longrightarrow> pr_ids pr (args ! j) \<noteq> None"
    and run: "H pr (params\<lparr>er_retval := 0\<rparr>) (by_prototype (real_of pr) f args) = Inr (pr1, params1, args1)"
    and net: "reliable net k" "lk_ok k (pr_net pr1)" "10 \<le> lk_lim k"
  shows "\<exists>s. pr_handle_execute net vd pr (enc_execute_request params @ enc_args args) from =
      Inr (pr1\<lparr>pr_net := s\<rparr>) \<and>
    adds k (pr_net pr1) s (lk_out k (pr_sd pr1) from)
      [enc16 CLARA_MSG_EXECUTE_RESPONSE @ enc64 (er_retval params1)]"
proof -
  from exec_marks [of vd] map_of_SomeD [OF f] have "\<exists>H'. e = entry H' (marked f)" by (auto simp: list_all_iff)
  with f H have f': "map_of (exec_fun_table_entries vd :: (cl_function_t \<times> ('n, 'o) clara_provider fun_entry) list) f =
      Some (entry H (marked f))" by (auto simp: entry_def)
  obtain fni where fni: "opencl_get_clfuninfo f = Inr fni" "fi_argc fni = length (cl_params f)"
    using argc_params [of f "length (cl_params f)"] by (auto simp: argc_ok_def)
  have "translated (real_of pr) (ARGS (marked f)) (fi_argc fni) args = by_prototype (real_of pr) f args"
    by (auto simp: translated_def by_prototype_def bit_marked fni(2) len)
  with run have run': "H pr (params\<lparr>er_retval := 0\<rparr>) (translated (real_of pr) (ARGS (marked f)) (fi_argc fni) args) =
      Inr (pr1, params1, args1)" by simp
  show ?thesis
    by (rule provider_execute [OF inv f' params fni(1) _ _ run' net]) (use known len in \<open>simp_all add: fni(2) bit_marked\<close>)
qed

end
