(* ===== verification/Spec2Isabelle.thy ===== *)
theory Spec2Isabelle
  imports Rb_Int Whole_Examples Consumer_Unsupported Signatures
begin

text \<open>
  A verification development of vopencl, a distributed OpenCL: an application is linked to the
  \<^emph>\<open>consumer\<close> library, which has the OpenCL functions and sends them to an \<^emph>\<open>agent\<close>; the agent
  gives every application a platform of one of the \<^emph>\<open>providers\<close>, machines that have a vendor's
  OpenCL library, and passes the calls on. The three talk SCTP messages defined in
  \<^verbatim>\<open>include/message.h\<close>.

  \<^bold>\<open>How the parts interact.\<close> A function of the consumer's library copies what the application's
  pointers lead to into allocations of the agent (ALLOCATE, MEMPUT), sends EXECUTE with the number of
  the function and 64-bit arguments (values, identifiers of objects, handles of allocations),
  and takes results back with FETCH, which also frees the allocation. The agent has one thread
  per consumer and one per provider. It keeps an OpenCL object for everything a consumer
  created, with the consumer's identifier and the identifier at the provider, and forwards the
  call; an answer is an 8-byte status or object. The provider files the vendor's pointers under
  the agent's identifiers, translates the identifiers of a call and runs it.

  \<^bold>\<open>How C is modelled.\<close> An operation is a function that takes the state it works on and returns
  \<open>Inl fault\<close> (a failed assertion, a null or dangling pointer, a wild access) or \<open>Inr\<close> with its
  result and the new state; \<open>rbind\<close> sequences two of them (\<open>Prelude\<close>). The error codes and
  null pointers a C function returns are values under \<open>Inr\<close>. Machine integers are words of their
  width (\<open>64 word\<close> for \<^verbatim>\<open>size_t\<close>, pointers and arguments), so that they wrap. Structures in
  messages are their bytes on a little-endian LP64 machine (\<open>Wire\<close>). Memory is a map from
  pointers to blocks of bytes or to records, and \<^verbatim>\<open>calloc\<close> gives fresh pointers from the state.
  SCTP is the record \<open>sctp\<close> of functions on a state of the network of an arbitrary type:
  whatever the other side does is in these functions; opening, peeling off and closing sockets is the
  record \<open>sockets\<close>. LZO (\<open>lzo\<close>) and the vendor's library
  (\<open>vendor\<close>) are parameters too. What a theorem needs of them is among its hypotheses (\<open>sends_whole\<close>:
  a message is sent as a whole or not at all; \<open>lzo_ok\<close>: decompression undoes compression;
  \<open>vendor_ok\<close>: the vendor's library keeps to the memory it is given; \<open>sockets_ok\<close>: a new descriptor was
  not open before, only \<^verbatim>\<open>close\<close> closes one; \<open>peeloff_ok\<close>: so is a descriptor of
  \<^verbatim>\<open>sctp_peeloff\<close>), and its witness shows it
  for a concrete network, codec and library (\<open>Examples\<close> and the \<open>_Examples\<close> theories).

  \<^bold>\<open>Theories and the code they model.\<close>
  \<^item> \<open>Prelude\<close>: faults, sequencing, shared lemmas. \<open>Wire\<close>: byte layouts and \<^verbatim>\<open>include/message.h\<close>.
    \<open>Memory\<close>: heap memory. \<open>Net\<close>, \<open>Socket\<close>: \<^verbatim>\<open>common/net.c\<close>.
  \<^item> \<open>Rb_Tree\<close>, \<open>Rb_Insert\<close>, \<open>Rb_Delete\<close>, \<open>Rb_Traverse\<close>, \<open>Rb_Copy\<close>: the red-black tree of \<^verbatim>\<open>common/rb.c\<close>;
    the parent stack of the C code is an explicit list of frames, and a copy
    is built node by node in heap memory. \<open>Rb_Order\<close>: the contract of its
    comparison function, as a locale. \<open>Rb_Int\<close>: the self test at the end of the file.
  \<^item> \<open>Key_Set\<close>: the keyed set of \<^verbatim>\<open>common/set.c\<close>; \<open>Set_Laws\<close>: it is a finite map that is
    traversed in order; \<open>Key_Store\<close>: that interface as a locale.
  \<^item> \<open>Id_Map\<close>: \<^verbatim>\<open>common/map.c\<close> and \<^verbatim>\<open>agent/src/id.c\<close>. \<open>Allocation\<close>: \<^verbatim>\<open>common/alloc.c\<close>.
    \<open>Rec_Lock\<close>: \<^verbatim>\<open>common/lock.c\<close>, in single steps of any number of threads.
  \<^item> \<open>Block\<close>, \<open>Stream_Transfer\<close>: \<^verbatim>\<open>common/block.c\<close>, \<^verbatim>\<open>common/stream.c\<close>. \<open>Api\<close>:
    \<^verbatim>\<open>common/api.c\<close>, \<^verbatim>\<open>include/api.h\<close>. \<open>Rpc\<close>: \<^verbatim>\<open>common/rpc_client.c\<close>, \<^verbatim>\<open>rpc_server.c\<close>.
  \<^item> The agent (\<^verbatim>\<open>agent/src\<close>). \<open>Agent_State\<close>: its structures. \<open>Agent_Object\<close>: \<^verbatim>\<open>object.c\<close>,
    \<^verbatim>\<open>opencl_object.c\<close>, \<^verbatim>\<open>consumer.c\<close>. \<open>Load_Balance\<close>: \<^verbatim>\<open>loadbalancer.c\<close>. \<open>Agent_Provider\<close>:
    \<^verbatim>\<open>provider.c\<close>, \<^verbatim>\<open>platform.c\<close>, \<^verbatim>\<open>device.c\<close>. \<open>Agent_Remote\<close>: \<^verbatim>\<open>remote.c\<close>, \<^verbatim>\<open>forward.c\<close>.
    \<open>Agent_Query\<close>: \<^verbatim>\<open>opencl_platform.c\<close>, \<^verbatim>\<open>opencl_device.c\<close>. \<open>Agent_Calls\<close>: \<^verbatim>\<open>agent_opencl.h\<close>
    and the other \<^verbatim>\<open>opencl_*.c\<close>, with the handler tables. \<open>Consumer_Handler\<close>:
    \<^verbatim>\<open>consumer_handler.c\<close>. \<open>Provider_Handler\<close>: \<^verbatim>\<open>provider_handler.c\<close> and the main loop of
    \<^verbatim>\<open>agent.c\<close>. \<open>Device_Info\<close>: the parameters of platforms and devices, from the provider's
    message to the agent's answer.
    \<open>Agent_Process\<close>: start, shutdown and main loop of \<^verbatim>\<open>agent.c\<close>, the program of \<^verbatim>\<open>main.c\<close>.
  \<^item> The provider (\<^verbatim>\<open>provider/src\<close>). \<open>Provider_State\<close>: its structures and maps. \<open>Provider_Calls\<close>:
    \<^verbatim>\<open>provider_opencl.h\<close> and the \<^verbatim>\<open>opencl_*.c\<close>. \<open>Provider_Process\<close>: the introduction to the agent
    and the messages of \<^verbatim>\<open>provider.c\<close>. \<open>Provider_Program\<close>: its options, its attempts to connect, its
    shutdown and its list of devices, with \<^verbatim>\<open>query.c\<close>.
  \<^item> The consumer (\<^verbatim>\<open>consumer/src\<close>). \<open>Consumer_Library\<close>: \<^verbatim>\<open>consumer.c\<close> and the macros of
    \<^verbatim>\<open>consumer.h\<close>. \<open>Consumer_Calls\<close> and \<open>Consumer_Unsupported\<close>: the \<^verbatim>\<open>opencl_*.c\<close>.
  \<^item> \<open>Distributed\<close>: agent and provider together; \<open>Agent_Intake\<close>, \<open>Provider_Startup\<close> and \<open>Introduction\<close>:
    how they meet, from each side and from both. \<open>Consumer_Agent\<close>: consumer and agent together.
    \<open>Whole_Calls\<close>, \<open>Whole_Memory\<close>: a call, and memory there and back, through all three.

  \<^bold>\<open>What the lemmas show.\<close>
  \<^item> Tree and set: every operation keeps the order and the balance, and is the operation of a
    sorted list or finite map. The set rests on the locale \<open>rb_order\<close> and the agent's and provider's
    uses on \<open>key_store\<close>; both are interpreted on the code's own comparison functions and on
    \<open>set_insert\<close>, \<open>set_remove\<close> and the other operations of the model.
  \<^item> Lock: mutual exclusion, no thread waits for itself, and a simulation of an abstract owner
    with a nesting depth.
  \<^item> Transfers: what a stream or block sender sends, the receiver reassembles, directly or
    through the agent, whatever the block size up to \<open>2 ^ 62\<close>, compressed or not; what goes wrong
    with block size zero and with one for which the size of a buffer wraps around.
  \<^item> \<open>Agent_Object\<close>: an invariant over objects, reference counts, owners and the identifier
    pool, kept by every sequence of registrations, creations, retains and releases up to the first
    operation that comes in a situation the code does not check (\<open>overlooked\<close>). \<open>Alloc_Laws\<close>: the allocations
    as a map from handles to bytes. \<open>Call_Laws\<close>, \<open>Query_Laws\<close>: what each call returns and changes,
    errors included.
  \<^item> \<open>Provider_Laws\<close>: each message as an operation on two maps. \<open>Provider_Inv\<close>: the invariant over
    every message and every behaviour of the vendor's library. \<open>Distributed\<close>: agent and provider
    agree on the real objects, until an identifier is given out again.
  \<^item> \<open>Consumer_Laws\<close> introduces the statement that an operation \<open>talks\<close>: given the answers
    in the order it asks for them it sends exactly the listed messages and ends in the given state
    and value. Its rules compose along the code, so that \<open>Consumer_Call_Laws\<close>,
    \<open>Consumer_Source_Laws\<close> and \<open>Consumer_Context_Laws\<close> give each function's complete conversation
    with the agent. \<open>Signatures\<close>: the prototypes of \<^verbatim>\<open>include/CL/cl.h\<close>; the interface table and the
    provider's table of handlers fit them.
  \<^item> \<open>Whole_Calls\<close> and \<open>Whole_Memory\<close> put them together: the library's conversation, the step of the
    agent's thread on the library's message and the provider's step on the agent's are about the
    same messages.
  \<^item> \<open>Agent_Intake\<close>: a platform and devices are filed under fresh identifiers as they were reported,
    one message after the other. \<open>Provider_Startup\<close>: the provider maps the identifiers that answer its
    descriptions. \<open>Introduction\<close>: what either side sends is what the other takes, and they agree.
  \<^item> \<open>Agent_Process\<close>, \<open>Program_Laws\<close>: the programs close the sockets they open, but the agent none that it
    peels off for a thread; a refused provider ends;
    what the list of devices numbers and the option \<^verbatim>\<open>-d\<close> picks; the shutdown of a provider that has
    platforms reads freed memory.

  \<^bold>\<open>Bounds and fuel.\<close> Loops over trees, lists and argument counters are total functions with a
  measure. Loops driven by messages (\<open>stream_recv_loop\<close>, \<open>provider_main_loop\<close> and the like) take
  fuel, one unit per round, and end in \<open>Inl Out_Of_Fuel\<close> when it is used up; \<open>stream_fuel\<close>
  bounds the rounds a stream needs by its number of blocks and their lengths, and the theorems
  about streams show that the transfer is complete with it. A stream of block size zero never
  ends when there are data, which is a theorem. \<open>consumer_loop\<close> takes a list with what \<^verbatim>\<open>rand\<close> returns in each of its
  rounds, whose length is its fuel, \<open>agent_main_loop\<close> one with the stream of each of its messages and
  whether a thread can be created for it, and \<open>provider_retry\<close> one with the \<^verbatim>\<open>errno\<close> of each of its attempts. The stacks of the tree have \<open>RB_MAX_HEIGHT\<close> places and overflow in the model as in the code;
  \<open>set_room\<close> (at most 65534 entries) implies that none does. \<open>BLOCKSIZE\<close> is 1024, the agent
  receives into \<open>AGENT_RECVBUFSZ\<close> = 10240 bytes, and a function has at most \<open>MAX_ARGS\<close> = 32
  arguments.

  \<^bold>\<open>Not modelled.\<close> Debug output, usage texts and \<^verbatim>\<open>agent_print_tree\<close>; the parsing of \<^verbatim>\<open>getopt\<close>, whose
  results are an argument; signal handlers, which interrupt a program at any point; what follows
  the failing assertion in \<^verbatim>\<open>reverseproxy.c\<close>; what \<^verbatim>\<open>provider_shutdown\<close> does after it has read the
  freed node of its traversal; the printing of trees in \<^verbatim>\<open>rb.c\<close>, which only its self test does;
  the OpenCL headers beyond the constants that the code uses and the kinds of the parameters.
  Each thread of the agent is modelled as it runs between two steps of the others: the locks are
  the subject of \<open>Rec_Lock\<close>, and in the other theories a lock is a nesting depth.
\<close>

section \<open>Calls through all three processes\<close>

text \<open>
  C1: the application creates a buffer. The library sends one request and returns the identifier
  that is answered; the agent's thread passes the request on and answers with a fresh
  identifier, which it files and tells the provider; the provider runs the call on the real
  context and files the vendor's buffer. In the end agent and provider agree on all objects.
\<close>

theorem buffer_created_everywhere:
  fixes pr :: "('m, 'o) clara_provider"
  assumes "works sy k cn" and "sends_whole (sy_net sy)" and "joined k cn (co_sd co)"
    and "object_inv ag" and "object_room ag" and "ag_consumer_heap ag i = Some co" and "co_attached co"
    and "served k ag v pv out inp" and "apart k cn (co_sd co) out inp"
    and "object_table ag context = Some e" and "oe_provider e = v"
    and "first_nonzero rs = Some key" and "key \<notin> pool_ids (ag_id_pool ag)"
    and "pr_inv pr" and "pr_room pr" and "vendor_ok vd" and "agrees ag v pr" and "pr_ids pr key = None"
    and "vd_object vd CL_CREATEBUFFER [oe_real e, flags, sz, 0, 0] (pr_vendor pr) (pr_mem pr) = (real, err, o', m')"
    and "real \<noteq> 0"
    and "reliable pnet pk" and "lk_ok pk (pr_net pr)" and "10 \<le> lk_lim pk"
    and "lk_queue k (ag_net ag) (lk_inp k (co_sd co)) =
      exec_req CL_CREATEBUFFER context [context, flags, sz, 0, 0] # ms"
    and "lk_queue k (ag_net ag) inp = exec_resp real # ms'"
  shows "\<exists>ag' pr2 pr3.
    talks k cn (clCreateBuffer sy context flags sz 0 0) m [exec_resp key]
      [exec_req CL_CREATEBUFFER context [context, flags, sz, 0, 0]] m key \<and>
    consumer_step (sy_net sy) (sy_lzo sy) fuel ev rs ag i = Inr (Some (ag', False)) \<and>
    lk_queue k (ag_net ag') = (lk_queue k (ag_net ag))(lk_inp k (co_sd co) := ms, inp := ms',
      out := lk_queue k (ag_net ag) out @ [exec_req CL_CREATEBUFFER context [context, flags, sz, 0, 0],
        enc16 CLARA_MSG_MAPPING @ enc64 key @ enc64 real],
      lk_inp k (cn_sd cn) := lk_queue k (ag_net ag) (lk_inp k (cn_sd cn)) @ [exec_resp key]) \<and>
    pr_handle_execute pnet vd pr (drop 2 (exec_req CL_CREATEBUFFER context [context, flags, sz, 0, 0])) from = Inr pr2 \<and>
    adds pk (pr_net pr) (pr_net pr2) (lk_out pk (pr_sd pr) from) [exec_resp real] \<and>
    handle_mapping pr2 (enc64 key @ enc64 real) = Inr pr3 \<and>
    object_table ag' key = Some \<lparr>oe_real = real, oe_provider = v, oe_consumer = i, oe_refcnt = 1\<rparr> \<and>
    object_inv ag' \<and> pr_inv pr3 \<and> agrees ag' v pr3"
  using assms by (rule create_buffer_whole)

theorem buffer_created_everywhere_witness:
  "\<exists>ag' pr2 pr3.
    talks link1 cn1 (clCreateBuffer sy1 7 1 16 0 0) mem_init [exec_resp 8]
      [exec_req CL_CREATEBUFFER 7 [7, 1, 16, 0, 0]] mem_init 8 \<and>
    consumer_step net1 lz0 5 1 [8] (ag6 [exec_req CL_CREATEBUFFER 7 [7, 1, 16, 0, 0]] 33) 2 = Inr (Some (ag', False)) \<and>
    pr_handle_execute net0 vd0 prov0 (drop 2 (exec_req CL_CREATEBUFFER 7 [7, 1, 16, 0, 0])) 4 = Inr pr2 \<and>
    handle_mapping pr2 (enc64 8 @ enc64 33) = Inr pr3 \<and> agrees ag' 1 pr3"
proof -
  have key: "first_nonzero [8] = Some 8" "8 \<notin> pool_ids (ag_id_pool (ag6 reqs x))" "pr_ids prov0 8 = None"
    "(33 :: arg) \<noteq> 0" for reqs x by (simp_all add: ag6_parts prov0_ids)
  have vd: "vd_object vd0 CL_CREATEBUFFER [oe_real \<lparr>oe_real = 9, oe_provider = 1, oe_consumer = 2, oe_refcnt = 1\<rparr>,
      1, 16, 0, 0] (pr_vendor prov0) (pr_mem prov0) = (33, 0, pr_vendor prov0, pr_mem prov0)" by (rule vd0_calls)
  from buffer_created_everywhere [OF sy1_works(1) sy1_parts(1) whole1(1) ag6_parts(7,8,3,4,9) whole1(2) ag6_object _
      key(1,2) prov0_inv(1,2) vd0_ok ag6_parts(10) key(3) vd key(4) whole1(5) prov0_net(1) whole1(6,3,4)]
  show ?thesis unfolding sy1_parts by simp blast
qed

text \<open>
  C2: the application releases the last reference to a buffer. The library returns the status of
  the vendor's library; the agent forgets the object and gives its identifier back before the
  call runs; the provider runs it on the real buffer, but goes on knowing the identifier.
\<close>

theorem buffer_released_everywhere:
  fixes pr :: "('m, 'o) clara_provider"
  assumes "works sy k cn" and "joined k cn (co_sd co)"
    and "object_inv ag" and "object_room ag" and "ag_consumer_heap ag i = Some co" and "co_attached co"
    and "served k ag v pv out inp" and "apart k cn (co_sd co) out inp"
    and "object_table ag b = Some e" and "oe_provider e = v" and "oe_refcnt e = 1"
    and "pr_inv pr" and "pr_room pr" and "vendor_ok vd" and "agrees ag v pr"
    and "vd_status vd CL_RELEASEMEMOBJECT [oe_real e] (pr_vendor pr) (pr_mem pr) = (status, o', m')"
    and "reliable pnet pk" and "lk_ok pk (pr_net pr)" and "10 \<le> lk_lim pk"
    and "lk_queue k (ag_net ag) (lk_inp k (co_sd co)) = exec_req CL_RELEASEMEMOBJECT b [b] # ms"
    and "lk_queue k (ag_net ag) inp = exec_resp (scast status) # ms'"
  shows "\<exists>ag' pr2.
    talks k cn (clReleaseMemObject sy b) m [exec_resp (scast status)] [exec_req CL_RELEASEMEMOBJECT b [b]] m status \<and>
    consumer_step (sy_net sy) (sy_lzo sy) fuel ev rs ag i = Inr (Some (ag', False)) \<and>
    lk_queue k (ag_net ag') = (lk_queue k (ag_net ag))(lk_inp k (co_sd co) := ms, inp := ms',
      out := lk_queue k (ag_net ag) out @ [exec_req CL_RELEASEMEMOBJECT b [b]],
      lk_inp k (cn_sd cn) := lk_queue k (ag_net ag) (lk_inp k (cn_sd cn)) @ [exec_resp (scast status)]) \<and>
    pr_handle_execute pnet vd pr (drop 2 (exec_req CL_RELEASEMEMOBJECT b [b])) from = Inr pr2 \<and>
    adds pk (pr_net pr) (pr_net pr2) (lk_out pk (pr_sd pr) from) [exec_resp (scast status)] \<and>
    object_table ag' = (object_table ag)(b := None) \<and>
    pool_ids (ag_id_pool ag') = pool_ids (ag_id_pool ag) - {b} \<and> pr_ids pr2 b = Some (oe_real e) \<and>
    object_inv ag' \<and> pr_inv pr2 \<and> agrees ag' v pr2"
  using assms by (rule release_buffer_whole)

theorem buffer_released_everywhere_witness:
  "\<exists>ag' pr2.
    talks link1 cn1 (clReleaseMemObject sy1 7) mem_init [exec_resp 0] [exec_req CL_RELEASEMEMOBJECT 7 [7]] mem_init 0 \<and>
    consumer_step net1 lz0 5 1 [] (ag6 [exec_req CL_RELEASEMEMOBJECT 7 [7]] 0) 2 = Inr (Some (ag', False)) \<and>
    pr_handle_execute net0 vd0 prov0 (drop 2 (exec_req CL_RELEASEMEMOBJECT 7 [7])) 4 = Inr pr2 \<and>
    object_table ag' 7 = None \<and> pr_ids pr2 7 = Some 9"
proof -
  have vd: "vd_status vd0 CL_RELEASEMEMOBJECT [oe_real \<lparr>oe_real = 9, oe_provider = 1, oe_consumer = 2, oe_refcnt = 1\<rparr>]
      (pr_vendor prov0) (pr_mem prov0) = (0, pr_vendor prov0, pr_mem prov0)" by (rule vd0_calls)
  have q: "lk_queue link1 (ag_net (ag6 reqs 0)) 4 = exec_resp (scast (0 :: u32)) # []" for reqs
    by (simp add: ag6_parts)
  from buffer_released_everywhere [OF sy1_works(1) whole1(1) ag6_parts(7,8,3,4,9) whole1(2) ag6_object _ _
      prov0_inv(1,2) vd0_ok ag6_parts(10) vd whole1(5) prov0_net(1) whole1(6,3) q]
  show ?thesis unfolding sy1_parts by simp fastforce
qed

text \<open>
  C3: the application copies memory to the provider. The library streams exactly the application's
  bytes behind its request; the agent's thread passes request and stream on, message for message,
  and is otherwise unchanged; the provider overwrites the beginning of the block behind the
  handle with these bytes and touches nothing else.
\<close>

theorem memory_put_everywhere:
  fixes pr :: "('m, 'o) clara_provider"
  assumes "works sy k cn" and "joined k cn (co_sd co)"
    and "object_inv ag" and "ag_consumer_heap ag i = Some co" and "co_attached co"
    and "served k ag v pv out inp" and "apart k cn (co_sd co) out inp"
    and "object_table ag hint = Some e" and "oe_provider e = v"
    and "room m src (unat n)" and "bytes = block_at m src (unat n)" and "streamable sy n bytes"
    and "pr_inv pr" and "pr_buffers pr h = Some old" and "unat n \<le> length old"
    and "reliable pnet pk" and "lk_ok pk (pr_net pr)"
    and "stream_fuel (wire_blocks (sy_lzo sy) (consumer_opts n) bytes) fuel"
    and "lk_queue k (ag_net ag) (lk_inp k (co_sd co)) = memput_msg h n hint # data_stream sy n bytes @ ms"
    and "lk_queue pk (pr_net pr) (lk_inp pk (pr_sd pr)) = data_stream sy n bytes @ ms'"
  shows "\<exists>s pr'.
    talks k cn (consumer_memcpy sy h src n hint) m [] (memput_msg h n hint # data_stream sy n bytes) m True \<and>
    consumer_step (sy_net sy) (sy_lzo sy) fuel ev rs ag i = Inr (Some (ag\<lparr>ag_net := s\<rparr>, False)) \<and>
    moves k (ag_net ag) s (lk_inp k (co_sd co)) ms out (memput_msg h n hint # data_stream sy n bytes) \<and>
    pr_handle_memput pnet (sy_lzo sy) fuel pr (drop 2 (memput_msg h n hint)) = Inr pr' \<and>
    leaves pk (pr_net pr) (pr_net pr') (lk_inp pk (pr_sd pr)) ms' \<and>
    pr_buffers pr' = (pr_buffers pr)(h \<mapsto> bytes @ drop (unat n) old) \<and> pr_ids pr' = pr_ids pr \<and> pr_inv pr'"
  using assms by (rule put_whole)

theorem memory_put_everywhere_witness:
  "\<exists>s pr'.
    talks link1 cn1 (consumer_memcpy sy1 8 20 3 7) \<lparr>mm_blocks = [20 \<mapsto> [1, 2, 3]], mm_next = 100\<rparr> []
      (memput_msg 8 3 7 # data_stream sy1 3 [1, 2, 3]) \<lparr>mm_blocks = [20 \<mapsto> [1, 2, 3]], mm_next = 100\<rparr> True \<and>
    consumer_step net1 lz0 100 1 [] (ag7 (memput_msg 8 3 7 # data_stream sy1 3 [1, 2, 3]) []) 2 =
      Inr (Some ((ag7 (memput_msg 8 3 7 # data_stream sy1 3 [1, 2, 3]) [])\<lparr>ag_net := s\<rparr>, False)) \<and>
    pr_handle_memput net0 lz0 100 (prov2 [0, 0, 0, 9] (data_stream sy1 3 [1, 2, 3])) (drop 2 (memput_msg 8 3 7)) = Inr pr' \<and>
    pr_buffers pr' 8 = Some [1, 2, 3, 9]"
proof -
  let ?m = "\<lparr>mm_blocks = [20 \<mapsto> [1, 2, 3]], mm_next = 100\<rparr>" and ?ms = "data_stream sy1 3 [1, 2, 3]"
  have b: "[1, 2, 3] = block_at ?m 20 (unat (3 :: 64 word))" "room ?m 20 (unat (3 :: 64 word))"
    by (simp_all add: block_at_def room_def)
  have s: "streamable sy1 3 [1, 2, 3]" "stream_fuel (wire_blocks (sy_lzo sy1) (consumer_opts 3) [1, 2, 3]) 100"
    using short_stream [of "[1, 2, 3]"] by (simp_all add: sy1_parts)
  have pr: "pr_inv (prov2 [0, 0, 0, 9] ?ms)" "unat (3 :: 64 word) \<le> length [0, 0, 0, 9 :: byte]" by (simp_all add: prov2_inv)
  have q: "lk_queue link1 (ag_net (ag7 (memput_msg 8 3 7 # ?ms) [])) (lk_inp link1 (co_sd (co0 (sing 7 4) 0))) =
      memput_msg 8 3 7 # ?ms @ []"
    "lk_queue link0 (pr_net (prov2 [0, 0, 0, 9] ?ms)) (lk_inp link0 (pr_sd (prov2 [0, 0, 0, 9] ?ms))) = ?ms @ []"
    by (simp_all add: ag7_parts prov2_parts)
  have owner: "oe_provider \<lparr>oe_real = 9, oe_provider = 1, oe_consumer = 2, oe_refcnt = 1\<rparr> = 1" by simp
  from memory_put_everywhere [OF sy1_works(1) whole1(1) ag7_parts(7,3,4,9) whole1(2) ag7_object owner b(2,1) s(1)
      pr(1) prov2_parts(1) pr(2) whole1(5) prov2_parts(7) s(2) q, where ev = 1 and rs = "[]"]
  obtain s pr' where
    "talks link1 cn1 (consumer_memcpy sy1 8 20 3 7) ?m [] (memput_msg 8 3 7 # ?ms) ?m True"
    "consumer_step (sy_net sy1) (sy_lzo sy1) 100 1 [] (ag7 (memput_msg 8 3 7 # ?ms) []) 2 =
      Inr (Some ((ag7 (memput_msg 8 3 7 # ?ms) [])\<lparr>ag_net := s\<rparr>, False))"
    "pr_handle_memput net0 (sy_lzo sy1) 100 (prov2 [0, 0, 0, 9] ?ms) (drop 2 (memput_msg 8 3 7)) = Inr pr'"
    "pr_buffers pr' = (pr_buffers (prov2 [0, 0, 0, 9] ?ms))(8 \<mapsto> [1, 2, 3] @ drop (unat (3 :: 64 word)) [0, 0, 0, 9])"
    by (elim exE conjE) blast
  then show ?thesis by (intro exI [of _ s] exI [of _ pr']) (simp add: sy1_parts)
qed

text \<open>
  C4: the application fetches memory of the provider. The bytes behind the handle travel in the
  provider's stream through the agent to the application's pointer; afterwards the provider
  has neither the handle nor the block.
\<close>

theorem memory_fetched_everywhere:
  fixes pr :: "('m, 'o) clara_provider"
  assumes "works sy k cn" and "joined k cn (co_sd co)"
    and "object_inv ag" and "ag_consumer_heap ag i = Some co" and "co_attached co"
    and "served k ag v pv out inp" and "apart k cn (co_sd co) out inp"
    and "object_table ag hint = Some e" and "oe_provider e = v"
    and "room m dst (unat n)" and "streamable sy n bytes" and "n \<noteq> 0" and "h \<noteq> 0"
    and "pr_inv pr" and "pr_room pr" and "pr_buffers pr h = Some bytes"
    and "reliable pnet pk" and "lk_ok pk (pr_net pr)" and "BLOCKSIZE \<le> lk_lim pk"
    and "stream_fuel (wire_blocks (sy_lzo sy) (consumer_opts n) bytes) fuel"
    and "lk_queue k (ag_net ag) (lk_inp k (co_sd co)) = fetch_req h n hint # ms"
    and "lk_queue k (ag_net ag) inp = fetch_resp sy n n bytes @ ms'"
  shows "\<exists>s pr'.
    talks k cn (consumer_fetch sy h dst n hint) m (fetch_resp sy n n bytes) [fetch_req h n hint] (overwrite m dst bytes) True \<and>
    consumer_step (sy_net sy) (sy_lzo sy) fuel ev rs ag i = Inr (Some (ag\<lparr>ag_net := s\<rparr>, False)) \<and>
    lk_queue k s = (lk_queue k (ag_net ag))(lk_inp k (co_sd co) := ms, inp := ms',
      out := lk_queue k (ag_net ag) out @ [fetch_req h n hint],
      lk_inp k (cn_sd cn) := lk_queue k (ag_net ag) (lk_inp k (cn_sd cn)) @ fetch_resp sy n n bytes) \<and>
    pr_handle_fetch pnet (sy_lzo sy) fuel pr (drop 2 (fetch_req h n hint)) = Inr pr' \<and>
    adds pk (pr_net pr) (pr_net pr') (lk_out pk (pr_sd pr) (pr_agent pr)) (fetch_resp sy n n bytes) \<and>
    pr_buffers pr' = (pr_buffers pr)(h := None) \<and> pr_ids pr' = (pr_ids pr)(h := None) \<and> pr_inv pr'"
  using assms by (rule fetch_whole)

theorem memory_fetched_everywhere_witness:
  "\<exists>s pr'.
    talks link1 cn1 (consumer_fetch sy1 8 20 3 7) \<lparr>mm_blocks = [20 \<mapsto> [0, 0, 0, 9]], mm_next = 100\<rparr>
      (fetch_resp sy1 3 3 [1, 2, 3]) [fetch_req 8 3 7] \<lparr>mm_blocks = [20 \<mapsto> [1, 2, 3, 9]], mm_next = 100\<rparr> True \<and>
    consumer_step net1 lz0 100 1 [] (ag7 [fetch_req 8 3 7] (fetch_resp sy1 3 3 [1, 2, 3])) 2 =
      Inr (Some ((ag7 [fetch_req 8 3 7] (fetch_resp sy1 3 3 [1, 2, 3]))\<lparr>ag_net := s\<rparr>, False)) \<and>
    pr_handle_fetch net0 lz0 100 (prov2 [1, 2, 3] []) (drop 2 (fetch_req 8 3 7)) = Inr pr' \<and>
    pr_net pr' 4 = fetch_resp sy1 3 3 [1, 2, 3] \<and> pr_buffers pr' 8 = None"
proof -
  let ?m = "\<lparr>mm_blocks = [20 \<mapsto> [0, 0, 0, 9]], mm_next = 100\<rparr>" and ?ms = "fetch_resp sy1 3 3 [1, 2, 3]"
  have r: "room ?m 20 (unat (3 :: 64 word))" "(3 :: 64 word) \<noteq> 0" "(8 :: handle) \<noteq> 0" by (simp_all add: room_def)
  have s: "streamable sy1 3 [1, 2, 3]" "stream_fuel (wire_blocks (sy_lzo sy1) (consumer_opts 3) [1, 2, 3]) 100"
    using short_stream [of "[1, 2, 3]"] by (simp_all add: sy1_parts)
  have pr: "pr_inv (prov2 [1, 2, 3] [])" by (simp add: prov2_inv)
  have q: "lk_queue link1 (ag_net (ag7 [fetch_req 8 3 7] ?ms)) (lk_inp link1 (co_sd (co0 (sing 7 4) 0))) = fetch_req 8 3 7 # []"
    "lk_queue link1 (ag_net (ag7 [fetch_req 8 3 7] ?ms)) 4 = ?ms @ []"
    by (simp_all add: ag7_parts)
  have o: "overwrite ?m 20 [1, 2, 3] = \<lparr>mm_blocks = [20 \<mapsto> [1, 2, 3, 9]], mm_next = 100\<rparr>" by (simp add: overwrite_def)
  have owner: "oe_provider \<lparr>oe_real = 9, oe_provider = 1, oe_consumer = 2, oe_refcnt = 1\<rparr> = 1" by simp
  from memory_fetched_everywhere [OF sy1_works(1) whole1(1) ag7_parts(7,3,4,9) whole1(2) ag7_object owner r(1) s(1) r(2,3)
      pr prov2_parts(3,1) whole1(5) prov2_parts(7,8) s(2) q, where ev = 1 and rs = "[]"]
  obtain s pr' where
    "talks link1 cn1 (consumer_fetch sy1 8 20 3 7) ?m ?ms [fetch_req 8 3 7] (overwrite ?m 20 [1, 2, 3]) True"
    "consumer_step (sy_net sy1) (sy_lzo sy1) 100 1 [] (ag7 [fetch_req 8 3 7] ?ms) 2 =
      Inr (Some ((ag7 [fetch_req 8 3 7] ?ms)\<lparr>ag_net := s\<rparr>, False))"
    "pr_handle_fetch net0 (sy_lzo sy1) 100 (prov2 [1, 2, 3] []) (drop 2 (fetch_req 8 3 7)) = Inr pr'"
    "adds link0 (pr_net (prov2 [1, 2, 3] [])) (pr_net pr')
      (lk_out link0 (pr_sd (prov2 [1, 2, 3] [])) (pr_agent (prov2 [1, 2, 3] []))) ?ms"
    "pr_buffers pr' = (pr_buffers (prov2 [1, 2, 3] []))(8 := None)"
    by (elim exE conjE) blast
  then show ?thesis unfolding o by (intro exI [of _ s] exI [of _ pr']) (simp add: adds_def prov2_parts sy1_parts)
qed

section \<open>The programs\<close>

section \<open>The introduction of a provider\<close>

text \<open>
  C5: a provider is introduced. It announces itself, describes its platform and its devices, and
  is done; the agent's thread files them with every value as it was reported, under identifiers
  it has not given out before, and answers with these. In the end the agent has an object without
  an owner for each, and both sides agree on what every identifier stands for.
\<close>

theorem provider_introduced:
  fixes pr :: "('m, 'o) clara_provider"
  assumes "pr_inv pr" and "pr_opts_device pr = -1" and "0 < pr_next pr" and "pr_next pr + length xs + 1 < 2 ^ 64"
    and "dom (pr_ids pr) \<subseteq> pool_ids (ag_id_pool ag)" and "agrees ag v pr" and "offers vd pid val xs"
    and "reliable pnet pk" and "PROVIDER_BUFSZ + 2 \<le> lk_lim pk" and "lk_ok pk (pr_net pr)"
    and "lk_out pk (pr_sd pr) (pr_agent pr) \<noteq> lk_inp pk (pr_sd pr)"
    and "object_inv ag" and "card (pool_ids (ag_id_pool ag)) + length xs < 65534"
    and "ag_provider_heap ag v = Some pv" and "pv_attached pv" and "pv_platforms pv = set_create"
    and "reliable net k" and "10 \<le> lk_lim k" and "lk_ok k (ag_net ag)"
    and "\<And>fr. lk_out k (pv_sd pv) fr = out" and "out \<noteq> lk_inp k (pv_sd pv)"
    and "pid \<noteq> 0" and "\<forall>i. cstr (val i)" and "length (platform_msg val pid) \<le> PROVIDER_BUFSZ"
    and "first_nonzero rs = Some key" and "\<forall>x\<in>set xs. newcomer_ok pid x" and "distinct (key # map nc_key xs)"
    and "insert key (nc_key ` set xs) \<inter> pool_ids (ag_id_pool ag) = {}"
    and "lk_queue pk (pr_net pr) (lk_inp pk (pr_sd pr)) = enc16 CLARA_MSG_ACK # identifiers key xs @ ms"
    and "lk_queue k (ag_net ag) (lk_inp k (pv_sd pv)) = description val pid xs @ [enc16 CLARA_MSG_IDLE] @ ms'"
  shows "\<exists>pr' ag'.
    provider_connect pnet vd pr = Inr (pr', Connected) \<and>
    provider_intake net ev (rs # map nc_rand xs @ rs' # rss) ag v = Inr (ag', True) \<and>
    moves pk (pr_net pr) (pr_net pr') (lk_inp pk (pr_sd pr)) ms (lk_out pk (pr_sd pr) (pr_agent pr))
      (enc16 CLARA_MSG_PROVIDER # description val pid xs @ [enc16 CLARA_MSG_IDLE]) \<and>
    moves k (ag_net ag) (ag_net ag') (lk_inp k (pv_sd pv)) ms' out (identifiers key xs) \<and>
    intake ag' v (pv_sd pv) (ag_next ag) (reported_platform val pid (blank_platform v key)) (known_devices v xs) \<and>
    object_table ag' = (object_table ag)(key \<mapsto> \<lparr>oe_real = pid, oe_provider = v, oe_consumer = 0, oe_refcnt = 0\<rparr>) ++
      known_objects v xs \<and>
    pr_inv pr' \<and> agrees ag' v pr'"
  using assms by (rule introduction_correct)

theorem provider_introduced_witness:
  "\<exists>pr' ag'. provider_connect net0 vd4 (prov4 (enc16 CLARA_MSG_ACK # identifiers 7 [newcomer1])) = Inr (pr', Connected) \<and>
    provider_intake net4 0 [[7], [8], []]
      (ag8 (description (\<lambda>i. [65, 0]) 21 [newcomer1] @ [enc16 CLARA_MSG_IDLE])) 1 = Inr (ag', True) \<and>
    object_table ag' = [7 \<mapsto> \<lparr>oe_real = 21, oe_provider = 1, oe_consumer = 0, oe_refcnt = 0\<rparr>,
      8 \<mapsto> \<lparr>oe_real = 22, oe_provider = 1, oe_consumer = 0, oe_refcnt = 0\<rparr>] \<and> agrees ag' 1 pr'"
proof -
  let ?ms = "enc16 CLARA_MSG_ACK # identifiers 7 [newcomer1] @ []"
    and ?ms' = "description (\<lambda>i. [65, 0]) 21 [newcomer1] @ [enc16 CLARA_MSG_IDLE] @ []"
  have 1: "0 < pr_next (prov4 ?ms)" "pr_next (prov4 ?ms) + length [newcomer1] + 1 < 2 ^ 64"
    "dom (pr_ids (prov4 ?ms)) \<subseteq> pool_ids (ag_id_pool (ag8 ?ms'))" "agrees (ag8 ?ms') 1 (prov4 ?ms)"
    by (simp_all add: prov4_parts ag8_parts agrees_def)
  have 2: "PROVIDER_BUFSZ + 2 \<le> lk_lim link0" "lk_ok link0 (pr_net (prov4 ?ms))"
    "lk_out link0 (pr_sd (prov4 ?ms)) (pr_agent (prov4 ?ms)) \<noteq> lk_inp link0 (pr_sd (prov4 ?ms))"
    by (simp_all add: prov4_parts PROVIDER_BUFSZ_def)
  have 3: "card (pool_ids (ag_id_pool (ag8 ?ms'))) + length [newcomer1] < 65534" "10 \<le> lk_lim link4"
    "lk_ok link4 (ag_net (ag8 ?ms'))" "9 \<noteq> lk_inp link4 (pv_sd pv0)" "(21 :: arg) \<noteq> 0"
    "\<forall>i :: platform_info. cstr [65, 0]" "first_nonzero [7] = Some (7 :: global_id)"
    "\<forall>x\<in>set [newcomer1]. newcomer_ok 21 x" "distinct (7 # map nc_key [newcomer1])"
    "insert 7 (nc_key ` set [newcomer1]) \<inter> pool_ids (ag_id_pool (ag8 ?ms')) = {}"
    by (simp_all add: ag8_parts newcomer1_ok pool_ids_def cstr_def)
  have 4: "lk_queue link0 (pr_net (prov4 ?ms)) (lk_inp link0 (pr_sd (prov4 ?ms))) = ?ms"
    "lk_queue link4 (ag_net (ag8 ?ms')) (lk_inp link4 (pv_sd pv0)) = ?ms'"
    by (simp_all add: prov4_parts ag8_parts)
  from provider_introduced [OF prov4_parts(1,2) 1 vd4_offers link0_simps(1) 2 ag8_parts(1) 3(1) ag8_parts(4-6)
      link4_simps(1) 3(2,3) link4_simps(4) 3(4-6) platform_msg_short 3(7-10) 4, of 0 "[]" "[]"]
  show ?thesis by (auto simp: ag8_parts newcomer1_ok known_objects_def)
qed

text \<open>
  C6: whatever the options, the messages and the failures of the calls on the way, when the agent's
  program returns it has closed every socket it has opened to listen on and no other, and it has
  left open the one that \<^verbatim>\<open>sctp_peeloff\<close> made for each thread it started: threads only
  \<^verbatim>\<open>shutdown\<close> it.
\<close>

theorem agent_program_leaks_peeled_sockets:
  assumes "sockets_ok sk op" and "peeloff_ok sk op pe"
    and "agent_program sk inet_pton net getopts ads s n = Inr (s', threads, rc)"
  shows "op s' - pe s' = op s - pe s \<and> pe s \<subseteq> pe s' \<and> length threads \<le> card (pe s' - pe s)"
  using agent_program_peels [OF assms] by (simp add: peels_def)

theorem agent_program_leaks_peeled_sockets_witness:
  "\<exists>s threads. agent_program sockets0 (\<lambda>_. Some 0) net0 [(CHR ''p'', ''4711'')]
      [\<lparr>ad_stream = 0, ad_thread = True\<rparr>, \<lparr>ad_stream = 0, ad_thread = True\<rparr>] {7}
      ((\<lambda>_. [])(3 := [enc16 CLARA_MSG_CONSUMER])) = Inr (s, threads, 5) \<and>
    (s - {-1}) - s \<inter> {9} = {7} \<and> length threads \<le> card (s \<inter> {9})"
proof -
  from agent_program_leaks_peeled_sockets [OF sockets0_ok sockets0_peeloff sockets0_run] show ?thesis
    by (intro exI conjI) (rule sockets0_run, auto)
qed

text \<open>
  C7: whatever the options, the agent, the library and the failures on the way, when the provider's
  program returns it has closed every socket it has opened, also over any number of attempts
  to connect.
\<close>

theorem provider_program_leaves_no_socket:
  assumes "sockets_ok sk op"
    and "provider_program sk inet_pton to_addr net lz vd rounds fuel ev errs getopts s n o0 = Inr (s', e)"
  shows "op s' = op s"
  using assms by (rule provider_program_closes)

theorem provider_program_leaves_no_socket_witness:
  "\<exists>s. provider_program sockets0 (\<lambda>_. Some 0) (\<lambda>_. 4) net0 lz0 vd0 1 1 0 [EINTR] [(CHR ''a'', ''10.0.0.1'')] {7}
      ((\<lambda>_. [])(3 := [enc16 CLARA_MSG_NACK])) () = Inr (s, Provider_End (Ended EPERM)) \<and> s - {-1} = {7} - {-1}"
proof -
  have run: "provider_program sockets0 (\<lambda>_. Some 0) (\<lambda>_. 4) net0 lz0 vd0 1 1 0 [EINTR] [(CHR ''a'', ''10.0.0.1'')] {7}
      ((\<lambda>_. [])(3 := [enc16 CLARA_MSG_NACK])) () = Inr ({7}, Provider_End (Ended EPERM))"
    by (rule refused_run)
  from run provider_program_leaves_no_socket [OF sockets0_ok run] show ?thesis by blast
qed

text \<open>
  C8: the list of devices numbers the devices of all platforms up to the first without one, one
  after the other. With the option \<^verbatim>\<open>-d\<close> a provider introduces the device of that number of the
  first platform, and none when the list gives the number to a device of another platform.
\<close>

theorem device_option:
  assumes "vd_platforms vd = Some (p # ps)" and "0 \<notin> set (p # ps)"
    and "\<forall>p ds. vd_devices vd p = Some ds \<longrightarrow> 0 \<notin> set ds"
    and "vd_devices vd p = Some ds" and "ds \<noteq> []"
    and "pr_opts_device pr = int n" and "pr_platform_heap pr platform = Some pf" and "plt_id pf = p" and "platform \<noteq> 0"
  shows "device_numbers (provider_list vd) = List.enumerate 0 (ds @ reached_devices vd ps) \<and>
    startup_platform net vd platform (pr, b) =
      (let pr1 = pr\<lparr>pr_platform_heap := (pr_platform_heap pr)(platform \<mapsto> pf\<lparr>plt_devices := Some set_create\<rparr>)\<rparr>
       in if n < length ds then rbind (startup_device net vd pr1 platform (ds ! n)) (\<lambda>pr2. Inr (False, pr2, True))
          else Inr (False, pr1, True))"
  using device_option_correct [OF assms] by blast

theorem device_option_witness:
  "map_of (device_numbers (provider_list vd2)) 1 = Some 32 \<and>
    startup_platform net0 vd2 9 (prov3, True) = Inr (False, prov3\<lparr>pr_platform_heap :=
      [9 \<mapsto> \<lparr>plt_id = 21, plt_global_id = 0, plt_devices = Some set_create\<rparr>]\<rparr>, True)"
proof -
  have "(0 :: arg) \<notin> set [21, 31]" "[22 :: arg] \<noteq> []" "(9 :: nat) \<noteq> 0" by simp_all
  from device_option [OF vd2_parts(1) this(1) vd2_parts(2,3) this(2) prov3_parts(1-3) this(3), of net0 True]
  show ?thesis by (simp add: vd2_reached prov3_parts)
qed

section \<open>The objects of the agent\<close>

text \<open>
  C9: whatever sequence of registrations, creations (under an identifier drawn now or before),
  retains and releases the program gets through, by whatever consumers and of whatever identifiers,
  the agent's set of objects, the reference counts, the consumers' sets and the identifier pool stay
  consistent; if they do not, they were until an operation that came when a set or the pool had
  no room, drew an identifier in use, retained at the greatest count or released at count zero,
  which the code does not check.
\<close>

theorem object_runs_consistent:
  assumes "object_inv ag" and "object_run net ops ag = Inr (Some ag')"
  shows "object_inv ag' \<or>
    (\<exists>ops1 op ops2 ag1. ops = ops1 @ op # ops2 \<and> object_run net ops1 ag = Inr (Some ag1) \<and> object_inv ag1 \<and>
      overlooked ag1 op)"
  using assms by (rule object_run_inv)

theorem object_runs_consistent_witness:
  "\<exists>ag'. object_run net0 [Create 1 2 9 [0, 7]] ag0 = Inr (Some ag') \<and> object_table ag' 7 \<noteq> None \<and> object_inv ag'"
proof -
  have c: "ag_provider_heap ag0 1 = Some pv0" "pv_attached pv0"
    "ag_consumer_heap ag0 2 = Some (co0 set_create 0)" "(9::arg) \<noteq> 0" "first_nonzero [0, 7] = Some 7"
    "7 \<notin> pool_ids (ag_id_pool ag0)"
    by (simp_all add: ag0_def pv0_def)
  from clCreateObject_correct [OF ag0_inv net0_sends c] obtain ag' where
    ag': "clCreateObject net0 [0, 7] ag0 1 2 9 0 = Inr (Some (ag', 7))" "object_table ag' 7 \<noteq> None" by auto
  have run: "object_run net0 [Create 1 2 9 [0, 7]] ag0 = Inr (Some ag')" using ag'(1) by simp
  have "\<not> overlooked ag0 (Create 1 2 9 [0, 7])"
    using ag0_inv(2) c(6) by (simp add: overlooked_def draws_used_def)
  with object_runs_consistent [OF ag0_inv(1) run] run ag'(2) show ?thesis by (auto simp: Cons_eq_append_conv)
qed

section \<open>The calls of consumers\<close>

text \<open>
  C10: the agent answers \<^verbatim>\<open>clGetDeviceInfo\<close> from its copy of what the provider reported,
  for every parameter but the availability: the number of the reported bytes and the bytes
  stand behind the consumer's pointers that are not null, \<^verbatim>\<open>CL_INVALID_VALUE\<close> is returned when the
  consumer gives less room, and no other byte of the agent's memory and nothing else of its state but
  the positions of traversers has changed.
\<close>

theorem device_query:
  assumes "topo_inv ag" and "consumer_agent ag source = Inr co"
    and "first_device ag (argv args 1) = d" and "d \<noteq> 0"
    and "the_device ag d = reported_device val device_id dv" and "\<forall>i. reported val i"
    and "device_info_of (ucast (argv args 2)) = Some i" and "i \<noteq> DEVICE_AVAILABLE"
    and "answer_room (ag_mem ag) args (length (val i))"
  shows "\<exists>ag'. clara_post_clGetDeviceInfo net lz fuel rs source ag params args =
      Inr (ag', argv0 params (answer_code args (val i)), args) \<and>
    only_memory ag ag' \<and> ag_mem ag' = answered (ag_mem ag) args (val i)"
  using assms by (rule clGetDeviceInfo_correct)

theorem device_query_witness:
  "\<exists>ag'. clara_post_clGetDeviceInfo net0 lz0 5 [] 2 ag3 \<lparr>er_hint = 0, er_fun = 0, er_retval = 0\<rparr>
      [11, 0x102B, 8, 10, 0] =
        Inr (ag', \<lparr>er_hint = 0, er_fun = 0, er_retval = CL_SUCCESS\<rparr>, [11, 0x102B, 8, 10, 0]) \<and>
    mm_blocks (ag_mem ag') = [10 \<mapsto> [65, 0, 0, 0, 0, 0, 0, 0]]"
proof -
  have i: "device_info_of (ucast (argv [11, 0x102B, 8, 10, 0] 2)) = Some DEVICE_NAME"
    by (simp add: argv_def device_info_of_def device_infos_def)
  have n: "info0 DEVICE_NAME = [65, 0]" by (simp add: info0_def)
  have z: "replicate 8 (0 :: byte) = [0, 0, 0, 0, 0, 0, 0, 0]" by (simp add: numeral_eq_Suc)
  have room: "answer_room (ag_mem ag3) [11, 0x102B, 8, 10, 0] (length (info0 DEVICE_NAME))"
    by (simp add: answer_room_def points_to_def ag3_def argv_def ARG2PTR_def n)
  have d: "first_device ag3 (argv [11, 0x102B, 8, 10, 0] 1) = 12" by (simp add: argv_def ag3_first)
  have dv: "\<exists>dv. the_device ag3 12 = reported_device info0 9 dv" by (auto simp: the_device_def ag3_def dv0_def)
  then obtain dv where dv: "the_device ag3 12 = reported_device info0 9 dv" by blast
  have rep: "\<forall>i. reported info0 i" by (simp add: info0_reported)
  from device_query [OF ag3_topo(1,3) d _ dv rep i _ room, of net0 lz0 5 "[]" "\<lparr>er_hint = 0, er_fun = 0, er_retval = 0\<rparr>"]
  obtain ag' where "clara_post_clGetDeviceInfo net0 lz0 5 [] 2 ag3 \<lparr>er_hint = 0, er_fun = 0, er_retval = 0\<rparr>
      [11, 0x102B, 8, 10, 0] = Inr (ag', argv0 \<lparr>er_hint = 0, er_fun = 0, er_retval = 0\<rparr>
        (answer_code [11, 0x102B, 8, 10, 0] (info0 DEVICE_NAME)), [11, 0x102B, 8, 10, 0])"
    "ag_mem ag' = answered (ag_mem ag3) [11, 0x102B, 8, 10, 0] (info0 DEVICE_NAME)" by auto
  moreover have "answered (ag_mem ag3) [11, 0x102B, 8, 10, 0] (info0 DEVICE_NAME) =
      \<lparr>mm_blocks = [10 \<mapsto> [65, 0, 0, 0, 0, 0, 0, 0]], mm_next = 11\<rparr>"
    by (simp add: answered_def stored_def argv_def ARG2PTR_def n ag3_def Let_def z fun_eq_iff)
  moreover have "answer_code [11, 0x102B, 8, 10, 0] (info0 DEVICE_NAME) = CL_SUCCESS"
    by (simp add: answer_code_def argv_def n)
  ultimately show ?thesis by (auto simp: argv0_def)
qed

text \<open>
  C11: what a provider reports of a device is what the agent answers: the message made of the
  vendor's values is taken apart into a copy in which every field but the availability reads
  as it was reported.
\<close>

theorem device_info_arrives:
  assumes "\<forall>i. reported v i" and "ag_device_heap ag p = Some dv" and "p \<noteq> 0" and "i \<noteq> DEVICE_AVAILABLE"
  shows "\<exists>msg dv' bs. device_message (\<lambda>i. Some (v i)) device_id = Inr msg \<and>
    device_init ag p msg = Inr (put_device ag p dv', True) \<and> dv_id dv' = device_id \<and>
    device_param a dv' (device_field i) = Inr (length (v i), Some bs) \<and>
    copy_bytes bs (length (v i)) = Inr (v i)"
proof -
  have "dv_id (reported_device v device_id dv) = device_id" by (simp add: reported_device_def)
  with device_init_message [OF assms(1,2,3), of "\<lambda>i. Some (v i)" device_id]
    reported_device_param [OF assms(1,4), of a device_id dv]
  show ?thesis by blast
qed

theorem device_info_arrives_witness:
  "\<exists>msg dv' bs. device_message (\<lambda>i. Some (info0 i)) 9 = Inr msg \<and>
    device_init ag3 12 msg = Inr (put_device ag3 12 dv', True) \<and>
    device_param 0 dv' (device_field DEVICE_NAME) = Inr (2, Some bs) \<and> copy_bytes bs 2 = Inr [65, 0]"
proof -
  have "ag_device_heap ag3 12 = Some dv0" by (simp add: ag3_def)
  moreover have "\<forall>i. reported info0 i" by (simp add: info0_reported)
  ultimately show ?thesis
    using device_info_arrives [of info0 ag3 12 dv0 DEVICE_NAME 9 0]
    by (simp add: info0_def numeral_2_eq_2) blast
qed

section \<open>Memory in the agent\<close>

text \<open>
  C12: a request for memory in the agent gives the consumer a fresh handle for a block with
  the bytes that came with it, or zeros, and no other handle changes.
\<close>

theorem allocate_memory:
  assumes "alloc_inv ag" and "ag_consumer_heap ag c = Some co" and "co_attached co"
    and "set_room (co_allocations co)" and "set_room (ag_id_pool ag)"
    and "first_nonzero rs = Some h" and "h \<notin> pool_ids (ag_id_pool ag)"
    and "ar_handle areq = 0" and "ar_hint areq = 0"
    and "snd (mem_calloc (ag_mem ag) (ar_nmemb areq) (ar_size areq)) \<noteq> 0"
    and "extra \<noteq> [] \<Longrightarrow> length extra = unat (ar_nmemb areq) * unat (ar_size areq)"
    and "reliable net k" and "lk_ok k (ag_net ag)" and "10 \<le> lk_lim k"
  shows "\<exists>ag'. handle_allocate net rs ag c (enc_allocate_request areq @ extra) from = Inr (Some ag') \<and>
    alloc_inv ag' \<and> pool_ids (ag_id_pool ag') = insert h (pool_ids (ag_id_pool ag)) \<and>
    buffers ag' = (buffers ag)(c := (buffers ag c)(h \<mapsto> initial_bytes areq extra)) \<and>
    adds k (ag_net ag) (ag_net ag') (lk_out k (co_sd co) from) [enc16 CLARA_MSG_ALLOCATE_RESPONSE @ enc64 h]"
  using assms by (rule handle_allocate_correct)

theorem allocate_memory_witness:
  "\<exists>ag'. handle_allocate net0 [7] ag0 2 (enc_allocate_request areq0 @ [1, 2, 3]) 5 = Inr (Some ag') \<and>
    buffers ag' 2 7 = Some [1, 2, 3]"
proof -
  have co: "ag_consumer_heap ag0 2 = Some (co0 set_create 0)" "co_attached (co0 set_create 0)"
    by (simp_all add: ag0_def co0_def)
  from allocate_memory [OF ag0_alloc co, of "[7]" 7 areq0 "[1, 2, 3]" net0 link0 5]
  show ?thesis
    by (auto simp: ag0_def co0_def areq0_def mem_calloc_def mem_init_def initial_bytes_def)
qed

section \<open>The provider\<close>

text \<open>
  C13: whatever message the provider handles, its maps stay filed by their identifiers and every
  allocation keeps a block of its size, which its handle is mapped to. The vendor's library is
  only taken to keep to the memory it is given; memory must suffice for an allocation.
\<close>

theorem provider_message_keeps_inv:
  assumes "pr_inv pr" and "pr_spare pr" and "vendor_ok vd"
    and "provider_main_message net lz vd fuel shutdown_event pr m = Inr (pr', end)"
    and "cm_type m = CLARA_MSG_ALLOCATE_REQUEST \<Longrightarrow>
      snd (mem_calloc (pr_mem pr) (ar_nmemb (dec_allocate_request (cm_bytes m)))
        (ar_size (dec_allocate_request (cm_bytes m)))) \<noteq> 0"
  shows "pr_inv pr'"
  using assms by (rule provider_message_inv)

theorem provider_message_keeps_inv_witness:
  "\<exists>pr'. provider_main_message net0 lz0 vd0 5 1 prov0
      \<lparr>cm_type = CLARA_MSG_MAPPING, cm_bytes = enc64 8 @ enc64 33, cm_from = 4, cm_notification = False\<rparr> =
      Inr (pr', False) \<and> pr_inv pr'"
proof -
  let ?m = "\<lparr>cm_type = CLARA_MSG_MAPPING, cm_bytes = enc64 8 @ enc64 33, cm_from = 4, cm_notification = False\<rparr>"
  from handle_mapping_correct [OF prov0_inv(1) _, of 8 33] prov0_inv(2) obtain pr' where
    "handle_mapping prov0 (enc64 8 @ enc64 33) = Inr pr'" by (auto simp: prov0_ids pr_room_def)
  then have run: "provider_main_message net0 lz0 vd0 5 1 prov0 ?m = Inr (pr', False)"
    by (simp add: provider_main_message_def Let_def message_types)
  have "pr_inv pr'"
    by (rule provider_message_keeps_inv [OF prov0_inv(1,3) vd0_ok run]) (simp add: message_types)
  with run show ?thesis by blast
qed

text \<open>
  C14: a call of a consumer that creates an object, from the agent to the provider and back: the
  provider runs it on its own objects and answers, the agent files the answer under a fresh
  identifier and tells the provider, and then both agree on every object of that provider.
\<close>

theorem create_agreement:
  fixes pr :: "('m, 'o) clara_provider"
  assumes "object_inv ag" and "object_room ag"
    and "reliable net k" and "sends_whole net" and "served k ag v pv out inp"
    and "ag_consumer_heap ag c = Some co" and "co_attached co"
    and "object_table ag (er_hint params) = Some e" and "oe_provider e = v"
    and "creates f" and "er_fun params = of_nat (cl_value f)"
    and "opencl_get_clfuninfo f = Inr fni" and "fi_argc fni \<le> length args"
    and "26 + 8 * length args \<le> lk_lim k"
    and "first_nonzero rs = Some key" and "key \<notin> pool_ids (ag_id_pool ag)"
    and "pr_inv pr" and "pr_room pr" and "vendor_ok vd" and "agrees ag v pr" and "pr_ids pr key = None"
    and "map_of (exec_fun_table_entries vd :: (cl_function_t \<times> ('m, 'o) clara_provider fun_entry) list) f =
      Some (entry H is)"
    and "\<And>j. j < fi_argc fni \<Longrightarrow> args ! j \<noteq> 0 \<Longrightarrow> bit (ARGS is) j \<Longrightarrow> pr_ids pr (args ! j) \<noteq> None"
    and "H pr (params\<lparr>er_retval := 0\<rparr>) (translated (real_of pr) (ARGS is) (fi_argc fni) args) =
      Inr (pr1, params1, args1)"
    and "reliable pnet pk" and "lk_ok pk (pr_net pr)" and "10 \<le> lk_lim pk"
    and "lk_queue k (ag_net ag) inp = (enc16 CLARA_MSG_EXECUTE_RESPONSE @ enc64 (er_retval params1)) # ms"
    and "er_retval params1 \<noteq> 0"
  shows "\<exists>ag' pr2 pr3. agent_execute net lz fuel rs ag (enc_execute_request params @ enc_args args) 0 c =
      Inr (ag', key, True) \<and>
    moves k (ag_net ag) (ag_net ag') inp ms out
      [enc16 CLARA_MSG_EXECUTE_REQUEST @ enc_execute_request params @ enc_args args,
       enc16 CLARA_MSG_MAPPING @ enc64 key @ enc64 (er_retval params1)] \<and>
    pr_handle_execute pnet vd pr (enc_execute_request params @ enc_args args) from = Inr pr2 \<and>
    adds pk (pr_net pr) (pr_net pr2) (lk_out pk (pr_sd pr) from)
      [enc16 CLARA_MSG_EXECUTE_RESPONSE @ enc64 (er_retval params1)] \<and>
    handle_mapping pr2 (enc64 key @ enc64 (er_retval params1)) = Inr pr3 \<and>
    object_inv ag' \<and> pr_inv pr3 \<and> agrees ag' v pr3"
  using assms by (rule create_agreement_correct)

theorem create_agreement_witness:
  "\<exists>ag' pr2 pr3. agent_execute net0 lz0 5 [8] (ag4 1 33)
      (enc_execute_request \<lparr>er_hint = 7, er_fun = of_nat (cl_value CL_CREATEBUFFER), er_retval = 0\<rparr> @
       enc_args [7, 1, 16, 0, 0]) 0 2 = Inr (ag', 8, True) \<and>
    pr_handle_execute net0 vd0 prov0
      (enc_execute_request \<lparr>er_hint = 7, er_fun = of_nat (cl_value CL_CREATEBUFFER), er_retval = 0\<rparr> @
       enc_args [7, 1, 16, 0, 0]) 4 = Inr pr2 \<and>
    handle_mapping pr2 (enc64 8 @ enc64 33) = Inr pr3 \<and> agrees ag' 1 pr3"
proof -
  let ?args = "[7, 1, 16, 0, 0] :: arg list"
  let ?params = "\<lparr>er_hint = 7, er_fun = of_nat (cl_value CL_CREATEBUFFER), er_retval = 0\<rparr>"
  obtain r where r: "opencl_get_clfuninfo CL_CREATEBUFFER = Inr r" "fi_argc r = 5" using create_buffer_row by blast
  have key: "first_nonzero [8] = Some 8" "8 \<notin> pool_ids (ag_id_pool (ag4 1 33))" by (simp_all add: ag4_parts)
  have entry: "map_of (exec_fun_table_entries vd0) CL_CREATEBUFFER = Some (entry (clara_clCreateBuffer vd0) [1, 4, 5])"
    by (simp add: exec_fun_table_entries_def)
  have known: "pr_ids prov0 (?args ! j) \<noteq> None" if "j < fi_argc r" "?args ! j \<noteq> 0" "bit (ARGS [1, 4, 5]) j" for j
  proof -
    from that(1) have "j = 0 \<or> j = 1 \<or> j = 2 \<or> j = 3 \<or> j = 4" by (auto simp: r)
    with that(2,3) show ?thesis by (elim disjE) (simp_all add: prov0_ids ARGS_def bit_simps)
  qed
  obtain xs where run: "clara_clCreateBuffer vd0 prov0 (?params\<lparr>er_retval := 0\<rparr>) xs' = Inr (prov0, ?params\<lparr>er_retval := 33\<rparr>, xs')" for xs'
    by (auto simp: clara_clCreateBuffer_def object_call_def vd0_def argv0_def)
  from create_agreement [OF ag4_inv [of 1 33] _ net0_sends ag4_parts(6,3,4) _ _ _ _ r(1) _ _ key prov0_inv(1,2) vd0_ok
      prov0_agrees _ entry known run, of _ net0 link0 "[]" lz0 5 4]
  show ?thesis by (auto simp: ag4_parts ag1_table creates_def prov0_ids prov0_net r)
qed

text \<open>
  C15: a call at the provider: the handler of the table gets the arguments with the marked
  identifiers replaced by the objects they stand for, and its return value is sent back.
\<close>

theorem provider_runs_call:
  fixes pr :: "('n, 'o) clara_provider"
  assumes "pr_inv pr"
    and "map_of (exec_fun_table_entries vd :: (cl_function_t \<times> ('n, 'o) clara_provider fun_entry) list) f =
      Some (entry H is)"
    and "er_fun params = of_nat (cl_value f)"
    and "opencl_get_clfuninfo f = Inr fni" and "fi_argc fni \<le> length args"
    and "\<And>j. j < fi_argc fni \<Longrightarrow> args ! j \<noteq> 0 \<Longrightarrow> bit (ARGS is) j \<Longrightarrow> pr_ids pr (args ! j) \<noteq> None"
    and "H pr (params\<lparr>er_retval := 0\<rparr>) (translated (real_of pr) (ARGS is) (fi_argc fni) args) =
      Inr (pr1, params1, args1)"
    and "reliable net k" and "lk_ok k (pr_net pr1)" and "10 \<le> lk_lim k"
  shows "\<exists>s. pr_handle_execute net vd pr (enc_execute_request params @ enc_args args) from =
      Inr (pr1\<lparr>pr_net := s\<rparr>) \<and>
    adds k (pr_net pr1) s (lk_out k (pr_sd pr1) from)
      [enc16 CLARA_MSG_EXECUTE_RESPONSE @ enc64 (er_retval params1)]"
  using assms by (rule provider_execute)

theorem provider_runs_call_witness:
  "\<exists>s. pr_handle_execute net0 vd0 prov0
      (enc_execute_request \<lparr>er_hint = 7, er_fun = of_nat (cl_value CL_RETAINCONTEXT), er_retval = 1\<rparr> @ enc_args [7]) 4 =
      Inr (prov0\<lparr>pr_net := s\<rparr>) \<and> s 4 = [enc16 CLARA_MSG_EXECUTE_RESPONSE @ enc64 0]"
proof -
  let ?params = "\<lparr>er_hint = 7, er_fun = of_nat (cl_value CL_RETAINCONTEXT), er_retval = 1\<rparr>"
  obtain r where r: "opencl_get_clfuninfo CL_RETAINCONTEXT = Inr r" "fi_argc r = 1" using row_sizes(2) by auto
  have entry: "map_of (exec_fun_table_entries vd0) CL_RETAINCONTEXT = Some (entry (clara_clRetainContext vd0) [1])"
    by (simp add: exec_fun_table_entries_def)
  have known: "pr_ids prov0 ([7] ! j) \<noteq> None" if "j < fi_argc r" "[7] ! j \<noteq> (0 :: arg)" "bit (ARGS [1]) j" for j
    using that by (simp add: r prov0_ids)
  have run: "clara_clRetainContext vd0 prov0 (?params\<lparr>er_retval := 0\<rparr>) xs = Inr (prov0, ?params\<lparr>er_retval := 0\<rparr>, xs)" for xs
    by (simp add: clara_clRetainContext_def status_call_def vd0_def argv0_def)
  from provider_runs_call [OF prov0_inv(1) entry _ r(1) _ known run, of net0 link0 4] show ?thesis
    by (auto simp: r prov0_net adds_def)
qed

text \<open>
  C16: an object is released for good and the next one of this provider gets its identifier, which
  the agent has taken back: both calls succeed at the agent, but the provider has kept the first
  mapping, so the message that maps the identifier to the new object aborts it.
\<close>

theorem provider_reused_identifier_aborts:
  fixes ag :: "'n agent" and pr :: "('m, 'o) clara_provider"
  assumes "object_inv ag" and "object_room ag"
    and "reliable net k" and "sends_whole net" and "served k ag v pv out inp"
    and "ag_consumer_heap ag c = Some co" and "co_attached co"
    and "object_table ag (argv args 1) = Some e" and "oe_provider e = v" and "oe_refcnt e = 1"
    and "releases f" and "er_fun params = of_nat (cl_value f)" and "er_hint params = argv args 1"
    and "opencl_get_clfuninfo f = Inr fni" and "fi_argc fni \<le> length args" and "26 + 8 * length args \<le> lk_lim k"
    and "object_table ag (er_hint params') = Some e'" and "oe_provider e' = v" and "er_hint params' \<noteq> argv args 1"
    and "creates g" and "er_fun params' = of_nat (cl_value g)"
    and "opencl_get_clfuninfo g = Inr fni'" and "fi_argc fni' \<le> length args'" and "26 + 8 * length args' \<le> lk_lim k"
    and "first_nonzero rs = Some (argv args 1)"
    and "lk_queue k (ag_net ag) inp =
      (enc16 CLARA_MSG_EXECUTE_RESPONSE @ enc64 status) # (enc16 CLARA_MSG_EXECUTE_RESPONSE @ enc64 real) # ms"
    and "real \<noteq> 0"
    and "pr_inv pr" and "pr_room pr" and "vendor_ok vd" and "agrees ag v pr"
    and "pr_handle_execute pnet vd pr (enc_execute_request (argv0 params CL_SUCCESS) @ enc_args args) from = Inr pr1"
    and "pr_handle_execute pnet vd pr1 (enc_execute_request params' @ enc_args args') from = Inr pr2"
  shows "\<exists>ag1 ag2.
    agent_execute net lz fuel rs' ag (enc_execute_request params @ enc_args args) 0 c = Inr (ag1, status, True) \<and>
    object_table ag1 (argv args 1) = None \<and>
    agent_execute net lz fuel rs ag1 (enc_execute_request params' @ enc_args args') 0 c = Inr (ag2, argv args 1, True) \<and>
    moves k (ag_net ag) (ag_net ag2) inp ms out
      [enc16 CLARA_MSG_EXECUTE_REQUEST @ enc_execute_request (argv0 params CL_SUCCESS) @ enc_args args,
       enc16 CLARA_MSG_EXECUTE_REQUEST @ enc_execute_request params' @ enc_args args',
       enc16 CLARA_MSG_MAPPING @ enc64 (argv args 1) @ enc64 real] \<and>
    handle_mapping pr2 (enc64 (argv args 1) @ enc64 real) = Inl Assertion_Failed"
  using assms by (rule reused_identifier_aborts)

theorem provider_reused_identifier_aborts_witness:
  "\<exists>ag1 ag2 pr1 pr2.
    agent_execute net0 lz0 5 [] ag10 (enc_execute_request release7 @ enc_args [7]) 0 2 = Inr (ag1, 0, True) \<and>
    agent_execute net0 lz0 5 [7] ag1 (enc_execute_request buffer3 @ enc_args [3, 1, 16, 0, 0]) 0 2 = Inr (ag2, 7, True) \<and>
    pr_handle_execute net0 vd0 prov10 (enc_execute_request release7 @ enc_args [7]) 4 = Inr pr1 \<and>
    pr_handle_execute net0 vd0 pr1 (enc_execute_request buffer3 @ enc_args [3, 1, 16, 0, 0]) 4 = Inr pr2 \<and>
    handle_mapping pr2 (enc64 7 @ enc64 33) = Inl Assertion_Failed"
proof -
  obtain r q where r: "opencl_get_clfuninfo CL_RELEASEMEMOBJECT = Inr r" "fi_argc r = 1"
    and q: "opencl_get_clfuninfo CL_CREATEBUFFER = Inr q" "fi_argc q = 5" using release_row create_buffer_row by blast
  from prov10_runs obtain pr1 pr2 where
    run: "pr_handle_execute net0 vd0 prov10 (enc_execute_request (argv0 release7 CL_SUCCESS) @ enc_args [7]) 4 = Inr pr1"
      "pr_handle_execute net0 vd0 pr1 (enc_execute_request buffer3 @ enc_args [3, 1, 16, 0, 0]) 4 = Inr pr2"
    by (auto simp: argv0_def CL_SUCCESS_def)
  have b: "object_table ag10 (argv [7] 1) = Some \<lparr>oe_real = 9, oe_provider = 1, oe_consumer = 2, oe_refcnt = 1\<rparr>"
    "object_table ag10 (er_hint buffer3) = Some \<lparr>oe_real = 8, oe_provider = 1, oe_consumer = 2, oe_refcnt = 1\<rparr>"
    by (simp_all add: ag10_table argv_def)
  from provider_reused_identifier_aborts [OF ag10_inv link0_simps(1) net0_sends ag10_parts(3,1,2) b(1) _ _ _ _ _ r(1) _ _
      b(2) _ _ _ _ q(1) _ _ _ ag10_parts(4) _ prov10_inv(1,2) vd0_ok prov10_inv(3) run,
      where lz = lz0 and fuel = 5 and rs = "[7]" and rs' = "[]"] r(2) q(2) run
  show ?thesis
    by (simp add: releases_def creates_def argv_def argv0_def CL_SUCCESS_def) blast
qed

text \<open>
  C17: the agent's request for the object behind a pointer of the consumer: the provider answers
  with the object it finds there, maps the new identifier to it and leaves the identifier in
  its place, so that the consumer never sees the object itself.
\<close>

theorem provider_maps_at_pointer:
  assumes "pr_inv pr" and "pr_room pr"
    and "pr_ids pr h = Some p" and "mm_blocks (pr_mem pr) (ARG2PTR p) = Some bs" and "ARG2PTR p \<noteq> 0"
    and "8 \<le> length bs" and "pr_ids pr virt = None"
    and "reliable net k" and "lk_ok k (pr_net pr)" and "10 \<le> lk_lim k"
  shows "\<exists>pr'. handle_mapatptr net pr (enc_mapatptr_request \<lparr>mr_virt = virt, mr_ptr = h\<rparr>) from = Inr pr' \<and>
    pr_ids pr' = (pr_ids pr)(virt \<mapsto> dec64 bs) \<and> pr_allocations pr' = pr_allocations pr \<and>
    mm_blocks (pr_mem pr') = (mm_blocks (pr_mem pr))(ARG2PTR p \<mapsto> enc64 virt @ drop 8 bs) \<and> pr_inv pr' \<and>
    adds k (pr_net pr) (pr_net pr') (lk_out k (pr_sd pr) from) [enc16 CLARA_MSG_MAPATPTR_RESPONSE @ enc64 (dec64 bs)]"
  using assms by (rule handle_mapatptr_correct)

theorem provider_maps_at_pointer_witness:
  "\<exists>pr'. handle_mapatptr net0 (prov1 (enc64 44)) (enc_mapatptr_request \<lparr>mr_virt = 9, mr_ptr = 8\<rparr>) 4 = Inr pr' \<and>
    pr_ids pr' 9 = Some 44 \<and> mm_blocks (pr_mem pr') 1 = Some (enc64 9)"
proof -
  have "pr_inv (prov1 (enc64 44))" by (rule prov1_inv) simp
  then show ?thesis
    using provider_maps_at_pointer [OF _ prov1_parts(4), of "enc64 44" 8 1 "enc64 44" 9 net0 link0 4]
    by (auto simp: prov1_parts ARG2PTR_def)
qed

section \<open>The consumer's library\<close>

text \<open>
  C18: memory of the application that goes to the agent and is fetched again comes back byte for
  byte: the library's allocation, a step of the agent's thread, the library's fetch, another
  step. In between the agent holds exactly these bytes under the handle; afterwards its handles,
  its identifiers and the network are as before. The request must fit into the agent's buffer.
\<close>

theorem memory_round_trip:
  assumes "works sy k cn" and "joined k cn (co_sd co)" and "client_ready k cn c"
    and "lk_queue k (ct_net c) (lk_inp k (cn_sd cn)) = []" and "lk_queue k (ct_net c) (lk_inp k (co_sd co)) = []"
    and "unat (n * sz) = unat n * unat sz" and "n * sz \<noteq> 0"
    and "32 + unat (n * sz) \<le> AGENT_RECVBUFSZ" and "34 + unat (n * sz) \<le> lk_lim k"
    and "room (ct_mem c) src (unat (n * sz))" and "room (ct_mem c) dst (unat (n * sz))"
    and "bytes = block_at (ct_mem c) src (unat (n * sz))"
    and "alloc_inv ag" and "ag_consumer_heap ag i = Some co" and "co_attached co"
    and "card (dom (buffers ag i)) < 65534" and "card (pool_ids (ag_id_pool ag)) < 65534"
    and "first_nonzero rs = Some h" and "h \<notin> pool_ids (ag_id_pool ag)"
    and "snd (mem_calloc (ag_mem ag) n sz) \<noteq> 0"
    and "streamable sy (n * sz) bytes"
    and "stream_fuel (wire_blocks (sy_lzo sy) (consumer_opts (n * sz)) bytes) fuel"
  shows "\<exists>c1 ag1 c2 c3 ag2 c4.
    consumer_begin_allocate sy n sz src 0 c = Inr (c1, True) \<and>
    consumer_step (sy_net sy) (sy_lzo sy) fuel ev rs (ag\<lparr>ag_net := ct_net c1\<rparr>) i = Inr (Some (ag1, False)) \<and>
    consumer_end_allocate sy (c1\<lparr>ct_net := ag_net ag1\<rparr>) = Inr (c2, h) \<and>
    buffers ag1 = (buffers ag)(i := (buffers ag i)(h \<mapsto> bytes)) \<and>
    consumer_begin_fetch sy h (n * sz) 0 c2 = Inr (c3, True) \<and>
    consumer_step (sy_net sy) (sy_lzo sy) fuel ev rs' (ag1\<lparr>ag_net := ct_net c3\<rparr>) i = Inr (Some (ag2, False)) \<and>
    consumer_end_fetch sy dst (n * sz) (c3\<lparr>ct_net := ag_net ag2\<rparr>) = Inr (c4, True) \<and>
    ct_mem c4 = overwrite (ct_mem c) dst bytes \<and> buffers ag2 = buffers ag \<and>
    pool_ids (ag_id_pool ag2) = pool_ids (ag_id_pool ag) \<and> alloc_inv ag2 \<and>
    lk_queue k (ct_net c4) = lk_queue k (ct_net c)"
  using assms by (rule memory_there_and_back)

theorem memory_round_trip_witness:
  "\<exists>c1 ag1 c3 c4. consumer_begin_allocate sy1 3 1 20 0 (client1 [20 \<mapsto> [1, 2, 3], 21 \<mapsto> [0, 0, 0, 9]] []) = Inr (c1, True) \<and>
    consumer_step net1 lz0 100 1 [7] (ag0\<lparr>ag_net := ct_net c1\<rparr>) 2 = Inr (Some (ag1, False)) \<and>
    buffers ag1 2 7 = Some [1, 2, 3] \<and> consumer_end_fetch sy1 21 3 c3 = Inr (c4, True) \<and>
    mm_blocks (ct_mem c4) 21 = Some [1, 2, 3, 9]"
proof -
  let ?c = "client1 [20 \<mapsto> [1, 2, 3], 21 \<mapsto> [0, 0, 0, 9]] []"
  have u: "unat (3 * 1 :: 64 word) = 3" by simp
  have b: "block_at (ct_mem ?c) 20 (unat (3 * 1 :: 64 word)) = [1, 2, 3]" by (simp add: client1_def block_at_def)
  have co: "ag_consumer_heap ag0 2 = Some (co0 set_create 0)" "co_attached (co0 set_create 0)" "co_sd (co0 set_create 0) = 6"
    by (simp_all add: ag0_def co0_def)
  have d: "dom (buffers ag0 2) = {}" by (auto simp: buffers_def ag0_def co0_def)
  have q: "lk_queue link1 (ct_net ?c) (lk_inp link1 (cn_sd cn1)) = []"
    "lk_queue link1 (ct_net ?c) (lk_inp link1 (co_sd (co0 set_create 0))) = []"
    by (simp_all add: client1_def cn1_def co(3))
  have j: "joined link1 cn1 (co_sd (co0 set_create 0))" using sy1_works(2) by (simp add: co(3))
  have s: "streamable sy1 (3 * 1) [1, 2, 3]"
    "stream_fuel (wire_blocks (sy_lzo sy1) (consumer_opts (3 * 1)) [1, 2, 3]) 100"
    using short_stream [of "[1, 2, 3]"] by (simp_all add: sy1_def)
  have sizes: "unat (3 * 1 :: 64 word) = unat (3 :: 64 word) * unat (1 :: 64 word)" "(3 * 1 :: 64 word) \<noteq> 0"
    "32 + unat (3 * 1 :: 64 word) \<le> AGENT_RECVBUFSZ" "34 + unat (3 * 1 :: 64 word) \<le> lk_lim link1"
    "room (ct_mem ?c) 20 (unat (3 * 1 :: 64 word))" "room (ct_mem ?c) 21 (unat (3 * 1 :: 64 word))"
    by (simp_all add: AGENT_RECVBUFSZ_def client1_def room_def)
  have agent: "card (dom (buffers ag0 2)) < 65534" "card (pool_ids (ag_id_pool ag0)) < 65534"
    "first_nonzero [7] = Some 7" "7 \<notin> pool_ids (ag_id_pool ag0)" "snd (mem_calloc (ag_mem ag0) 3 1) \<noteq> 0"
    by (simp_all only: d) (simp_all add: ag0_def mem_calloc_def mem_init_def)
  from memory_round_trip [OF sy1_works(1) j client1_ready q sizes b [symmetric] ag0_alloc co(1,2) agent s, of 1 "[]"]
  obtain c1 ag1 c3 c4 where "consumer_begin_allocate sy1 3 1 20 0 ?c = Inr (c1, True)"
    "consumer_step (sy_net sy1) (sy_lzo sy1) 100 1 [7] (ag0\<lparr>ag_net := ct_net c1\<rparr>) 2 = Inr (Some (ag1, False))"
    "buffers ag1 = (buffers ag0)(2 := (buffers ag0 2)(7 \<mapsto> [1, 2, 3]))"
    "consumer_end_fetch sy1 21 (3 * 1) c3 = Inr (c4, True)" "ct_mem c4 = overwrite (ct_mem ?c) 21 [1, 2, 3]"
    by blast
  then show ?thesis
    by (intro exI [of _ c1] exI [of _ ag1] exI [of _ c3] exI [of _ c4]) (simp add: sy1_def overwrite_def client1_def)
qed

text \<open>
  C19: an allocation with more data than the agent's receive buffer holds ends the thread that
  serves the consumer, with nothing answered.
\<close>

theorem large_allocation_disconnects:
  assumes "works sy k cn" and "truncates (sy_net sy) k" and "joined k cn (co_sd co)"
    and "client_ready k cn c" and "lk_queue k (ct_net c) (lk_inp k (co_sd co)) = []"
    and "AGENT_RECVBUFSZ < 32 + unat (n * sz)" and "34 + unat (n * sz) \<le> lk_lim k"
    and "room (ct_mem c) src (unat (n * sz))"
    and "0 < i" and "ag_consumer_heap ag i = Some co"
  shows "\<exists>c1 s. consumer_begin_allocate sy n sz src hint c = Inr (c1, True) \<and>
    consumer_step (sy_net sy) lz fuel ev rs (ag\<lparr>ag_net := ct_net c1\<rparr>) i = Inr (Some (ag\<lparr>ag_net := s\<rparr>, True))"
  using assms by (rule allocation_too_long)

theorem large_allocation_disconnects_witness:
  "\<exists>c1 s. consumer_begin_allocate sy1 10209 1 20 0 (client1 [20 \<mapsto> replicate 10209 0] []) = Inr (c1, True) \<and>
    consumer_step net1 lz0 100 1 [7] (ag0\<lparr>ag_net := ct_net c1\<rparr>) 2 = Inr (Some (ag0\<lparr>ag_net := s\<rparr>, True))"
proof -
  let ?c = "client1 [20 \<mapsto> replicate 10209 0] []"
  have co: "ag_consumer_heap ag0 2 = Some (co0 set_create 0)" "co_sd (co0 set_create 0) = 6"
    by (simp_all add: ag0_def co0_def)
  have u: "unat (10209 * 1 :: 64 word) = 10209" by simp
  have "works sy1 link1 cn1" "truncates (sy_net sy1) link1" "joined link1 cn1 (co_sd (co0 set_create 0))"
    using sy1_works by (simp_all add: co(2)) (simp add: sy1_def)
  moreover have "lk_queue link1 (ct_net ?c) (lk_inp link1 (co_sd (co0 set_create 0))) = []"
    by (simp add: co(2) client1_def)
  moreover have "room (ct_mem ?c) 20 (unat (10209 * 1 :: 64 word))" by (simp add: client1_def room_def)
  ultimately show ?thesis
    using large_allocation_disconnects [OF _ _ _ client1_ready _ _ _ _ _ co(1), of sy1 "[20 \<mapsto> replicate 10209 0]" "[]"
        10209 1 20 0 lz0 100 1 "[7]"]
    by (simp add: u AGENT_RECVBUFSZ_def) (simp add: sy1_def)
qed

text \<open>
  C20: when the agent's address or port cannot be used, the first call fails but leaves the library
  in the state of a connected one: the next call sends its request on descriptor 0, to the host that
  \<^verbatim>\<open>AGENT_ADDR\<close> names if only the port is bad.
\<close>

theorem failed_connection_goes_on:
  assumes "ct_consumer c = None" and "clara_sockaddr (sy_inet_pton sy) (sy_agent_addr sy) (Some (agent_port sy)) = None"
  shows "\<exists>c'. consumer_begin_allocate sy n sz 0 hint c = Inr (c', False) \<and> ct_net c' = ct_net c \<and>
    (\<forall>n sz hint. consumer_begin_allocate sy n sz 0 hint c' =
      on_net (\<lambda>s. clara_send_allocate_request (sy_net sy) s 0 n sz None hint
        (sy_sin_addr sy (clara_sockaddr_left (sy_inet_pton sy) (sy_agent_addr sy) (Some (agent_port sy))))) c')"
  using assms by (rule failed_connection)

theorem failed_connection_goes_on_witness:
  "\<exists>c'. consumer_begin_allocate (sy1\<lparr>sy_inet_pton := \<lambda>_. Some 7, sy_agent_addr := Some ''10.0.0.1'', sy_agent_port := Some ''x''\<rparr>)
      1 8 0 0 ((client1 Map.empty [])\<lparr>ct_consumer := None\<rparr>) = Inr (c', False) \<and>
    consumer_begin_allocate (sy1\<lparr>sy_inet_pton := \<lambda>_. Some 7, sy_agent_addr := Some ''10.0.0.1'', sy_agent_port := Some ''x''\<rparr>)
      1 4 0 0 c' = on_net (\<lambda>s. clara_send_allocate_request net1 s 0 1 4 None 0 7) c'"
  using failed_connection_goes_on [of "(client1 Map.empty [])\<lparr>ct_consumer := None\<rparr>"
      "sy1\<lparr>sy_inet_pton := \<lambda>_. Some 7, sy_agent_addr := Some ''10.0.0.1'', sy_agent_port := Some ''x''\<rparr>" 1 8 0]
  by (auto simp: sy1_def agent_port_def clara_sockaddr_def clara_sockaddr_left_def strtol10_def is_space_def is_digit_def)

text \<open>
  C21: \<^verbatim>\<open>clEnqueueReadBuffer\<close> sends exactly the allocations for its pointers, the call with their
  handles, the fetches and the release of the wait list; the fetched data and event stand behind
  the application's pointers, and the provider's status is returned.
\<close>

theorem read_buffer:
  assumes "works sy k cn" and "q \<noteq> 0" and "h \<noteq> 0" and "hl \<noteq> 0" and "he \<noteq> 0"
    and "opt_room m ptr (unat cb)" and "streamable sy cb data"
    and "opt_room m wait (unat (ucast n * 8 :: 64 word))" and "34 + unat (ucast n * 8 :: 64 word) \<le> lk_lim k"
    and "opt_room m event 8" and "streamable sy 8 evd"
  shows "talks k cn (clEnqueueReadBuffer sy q buffer blocking off cb ptr n wait event) m
    (opt ptr [alloc_resp h] @ opt wait [alloc_resp hl] @ opt event [alloc_resp he] @ [exec_resp rv] @
     opt ptr (fetch_resp sy cb len data) @ opt event (fetch_resp sy 8 len' evd))
    (opt ptr [alloc_req 1 cb q []] @
     opt wait [alloc_req 1 (ucast n * 8) q (block_at m wait (unat (ucast n * 8 :: 64 word)))] @
     opt event [alloc_req 1 8 q []] @
     [exec_req CL_ENQUEUEREADBUFFER q [q, buffer, ucast blocking, off, cb, handle_of ptr h, ucast n,
        handle_of wait hl, handle_of event he]] @
     opt ptr [fetch_req h cb q] @ opt wait [fetch_req hl 0 q] @ opt event [fetch_req he 8 q])
    (put_bytes (put_bytes m ptr data) event evd) (ucast rv)"
  using assms by (rule clEnqueueReadBuffer_correct)

theorem read_buffer_witness:
  "\<exists>c'. clEnqueueReadBuffer sy1 30 31 1 0 3 20 0 0 0 (client1 [20 \<mapsto> [0, 0, 0, 9]]
      ([alloc_resp 7, exec_resp 0] @ fetch_resp sy1 3 3 [1, 2, 3])) = Inr (c', 0) \<and>
    mm_blocks (ct_mem c') 20 = Some [1, 2, 3, 9]"
proof -
  have s: "streamable sy1 3 [1, 2, 3]" using short_stream(2) [of "[1, 2, 3]"] by simp
  have s8: "streamable sy1 8 (replicate 8 0)" using short_stream(2) [of "replicate 8 0"] by simp
  let ?m = "\<lparr>mm_blocks = [20 \<mapsto> [0, 0, 0, 9]], mm_next = 100\<rparr>"
  have r: "opt_room ?m 20 (unat (3 :: 64 word))" by (simp add: opt_room_def room_def)
  from talks_client1 [OF read_buffer [OF sy1_works(1) _ _ _ _ r s _ _ _ s8, of 30 7 1 1 0 0 0 31 1 0 0 3 3, simplified]]
  show ?thesis by (fastforce simp: opt_room_def overwrite_def)
qed

text \<open>
  C22: \<^verbatim>\<open>clEnqueueWriteBuffer\<close> streams exactly the application's bytes into memory allocated for them
  before the call is run, and releases that memory afterwards.
\<close>

theorem write_buffer:
  assumes "works sy k cn" and "q \<noteq> 0" and "h \<noteq> 0" and "hl \<noteq> 0" and "he \<noteq> 0"
    and "ptr \<noteq> 0" and "room m ptr (unat cb)" and "streamable sy cb (block_at m ptr (unat cb))"
    and "opt_room m wait (unat (ucast n * 8 :: 64 word))" and "34 + unat (ucast n * 8 :: 64 word) \<le> lk_lim k"
    and "opt_room m event 8" and "streamable sy 8 evd"
  shows "talks k cn (clEnqueueWriteBuffer sy q buffer blocking off cb ptr n wait event) m
    (opt ptr [alloc_resp h] @ opt wait [alloc_resp hl] @ opt event [alloc_resp he] @ [exec_resp rv] @
     opt event (fetch_resp sy 8 len evd))
    (opt ptr [alloc_req 1 cb q []] @
     (memput_msg (handle_of ptr h) cb q # data_stream sy cb (block_at m ptr (unat cb))) @
     opt wait [alloc_req 1 (ucast n * 8) q (block_at m wait (unat (ucast n * 8 :: 64 word)))] @
     opt event [alloc_req 1 8 q []] @
     [exec_req CL_ENQUEUEWRITEBUFFER q [q, buffer, ucast blocking, off, cb, handle_of ptr h, ucast n,
        handle_of wait hl, handle_of event he]] @
     opt ptr [fetch_req h 0 q] @ opt wait [fetch_req hl 0 q] @ opt event [fetch_req he 8 q])
    (put_bytes m event evd) (ucast rv)"
  using assms by (rule clEnqueueWriteBuffer_correct)

theorem write_buffer_witness:
  "\<exists>c'. clEnqueueWriteBuffer sy1 30 31 1 0 3 20 0 0 0 (client1 [20 \<mapsto> [1, 2, 3]] [alloc_resp 7, exec_resp 0]) =
      Inr (c', 0) \<and>
    ct_net c' 6 = [alloc_req 1 3 30 [], memput_msg 7 3 30] @ data_stream sy1 3 [1, 2, 3] @
      [exec_req CL_ENQUEUEWRITEBUFFER 30 [30, 31, 1, 0, 3, 7, 0, 0, 0], fetch_req 7 0 30]"
proof -
  let ?m = "\<lparr>mm_blocks = [20 \<mapsto> [1, 2, 3]], mm_next = 100\<rparr>"
  have s: "streamable sy1 3 (block_at ?m 20 (unat (3 :: 64 word)))"
    using short_stream(2) [of "[1, 2, 3]"] by (simp add: block_at_def)
  have s8: "streamable sy1 8 (replicate 8 0)" using short_stream(2) [of "replicate 8 0"] by simp
  have r: "room ?m 20 (unat (3 :: 64 word))" by (simp add: room_def)
  from talks_client1 [OF write_buffer [OF sy1_works(1) _ _ _ _ _ r s _ _ _ s8, of 30 7 1 1 0 0 0 31 1 0 0 3, simplified]]
  show ?thesis by (fastforce simp: opt_room_def block_at_def)
qed

text \<open>
  C23: \<^verbatim>\<open>clCreateContext\<close> hints with the platform of its properties, sends the properties up to
  their zero and the devices, and returns the new context and the error code.
\<close>

theorem create_context:
  assumes "works sy k cn" and "devices \<noteq> 0" and "n \<noteq> 0" and "pfn_notify \<noteq> 0 \<or> user_data = 0"
    and "room m properties (unat (psz + 8))" and "scanned m properties = Inr (Some (pid, psz))"
    and "pid \<noteq> 0" and "34 + unat (psz + 8) \<le> lk_lim k"
    and "room m devices (unat (ucast n * 8 :: 64 word))" and "34 + unat (ucast n * 8 :: 64 word) \<le> lk_lim k"
    and "hp \<noteq> 0" and "hv \<noteq> 0" and "he \<noteq> 0" and "opt_room m errcode_ret 4" and "streamable sy 4 err"
  shows "talks k cn (clCreateContext sy properties n devices pfn_notify user_data errcode_ret) m
    ([alloc_resp hp] @ [alloc_resp hv] @ [alloc_resp he] @ [exec_resp ctx] @
     opt errcode_ret (fetch_resp sy 4 len err))
    ([alloc_req 1 (psz + 8) pid (block_at m properties (unat (psz + 8)))] @
     [alloc_req (ucast n) 8 pid (block_at m devices (unat (ucast n * 8 :: 64 word)))] @
     [alloc_req 1 4 pid []] @ [exec_req CL_CREATECONTEXT pid [hp, ucast n, hv, 0, 0, he]] @
     [fetch_req he (if errcode_ret = 0 then 0 else 4) pid] @ [fetch_req hv 0 pid] @ [fetch_req hp 0 pid])
    (put_bytes m errcode_ret err) ctx"
  using assms by (rule clCreateContext_correct)

theorem create_context_witness:
  "\<exists>c'. clCreateContext sy1 20 1 21 0 0 0
      (client1 [20 \<mapsto> enc_args [CL_CONTEXT_PLATFORM, 8, 0], 21 \<mapsto> enc_args [11]]
        [alloc_resp 1, alloc_resp 2, alloc_resp 3, exec_resp 40]) = Inr (c', 40) \<and>
    ct_net c' 6 = [alloc_req 1 24 8 (enc_args [CL_CONTEXT_PLATFORM, 8, 0]), alloc_req 1 8 8 (enc_args [11]),
      alloc_req 1 4 8 [], exec_req CL_CREATECONTEXT 8 [1, 1, 2, 0, 0, 3], fetch_req 3 0 8, fetch_req 2 0 8,
      fetch_req 1 0 8]"
proof -
  let ?m = "\<lparr>mm_blocks = [20 \<mapsto> enc_args [CL_CONTEXT_PLATFORM, 8, 0], 21 \<mapsto> enc_args [11]], mm_next = 100\<rparr>"
  have s4: "streamable sy1 4 [0, 0, 0, 0]" using short_stream(2) [of "[0, 0, 0, 0]"] by simp
  have "words_of (enc_args [CL_CONTEXT_PLATFORM, 8, 0]) = [CL_CONTEXT_PLATFORM, 8, 0]"
    using dec_args_enc [of "[CL_CONTEXT_PLATFORM, 8, 0]" "[]"] by (simp add: words_of_def numeral_3_eq_3)
  then have p: "scanned ?m 20 = Inr (Some (8, 16))"
    by (simp add: scanned_def CL_CONTEXT_PLATFORM_def)
  have b: "block_at ?m 20 (unat (16 + 8 :: 64 word)) = enc_args [CL_CONTEXT_PLATFORM, 8, 0]"
    "block_at ?m 21 (unat (ucast (1 :: u32) * 8 :: 64 word)) = enc_args [11]"
    by (simp_all add: block_at_def)
  have r: "room ?m 20 (unat (16 + 8 :: 64 word))" "room ?m 21 (unat (ucast (1 :: u32) * 8 :: 64 word))" "opt_room ?m 0 4"
    by (simp_all add: room_def opt_room_def)
  from talks_client1 [OF create_context [OF sy1_works(1) _ _ _ r(1) p _ _ r(2) _ _ _ _ r(3) s4,
        of 0 0 1 2 3 40 4, unfolded b, simplified]]
  show ?thesis by fastforce
qed

text \<open>
  C24: \<^verbatim>\<open>clCreateProgramWithSource\<close> sends every source string, with its given length or with its
  zero, then the array of their handles, runs the call and releases everything; the array in the
  library's own memory stays.
\<close>

theorem create_program_with_source:
  assumes "works sy k cn" and "context \<noteq> 0" and "mem_wf m"
    and "mem_calloc m (ucast cnt) 8 = (m1, h_string)" and "h_string \<noteq> 0"
    and "\<forall>i<unat cnt. source_ok (lk_lim k) m strings lengths i" and "strings \<noteq> h_string"
    and "length handles = unat cnt" and "0 \<notin> set handles" and "hS \<noteq> 0" and "hl \<noteq> 0" and "he \<noteq> 0"
    and "opt_room m lengths (8 * unat cnt)" and "34 + 8 * unat cnt \<le> lk_lim k"
    and "opt_room m errcode_ret 4" and "streamable sy 4 err"
  shows "talks k cn (clCreateProgramWithSource sy context cnt strings lengths errcode_ret) m
    (map alloc_resp handles @ [alloc_resp hS] @ opt lengths [alloc_resp hl] @ opt errcode_ret [alloc_resp he] @
     [exec_resp program] @ opt errcode_ret (fetch_resp sy 4 len err))
    (map (source_req m strings lengths context) [0..<unat cnt] @
     [alloc_req (ucast cnt) 8 context (enc_args handles)] @
     opt lengths [alloc_req 1 (ucast cnt * 8) context (block_at m lengths (8 * unat cnt))] @
     opt errcode_ret [alloc_req 1 4 context []] @
     [exec_req CL_CREATEPROGRAMWITHSOURCE context
        [context, ucast cnt, hS, handle_of lengths hl, handle_of errcode_ret he]] @
     opt errcode_ret [fetch_req he 4 context] @ opt lengths [fetch_req hl 0 context] @
     map (\<lambda>h. fetch_req h 0 context) handles @ [fetch_req hS 0 context])
    (put_bytes (set_block m1 h_string (enc_args handles)) errcode_ret err) program"
  using assms by (rule clCreateProgramWithSource_correct)

theorem create_program_with_source_witness:
  "\<exists>c'. clCreateProgramWithSource sy1 30 1 20 0 0 (client1 [20 \<mapsto> enc64 21, 21 \<mapsto> [65, 66, 0, 67]]
      [alloc_resp 1, alloc_resp 2, exec_resp 50]) = Inr (c', 50) \<and>
    ct_net c' 6 = [alloc_req 3 1 30 [65, 66, 0], alloc_req 1 8 30 (enc_args [1]),
      exec_req CL_CREATEPROGRAMWITHSOURCE 30 [30, 1, 2, 0, 0], fetch_req 1 0 30, fetch_req 2 0 30]"
proof -
  let ?m = "\<lparr>mm_blocks = [20 \<mapsto> enc64 21, 21 \<mapsto> [65, 66, 0, 67]], mm_next = 100\<rparr>"
  let ?m1 = "\<lparr>mm_blocks = [20 \<mapsto> enc64 21, 21 \<mapsto> [65, 66, 0, 67], 100 \<mapsto> replicate 8 0], mm_next = 101\<rparr>"
  have s4: "streamable sy1 4 [0, 0, 0, 0]" using short_stream(2) [of "[0, 0, 0, 0]"] by simp
  have wf: "mem_wf ?m" by (auto simp: mem_wf_def split: if_splits)
  have calloc: "mem_calloc ?m (ucast (1 :: u32)) 8 = (?m1, 100)" by (simp add: mem_calloc_def)
  have ptr: "source_ptr ?m 20 0 = 21" by (simp add: source_ptr_def word_at_def ARG2PTR_def)
  then have len: "source_len ?m 20 0 0 = 3" by (simp add: source_len_def given_length_def)
  have ok: "\<forall>i<unat (1 :: u32). source_ok (lk_lim link1) ?m 20 0 i"
    by (simp add: source_ok_def len ptr given_length_def room_def opt_room_def)
  have req: "source_req ?m 20 0 30 0 = alloc_req 3 1 30 [65, 66, 0]"
    by (simp add: source_req_def source_text_def len ptr block_at_def)
  have r: "opt_room ?m 0 (8 * unat (1 :: u32))" "opt_room ?m 0 4" by (simp_all add: opt_room_def)
  from talks_client1 [OF create_program_with_source [OF sy1_works(1) _ wf calloc _ ok _ _ _ _ _ _ r(1) _ r(2) s4,
        of 30 "[1]" 2 1 1 50 4, simplified]] req
  show ?thesis by fastforce
qed

section \<open>Tables and buffers\<close>

text \<open>
  C25: the provider's table of handlers fits the prototypes of OpenCL: in a call with as many
  arguments as the function's prototype has, the handler gets exactly the arguments that are objects
  or pointers by the prototype translated, and the others as they are (the callback of
  \<^verbatim>\<open>clBuildProgram\<close> and its data aside).
\<close>

theorem provider_fits_prototypes:
  fixes pr :: "('n, 'o) clara_provider"
  assumes "pr_inv pr"
    and "map_of (exec_fun_table_entries vd :: (cl_function_t \<times> ('n, 'o) clara_provider fun_entry) list) f = Some e"
    and "fe_pfn e = Some H" and "er_fun params = of_nat (cl_value f)" and "length args = length (cl_params f)"
    and "\<And>j. by_identifier f j \<Longrightarrow> args ! j \<noteq> 0 \<Longrightarrow> pr_ids pr (args ! j) \<noteq> None"
    and "H pr (params\<lparr>er_retval := 0\<rparr>) (by_prototype (real_of pr) f args) = Inr (pr1, params1, args1)"
    and "reliable net k" and "lk_ok k (pr_net pr1)" and "10 \<le> lk_lim k"
  shows "\<exists>s. pr_handle_execute net vd pr (enc_execute_request params @ enc_args args) from =
      Inr (pr1\<lparr>pr_net := s\<rparr>) \<and>
    adds k (pr_net pr1) s (lk_out k (pr_sd pr1) from)
      [enc16 CLARA_MSG_EXECUTE_RESPONSE @ enc64 (er_retval params1)]"
  using assms by (rule provider_execute_prototype)

theorem provider_fits_prototypes_witness:
  "\<exists>s. pr_handle_execute net0 vd0 prov10 (enc_execute_request buffer3 @ enc_args [3, 1, 16, 0, 0]) 4 =
      Inr (prov10\<lparr>pr_net := s\<rparr>) \<and>
    by_prototype (real_of prov10) CL_CREATEBUFFER [3, 1, 16, 0, 0] = [8, 1, 16, 0, 0] \<and>
    s 4 = [enc16 CLARA_MSG_EXECUTE_RESPONSE @ enc64 33]"
proof -
  let ?a = "[3, 1, 16, 0, 0] :: arg list"
  have ps: "cl_params CL_CREATEBUFFER = [Obj, Num, Num, Ptr, Ptr]" by (simp add: cl_params_def cl_prototypes_def)
  have e: "map_of (exec_fun_table_entries vd0) CL_CREATEBUFFER = Some (entry (clara_clCreateBuffer vd0) [1, 4, 5])"
    "fe_pfn (entry (clara_clCreateBuffer vd0) [1, 4, 5]) = Some (clara_clCreateBuffer vd0)"
    by (simp_all add: exec_fun_table_entries_def entry_def)
  have five: "j < 5 \<longleftrightarrow> j = 0 \<or> j = 1 \<or> j = 2 \<or> j = 3 \<or> j = 4" for j :: nat by auto
  have known: "pr_ids prov10 (?a ! j) \<noteq> None" if "by_identifier CL_CREATEBUFFER j" "?a ! j \<noteq> 0" for j
  proof -
    from that(1) have "j < 5" by (simp add: by_identifier_def ps)
    with that show ?thesis unfolding five by (elim disjE) (simp_all add: by_identifier_def ps prov10_ids)
  qed
  have run: "clara_clCreateBuffer vd0 prov10 (buffer3\<lparr>er_retval := 0\<rparr>) xs = Inr (prov10, buffer3\<lparr>er_retval := 33\<rparr>, xs)" for xs
    by (simp add: clara_clCreateBuffer_def object_call_def vd0_def argv0_def)
  have t: "by_prototype (real_of prov10) CL_CREATEBUFFER ?a = [8, 1, 16, 0, 0]"
    by (simp add: by_prototype_def by_identifier_def ps real_of_def prov10_ids upt_rec)
  have n: "pr_net prov10 = (\<lambda>_. [])" by (simp add: prov10_def provider_init_def)
  from provider_fits_prototypes [OF prov10_inv(1) e _ _ known run, of net0 link0 4] show ?thesis
    by (auto simp: ps t n adds_def)
qed



section \<open>The keyed set\<close>

text \<open>
  C27: inserting a new key succeeds, keeps the set well-formed within its capacity and puts
  the entry between the smaller and the greater keys.
\<close>

theorem set_insert_sorted:
  assumes "set_wf s" and "set_room s" and "k \<notin> dom (set_map s)"
  shows "\<exists>s'. set_insert s k v = Inr (s', True) \<and> set_wf s' \<and> cs_depth s' = cs_depth s \<and>
    set_entries s' =
      filter (\<lambda>e. fst e < k) (set_entries s) @ (k, v) # filter (\<lambda>e. k < fst e) (set_entries s)"
  using assms by (rule set_insert_new)

theorem set_insert_sorted_witness:
  "\<exists>s'. set_insert (sing 9 (4::nat)) 5 2 = Inr (s', True) \<and> set_entries s' = [(5, 2), (9, 4)]"
  using set_insert_sorted [of "sing 9 (4::nat)" 5 2] by auto

text \<open>C28: removing a key takes out exactly its entry and tells whether there was one.\<close>

theorem set_remove_exact:
  assumes "set_wf s" and "set_room s"
  shows "\<exists>s'. set_remove s k = Inr (s', k \<in> dom (set_map s)) \<and> set_wf s' \<and>
    cs_depth s' = cs_depth s \<and> set_map s' = (set_map s)(k := None)"
  using assms by (rule set_remove_map)

theorem set_remove_exact_witness:
  "\<exists>s'. set_remove (sing 9 (4::nat)) 9 = Inr (s', True) \<and> set_map s' = Map.empty"
  using set_remove_exact [of "sing 9 (4::nat)" 9] by auto

text \<open>
  C29: a traversal from \<^verbatim>\<open>set_start\<close> to \<^verbatim>\<open>set_finish\<close> runs its body on the elements in the
  order of their keys until the body breaks off, and leaves contents and lock as they were.
\<close>

theorem set_traversal_in_order:
  assumes "set_wf s" and "set_room s"
  shows "\<exists>tr. set_foreach body s b =
      rbind (list_loop body (set_elems s) b) (\<lambda>b'. Inr (s\<lparr>cs_trav := tr\<rparr>, b')) \<and>
    sorted_wrt (<) (map fst (set_entries s)) \<and> set_elems s = map snd (set_entries s)"
  using set_foreach_correct [OF assms, of body b] set_entries_sorted [OF assms(1)]
  by (simp add: set_elems_def)

theorem set_traversal_in_order_witness:
  "\<exists>tr. set_foreach (\<lambda>x n. Inr (False, n + x)) (sing 9 (4::nat)) 3 = Inr (sing 9 4\<lparr>cs_trav := tr\<rparr>, 7)"
  using set_traversal_in_order [of "sing 9 (4::nat)" "\<lambda>x n. Inr (False, n + x)" 3] by auto

text \<open>
  C30: inserting a key that is present destroys the set: the item in the tree is freed, and
  the tree is left with a pointer to it.
\<close>

theorem set_insert_duplicate_corrupts:
  assumes "set_wf s" and "set_room s" and "set_map s k = Some d"
  shows "\<exists>s' a. set_insert s k v = Inr (s', False) \<and> \<not> set_wf s' \<and>
    On_Heap a \<in> set (set_refs s') \<and> cs_heap s' a = None"
proof -
  from set_insert_old [OF assms, of v] obtain s' a where
    ins: "set_insert s k v = Inr (s', False)" and a: "On_Heap a \<in> set (set_refs s')" "cs_heap s' a = None"
    by (auto simp: set_refs_def)
  then have "\<not> set_wf s'" using set_wfD(2) [of s'] by (auto simp: domIff)
  with ins a show ?thesis by blast
qed

theorem set_insert_duplicate_corrupts_witness:
  "\<exists>s'. set_insert (sing 9 (1::nat)) 9 2 = Inr (s', False) \<and> set_find s' 9 = Inl Use_After_Free"
proof -
  from set_insert_duplicate_corrupts [of "sing 9 (1::nat)" 9 1 2] obtain s' where
    "set_insert (sing 9 (1::nat)) 9 2 = Inr (s', False)" by auto
  moreover from this have "set_find s' 9 = Inl Use_After_Free"
    by (auto simp: sing_def set_insert_def set_lock_def set_unlock_def rb_insert_def rb_probe_def
        comparison_func_def RB_MAX_HEIGHT_def set_find_def rb_find_def)
  ultimately show ?thesis by blast
qed

section \<open>The lock\<close>

text \<open>C31: two threads never hold the lock at the same time.\<close>

theorem lock_mutual_exclusion:
  assumes "sys_reach s" and "sys_depth s t > 0" and "sys_depth s u > 0"
  shows "t = u"
  using assms by (rule lock_exclusive)

theorem lock_mutual_exclusion_witness: "{t. sys_depth sys1 t > 0} = {1}"
proof -
  have one: "sys_depth sys1 1 > 0" by (simp add: sys1_def)
  with lock_mutual_exclusion [OF sys1_reach _ one] show ?thesis by blast
qed

text \<open>C32: every step of the code is a step of the abstract recursive lock or invisible to it.\<close>

theorem lock_refines_spec:
  assumes "sys_reach s" and "sys_step s t s'" and "lock_abs s a"
  shows "lock_abs s' a \<or> (\<exists>a'. spec_step a t a' \<and> lock_abs s' a')"
  using assms by (rule lock_refines)

theorem lock_refines_spec_witness:
  "\<exists>a'. spec_step None 1 a' \<and> lock_abs sys1 a'"
proof -
  have run: "sys_step (sys_at W_inc 0 1) 1 sys1"
    by (rule step_run) (simp_all add: sys_at_def sys1_def fun_eq_iff)
  have none: "lock_abs (sys_at W_inc 0 1) None" "\<not> lock_abs sys1 None"
    by (simp_all add: lock_abs_def sys_at_def sys1_def)
  from lock_refines_spec [OF sys_at_reach run none(1)] none(2) show ?thesis by blast
qed

text \<open>
  C33: a thread that waits for the semaphore does not hold the lock, and waits for another
  thread, which is in its critical section or has a step to make.
\<close>

theorem lock_no_self_deadlock:
  assumes "sys_reach s" and "sys_pc s t = W_sem" and "lk_sem (sys_lock s) = 0"
  shows "sys_depth s t = 0 \<and> (\<exists>u. u \<noteq> t \<and> crit s u \<and>
    (sys_pc s u = Idle \<and> sys_depth s u > 0 \<or>
     (\<exists>l pc. lock_stmt u (sys_pc s u) (sys_lock s) = Next l pc)))"
  using assms by (rule lock_wait_blocked)

theorem lock_no_self_deadlock_witness:
  "\<exists>s. sys_reach s \<and> sys_pc s 2 = W_sem \<and> sys_depth s 2 = 0 \<and> (\<exists>u. u \<noteq> 2 \<and> crit s u)"
proof -
  obtain s where s: "sys_reach s" "sys_pc s 2 = W_sem" "lk_sem (sys_lock s) = 0"
    using waiting_reach by blast
  from lock_no_self_deadlock [OF s] s show ?thesis by blast
qed

section \<open>Transfers\<close>

text \<open>
  C34: a buffer sent as a stream, forwarded by the agent and received by the peer arrives as
  it was, raw or compressed, and no message is left over on either connection.
\<close>

theorem stream_relay:
  assumes "reliable net k" and "lk_ok k s" and "BLOCKSIZE \<le> lk_lim k"
    and "lzo_ok lz" and "opts_ok (opts_of opts)"
    and "stream_fuel (wire_blocks lz (opts_of opts) data) fuel"
    and "lk_out k sd to = c" and "lk_inp k sd_in = c" and "lk_out k sd_out to' = d"
    and "lk_inp k sd' = d" and "c \<noteq> d" and "lk_queue k s c = []" and "lk_queue k s d = []"
  shows "\<exists>s1 s2 s3 n. stream_send net lz fuel s sd data opts to = Inr (s1, length data) \<and>
    stream_forward net fuel s1 sd_in sd_out to' = Inr (s2, n) \<and>
    stream_recv net lz fuel s2 sd' (length data) = Inr (s3, data) \<and>
    lk_queue k s3 = lk_queue k s"
  using assms by (rule stream_relay_correct)

theorem stream_relay_witness:
  "\<exists>s1 s2 s3 n. stream_send net0 lz0 10 (\<lambda>_. []) 4 [1, 2, 3] (Some opts2) 5 = Inr (s1, 3) \<and>
    stream_forward net0 10 s1 5 6 7 = Inr (s2, n) \<and> stream_recv net0 lz0 10 s2 7 3 = Inr (s3, [1, 2, 3])"
  using stream_relay [of net0 link0 "\<lambda>_. []" lz0 "Some opts2" "[1, 2, 3]" 10 4 5 5 5 6 7 7 7] lz0_ok
  by (auto simp: BLOCKSIZE_def opts2_simps numeral_3_eq_3)

text \<open>
  C35: with a block size of zero, which a fetch request can ask for, \<^verbatim>\<open>stream_send\<close> does not
  return when there are data to send, compressed or not: no number of rounds is enough. Without
  data it sends an empty stream.
\<close>

theorem stream_send_zero_hangs:
  assumes "reliable net k" and "lk_ok k s" and "BLOCKSIZE \<le> lk_lim k" and "lzo_ok lz" and "so_blksz p = 0"
  shows "if data = [] then \<exists>s'. stream_send net lz fuel s sd data (Some p) to = Inr (s', 0)
    else stream_send net lz fuel s sd data (Some p) to = Inl Out_Of_Fuel"
  using stream_send_zero_block(1) [OF assms, of data fuel sd to] stream_send_zero_block(2) [OF assms, of fuel sd to] by simp

theorem stream_send_zero_hangs_witness:
  "\<forall>fuel. stream_send net0 lz0 fuel (\<lambda>_. []) 4 [1] (Some \<lparr>so_fmt = STREAM_FORMAT_LZO1X_1, so_blksz = 0\<rparr>) 5 =
    Inl Out_Of_Fuel"
proof
  fix fuel
  have "BLOCKSIZE \<le> lk_lim link0" "so_blksz \<lparr>so_fmt = STREAM_FORMAT_LZO1X_1, so_blksz = 0\<rparr> = 0"
    by (simp_all add: BLOCKSIZE_def)
  from stream_send_zero_hangs [OF link0_simps(1,2) this(1) lz0_ok this(2), of "[1]" fuel "\<lambda>_. []" 4 5]
  show "stream_send net0 lz0 fuel (\<lambda>_. []) 4 [1] (Some \<lparr>so_fmt = STREAM_FORMAT_LZO1X_1, so_blksz = 0\<rparr>) 5 =
    Inl Out_Of_Fuel" by simp
qed

section \<open>The red-black tree\<close>

text \<open>
  C36: with a comparison function that orders the keys, inserting a new item rebalances to a
  red-black tree with the item between the smaller and the greater ones, and no write
  leaves the ancestor arrays.
\<close>

theorem rb_insert_new:
  assumes "rb_item_order cmp key valid" and "rb_inv key tree"
    and "\<forall>x\<in>set (inorder (rb_root tree)). valid x" and "rb_room tree" and "valid item"
    and "\<forall>x\<in>set (inorder (rb_root tree)). key x \<noteq> key item"
  shows "\<exists>tree'. rb_probe cmp tree item = Inr (tree', item) \<and> rb_inv key tree' \<and>
    rb_cnt tree' = rb_cnt tree + 1 \<and>
    inorder (rb_root tree') =
      filter (\<lambda>x. key x < key item) (inorder (rb_root tree)) @ item #
      filter (\<lambda>x. key item < key x) (inorder (rb_root tree))"
  using assms by (rule rb_item_order.rb_probe_new)

theorem rb_insert_new_witness:
  "\<exists>tree'. rb_probe compare_ints \<lparr>rb_root = Node 5 NULL NULL RB_BLACK, rb_cnt = 1\<rparr> 3 = Inr (tree', 3) \<and>
    inorder (rb_root tree') = [3, 5]"
  using rb_insert_new [OF ints.rb_item_order_axioms, of "\<lparr>rb_root = Node 5 NULL NULL RB_BLACK, rb_cnt = 1\<rparr>" 3]
  by (auto simp: rb_inv_def rb_shape_def rb_sorted_def rb_room_def small_int_def INT_MAX_def)

text \<open>C37: deleting an item that is present rebalances to a red-black tree of the other items.\<close>

theorem rb_delete_old:
  assumes "rb_order cmp ikey key ivalid valid" and "rb_inv key tree"
    and "\<forall>x\<in>set (inorder (rb_root tree)). valid x" and "rb_room tree" and "ivalid i"
    and "a \<in> set (inorder (rb_root tree))" and "key a = ikey i"
  shows "\<exists>tree'. rb_delete cmp tree i = Inr (tree', Some a) \<and> rb_inv key tree' \<and>
    rb_cnt tree' = rb_cnt tree - 1 \<and>
    inorder (rb_root tree') = filter (\<lambda>x. key x \<noteq> ikey i) (inorder (rb_root tree))"
  using assms by (rule rb_order.rb_delete_present)

theorem rb_delete_old_witness:
  "\<exists>tree'. rb_delete compare_ints
      \<lparr>rb_root = Node 5 (Node 3 NULL NULL RB_BLACK) (Node 7 NULL NULL RB_BLACK) RB_BLACK, rb_cnt = 3\<rparr> 5 =
        Inr (tree', Some 5) \<and> rb_inv (\<lambda>a. a) tree' \<and> inorder (rb_root tree') = [3, 7]"
  using rb_delete_old [OF ints.rb_order_axioms,
      of "\<lparr>rb_root = Node 5 (Node 3 NULL NULL RB_BLACK) (Node 7 NULL NULL RB_BLACK) RB_BLACK, rb_cnt = 3\<rparr>" 5 5]
  by (auto simp: rb_inv_def rb_shape_def rb_sorted_def rb_room_def small_int_def INT_MAX_def)

text \<open>
  C38: on a tree of items of type \<^verbatim>\<open>int\<close> the self test's \<^verbatim>\<open>verify_tree\<close> returns for exactly the
  trees that are red-black trees (the colour of the root aside), strictly in order, with the right
  count; for every other it aborts, or overflows an \<^verbatim>\<open>int\<close> on the way.
\<close>

theorem verify_tree_exact:
  assumes "int_items (rb_root tree)"
  shows "verify_tree tree = Inr () \<longleftrightarrow>
    invc (rb_root tree) \<and> invh (rb_root tree) \<and> sorted_wrt (<) (inorder (rb_root tree)) \<and>
    rb_cnt tree = int (length (inorder (rb_root tree))) \<and> rb_cnt tree \<le> INT_MAX"
  using assms by (rule verify_tree_iff)

theorem verify_tree_exact_witness:
  "verify_tree \<lparr>rb_root = Node INT_MIN NULL (Node INT_MAX NULL NULL RB_RED) RB_BLACK, rb_cnt = 2\<rparr> = Inr () \<and>
   verify_tree \<lparr>rb_root = Node INT_MIN (Node INT_MIN NULL NULL RB_RED) NULL RB_BLACK, rb_cnt = 2\<rparr> \<noteq> Inr ()"
  using verify_tree_exact [of "\<lparr>rb_root = Node INT_MIN NULL (Node INT_MAX NULL NULL RB_RED) RB_BLACK, rb_cnt = 2\<rparr>"]
    verify_tree_exact [of "\<lparr>rb_root = Node INT_MIN (Node INT_MIN NULL NULL RB_RED) NULL RB_BLACK, rb_cnt = 2\<rparr>"]
  by (simp add: int_items_def INT_MIN_def INT_MAX_def)

text \<open>
  C39: the library's self test passes, whatever the random numbers it draws: after every deletion
  the tree is sound, and its copy is sound and equal to it.
\<close>

theorem rb_self_test:
  assumes "tree_size \<le> 65534"
  shows "self_test tree_size rs rs' = Inr []"
  using assms by (rule self_test_passes)

theorem rb_self_test_witness: "self_test 16 [3, 1, 4, 1, 5] [9, 2, 6] = Inr []"
  by (rule rb_self_test) simp

section \<open>The load balancer\<close>

text \<open>C40: a consumer without a platform is given the first free one of the load balancer.\<close>

theorem lb_allocates_first_free:
  assumes "lb_inv ag" and "ag_consumer_heap ag c = Some co" and "co_platform co = 0"
    and "find (free_platform ag) (set_elems (ag_lb_platforms ag)) = Some p"
  shows "\<exists>ag' pf. lb_allocate_platform ag c = Inr (ag', True) \<and> lb_inv ag' \<and>
    ag_platform_heap ag p = Some pf \<and> pf_consumer pf = 0 \<and>
    ag_platform_heap ag' = (ag_platform_heap ag)(p \<mapsto> pf\<lparr>pf_consumer := c\<rparr>) \<and>
    ag_consumer_heap ag' = (ag_consumer_heap ag)(c \<mapsto> co\<lparr>co_platform := p\<rparr>)"
  using assms by (rule lb_allocate_some)

theorem lb_allocates_first_free_witness:
  "\<exists>ag'. lb_allocate_platform (ag2 0 0) 2 = Inr (ag', True) \<and>
    map_option pf_consumer (ag_platform_heap ag' 5) = Some 2"
proof -
  have "ag_consumer_heap (ag2 0 0) 2 = Some (co0 set_create 0)" "co_platform (co0 set_create 0) = 0"
    "find (free_platform (ag2 0 0)) (set_elems (ag_lb_platforms (ag2 0 0))) = Some 5"
    by (simp_all add: ag2_def co0_def free_platform_def)
  from lb_allocates_first_free [OF ag2_inv(1) this] show ?thesis by auto
qed

end
